(* ===== verification/Lease.thy ===== *)
theory Lease
  imports Prelude
begin

text \<open>
  The contract of a lease: an operation, run by an actor at a time, may take a key over only
  if nobody else holds an unexpired lease on it, and never removes or shortens the unexpired
  lease of another actor. The claim ledger and the executor leases of the workflow engine
  provide this contract; what follows from it for whole histories is proved once here.

  \<open>lease s k\<close> is the holder of \<open>k\<close> with the last instant at which the lease is still live.
  \<open>admissible p\<close> restricts the operations the contract is promised for (a contender that
  uses a shorter time to live than the holder's is not).
\<close>

locale lease_protocol =
  fixes exec :: "'op \<Rightarrow> time \<Rightarrow> 's \<Rightarrow> 's"
    and actor :: "'op \<Rightarrow> 'o"
    and admissible :: "'op \<Rightarrow> bool"
    and granted :: "'op \<Rightarrow> time \<Rightarrow> 's \<Rightarrow> 'k \<Rightarrow> bool"
    and lease :: "'s \<Rightarrow> 'k \<Rightarrow> ('o \<times> time) option"
  assumes no_steal:
    "lease s k = Some (h, e) \<Longrightarrow> t \<le> e \<Longrightarrow> actor p \<noteq> h \<Longrightarrow> admissible p
      \<Longrightarrow> lease (exec p t s) k = Some (h, e)"
    and grant_excl:
    "granted p t s k \<Longrightarrow> admissible p \<Longrightarrow> lease s k = Some (h, e) \<Longrightarrow> t \<le> e \<Longrightarrow> actor p = h"
    and grant_holds:
    "granted p t s k \<Longrightarrow> \<exists>e. lease (exec p t s) k = Some (actor p, e)"
begin

text \<open>A history is a list of timed operations, executed in order from the left.\<close>

lemma history_keeps:
  "lease s k = Some (h, e) \<Longrightarrow> \<forall>(t, p)\<in>set ps. t \<le> e \<and> actor p \<noteq> h \<and> admissible p
     \<Longrightarrow> lease (foldl (\<lambda>s (t, p). exec p t s) s ps) k = Some (h, e)"
proof (induction ps arbitrary: s)
  case Nil
  then show ?case by simp
next
  case (Cons tp ps)
  obtain t p where [simp]: "tp = (t, p)" by (cases tp)
  from Cons.prems have "lease (exec p t s) k = Some (h, e)"
    by (intro no_steal) auto
  moreover from Cons.prems(2) have "\<forall>(t, p)\<in>set ps. t \<le> e \<and> actor p \<noteq> h \<and> admissible p" by simp
  ultimately show ?case using Cons.IH by simp
qed

text \<open>While a lease is live, no operation of another actor is granted the key.\<close>

lemma history_no_grant:
  assumes "lease s k = Some (h, e)" "\<forall>(t, p)\<in>set ps. t \<le> e \<and> actor p \<noteq> h \<and> admissible p"
    and "u \<le> e" "admissible q" "granted q u (foldl (\<lambda>s (t, p). exec p t s) s ps) k"
  shows "actor q = h"
  using history_keeps [OF assms(1,2)] grant_excl [OF assms(5,4) _ assms(3)] by blast

text \<open>Two grants of one key to different actors are separated by the expiry of the first.\<close>

lemma grants_separated:
  assumes "lease (exec p t s) k = Some (actor p, e)"
    and "\<forall>(t, q)\<in>set ps. t \<le> e \<and> actor q \<noteq> actor p \<and> admissible q"
    and "granted q u (foldl (\<lambda>s (t, p). exec p t s) (exec p t s) ps) k"
    and "admissible q" "actor q \<noteq> actor p"
  shows "e < u"
  using history_no_grant [OF assms(1,2) _ assms(4,3)] assms(5) by force

end

end
