(* ===== verification/Claim_Ledger.thy ===== *)
theory Claim_Ledger
  imports Lease
begin

text \<open>
  The generic leased-claim ledger of \<^verbatim>\<open>crates/agentflare-db-kit/src/claim.rs\<close> and its use for
  work items in \<^verbatim>\<open>crates/agentflare-backend/src/claim.rs\<close>. The SQL table is an association
  list from the key columns (the primary key) to the remaining columns; each statement is the
  update it performs, with the \<open>WHERE\<close> clause as the condition. Timestamps are epoch seconds; they and their differences are
  taken to stay in the range of \<open>i64\<close>.
\<close>

section \<open>The table and the ledger\<close>

record claim_row =
  row_owner :: string
  row_status :: string
  row_created_at :: time
  row_heartbeat_at :: time

type_synonym claim_key = "string list"
type_synonym claim_db = "(claim_key \<times> claim_row) list"

record claim_ledger =
  ledger_table :: string
  key_columns :: "string list"

text \<open>
  \<open>Arity\<close> is the panic of the \<open>assert_eq!\<close> on the number of key columns, \<open>NoRows\<close> the
  \<open>QueryReturnedNoRows\<close> error of a read that finds nothing.
\<close>

datatype claim_error = Arity | NoRows

datatype acquire_result =
    Acquired
  | Held (held_owner: string) (age_secs: int)

record claim =
  claim_key :: "string list"
  claim_owner :: string
  claim_status :: string
  claim_created_at :: time
  claim_heartbeat_at :: time
  claim_stale :: bool

definition key_params :: "claim_ledger \<Rightarrow> claim_key \<Rightarrow> claim_error + claim_key" where
  "key_params L key = (if length key = length (key_columns L) then Inr key else Inl Arity)"

definition fresh_row :: "string \<Rightarrow> time \<Rightarrow> claim_row" where
  "fresh_row owner now =
     \<lparr>row_owner = owner, row_status = ''claimed'', row_created_at = now, row_heartbeat_at = now\<rparr>"

text \<open>The \<open>WHERE\<close> clause that lets an existing row be overwritten: done, stale or already ours.\<close>

definition overwritable :: "claim_row \<Rightarrow> string \<Rightarrow> time \<Rightarrow> bool" where
  "overwritable r owner stale_before \<longleftrightarrow>
     row_status r = ''done'' \<or> row_heartbeat_at r < stale_before \<or> row_owner r = owner"

section \<open>Operations\<close>

definition acquire ::
  "claim_ledger \<Rightarrow> claim_db \<Rightarrow> claim_key \<Rightarrow> string \<Rightarrow> time \<Rightarrow> int
     \<Rightarrow> claim_db \<times> (claim_error + acquire_result)" where
  "acquire L db key owner now ttl_secs =
     (case key_params L key of
        Inl e \<Rightarrow> (db, Inl e)
      | Inr key \<Rightarrow>
          let stale_before = now - ttl_secs;
              upsert = (case map_of db key of
                  None \<Rightarrow> True
                | Some r \<Rightarrow> overwritable r owner stale_before);
              db' = (if upsert then AList.update key (fresh_row owner now) db else db);
              written = (if upsert then Some (owner, now) else None);
              seen = (case written of
                  Some row \<Rightarrow> Some row
                | None \<Rightarrow> map_option (\<lambda>r. (row_owner r, row_heartbeat_at r)) (map_of db' key))
          in (case seen of
                None \<Rightarrow> (db', Inl NoRows)
              | Some (ro, hb) \<Rightarrow>
                  (db', Inr (if ro = owner then Acquired else Held ro (now - hb)))))"

definition acquire_existing ::
  "claim_ledger \<Rightarrow> claim_db \<Rightarrow> claim_key \<Rightarrow> string \<Rightarrow> time \<Rightarrow> int
     \<Rightarrow> claim_db \<times> (claim_error + acquire_result option)" where
  "acquire_existing L db key owner now ttl_secs =
     (case key_params L key of
        Inl e \<Rightarrow> (db, Inl e)
      | Inr key \<Rightarrow>
          let stale_before = now - ttl_secs in
          (case map_of db key of
             None \<Rightarrow> (db, Inr None)
           | Some r \<Rightarrow>
               if overwritable r owner stale_before
               then (AList.update key (fresh_row owner now) db, Inr (Some Acquired))
               else (db, Inr (Some (Held (row_owner r) (now - row_heartbeat_at r))))))"

text \<open>The owner-scoped updates report whether a row was changed.\<close>

definition update_owned ::
  "claim_ledger \<Rightarrow> claim_db \<Rightarrow> claim_key \<Rightarrow> string \<Rightarrow> (claim_row \<Rightarrow> claim_row)
     \<Rightarrow> claim_db \<times> (claim_error + bool)" where
  "update_owned L db key owner f =
     (case key_params L key of
        Inl e \<Rightarrow> (db, Inl e)
      | Inr key \<Rightarrow>
          (case map_of db key of
             None \<Rightarrow> (db, Inr False)
           | Some r \<Rightarrow>
               if row_owner r = owner then (AList.update key (f r) db, Inr True)
               else (db, Inr False)))"

definition heartbeat ::
  "claim_ledger \<Rightarrow> claim_db \<Rightarrow> claim_key \<Rightarrow> string \<Rightarrow> time \<Rightarrow> claim_db \<times> (claim_error + bool)" where
  "heartbeat L db key owner now = update_owned L db key owner (\<lambda>r. r\<lparr>row_heartbeat_at := now\<rparr>)"

definition release ::
  "claim_ledger \<Rightarrow> claim_db \<Rightarrow> claim_key \<Rightarrow> string \<Rightarrow> claim_db \<times> (claim_error + bool)" where
  "release L db key owner =
     (case key_params L key of
        Inl e \<Rightarrow> (db, Inl e)
      | Inr key \<Rightarrow>
          (case map_of db key of
             None \<Rightarrow> (db, Inr False)
           | Some r \<Rightarrow>
               if row_owner r = owner then (AList.delete key db, Inr True)
               else (db, Inr False)))"

definition is_owner :: "claim_ledger \<Rightarrow> claim_db \<Rightarrow> claim_key \<Rightarrow> string \<Rightarrow> claim_error + bool" where
  "is_owner L db key owner =
     (case key_params L key of
        Inl e \<Rightarrow> Inl e
      | Inr key \<Rightarrow>
          Inr (case map_of db key of
                 None \<Rightarrow> False
               | Some r \<Rightarrow> row_owner r = owner \<and> row_status r = ''claimed''))"

definition claim_done ::
  "claim_ledger \<Rightarrow> claim_db \<Rightarrow> claim_key \<Rightarrow> string \<Rightarrow> time \<Rightarrow> claim_db \<times> (claim_error + bool)" where
  "claim_done L db key owner now =
     update_owned L db key owner (\<lambda>r. r\<lparr>row_status := ''done'', row_heartbeat_at := now\<rparr>)"

text \<open>\<open>list\<close>: every row in key order, stale flag computed, live claims only on request.\<close>

definition to_claim :: "time \<Rightarrow> claim_key \<times> claim_row \<Rightarrow> claim" where
  "to_claim stale_before kr =
     (let r = snd kr in
      \<lparr>claim_key = fst kr, claim_owner = row_owner r, claim_status = row_status r,
       claim_created_at = row_created_at r, claim_heartbeat_at = row_heartbeat_at r,
       claim_stale = (row_status r = ''claimed'' \<and> row_heartbeat_at r < stale_before)\<rparr>)"

definition ledger_list :: "claim_db \<Rightarrow> bool \<Rightarrow> time \<Rightarrow> int \<Rightarrow> claim list" where
  "ledger_list db include_stale now ttl_secs =
     (let stale_before = now - ttl_secs;
          all = map (to_claim stale_before) (sort_key fst db)
      in if include_stale then all
         else filter (\<lambda>c. claim_status c = ''claimed'' \<and> \<not> claim_stale c) all)"

section \<open>Functional behaviour\<close>

lemmas ledger_op_defs =
  acquire_def acquire_existing_def heartbeat_def release_def claim_done_def update_owned_def
  key_params_def

lemma key_params_Inr [simp]: "key_params L key = Inr k \<longleftrightarrow> length key = length (key_columns L) \<and> k = key"
  by (auto simp: key_params_def)

lemma key_params_ok [simp]: "length key = length (key_columns L) \<Longrightarrow> key_params L key = Inr key"
  by (simp add: key_params_def)

lemma key_params_bad [simp]: "length key \<noteq> length (key_columns L) \<Longrightarrow> key_params L key = Inl Arity"
  by (simp add: key_params_def)

text \<open>\<open>acquire\<close> with a key of the right arity, by the row that is found.\<close>

lemma acquire_cases:
  assumes "length key = length (key_columns L)"
  shows "acquire L db key owner now ttl =
     (case map_of db key of
        None \<Rightarrow> (AList.update key (fresh_row owner now) db, Inr Acquired)
      | Some r \<Rightarrow>
          if overwritable r owner (now - ttl)
          then (AList.update key (fresh_row owner now) db, Inr Acquired)
          else (db, Inr (Held (row_owner r) (now - row_heartbeat_at r))))"
  using assms
  by (auto simp: acquire_def Let_def overwritable_def split: option.splits)

lemma overwritable_mono:
  "overwritable r owner sb \<Longrightarrow> sb \<le> sb' \<Longrightarrow> overwritable r owner sb'"
  by (auto simp: overwritable_def)

lemma fresh_row_sel [simp]:
  "row_owner (fresh_row ow t) = ow" "row_status (fresh_row ow t) = ''claimed''"
  "row_created_at (fresh_row ow t) = t" "row_heartbeat_at (fresh_row ow t) = t"
  by (simp_all add: fresh_row_def)

text \<open>No operation ever duplicates a key: the table keeps its primary key.\<close>

lemma ledger_distinct:
  assumes "distinct (map fst db)"
  shows "distinct (map fst (fst (acquire L db key ow now ttl)))"
    and "distinct (map fst (fst (acquire_existing L db key ow now ttl)))"
    and "distinct (map fst (fst (heartbeat L db key ow now)))"
    and "distinct (map fst (fst (release L db key ow)))"
    and "distinct (map fst (fst (claim_done L db key ow now)))"
  using assms
  by (auto simp: ledger_op_defs Let_def distinct_update distinct_delete
        split: sum.splits option.splits if_splits)

section \<open>The ledger as a lease\<close>

datatype ledger_op =
    OpAcquire claim_key string int
  | OpAcquireExisting claim_key string int
  | OpHeartbeat claim_key string
  | OpRelease claim_key string
  | OpDone claim_key string

fun op_owner :: "ledger_op \<Rightarrow> string" where
  "op_owner (OpAcquire _ w _) = w"
| "op_owner (OpAcquireExisting _ w _) = w"
| "op_owner (OpHeartbeat _ w) = w"
| "op_owner (OpRelease _ w) = w"
| "op_owner (OpDone _ w) = w"

text \<open>An acquirer may not use a shorter time to live than \<open>ttl\<close>.\<close>

fun op_ttl_ge :: "int \<Rightarrow> ledger_op \<Rightarrow> bool" where
  "op_ttl_ge ttl (OpAcquire _ _ n) = (ttl \<le> n)"
| "op_ttl_ge ttl (OpAcquireExisting _ _ n) = (ttl \<le> n)"
| "op_ttl_ge ttl _ = True"

fun ledger_exec :: "claim_ledger \<Rightarrow> ledger_op \<Rightarrow> time \<Rightarrow> claim_db \<Rightarrow> claim_db" where
  "ledger_exec L (OpAcquire k w n) t db = fst (acquire L db k w t n)"
| "ledger_exec L (OpAcquireExisting k w n) t db = fst (acquire_existing L db k w t n)"
| "ledger_exec L (OpHeartbeat k w) t db = fst (heartbeat L db k w t)"
| "ledger_exec L (OpRelease k w) t db = fst (release L db k w)"
| "ledger_exec L (OpDone k w) t db = fst (claim_done L db k w t)"

fun ledger_granted :: "claim_ledger \<Rightarrow> ledger_op \<Rightarrow> time \<Rightarrow> claim_db \<Rightarrow> claim_key \<Rightarrow> bool" where
  "ledger_granted L (OpAcquire k w n) t db k' \<longleftrightarrow>
     k = k' \<and> snd (acquire L db k w t n) = Inr Acquired"
| "ledger_granted L (OpAcquireExisting k w n) t db k' \<longleftrightarrow>
     k = k' \<and> snd (acquire_existing L db k w t n) = Inr (Some Acquired)"
| "ledger_granted L _ t db k' \<longleftrightarrow> False"

definition ledger_lease :: "int \<Rightarrow> claim_db \<Rightarrow> claim_key \<Rightarrow> (string \<times> time) option" where
  "ledger_lease ttl db k =
     (case map_of db k of
        None \<Rightarrow> None
      | Some r \<Rightarrow>
          if row_status r = ''claimed'' then Some (row_owner r, row_heartbeat_at r + ttl) else None)"

lemma ledger_lease_Some:
  "ledger_lease ttl db k = Some (h, e) \<longleftrightarrow>
     (\<exists>r. map_of db k = Some r \<and> row_status r = ''claimed'' \<and> row_owner r = h
        \<and> e = row_heartbeat_at r + ttl)"
  by (auto simp: ledger_lease_def split: option.splits)

lemma ledger_lease_cong: "map_of db' k = map_of db k \<Longrightarrow> ledger_lease ttl db' k = ledger_lease ttl db k"
  by (simp add: ledger_lease_def)

text \<open>An operation of somebody else leaves the row of a live claim as it is.\<close>

lemma ledger_exec_frame:
  assumes "map_of db k = Some r" "row_status r = ''claimed''" "row_owner r \<noteq> op_owner p"
    and "t \<le> row_heartbeat_at r + ttl" "op_ttl_ge ttl p"
  shows "map_of (ledger_exec L p t db) k = Some r"
proof (cases p)
  case (OpAcquire k' w n)
  with assms show ?thesis
    by (cases "k' = k") (auto simp: acquire_def key_params_def overwritable_def Let_def
          split: option.splits)
next
  case (OpAcquireExisting k' w n)
  with assms show ?thesis
    by (cases "k' = k") (auto simp: acquire_existing_def key_params_def overwritable_def Let_def
          split: option.splits)
next
  case (OpHeartbeat k' w)
  with assms show ?thesis
    by (cases "k' = k") (auto simp: heartbeat_def update_owned_def key_params_def split: option.splits)
next
  case (OpRelease k' w)
  with assms show ?thesis
    by (cases "k' = k") (auto simp: release_def key_params_def split: option.splits)
next
  case (OpDone k' w)
  with assms show ?thesis
    by (cases "k' = k") (auto simp: claim_done_def update_owned_def key_params_def split: option.splits)
qed

interpretation cl: lease_protocol "ledger_exec L" op_owner "op_ttl_ge ttl" "ledger_granted L"
  "ledger_lease ttl" for L ttl
proof
  fix s k h e t p
  assume "ledger_lease ttl s k = Some (h, e)" "t \<le> e" "op_owner p \<noteq> h" "op_ttl_ge ttl p"
  then obtain r where r: "map_of s k = Some r" "row_status r = ''claimed''" "row_owner r = h"
      "e = row_heartbeat_at r + ttl" and "row_owner r \<noteq> op_owner p" "t \<le> row_heartbeat_at r + ttl"
      "op_ttl_ge ttl p"
    by (auto simp: ledger_lease_Some)
  then have "map_of (ledger_exec L p t s) k = Some r"
    by (intro ledger_exec_frame)
  with r show "ledger_lease ttl (ledger_exec L p t s) k = Some (h, e)"
    by (simp add: ledger_lease_Some)
next
  fix p t s k h e
  assume "ledger_granted L p t s k" "op_ttl_ge ttl p" "ledger_lease ttl s k = Some (h, e)" "t \<le> e"
  then show "op_owner p = h"
    by (cases p) (auto simp: ledger_lease_Some acquire_def acquire_existing_def key_params_def
        overwritable_def Let_def split: if_splits option.splits)
next
  fix p t s k
  assume "ledger_granted L p t s k"
  then show "\<exists>e. ledger_lease ttl (ledger_exec L p t s) k = Some (op_owner p, e)"
    by (cases p) (auto simp: ledger_lease_Some acquire_def acquire_existing_def key_params_def
        overwritable_def Let_def split: if_splits option.splits)
qed

section \<open>Claims on work items\<close>

text \<open>
  \<^verbatim>\<open>crates/agentflare-backend/src/claim.rs\<close>: the ledger over \<open>item_claims\<close>, keyed by the item.
  The environment variable and the state group of the item (looked up in the item and state
  tables) are arguments.
\<close>

definition item_ledger :: claim_ledger where
  "item_ledger = \<lparr>ledger_table = ''item_claims'', key_columns = [''item_id'']\<rparr>"

definition item_acquire ::
  "claim_db \<Rightarrow> string \<Rightarrow> string \<Rightarrow> time \<Rightarrow> int \<Rightarrow> claim_db \<times> (claim_error + acquire_result)" where
  "item_acquire db item owner now ttl = acquire item_ledger db [item] owner now ttl"

definition acquire_if_stale_only ::
  "claim_db \<Rightarrow> string \<Rightarrow> string \<Rightarrow> time \<Rightarrow> int \<Rightarrow> claim_db \<times> (claim_error + acquire_result option)" where
  "acquire_if_stale_only db item owner now ttl = acquire_existing item_ledger db [item] owner now ttl"

definition item_heartbeat ::
  "claim_db \<Rightarrow> string \<Rightarrow> string \<Rightarrow> time \<Rightarrow> claim_db \<times> (claim_error + bool)" where
  "item_heartbeat db item owner now = heartbeat item_ledger db [item] owner now"

definition item_release :: "claim_db \<Rightarrow> string \<Rightarrow> string \<Rightarrow> claim_db \<times> (claim_error + bool)" where
  "item_release db item owner = release item_ledger db [item] owner"

definition item_done ::
  "claim_db \<Rightarrow> string \<Rightarrow> string \<Rightarrow> time \<Rightarrow> claim_db \<times> (claim_error + bool)" where
  "item_done db item owner now = claim_done item_ledger db [item] owner now"

definition item_is_owner :: "claim_db \<Rightarrow> string \<Rightarrow> string \<Rightarrow> claim_error + bool" where
  "item_is_owner db item owner = is_owner item_ledger db [item] owner"

definition default_ttl_secs :: "string option \<Rightarrow> int" where
  "default_ttl_secs env = as_i64 (case Option.bind env parse_u64 of None \<Rightarrow> 1800 | Some n \<Rightarrow> n)"

definition effective_ttl_secs :: "string option \<Rightarrow> string option \<Rightarrow> int \<Rightarrow> int" where
  "effective_ttl_secs env state_group requested =
     (if state_group = Some ''in_review'' then min requested (default_ttl_secs env) else requested)"

definition current_owner :: "string option \<Rightarrow> claim_db \<Rightarrow> string \<Rightarrow> time \<Rightarrow> string option" where
  "current_owner env db item now =
     map_option claim_owner
       (find (\<lambda>c. claim_key c = [item] \<and> claim_status c = ''claimed'')
         (ledger_list db True now (default_ttl_secs env)))"

record live_claim =
  live_owner :: string
  live_age_secs :: int

definition live_claim_on_item :: "claim_db \<Rightarrow> string \<Rightarrow> time \<Rightarrow> int \<Rightarrow> live_claim option" where
  "live_claim_on_item db item now ttl =
     map_option (\<lambda>c. \<lparr>live_owner = claim_owner c, live_age_secs = now - claim_heartbeat_at c\<rparr>)
       (find (\<lambda>c. claim_key c = [item]) (ledger_list db False now ttl))"

definition has_active_claim_by_other :: "claim_db \<Rightarrow> string \<Rightarrow> string \<Rightarrow> time \<Rightarrow> int \<Rightarrow> bool" where
  "has_active_claim_by_other db item owner now ttl \<longleftrightarrow>
     list_ex (\<lambda>c. claim_key c = [item] \<and> claim_owner c \<noteq> owner) (ledger_list db False now ttl)"

definition list_active_claims :: "claim_db \<Rightarrow> time \<Rightarrow> int \<Rightarrow> string list" where
  "list_active_claims db now ttl =
     map (\<lambda>c. hd (claim_key c))
       (filter (\<lambda>c. length (claim_key c) = 1) (ledger_list db False now ttl))"

lemma to_claim_sel [simp]:
  "claim_key (to_claim sb (k, r)) = k" "claim_owner (to_claim sb (k, r)) = row_owner r"
  "claim_status (to_claim sb (k, r)) = row_status r"
  "claim_heartbeat_at (to_claim sb (k, r)) = row_heartbeat_at r"
  "claim_stale (to_claim sb (k, r)) \<longleftrightarrow> row_status r = ''claimed'' \<and> row_heartbeat_at r < sb"
  by (simp_all add: to_claim_def Let_def)

lemma set_ledger_list:
  "set (ledger_list db stale now ttl) =
     {c. \<exists>k r. (k, r) \<in> set db \<and> c = to_claim (now - ttl) (k, r)
        \<and> (stale \<or> (row_status r = ''claimed'' \<and> now - ttl \<le> row_heartbeat_at r))}"
  by (cases stale) (force simp: ledger_list_def Let_def not_less)+

lemma find_ledger_list:
  assumes "distinct (map fst db)"
  shows "find (\<lambda>c. claim_key c = k) (ledger_list db False now ttl) =
     (case map_of db k of
        None \<Rightarrow> None
      | Some r \<Rightarrow>
          if row_status r = ''claimed'' \<and> now - ttl \<le> row_heartbeat_at r
          then Some (to_claim (now - ttl) (k, r)) else None)" (is "?f = ?g")
proof (cases "?f")
  case None
  then have "\<And>c. c \<in> set (ledger_list db False now ttl) \<Longrightarrow> claim_key c \<noteq> k"
    by (simp add: find_None_iff)
  then have "\<And>r. map_of db k = Some r
      \<Longrightarrow> \<not> (row_status r = ''claimed'' \<and> now - ttl \<le> row_heartbeat_at r)"
    by (fastforce simp: set_ledger_list dest!: map_of_SomeD)
  then have "?g = None" by (auto split: option.split)
  with None show ?thesis by simp
next
  case (Some c)
  then have "c \<in> set (ledger_list db False now ttl)" "claim_key c = k"
    by (auto dest: find_Some_iff_mem)
  then obtain r where "(k, r) \<in> set db" "c = to_claim (now - ttl) (k, r)"
      "row_status r = ''claimed''" "now - ttl \<le> row_heartbeat_at r"
    by (auto simp: set_ledger_list)
  with Some assms show ?thesis by simp
qed

section \<open>Properties\<close>

text \<open>C1: With a key of the right arity, \<open>acquire\<close> succeeds exactly when the key is free, done, stale
  or already the caller's; then the row is a fresh claim of the caller. Otherwise it reports the
  holder and the age of its heartbeat and leaves the table as it is. Other keys are never touched.\<close>

theorem acquire_outcome:
  assumes "length key = length (key_columns L)"
  shows "case acquire L db key owner now ttl of (db', res) \<Rightarrow>
     (case map_of db key of
        Some r \<Rightarrow>
          if row_status r = ''done'' \<or> row_heartbeat_at r < now - ttl \<or> row_owner r = owner
          then res = Inr Acquired \<and> map_of db' key = Some (fresh_row owner now)
          else res = Inr (Held (row_owner r) (now - row_heartbeat_at r)) \<and> db' = db
      | None \<Rightarrow> res = Inr Acquired \<and> map_of db' key = Some (fresh_row owner now))
     \<and> (\<forall>k. k \<noteq> key \<longrightarrow> map_of db' k = map_of db k)"
  using assms
  by (auto simp: acquire_cases overwritable_def split: option.splits)

theorem acquire_outcome_witness:
  "acquire item_ledger [([''i1''], fresh_row ''a'' 100)] [''i1''] ''b'' 150 60
     = ([([''i1''], fresh_row ''a'' 100)], Inr (Held ''a'' 50))"
  using acquire_outcome [of "[''i1'']" item_ledger, where db = "[([''i1''], fresh_row ''a'' 100)]"
      and owner = "''b''" and now = 150 and ttl = 60]
  by (simp add: item_ledger_def split: prod.splits)

text \<open>C2: A live claim is safe: as long as only other owners act, none of them later than the
  heartbeat plus \<open>ttl\<close> and none acquiring with a shorter time to live, the holder's row stays the
  holder's whatever they do (acquire, steal, heartbeat, release, done), in any order.\<close>

theorem live_claim_survives:
  assumes "map_of db k = Some r" "row_status r = ''claimed''"
    and "\<forall>(t, p)\<in>set ps. t \<le> row_heartbeat_at r + ttl \<and> op_owner p \<noteq> row_owner r \<and> op_ttl_ge ttl p"
  shows "ledger_lease ttl (foldl (\<lambda>db (t, p). ledger_exec L p t db) db ps) k
           = Some (row_owner r, row_heartbeat_at r + ttl)"
  by (rule cl.history_keeps) (use assms in \<open>auto simp: ledger_lease_Some\<close>)

theorem live_claim_survives_witness:
  "ledger_lease 60
     (foldl (\<lambda>db (t, p). ledger_exec item_ledger p t db) [([''i1''], fresh_row ''a'' 100)]
       [(120, OpAcquire [''i1''] ''b'' 60), (130, OpRelease [''i1''] ''b''),
        (160, OpAcquireExisting [''i1''] ''c'' 90)]) [''i1''] = Some (''a'', 160)"
  using live_claim_survives [of "[([''i1''], fresh_row ''a'' 100)]" "[''i1'']" "fresh_row ''a'' 100"
      "[(120, OpAcquire [''i1''] ''b'' 60), (130, OpRelease [''i1''] ''b''),
        (160, OpAcquireExisting [''i1''] ''c'' 90)]" 60 item_ledger]
  by simp

text \<open>Mutual exclusion over time: if one owner is granted a key at \<open>t\<close>, and then, with only other
  owners acting and each by \<open>t + ttl\<close>, another owner is granted the same key at \<open>u\<close>, then the first
  lease had expired: \<open>t + ttl < u\<close>.\<close>

lemma claims_exclusive:
  assumes "ledger_granted L (OpAcquire k w n) t db k"
    and "\<forall>(v, q)\<in>set ps. v \<le> t + ttl \<and> op_owner q \<noteq> w \<and> op_ttl_ge ttl q"
    and "ledger_granted L q u
      (foldl (\<lambda>db (t, p). ledger_exec L p t db) (ledger_exec L (OpAcquire k w n) t db) ps) k"
    and "op_ttl_ge ttl q" "op_owner q \<noteq> w"
  shows "t + ttl < u"
proof -
  have "ledger_lease ttl (ledger_exec L (OpAcquire k w n) t db) k = Some (w, t + ttl)"
    using assms(1)
    by (auto simp: ledger_lease_Some acquire_def key_params_def Let_def overwritable_def
        split: if_splits option.splits)
  with assms show ?thesis
    using cl.grants_separated [of ttl L "OpAcquire k w n" t db k "t + ttl" ps q u] by simp
qed

lemma claims_exclusive_example:
  "ledger_granted item_ledger (OpAcquire [''i1''] ''a'' 60) 100 [] [''i1'']
   \<and> ledger_granted item_ledger (OpAcquire [''i1''] ''b'' 60) 161
       (ledger_exec item_ledger (OpAcquire [''i1''] ''a'' 60) 100 []) [''i1'']
   \<and> (100::int) + 60 < 161"
proof -
  have g1: "ledger_granted item_ledger (OpAcquire [''i1''] ''a'' 60) 100 [] [''i1'']"
    by (simp add: acquire_def item_ledger_def)
  have g2: "ledger_granted item_ledger (OpAcquire [''i1''] ''b'' 60) 161
      (ledger_exec item_ledger (OpAcquire [''i1''] ''a'' 60) 100 []) [''i1'']"
    by (simp add: acquire_def item_ledger_def overwritable_def fresh_row_def)
  have "(100::int) + 60 < 161"
    by (rule claims_exclusive [OF g1, of "[]" 60 "OpAcquire [''i1''] ''b'' 60" 161])
      (use g2 in simp_all)
  with g1 g2 show ?thesis by blast
qed

text \<open>What the item layer reports agrees with the lease: \<open>live_claim_on_item\<close> returns a holder
  exactly when the row is claimed and its heartbeat is at most \<open>ttl\<close> old, and another owner's
  \<open>acquire\<close> is then answered \<open>Held\<close> with that holder and age.\<close>

lemma live_claim_agrees_with_acquire:
  assumes "distinct (map fst db)" "owner \<noteq> live_owner c"
  shows "live_claim_on_item db item now ttl = Some c \<Longrightarrow>
     item_acquire db item owner now ttl = (db, Inr (Held (live_owner c) (live_age_secs c)))
     \<and> has_active_claim_by_other db item owner now ttl"
proof -
  assume "live_claim_on_item db item now ttl = Some c"
  then obtain r where r: "map_of db [item] = Some r" "row_status r = ''claimed''"
      "now - ttl \<le> row_heartbeat_at r" "live_owner c = row_owner r"
      "live_age_secs c = now - row_heartbeat_at r"
    by (auto simp: live_claim_on_item_def find_ledger_list [OF assms(1)] split: option.splits if_splits)
  then have "to_claim (now - ttl) ([item], r) \<in> set (ledger_list db False now ttl)"
    by (auto simp: set_ledger_list dest: map_of_SomeD)
  with r assms(2) have "has_active_claim_by_other db item owner now ttl"
    by (auto simp: has_active_claim_by_other_def list_ex_iff intro: bexI [of _ "to_claim (now - ttl) ([item], r)"])
  with r assms(2) show ?thesis
    by (auto simp: item_acquire_def acquire_cases item_ledger_def overwritable_def)
qed

lemma live_claim_agrees_with_acquire_example:
  "item_acquire [([''i1''], fresh_row ''a'' 100)] ''i1'' ''b'' 130 60
     = ([([''i1''], fresh_row ''a'' 100)], Inr (Held ''a'' 30))"
proof -
  have "live_claim_on_item [([''i1''], fresh_row ''a'' 100)] ''i1'' 130 60
      = Some \<lparr>live_owner = ''a'', live_age_secs = 30\<rparr>"
    by (simp add: live_claim_on_item_def ledger_list_def Let_def to_claim_def)
  from live_claim_agrees_with_acquire [OF _ _ this, of "''b''"] show ?thesis by simp
qed

end
