(* ===== verification/Wf_Types.thy ===== *)
theory Wf_Types
  imports Prelude
begin

text \<open>
  The vocabulary of the workflow engine, \<^verbatim>\<open>crates/flare-workflow/src/types.rs\<close>: identifiers,
  step modes, retry policies, statuses, step states, journal entries, errors and executor leases.
  Identifiers are the strings they wrap; a run id (a UUID) is a natural number. A timestamp is an
  integer number of nanoseconds, the serialised bytes of a journal entry are a string.
\<close>

section \<open>Identifiers, step modes and policies\<close>

type_synonym workflow_id = string
type_synonym run_id = nat
type_synonym step_id = string

datatype step_mode =
    Sequential
  | FanOut
  | Collect
  | Conditional string
  | Loop (max_iterations: nat) (loop_until: string)
  | Sleep nat
  | SleepUntil time
  | WaitEvent string nat

datatype error_mode = EFail | ESkip | ERetry nat

datatype failure_action = FailWorkflow | ContinueNextStep | RetryIndefinitely

datatype backoff_strategy =
    BFixed duration
  | BExponential (exp_base: duration) (exp_max: duration)
  | BLinear (lin_increment: duration) (lin_max: duration)

record retry_policy =
  max_attempts :: nat
  backoff :: backoff_strategy

definition nanos_per_sec :: nat where
  "nanos_per_sec = 1000000000"

definition default_retry_policy :: retry_policy where
  "default_retry_policy =
     \<lparr>max_attempts = 3, backoff = BExponential (1 * nanos_per_sec) (30 * nanos_per_sec)\<rparr>"

section \<open>Statuses and step states\<close>

datatype workflow_status =
  WPending | WRunning | WWaiting | WPaused | WCompleted | WFailed | WCancelled

definition is_terminal :: "workflow_status \<Rightarrow> bool" where
  "is_terminal s = (case s of WCompleted \<Rightarrow> True | WFailed \<Rightarrow> True | WCancelled \<Rightarrow> True | _ \<Rightarrow> False)"

lemma is_terminal_simps [simp]:
  "is_terminal WCompleted" "is_terminal WFailed" "is_terminal WCancelled"
  "\<not> is_terminal WPending" "\<not> is_terminal WRunning" "\<not> is_terminal WWaiting" "\<not> is_terminal WPaused"
  by (simp_all add: is_terminal_def)

datatype step_status = SPending | SRunning | SSucceeded | SFailed | SRetrying | SSkipped

record step_state =
  ss_status :: step_status
  ss_attempt :: nat
  ss_last_error :: "string option"
  ss_started_at :: "time option"
  ss_completed_at :: "time option"
  ss_input_tokens :: nat
  ss_output_tokens :: nat
  ss_duration_ms :: nat

definition default_step_state :: step_state where
  "default_step_state =
     \<lparr>ss_status = SPending, ss_attempt = 0, ss_last_error = None, ss_started_at = None,
      ss_completed_at = None, ss_input_tokens = 0, ss_output_tokens = 0, ss_duration_ms = 0\<rparr>"

section \<open>The journal\<close>

datatype entry_result =
    ESuccess string
  | EFailure (failure_code: nat) (failure_message: string) (failure_metadata: "(string \<times> string) list")

datatype journal_entry =
    JInput string
  | JStepRun step_id nat "entry_result option"
  | JStateGet string "entry_result option"
  | JStateSet string string
  | JStateClear string
  | JSleep step_id time "entry_result option"
  | JWaitEvent string "entry_result option"
  | JRollback step_id nat "entry_result option"
  | JLoopIteration step_id nat string
  | JOutput entry_result

fun is_completed :: "journal_entry \<Rightarrow> bool" where
  "is_completed (JInput _) = True"
| "is_completed (JStepRun _ _ r) = (r \<noteq> None)"
| "is_completed (JStateGet _ v) = (v \<noteq> None)"
| "is_completed (JStateSet _ _) = True"
| "is_completed (JStateClear _) = True"
| "is_completed (JSleep _ _ r) = (r \<noteq> None)"
| "is_completed (JWaitEvent _ r) = (r \<noteq> None)"
| "is_completed (JRollback _ _ r) = (r \<noteq> None)"
| "is_completed (JOutput _) = True"
| "is_completed (JLoopIteration _ _ _) = True"

fun entry_type :: "journal_entry \<Rightarrow> string" where
  "entry_type (JInput _) = ''input''"
| "entry_type (JStepRun _ _ _) = ''step_run''"
| "entry_type (JStateGet _ _) = ''state_get''"
| "entry_type (JStateSet _ _) = ''state_set''"
| "entry_type (JStateClear _) = ''state_clear''"
| "entry_type (JSleep _ _ _) = ''sleep''"
| "entry_type (JWaitEvent _ _) = ''wait_event''"
| "entry_type (JRollback _ _ _) = ''rollback''"
| "entry_type (JOutput _) = ''output''"
| "entry_type (JLoopIteration _ _ _) = ''loop_iteration''"

section \<open>Results and errors\<close>

datatype step_result = RSuccess | RFailure | RFailed string | RSkip

datatype workflow_error =
    BudgetError string
  | NotFound run_id
  | DefinitionNotFound workflow_id
  | ResumeIdentityMismatch run_id
  | StepFailed step_id string
  | StepTimeout step_id
  | Cancelled run_id
  | Paused run_id
  | InvalidStateTransition workflow_status workflow_status
  | ShuttingDown
  | JournalError string
  | StoreError string

type_synonym 'a wf_result = "workflow_error + 'a"

text \<open>\<open>WorkflowError::is_retryable\<close> (\<^verbatim>\<open>retry.rs\<close>).\<close>

definition is_retryable :: "workflow_error \<Rightarrow> bool" where
  "is_retryable e = (case e of ShuttingDown \<Rightarrow> False | NotFound _ \<Rightarrow> False | _ \<Rightarrow> True)"

datatype start_once_result = SCreated run_id | SExisting run_id

fun start_once_run_id :: "start_once_result \<Rightarrow> run_id" where
  "start_once_run_id (SCreated i) = i"
| "start_once_run_id (SExisting i) = i"

fun was_created :: "start_once_result \<Rightarrow> bool" where
  "was_created (SCreated _) = True"
| "was_created (SExisting _) = False"

section \<open>Executor leases\<close>

record executor_lease =
  lease_owner :: string
  renewed_at :: time

text \<open>
  \<open>now.signed_duration_since(renewed_at) < ttl\<close>. A \<open>ttl\<close> beyond chrono's largest duration,
  \<open>i64::MAX\<close> milliseconds, is cut to it.
\<close>

definition chrono_duration_max :: nat where
  "chrono_duration_max = (2 ^ 63 - 1) * 1000000"

definition is_fresh :: "executor_lease \<Rightarrow> time \<Rightarrow> duration \<Rightarrow> bool" where
  "is_fresh l now ttl \<longleftrightarrow> now - renewed_at l < int (min ttl chrono_duration_max)"

lemma is_fresh_antimono: "is_fresh l t ttl \<Longrightarrow> u \<le> t \<Longrightarrow> is_fresh l u ttl"
  by (simp add: is_fresh_def)

end
