(* ===== verification/F64.thy ===== *)
theory F64
  imports Prelude
begin

text \<open>
  The binary64 numbers of Rust's \<open>f64\<close>. A finite value is \<open>Fin m e\<close>, the number \<open>m * 2 ^ e\<close>; an
  operation computes the exact dyadic result and rounds it to 53 significant bits, ties to even
  (with the exponent range of the format), so everything evaluates over the integers. The sign of
  zero is not kept: no source modelled here looks at it.
\<close>

datatype f64 = NaN | PInf | NInf | Fin int int

fun bitlen :: "nat \<Rightarrow> nat" where
  "bitlen n = (if n = 0 then 0 else Suc (bitlen (n div 2)))"

declare bitlen.simps [simp del]

lemma bitlen_bound: "n < 2 ^ bitlen n"
proof (induction n rule: bitlen.induct)
  case (1 n)
  show ?case
  proof (cases "n = 0")
    case True
    then show ?thesis by (simp add: bitlen.simps)
  next
    case False
    with "1.IH" have "n div 2 < 2 ^ bitlen (n div 2)" by simp
    with False show ?thesis by (simp add: bitlen.simps [of n])
  qed
qed

text \<open>Division by a power of two, rounded to the nearest integer, ties to the even one.\<close>

definition rne_div :: "int \<Rightarrow> nat \<Rightarrow> int" where
  "rne_div m k =
     (let q = m div 2 ^ k; r = m mod 2 ^ k; h = 2 * r in
      if h < 2 ^ k then q
      else if h > 2 ^ k then q + 1
      else if even q then q else q + 1)"

definition round64 :: "int \<Rightarrow> int \<Rightarrow> f64" where
  "round64 m e =
     (let k = max (int (bitlen (nat \<bar>m\<bar>)) - 53) (-1074 - e);
          m' = (if k \<le> 0 then m else rne_div m (nat k));
          e' = (if k \<le> 0 then e else e + k)
      in if m' \<noteq> 0 \<and> int (bitlen (nat \<bar>m'\<bar>)) + e' > 1024
         then (if m' > 0 then PInf else NInf)
         else Fin m' e')"

definition f_of_nat :: "nat \<Rightarrow> f64" where
  "f_of_nat n = round64 (int n) 0"

fun f_mul :: "f64 \<Rightarrow> f64 \<Rightarrow> f64" where
  "f_mul NaN y = NaN"
| "f_mul x NaN = NaN"
| "f_mul (Fin m e) (Fin n d) = round64 (m * n) (e + d)"
| "f_mul (Fin m e) PInf = (if m = 0 then NaN else if m > 0 then PInf else NInf)"
| "f_mul (Fin m e) NInf = (if m = 0 then NaN else if m > 0 then NInf else PInf)"
| "f_mul PInf (Fin m e) = (if m = 0 then NaN else if m > 0 then PInf else NInf)"
| "f_mul NInf (Fin m e) = (if m = 0 then NaN else if m > 0 then NInf else PInf)"
| "f_mul PInf PInf = PInf"
| "f_mul PInf NInf = NInf"
| "f_mul NInf PInf = NInf"
| "f_mul NInf NInf = PInf"

text \<open>
  Addition aligns the mantissas and rounds once. Division computes the quotient to more than 55
  bits and appends a sticky bit for the remainder, so that rounding sees the exact position.
\<close>

fun f_add :: "f64 \<Rightarrow> f64 \<Rightarrow> f64" where
  "f_add NaN y = NaN"
| "f_add x NaN = NaN"
| "f_add (Fin m e) (Fin n d) =
     round64 (m * 2 ^ nat (e - min e d) + n * 2 ^ nat (d - min e d)) (min e d)"
| "f_add PInf NInf = NaN"
| "f_add NInf PInf = NaN"
| "f_add PInf y = PInf"
| "f_add x PInf = PInf"
| "f_add NInf y = NInf"
| "f_add x NInf = NInf"

definition fin_div :: "int \<Rightarrow> int \<Rightarrow> int \<Rightarrow> int \<Rightarrow> f64" where
  "fin_div m e n d =
     (let k = nat (56 + int (bitlen (nat \<bar>n\<bar>)) - int (bitlen (nat \<bar>m\<bar>)));
          a = \<bar>m\<bar> * 2 ^ k;
          q = 2 * (a div \<bar>n\<bar>) + (if a mod \<bar>n\<bar> = 0 then 0 else 1)
      in round64 (sgn m * sgn n * q) (e - d - int k - 1))"

text \<open>Division by a positive finite number, the only case the sources have.\<close>

fun f_div_pos :: "f64 \<Rightarrow> int \<Rightarrow> int \<Rightarrow> f64" where
  "f_div_pos NaN n d = NaN"
| "f_div_pos PInf n d = PInf"
| "f_div_pos NInf n d = NInf"
| "f_div_pos (Fin m e) n d = fin_div m e n d"

text \<open>Comparison; every comparison with \<open>NaN\<close> is false. Two mantissas are aligned first.\<close>

definition align :: "int \<Rightarrow> int \<Rightarrow> int \<Rightarrow> int" where
  "align m e e0 = m * 2 ^ nat (e - e0)"

fun f_le :: "f64 \<Rightarrow> f64 \<Rightarrow> bool" where
  "f_le NaN y = False"
| "f_le x NaN = False"
| "f_le NInf y = True"
| "f_le x PInf = True"
| "f_le (Fin m e) (Fin n d) = (align m e (min e d) \<le> align n d (min e d))"
| "f_le _ _ = False"

definition f_lt :: "f64 \<Rightarrow> f64 \<Rightarrow> bool" where
  "f_lt x y \<longleftrightarrow> f_le x y \<and> \<not> f_le y x"

definition is_finite :: "f64 \<Rightarrow> bool" where
  "is_finite x = (case x of Fin _ _ \<Rightarrow> True | _ \<Rightarrow> False)"

text \<open>\<open>x.floor() as u64\<close> and \<open>x.ceil() as u64\<close>: the cast saturates at both ends, and maps NaN to 0.\<close>

definition floor_int :: "int \<Rightarrow> int \<Rightarrow> int" where
  "floor_int m e = (if e \<ge> 0 then m * 2 ^ nat e else m div 2 ^ nat (- e))"

definition clamp_u64 :: "int \<Rightarrow> nat" where
  "clamp_u64 i = (if i < 0 then 0 else min (nat i) u64_max)"

fun floor_u64 :: "f64 \<Rightarrow> nat" where
  "floor_u64 NaN = 0"
| "floor_u64 NInf = 0"
| "floor_u64 PInf = u64_max"
| "floor_u64 (Fin m e) = clamp_u64 (floor_int m e)"

fun ceil_u64 :: "f64 \<Rightarrow> nat" where
  "ceil_u64 NaN = 0"
| "ceil_u64 NInf = 0"
| "ceil_u64 PInf = u64_max"
| "ceil_u64 (Fin m e) = clamp_u64 (- floor_int (- m) e)"

lemma floor_u64_le: "floor_u64 x \<le> u64_max"
  by (cases x) (auto simp: clamp_u64_def)

lemma ceil_u64_le: "ceil_u64 x \<le> u64_max"
  by (cases x) (auto simp: clamp_u64_def)

lemma floor_int_le_ceil: "floor_int m e \<le> - floor_int (- m) e"
proof (cases "e \<ge> 0")
  case True
  then show ?thesis by (simp add: floor_int_def)
next
  case False
  let ?d = "2 ^ nat (- e) :: int"
  have d: "0 < ?d" by simp
  have "0 \<le> (m mod ?d + (- m) mod ?d) div ?d"
    by (simp add: pos_imp_zdiv_nonneg_iff)
  moreover have "(m + - m) div ?d = m div ?d + (- m) div ?d + (m mod ?d + (- m) mod ?d) div ?d"
    by (rule div_add1_eq)
  ultimately have "m div ?d + (- m) div ?d \<le> 0" by simp
  with False show ?thesis by (simp add: floor_int_def)
qed

lemma clamp_u64_mono: "i \<le> j \<Longrightarrow> clamp_u64 i \<le> clamp_u64 j"
  by (auto simp: clamp_u64_def min_def)

lemma floor_le_ceil_u64: "floor_u64 x \<le> ceil_u64 x"
  by (cases x) (simp_all add: clamp_u64_mono floor_int_le_ceil)

text \<open>The cast of a whole number of at most 53 bits is exact.\<close>

lemma bitlen_le: "n < 2 ^ k \<Longrightarrow> bitlen n \<le> k"
proof (induction k arbitrary: n)
  case 0
  then show ?case by (simp add: bitlen.simps)
next
  case (Suc k)
  show ?case
  proof (cases "n = 0")
    case True
    then show ?thesis by (simp add: bitlen.simps)
  next
    case False
    from Suc.prems have "n div 2 < 2 ^ k" by simp
    with Suc.IH False show ?thesis by (simp add: bitlen.simps [of n])
  qed
qed

lemma f_of_nat_exact: "n < 2 ^ 53 \<Longrightarrow> f_of_nat n = Fin (int n) 0"
  using bitlen_le [of n 53] by (simp add: f_of_nat_def round64_def Let_def max_def)

lemma floor_f_of_nat: "n < 2 ^ 53 \<Longrightarrow> floor_u64 (f_of_nat n) = n"
  by (simp add: f_of_nat_exact floor_int_def clamp_u64_def u64_max_def)

text \<open>Evaluation of closed terms by the simplifier, over binary numerals.\<close>

lemma bitlen_numeral [simp]:
  "bitlen 0 = 0" "bitlen 1 = 1" "bitlen (Suc 0) = 1"
  "bitlen (numeral (Num.Bit0 n)) = Suc (bitlen (numeral n))"
  "bitlen (numeral (Num.Bit1 n)) = Suc (bitlen (numeral n))"
  by (simp_all add: bitlen.simps)

lemma bitlen_numeral_One [simp]: "bitlen (numeral Num.One) = 1"
  by simp

lemmas f64_eval = f_of_nat_def round64_def rne_div_def align_def f_lt_def is_finite_def
  floor_int_def clamp_u64_def u64_max_def fin_div_def Let_def

lemma ceil_third_example:
  "ceil_u64 (f_mul (Fin 6004799503160661 (- 54)) (Fin 1000000 0)) = 333334"
  by (simp add: f64_eval)

end
