(* ===== verification/Wf_Budget.thy ===== *)
theory Wf_Budget
  imports Wf_Types F64
begin

text \<open>
  The durable budget ledger, \<^verbatim>\<open>crates/flare-workflow/src/budget.rs\<close>: limits of a run, reservations
  made before every provider call and reconciled after it. Dollar amounts are \<open>f64\<close> in the limits
  and whole microdollars in the ledger. The clock is the argument \<open>now\<close>; \<open>ts_ok\<close> says which
  timestamps the date library can represent (\<open>checked_add_signed\<close> fails on the others).
\<close>

section \<open>Limits\<close>

record budget_limits =
  max_cost_usd :: "f64 option"
  reserve_per_call_usd :: "f64 option"
  max_invocations :: "nat option"
  max_elapsed_secs :: "nat option"

definition default_limits :: budget_limits where
  "default_limits = \<lparr>max_cost_usd = None, reserve_per_call_usd = None, max_invocations = None,
     max_elapsed_secs = None\<rparr>"

definition budget_error :: "string \<Rightarrow> workflow_error" where
  "budget_error m = BudgetError m"

text \<open>The \<open>f64\<close> literals: one million, one billion, and the double nearest to one millionth.\<close>

definition f_million :: f64 where "f_million = Fin 1000000 0"
definition f_billion :: f64 where "f_billion = Fin 1000000000 0"
definition f_micro :: f64 where "f_micro = Fin 4722366482869645 (- 72)"

definition micro_usd :: "f64 \<Rightarrow> nat wf_result" where
  "micro_usd v =
     (if \<not> is_finite v \<or> \<not> (f_le (Fin 0 0) v \<and> f_le v f_billion)
      then Inl (budget_error ''cost must be finite, nonnegative and at most one billion USD'')
      else Inr (ceil_u64 (f_mul v f_million)))"

fun check_dollars :: "f64 list \<Rightarrow> unit wf_result" where
  "check_dollars [] = Inr ()"
| "check_dollars (v # vs) =
     (case micro_usd v of
        Inl e \<Rightarrow> Inl e
      | Inr _ \<Rightarrow>
          if f_lt v f_micro then Inl (budget_error ''dollar limits must be at least one microdollar'')
          else check_dollars vs)"

definition some_list :: "'a option \<Rightarrow> 'a list" where
  "some_list x = (case x of None \<Rightarrow> [] | Some a \<Rightarrow> [a])"

definition i64_max :: nat where
  "i64_max = 2 ^ 63 - 1"

definition validate_limits :: "budget_limits \<Rightarrow> unit wf_result" where
  "validate_limits l =
     (if l = default_limits then Inl (budget_error ''at least one limit is required'')
      else if (max_cost_usd l \<noteq> None) \<noteq> (reserve_per_call_usd l \<noteq> None)
        then Inl (budget_error ''max_cost_usd and reserve_per_call_usd must be specified together'')
      else (case check_dollars (some_list (max_cost_usd l) @ some_list (reserve_per_call_usd l)) of
          Inl e \<Rightarrow> Inl e
        | Inr _ \<Rightarrow>
            if max_invocations l = Some 0 \<or> max_elapsed_secs l = Some 0
            then Inl (budget_error ''invocation and elapsed limits must be positive'')
            else if (case max_elapsed_secs l of None \<Rightarrow> False | Some v \<Rightarrow> v > i64_max div 1000)
            then Inl (budget_error ''elapsed limit is too large'')
            else Inr ()))"

section \<open>The ledger\<close>

record invocation_charge =
  charge_id :: nat
  charge_step_id :: string
  charge_agent :: string
  charge_logical_attempt :: nat
  reserved_micro_usd :: "nat option"
  reported_micro_usd :: "nat option"
  settled :: bool

record budget_state =
  limits :: budget_limits
  started_at :: time
  invocations :: "invocation_charge list"

datatype budget_operation =
    Snapshot
  | Reserve (res_step: string) (res_agent: string) (res_attempt: nat)
  | Reconcile (rec_id: nat) (rec_cost: "f64 option")

record budget_reservation =
  br_id :: nat
  br_reserved :: "nat option"
  br_deadline :: "time option"

record budget_update =
  bu_state :: budget_state
  bu_reservation :: "budget_reservation option"

definition deadline :: "(time \<Rightarrow> bool) \<Rightarrow> budget_state \<Rightarrow> time option" where
  "deadline ts_ok b =
     (case max_elapsed_secs (limits b) of
        None \<Rightarrow> None
      | Some secs \<Rightarrow>
          if secs > i64_max then None
          else if secs > i64_max div 1000 then None
          else let d = started_at b + int secs * 1000000000 in
               if ts_ok d then Some d else None)"

definition new_budget :: "(time \<Rightarrow> bool) \<Rightarrow> budget_limits \<Rightarrow> time \<Rightarrow> budget_state wf_result" where
  "new_budget ts_ok l started =
     (case validate_limits l of
        Inl e \<Rightarrow> Inl e
      | Inr _ \<Rightarrow>
          let b = \<lparr>limits = l, started_at = started, invocations = []\<rparr> in
          if max_elapsed_secs l \<noteq> None \<and> deadline ts_ok b = None
          then Inl (budget_error ''deadline exceeds supported timestamp range'')
          else Inr b)"

text \<open>What a call counts for: its reported cost, else its reservation, else nothing.\<close>

definition charged :: "invocation_charge \<Rightarrow> nat" where
  "charged c =
     (case reported_micro_usd c of
        Some n \<Rightarrow> n
      | None \<Rightarrow> (case reserved_micro_usd c of Some n \<Rightarrow> n | None \<Rightarrow> 0))"

definition committed :: "budget_state \<Rightarrow> nat" where
  "committed b = foldl (\<lambda>sum c. sat_add64 sum (charged c)) 0 (invocations b)"

definition cap_timeout :: "(time \<Rightarrow> bool) \<Rightarrow> time \<Rightarrow> budget_state \<Rightarrow> duration \<Rightarrow> duration wf_result" where
  "cap_timeout ts_ok now b timeout =
     (case deadline ts_ok b of
        Some d \<Rightarrow>
          if d - now \<le> 0 then Inl (budget_error ''elapsed allowance exhausted'')
          else Inr (min timeout (nat (d - now)))
      | None \<Rightarrow> Inr timeout)"

definition overruns :: "invocation_charge \<Rightarrow> bool" where
  "overruns c =
     (case (reserved_micro_usd c, reported_micro_usd c) of
        (Some r, Some a) \<Rightarrow> a > r
      | _ \<Rightarrow> False)"

definition overrun :: "budget_state \<Rightarrow> bool" where
  "overrun b = list_ex overruns (invocations b)"

definition ceiling_micro :: "f64 \<Rightarrow> nat" where
  "ceiling_micro max_usd = floor_u64 (f_mul max_usd f_million)"

text \<open>The reservation of one call: \<open>None\<close> without a dollar limit.\<close>

definition reserve_amount :: "budget_state \<Rightarrow> nat option wf_result" where
  "reserve_amount b =
     (case (max_cost_usd (limits b), reserve_per_call_usd (limits b)) of
        (Some max_usd, Some per_call) \<Rightarrow>
          let remaining = ceiling_micro max_usd - committed b in
          if remaining = 0 then Inl (budget_error ''dollar allowance exhausted'')
          else (case micro_usd per_call of
                  Inl e \<Rightarrow> Inl e
                | Inr n \<Rightarrow> Inr (Some (min n remaining)))
      | _ \<Rightarrow> Inr None)"

definition apply_reserve ::
  "(time \<Rightarrow> bool) \<Rightarrow> time \<Rightarrow> budget_state \<Rightarrow> string \<Rightarrow> string \<Rightarrow> nat
     \<Rightarrow> budget_state \<times> budget_update wf_result" where
  "apply_reserve ts_ok now b step agent att =
     (case validate_limits (limits b) of
        Inl e \<Rightarrow> (b, Inl e)
      | Inr _ \<Rightarrow>
          if (case deadline ts_ok b of None \<Rightarrow> False | Some d \<Rightarrow> now \<ge> d)
          then (b, Inl (budget_error ''elapsed allowance exhausted''))
          else if overrun b
          then (b, Inl (budget_error ''a provider exceeded its reservation; further dispatch is blocked''))
          else if (case max_invocations (limits b) of None \<Rightarrow> False | Some m \<Rightarrow> length (invocations b) \<ge> m)
          then (b, Inl (budget_error ''invocation allowance exhausted''))
          else (case reserve_amount b of
              Inl e \<Rightarrow> (b, Inl e)
            | Inr reserved \<Rightarrow>
                let i = length (invocations b) + 1;
                    c = \<lparr>charge_id = i, charge_step_id = step, charge_agent = agent,
                         charge_logical_attempt = att, reserved_micro_usd = reserved,
                         reported_micro_usd = None, settled = False\<rparr>;
                    b' = b\<lparr>invocations := invocations b @ [c]\<rparr>
                in (b', Inr \<lparr>bu_state = b',
                      bu_reservation = Some \<lparr>br_id = i, br_reserved = reserved,
                        br_deadline = deadline ts_ok b'\<rparr>\<rparr>)))"

text \<open>\<open>Reconcile\<close> settles the first call with the id; a second, different report is refused.\<close>

fun settle_call :: "nat \<Rightarrow> nat option \<Rightarrow> invocation_charge list \<Rightarrow> invocation_charge list wf_result" where
  "settle_call i cost [] = Inl (budget_error ''unknown reservation'')"
| "settle_call i cost (c # cs) =
     (if charge_id c = i
      then (if settled c \<and> reported_micro_usd c \<noteq> cost
            then Inl (budget_error ''reservation already reconciled with different usage'')
            else Inr (c\<lparr>reported_micro_usd := cost, settled := True\<rparr> # cs))
      else (case settle_call i cost cs of Inl e \<Rightarrow> Inl e | Inr cs' \<Rightarrow> Inr (c # cs')))"

definition apply_reconcile ::
  "budget_state \<Rightarrow> nat \<Rightarrow> f64 option \<Rightarrow> budget_state \<times> budget_update wf_result" where
  "apply_reconcile b i cost_usd =
     (case (case cost_usd of None \<Rightarrow> Inr None
             | Some v \<Rightarrow> (case micro_usd v of Inl e \<Rightarrow> Inl e | Inr n \<Rightarrow> Inr (Some n))) of
        Inl e \<Rightarrow> (b, Inl e)
      | Inr cost \<Rightarrow>
          (case settle_call i cost (invocations b) of
             Inl e \<Rightarrow> (b, Inl e)
           | Inr cs \<Rightarrow>
               let b' = b\<lparr>invocations := cs\<rparr> in
               (b', Inr \<lparr>bu_state = b', bu_reservation = None\<rparr>)))"

fun apply_budget ::
  "(time \<Rightarrow> bool) \<Rightarrow> time \<Rightarrow> budget_state \<Rightarrow> budget_operation
     \<Rightarrow> budget_state \<times> budget_update wf_result" where
  "apply_budget ts_ok now b Snapshot = (b, Inr \<lparr>bu_state = b, bu_reservation = None\<rparr>)"
| "apply_budget ts_ok now b (Reserve step agent att) = apply_reserve ts_ok now b step agent att"
| "apply_budget ts_ok now b (Reconcile i cost) = apply_reconcile b i cost"

section \<open>The ledger invariant\<close>

text \<open>
  Ids count up from one, an unsettled call has no report, and under a dollar limit every call
  has a reservation.
\<close>

definition ledger_wf :: "budget_state \<Rightarrow> bool" where
  "ledger_wf b \<longleftrightarrow>
     map charge_id (invocations b) = [1..<length (invocations b) + 1]
     \<and> (\<forall>c\<in>set (invocations b). \<not> settled c \<longrightarrow> reported_micro_usd c = None)
     \<and> (max_cost_usd (limits b) \<noteq> None \<and> reserve_per_call_usd (limits b) \<noteq> None
          \<longrightarrow> (\<forall>c\<in>set (invocations b). reserved_micro_usd c \<noteq> None))"

definition within_ceiling :: "budget_state \<Rightarrow> bool" where
  "within_ceiling b \<longleftrightarrow>
     (case (max_cost_usd (limits b), reserve_per_call_usd (limits b)) of
        (Some m, Some _) \<Rightarrow> overrun b \<or> sum_list (map charged (invocations b)) \<le> ceiling_micro m
      | _ \<Rightarrow> True)"

definition within_calls :: "budget_state \<Rightarrow> bool" where
  "within_calls b \<longleftrightarrow>
     (case max_invocations (limits b) of None \<Rightarrow> True | Some m \<Rightarrow> length (invocations b) \<le> m)"

definition budget_inv :: "budget_state \<Rightarrow> bool" where
  "budget_inv b \<longleftrightarrow> ledger_wf b \<and> within_ceiling b \<and> within_calls b"

lemma committed_sum: "committed b = min (sum_list (map charged (invocations b))) u64_max"
proof -
  have "committed b = foldl sat_add64 0 (map charged (invocations b))"
    by (simp add: committed_def foldl_map)
  then show ?thesis by (simp add: sat_add64_fold)
qed

lemma ceiling_micro_le: "ceiling_micro m \<le> u64_max"
  by (simp add: ceiling_micro_def floor_u64_le)

lemma new_budget_inv: "new_budget ts_ok l st = Inr b \<Longrightarrow> budget_inv b"
  by (auto simp: new_budget_def Let_def budget_inv_def ledger_wf_def within_ceiling_def
      within_calls_def split: sum.splits if_splits option.splits)

text \<open>A successful reservation, in one fact.\<close>

lemma apply_reserve_ok:
  assumes "apply_reserve ts_ok now b step agent att = (b', Inr u)"
  obtains c where "b' = b\<lparr>invocations := invocations b @ [c]\<rparr>"
    "charge_id c = length (invocations b) + 1" "\<not> settled c" "reported_micro_usd c = None"
    "reserve_amount b = Inr (reserved_micro_usd c)" "\<not> overrun b"
    "case max_invocations (limits b) of None \<Rightarrow> True | Some m \<Rightarrow> length (invocations b) < m"
    "case deadline ts_ok b of None \<Rightarrow> True | Some d \<Rightarrow> now < d"
    "bu_reservation u = Some \<lparr>br_id = charge_id c, br_reserved = reserved_micro_usd c,
        br_deadline = deadline ts_ok b\<rparr>"
proof -
  from assms obtain r where r: "reserve_amount b = Inr r"
    by (auto simp: apply_reserve_def Let_def split: sum.splits if_splits)
  let ?c = "\<lparr>charge_id = length (invocations b) + 1, charge_step_id = step, charge_agent = agent,
    charge_logical_attempt = att, reserved_micro_usd = r, reported_micro_usd = None, settled = False\<rparr>"
  from assms r have "b' = b\<lparr>invocations := invocations b @ [?c]\<rparr>"
    by (auto simp: apply_reserve_def Let_def split: sum.splits if_splits)
  moreover from assms r have "\<not> overrun b"
    "case max_invocations (limits b) of None \<Rightarrow> True | Some m \<Rightarrow> length (invocations b) < m"
    "case deadline ts_ok b of None \<Rightarrow> True | Some d \<Rightarrow> now < d"
    "bu_reservation u = Some \<lparr>br_id = charge_id ?c, br_reserved = reserved_micro_usd ?c,
        br_deadline = deadline ts_ok b\<rparr>"
    by (auto simp: apply_reserve_def Let_def deadline_def split: sum.splits if_splits option.splits)
  ultimately show thesis using r by (intro that [of ?c]) auto
qed

lemma apply_reserve_err:
  "apply_reserve ts_ok now b step agent att = (b', Inl e) \<Longrightarrow> b' = b"
  by (auto simp: apply_reserve_def Let_def split: sum.splits if_splits)

lemma reserve_amount_bound:
  assumes "reserve_amount b = Inr r" "max_cost_usd (limits b) = Some m"
    "reserve_per_call_usd (limits b) = Some p"
  shows "\<exists>n. r = Some n \<and> sum_list (map charged (invocations b)) + n \<le> ceiling_micro m"
proof -
  let ?S = "sum_list (map charged (invocations b))"
  from assms obtain k where r: "r = Some (min k (ceiling_micro m - committed b))"
    and pos: "ceiling_micro m - committed b \<noteq> 0"
    by (auto simp: reserve_amount_def Let_def split: if_splits sum.splits)
  from pos ceiling_micro_le [of m] have "committed b < u64_max" by simp
  then have "committed b = ?S" by (simp add: committed_sum)
  with r pos show ?thesis by auto
qed

lemma apply_reserve_inv:
  assumes "budget_inv b"
  shows "budget_inv (fst (apply_reserve ts_ok now b step agent att))"
proof (cases "apply_reserve ts_ok now b step agent att")
  case (Pair b' res)
  show ?thesis
  proof (cases res)
    case (Inl e)
    with Pair assms show ?thesis by (auto dest: apply_reserve_err)
  next
    case (Inr u)
    with Pair have "apply_reserve ts_ok now b step agent att = (b', Inr u)" by simp
    then obtain c where c: "b' = b\<lparr>invocations := invocations b @ [c]\<rparr>"
      "charge_id c = length (invocations b) + 1" "\<not> settled c" "reported_micro_usd c = None"
      "reserve_amount b = Inr (reserved_micro_usd c)" "\<not> overrun b"
      "case max_invocations (limits b) of None \<Rightarrow> True | Some m \<Rightarrow> length (invocations b) < m"
      by (rule apply_reserve_ok)
    have "ledger_wf b'"
      using assms c(1-5) reserve_amount_bound [OF c(5)]
      by (fastforce simp: budget_inv_def ledger_wf_def)
    moreover have "within_ceiling b'"
      using reserve_amount_bound [OF c(5)] c(1,4)
      by (fastforce simp: within_ceiling_def charged_def split: option.split)
    moreover have "within_calls b'"
      using c(1,7) by (auto simp: within_calls_def split: option.splits)
    ultimately show ?thesis using Pair by (simp add: budget_inv_def)
  qed
qed

text \<open>What settling a call does to the list.\<close>

lemma settle_call_ok:
  "settle_call i cost cs = Inr cs' \<Longrightarrow>
     \<exists>xs c ys. cs = xs @ c # ys \<and> charge_id c = i \<and> (settled c \<longrightarrow> reported_micro_usd c = cost)
       \<and> cs' = xs @ c\<lparr>reported_micro_usd := cost, settled := True\<rparr> # ys"
proof (induction i cost cs arbitrary: cs' rule: settle_call.induct)
  case (1 i cost)
  then show ?case by simp
next
  case (2 i cost c cs)
  show ?case
  proof (cases "charge_id c = i")
    case True
    with "2.prems" have "c # cs = [] @ c # cs \<and> charge_id c = i
        \<and> (settled c \<longrightarrow> reported_micro_usd c = cost)
        \<and> cs' = [] @ c\<lparr>reported_micro_usd := cost, settled := True\<rparr> # cs"
      by (auto split: if_splits)
    then show ?thesis by blast
  next
    case False
    with "2.prems" obtain ds where ds: "settle_call i cost cs = Inr ds" "cs' = c # ds"
      by (auto split: sum.splits)
    with False "2.IH" obtain xs d ys where "cs = xs @ d # ys" "charge_id d = i"
        "settled d \<longrightarrow> reported_micro_usd d = cost"
        "ds = xs @ d\<lparr>reported_micro_usd := cost, settled := True\<rparr> # ys" by blast
    with ds(2) have "c # cs = (c # xs) @ d # ys \<and> charge_id d = i
        \<and> (settled d \<longrightarrow> reported_micro_usd d = cost)
        \<and> cs' = (c # xs) @ d\<lparr>reported_micro_usd := cost, settled := True\<rparr> # ys"
      by simp
    then show ?thesis by blast
  qed
qed

text \<open>Settling never hides an overrun, and without one it never raises what the call counts for.\<close>

lemma settle_charge:
  assumes "\<not> settled c \<longrightarrow> reported_micro_usd c = None" "settled c \<longrightarrow> reported_micro_usd c = cost"
  defines "c' \<equiv> c\<lparr>reported_micro_usd := cost, settled := True\<rparr>"
  shows "overruns c \<Longrightarrow> overruns c'"
    and "\<not> overruns c' \<Longrightarrow> reserved_micro_usd c \<noteq> None \<Longrightarrow> charged c' \<le> charged c"
  using assms by (auto simp: overruns_def charged_def split: option.splits)

lemma apply_reconcile_cases:
  "apply_reconcile b i cost_usd = (b', res) \<Longrightarrow>
     (case res of
        Inl e \<Rightarrow> b' = b
      | Inr u \<Rightarrow> \<exists>cost. settle_call i cost (invocations b) = Inr (invocations b')
          \<and> b' = b\<lparr>invocations := invocations b'\<rparr> \<and> bu_reservation u = None)"
  by (auto simp: apply_reconcile_def Let_def split: sum.splits option.splits)

lemma apply_reconcile_inv:
  assumes "budget_inv b"
  shows "budget_inv (fst (apply_reconcile b i cost_usd))"
    and "overrun b \<Longrightarrow> overrun (fst (apply_reconcile b i cost_usd))"
proof -
  obtain b' res where R: "apply_reconcile b i cost_usd = (b', res)" by fastforce
  note cs = apply_reconcile_cases [OF R]
  have "budget_inv b' \<and> (overrun b \<longrightarrow> overrun b')"
  proof (cases res)
    case (Inl e)
    with cs assms show ?thesis by simp
  next
    case (Inr u)
    with cs obtain cost where sc: "settle_call i cost (invocations b) = Inr (invocations b')"
      and b': "b' = b\<lparr>invocations := invocations b'\<rparr>" by auto
    from b' have lim: "limits b' = limits b" by (metis budget_state.select_convs(1) budget_state.surjective budget_state.update_convs(3))
    obtain xs c ys where l: "invocations b = xs @ c # ys" "settled c \<longrightarrow> reported_micro_usd c = cost"
        "invocations b' = xs @ c\<lparr>reported_micro_usd := cost, settled := True\<rparr> # ys"
      using settle_call_ok [OF sc] by blast
    from assms l(1) have u: "\<not> settled c \<longrightarrow> reported_micro_usd c = None"
      by (auto simp: budget_inv_def ledger_wf_def)
    note sets = settle_charge [OF u l(2)]
    have o: "overrun b \<longrightarrow> overrun b'"
      using sets(1) l(1,3) by (auto simp: overrun_def list_ex_iff)
    have "ledger_wf b'"
      using assms l lim by (auto simp: budget_inv_def ledger_wf_def)
    moreover have "within_calls b'"
      using assms l lim by (auto simp: budget_inv_def within_calls_def split: option.splits)
    moreover have "within_ceiling b'"
    proof (cases "overrun b' \<or> max_cost_usd (limits b) = None \<or> reserve_per_call_usd (limits b) = None")
      case True
      then show ?thesis using lim by (auto simp: within_ceiling_def split: option.split)
    next
      case False
      with o l have "\<not> overrun b" "\<not> overruns (c\<lparr>reported_micro_usd := cost, settled := True\<rparr>)"
        by (auto simp: overrun_def list_ex_iff)
      moreover from assms l(1) False have "reserved_micro_usd c \<noteq> None"
        by (auto simp: budget_inv_def ledger_wf_def)
      ultimately have "sum_list (map charged (invocations b')) \<le> sum_list (map charged (invocations b))"
        using sets(2) l(1,3) by simp
      with assms \<open>\<not> overrun b\<close> lim show ?thesis
        by (auto simp: budget_inv_def within_ceiling_def split: option.splits)
    qed
    ultimately show ?thesis using o by (simp add: budget_inv_def)
  qed
  with R show "budget_inv (fst (apply_reconcile b i cost_usd))"
    and "overrun b \<Longrightarrow> overrun (fst (apply_reconcile b i cost_usd))" by auto
qed

lemma apply_budget_inv: "budget_inv b \<Longrightarrow> budget_inv (fst (apply_budget ts_ok now b op))"
  by (cases op) (auto intro: apply_reserve_inv apply_reconcile_inv)

lemma apply_budget_overrun:
  assumes "budget_inv b" "overrun b"
  shows "overrun (fst (apply_budget ts_ok now b op))"
proof (cases op)
  case (Reserve step agent att)
  obtain b' res where "apply_reserve ts_ok now b step agent att = (b', res)" by fastforce
  with assms(2) Reserve show ?thesis
    by (cases res) (auto dest: apply_reserve_err elim: apply_reserve_ok)
qed (use assms in \<open>auto intro: apply_reconcile_inv\<close>)

lemma apply_budget_limits [simp]: "limits (fst (apply_budget ts_ok now b op)) = limits b"
proof (cases op)
  case (Reserve step agent att)
  then show ?thesis by (auto simp: apply_reserve_def Let_def split: sum.splits if_splits)
next
  case (Reconcile i cost)
  then show ?thesis by (auto simp: apply_reconcile_def Let_def split: sum.splits)
qed simp

text \<open>Histories of timed operations.\<close>

definition run_budget ::
  "(time \<Rightarrow> bool) \<Rightarrow> (time \<times> budget_operation) list \<Rightarrow> budget_state \<Rightarrow> budget_state" where
  "run_budget ts_ok ops b = foldl (\<lambda>b (now, op). fst (apply_budget ts_ok now b op)) b ops"

lemma run_budget_simps [simp]:
  "run_budget ts_ok [] b = b"
  "run_budget ts_ok ((now, op) # ops) b = run_budget ts_ok ops (fst (apply_budget ts_ok now b op))"
  by (simp_all add: run_budget_def)

lemma run_budget_inv: "budget_inv b \<Longrightarrow> budget_inv (run_budget ts_ok ops b)"
proof (induction ops arbitrary: b)
  case (Cons x ops)
  then show ?case by (cases x) (simp add: apply_budget_inv)
qed simp

lemma run_budget_limits [simp]: "limits (run_budget ts_ok ops b) = limits b"
  by (induction ops arbitrary: b) auto

lemma run_budget_overrun: "budget_inv b \<Longrightarrow> overrun b \<Longrightarrow> overrun (run_budget ts_ok ops b)"
proof (induction ops arbitrary: b)
  case (Cons x ops)
  then show ?case by (cases x) (simp add: apply_budget_inv apply_budget_overrun)
qed simp

section \<open>Properties\<close>

definition demo_limits :: budget_limits where
  "demo_limits = \<lparr>max_cost_usd = Some (Fin 1 0), reserve_per_call_usd = Some (Fin 5 (- 3)),
     max_invocations = Some 3, max_elapsed_secs = Some 60\<rparr>"

definition demo_budget :: budget_state where
  "demo_budget = \<lparr>limits = demo_limits, started_at = 0, invocations = []\<rparr>"

lemmas budget_eval = demo_limits_def demo_budget_def default_limits_def validate_limits_def
  micro_usd_def some_list_def f_million_def f_billion_def f_micro_def i64_max_def deadline_def
  apply_reserve_def apply_reconcile_def reserve_amount_def ceiling_micro_def committed_def
  charged_def overrun_def overruns_def sat_add64_def f64_eval

lemma demo_budget_new: "new_budget (\<lambda>_. True) demo_limits 0 = Inr demo_budget"
  by (simp add: new_budget_def budget_eval)

text \<open>C17: Spending is bounded: from a fresh ledger, after any sequence of snapshots, reservations and
  reconciliations at any times, either some provider reported more than its reservation, or what all
  calls together count for (reports, else held reservations) is at most the dollar ceiling; and the
  number of calls never exceeds the invocation limit, with ids 1, 2, ... in order.\<close>

theorem budget_bounded:
  assumes "new_budget ts_ok l st = Inr b0" "b = run_budget ts_ok ops b0"
  shows "map charge_id (invocations b) = [1..<length (invocations b) + 1]
    \<and> (\<forall>m. max_invocations l = Some m \<longrightarrow> length (invocations b) \<le> m)
    \<and> (\<forall>d. max_cost_usd l = Some d
          \<longrightarrow> overrun b \<or> sum_list (map charged (invocations b)) \<le> ceiling_micro d)"
proof -
  have inv: "budget_inv b" using assms new_budget_inv run_budget_inv by blast
  have l: "limits b = l"
    using assms by (auto simp: new_budget_def Let_def split: sum.splits if_splits)
  have "validate_limits l = Inr ()"
    using assms(1) by (auto simp: new_budget_def split: sum.splits)
  then have "(max_cost_usd l = None) = (reserve_per_call_usd l = None)"
    by (auto simp: validate_limits_def split: if_splits)
  with inv l show ?thesis
    by (auto simp: budget_inv_def ledger_wf_def within_calls_def within_ceiling_def split: option.splits)
qed

theorem budget_bounded_witness:
  "sum_list (map charged (invocations (run_budget (\<lambda>_. True)
      [(1, Reserve ''s'' ''a'' 1), (2, Reserve ''s'' ''a'' 2), (3, Reconcile 1 (Some (Fin 1 (- 2))))]
      demo_budget))) \<le> ceiling_micro (Fin 1 0)"
proof -
  let ?ops = "[(1, Reserve ''s'' ''a'' 1), (2, Reserve ''s'' ''a'' 2), (3, Reconcile 1 (Some (Fin 1 (- 2))))]"
  have "\<not> overrun (run_budget (\<lambda>_. True) ?ops demo_budget)" by (simp add: budget_eval)
  moreover have "max_cost_usd demo_limits = Some (Fin 1 0)" by (simp add: demo_limits_def)
  ultimately show ?thesis
    using budget_bounded [OF demo_budget_new refl, of ?ops] by blast
qed

text \<open>An overrun is final: once a provider has reported more than its reservation, every later
  reservation, whatever happened in between, is refused and changes nothing.\<close>

lemma overrun_blocks_dispatch:
  assumes "new_budget ts_ok l st = Inr b0" "b = run_budget ts_ok ops b0" "overrun b"
    and "b' = run_budget ts_ok ops' b"
  shows "\<exists>e. apply_budget ts_ok now b' (Reserve step agent att) = (b', Inl e)"
proof -
  have "overrun b'"
    using assms new_budget_inv run_budget_inv run_budget_overrun by blast
  then show ?thesis
    by (auto simp: apply_reserve_def split: sum.splits)
qed

lemma overrun_blocks_dispatch_example:
  "\<exists>e. apply_budget (\<lambda>_. True) 9
     (run_budget (\<lambda>_. True) [] (run_budget (\<lambda>_. True)
        [(1, Reserve ''s'' ''a'' 1), (3, Reconcile 1 (Some (Fin 1 0)))] demo_budget))
     (Reserve ''s'' ''a'' 2)
   = (run_budget (\<lambda>_. True) [] (run_budget (\<lambda>_. True)
        [(1, Reserve ''s'' ''a'' 1), (3, Reconcile 1 (Some (Fin 1 0)))] demo_budget), Inl e)"
proof -
  have "overrun (run_budget (\<lambda>_. True)
        [(1, Reserve ''s'' ''a'' 1), (3, Reconcile 1 (Some (Fin 1 0)))] demo_budget)" by (simp add: budget_eval)
  from overrun_blocks_dispatch [OF demo_budget_new refl this refl] show ?thesis .
qed

end
