(* ===== verification/Json_Value.thy ===== *)
theory Json_Value
  imports Prelude
begin

text \<open>
  The structured values of \<^verbatim>\<open>serde_json::Value\<close>: the parameters of workflow steps and of tool calls.
  A number is kept as its text, an object as the list of its entries.
\<close>

datatype json =
    JNull
  | JBool bool
  | JNum string
  | JStr string
  | JArr "json list"
  | JObj "(string \<times> json) list"

end
