(* ===== verification/Wf_State.thy ===== *)
theory Wf_State
  imports Wf_Budget Json_Value
begin

text \<open>
  The typed context a run carries from step to step and the full state of a run
  (\<^verbatim>\<open>WorkflowContext\<close>, \<^verbatim>\<open>WorkflowState\<close> of \<^verbatim>\<open>crates/flare-workflow/src/types.rs\<close>). The type
  variable \<open>'d\<close> is the caller's workflow data. Fields that two Rust structs share are prefixed.
\<close>

section \<open>The context of a step\<close>

record step_execution_meta =
  meta_workflow_id :: string
  meta_workflow_name :: string
  meta_step_id :: string
  meta_step_name :: string
  meta_attempt :: nat
  meta_max_attempts :: nat
  meta_timeout :: duration

definition default_meta :: step_execution_meta where
  "default_meta = \<lparr>meta_workflow_id = [], meta_workflow_name = [], meta_step_id = [],
     meta_step_name = [], meta_attempt = 0, meta_max_attempts = 0, meta_timeout = 0\<rparr>"

text \<open>The handle of a run's budget ledger: only what it stamps on a reservation.\<close>

record budget_handle =
  bh_step_id :: string
  bh_logical_attempt :: nat

record 'd workflow_context =
  ctx_run_id :: run_id
  ctx_data :: 'd
  ctx_input :: string
  ctx_output :: string
  ctx_variables :: "string \<rightharpoonup> string"
  ctx_input_tokens :: nat
  ctx_output_tokens :: nat
  ctx_params :: json
  ctx_triggered_at :: time
  ctx_step :: step_execution_meta
  ctx_budget :: "budget_handle option"

definition new_context :: "run_id \<Rightarrow> 'd \<Rightarrow> time \<Rightarrow> 'd workflow_context" where
  "new_context rid d now =
     \<lparr>ctx_run_id = rid, ctx_data = d, ctx_input = [], ctx_output = [], ctx_variables = Map.empty,
      ctx_input_tokens = 0, ctx_output_tokens = 0, ctx_params = JNull, ctx_triggered_at = now,
      ctx_step = default_meta, ctx_budget = None\<rparr>"

section \<open>The state of a run\<close>

record 'd workflow_state =
  st_run_id :: run_id
  st_workflow_id :: workflow_id
  resume_identity :: "string option"
  st_budget :: "budget_state option"
  status :: workflow_status
  current_step :: "step_id option"
  step_states :: "step_id \<rightharpoonup> step_state"
  st_context :: "'d workflow_context"
  st_input :: string
  st_output :: "string option"
  st_error :: "string option"
  st_variables :: "string \<rightharpoonup> string"
  created_at :: time
  updated_at :: time
  lease :: "executor_lease option"

definition new_state :: "run_id \<Rightarrow> workflow_id \<Rightarrow> 'd \<Rightarrow> time \<Rightarrow> 'd workflow_state" where
  "new_state rid wid d now =
     \<lparr>st_run_id = rid, st_workflow_id = wid, resume_identity = None, st_budget = None,
      status = WPending, current_step = None, step_states = Map.empty,
      st_context = new_context rid d now, st_input = [], st_output = None, st_error = None,
      st_variables = Map.empty, created_at = now, updated_at = now, lease = None\<rparr>"

text \<open>\<open>if let Some(ss) = s.step_states.get_mut(id)\<close>: an update of one step's state, if it is there.\<close>

definition modify_step ::
  "step_id \<Rightarrow> (step_state \<Rightarrow> step_state) \<Rightarrow> 'd workflow_state \<Rightarrow> 'd workflow_state" where
  "modify_step i f s =
     (case step_states s i of
        None \<Rightarrow> s
      | Some ss \<Rightarrow> s\<lparr>step_states := (step_states s)(i \<mapsto> f ss)\<rparr>)"

lemma modify_step_sel [simp]:
  "status (modify_step i f s) = status s"
  "st_budget (modify_step i f s) = st_budget s"
  "st_context (modify_step i f s) = st_context s"
  "st_input (modify_step i f s) = st_input s"
  "st_output (modify_step i f s) = st_output s"
  "st_error (modify_step i f s) = st_error s"
  "st_variables (modify_step i f s) = st_variables s"
  "lease (modify_step i f s) = lease s"
  "st_run_id (modify_step i f s) = st_run_id s"
  "st_workflow_id (modify_step i f s) = st_workflow_id s"
  "resume_identity (modify_step i f s) = resume_identity s"
  "created_at (modify_step i f s) = created_at s"
  by (simp_all add: modify_step_def split: option.split)

lemma modify_step_lookup:
  "step_states (modify_step i f s) j =
     (if j = i then map_option f (step_states s i) else step_states s j)"
  by (simp add: modify_step_def split: option.split)

text \<open>\<open>capture_output\<close> (\<^verbatim>\<open>variables.rs\<close>).\<close>

definition capture_output ::
  "(string \<rightharpoonup> string) \<Rightarrow> string option \<Rightarrow> string \<Rightarrow> (string \<rightharpoonup> string)" where
  "capture_output vars output_var out =
     (case output_var of None \<Rightarrow> vars | Some name \<Rightarrow> vars(name \<mapsto> out))"

end
