(* ===== verification/Wf_Retry.thy ===== *)
theory Wf_Retry
  imports Wf_Types F64
begin

text \<open>
  Retry backoff, \<^verbatim>\<open>crates/flare-workflow/src/retry.rs\<close>. Durations are nanoseconds; \<open>None\<close> is the
  panic of an arithmetic overflow of \<open>Duration\<close>. The random number of the jitter is an argument.
\<close>

section \<open>Durations and floating point\<close>

definition duration_max :: nat where
  "duration_max = u64_max * 1000000000 + 999999999"

definition dur_add :: "duration \<Rightarrow> duration \<Rightarrow> duration option" where
  "dur_add a b = (if a + b \<le> duration_max then Some (a + b) else None)"

definition as_secs_f64 :: "duration \<Rightarrow> f64" where
  "as_secs_f64 d =
     f_add (f_of_nat (d div 1000000000)) (f_div_pos (f_of_nat (d mod 1000000000)) 1000000000 0)"

text \<open>\<open>Duration::from_secs_f64\<close>: to the nearest nanosecond, ties to even; panics out of range.\<close>

definition from_secs_f64 :: "f64 \<Rightarrow> duration option" where
  "from_secs_f64 x =
     (case x of
        Fin m e \<Rightarrow>
          if m < 0 then None
          else let n = (if e \<ge> 0 then m * 1000000000 * 2 ^ nat e
                        else rne_div (m * 1000000000) (nat (- e)))
               in if nat n \<le> duration_max then Some (nat n) else None
      | _ \<Rightarrow> None)"

definition mul_f64 :: "duration \<Rightarrow> f64 \<Rightarrow> duration option" where
  "mul_f64 d x = from_secs_f64 (f_mul x (as_secs_f64 d))"

text \<open>\<open>EXPONENTIAL_MULTIPLIER\<close> is 1.5.\<close>

definition exponential_multiplier :: f64 where
  "exponential_multiplier = Fin 3 (- 1)"

section \<open>Backoff sequences\<close>

datatype backoff_seq =
    Fixed duration
  | Exponential (exp_current: duration) (exp_limit: duration)
  | Linear (lin_current: duration) (lin_step: duration) (lin_limit: duration)
  | Ready duration

fun from_strategy :: "backoff_strategy \<Rightarrow> backoff_seq" where
  "from_strategy (BFixed d) = Fixed d"
| "from_strategy (BExponential base mx) = Exponential base mx"
| "from_strategy (BLinear inc mx) = Linear inc inc mx"

fun clamp01 :: "f64 \<Rightarrow> f64" where
  "clamp01 x = (if f_lt x (Fin 0 0) then Fin 0 0 else if f_lt (Fin 1 0) x then Fin 1 0 else x)"

definition f_max0 :: "f64 \<Rightarrow> f64" where
  "f_max0 x = (if f_le x (Fin 0 0) \<or> x = NaN then Fin 0 0 else x)"

text \<open>\<open>apply_jitter\<close>: \<open>u\<close> is the number drawn from the interval from -1 to 1.\<close>

definition apply_jitter :: "duration \<Rightarrow> f64 \<Rightarrow> f64 \<Rightarrow> duration" where
  "apply_jitter delay factor u =
     (if f_le factor (Fin 0 0) then delay
      else let factor = clamp01 factor;
               nanos = f_of_nat delay;
               delta = f_mul (f_mul nanos factor) u;
               jittered = floor_u64 (f_max0 (f_add nanos delta))
           in jittered)"

fun backoff_base :: "backoff_seq \<Rightarrow> (backoff_seq \<times> duration) option" where
  "backoff_base (Fixed d) = Some (Fixed d, d)"
| "backoff_base (Exponential cur mx) =
     (case mul_f64 cur exponential_multiplier of
        None \<Rightarrow> None
      | Some scaled \<Rightarrow> Some (Exponential (min scaled mx) mx, cur))"
| "backoff_base (Linear cur inc mx) =
     (case dur_add cur inc of
        None \<Rightarrow> None
      | Some s \<Rightarrow> Some (Linear (min s mx) inc mx, cur))"
| "backoff_base (Ready d) = Some (Ready d, d)"

definition backoff_next :: "backoff_seq \<Rightarrow> f64 \<Rightarrow> f64 \<Rightarrow> (backoff_seq \<times> duration) option" where
  "backoff_next b jitter u =
     (case backoff_base b of None \<Rightarrow> None | Some (b', d) \<Rightarrow> Some (b', apply_jitter d jitter u))"

definition effective_max_attempts :: "nat \<Rightarrow> bool \<Rightarrow> nat" where
  "effective_max_attempts policy_max retry_indefinitely =
     (if retry_indefinitely then u32_max else policy_max)"

text \<open>The first \<open>n\<close> delays, without jitter.\<close>

fun delays :: "nat \<Rightarrow> backoff_seq \<Rightarrow> duration list option" where
  "delays 0 b = Some []"
| "delays (Suc n) b =
     (case backoff_next b (Fin 0 0) (Fin 0 0) of
        None \<Rightarrow> None
      | Some (b', d) \<Rightarrow> map_option (Cons d) (delays n b'))"

section \<open>Lemmas\<close>

lemma apply_jitter_zero [simp]: "apply_jitter d (Fin 0 0) u = d"
  by (simp add: apply_jitter_def align_def)

lemma backoff_next_zero: "backoff_next b (Fin 0 0) u = backoff_base b"
  by (cases "backoff_base b") (auto simp: backoff_next_def)

fun backoff_limit :: "backoff_seq \<Rightarrow> duration" where
  "backoff_limit (Fixed d) = d"
| "backoff_limit (Exponential _ mx) = mx"
| "backoff_limit (Linear _ _ mx) = mx"
| "backoff_limit (Ready d) = d"

fun current_delay :: "backoff_seq \<Rightarrow> duration" where
  "current_delay (Fixed d) = d"
| "current_delay (Exponential c _) = c"
| "current_delay (Linear c _ _) = c"
| "current_delay (Ready d) = d"

lemma backoff_base_Some:
  "backoff_base b = Some (b', d) \<Longrightarrow>
     d = current_delay b \<and> backoff_limit b' = backoff_limit b \<and> current_delay b' \<le> backoff_limit b"
  by (cases b) (auto split: option.splits)

lemma delays_bounded:
  "delays n b = Some ds \<Longrightarrow> current_delay b \<le> backoff_limit b \<Longrightarrow> \<forall>d\<in>set ds. d \<le> backoff_limit b"
proof (induction n arbitrary: b ds)
  case 0
  then show ?case by simp
next
  case (Suc n)
  then obtain b' d es where "backoff_base b = Some (b', d)" "delays n b' = Some es" "ds = d # es"
    by (auto simp: backoff_next_zero split: option.splits)
  with Suc.IH [of b' es] Suc.prems(2) backoff_base_Some [of b b' d] show ?case by auto
qed

lemma delays_linear:
  assumes "c = min (k * inc) mx" "inc \<le> mx" "mx + inc \<le> duration_max"
  shows "delays n (Linear c inc mx) = Some (map (\<lambda>i. min ((k + i) * inc) mx) [0..<n])"
  using assms(1)
proof (induction n arbitrary: c k)
  case 0
  then show ?case by simp
next
  case (Suc n)
  have "dur_add c inc = Some (c + inc)"
    using Suc.prems assms(3) by (simp add: dur_add_def)
  moreover have "min (c + inc) mx = min (Suc k * inc) mx"
    using Suc.prems by (auto simp: min_def)
  moreover have "[0..<Suc n] = 0 # map Suc [0..<n]"
    by (simp add: map_Suc_upt upt_conv_Cons del: upt_Suc)
  ultimately show ?case
    using Suc.IH [of "min (c + inc) mx" "Suc k"] Suc.prems
    by (simp add: backoff_next_zero del: upt_Suc)
qed

section \<open>Properties\<close>

text \<open>Backoff delays are capped: if the first interval of a strategy is at most its maximum, no
  delay of the sequence, however long, exceeds the maximum (whatever the floating-point rounding of
  the exponential step).\<close>

lemma backoff_capped:
  assumes "delays n (from_strategy st) = Some ds"
    and "case st of BFixed d \<Rightarrow> True | BExponential base mx \<Rightarrow> base \<le> mx | BLinear inc mx \<Rightarrow> inc \<le> mx"
    and "d \<in> set ds"
  shows "d \<le> (case st of BFixed d \<Rightarrow> d | BExponential base mx \<Rightarrow> mx | BLinear inc mx \<Rightarrow> mx)"
  using delays_bounded [OF assms(1)] assms(2,3)
  by (cases st) auto

lemma backoff_capped_example:
  "(2250000000::nat) \<le> 4000000000"
proof -
  have "delays (Suc (Suc (Suc 0))) (from_strategy (BExponential 1000000000 4000000000))
      = Some [1000000000, 1500000000, 2250000000]"
    by (simp add: backoff_next_zero mul_f64_def as_secs_f64_def from_secs_f64_def
        exponential_multiplier_def duration_max_def f64_eval cong: let_weak_cong)
  from backoff_capped [OF this, of 2250000000] show ?thesis by simp
qed

text \<open>The linear strategy waits, before retry \<open>i + 1\<close>, exactly \<open>(i + 1) * increment\<close> up to the
  maximum.\<close>

lemma linear_backoff_exact:
  assumes "inc \<le> mx" "mx + inc \<le> duration_max"
  shows "delays n (from_strategy (BLinear inc mx)) = Some (map (\<lambda>i. min ((1 + i) * inc) mx) [0..<n])"
  using delays_linear [of inc 1 inc mx n] assms by simp

lemma linear_backoff_exact_example:
  "delays 4 (from_strategy (BLinear 1000000000 3000000000))
     = Some [1000000000, 2000000000, 3000000000, 3000000000]"
  using linear_backoff_exact [of 1000000000 3000000000 4]
  by (simp add: duration_max_def u64_max_def upt_rec)

end
