(* ===== verification/Wf_Definition.thy ===== *)
theory Wf_Definition
  imports Wf_State Wf_Retry
begin

text \<open>
  Workflow definitions and the validation of their dependency graph,
  \<^verbatim>\<open>crates/flare-workflow/src/definition.rs\<close>. An executor (a trait object supplied by the caller)
  is a value of the type \<open>'x\<close>; a condition is a predicate on the context.
\<close>

record ('d, 'x) step_definition =
  sd_id :: step_id
  sd_name :: string
  executor :: 'x
  mode :: step_mode
  sd_error_mode :: error_mode
  sd_retry_policy :: "retry_policy option"
  sd_timeout :: "duration option"
  on_failure :: failure_action
  depends_on :: "step_id list"
  depends_on_any :: "step_id list"
  delay :: "duration option"
  scheduled_at :: "time option"
  run_if :: "('d workflow_context \<Rightarrow> bool) option"
  output_var :: "string option"
  rollback :: "'x option"
  rollback_retry_policy :: "retry_policy option"

definition new_step :: "step_id \<Rightarrow> string \<Rightarrow> 'x \<Rightarrow> ('d, 'x) step_definition" where
  "new_step i n x =
     \<lparr>sd_id = i, sd_name = n, executor = x, mode = Sequential, sd_error_mode = EFail,
      sd_retry_policy = None, sd_timeout = None, on_failure = FailWorkflow, depends_on = [],
      depends_on_any = [], delay = None, scheduled_at = None, run_if = None, output_var = None,
      rollback = None, rollback_retry_policy = None\<rparr>"

definition all_dependencies :: "('d, 'x) step_definition \<Rightarrow> step_id list" where
  "all_dependencies s = depends_on s @ depends_on_any s"

record ('d, 'x) workflow_definition =
  wd_id :: workflow_id
  wd_name :: string
  steps :: "('d, 'x) step_definition list"
  wd_default_retry_policy :: retry_policy
  default_timeout :: duration
  wd_resume_identity :: "string option"
  wd_budget :: "budget_limits option"
  reverse_deps :: "step_id \<rightharpoonup> nat list"
  initial_step_indices :: "nat list"

definition new_definition :: "workflow_id \<Rightarrow> string \<Rightarrow> ('d, 'x) workflow_definition" where
  "new_definition i n =
     \<lparr>wd_id = i, wd_name = n, steps = [], wd_default_retry_policy = default_retry_policy,
      default_timeout = 300 * nanos_per_sec, wd_resume_identity = None, wd_budget = None,
      reverse_deps = Map.empty, initial_step_indices = []\<rparr>"

definition get_retry_policy ::
  "('d, 'x) workflow_definition \<Rightarrow> ('d, 'x) step_definition \<Rightarrow> retry_policy" where
  "get_retry_policy def s =
     (case sd_retry_policy s of None \<Rightarrow> wd_default_retry_policy def | Some p \<Rightarrow> p)"

definition get_timeout ::
  "('d, 'x) workflow_definition \<Rightarrow> ('d, 'x) step_definition \<Rightarrow> duration" where
  "get_timeout def s = (case sd_timeout s of None \<Rightarrow> default_timeout def | Some t \<Rightarrow> t)"

datatype validation_error =
    InvalidBudget workflow_error
  | MissingDependency step_id step_id
  | CycleDetected step_id
  | RollbackUnsupportedMode step_id string

section \<open>Validation\<close>

text \<open>
  \<open>steps.iter().map(|s| (&s.id, s)).collect()\<close>: of several steps with one id the last is kept.
\<close>

definition steps_map :: "('d, 'x) step_definition list \<Rightarrow> (step_id \<rightharpoonup> ('d, 'x) step_definition)" where
  "steps_map ss = map_of (rev (map (\<lambda>s. (sd_id s, s)) ss))"

text \<open>
  \<open>has_cycle\<close>: depth-first search over the ids, with the set of visited ids and the ids on the
  current path. Every nested call visits a new id, so fuel beyond the number of unvisited ids
  is never used up (\<open>has_cycle_enough\<close>).
\<close>

fun has_cycle ::
  "nat \<Rightarrow> (step_id \<rightharpoonup> ('d, 'x) step_definition) \<Rightarrow> step_id \<Rightarrow> step_id set \<times> step_id set
     \<Rightarrow> (bool \<times> step_id set \<times> step_id set) option"
and has_cycle_deps ::
  "nat \<Rightarrow> (step_id \<rightharpoonup> ('d, 'x) step_definition) \<Rightarrow> step_id list \<Rightarrow> step_id set \<times> step_id set
     \<Rightarrow> (bool \<times> step_id set \<times> step_id set) option" where
  "has_cycle 0 m i vs = None"
| "has_cycle (Suc fuel) m i (visited, rec_stack) =
     (if i \<in> rec_stack then Some (True, visited, rec_stack)
      else if i \<in> visited then Some (False, visited, rec_stack)
      else (case m i of
              None \<Rightarrow> Some (False, insert i visited, insert i rec_stack - {i})
            | Some s \<Rightarrow>
                (case has_cycle_deps fuel m (all_dependencies s) (insert i visited, insert i rec_stack) of
                   None \<Rightarrow> None
                 | Some (True, v, r) \<Rightarrow> Some (True, v, r)
                 | Some (False, v, r) \<Rightarrow> Some (False, v, r - {i}))))"
| "has_cycle_deps fuel m [] (visited, rec_stack) = Some (False, visited, rec_stack)"
| "has_cycle_deps fuel m (d # ds) (visited, rec_stack) =
     (case has_cycle fuel m d (visited, rec_stack) of
        None \<Rightarrow> None
      | Some (True, v, r) \<Rightarrow> Some (True, v, r)
      | Some (False, v, r) \<Rightarrow> has_cycle_deps fuel m ds (v, r))"

fun missing_dependency ::
  "(step_id \<rightharpoonup> ('d, 'x) step_definition) \<Rightarrow> ('d, 'x) step_definition list \<Rightarrow> validation_error option" where
  "missing_dependency m [] = None"
| "missing_dependency m (s # ss) =
     (case find (\<lambda>d. m d = None) (all_dependencies s) of
        Some d \<Rightarrow> Some (MissingDependency (sd_id s) d)
      | None \<Rightarrow> missing_dependency m ss)"

fun unsupported_mode :: "step_mode \<Rightarrow> string option" where
  "unsupported_mode Sequential = None"
| "unsupported_mode FanOut = None"
| "unsupported_mode (Loop _ _) = None"
| "unsupported_mode Collect = Some ''collect''"
| "unsupported_mode (Conditional _) = Some ''conditional''"
| "unsupported_mode (Sleep _) = Some ''sleep''"
| "unsupported_mode (SleepUntil _) = Some ''sleep_until''"
| "unsupported_mode (WaitEvent _ _) = Some ''wait_event''"

fun unsupported_rollback :: "('d, 'x) step_definition list \<Rightarrow> validation_error option" where
  "unsupported_rollback [] = None"
| "unsupported_rollback (s # ss) =
     (if rollback s = None then unsupported_rollback ss
      else (case unsupported_mode (mode s) of
              Some md \<Rightarrow> Some (RollbackUnsupportedMode (sd_id s) md)
            | None \<Rightarrow> unsupported_rollback ss))"

text \<open>The loop over all steps that starts a search at each unvisited one.\<close>

fun find_cycle ::
  "nat \<Rightarrow> (step_id \<rightharpoonup> ('d, 'x) step_definition) \<Rightarrow> ('d, 'x) step_definition list
     \<Rightarrow> step_id set \<times> step_id set \<Rightarrow> validation_error option option" where
  "find_cycle fuel m [] vs = Some None"
| "find_cycle fuel m (s # ss) (visited, rec_stack) =
     (if sd_id s \<in> visited then find_cycle fuel m ss (visited, rec_stack)
      else (case has_cycle fuel m (sd_id s) (visited, rec_stack) of
              None \<Rightarrow> None
            | Some (True, v, r) \<Rightarrow> Some (Some (CycleDetected (sd_id s)))
            | Some (False, v, r) \<Rightarrow> find_cycle fuel m ss (v, r)))"

text \<open>Fuel for the search: one unit per step and one for an id that is not a step.\<close>

definition dfs_fuel :: "('d, 'x) step_definition list \<Rightarrow> nat" where
  "dfs_fuel ss = length ss + 2"

text \<open>\<open>reverse_deps.entry(dep).or_default().push(idx)\<close> over all steps and dependencies.\<close>

definition push_dep :: "(step_id \<rightharpoonup> nat list) \<Rightarrow> step_id \<Rightarrow> nat \<Rightarrow> (step_id \<rightharpoonup> nat list)" where
  "push_dep m d i = m(d \<mapsto> (case m d of None \<Rightarrow> [] | Some l \<Rightarrow> l) @ [i])"

definition build_reverse_deps :: "('d, 'x) step_definition list \<Rightarrow> (step_id \<rightharpoonup> nat list)" where
  "build_reverse_deps ss =
     foldl (\<lambda>m (i, s). foldl (\<lambda>m d. push_dep m d i) m (all_dependencies s)) Map.empty
       (enumerate 0 ss)"

definition build_initial :: "('d, 'x) step_definition list \<Rightarrow> nat list" where
  "build_initial ss =
     map fst (filter (\<lambda>(i, s). depends_on s = [] \<and> depends_on_any s = []) (enumerate 0 ss))"

definition validate ::
  "('d, 'x) workflow_definition \<Rightarrow> (validation_error + ('d, 'x) workflow_definition) option" where
  "validate def =
     (case (case wd_budget def of None \<Rightarrow> Inr () | Some b \<Rightarrow> validate_limits b) of
        Inl e \<Rightarrow> Some (Inl (InvalidBudget e))
      | Inr _ \<Rightarrow>
          let m = steps_map (steps def) in
          (case missing_dependency m (steps def) of
             Some e \<Rightarrow> Some (Inl e)
           | None \<Rightarrow>
             (case unsupported_rollback (steps def) of
                Some e \<Rightarrow> Some (Inl e)
              | None \<Rightarrow>
                (case find_cycle (dfs_fuel (steps def)) m (steps def) ({}, {}) of
                   None \<Rightarrow> None
                 | Some (Some e) \<Rightarrow> Some (Inl e)
                 | Some None \<Rightarrow>
                     Some (Inr (def\<lparr>reverse_deps := build_reverse_deps (steps def),
                       initial_step_indices := build_initial (steps def)\<rparr>))))))"

definition get_dependent_indices :: "('d, 'x) workflow_definition \<Rightarrow> step_id \<Rightarrow> nat list" where
  "get_dependent_indices def i = (case reverse_deps def i of None \<Rightarrow> [] | Some l \<Rightarrow> l)"

section \<open>Correctness of the cycle check\<close>

definition dep_rel :: "(step_id \<rightharpoonup> ('d, 'x) step_definition) \<Rightarrow> (step_id \<times> step_id) set" where
  "dep_rel m = {(i, d). \<exists>s. m i = Some s \<and> d \<in> set (all_dependencies s)}"

text \<open>What each outcome of one call says of its parts.\<close>

lemma has_cycle_False:
  assumes "has_cycle (Suc f) m i (V, S) = Some (False, V', S')"
  obtains (seen) "i \<notin> S" "i \<in> V" "V' = V" "S' = S"
    | (leaf) "i \<notin> S" "i \<notin> V" "m i = None" "V' = insert i V" "S' = S"
    | (step) s R where "i \<notin> S" "i \<notin> V" "m i = Some s" "S' = R - {i}"
        "has_cycle_deps f m (all_dependencies s) (insert i V, insert i S) = Some (False, V', R)"
proof (cases "i \<in> S \<or> i \<in> V")
  case True
  with assms show thesis by (cases "i \<in> S") (simp_all add: seen)
next
  case new: False
  show thesis
  proof (cases "m i")
    case None
    with assms new leaf show thesis by auto
  next
    case (Some s)
    show thesis
    proof (cases "has_cycle_deps f m (all_dependencies s) (insert i V, insert i S)")
      case None
      with assms new Some show thesis by simp
    next
      case r: (Some r)
      obtain b v R where [simp]: "r = (b, v, R)" by (cases r)
      from assms new Some r step show thesis by (cases b) auto
    qed
  qed
qed

lemma has_cycle_True:
  assumes "has_cycle (Suc f) m i (V, S) = Some (True, V', S')"
  obtains (path) "i \<in> S"
    | (step) s where "i \<notin> S" "i \<notin> V" "m i = Some s"
        "has_cycle_deps f m (all_dependencies s) (insert i V, insert i S) = Some (True, V', S')"
proof (cases "i \<in> S \<or> i \<in> V")
  case True
  with assms path show thesis by (cases "i \<in> S") simp_all
next
  case new: False
  show thesis
  proof (cases "m i")
    case None
    with assms new show thesis by auto
  next
    case (Some s)
    show thesis
    proof (cases "has_cycle_deps f m (all_dependencies s) (insert i V, insert i S)")
      case None
      with assms new Some show thesis by simp
    next
      case r: (Some r)
      obtain b v R where [simp]: "r = (b, v, R)" by (cases r)
      from assms new Some r step show thesis by (cases b) auto
    qed
  qed
qed

lemma has_cycle_deps_Cons:
  assumes "has_cycle_deps f m (d # ds) vs = Some (b, V', S')"
  obtains (found) "b" "has_cycle f m d vs = Some (True, V', S')"
    | (more) V1 S1 where "has_cycle f m d vs = Some (False, V1, S1)"
        "has_cycle_deps f m ds (V1, S1) = Some (b, V', S')"
proof (cases "has_cycle f m d vs")
  case None
  with assms show thesis by (cases vs) simp
next
  case r: (Some r)
  obtain c v R where [simp]: "r = (c, v, R)" by (cases r)
  from assms r more found show thesis by (cases vs; cases c) auto
qed

lemmas dfs_elims = has_cycle_False has_cycle_True has_cycle_deps_Cons

text \<open>A search that finds nothing restores the path and only adds visited ids.\<close>

lemma dfs_frame:
  "has_cycle fuel m i vs = Some (False, V', S') \<Longrightarrow> S' = snd vs \<and> fst vs \<subseteq> V'"
  "has_cycle_deps fuel m ds vs = Some (False, V', S') \<Longrightarrow> S' = snd vs \<and> fst vs \<subseteq> V'"
proof (induction fuel m i vs and fuel m ds vs arbitrary: V' S' and V' S'
    rule: has_cycle_has_cycle_deps.induct)
  case (2 fuel m i V S)
  from "2.prems" show ?case
  proof (cases rule: has_cycle_False)
    case (step s R)
    with "2.IH" [OF step(1,2,3) step(5)] show ?thesis by auto
  qed auto
next
  case (4 fuel m d ds V S)
  from "4.prems" show ?case
  proof (cases rule: has_cycle_deps_Cons)
    case (more V1 S1)
    with "4.IH"(1) [OF more(1)] "4.IH"(2) [OF more(1) refl refl refl more(2)] show ?thesis
      by auto
  qed simp
qed auto

text \<open>Finished ids (visited and off the path) lead to finished ids only, and lie on no cycle.\<close>

definition finished_ok ::
  "(step_id \<rightharpoonup> ('d, 'x) step_definition) \<Rightarrow> step_id set \<Rightarrow> step_id set \<Rightarrow> bool" where
  "finished_ok m V S \<longleftrightarrow>
     S \<subseteq> V \<and> (\<forall>v\<in>V - S. (\<forall>d. (v, d) \<in> dep_rel m \<longrightarrow> d \<in> V - S) \<and> (v, v) \<notin> (dep_rel m)\<^sup>+)"

lemma finished_step: "finished_ok m V S \<Longrightarrow> v \<in> V - S \<Longrightarrow> (v, d) \<in> dep_rel m \<Longrightarrow> d \<in> V - S"
  unfolding finished_ok_def by blast

lemma finished_closed:
  assumes "(v, w) \<in> (dep_rel m)\<^sup>+" "finished_ok m V S" "v \<in> V - S"
  shows "w \<in> V - S"
  using assms(1)
proof (induction rule: trancl_induct)
  case (base y)
  show ?case by (rule finished_step [OF assms(2,3) base])
next
  case (step y z)
  show ?case by (rule finished_step [OF assms(2) step.IH step.hyps(2)])
qed

lemma finished_ok_pop:
  assumes ok: "finished_ok m V (insert i S)" and i: "i \<notin> S"
    and succ: "\<And>d. (i, d) \<in> dep_rel m \<Longrightarrow> d \<in> V - insert i S"
  shows "finished_ok m V S"
proof -
  have acyc: "(i, i) \<notin> (dep_rel m)\<^sup>+"
  proof
    assume "(i, i) \<in> (dep_rel m)\<^sup>+"
    then obtain d where d: "(i, d) \<in> dep_rel m" "(d, i) \<in> (dep_rel m)\<^sup>*"
      by (blast dest: tranclD)
    with succ have "d \<noteq> i" by blast
    with d(2) have "(d, i) \<in> (dep_rel m)\<^sup>+" by (simp add: rtrancl_eq_or_trancl)
    with finished_closed [OF this ok succ [OF d(1)]] show False by blast
  qed
  have "insert i S \<subseteq> V" using ok by (simp add: finished_ok_def)
  moreover have "(\<forall>d. (v, d) \<in> dep_rel m \<longrightarrow> d \<in> V - S) \<and> (v, v) \<notin> (dep_rel m)\<^sup>+"
    if v: "v \<in> V - S" for v
  proof (cases "v = i")
    case True
    with acyc succ show ?thesis by blast
  next
    case False
    with v have "v \<in> V - insert i S" by blast
    with ok show ?thesis unfolding finished_ok_def by blast
  qed
  ultimately show ?thesis unfolding finished_ok_def by blast
qed

lemma dfs_finished:
  "has_cycle fuel m i vs = Some (False, V', S') \<Longrightarrow> finished_ok m (fst vs) (snd vs)
     \<Longrightarrow> i \<in> V' - snd vs \<and> finished_ok m V' (snd vs)"
  "has_cycle_deps fuel m ds vs = Some (False, V', S') \<Longrightarrow> finished_ok m (fst vs) (snd vs)
     \<Longrightarrow> set ds \<subseteq> V' - snd vs \<and> finished_ok m V' (snd vs)"
proof (induction fuel m i vs and fuel m ds vs arbitrary: V' S' and V' S'
    rule: has_cycle_has_cycle_deps.induct)
  case (2 fuel m i V S)
  have start: "finished_ok m (insert i V) (insert i S)" if "i \<notin> V"
    using "2.prems"(2) that unfolding finished_ok_def fst_conv snd_conv by blast
  from "2.prems"(1) show ?case
  proof (cases rule: has_cycle_False)
    case seen
    with "2.prems"(2) show ?thesis by simp
  next
    case leaf
    have "finished_ok m (insert i V) S"
      using leaf by (intro finished_ok_pop [OF start]) (auto simp: dep_rel_def)
    with leaf show ?thesis by simp
  next
    case (step s R)
    have IH: "set (all_dependencies s) \<subseteq> V' - insert i S" "finished_ok m V' (insert i S)"
      using "2.IH" [OF step(1,2,3) step(5)] start step(2) by simp_all
    have "finished_ok m V' S"
      using step(1,3) IH by (intro finished_ok_pop [OF IH(2)]) (auto simp: dep_rel_def)
    moreover have "insert i S \<subseteq> V'" using IH(2) by (simp add: finished_ok_def)
    ultimately show ?thesis using step(1) by simp
  qed
next
  case (4 fuel m d ds V S)
  from "4.prems"(1) show ?case
  proof (cases rule: has_cycle_deps_Cons)
    case (more V1 S1)
    have S1: "S1 = S" using dfs_frame(1) [OF more(1)] by simp
    have ok1: "d \<in> V1 - S" "finished_ok m V1 S"
      using "4.IH"(1) [OF more(1)] "4.prems"(2) by simp_all
    have "set ds \<subseteq> V' - S \<and> finished_ok m V' S"
      using "4.IH"(2) [OF more(1) refl refl refl more(2)] ok1 S1 by simp
    moreover have "V1 \<subseteq> V'" using dfs_frame(2) [OF more(2)] by simp
    ultimately show ?thesis using ok1 by auto
  qed simp
qed auto

text \<open>A cycle that is reported exists.\<close>

lemma dfs_sound:
  "has_cycle fuel m i vs = Some (True, V', S') \<Longrightarrow> \<forall>p\<in>snd vs. (p, i) \<in> (dep_rel m)\<^sup>+
     \<Longrightarrow> \<exists>v. (v, v) \<in> (dep_rel m)\<^sup>+"
  "has_cycle_deps fuel m ds vs = Some (True, V', S')
     \<Longrightarrow> \<forall>d\<in>set ds. \<forall>p\<in>snd vs. (p, d) \<in> (dep_rel m)\<^sup>+
     \<Longrightarrow> \<exists>v. (v, v) \<in> (dep_rel m)\<^sup>+"
proof (induction fuel m i vs and fuel m ds vs arbitrary: V' S' and V' S'
    rule: has_cycle_has_cycle_deps.induct)
  case (2 fuel m i V S)
  from "2.prems"(1) show ?case
  proof (cases rule: has_cycle_True)
    case path
    with "2.prems"(2) show ?thesis by auto
  next
    case (step s)
    have "\<forall>d\<in>set (all_dependencies s). \<forall>p\<in>insert i S. (p, d) \<in> (dep_rel m)\<^sup>+"
    proof (intro ballI)
      fix d p assume "d \<in> set (all_dependencies s)" and p: "p \<in> insert i S"
      then have "(i, d) \<in> dep_rel m" using step(3) by (auto simp: dep_rel_def)
      with p "2.prems"(2) show "(p, d) \<in> (dep_rel m)\<^sup>+" by (auto intro: trancl_into_trancl)
    qed
    with "2.IH" [OF step] show ?thesis by simp
  qed
next
  case (4 fuel m d ds V S)
  from "4.prems"(1) show ?case
  proof (cases rule: has_cycle_deps_Cons)
    case found
    with "4.IH"(1) [OF found(2)] "4.prems"(2) show ?thesis by simp
  next
    case (more V1 S1)
    have "S1 = S" using dfs_frame(1) [OF more(1)] by simp
    with "4.IH"(2) [OF more(1) refl refl refl more(2)] "4.prems"(2) show ?thesis by simp
  qed
qed auto

text \<open>The fuel suffices.\<close>

lemma has_cycle_stop: "i \<in> S \<or> i \<in> V \<or> m i = None \<Longrightarrow> has_cycle (Suc f) m i (V, S) \<noteq> None"
  by (cases "i \<in> S"; cases "i \<in> V") simp_all

lemma has_cycle_step:
  assumes "i \<notin> S" "i \<notin> V" "m i = Some s"
    and "has_cycle_deps f m (all_dependencies s) (insert i V, insert i S) \<noteq> None"
  shows "has_cycle (Suc f) m i (V, S) \<noteq> None"
proof -
  obtain b v R where
    "has_cycle_deps f m (all_dependencies s) (insert i V, insert i S) = Some (b, v, R)"
    using assms(4) by (metis option.exhaust surj_pair)
  with assms(1-3) show ?thesis by (cases b) simp_all
qed

lemma dfs_enough:
  "finite (dom m) \<Longrightarrow> card (dom m - fst vs) < fuel \<Longrightarrow> has_cycle fuel m i vs \<noteq> None"
  "finite (dom m) \<Longrightarrow> card (dom m - fst vs) < fuel \<Longrightarrow> has_cycle_deps fuel m ds vs \<noteq> None"
proof (induction fuel m i vs and fuel m ds vs rule: has_cycle_has_cycle_deps.induct)
  case (2 fuel m i V S)
  show ?case
  proof (cases "i \<in> S \<or> i \<in> V \<or> m i = None")
    case True
    then show ?thesis by (rule has_cycle_stop)
  next
    case False
    then obtain s where s: "i \<notin> S" "i \<notin> V" "m i = Some s" by auto
    have "card (dom m - insert i V) < card (dom m - V)"
      using s "2.prems"(1) by (intro psubset_card_mono) auto
    with "2.IH" [OF s] "2.prems" have
      "has_cycle_deps fuel m (all_dependencies s) (insert i V, insert i S) \<noteq> None" by simp
    with s show ?thesis by (rule has_cycle_step)
  qed
next
  case (4 fuel m d ds V S)
  from "4.IH"(1) "4.prems" obtain b V1 S1 where d: "has_cycle fuel m d (V, S) = Some (b, V1, S1)"
    by auto
  show ?case
  proof (cases b)
    case True
    with d show ?thesis by simp
  next
    case False
    with d have "V \<subseteq> V1" using dfs_frame(1) [of fuel m d "(V, S)" V1 S1] by simp
    then have "card (dom m - V1) \<le> card (dom m - V)"
      using "4.prems"(1) by (intro card_mono) auto
    with "4.IH"(2) [OF d refl _ refl] False "4.prems"
    have "has_cycle_deps fuel m ds (V1, S1) \<noteq> None" by simp
    with d False show ?thesis by simp
  qed
qed auto


section \<open>What validation decides\<close>

lemma steps_map_Some: "steps_map ss i = Some s \<Longrightarrow> s \<in> set ss \<and> sd_id s = i"
  unfolding steps_map_def by (drule map_of_SomeD) auto

lemma steps_map_dom: "dom (steps_map ss) = sd_id ` set ss"
  by (simp add: steps_map_def dom_map_of_conv_image_fst image_image)

lemma steps_map_None: "steps_map ss i = None \<longleftrightarrow> i \<notin> sd_id ` set ss"
  by (metis domIff steps_map_dom)

lemma steps_map_distinct: "distinct (map sd_id ss) \<Longrightarrow> s \<in> set ss \<Longrightarrow> steps_map ss (sd_id s) = Some s"
  unfolding steps_map_def by (rule map_of_is_SomeI) (simp_all flip: rev_map add: comp_def)

lemma missing_dependency_None:
  "missing_dependency m ss = None \<longleftrightarrow> (\<forall>s\<in>set ss. \<forall>d\<in>set (all_dependencies s). m d \<noteq> None)"
proof (induction ss)
  case (Cons s ss)
  show ?case
  proof (cases "find (\<lambda>d. m d = None) (all_dependencies s)")
    case None
    then have "\<forall>d\<in>set (all_dependencies s). m d \<noteq> None" by (auto simp: find_None_iff)
    with Cons None show ?thesis by simp
  next
    case (Some d)
    then have "d \<in> set (all_dependencies s)" "m d = None" by (auto simp: find_Some_iff)
    with Some show ?thesis by auto
  qed
qed simp

lemma unsupported_rollback_None:
  "unsupported_rollback ss = None \<longleftrightarrow>
     (\<forall>s\<in>set ss. rollback s = None \<or> unsupported_mode (mode s) = None)"
  by (induction ss) (auto split: option.splits)

lemma find_cycle_None:
  assumes "find_cycle fuel m ss vs = Some None" "finished_ok m (fst vs) {}" "snd vs = {}"
  shows "\<exists>V. sd_id ` set ss \<subseteq> V \<and> fst vs \<subseteq> V \<and> finished_ok m V {}"
  using assms
proof (induction fuel m ss vs rule: find_cycle.induct)
  case (2 fuel m s ss V S)
  have [simp]: "S = {}" using "2.prems" by simp
  show ?case
  proof (cases "sd_id s \<in> V")
    case True
    with "2.IH"(1) "2.prems" show ?thesis by auto
  next
    case new: False
    obtain b V1 S1 where r: "has_cycle fuel m (sd_id s) (V, {}) = Some (b, V1, S1)"
      using "2.prems"(1) new by (cases "has_cycle fuel m (sd_id s) (V, {})") auto
    with "2.prems"(1) new have b: "\<not> b" and
      rest: "find_cycle fuel m ss (V1, S1) = Some None" by (cases b; simp)+
    from r b have S1: "S1 = {}" and sub: "V \<subseteq> V1" using dfs_frame(1) [of fuel m _ "(V, {})" V1 S1]
      by simp_all
    have f: "sd_id s \<in> V1" "finished_ok m V1 {}"
      using dfs_finished(1) [of fuel m "sd_id s" "(V, {})" V1 S1] r b "2.prems"(2) by simp_all
    obtain W where "sd_id ` set ss \<subseteq> W" "V1 \<subseteq> W" "finished_ok m W {}"
      using "2.IH"(2) [OF new _ refl _ refl, of False V1 S1] r b rest f(2) S1 by auto
    with f(1) sub show ?thesis by (intro exI [of _ W]) auto
  qed
qed auto

lemma find_cycle_Some:
  assumes "find_cycle fuel m ss vs = Some (Some e)" "snd vs = {}"
  shows "\<exists>v. (v, v) \<in> (dep_rel m)\<^sup>+"
  using assms
proof (induction fuel m ss vs rule: find_cycle.induct)
  case (2 fuel m s ss V S)
  have [simp]: "S = {}" using "2.prems" by simp
  show ?case
  proof (cases "sd_id s \<in> V")
    case True
    with 2 show ?thesis by simp
  next
    case new: False
    obtain b V1 S1 where r: "has_cycle fuel m (sd_id s) (V, {}) = Some (b, V1, S1)"
      using "2.prems"(1) new by (cases "has_cycle fuel m (sd_id s) (V, {})") auto
    show ?thesis
    proof (cases b)
      case True
      with dfs_sound(1) [of fuel m "sd_id s" "(V, {})" V1 S1] r show ?thesis by simp
    next
      case False
      with r have S1: "S1 = {}" using dfs_frame(1) [of fuel m _ "(V, {})" V1 S1] by simp
      show ?thesis
        using "2.IH"(2) [OF new _ refl _ refl, of False V1 S1] r False "2.prems"(1) new S1 by simp
    qed
  qed
qed auto

lemma find_cycle_enough:
  assumes "finite (dom m)" "card (dom m) < fuel"
  shows "find_cycle fuel m ss vs \<noteq> None"
proof (induction ss arbitrary: vs)
  case (Cons s ss)
  obtain V S where [simp]: "vs = (V, S)" by (cases vs)
  have "card (dom m - V) < fuel"
    using assms by (meson card_mono Diff_subset le_less_trans)
  with dfs_enough(1) [of m "(V, S)" fuel "sd_id s"] assms obtain b V1 S1
    where "has_cycle fuel m (sd_id s) (V, S) = Some (b, V1, S1)" by auto
  with Cons [of "(V1, S1)"] Cons [of "(V, S)"] show ?case by (cases b) simp_all
qed simp

lemma dfs_fuel_enough: "find_cycle (dfs_fuel ss) (steps_map ss) ss' vs \<noteq> None"
proof (rule find_cycle_enough)
  show "finite (dom (steps_map ss))" by (simp add: steps_map_dom)
  have "card (dom (steps_map ss)) \<le> length ss"
    unfolding steps_map_dom by (rule le_trans [OF card_image_le card_length]) simp
  then show "card (dom (steps_map ss)) < dfs_fuel ss" by (simp add: dfs_fuel_def)
qed

lemma find_cycle_acyclic:
  assumes deps: "missing_dependency (steps_map ss) ss = None"
  shows "find_cycle (dfs_fuel ss) (steps_map ss) ss ({}, {}) = Some None
           \<longleftrightarrow> acyclic (dep_rel (steps_map ss))"
proof
  assume "find_cycle (dfs_fuel ss) (steps_map ss) ss ({}, {}) = Some None"
  from find_cycle_None [OF this] obtain V where
    V: "sd_id ` set ss \<subseteq> V" "finished_ok (steps_map ss) V {}" by (auto simp: finished_ok_def)
  show "acyclic (dep_rel (steps_map ss))"
  proof (rule acyclicI, rule allI)
    fix v
    show "(v, v) \<notin> (dep_rel (steps_map ss))\<^sup>+"
    proof (cases "v \<in> V")
      case True
      with V(2) show ?thesis by (simp add: finished_ok_def)
    next
      case False
      with V(1) have "steps_map ss v = None" by (auto simp: steps_map_None)
      then show ?thesis by (auto dest!: tranclD simp: dep_rel_def)
    qed
  qed
next
  assume ac: "acyclic (dep_rel (steps_map ss))"
  show "find_cycle (dfs_fuel ss) (steps_map ss) ss ({}, {}) = Some None"
  proof (cases "find_cycle (dfs_fuel ss) (steps_map ss) ss ({}, {})")
    case None
    with dfs_fuel_enough show ?thesis by blast
  next
    case (Some r)
    show ?thesis
    proof (cases r)
      case (Some e)
      with \<open>_ = Some r\<close> find_cycle_Some [of _ "steps_map ss" ss "({}, {})" e] ac
      show ?thesis by (auto simp: acyclic_def)
    qed (use Some in simp)
  qed
qed


section \<open>The tables a validated definition carries\<close>

definition dep_list :: "(step_id \<rightharpoonup> nat list) \<Rightarrow> step_id \<Rightarrow> nat list" where
  "dep_list m d = (case m d of None \<Rightarrow> [] | Some l \<Rightarrow> l)"

lemma dep_list_push: "dep_list (push_dep m d i) e = (if e = d then dep_list m d @ [i] else dep_list m e)"
  by (simp add: dep_list_def push_dep_def)

lemma dep_list_inner:
  "dep_list (foldl (\<lambda>m d. push_dep m d i) m ds) e = dep_list m e @ replicate (count_list ds e) i"
  by (induction ds arbitrary: m) (simp_all add: dep_list_push replicate_append_same)

lemma dep_list_outer:
  "dep_list (foldl (\<lambda>m (i, s). foldl (\<lambda>m d. push_dep m d i) m (all_dependencies s)) m xs) e =
     dep_list m e @ concat (map (\<lambda>(i, s). replicate (count_list (all_dependencies s) e) i) xs)"
  by (induction xs arbitrary: m) (auto simp: dep_list_inner)

lemma map_enumerate_nth: "map f (enumerate 0 xs) = map (\<lambda>i. f (i, xs ! i)) [0..<length xs]"
  by (rule nth_equalityI) (simp_all add: nth_enumerate_eq)

lemma build_reverse_deps_list:
  "dep_list (build_reverse_deps ss) d =
     concat (map (\<lambda>i. replicate (count_list (all_dependencies (ss ! i)) d) i) [0..<length ss])"
  unfolding build_reverse_deps_def dep_list_outer map_enumerate_nth by (simp add: dep_list_def)

lemma in_dep_list:
  "i \<in> set (dep_list (build_reverse_deps ss) d) \<longleftrightarrow>
     i < length ss \<and> d \<in> set (all_dependencies (ss ! i))"
  by (auto simp: build_reverse_deps_list count_list_0_iff dest: gr0I)

lemma in_build_initial: "i \<in> set (build_initial ss) \<longleftrightarrow> i < length ss \<and> all_dependencies (ss ! i) = []"
  by (force simp: build_initial_def all_dependencies_def in_set_enumerate_eq)

lemma validate_Inr:
  "validate def = Some (Inr def') \<longleftrightarrow>
     (case wd_budget def of None \<Rightarrow> True | Some b \<Rightarrow> validate_limits b = Inr ()) \<and>
     missing_dependency (steps_map (steps def)) (steps def) = None \<and>
     unsupported_rollback (steps def) = None \<and>
     find_cycle (dfs_fuel (steps def)) (steps_map (steps def)) (steps def) ({}, {}) = Some None \<and>
     def' = def\<lparr>reverse_deps := build_reverse_deps (steps def),
                initial_step_indices := build_initial (steps def)\<rparr>"
  unfolding validate_def Let_def by (auto split: option.splits sum.splits)

lemma validate_steps: "validate def = Some (Inr def') \<Longrightarrow> steps def' = steps def"
  by (simp add: validate_Inr)

lemma get_dependent_indices_validated:
  "validate def = Some (Inr def') \<Longrightarrow>
     get_dependent_indices def' d = dep_list (build_reverse_deps (steps def)) d"
  by (simp add: validate_Inr get_dependent_indices_def dep_list_def)

section \<open>Properties\<close>

text \<open>
  Validation always returns. The search for cycles visits every step id once, so on any
  definition, cyclic ones included, \<open>validate\<close> gives an error or a validated definition.
\<close>

lemma validate_returns: "validate def \<noteq> None"
proof -
  obtain r where "find_cycle (dfs_fuel (steps def)) (steps_map (steps def)) (steps def) ({}, {}) = Some r"
    using dfs_fuel_enough by blast
  then show ?thesis
    unfolding validate_def Let_def by (simp split: option.split sum.split)
qed

text \<open>
  C18: Validation accepts exactly the well-formed definitions: the budget's amounts are valid,
  every dependency names a step, a step with a rollback has a mode that can be rolled back, and
  the dependency relation of the steps has no cycle.
\<close>

theorem validate_accepts_iff:
  "(\<exists>def'. validate def = Some (Inr def')) \<longleftrightarrow>
     (\<forall>b. wd_budget def = Some b \<longrightarrow> validate_limits b = Inr ()) \<and>
     (\<forall>s\<in>set (steps def). set (all_dependencies s) \<subseteq> sd_id ` set (steps def)) \<and>
     (\<forall>s\<in>set (steps def). rollback s = None \<or> unsupported_mode (mode s) = None) \<and>
     acyclic (dep_rel (steps_map (steps def)))"
proof -
  have "missing_dependency (steps_map (steps def)) (steps def) = None \<longleftrightarrow>
      (\<forall>s\<in>set (steps def). set (all_dependencies s) \<subseteq> sd_id ` set (steps def))"
    unfolding missing_dependency_None steps_map_None by blast
  then show ?thesis
    by (auto simp: validate_Inr unsupported_rollback_None find_cycle_acyclic split: option.splits)
qed

text \<open>
  The table of dependents the scheduler follows is exact: for every step id it lists, in
  definition order, each step that names the id among its dependencies, once per mention.
\<close>

lemma reverse_deps_exact:
  assumes "validate def = Some (Inr def')"
  shows "get_dependent_indices def' d =
    concat (map (\<lambda>i. replicate (count_list (all_dependencies (steps def ! i)) d) i)
      [0..<length (steps def)])"
  by (simp add: get_dependent_indices_validated [OF assms] build_reverse_deps_list)

definition diamond :: "(nat, nat) workflow_definition" where
  "diamond = (new_definition ''wf'' ''wf'')\<lparr>steps :=
     [new_step ''a'' ''a'' 0, (new_step ''b'' ''b'' 1)\<lparr>depends_on := [''a'']\<rparr>,
      (new_step ''c'' ''c'' 2)\<lparr>depends_on_any := [''a'', ''b'']\<rparr>]\<rparr>"

lemmas validate_eval = validate_def steps_map_def all_dependencies_def new_step_def
  new_definition_def dfs_fuel_def build_reverse_deps_def build_initial_def push_dep_def

lemma diamond_validates: "\<exists>def'. validate diamond = Some (Inr def')"
  by (simp add: diamond_def validate_eval)

lemma validate_accepts_iff_witness:
  "wd_budget diamond = None \<and> acyclic (dep_rel (steps_map (steps diamond)))"
  using validate_accepts_iff [of diamond] diamond_validates by (simp add: diamond_def new_definition_def)

lemma reverse_deps_exact_example:
  "\<exists>def'. validate diamond = Some (Inr def') \<and> get_dependent_indices def' ''a'' = [1, 2]"
proof -
  obtain def' where "validate diamond = Some (Inr def')" using diamond_validates by blast
  with reverse_deps_exact [OF this, of "''a''"] show ?thesis
    by (simp add: diamond_def new_step_def new_definition_def all_dependencies_def upt_rec)
qed

end
