(* ===== verification/Wf_Store.thy ===== *)
theory Wf_Store
  imports Wf_Definition
begin

text \<open>
  The persistence of runs: the trait \<^verbatim>\<open>StateStore\<close> and the in-memory store that implements it
  (\<^verbatim>\<open>crates/flare-workflow/src/store.rs\<close>). The trait is the locale \<open>state_store\<close>; the two hash maps
  of \<^verbatim>\<open>InMemoryStore\<close> are an association list from run ids to states (listed in some order) and
  a map to journals. A write closure returns the new state and what it captured on the way out.
\<close>

section \<open>The in-memory store\<close>

record 'd mem_store =
  states :: "(run_id \<times> 'd workflow_state) list"
  journals :: "run_id \<rightharpoonup> journal_entry list"

definition new_store :: "'d mem_store" where
  "new_store = \<lparr>states = [], journals = Map.empty\<rparr>"

text \<open>The budget handle of a live context is never stored; a write stamps the time.\<close>

definition detach :: "'d workflow_state \<Rightarrow> 'd workflow_state" where
  "detach s = s\<lparr>st_context := (st_context s)\<lparr>ctx_budget := None\<rparr>\<rparr>"

definition touch :: "time \<Rightarrow> 'd workflow_state \<Rightarrow> 'd workflow_state" where
  "touch now s = (detach s)\<lparr>updated_at := now\<rparr>"

lemma detach_sel [simp]:
  "status (detach s) = status s" "lease (detach s) = lease s" "st_budget (detach s) = st_budget s"
  "st_run_id (detach s) = st_run_id s" "step_states (detach s) = step_states s"
  "st_error (detach s) = st_error s" "resume_identity (detach s) = resume_identity s"
  "st_workflow_id (detach s) = st_workflow_id s"
  by (simp_all add: detach_def)

lemma touch_sel [simp]:
  "status (touch now s) = status s" "lease (touch now s) = lease s"
  "st_budget (touch now s) = st_budget s" "st_run_id (touch now s) = st_run_id s"
  "step_states (touch now s) = step_states s" "updated_at (touch now s) = now"
  "st_error (touch now s) = st_error s" "resume_identity (touch now s) = resume_identity s"
  "st_workflow_id (touch now s) = st_workflow_id s"
  by (simp_all add: touch_def)

definition save :: "'d workflow_state \<Rightarrow> 'd mem_store \<Rightarrow> 'd mem_store" where
  "save st m = m\<lparr>states := AList.update (st_run_id st) (detach st) (states m)\<rparr>"

definition load :: "'d mem_store \<Rightarrow> run_id \<Rightarrow> 'd workflow_state wf_result" where
  "load m i = (case map_of (states m) i of None \<Rightarrow> Inl (NotFound i) | Some st \<Rightarrow> Inr st)"

definition store_update ::
  "run_id \<Rightarrow> ('d workflow_state \<Rightarrow> 'd workflow_state \<times> 'r) \<Rightarrow> time \<Rightarrow> 'd mem_store
     \<Rightarrow> 'd mem_store \<times> 'r wf_result" where
  "store_update i f now m =
     (case map_of (states m) i of
        None \<Rightarrow> (m, Inl (NotFound i))
      | Some st \<Rightarrow>
          (case f st of (st', r) \<Rightarrow>
             (m\<lparr>states := AList.update i (touch now st') (states m)\<rparr>, Inr r)))"

definition delete_run :: "run_id \<Rightarrow> 'd mem_store \<Rightarrow> 'd mem_store" where
  "delete_run i m = m\<lparr>states := AList.delete i (states m), journals := (journals m)(i := None)\<rparr>"

definition list_active :: "'d mem_store \<Rightarrow> 'd workflow_state list" where
  "list_active m = filter (\<lambda>s. status s \<in> {WRunning, WPending, WWaiting}) (map snd (states m))"

definition list_all_runs :: "'d mem_store \<Rightarrow> 'd workflow_state list" where
  "list_all_runs m = map snd (states m)"

definition is_cancelled :: "'d mem_store \<Rightarrow> run_id \<Rightarrow> bool wf_result" where
  "is_cancelled m i =
     (case map_of (states m) i of None \<Rightarrow> Inl (NotFound i) | Some s \<Rightarrow> Inr (status s = WCancelled))"

definition is_paused :: "'d mem_store \<Rightarrow> run_id \<Rightarrow> bool wf_result" where
  "is_paused m i = (case load m i of Inl e \<Rightarrow> Inl e | Inr s \<Rightarrow> Inr (status s = WPaused))"

text \<open>The count of removed states is returned; the journals stay.\<close>

definition keep_state :: "time \<Rightarrow> duration \<Rightarrow> 'd workflow_state \<Rightarrow> bool" where
  "keep_state now ttl s \<longleftrightarrow>
     status s \<in> {WRunning, WPending, WWaiting, WPaused} \<or> nat (now - updated_at s) < ttl"

definition cleanup_old_workflows :: "time \<Rightarrow> duration \<Rightarrow> 'd mem_store \<Rightarrow> 'd mem_store \<times> nat" where
  "cleanup_old_workflows now ttl m =
     (let kept = filter (\<lambda>(_, s). keep_state now ttl s) (states m)
      in (m\<lparr>states := kept\<rparr>, length (states m) - length kept))"

definition get_context :: "'d mem_store \<Rightarrow> run_id \<Rightarrow> 'd workflow_context wf_result" where
  "get_context m i =
     (case map_of (states m) i of None \<Rightarrow> Inl (NotFound i) | Some s \<Rightarrow> Inr (st_context s))"

definition cleanup_if_terminal :: "run_id \<Rightarrow> 'd mem_store \<Rightarrow> 'd mem_store \<times> bool" where
  "cleanup_if_terminal i m =
     (case map_of (states m) i of
        Some s \<Rightarrow> if status s \<in> {WCompleted, WFailed, WCancelled} then (delete_run i m, True) else (m, False)
      | None \<Rightarrow> (m, False))"

definition append_journal :: "run_id \<Rightarrow> journal_entry \<Rightarrow> 'd mem_store \<Rightarrow> 'd mem_store \<times> nat" where
  "append_journal i e m =
     (let es = (case journals m i of None \<Rightarrow> [] | Some es \<Rightarrow> es) @ [e]
      in (m\<lparr>journals := (journals m)(i \<mapsto> es)\<rparr>, length es))"

definition journal :: "'d mem_store \<Rightarrow> run_id \<Rightarrow> journal_entry list wf_result" where
  "journal m i = (case journals m i of None \<Rightarrow> Inl (NotFound i) | Some es \<Rightarrow> Inr es)"

definition count_by_status :: "'d mem_store \<Rightarrow> workflow_status \<Rightarrow> nat" where
  "count_by_status m st = length (filter (\<lambda>s. status s = st) (map snd (states m)))"

definition run_count :: "'d mem_store \<Rightarrow> nat" where
  "run_count m = length (states m)"

text \<open>The default \<open>budget_operation\<close> of the trait, on top of \<open>update\<close>.\<close>

definition budget_closure ::
  "(time \<Rightarrow> bool) \<Rightarrow> time \<Rightarrow> budget_operation \<Rightarrow> 'd workflow_state
     \<Rightarrow> 'd workflow_state \<times> budget_update wf_result" where
  "budget_closure ts_ok now op s =
     (if (case op of Reserve _ _ _ \<Rightarrow> True | _ \<Rightarrow> False) \<and> (is_terminal (status s) \<or> status s = WPaused)
      then (s, Inl (budget_error ''run is no longer dispatchable''))
      else (case st_budget s of
              None \<Rightarrow> (s, Inl (budget_error ''run has no budget''))
            | Some b \<Rightarrow> (case apply_budget ts_ok now b op of (b', r) \<Rightarrow> (s\<lparr>st_budget := Some b'\<rparr>, r))))"

definition budget_op ::
  "(time \<Rightarrow> bool) \<Rightarrow> run_id \<Rightarrow> budget_operation \<Rightarrow> time \<Rightarrow> 'd mem_store
     \<Rightarrow> 'd mem_store \<times> budget_update wf_result" where
  "budget_op ts_ok i op now m =
     (case store_update i (budget_closure ts_ok now op) now m of
        (m', Inl e) \<Rightarrow> (m', Inl e)
      | (m', Inr r) \<Rightarrow> (m', r))"

text \<open>
  \<open>smoke_test\<close> is generic in the store: its operations are arguments. The fresh run id and the
  clock are arguments too.
\<close>

definition smoke_test ::
  "('d workflow_state \<Rightarrow> 's \<Rightarrow> 's) \<Rightarrow> (run_id \<Rightarrow> 's \<Rightarrow> 's) \<Rightarrow> ('s \<Rightarrow> run_id \<Rightarrow> 'd workflow_state wf_result)
     \<Rightarrow> run_id \<Rightarrow> 'd \<Rightarrow> time \<Rightarrow> 's \<Rightarrow> 's \<times> unit wf_result" where
  "smoke_test sv del ld i dflt now s =
     (let s1 = sv (new_state i ''agentflare-store-smoke-test'' dflt now) s;
          s2 = del i s1
      in (s2, case ld s2 i of
                Inl (NotFound _) \<Rightarrow> Inr ()
              | Inr _ \<Rightarrow> Inl (StoreError ''smoke test: state still loadable after delete()'')
              | Inl e \<Rightarrow> Inl e))"

section \<open>Metrics\<close>

record metrics_filter =
  mf_workflow_id :: "workflow_id option"
  mf_status :: "workflow_status option"
  mf_since :: "time option"

record step_metrics =
  sm_counts :: "step_status \<rightharpoonup> nat"
  sm_avg_duration_ms :: "f64 option"

record workflow_metrics =
  wm_counts :: "workflow_status \<rightharpoonup> nat"
  wm_avg_duration_ms :: "f64 option"
  wm_input_tokens :: nat
  wm_output_tokens :: nat
  wm_steps :: "step_id \<rightharpoonup> step_metrics"

definition default_step_metrics :: step_metrics where
  "default_step_metrics = \<lparr>sm_counts = Map.empty, sm_avg_duration_ms = None\<rparr>"

definition matches_filter :: "metrics_filter \<Rightarrow> 'd workflow_state \<Rightarrow> bool" where
  "matches_filter f s \<longleftrightarrow>
     (case mf_workflow_id f of None \<Rightarrow> True | Some i \<Rightarrow> i = st_workflow_id s) \<and>
     (case mf_status f of None \<Rightarrow> True | Some x \<Rightarrow> x = status s) \<and>
     (case mf_since f of None \<Rightarrow> True | Some t \<Rightarrow> t \<le> created_at s)"

definition count_in :: "('key \<Rightarrow> nat option) \<Rightarrow> 'key \<Rightarrow> ('key \<Rightarrow> nat option)" where
  "count_in counts x = counts(x := Some (1 + (case counts x of Some n \<Rightarrow> n | None \<Rightarrow> 0)))"

text \<open>\<open>num_milliseconds\<close> cuts towards zero. A mean divides by a count below \<open>2\<^sup>5\<^sup>3\<close>.\<close>

definition num_milliseconds :: "int \<Rightarrow> int" where
  "num_milliseconds d = (if 0 \<le> d then d div 1000000 else - ((- d) div 1000000))"

definition f_mean :: "f64 list \<Rightarrow> f64 option" where
  "f_mean ds = (if ds = [] then None
     else Some (f_div_pos (foldl f_add (Fin 0 0) ds) (int (length ds)) 0))"

definition bump_step :: "(step_id \<rightharpoonup> step_metrics) \<Rightarrow> step_id \<times> step_state \<Rightarrow> (step_id \<rightharpoonup> step_metrics)" where
  "bump_step m = (\<lambda>(i, ss).
     let sm = (case m i of None \<Rightarrow> default_step_metrics | Some sm \<Rightarrow> sm)
     in m(i \<mapsto> sm\<lparr>sm_counts := count_in (sm_counts sm) (ss_status ss)\<rparr>))"

definition set_mean :: "(step_id \<times> step_state) list \<Rightarrow> (step_id \<rightharpoonup> step_metrics) \<Rightarrow> step_id \<Rightarrow> step_metrics option" where
  "set_mean entries m i =
     map_option (\<lambda>sm. sm\<lparr>sm_avg_duration_ms :=
         f_mean (map (\<lambda>(_, ss). f_of_nat (ss_duration_ms ss)) (filter (\<lambda>(j, _). j = i) entries))\<rparr>) (m i)"

text \<open>
  The step states of a run are a hash map; the order it is iterated in is the argument \<open>order\<close>.
  Token totals are \<open>u64\<close> sums, taken modulo \<open>2\<^sup>6\<^sup>4\<close> as in a release build.
\<close>

definition step_entries ::
  "('d workflow_state \<Rightarrow> step_id list) \<Rightarrow> 'd workflow_state list \<Rightarrow> (step_id \<times> step_state) list" where
  "step_entries order ss =
     concat (map (\<lambda>s. List.map_filter (\<lambda>i. map_option (Pair i) (step_states s i)) (order s)) ss)"

definition sum_u64 :: "nat list \<Rightarrow> nat" where
  "sum_u64 xs = foldl (\<lambda>a b. (a + b) mod 2 ^ 64) 0 xs"

definition workflow_metrics ::
  "('d workflow_state \<Rightarrow> step_id list) \<Rightarrow> metrics_filter \<Rightarrow> 'd mem_store \<Rightarrow> workflow_metrics" where
  "workflow_metrics order f m =
     (let matching = filter (matches_filter f) (map snd (states m));
          entries = step_entries order matching
      in \<lparr>wm_counts = foldl count_in Map.empty (map status matching),
          wm_avg_duration_ms =
            f_mean (map (\<lambda>s. round64 (num_milliseconds (updated_at s - created_at s)) 0) matching),
          wm_input_tokens = sum_u64 (map (\<lambda>(_, ss). ss_input_tokens ss) entries),
          wm_output_tokens = sum_u64 (map (\<lambda>(_, ss). ss_output_tokens ss) entries),
          wm_steps = set_mean entries (foldl bump_step Map.empty entries)\<rparr>)"

lemma count_in_foldl:
  "(case foldl count_in m ks k of None \<Rightarrow> 0 | Some n \<Rightarrow> n) =
     (case m k of None \<Rightarrow> 0 | Some n \<Rightarrow> n) + count_list ks k"
  by (induction ks arbitrary: m) (auto simp: count_in_def split: option.split)

lemma count_in_foldl_None: "foldl count_in m ks k = None \<longleftrightarrow> m k = None \<and> k \<notin> set ks"
  by (induction ks arbitrary: m) (auto simp: count_in_def)

lemma count_in_foldl_eq:
  "foldl count_in Map.empty ks k = (if k \<in> set ks then Some (count_list ks k) else None)"
  using count_in_foldl [of Map.empty ks k] count_in_foldl_None [of Map.empty ks k]
  by (auto split: option.splits)

lemma sum_u64_mod: "sum_u64 xs = sum_list xs mod 2 ^ 64"
proof -
  have "foldl (\<lambda>a b. (a + b) mod 2 ^ 64) a xs = (a + sum_list xs) mod 2 ^ 64" if "a < 2 ^ 64" for a :: nat
    using that by (induction xs arbitrary: a) (simp_all add: mod_simps add.assoc)
  from this [of 0] show ?thesis by (simp add: sum_u64_def)
qed

lemma count_list_map_status: "count_list (map status ss) st = length (filter (\<lambda>s. status s = st) ss)"
  by (induction ss) auto

section \<open>The contract of a state store\<close>

text \<open>
  What the engine relies on: a saved state is what is loaded (without its budget handle), a
  write applies its closure to the stored state and to that run alone, a missing run is an
  error that changes nothing, and a deleted run is gone.
\<close>

locale state_store =
  fixes load :: "'s \<Rightarrow> run_id \<Rightarrow> 'd workflow_state wf_result"
    and save :: "'d workflow_state \<Rightarrow> 's \<Rightarrow> 's"
    and update :: "run_id \<Rightarrow> ('d workflow_state \<Rightarrow> 'd workflow_state \<times> 'r) \<Rightarrow> time \<Rightarrow> 's \<Rightarrow> 's \<times> 'r wf_result"
    and delete :: "run_id \<Rightarrow> 's \<Rightarrow> 's"
  assumes load_save:
    "load (save st s) j = (if j = st_run_id st then Inr (detach st) else load s j)"
    and load_update:
    "load s i = Inr st \<Longrightarrow>
       load (fst (update i f now s)) j = (if j = i then Inr (touch now (fst (f st))) else load s j)"
    and update_result: "load s i = Inr st \<Longrightarrow> snd (update i f now s) = Inr (snd (f st))"
    and update_absent: "load s i = Inl e \<Longrightarrow> update i f now s = (s, Inl e)"
    and load_delete: "load (delete i s) j = (if j = i then Inl (NotFound i) else load s j)"
begin

lemma smoke_test_ok: "snd (smoke_test save delete load i d now s) = Inr ()"
  by (simp add: smoke_test_def Let_def load_delete)

lemma update_other: "j \<noteq> i \<Longrightarrow> load (fst (update i f now s)) j = load s j"
  by (cases "load s i") (simp_all add: update_absent load_update)

text \<open>A relation the closure of a write respects holds between a run's state before and after it.\<close>

lemma update_rel:
  assumes "load s j = Inr st" "R st st" "R st (touch now (fst (f st)))"
  shows "\<exists>st'. load (fst (update i f now s)) j = Inr st' \<and> R st st'"
proof (cases "j = i")
  case False
  with assms(1,2) show ?thesis by (simp add: update_other)
qed (use assms in \<open>simp add: load_update\<close>)

end

lemma map_of_states_update [simp]: "map_of (AList.update k v xs) j = (if j = k then Some v else map_of xs j)"
  by (simp add: update_conv')

lemma map_of_states_delete [simp]: "map_of (AList.delete k xs) j = (if j = k then None else map_of xs j)"
  by (simp add: delete_conv')

interpretation mem: state_store load save store_update delete_run
  by unfold_locales
    (auto simp: load_def save_def store_update_def delete_run_def split: option.splits prod.splits)


text \<open>The rows of the map are keyed by distinct run ids.\<close>

definition store_wf :: "'d mem_store \<Rightarrow> bool" where
  "store_wf m \<longleftrightarrow> distinct (map fst (states m))"

lemma store_wf_new: "store_wf new_store"
  by (simp add: store_wf_def new_store_def)

lemma store_wf_ops:
  assumes "store_wf m"
  shows "store_wf (save st m)" "store_wf (fst (store_update i f now m))" "store_wf (delete_run i m)"
    "store_wf (fst (cleanup_old_workflows now ttl m))" "store_wf (fst (cleanup_if_terminal i m))"
    "store_wf (fst (append_journal i e m))"
  using assms
  by (auto simp: store_wf_def save_def store_update_def delete_run_def cleanup_old_workflows_def Let_def
      cleanup_if_terminal_def append_journal_def distinct_update distinct_delete
      distinct_map_filter split: option.split prod.split)

lemma load_Inr: "load m i = Inr st \<longleftrightarrow> map_of (states m) i = Some st"
  by (simp add: load_def split: option.split)

lemma store_update_loaded:
  "load m i = Inr st \<Longrightarrow> store_update i f now m =
     (m\<lparr>states := AList.update i (touch now (fst (f st))) (states m)\<rparr>, Inr (snd (f st)))"
  by (simp add: load_Inr store_update_def split: prod.split)

lemma journal_append [simp]:
  "journal (fst (append_journal i e m)) j =
     (if j = i then Inr ((case journals m i of None \<Rightarrow> [] | Some es \<Rightarrow> es) @ [e]) else journal m j)"
  by (simp add: append_journal_def journal_def Let_def)

lemma load_append [simp]: "load (fst (append_journal i e m)) j = load m j"
  by (simp add: append_journal_def load_def Let_def)

section \<open>Properties\<close>

text \<open>
  Budget admission follows the run: while the stored run is paused or has settled, no call
  can be reserved against its budget, whatever its ledger says, and the ledger is left as it was.
\<close>

lemma reserve_needs_dispatchable_run:
  assumes "load m i = Inr st" "is_terminal (status st) \<or> status st = WPaused"
  shows "\<exists>m' st'. budget_op ts_ok i (Reserve step agent att) now m
                = (m', Inl (budget_error ''run is no longer dispatchable''))
              \<and> load m' i = Inr st' \<and> st_budget st' = st_budget st \<and> status st' = status st"
  using assms(2)
  by (auto simp: budget_op_def store_update_loaded [OF assms(1)] budget_closure_def load_def)

lemma reserve_needs_dispatchable_run_example:
  "snd (budget_op (\<lambda>_. True) 7 (Reserve ''s'' ''a'' 1) 5
      (save ((new_state 7 ''wf'' () 0)\<lparr>status := WPaused, st_budget := Some demo_budget\<rparr>) new_store))
     = Inl (budget_error ''run is no longer dispatchable'')"
  using reserve_needs_dispatchable_run [of
      "save ((new_state 7 ''wf'' () 0)\<lparr>status := WPaused, st_budget := Some demo_budget\<rparr>) new_store" 7
      "detach ((new_state 7 ''wf'' () 0)\<lparr>status := WPaused, st_budget := Some demo_budget\<rparr>)"
      "\<lambda>_. True" "''s''" "''a''" 1 5]
  by (auto simp: mem.load_save new_state_def)

text \<open>
  The instance counts of a metrics report are exact: for every status, the number of stored
  runs that match the filter and have that status; a status with no such run has no entry.
\<close>

lemma metrics_count_runs:
  "wm_counts (workflow_metrics order f m) st =
     (let n = length (filter (\<lambda>s. matches_filter f s \<and> status s = st) (list_all_runs m))
      in if n = 0 then None else Some n)"
  by (simp add: workflow_metrics_def Let_def count_in_foldl_eq list_all_runs_def count_list_map_status
      filter_filter conj_commute filter_empty_conv image_iff)
    auto

end
