(* ===== verification/Wf_Engine.thy ===== *)
theory Wf_Engine
  imports Wf_Store Lease
begin

text \<open>
  The engine of one process and its executor leases: \<^verbatim>\<open>engine.rs\<close> (state, start, eviction,
  settling), \<^verbatim>\<open>engine_lease.rs\<close> (leases, recovery, takeover), \<^verbatim>\<open>engine_control.rs\<close> (pause, resume,
  cancel) and \<^verbatim>\<open>events.rs\<close> (the event type) of \<^verbatim>\<open>crates/flare-workflow/src\<close>. A world is one engine
  with the store it shares with the engines of other processes. An operation that does not wait
  reads the clock once. What it publishes on the event bus and passes to the terminal callback
  is kept in the engine, oldest first.
\<close>

section \<open>Actions\<close>

text \<open>An action changes a world and returns a result; \<open>?\<close> and \<open>.await?\<close> are \<open>andThen\<close>.\<close>

type_synonym ('w, 'a) act = "'w \<Rightarrow> 'w \<times> 'a wf_result"

definition ret :: "'a \<Rightarrow> ('w, 'a) act" where "ret a = (\<lambda>w. (w, Inr a))"

definition fail :: "workflow_error \<Rightarrow> ('w, 'a) act" where "fail e = (\<lambda>w. (w, Inl e))"

definition andThen :: "('w, 'a) act \<Rightarrow> ('a \<Rightarrow> ('w, 'b) act) \<Rightarrow> ('w, 'b) act" where
  "andThen m f = (\<lambda>w. case m w of (w', Inl e) \<Rightarrow> (w', Inl e) | (w', Inr a) \<Rightarrow> f a w')"

definition lift_res :: "('w \<Rightarrow> 'a wf_result) \<Rightarrow> ('w, 'a) act" where "lift_res g = (\<lambda>w. (w, g w))"

definition modify :: "('w \<Rightarrow> 'w) \<Rightarrow> ('w, unit) act" where "modify g = (\<lambda>w. (g w, Inr ()))"

text \<open>\<open>let _ = m.await;\<close>\<close>

definition ignore :: "('w, 'a) act \<Rightarrow> ('w, unit) act" where "ignore m = (\<lambda>w. (fst (m w), Inr ()))"

lemma andThen_simps [simp]:
  "andThen (ret a) f w = f a w" "andThen (fail e) f w = (w, Inl e)"
  "andThen (modify g) k w = k () (g w)" "andThen (ignore m) k w = k () (fst (m w))"
  "andThen (lift_res q) f w = (case q w of Inl e \<Rightarrow> (w, Inl e) | Inr a \<Rightarrow> f a w)"
  by (simp_all add: andThen_def ret_def fail_def modify_def ignore_def lift_res_def split: sum.split)

lemma act_simps [simp]:
  "ret a w = (w, Inr a)" "fail e w = (w, Inl e)" "modify g w = (g w, Inr ())"
  "lift_res q w = (w, q w)" "ignore m w = (fst (m w), Inr ())"
  by (simp_all add: ret_def fail_def modify_def lift_res_def ignore_def)

section \<open>The engine\<close>

datatype wf_event =
    EvWorkflowStarted run_id workflow_id
  | EvStepStarted run_id step_id nat
  | EvStepSucceeded run_id step_id duration
  | EvStepFailed run_id step_id string bool
  | EvStepRetrying run_id step_id nat duration
  | EvStepWaiting run_id step_id string
  | EvWorkflowCompleted run_id duration
  | EvWorkflowFailed run_id step_id string
  | EvWorkflowCancelled run_id
  | EvRollbackStepFailed run_id step_id string
  | EvRollbackCompleted run_id "step_id list" "step_id list"

text \<open>
  What comes from outside: the workflow data's own budget limits (a trait method), the host's
  process table, chrono's range of time stamps, and the JSON that serde writes and reads for a
  run identity, a journaled input and a context, with the text of its error on the left where the
  data of a workflow cannot be written.
\<close>

record 'd host =
  data_budget :: "'d \<Rightarrow> budget_limits option"
  pid_exists :: "nat \<Rightarrow> bool"
  ts_ok :: "time \<Rightarrow> bool"
  identity_json :: "string option \<Rightarrow> budget_limits \<Rightarrow> string"
  input_json :: "string \<Rightarrow> json \<Rightarrow> string"
  ctx_json :: "'d workflow_context \<Rightarrow> string + string"
  ctx_parse :: "string \<Rightarrow> 'd workflow_context option"

record ('d, 'x) engine =
  definitions :: "workflow_id \<rightharpoonup> ('d, 'x) workflow_definition"
  executor_id :: string
  lease_ttl :: duration
  shutting_down :: bool
  active_workflows :: nat
  jitter :: f64
  driving :: "run_id set"
  superseded :: "run_id set"
  data_patches :: "run_id \<rightharpoonup> ('d \<Rightarrow> 'd)"
  published :: "wf_event list"
  notified :: "(run_id \<times> workflow_status \<times> string option) list"

record ('d, 'x) world =
  eng :: "('d, 'x) engine"
  world_store :: "'d mem_store"

definition with_store :: "string \<Rightarrow> ('d, 'x) engine" where
  "with_store process_id =
     \<lparr>definitions = Map.empty, executor_id = process_id, lease_ttl = 60 * nanos_per_sec,
      shutting_down = False, active_workflows = 0, jitter = Fin 0 0, driving = {}, superseded = {},
      data_patches = Map.empty, published = [], notified = []\<rparr>"

definition with_lease_ttl :: "duration \<Rightarrow> ('d, 'x) engine \<Rightarrow> ('d, 'x) engine" where
  "with_lease_ttl ttl e = e\<lparr>lease_ttl := max ttl 100000000\<rparr>"

definition with_executor_id :: "string \<Rightarrow> ('d, 'x) engine \<Rightarrow> ('d, 'x) engine" where
  "with_executor_id i e = e\<lparr>executor_id := i\<rparr>"

text \<open>\<open>jitter.clamp(0.0, 1.0)\<close>; NaN stays NaN.\<close>

definition with_jitter :: "f64 \<Rightarrow> ('d, 'x) engine \<Rightarrow> ('d, 'x) engine" where
  "with_jitter j e =
     e\<lparr>jitter := (if f_lt j (Fin 0 0) then Fin 0 0 else if f_lt (Fin 1 0) j then Fin 1 0 else j)\<rparr>"

definition register_workflow ::
  "('d, 'x) workflow_definition \<Rightarrow> ('d, 'x) engine \<Rightarrow> (('d, 'x) engine \<times> (validation_error + unit)) option" where
  "register_workflow def e =
     (case validate def of
        None \<Rightarrow> None
      | Some (Inl er) \<Rightarrow> Some (e, Inl er)
      | Some (Inr def') \<Rightarrow> Some (e\<lparr>definitions := (definitions e)(wd_id def \<mapsto> def')\<rparr>, Inr ()))"

definition publish :: "wf_event \<Rightarrow> (('d, 'x) world, unit) act" where
  "publish ev = modify (\<lambda>w. w\<lparr>eng := (eng w)\<lparr>published := published (eng w) @ [ev]\<rparr>\<rparr>)"

definition notify_terminal ::
  "run_id \<Rightarrow> workflow_status \<Rightarrow> string option \<Rightarrow> (('d, 'x) world, unit) act" where
  "notify_terminal i st er = modify (\<lambda>w. w\<lparr>eng := (eng w)\<lparr>notified := notified (eng w) @ [(i, st, er)]\<rparr>\<rparr>)"

text \<open>Store operations as actions of a world.\<close>

definition w_update ::
  "run_id \<Rightarrow> ('d workflow_state \<Rightarrow> 'd workflow_state \<times> 'r) \<Rightarrow> time \<Rightarrow> (('d, 'x) world, 'r) act" where
  "w_update i f now w = (case store_update i f now (world_store w) of (m, r) \<Rightarrow> (w\<lparr>world_store := m\<rparr>, r))"

definition w_write ::
  "run_id \<Rightarrow> ('d workflow_state \<Rightarrow> 'd workflow_state) \<Rightarrow> time \<Rightarrow> (('d, 'x) world, unit) act" where
  "w_write i f now = w_update i (\<lambda>s. (f s, ())) now"

definition w_load :: "run_id \<Rightarrow> (('d, 'x) world, 'd workflow_state) act" where
  "w_load i = lift_res (\<lambda>w. load (world_store w) i)"

definition w_journal :: "run_id \<Rightarrow> (('d, 'x) world, journal_entry list) act" where
  "w_journal i = lift_res (\<lambda>w. journal (world_store w) i)"

definition w_append :: "run_id \<Rightarrow> journal_entry \<Rightarrow> (('d, 'x) world, unit) act" where
  "w_append i e = modify (\<lambda>w. w\<lparr>world_store := fst (append_journal i e (world_store w))\<rparr>)"

section \<open>Executor leases\<close>

definition is_leased_elsewhere :: "('d, 'x) engine \<Rightarrow> time \<Rightarrow> 'd workflow_state \<Rightarrow> bool" where
  "is_leased_elsewhere e now s =
     (case lease s of
        None \<Rightarrow> False
      | Some l \<Rightarrow> lease_owner l \<noteq> executor_id e \<and> is_fresh l now (lease_ttl e))"

text \<open>\<open>rsplitn(3, ':')\<close> of an identity \<open>host:pid:nonce\<close>; the host may contain colons.\<close>

definition rsplit_once :: "char \<Rightarrow> string \<Rightarrow> (string \<times> string) option" where
  "rsplit_once c s = map_option (\<lambda>(a, b). (rev b, rev a)) (split_once c (rev s))"

definition host_pid :: "string \<Rightarrow> (string \<times> string) option" where
  "host_pid owner =
     (case rsplit_once CHR '':'' owner of
        None \<Rightarrow> None
      | Some (front, nonce) \<Rightarrow> rsplit_once CHR '':'' front)"

definition parse_u32 :: "string \<Rightarrow> nat option" where
  "parse_u32 s = (case parse_u64 s of None \<Rightarrow> None | Some n \<Rightarrow> if n \<le> u32_max then Some n else None)"

definition lease_holder_is_dead :: "'d host \<Rightarrow> ('d, 'x) engine \<Rightarrow> executor_lease \<Rightarrow> bool" where
  "lease_holder_is_dead h e l =
     (case (host_pid (executor_id e), host_pid (lease_owner l)) of
        (Some (my_host, my_pid), Some (hst, pid)) \<Rightarrow>
          if hst \<noteq> my_host \<or> pid = my_pid then False
          else (case parse_u32 pid of None \<Rightarrow> False | Some n \<Rightarrow> \<not> pid_exists h n)
      | _ \<Rightarrow> False)"

definition held_by_live_executor :: "'d host \<Rightarrow> ('d, 'x) engine \<Rightarrow> time \<Rightarrow> 'd workflow_state \<Rightarrow> bool" where
  "held_by_live_executor h e now s \<longleftrightarrow>
     is_leased_elsewhere e now s
     \<and> \<not> (case lease s of None \<Rightarrow> False | Some l \<Rightarrow> lease_holder_is_dead h e l)"

definition new_lease :: "('d, 'x) engine \<Rightarrow> time \<Rightarrow> executor_lease" where
  "new_lease e now = \<lparr>lease_owner = executor_id e, renewed_at = now\<rparr>"

definition apply_data_patch :: "('d, 'x) engine \<Rightarrow> run_id \<Rightarrow> 'd \<Rightarrow> 'd" where
  "apply_data_patch e i d = (case data_patches e i of None \<Rightarrow> d | Some p \<Rightarrow> p d)"

definition patch_run_data :: "run_id \<Rightarrow> ('d \<Rightarrow> 'd) \<Rightarrow> time \<Rightarrow> (('d, 'x) world, unit) act" where
  "patch_run_data i p now =
     andThen (modify (\<lambda>w. w\<lparr>eng := (eng w)\<lparr>data_patches := (data_patches (eng w))(i \<mapsto> p)\<rparr>\<rparr>))
       (\<lambda>_. w_write i (\<lambda>s. s\<lparr>st_context := (st_context s)\<lparr>ctx_data := p (ctx_data (st_context s))\<rparr>\<rparr>) now)"

text \<open>\<open>claim_driving\<close>, and the drop of the guard it returns.\<close>

definition claim_driving :: "run_id \<Rightarrow> ('d, 'x) engine \<Rightarrow> ('d, 'x) engine option" where
  "claim_driving i e =
     (if i \<in> driving e then None
      else Some (e\<lparr>driving := insert i (driving e), superseded := superseded e - {i}\<rparr>))"

definition drop_driving :: "run_id \<Rightarrow> ('d, 'x) engine \<Rightarrow> ('d, 'x) engine" where
  "drop_driving i e =
     e\<lparr>driving := driving e - {i}, superseded := superseded e - {i},
       data_patches := (data_patches e)(i := None)\<rparr>"

definition is_superseded :: "('d, 'x) engine \<Rightarrow> run_id \<Rightarrow> bool" where
  "is_superseded e i \<longleftrightarrow> i \<in> superseded e"

definition should_stop :: "run_id \<Rightarrow> ('d, 'x) world \<Rightarrow> bool wf_result" where
  "should_stop i w = (if is_superseded (eng w) i then Inr True else is_paused (world_store w) i)"

text \<open>One round of \<open>renew_lease_loop\<close>; the result says whether the loop goes on.\<close>

definition renew_closure ::
  "('d, 'x) engine \<Rightarrow> time \<Rightarrow> 'd workflow_state \<Rightarrow> 'd workflow_state \<times> string option" where
  "renew_closure e now s =
     (if is_leased_elsewhere e now s then (s, map_option lease_owner (lease s))
      else (s\<lparr>lease := Some (new_lease e now)\<rparr>, None))"

definition renew_lease_round :: "run_id \<Rightarrow> time \<Rightarrow> ('d, 'x) world \<Rightarrow> ('d, 'x) world \<times> bool" where
  "renew_lease_round i now w =
     (case w_update i (renew_closure (eng w) now) now w of
        (w', Inr None) \<Rightarrow> (w', True)
      | (w', Inr (Some other)) \<Rightarrow>
          (w'\<lparr>eng := (eng w')\<lparr>superseded := insert i (superseded (eng w'))\<rparr>\<rparr>, False)
      | (w', Inl (NotFound _)) \<Rightarrow> (w', False)
      | (w', Inl _) \<Rightarrow> (w', True))"

definition release_closure :: "('d, 'x) engine \<Rightarrow> 'd workflow_state \<Rightarrow> 'd workflow_state" where
  "release_closure e s =
     (case lease s of
        None \<Rightarrow> s
      | Some l \<Rightarrow> if lease_owner l = executor_id e then s\<lparr>lease := None\<rparr> else s)"

definition release_lease :: "run_id \<Rightarrow> time \<Rightarrow> (('d, 'x) world, unit) act" where
  "release_lease i now w = ignore (w_write i (release_closure (eng w)) now) w"


section \<open>Resuming a run\<close>

definition run_limits :: "'d host \<Rightarrow> ('d, 'x) workflow_definition \<Rightarrow> 'd \<Rightarrow> budget_limits option" where
  "run_limits h def d = (case wd_budget def of None \<Rightarrow> data_budget h d | Some l \<Rightarrow> Some l)"

definition run_identity :: "'d host \<Rightarrow> ('d, 'x) workflow_definition \<Rightarrow> 'd \<Rightarrow> string option" where
  "run_identity h def d =
     (case run_limits h def d of
        Some l \<Rightarrow> Some (identity_json h (wd_resume_identity def) l)
      | None \<Rightarrow> wd_resume_identity def)"

definition compatible ::
  "'d host \<Rightarrow> ('d, 'x) workflow_definition \<Rightarrow> string option \<Rightarrow> 'd workflow_state \<Rightarrow> bool" where
  "compatible h def expected s \<longleftrightarrow>
     resume_identity s = expected
     \<and> map_option limits (st_budget s) = run_limits h def (ctx_data (st_context s))"

datatype take_over = Taken | Refused | Incompatible

definition resume_closure ::
  "'d host \<Rightarrow> ('d, 'x) engine \<Rightarrow> ('d, 'x) workflow_definition \<Rightarrow> string option \<Rightarrow> time
     \<Rightarrow> 'd workflow_state \<Rightarrow> 'd workflow_state \<times> take_over" where
  "resume_closure h e def expected now s =
     (if held_by_live_executor h e now s \<or> status s \<in> {WCompleted, WFailed, WCancelled} then (s, Refused)
      else if \<not> compatible h def expected s then (s, Incompatible)
      else (s\<lparr>status := WRunning, lease := Some (new_lease e now)\<rparr>, Taken))"

text \<open>
  \<open>try_resume\<close>. When it takes the run over, the driver is spawned: the run stays in \<open>driving\<close> and
  counts as active until that driver ends.
\<close>

definition try_resume ::
  "'d host \<Rightarrow> 'd workflow_state \<Rightarrow> ('d, 'x) workflow_definition \<Rightarrow> time \<Rightarrow> (('d, 'x) world, bool) act" where
  "try_resume h s def now w =
     (let i = st_run_id s; expected = run_identity h def (ctx_data (st_context s)) in
      if held_by_live_executor h (eng w) now s then (w, Inr False)
      else if \<not> compatible h def expected s then (w, Inl (ResumeIdentityMismatch i))
      else (case claim_driving i (eng w) of
              None \<Rightarrow> (w, Inr False)
            | Some e \<Rightarrow>
                (case w_update i (resume_closure h e def expected now) now (w\<lparr>eng := e\<rparr>) of
                   (w', Inl er) \<Rightarrow> (w'\<lparr>eng := drop_driving i (eng w')\<rparr>, Inl er)
                 | (w', Inr Incompatible) \<Rightarrow>
                     (w'\<lparr>eng := drop_driving i (eng w')\<rparr>, Inl (ResumeIdentityMismatch i))
                 | (w', Inr Refused) \<Rightarrow> (w'\<lparr>eng := drop_driving i (eng w')\<rparr>, Inr False)
                 | (w', Inr Taken) \<Rightarrow>
                     (w'\<lparr>eng := (eng w')\<lparr>active_workflows := active_workflows (eng w') + 1\<rparr>\<rparr>, Inr True))))"

definition resume_run :: "'d host \<Rightarrow> run_id \<Rightarrow> time \<Rightarrow> (('d, 'x) world, bool) act" where
  "resume_run h i now w =
     (case load (world_store w) i of
        Inl e \<Rightarrow> (w, Inl e)
      | Inr s \<Rightarrow>
          if status s \<in> {WCompleted, WFailed, WCancelled} then (w, Inr False)
          else (case definitions (eng w) (st_workflow_id s) of
                  None \<Rightarrow> (w, Inl (DefinitionNotFound (st_workflow_id s)))
                | Some def \<Rightarrow> try_resume h s def now w))"

text \<open>The sweep over the runs that were active when it began; an error skips one run.\<close>

fun recover_loop ::
  "'d host \<Rightarrow> ('d workflow_state \<Rightarrow> bool) \<Rightarrow> time \<Rightarrow> 'd workflow_state list \<Rightarrow> ('d, 'x) world
     \<Rightarrow> ('d, 'x) world \<times> run_id list" where
  "recover_loop h flt now [] w = (w, [])"
| "recover_loop h flt now (s # ss) w =
     (case definitions (eng w) (st_workflow_id s) of
        None \<Rightarrow> recover_loop h flt now ss w
      | Some def \<Rightarrow>
          if \<not> flt s then recover_loop h flt now ss w
          else (case try_resume h s def now w of
                  (w', Inr True) \<Rightarrow>
                    (case recover_loop h flt now ss w' of (w'', is) \<Rightarrow> (w'', st_run_id s # is))
                | (w', _) \<Rightarrow> recover_loop h flt now ss w'))"

definition recover_with ::
  "'d host \<Rightarrow> ('d workflow_state \<Rightarrow> bool) \<Rightarrow> time \<Rightarrow> ('d, 'x) world \<Rightarrow> ('d, 'x) world \<times> run_id list" where
  "recover_with h flt now w = recover_loop h flt now (list_active (world_store w)) w"

section \<open>Pause, resume, cancel\<close>

definition pause_closure :: "'d workflow_state \<Rightarrow> 'd workflow_state \<times> bool" where
  "pause_closure s =
     (if status s \<in> {WPending, WRunning, WWaiting} then (s\<lparr>status := WPaused\<rparr>, True) else (s, False))"

definition pause_workflow :: "run_id \<Rightarrow> time \<Rightarrow> (('d, 'x) world, bool) act" where
  "pause_workflow i now = w_update i pause_closure now"

definition resume_workflow :: "'d host \<Rightarrow> run_id \<Rightarrow> time \<Rightarrow> (('d, 'x) world, bool) act" where
  "resume_workflow h i now w =
     (case load (world_store w) i of
        Inl e \<Rightarrow> (w, Inl e)
      | Inr s \<Rightarrow>
          if status s \<noteq> WPaused then (w, Inr False)
          else if i \<in> driving (eng w) \<or> is_leased_elsewhere (eng w) now s
          then (w, Inl (InvalidStateTransition WPaused WRunning))
          else resume_run h i now w)"

definition mark_step_paused :: "run_id \<Rightarrow> step_id \<Rightarrow> time \<Rightarrow> (('d, 'x) world, unit) act" where
  "mark_step_paused i sid now =
     w_write i (modify_step sid (\<lambda>ss. ss\<lparr>ss_status := SPending, ss_completed_at := None\<rparr>)) now"

definition cancel_closure :: "string option \<Rightarrow> 'd workflow_state \<Rightarrow> 'd workflow_state \<times> bool" where
  "cancel_closure reason s =
     (if is_terminal (status s) then (s, False)
      else (s\<lparr>status := WCancelled, st_error := (case reason of None \<Rightarrow> st_error s | Some r \<Rightarrow> Some r)\<rparr>, True))"

text \<open>
  \<open>cancel_workflow_impl\<close>; the rollback phase (theory \<open>Wf_Rollback\<close>) is an argument.
\<close>

definition cancel_workflow_impl ::
  "(('d, 'x) workflow_definition \<Rightarrow> (('d, 'x) world, unit) act) \<Rightarrow> run_id \<Rightarrow> bool \<Rightarrow> string option \<Rightarrow> time
     \<Rightarrow> (('d, 'x) world, unit) act" where
  "cancel_workflow_impl rollback_phase i do_rollback reason now =
     andThen
       (if do_rollback
        then andThen (w_load i) (\<lambda>s w.
               case definitions (eng w) (st_workflow_id s) of
                 None \<Rightarrow> (w, Inr ())
               | Some def \<Rightarrow>
                   if list_ex (\<lambda>sd. rollback sd \<noteq> None) (steps def) then rollback_phase def w else (w, Inr ()))
        else ret ())
       (\<lambda>_. andThen (w_update i (cancel_closure reason) now)
         (\<lambda>cancelled.
            if cancelled
            then andThen (publish (EvWorkflowCancelled i)) (\<lambda>_. notify_terminal i WCancelled None)
            else ret ()))"

section \<open>Starting, evicting and settling runs\<close>

definition initial_step_states :: "('d, 'x) step_definition list \<Rightarrow> (step_id \<rightharpoonup> step_state)" where
  "initial_step_states ss = foldl (\<lambda>m s. m(sd_id s \<mapsto> default_step_state)) Map.empty ss"

definition max_retained_runs :: nat where
  "max_retained_runs = 200"

definition evictable :: "'d mem_store \<Rightarrow> (run_id \<times> time) list" where
  "evictable m =
     sort_key snd (map (\<lambda>s. (st_run_id s, created_at s))
       (filter (\<lambda>s. status s \<in> {WCompleted, WFailed}) (list_all_runs m)))"

definition evict_old_runs :: "'d mem_store \<Rightarrow> 'd mem_store" where
  "evict_old_runs m =
     (let n = length (list_all_runs m) in
      if n \<le> max_retained_runs then m
      else foldl (\<lambda>m (i, _). delete_run i m) m (take (n - max_retained_runs) (evictable m)))"

text \<open>The state of a run before it is saved for the first time.\<close>

definition prepare_run ::
  "'d host \<Rightarrow> ('d, 'x) engine \<Rightarrow> run_id \<Rightarrow> workflow_id \<Rightarrow> ('d, 'x) workflow_definition \<Rightarrow> 'd \<Rightarrow> string \<Rightarrow> json
     \<Rightarrow> time \<Rightarrow> 'd workflow_state wf_result" where
  "prepare_run h e i wid def d inp params now =
     (case (case run_limits h def d of
              None \<Rightarrow> Inr None
            | Some l \<Rightarrow> (case new_budget (ts_ok h) l now of Inl er \<Rightarrow> Inl er | Inr b \<Rightarrow> Inr (Some b))) of
        Inl er \<Rightarrow> Inl er
      | Inr b \<Rightarrow>
          (let s0 = new_state i wid d now
           in Inr (s0\<lparr>resume_identity := run_identity h def d, st_budget := b, status := WRunning,
                lease := Some (new_lease e now), st_input := inp,
                st_context := (st_context s0)\<lparr>ctx_params := params\<rparr>,
                step_states := initial_step_states (steps def)\<rparr>)))"

text \<open>
  \<open>start_workflow_with_params\<close>; the fresh run id is an argument. The guard that counts the run
  as active is undone on every early return.
\<close>

definition start_workflow ::
  "'d host \<Rightarrow> run_id \<Rightarrow> workflow_id \<Rightarrow> 'd \<Rightarrow> string \<Rightarrow> json \<Rightarrow> time \<Rightarrow> (('d, 'x) world, run_id) act" where
  "start_workflow h i wid d inp params now w =
     (if shutting_down (eng w) then (w, Inl ShuttingDown)
      else (case definitions (eng w) wid of
        None \<Rightarrow> (w, Inl (DefinitionNotFound wid))
      | Some def \<Rightarrow>
          (case prepare_run h (eng w) i wid def d inp params now of
             Inl e \<Rightarrow> (w, Inl e)
           | Inr s \<Rightarrow>
               (case claim_driving i (eng w) of
                  None \<Rightarrow> (w, Inl (InvalidStateTransition WRunning WRunning))
                | Some e \<Rightarrow>
                    let m1 = save s (world_store w);
                        m2 = fst (append_journal i (JInput (input_json h inp params)) m1);
                        m3 = evict_old_runs m2;
                        w1 = w\<lparr>eng := e\<lparr>active_workflows := active_workflows e + 1\<rparr>, world_store := m3\<rparr>
                    in (fst (publish (EvWorkflowStarted i wid) w1), Inr i)))))"

definition fail_closure ::
  "('d, 'x) engine \<Rightarrow> string \<Rightarrow> time \<Rightarrow> 'd workflow_state \<Rightarrow> 'd workflow_state \<times> bool" where
  "fail_closure e msg now s =
     (if \<not> is_leased_elsewhere e now s \<and> \<not> is_terminal (status s)
      then (s\<lparr>status := WFailed,
              st_error := Some (case st_error s of Some note \<Rightarrow> msg @ ''; '' @ note | None \<Rightarrow> msg)\<rparr>, True)
      else (s, False))"

definition finish_workflow_failed ::
  "(('d, 'x) workflow_definition \<Rightarrow> step_id option \<Rightarrow> (('d, 'x) world, unit) act)
     \<Rightarrow> run_id \<Rightarrow> ('d, 'x) workflow_definition \<Rightarrow> step_id option \<Rightarrow> string \<Rightarrow> time
     \<Rightarrow> (('d, 'x) world, unit) act" where
  "finish_workflow_failed rollback_phase i def failed_step msg now w =
     (if is_superseded (eng w) i then (w, Inr ())
      else andThen
        (if list_ex (\<lambda>sd. rollback sd \<noteq> None) (steps def) then rollback_phase def failed_step else ret ())
        (\<lambda>_ w1. andThen (w_update i (fail_closure (eng w1) msg now) now)
          (\<lambda>settled.
             if settled
             then andThen (publish (EvWorkflowFailed i
                    (case failed_step of None \<Rightarrow> ''internal_scheduler'' | Some sid \<Rightarrow> sid) msg))
                  (\<lambda>_. notify_terminal i WFailed (Some msg))
             else ret ()) w1) w)"

definition complete_closure ::
  "('d, 'x) engine \<Rightarrow> time \<Rightarrow> 'd workflow_state \<Rightarrow> 'd workflow_state \<times> bool" where
  "complete_closure e now s =
     (if \<not> is_leased_elsewhere e now s \<and> \<not> is_terminal (status s)
      then (s\<lparr>status := WCompleted\<rparr>, True) else (s, False))"

definition finish_workflow_completed :: "run_id \<Rightarrow> duration \<Rightarrow> time \<Rightarrow> (('d, 'x) world, unit) act" where
  "finish_workflow_completed i elapsed now w =
     (if is_superseded (eng w) i then (w, Inr ())
      else andThen (w_load i) (\<lambda>s.
        andThen (w_append i (JOutput (ESuccess (case st_output s of None \<Rightarrow> [] | Some out \<Rightarrow> out)))) (\<lambda>_ w1.
          andThen (w_update i (complete_closure (eng w1) now) now) (\<lambda>settled.
            if settled
            then andThen (publish (EvWorkflowCompleted i elapsed)) (\<lambda>_. notify_terminal i WCompleted None)
            else ret ()) w1)) w)"

text \<open>The end of a driving task: the lease is released and the guards are dropped.\<close>

definition driver_ends :: "run_id \<Rightarrow> time \<Rightarrow> ('d, 'x) world \<Rightarrow> ('d, 'x) world" where
  "driver_ends i now w =
     (let w1 = fst (release_lease i now w)
      in w1\<lparr>eng := (drop_driving i (eng w1))\<lparr>active_workflows := active_workflows (eng w1) - 1\<rparr>\<rparr>)"

end
