(* ===== verification/Wf_Scheduler.thy ===== *)
theory Wf_Scheduler
  imports Wf_Engine
begin

text \<open>
  The scheduler of one run: \<open>StepTracker\<close> and the driver loop of \<open>execute_workflow\<close>
  (\<^verbatim>\<open>crates/flare-workflow/src/engine.rs\<close>). The driver and the spawned step tasks interleave at
  the points where they take the tracker's lock or use the completion channel; each stretch of
  driver code between two such points is one step of the relation \<open>sched_step\<close>. What a task
  does besides is modelled in the theories \<open>Wf_Exec\<close>, \<open>Wf_Loop\<close> and \<open>Wf_Waits\<close>; here it
  may finish at any time with any result.
\<close>

section \<open>The step tracker\<close>

record tracker =
  completed :: "step_id set"
  failed :: "step_id set"
  skipped :: "step_id set"
  running :: "step_id set"
  waiting_until :: "(nat \<times> time) list"

definition new_tracker :: tracker where
  "new_tracker = \<lparr>completed = {}, failed = {}, skipped = {}, running = {}, waiting_until = []\<rparr>"

definition total_processed :: "tracker \<Rightarrow> nat" where
  "total_processed t = card (completed t) + card (failed t) + card (skipped t)"

definition is_step_processable :: "tracker \<Rightarrow> step_id \<Rightarrow> nat \<Rightarrow> bool" where
  "is_step_processable t i idx \<longleftrightarrow>
     i \<notin> completed t \<and> i \<notin> failed t \<and> i \<notin> skipped t \<and> i \<notin> running t
     \<and> idx \<notin> fst ` set (waiting_until t)"

definition get_ready_waiting_indices :: "time \<Rightarrow> tracker \<Rightarrow> nat list" where
  "get_ready_waiting_indices now t = map fst (filter (\<lambda>(_, ready_at). ready_at \<le> now) (waiting_until t))"

definition set_waiting :: "nat \<Rightarrow> time \<Rightarrow> tracker \<Rightarrow> tracker" where
  "set_waiting idx ready_at t = t\<lparr>waiting_until := AList.update idx ready_at (waiting_until t)\<rparr>"

definition clear_waiting :: "nat \<Rightarrow> tracker \<Rightarrow> tracker" where
  "clear_waiting idx t = t\<lparr>waiting_until := AList.delete idx (waiting_until t)\<rparr>"

definition are_dependencies_satisfied :: "tracker \<Rightarrow> step_id list \<Rightarrow> bool" where
  "are_dependencies_satisfied t ds = list_all (\<lambda>d. d \<in> completed t \<or> d \<in> skipped t) ds"

definition is_any_dependency_satisfied :: "tracker \<Rightarrow> step_id list \<Rightarrow> bool" where
  "is_any_dependency_satisfied t ds \<longleftrightarrow> ds = [] \<or> list_ex (\<lambda>d. d \<in> completed t \<or> d \<in> skipped t) ds"

definition has_failed_dependency :: "tracker \<Rightarrow> step_id list \<Rightarrow> bool" where
  "has_failed_dependency t ds = list_ex (\<lambda>d. d \<in> failed t) ds"

definition have_all_any_deps_failed :: "tracker \<Rightarrow> step_id list \<Rightarrow> bool" where
  "have_all_any_deps_failed t ds \<longleftrightarrow> ds \<noteq> [] \<and> list_all (\<lambda>d. d \<in> failed t) ds"

definition calculate_wait_duration :: "time \<Rightarrow> ('d, 'x) step_definition \<Rightarrow> duration option" where
  "calculate_wait_duration now s =
     (let schedule_wait = (case scheduled_at s of
            None \<Rightarrow> None
          | Some t \<Rightarrow> if now < t then Some (nat (t - now)) else None)
      in case (delay s, schedule_wait) of
           (Some d, Some w) \<Rightarrow> Some (d + w)
         | (Some d, None) \<Rightarrow> Some d
         | (None, Some w) \<Rightarrow> Some w
         | (None, None) \<Rightarrow> None)"

section \<open>Recovery: steps the journal already settles\<close>

definition concerns :: "step_id \<Rightarrow> journal_entry \<Rightarrow> bool" where
  "concerns i e = (case e of JStepRun j _ _ \<Rightarrow> j = i | JSleep j _ _ \<Rightarrow> j = i | _ \<Rightarrow> False)"

definition memoize_step ::
  "journal_entry list \<Rightarrow> ('d, 'x) step_definition \<Rightarrow> tracker \<Rightarrow> tracker \<times> bool" where
  "memoize_step es s t =
     (case mode s of
        WaitEvent name _ \<Rightarrow>
          (t, list_ex (\<lambda>e. case e of JWaitEvent n (Some _) \<Rightarrow> n = name | _ \<Rightarrow> False) es)
      | _ \<Rightarrow>
          (case find (concerns (sd_id s)) (rev es) of
             Some (JStepRun _ _ (Some (ESuccess _))) \<Rightarrow> (t\<lparr>completed := insert (sd_id s) (completed t)\<rparr>, True)
           | Some (JSleep _ _ (Some _)) \<Rightarrow> (t\<lparr>completed := insert (sd_id s) (completed t)\<rparr>, True)
           | Some (JStepRun _ _ (Some (EFailure _ _ _))) \<Rightarrow> (t\<lparr>failed := insert (sd_id s) (failed t)\<rparr>, True)
           | _ \<Rightarrow> (t, False)))"

fun memoize ::
  "('d, 'x) workflow_definition \<Rightarrow> journal_entry list \<Rightarrow> ('d, 'x) step_definition list
     \<Rightarrow> tracker \<times> nat list \<Rightarrow> tracker \<times> nat list" where
  "memoize def es [] (t, pend) = (t, pend)"
| "memoize def es (s # ss) (t, pend) =
     (case memoize_step es s t of (t', memoized) \<Rightarrow>
        memoize def es ss (t', if memoized then pend @ get_dependent_indices def (sd_id s) else pend))"

section \<open>The driver loop\<close>

text \<open>What one round has read under the tracker's read lock (Phase 1).\<close>

record round =
  r_wait_ready :: "nat list"
  r_ready :: "nat list"
  r_blocked :: "nat list"
  r_total :: nat
  r_running :: nat
  r_waiting :: nat

datatype sched_end =
    Stopped
  | AllProcessed "step_id set"
  | NoProgress "step_id set"

text \<open>Where the driver is, with the locals that are live there.\<close>

datatype ctrl =
    AtTop
  | AtClassify
  | AtBlocked round
  | AtSelect round
  | AtCheck round "nat list" nat
  | AtLaunch "nat list"
  | AtSpawn "nat list"
  | AtAwait
  | AtRecv
  | Ended sched_end

record sched =
  trk :: tracker
  pending :: "nat list"
  chan :: "(step_id \<times> step_result) list"
  active :: "nat list"
  launched :: "nat list"
  ctrl_at :: ctrl

definition dependents_of_all :: "('d, 'x) workflow_definition \<Rightarrow> (step_id \<times> step_result) list \<Rightarrow> nat list" where
  "dependents_of_all def ms = concat (map (\<lambda>(i, _). get_dependent_indices def i) ms)"

fun classify ::
  "('d, 'x) workflow_definition \<Rightarrow> tracker \<Rightarrow> nat list \<Rightarrow> nat list \<times> nat list" where
  "classify def t [] = ([], [])"
| "classify def t (idx # is) =
     (let s = steps def ! idx; (ready, blocked) = classify def t is in
      if \<not> is_step_processable t (sd_id s) idx then (ready, blocked)
      else if has_failed_dependency t (depends_on s) \<or> have_all_any_deps_failed t (depends_on_any s)
      then (ready, idx # blocked)
      else if are_dependencies_satisfied t (depends_on s) \<and> is_any_dependency_satisfied t (depends_on_any s)
      then (idx # ready, blocked)
      else (ready, blocked))"

fun dedup :: "nat list \<Rightarrow> nat list \<Rightarrow> nat list" where
  "dedup acc [] = acc"
| "dedup acc (i # is) = dedup (if i \<in> set acc then acc else acc @ [i]) is"

text \<open>The second loop of Phase 2: delayed steps are put to wait, the others are launched once.\<close>

fun select_ready ::
  "('d, 'x) workflow_definition \<Rightarrow> time \<Rightarrow> time \<Rightarrow> nat list \<Rightarrow> tracker \<times> nat list \<times> nat
     \<Rightarrow> tracker \<times> nat list \<times> nat" where
  "select_ready def now wall [] r = r"
| "select_ready def now wall (idx # is) (t, ready, added) =
     (case calculate_wait_duration wall (steps def ! idx) of
        Some d \<Rightarrow>
          if 0 < d then select_ready def now wall is (set_waiting idx (now + int d) t, ready, added + 1)
          else select_ready def now wall is (t, if idx \<in> set ready then ready else ready @ [idx], added)
      | None \<Rightarrow> select_ready def now wall is (t, if idx \<in> set ready then ready else ready @ [idx], added))"

text \<open>
  One driver step. \<open>now\<close> is the monotonic clock, \<open>wall\<close> the wall clock. At \<open>AtRecv\<close> the driver
  is blocked until the channel holds a message.
\<close>

definition driver_step ::
  "('d, 'x) workflow_definition \<Rightarrow> time \<Rightarrow> time \<Rightarrow> sched \<Rightarrow> sched option" where
  "driver_step def now wall s =
     (case ctrl_at s of
        AtTop \<Rightarrow>
          Some (s\<lparr>pending := pending s @ dependents_of_all def (chan s), chan := [], ctrl_at := AtClassify\<rparr>)
      | AtClassify \<Rightarrow>
          (case classify def (trk s) (pending s) of (ready, blocked) \<Rightarrow>
             Some (s\<lparr>pending := [], ctrl_at := AtBlocked
               \<lparr>r_wait_ready = get_ready_waiting_indices now (trk s), r_ready = ready, r_blocked = blocked,
                r_total = total_processed (trk s), r_running = card (running (trk s)),
                r_waiting = length (waiting_until (trk s))\<rparr>\<rparr>))
      | AtBlocked r \<Rightarrow>
          Some (s\<lparr>trk := (trk s)\<lparr>skipped :=
                    skipped (trk s) \<union> (\<lambda>idx. sd_id (steps def ! idx)) ` set (r_blocked r)\<rparr>,
                  pending := pending s
                    @ concat (map (\<lambda>idx. get_dependent_indices def (sd_id (steps def ! idx))) (r_blocked r)),
                  ctrl_at := AtSelect r\<rparr>)
      | AtSelect r \<Rightarrow>
          (let t = fold clear_waiting (r_wait_ready r) (trk s) in
           case select_ready def now wall (r_ready r) (t, dedup [] (r_wait_ready r), 0) of
             (t', ready, added) \<Rightarrow> Some (s\<lparr>trk := t', ctrl_at := AtCheck r ready added\<rparr>))
      | AtCheck r ready added \<Rightarrow>
          (if r_total r = length (steps def) then Some (s\<lparr>ctrl_at := Ended (AllProcessed (failed (trk s)))\<rparr>)
           else if ready = [] \<and> r_running r = 0 \<and> r_waiting r + added = 0 \<and> pending s = []
           then (if chan s \<noteq> []
                 then Some (s\<lparr>pending := dependents_of_all def (chan s), chan := [], ctrl_at := AtTop\<rparr>)
                 else Some (s\<lparr>ctrl_at := Ended (NoProgress (failed (trk s)))\<rparr>))
           else Some (s\<lparr>ctrl_at := AtLaunch ready\<rparr>))
      | AtLaunch ready \<Rightarrow>
          Some (s\<lparr>trk := (trk s)\<lparr>running :=
                    running (trk s) \<union> (\<lambda>idx. sd_id (steps def ! idx)) ` set ready\<rparr>,
                  launched := launched s @ ready, ctrl_at := AtSpawn ready\<rparr>)
      | AtSpawn [] \<Rightarrow> Some (s\<lparr>ctrl_at := AtAwait\<rparr>)
      | AtSpawn (idx # is) \<Rightarrow> Some (s\<lparr>active := active s @ [idx], ctrl_at := AtSpawn is\<rparr>)
      | AtAwait \<Rightarrow> Some (s\<lparr>ctrl_at := (if running (trk s) = {} then AtTop else AtRecv)\<rparr>)
      | AtRecv \<Rightarrow>
          (case chan s of
             [] \<Rightarrow> None
           | (i, _) # ms \<Rightarrow>
               Some (s\<lparr>pending := pending s @ get_dependent_indices def i, chan := ms, ctrl_at := AtTop\<rparr>))
      | Ended _ \<Rightarrow> None)"

section \<open>The end of a step task\<close>

text \<open>
  A task ends early when \<open>run_if\<close> or the condition of a \<open>Conditional\<close> step says no, or when the
  context cannot be loaded; otherwise with the result of executing the step. In every case it
  updates the tracker and sends its completion under one write lock. The last component tells
  whether the step's state is then rewritten to \<open>Skipped\<close>.
\<close>

datatype task_outcome = TSkip | TContextError | TResult "step_result wf_result"

definition settle_task ::
  "('d, 'x) step_definition \<Rightarrow> task_outcome \<Rightarrow> tracker \<Rightarrow> tracker \<times> step_result \<times> bool" where
  "settle_task s out t =
     (let t' = t\<lparr>running := running t - {sd_id s}\<rparr> in
      case out of
        TSkip \<Rightarrow> (t'\<lparr>skipped := insert (sd_id s) (skipped t')\<rparr>, RSkip, True)
      | TContextError \<Rightarrow> (t'\<lparr>failed := insert (sd_id s) (failed t')\<rparr>, RFailure, False)
      | TResult (Inr RSuccess) \<Rightarrow> (t'\<lparr>completed := insert (sd_id s) (completed t')\<rparr>, RSuccess, False)
      | TResult (Inr RSkip) \<Rightarrow> (t'\<lparr>skipped := insert (sd_id s) (skipped t')\<rparr>, RSkip, False)
      | TResult (Inl (Paused _)) \<Rightarrow> (t', RFailure, False)
      | TResult _ \<Rightarrow>
          (case on_failure s of
             ContinueNextStep \<Rightarrow> (t'\<lparr>skipped := insert (sd_id s) (skipped t')\<rparr>, RSkip, True)
           | _ \<Rightarrow> (t'\<lparr>failed := insert (sd_id s) (failed t')\<rparr>, RFailure, False)))"

definition task_done :: "('d, 'x) workflow_definition \<Rightarrow> nat \<Rightarrow> task_outcome \<Rightarrow> sched \<Rightarrow> sched" where
  "task_done def idx out s =
     (case settle_task (steps def ! idx) out (trk s) of (t, sig, _) \<Rightarrow>
        s\<lparr>trk := t, chan := chan s @ [(sd_id (steps def ! idx), sig)], active := remove1 idx (active s)\<rparr>)"

definition init_sched :: "('d, 'x) workflow_definition \<Rightarrow> journal_entry list \<Rightarrow> sched" where
  "init_sched def es =
     (case memoize def es (steps def) (new_tracker, initial_step_indices def) of (t, pend) \<Rightarrow>
        \<lparr>trk = t, pending = pend, chan = [], active = [], launched = [], ctrl_at = AtTop\<rparr>)"

inductive sched_step ::
  "('d, 'x) workflow_definition \<Rightarrow> (task_outcome \<Rightarrow> bool) \<Rightarrow> sched \<Rightarrow> sched \<Rightarrow> bool"
  for def ok where
  drive: "driver_step def now wall s = Some s' \<Longrightarrow> sched_step def ok s s'"
| finish: "idx \<in> set (active s) \<Longrightarrow> ok out \<Longrightarrow> sched_step def ok s (task_done def idx out s)"
| stop: "ctrl_at s = AtTop \<Longrightarrow> sched_step def ok s (s\<lparr>ctrl_at := Ended Stopped\<rparr>)"

inductive sched_reach ::
  "('d, 'x) workflow_definition \<Rightarrow> journal_entry list \<Rightarrow> (task_outcome \<Rightarrow> bool) \<Rightarrow> sched \<Rightarrow> bool"
  for def es ok where
  init: "sched_reach def es ok (init_sched def es)"
| step: "sched_reach def es ok s \<Longrightarrow> sched_step def ok s s' \<Longrightarrow> sched_reach def es ok s'"

definition not_paused :: "task_outcome \<Rightarrow> bool" where
  "not_paused out = (case out of TResult (Inl (Paused _)) \<Rightarrow> False | _ \<Rightarrow> True)"

end
