(* ===== verification/Wf_Schedule_Inv.thy ===== *)
theory Wf_Schedule_Inv
  imports Wf_Scheduler
begin

text \<open>
  Invariants of the driver loop, for every interleaving of the driver with the step tasks: a
  step's dependencies are met when it is launched, a step is launched at most once, the
  completion channel never overflows, and the driver neither blocks for ever on the channel nor
  gives up while a step could still run.
\<close>

section \<open>Well-formed definitions\<close>

abbreviation sid :: "('d, 'x) workflow_definition \<Rightarrow> nat \<Rightarrow> step_id" where
  "sid def i \<equiv> sd_id (steps def ! i)"

definition schedulable :: "('d, 'x) workflow_definition \<Rightarrow> bool" where
  "schedulable def \<longleftrightarrow> distinct (map sd_id (steps def)) \<and> (\<exists>d0. validate d0 = Some (Inr def))"

lemma schedulable_inj:
  "schedulable def \<Longrightarrow> i < length (steps def) \<Longrightarrow> j < length (steps def) \<Longrightarrow> sid def i = sid def j \<longleftrightarrow> i = j"
  by (auto simp: schedulable_def distinct_conv_nth)

lemma schedulable_tables:
  assumes "schedulable def"
  shows "get_dependent_indices def d = dep_list (build_reverse_deps (steps def)) d"
    "initial_step_indices def = build_initial (steps def)"
    "i < length (steps def) \<Longrightarrow> d \<in> set (all_dependencies (steps def ! i)) \<Longrightarrow> d \<in> sd_id ` set (steps def)"
    "acyclic (dep_rel (steps_map (steps def)))"
proof -
  obtain d0 where v: "validate d0 = Some (Inr def)" using assms by (auto simp: schedulable_def)
  then have steps: "steps def = steps d0" by (simp add: validate_steps)
  show "get_dependent_indices def d = dep_list (build_reverse_deps (steps def)) d"
    using get_dependent_indices_validated [OF v] steps by simp
  show "initial_step_indices def = build_initial (steps def)"
    using v by (auto simp: validate_Inr)
  show "acyclic (dep_rel (steps_map (steps def)))"
    using v steps find_cycle_acyclic [of "steps d0"] by (auto simp: validate_Inr)
  show "d \<in> sd_id ` set (steps def)"
    if "i < length (steps def)" "d \<in> set (all_dependencies (steps def ! i))"
    using v that steps by (auto simp: validate_Inr missing_dependency_None steps_map_None)
qed

lemma in_dependents:
  "schedulable def \<Longrightarrow> i \<in> set (get_dependent_indices def d) \<longleftrightarrow>
     i < length (steps def) \<and> d \<in> set (all_dependencies (steps def ! i))"
  by (simp add: schedulable_tables in_dep_list)

lemma in_dependents_of_all:
  "schedulable def \<Longrightarrow> i \<in> set (dependents_of_all def ms) \<longleftrightarrow>
     i < length (steps def) \<and> (\<exists>d\<in>fst ` set ms. d \<in> set (all_dependencies (steps def ! i)))"
  by (force simp: dependents_of_all_def in_dependents)

section \<open>The safety invariant\<close>

definition done_ids :: "tracker \<Rightarrow> step_id set" where
  "done_ids t = completed t \<union> failed t \<union> skipped t"

definition idle :: "('d, 'x) workflow_definition \<Rightarrow> tracker \<Rightarrow> nat \<Rightarrow> bool" where
  "idle def t i \<longleftrightarrow> i < length (steps def) \<and> sid def i \<notin> done_ids t \<and> sid def i \<notin> running t"

definition deps_ok :: "('d, 'x) workflow_definition \<Rightarrow> tracker \<Rightarrow> nat \<Rightarrow> bool" where
  "deps_ok def t i \<longleftrightarrow> are_dependencies_satisfied t (depends_on (steps def ! i))
     \<and> is_any_dependency_satisfied t (depends_on_any (steps def ! i))"

definition tracker_ok :: "('d, 'x) workflow_definition \<Rightarrow> tracker \<Rightarrow> bool" where
  "tracker_ok def t \<longleftrightarrow>
     done_ids t \<union> running t \<subseteq> sd_id ` set (steps def)
     \<and> completed t \<inter> failed t = {} \<and> completed t \<inter> skipped t = {} \<and> failed t \<inter> skipped t = {}
     \<and> done_ids t \<inter> running t = {}
     \<and> distinct (map fst (waiting_until t))
     \<and> (\<forall>i\<in>fst ` set (waiting_until t). idle def t i \<and> deps_ok def t i)"

fun spawning :: "ctrl \<Rightarrow> nat list" where
  "spawning (AtSpawn is) = is"
| "spawning _ = []"

definition tasks_ok :: "('d, 'x) workflow_definition \<Rightarrow> tracker \<Rightarrow> nat list \<Rightarrow> bool" where
  "tasks_ok def t ts \<longleftrightarrow>
     distinct ts \<and> (\<forall>i\<in>set ts. i < length (steps def)) \<and> running t = sid def ` set ts"

definition round_ok :: "('d, 'x) workflow_definition \<Rightarrow> tracker \<Rightarrow> round \<Rightarrow> bool" where
  "round_ok def t r \<longleftrightarrow>
     (\<forall>i\<in>set (r_ready r). idle def t i \<and> deps_ok def t i \<and> i \<notin> fst ` set (waiting_until t))
     \<and> set (r_wait_ready r) \<subseteq> fst ` set (waiting_until t)"

definition blocked_ok :: "('d, 'x) workflow_definition \<Rightarrow> tracker \<Rightarrow> round \<Rightarrow> bool" where
  "blocked_ok def t r \<longleftrightarrow>
     (\<forall>i\<in>set (r_blocked r). idle def t i \<and> i \<notin> fst ` set (waiting_until t) \<and> i \<notin> set (r_ready r)
        \<and> (\<exists>d\<in>set (all_dependencies (steps def ! i)). d \<in> failed t))"

definition chosen_ok :: "('d, 'x) workflow_definition \<Rightarrow> tracker \<Rightarrow> nat list \<Rightarrow> bool" where
  "chosen_ok def t ready \<longleftrightarrow> distinct ready
     \<and> (\<forall>i\<in>set ready. idle def t i \<and> deps_ok def t i \<and> i \<notin> fst ` set (waiting_until t))"

definition ctrl_ok :: "('d, 'x) workflow_definition \<Rightarrow> sched \<Rightarrow> bool" where
  "ctrl_ok def s =
     (case ctrl_at s of
        AtBlocked r \<Rightarrow> round_ok def (trk s) r \<and> blocked_ok def (trk s) r
      | AtSelect r \<Rightarrow> round_ok def (trk s) r
      | AtCheck r ready added \<Rightarrow> chosen_ok def (trk s) ready
      | AtLaunch ready \<Rightarrow> chosen_ok def (trk s) ready
      | _ \<Rightarrow> True)"

definition safe_inv :: "('d, 'x) workflow_definition \<Rightarrow> sched \<Rightarrow> bool" where
  "safe_inv def s \<longleftrightarrow> tracker_ok def (trk s) \<and> tasks_ok def (trk s) (active s @ spawning (ctrl_at s)) \<and> ctrl_ok def s
     \<and> (\<forall>i\<in>set (pending s). i < length (steps def))
     \<and> (\<forall>i\<in>set (launched s). i < length (steps def) \<and> deps_ok def (trk s) i)"

lemmas safe_defs = safe_inv_def tracker_ok_def tasks_ok_def ctrl_ok_def round_ok_def blocked_ok_def chosen_ok_def

lemma deps_ok_mono:
  "deps_ok def t i \<Longrightarrow> completed t \<subseteq> completed t' \<Longrightarrow> skipped t \<subseteq> skipped t' \<Longrightarrow> deps_ok def t' i"
  by (auto simp: deps_ok_def are_dependencies_satisfied_def is_any_dependency_satisfied_def list_all_iff list_ex_iff)

lemma deps_ok_waiting [simp]:
  "deps_ok def (t\<lparr>waiting_until := ws\<rparr>) i = deps_ok def t i"
  "deps_ok def (t\<lparr>running := R\<rparr>) i = deps_ok def t i"
  by (simp_all add: deps_ok_def are_dependencies_satisfied_def is_any_dependency_satisfied_def)

lemma idle_waiting [simp]: "idle def (t\<lparr>waiting_until := ws\<rparr>) i = idle def t i"
  by (simp add: idle_def done_ids_def)

lemma done_ids_waiting [simp]:
  "done_ids (t\<lparr>waiting_until := ws\<rparr>) = done_ids t" "done_ids (t\<lparr>running := R\<rparr>) = done_ids t"
  by (simp_all add: done_ids_def)

text \<open>Classification.\<close>

lemma classify_ready:
  "i \<in> set (fst (classify def t is)) \<longleftrightarrow>
     i \<in> set is \<and> is_step_processable t (sid def i) i
     \<and> \<not> (has_failed_dependency t (depends_on (steps def ! i))
          \<or> have_all_any_deps_failed t (depends_on_any (steps def ! i)))
     \<and> deps_ok def t i"
  by (induction "is") (auto simp: Let_def deps_ok_def split: prod.splits)

lemma classify_blocked:
  "i \<in> set (snd (classify def t is)) \<longleftrightarrow>
     i \<in> set is \<and> is_step_processable t (sid def i) i
     \<and> (has_failed_dependency t (depends_on (steps def ! i))
          \<or> have_all_any_deps_failed t (depends_on_any (steps def ! i)))"
  by (induction "is") (auto simp: Let_def split: prod.splits)

lemma processable_idle:
  "i < length (steps def) \<Longrightarrow> is_step_processable t (sid def i) i \<longleftrightarrow>
     idle def t i \<and> i \<notin> fst ` set (waiting_until t)"
  by (auto simp: is_step_processable_def idle_def done_ids_def)

lemma blocked_has_failed:
  "has_failed_dependency t (depends_on s) \<or> have_all_any_deps_failed t (depends_on_any s)
     \<Longrightarrow> \<exists>d\<in>set (all_dependencies s). d \<in> failed t"
  by (auto simp: has_failed_dependency_def have_all_any_deps_failed_def all_dependencies_def
      list_ex_iff list_all_iff neq_Nil_conv)

text \<open>Selection.\<close>

lemma set_dedup: "set (dedup acc is) = set acc \<union> set is"
  by (induction acc "is" rule: dedup.induct) auto

lemma distinct_dedup: "distinct acc \<Longrightarrow> distinct (dedup acc is)"
  by (induction acc "is" rule: dedup.induct) auto

definition delayed :: "('d, 'x) workflow_definition \<Rightarrow> time \<Rightarrow> nat \<Rightarrow> bool" where
  "delayed def wall i =
     (case calculate_wait_duration wall (steps def ! i) of None \<Rightarrow> False | Some d \<Rightarrow> 0 < d)"

lemma select_ready_Cons:
  "select_ready def now wall (i # is) (t, ready, added) =
     (if delayed def wall i
      then select_ready def now wall is
        (set_waiting i (now + int (the (calculate_wait_duration wall (steps def ! i)))) t, ready, added + 1)
      else select_ready def now wall is (t, if i \<in> set ready then ready else ready @ [i], added))"
  by (auto simp: delayed_def split: option.splits)

lemma select_ready_spec:
  assumes "select_ready def now wall is (t, ready, added) = (t', ready', added')"
  shows "t' = t\<lparr>waiting_until := waiting_until t'\<rparr>"
    "fst ` set (waiting_until t') = fst ` set (waiting_until t) \<union> {i\<in>set is. delayed def wall i}"
    "distinct (map fst (waiting_until t)) \<Longrightarrow> distinct (map fst (waiting_until t'))"
    "set ready' = set ready \<union> {i\<in>set is. \<not> delayed def wall i}"
    "distinct ready \<Longrightarrow> distinct ready'"
    "added' = added + length (filter (delayed def wall) is)"
proof -
  have "t' = t\<lparr>waiting_until := waiting_until t'\<rparr> \<and>
    fst ` set (waiting_until t') = fst ` set (waiting_until t) \<union> {i\<in>set is. delayed def wall i} \<and>
    (distinct (map fst (waiting_until t)) \<longrightarrow> distinct (map fst (waiting_until t'))) \<and>
    set ready' = set ready \<union> {i\<in>set is. \<not> delayed def wall i} \<and>
    (distinct ready \<longrightarrow> distinct ready') \<and> added' = added + length (filter (delayed def wall) is)"
    using assms
  proof (induction "is" arbitrary: t ready added)
    case (Cons i is')
    show ?case
    proof (cases "delayed def wall i")
      case True
      from Cons.prems have "select_ready def now wall is'
          (set_waiting i (now + int (the (calculate_wait_duration wall (steps def ! i)))) t, ready, added + 1)
          = (t', ready', added')"
        by (simp add: select_ready_Cons True del: select_ready.simps)
      from Cons.IH [OF this] True show ?thesis
        by (auto simp: set_waiting_def dom_update distinct_update image_iff)
    next
      case False
      from Cons.prems have "select_ready def now wall is' (t, if i \<in> set ready then ready else ready @ [i], added)
          = (t', ready', added')"
        by (simp add: select_ready_Cons False del: select_ready.simps)
      from Cons.IH [OF this] False show ?thesis by (auto split: if_splits)
    qed
  qed simp
  then show "t' = t\<lparr>waiting_until := waiting_until t'\<rparr>"
    "fst ` set (waiting_until t') = fst ` set (waiting_until t) \<union> {i\<in>set is. delayed def wall i}"
    "distinct (map fst (waiting_until t)) \<Longrightarrow> distinct (map fst (waiting_until t'))"
    "set ready' = set ready \<union> {i\<in>set is. \<not> delayed def wall i}"
    "distinct ready \<Longrightarrow> distinct ready'"
    "added' = added + length (filter (delayed def wall) is)"
    by blast+
qed

lemma clear_waiting_filter:
  "clear_waiting i t = t\<lparr>waiting_until := filter (\<lambda>(k, _). k \<noteq> i) (waiting_until t)\<rparr>"
proof -
  have "(\<lambda>(k :: nat, _ :: time). i \<noteq> k) = (\<lambda>(k, _). k \<noteq> i)" by auto
  then show ?thesis by (simp add: clear_waiting_def AList.delete_eq)
qed

lemma filter_not_in_Cons:
  "filter (\<lambda>(k, _). k \<notin> set xs) (filter (\<lambda>(k, _). k \<noteq> i) ws) = filter (\<lambda>(k, _). k \<noteq> i \<and> k \<notin> set xs) ws"
  by (auto intro: filter_cong)

lemma fold_clear_waiting:
  "fold clear_waiting xs t = t\<lparr>waiting_until := filter (\<lambda>(i, _). i \<notin> set xs) (waiting_until t)\<rparr>"
proof (induction xs arbitrary: t)
  case (Cons i xs)
  have "fold clear_waiting (i # xs) t = fold clear_waiting xs (clear_waiting i t)" by simp
  also have "\<dots> = (clear_waiting i t)\<lparr>waiting_until :=
      filter (\<lambda>(k, _). k \<notin> set xs) (waiting_until (clear_waiting i t))\<rparr>"
    by (rule Cons.IH)
  also have "\<dots> = t\<lparr>waiting_until := filter (\<lambda>(k, _). k \<notin> set (i # xs)) (waiting_until t)\<rparr>"
    by (simp add: clear_waiting_filter filter_not_in_Cons del: filter_filter)
  finally show ?case .
qed (simp add: case_prod_beta)

section \<open>Preservation\<close>

lemma idle_fewer: "idle def t i \<Longrightarrow> done_ids t' \<union> running t' = done_ids t \<union> running t \<Longrightarrow> idle def t' i"
  by (auto simp: idle_def)

lemma memoize_step_cases:
  assumes "memoize_step es s t = (t', b)"
  shows "t' = t \<or> b \<and> t' = t\<lparr>completed := insert (sd_id s) (completed t)\<rparr>
    \<or> b \<and> t' = t\<lparr>failed := insert (sd_id s) (failed t)\<rparr>"
proof (cases "\<exists>n w. mode s = WaitEvent n w")
  case True
  with assms show ?thesis by (auto simp: memoize_step_def)
next
  case False
  then have m: "memoize_step es s t =
      (case find (concerns (sd_id s)) (rev es) of
         Some (JStepRun _ _ (Some (ESuccess _))) \<Rightarrow> (t\<lparr>completed := insert (sd_id s) (completed t)\<rparr>, True)
       | Some (JSleep _ _ (Some _)) \<Rightarrow> (t\<lparr>completed := insert (sd_id s) (completed t)\<rparr>, True)
       | Some (JStepRun _ _ (Some (EFailure _ _ _))) \<Rightarrow> (t\<lparr>failed := insert (sd_id s) (failed t)\<rparr>, True)
       | _ \<Rightarrow> (t, False))"
    by (cases "mode s") (simp_all add: memoize_step_def)
  show ?thesis
    using assms unfolding m by (auto split: option.splits journal_entry.splits entry_result.splits)
qed

lemma safe_init:
  assumes "schedulable def"
  shows "safe_inv def (init_sched def es)"
proof -
  have "tracker_ok def t \<and> running t = {} \<and> waiting_until t = [] \<and> (\<forall>i\<in>set pend. i < length (steps def))"
    if "memoize def es ss (t0, pend0) = (t, pend)" "set ss \<subseteq> set (steps def)" "distinct (map sd_id ss)"
      "tracker_ok def t0" "running t0 = {}" "waiting_until t0 = []" "\<forall>i\<in>set pend0. i < length (steps def)"
      "\<forall>x\<in>set ss. sd_id x \<notin> done_ids t0" for ss t0 pend0 t pend
    using that
  proof (induction ss arbitrary: t0 pend0)
    case (Cons s ss)
    obtain t1 b where m: "memoize_step es s t0 = (t1, b)" by (cases "memoize_step es s t0")
    have t1: "t1 \<in> {t0, t0\<lparr>completed := insert (sd_id s) (completed t0)\<rparr>, t0\<lparr>failed := insert (sd_id s) (failed t0)\<rparr>}"
      using memoize_step_cases [OF m] by auto
    have new: "sd_id s \<notin> done_ids t0" "s \<in> set (steps def)" "\<forall>x\<in>set ss. sd_id x \<noteq> sd_id s"
      using Cons.prems by (auto simp: image_iff)
    have ok: "tracker_ok def t1 \<and> running t1 = {} \<and> waiting_until t1 = []"
      using t1 Cons.prems(4-6) new(1,2) by (auto simp: tracker_ok_def done_ids_def)
    have apart: "\<forall>x\<in>set ss. sd_id x \<notin> done_ids t1"
      using t1 Cons.prems(8) new(3) by (auto simp: done_ids_def)
    from Cons.prems(1) m have rest: "memoize def es ss
        (t1, if b then pend0 @ get_dependent_indices def (sd_id s) else pend0) = (t, pend)" by simp
    show ?case
      by (rule Cons.IH [OF rest]) (use Cons.prems(2-3,7) ok apart assms in \<open>auto simp: in_dependents split: if_splits\<close>)
  qed simp
  moreover obtain t pend where "memoize def es (steps def) (new_tracker, initial_step_indices def) = (t, pend)"
    by fastforce
  moreover have "\<forall>i\<in>set (initial_step_indices def). i < length (steps def)"
    using assms by (simp add: schedulable_tables in_build_initial)
  ultimately show ?thesis
    using assms
    by (auto simp: init_sched_def safe_inv_def tasks_ok_def ctrl_ok_def new_tracker_def tracker_ok_def
        done_ids_def schedulable_def)
qed

text \<open>The end of a task moves its step from \<open>running\<close> to at most one of the done_ids sets.\<close>

lemma settle_task_in:
  "fst (settle_task s out t) \<in>
     {t\<lparr>running := running t - {sd_id s}, completed := insert (sd_id s) (completed t)\<rparr>,
      t\<lparr>running := running t - {sd_id s}, failed := insert (sd_id s) (failed t)\<rparr>,
      t\<lparr>running := running t - {sd_id s}, skipped := insert (sd_id s) (skipped t)\<rparr>}
   \<or> \<not> not_paused out \<and> fst (settle_task s out t) = t\<lparr>running := running t - {sd_id s}\<rparr>"
proof (cases out)
  case (TResult r)
  show ?thesis
  proof (cases r)
    case (Inl e)
    with TResult show ?thesis
      by (cases e; cases "on_failure s") (simp_all add: settle_task_def not_paused_def Let_def)
  next
    case (Inr x)
    with TResult show ?thesis
      by (cases x; cases "on_failure s") (simp_all add: settle_task_def Let_def)
  qed
qed (simp_all add: settle_task_def Let_def)

lemma settle_task_cases:
  obtains (comp) "fst (settle_task s out t) = t\<lparr>running := running t - {sd_id s}, completed := insert (sd_id s) (completed t)\<rparr>"
    | (fail) "fst (settle_task s out t) = t\<lparr>running := running t - {sd_id s}, failed := insert (sd_id s) (failed t)\<rparr>"
    | (skip) "fst (settle_task s out t) = t\<lparr>running := running t - {sd_id s}, skipped := insert (sd_id s) (skipped t)\<rparr>"
    | (pause) "\<not> not_paused out" "fst (settle_task s out t) = t\<lparr>running := running t - {sd_id s}\<rparr>"
  using settle_task_in [of s out t] by blast

lemma settle_task_frame:
  "waiting_until (fst (settle_task s out t)) = waiting_until t"
  "running (fst (settle_task s out t)) = running t - {sd_id s}"
  "completed t \<subseteq> completed (fst (settle_task s out t))"
  "skipped t \<subseteq> skipped (fst (settle_task s out t))" "failed t \<subseteq> failed (fst (settle_task s out t))"
  "done_ids (fst (settle_task s out t)) \<subseteq> insert (sd_id s) (done_ids t)"
  "not_paused out \<Longrightarrow> done_ids (fst (settle_task s out t)) = insert (sd_id s) (done_ids t)"
  by (rule settle_task_cases [of s out t]; auto simp: done_ids_def)+

lemma task_done_sel [simp]:
  "trk (task_done def idx out s) = fst (settle_task (steps def ! idx) out (trk s))"
  "pending (task_done def idx out s) = pending s" "active (task_done def idx out s) = remove1 idx (active s)"
  "launched (task_done def idx out s) = launched s" "ctrl_at (task_done def idx out s) = ctrl_at s"
  "chan (task_done def idx out s) =
     chan s @ [(sid def idx, fst (snd (settle_task (steps def ! idx) out (trk s))))]"
  by (simp_all add: task_done_def split: prod.split)

lemma settle_deps_ok:
  "deps_ok def t i \<Longrightarrow> deps_ok def (fst (settle_task s out t)) i"
  by (erule deps_ok_mono) (rule settle_task_frame)+

lemma settle_idle:
  "idle def t i \<Longrightarrow> sd_id s \<in> running t \<Longrightarrow> idle def (fst (settle_task s out t)) i"
  using settle_task_frame(2,6) [of s out t] by (auto simp: idle_def)

lemma settle_tracker_ok:
  assumes "tracker_ok def t" "sd_id s \<in> running t"
  shows "tracker_ok def (fst (settle_task s out t))"
proof -
  have "\<forall>i\<in>fst ` set (waiting_until (fst (settle_task s out t))).
      idle def (fst (settle_task s out t)) i \<and> deps_ok def (fst (settle_task s out t)) i"
    using assms by (auto simp: settle_task_frame(1) tracker_ok_def intro: settle_idle settle_deps_ok)
  moreover have "done_ids (fst (settle_task s out t)) \<union> running (fst (settle_task s out t)) \<subseteq> sd_id ` set (steps def)
     \<and> completed (fst (settle_task s out t)) \<inter> failed (fst (settle_task s out t)) = {}
     \<and> completed (fst (settle_task s out t)) \<inter> skipped (fst (settle_task s out t)) = {}
     \<and> failed (fst (settle_task s out t)) \<inter> skipped (fst (settle_task s out t)) = {}
     \<and> done_ids (fst (settle_task s out t)) \<inter> running (fst (settle_task s out t)) = {}"
    by (rule settle_task_cases [of s out t]) (use assms in \<open>auto simp: tracker_ok_def done_ids_def\<close>)
  ultimately show ?thesis
    using assms(1) by (simp add: tracker_ok_def settle_task_frame(1))
qed

lemma ctrl_parts_keep:
  assumes "waiting_until t' = waiting_until t" "\<And>i. idle def t i \<Longrightarrow> idle def t' i"
    and "\<And>i. deps_ok def t i \<Longrightarrow> deps_ok def t' i" "failed t \<subseteq> failed t'"
  shows "round_ok def t r \<Longrightarrow> round_ok def t' r" "chosen_ok def t xs \<Longrightarrow> chosen_ok def t' xs"
    "blocked_ok def t r \<Longrightarrow> blocked_ok def t' r"
  unfolding round_ok_def chosen_ok_def blocked_ok_def assms(1) using assms(2,3)
    apply blast
  using assms(2,3) apply blast
  using assms(2) subsetD [OF assms(4)] by meson

lemma settle_keeps:
  assumes run: "sd_id s \<in> running t"
  shows "round_ok def t r \<Longrightarrow> round_ok def (fst (settle_task s out t)) r"
    "chosen_ok def t xs \<Longrightarrow> chosen_ok def (fst (settle_task s out t)) xs"
    "blocked_ok def t r \<Longrightarrow> blocked_ok def (fst (settle_task s out t)) r"
  using ctrl_parts_keep [OF settle_task_frame(1) settle_idle [OF _ run] settle_deps_ok settle_task_frame(5),
      where def = def]
  by blast+

lemma safe_finish:
  assumes sch: "schedulable def" and inv: "safe_inv def s" and idx: "idx \<in> set (active s)"
  shows "safe_inv def (task_done def idx out s)"
proof -
  let ?t = "trk s" and ?t' = "fst (settle_task (steps def ! idx) out (trk s))"
  have run: "sid def idx \<in> running ?t" and n: "idx < length (steps def)"
    using inv idx by (auto simp: safe_inv_def tasks_ok_def)
  let ?s' = "task_done def idx out s"
  have "tasks_ok def (trk ?s') (active ?s' @ spawning (ctrl_at ?s'))"
    using inv idx n schedulable_inj [OF sch]
    by (auto simp: safe_inv_def tasks_ok_def settle_task_frame set_remove1_eq)
  moreover have "ctrl_ok def (task_done def idx out s)"
    using inv settle_keeps [OF run, of def _ out] by (cases "ctrl_at s") (simp_all add: safe_inv_def ctrl_ok_def)
  ultimately show ?thesis
    using inv settle_tracker_ok [OF _ run, of def out] settle_deps_ok [of def ?t _ "steps def ! idx" out]
    by (auto simp: safe_inv_def)
qed

text \<open>The driver's steps.\<close>

lemma safe_top:
  assumes "schedulable def" "safe_inv def s" "ctrl_at s = AtTop"
    and "driver_step def now wall s = Some s'"
  shows "safe_inv def s'"
  using assms by (auto simp: driver_step_def safe_inv_def ctrl_ok_def in_dependents_of_all)

lemma set_filter_map_sub: "set (map fst (filter P ws)) \<subseteq> fst ` set ws"
  by auto

lemma classify_ok:
  assumes "schedulable def" "tracker_ok def t" "\<forall>i\<in>set is. i < length (steps def)"
    and "classify def t is = (ready, blocked)" "r_ready r = ready" "r_blocked r = blocked"
    and "r_wait_ready r = get_ready_waiting_indices now t"
  shows "round_ok def t r" "blocked_ok def t r"
proof -
  have ready: "i \<in> set ready \<longleftrightarrow> i \<in> set is \<and> is_step_processable t (sid def i) i
     \<and> \<not> (has_failed_dependency t (depends_on (steps def ! i))
          \<or> have_all_any_deps_failed t (depends_on_any (steps def ! i))) \<and> deps_ok def t i" for i
    using classify_ready [of i def t "is"] assms(4) by simp
  have blocked: "i \<in> set blocked \<longleftrightarrow> i \<in> set is \<and> is_step_processable t (sid def i) i
     \<and> (has_failed_dependency t (depends_on (steps def ! i))
          \<or> have_all_any_deps_failed t (depends_on_any (steps def ! i)))" for i
    using classify_blocked [of i def t "is"] assms(4) by simp
  show "round_ok def t r"
    unfolding round_ok_def assms(5,7) get_ready_waiting_indices_def
    using assms(3) ready processable_idle by (metis (mono_tags) set_filter_map_sub)
  show "blocked_ok def t r"
    unfolding blocked_ok_def assms(5,6)
    using assms(3) blocked ready blocked_has_failed processable_idle by metis
qed

lemma safe_classify:
  assumes "schedulable def" "safe_inv def s" "ctrl_at s = AtClassify"
    and "driver_step def now wall s = Some s'"
  shows "safe_inv def s'"
proof -
  obtain ready blocked where c: "classify def (trk s) (pending s) = (ready, blocked)" by fastforce
  have "tracker_ok def (trk s)" "\<forall>i\<in>set (pending s). i < length (steps def)"
    using assms(2) by (auto simp: safe_inv_def)
  from classify_ok [OF assms(1) this c] show ?thesis
    using assms(2-4) c by (auto simp: driver_step_def safe_inv_def ctrl_ok_def)
qed

lemma safe_blocked:
  assumes sch: "schedulable def" and inv: "safe_inv def s" and at: "ctrl_at s = AtBlocked r"
    and step: "driver_step def now wall s = Some s'"
  shows "safe_inv def s'"
proof -
  let ?B = "sid def ` set (r_blocked r)"
  have r: "round_ok def (trk s) r" "blocked_ok def (trk s) r" and t: "tracker_ok def (trk s)"
    using inv at by (auto simp: safe_inv_def ctrl_ok_def)
  have s': "trk s' = (trk s)\<lparr>skipped := skipped (trk s) \<union> ?B\<rparr>" "ctrl_at s' = AtSelect r"
    "active s' = active s" "launched s' = launched s" "pending s' = pending s
      @ concat (map (\<lambda>idx. get_dependent_indices def (sid def idx)) (r_blocked r))"
    using step at by (auto simp: driver_step_def)
  have idle: "idle def (trk s') i" if "idle def (trk s) i" "i \<notin> set (r_blocked r)" for i
    using that r(2) schedulable_inj [OF sch] by (auto simp: idle_def done_ids_def s' blocked_ok_def)
  have deps: "deps_ok def (trk s') i" if "deps_ok def (trk s) i" for i
    using that by (rule deps_ok_mono) (auto simp: s')
  have wait: "i \<notin> set (r_blocked r)" if "i \<in> fst ` set (waiting_until (trk s)) \<or> i \<in> set (r_ready r)" for i
    using that r(2) by (auto simp: blocked_ok_def)
  have B: "?B \<subseteq> sd_id ` set (steps def)" "?B \<inter> done_ids (trk s) = {}" "?B \<inter> running (trk s) = {}"
    using r(2) by (auto simp: blocked_ok_def idle_def)
  have "\<forall>i\<in>fst ` set (waiting_until (trk s)). idle def (trk s') i \<and> deps_ok def (trk s') i"
    using t wait idle deps by (simp add: tracker_ok_def)
  then have "tracker_ok def (trk s')"
    using t B by (auto simp: tracker_ok_def s' done_ids_def)
  moreover have "round_ok def (trk s') r"
    using r(1) wait idle deps by (simp add: round_ok_def s')
  ultimately show ?thesis
    using inv deps sch by (auto simp: safe_inv_def tasks_ok_def ctrl_ok_def s' at in_dependents)
qed


lemma select_outcome:
  assumes "round_ok def t r" "tracker_ok def t"
    and "select_ready def now wall (r_ready r)
      (fold clear_waiting (r_wait_ready r) t, dedup [] (r_wait_ready r), 0) = (t', ready, added)"
  shows "tracker_ok def t'" "chosen_ok def t' ready" "t' = t\<lparr>waiting_until := waiting_until t'\<rparr>"
    "set (r_ready r) \<union> fst ` set (waiting_until t) \<subseteq> set ready \<union> fst ` set (waiting_until t')"
    "fst ` set (waiting_until t') \<subseteq> fst ` set (waiting_until t) \<union> {i \<in> set (r_ready r). delayed def wall i}"
    "added = length (filter (delayed def wall) (r_ready r))"
proof -
  let ?t1 = "fold clear_waiting (r_wait_ready r) t"
  note spec = select_ready_spec [OF assms(3)]
  have t1: "?t1 = t\<lparr>waiting_until := waiting_until ?t1\<rparr>"
    "fst ` set (waiting_until ?t1) = fst ` set (waiting_until t) - set (r_wait_ready r)"
    by (force simp: fold_clear_waiting)+
  have d1: "distinct (map fst (waiting_until ?t1))"
    using assms(2) by (simp add: fold_clear_waiting tracker_ok_def distinct_map_filter)
  obtain ws where t': "t' = t\<lparr>waiting_until := ws\<rparr>"
  proof
    show "t' = t\<lparr>waiting_until := waiting_until t'\<rparr>"
      using spec(1) by (simp add: fold_clear_waiting)
  qed
  then show "t' = t\<lparr>waiting_until := waiting_until t'\<rparr>" by simp
  have keys: "fst ` set (waiting_until t') =
      (fst ` set (waiting_until t) - set (r_wait_ready r)) \<union> {i\<in>set (r_ready r). delayed def wall i}"
    using spec(2) t1(2) by simp
  have chosen: "set ready = set (r_wait_ready r) \<union> {i\<in>set (r_ready r). \<not> delayed def wall i}"
    using spec(4) by (simp add: set_dedup)
  have ok: "idle def t i \<and> deps_ok def t i" if "i \<in> fst ` set (waiting_until t) \<union> set (r_ready r)" for i
    using that assms(1,2) by (auto simp: round_ok_def tracker_ok_def)
  have ok': "idle def t' i \<and> deps_ok def t' i" if "i \<in> fst ` set (waiting_until t) \<union> set (r_ready r)" for i
    using ok [OF that] by (simp add: t')
  have sub: "set (r_wait_ready r) \<subseteq> fst ` set (waiting_until t)"
    and fresh: "\<forall>i\<in>set (r_ready r). i \<notin> fst ` set (waiting_until t)"
    using assms(1) by (auto simp: round_ok_def)
  have eqs: "done_ids t' = done_ids t" "running t' = running t" "completed t' = completed t"
    "failed t' = failed t" "skipped t' = skipped t"
    by (simp_all add: t')
  show "tracker_ok def t'"
    using assms(2) ok' spec(3) [OF d1] unfolding tracker_ok_def eqs keys by blast
  show "chosen_ok def t' ready"
    unfolding chosen_ok_def keys
  proof (intro conjI ballI)
    show "distinct ready" by (rule spec(5)) (simp add: distinct_dedup)
    fix i assume i: "i \<in> set ready"
    with chosen sub have in_all: "i \<in> fst ` set (waiting_until t) \<union> set (r_ready r)" by blast
    from ok' [OF this] show "idle def t' i" "deps_ok def t' i" by simp_all
    show "i \<notin> fst ` set (waiting_until t) - set (r_wait_ready r) \<union> {i \<in> set (r_ready r). delayed def wall i}"
      using i chosen sub fresh by blast
  qed
  show "set (r_ready r) \<union> fst ` set (waiting_until t) \<subseteq> set ready \<union> fst ` set (waiting_until t')"
    unfolding keys chosen by blast
  show "fst ` set (waiting_until t') \<subseteq> fst ` set (waiting_until t) \<union> {i \<in> set (r_ready r). delayed def wall i}"
    unfolding keys by blast
  show "added = length (filter (delayed def wall) (r_ready r))" using spec(6) by simp
qed

lemma safe_select:
  assumes "schedulable def" "safe_inv def s" "ctrl_at s = AtSelect r"
    and "driver_step def now wall s = Some s'"
  shows "safe_inv def s'"
proof -
  obtain t' ready added where sel: "select_ready def now wall (r_ready r)
      (fold clear_waiting (r_wait_ready r) (trk s), dedup [] (r_wait_ready r), 0) = (t', ready, added)"
    by (metis prod_cases3)
  then have s': "s' = s\<lparr>trk := t', ctrl_at := AtCheck r ready added\<rparr>"
    using assms(3,4) by (simp add: driver_step_def Let_def)
  have "round_ok def (trk s) r" "tracker_ok def (trk s)"
    using assms(2,3) by (auto simp: safe_inv_def ctrl_ok_def)
  note out = select_outcome [OF this sel]
  have "running t' = running (trk s)" by (subst out(3)) simp
  moreover have "deps_ok def t' i = deps_ok def (trk s) i" for i by (subst out(3)) simp
  ultimately show ?thesis
    using assms(2,3) out(1,2) by (simp add: safe_inv_def tasks_ok_def ctrl_ok_def s')
qed

lemma safe_launch:
  assumes sch: "schedulable def" and inv: "safe_inv def s" and at: "ctrl_at s = AtLaunch ready"
    and step: "driver_step def now wall s = Some s'"
  shows "safe_inv def s'"
proof -
  let ?R = "sid def ` set ready"
  have c: "chosen_ok def (trk s) ready" and t: "tracker_ok def (trk s)" and ts: "tasks_ok def (trk s) (active s)"
    using inv at by (auto simp: safe_inv_def ctrl_ok_def)
  have s': "s' = s\<lparr>trk := (trk s)\<lparr>running := running (trk s) \<union> ?R\<rparr>, launched := launched s @ ready,
      ctrl_at := AtSpawn ready\<rparr>"
    using step at by (simp add: driver_step_def)
  have ready: "i < length (steps def)" "sid def i \<notin> done_ids (trk s)" "sid def i \<notin> running (trk s)"
    "deps_ok def (trk s) i" "i \<notin> fst ` set (waiting_until (trk s))" if "i \<in> set ready" for i
    using that c by (auto simp: chosen_ok_def idle_def)
  have "idle def (trk s') i" if "idle def (trk s) i" "i \<notin> set ready" for i
    using that ready(1) schedulable_inj [OF sch, of i] by (auto simp: idle_def s')
  then have "idle def (trk s') i" if "i \<in> fst ` set (waiting_until (trk s))" for i
  proof -
    have "idle def (trk s) i" using that t unfolding tracker_ok_def by blast
    moreover have "i \<notin> set ready" using that ready(5) by blast
    ultimately show ?thesis
      using \<open>\<And>i. idle def (trk s) i \<Longrightarrow> i \<notin> set ready \<Longrightarrow> idle def (trk s') i\<close> by blast
  qed
  then have "tracker_ok def (trk s')"
    using t ready by (auto simp: tracker_ok_def s')
  moreover have "tasks_ok def (trk s') (active s' @ spawning (ctrl_at s'))"
    using ts c ready by (auto simp: tasks_ok_def s' chosen_ok_def)
  ultimately show ?thesis
    using inv at ready by (auto simp: safe_inv_def ctrl_ok_def s')
qed

lemma safe_driver:
  assumes "schedulable def" "safe_inv def s" "driver_step def now wall s = Some s'"
  shows "safe_inv def s'"
proof (cases "ctrl_at s")
  case (AtCheck r ready added)
  with assms show ?thesis
    by (auto simp: driver_step_def safe_inv_def ctrl_ok_def in_dependents_of_all split: if_splits)
next
  case (AtSpawn ts)
  with assms show ?thesis
    by (cases ts) (auto simp: driver_step_def safe_inv_def ctrl_ok_def)
next
  case AtAwait
  with assms show ?thesis by (auto simp: driver_step_def safe_inv_def ctrl_ok_def)
next
  case AtRecv
  with assms show ?thesis
    by (auto simp: driver_step_def safe_inv_def ctrl_ok_def in_dependents split: list.splits)
next
  case (Ended x)
  with assms show ?thesis by (simp add: driver_step_def)
next
  case (AtSelect r)
  with assms show ?thesis by (blast intro: safe_select)
next
  case (AtLaunch ready)
  with assms show ?thesis by (blast intro: safe_launch)
qed (use assms safe_top safe_classify safe_blocked in blast)+

lemma safe_reach:
  assumes "schedulable def"
  shows "sched_reach def es ok s \<Longrightarrow> safe_inv def s"
proof (induction rule: sched_reach.induct)
  case init
  show ?case using assms by (rule safe_init)
next
  case (step s s')
  from step(2) show ?case
  proof cases
    case (drive now wall)
    with assms step.IH show ?thesis by (blast intro: safe_driver)
  next
    case (finish idx out)
    with assms step.IH show ?thesis by (blast intro: safe_finish)
  next
    case stop
    with step.IH show ?thesis by (auto simp: safe_inv_def ctrl_ok_def)
  qed
qed

end
