(* ===== verification/Wf_Schedule_Live.thy ===== *)
theory Wf_Schedule_Live
  imports Wf_Schedule_Inv
begin

text \<open>
  What the driver loop guarantees beyond safety, as long as no step is stopped by a pause: every
  step is launched at most once, every step that is not settled has a reason to wait, and so
  the loop ends with all steps processed or because a step failed. With it come the properties of
  the scheduler.
\<close>

section \<open>Launched at most once\<close>

definition once_inv :: "('d, 'x) workflow_definition \<Rightarrow> sched \<Rightarrow> bool" where
  "once_inv def s \<longleftrightarrow> distinct (launched s)
     \<and> sid def ` set (launched s) \<subseteq> done_ids (trk s) \<union> running (trk s)
     \<and> length (chan s) + length (active s @ spawning (ctrl_at s)) \<le> length (launched s)"

lemma trk_same:
  assumes "driver_step def now wall s = Some s'" "\<And>r. ctrl_at s \<noteq> AtBlocked r" "\<And>r. ctrl_at s \<noteq> AtSelect r"
    "\<And>xs. ctrl_at s \<noteq> AtLaunch xs"
  shows "trk s' = trk s" "launched s' = launched s"
    "length (chan s') + length (active s' @ spawning (ctrl_at s'))
      \<le> length (chan s) + length (active s @ spawning (ctrl_at s))"
  using assms
  by (cases "ctrl_at s"; auto simp: driver_step_def split: prod.splits if_splits list.splits)+

lemma done_ids_skip: "done_ids (t\<lparr>skipped := skipped t \<union> B\<rparr>) = done_ids t \<union> B"
  by (auto simp: done_ids_def)

lemma once_driver:
  assumes "schedulable def" "safe_inv def s" "once_inv def s" "driver_step def now wall s = Some s'"
  shows "once_inv def s'"
proof (cases "ctrl_at s")
  case (AtBlocked r)
  with assms(4) have "done_ids (trk s) \<subseteq> done_ids (trk s')" "running (trk s') = running (trk s)"
    "launched s' = launched s" "chan s' = chan s" "active s' = active s" "spawning (ctrl_at s') = []"
    by (auto simp: driver_step_def done_ids_def)
  with assms(3) AtBlocked show ?thesis unfolding once_inv_def by fastforce
next
  case (AtSelect r)
  obtain t' ready added where sel: "select_ready def now wall (r_ready r)
      (fold clear_waiting (r_wait_ready r) (trk s), dedup [] (r_wait_ready r), 0) = (t', ready, added)"
    by (metis prod_cases3)
  then have s': "s' = s\<lparr>trk := t', ctrl_at := AtCheck r ready added\<rparr>"
    using AtSelect assms(4) by (simp add: driver_step_def Let_def)
  have "round_ok def (trk s) r" "tracker_ok def (trk s)"
    using assms(2) AtSelect by (auto simp: safe_inv_def ctrl_ok_def)
  from select_outcome(3) [OF this sel] have "done_ids t' = done_ids (trk s)" "running t' = running (trk s)"
    by (metis done_ids_waiting(1), metis tracker.select_convs(4) tracker.surjective tracker.update_convs(5))
  with assms(3) AtSelect show ?thesis by (simp add: once_inv_def s')
next
  case (AtLaunch ready)
  then have s': "s' = s\<lparr>trk := (trk s)\<lparr>running := running (trk s) \<union> sid def ` set ready\<rparr>,
      launched := launched s @ ready, ctrl_at := AtSpawn ready\<rparr>"
    using assms(4) by (simp add: driver_step_def)
  have "distinct ready" "\<forall>i\<in>set ready. sid def i \<notin> done_ids (trk s) \<union> running (trk s)"
    using assms(2) AtLaunch by (auto simp: safe_inv_def ctrl_ok_def chosen_ok_def idle_def)
  with assms(3) AtLaunch show ?thesis by (auto simp: once_inv_def s')
qed (use trk_same [OF assms(4)] assms(3) in \<open>simp_all add: once_inv_def\<close>)

lemma once_finish:
  assumes "once_inv def s" "idx \<in> set (active s)" "not_paused out"
  shows "once_inv def (task_done def idx out s)"
proof -
  have "Suc (length (remove1 idx (active s))) = length (active s)"
    using assms(2) length_pos_if_in_set [OF assms(2)] by (simp add: length_remove1)
  with assms show ?thesis
    by (auto simp: once_inv_def settle_task_frame(2,7))
qed

lemma once_reach:
  assumes "schedulable def"
  shows "sched_reach def es not_paused s \<Longrightarrow> once_inv def s"
proof (induction rule: sched_reach.induct)
  case init
  show ?case by (auto simp: once_inv_def init_sched_def split: prod.split)
next
  case (step s s')
  from step(2) show ?case
  proof cases
    case (drive now wall)
    with assms step safe_reach show ?thesis by (blast intro: once_driver)
  next
    case (finish idx out)
    with step.IH show ?thesis by (blast intro: once_finish)
  next
    case stop
    with step.IH show ?thesis by (auto simp: once_inv_def)
  qed
qed

section \<open>Nothing is forgotten\<close>

fun candidates :: "ctrl \<Rightarrow> nat set" where
  "candidates (AtBlocked r) = set (r_ready r) \<union> set (r_blocked r)"
| "candidates (AtSelect r) = set (r_ready r)"
| "candidates (AtCheck r ready added) = set ready"
| "candidates (AtLaunch ready) = set ready"
| "candidates _ = {}"

definition awaits :: "('d, 'x) workflow_definition \<Rightarrow> step_id set \<Rightarrow> (step_id \<times> step_result) list \<Rightarrow> nat \<Rightarrow> bool" where
  "awaits def D ms i \<longleftrightarrow> (\<exists>d\<in>set (all_dependencies (steps def ! i)). d \<notin> D \<or> d \<in> fst ` set ms)"

definition covered :: "('d, 'x) workflow_definition \<Rightarrow> sched \<Rightarrow> nat \<Rightarrow> bool" where
  "covered def s i \<longleftrightarrow> sid def i \<in> done_ids (trk s) \<union> running (trk s)
     \<or> i \<in> fst ` set (waiting_until (trk s)) \<or> i \<in> set (pending s) \<or> i \<in> candidates (ctrl_at s)
     \<or> awaits def (done_ids (trk s)) (chan s) i"

definition cover_inv :: "('d, 'x) workflow_definition \<Rightarrow> sched \<Rightarrow> bool" where
  "cover_inv def s \<longleftrightarrow> (\<forall>e. ctrl_at s = Ended e) \<or> (\<forall>i<length (steps def). covered def s i)"

text \<open>What the driver has read in Phase 1 stays a bound on the tracker.\<close>

definition counts_ok :: "sched \<Rightarrow> bool" where
  "counts_ok s =
     (case ctrl_at s of
        AtBlocked r \<Rightarrow> r_total r \<le> card (done_ids (trk s)) \<and> r_waiting r = length (waiting_until (trk s))
          \<and> (r_running r = 0 \<longrightarrow> running (trk s) = {} \<and> r_total r = card (done_ids (trk s)))
      | AtSelect r \<Rightarrow> r_total r \<le> card (done_ids (trk s)) \<and> r_waiting r = length (waiting_until (trk s))
          \<and> (r_running r = 0 \<longrightarrow> running (trk s) = {}
               \<and> (failed (trk s) \<noteq> {} \<or> r_total r = card (done_ids (trk s))))
      | AtCheck r ready added \<Rightarrow> r_total r \<le> card (done_ids (trk s))
          \<and> (r_waiting r + added = 0 \<longrightarrow> waiting_until (trk s) = [])
          \<and> (r_running r = 0 \<longrightarrow> running (trk s) = {}
               \<and> (failed (trk s) \<noteq> {} \<or> r_total r = card (done_ids (trk s))))
      | AtRecv \<Rightarrow> chan s \<noteq> [] \<or> active s \<noteq> []
      | _ \<Rightarrow> True)"

lemma tracker_finite: "tracker_ok def t \<Longrightarrow> finite (done_ids t) \<and> finite (running t)"
  by (auto simp: tracker_ok_def intro: finite_subset)

lemma total_processed_card: "tracker_ok def t \<Longrightarrow> total_processed t = card (done_ids t)"
  using tracker_finite [of def t]
  by (auto simp: tracker_ok_def total_processed_def done_ids_def card_Un_disjoint Int_Un_distrib2)


lemma card_done_all:
  assumes "schedulable def" "tracker_ok def t" "length (steps def) \<le> card (done_ids t)"
  shows "done_ids t = sd_id ` set (steps def)"
proof -
  have "card (sd_id ` set (steps def)) = length (steps def)"
    using assms(1) distinct_card [of "map sd_id (steps def)"] by (simp add: schedulable_def)
  with assms(2,3) show ?thesis
    by (intro card_seteq) (auto simp: tracker_ok_def)
qed

lemma settle_done_mono:
  "done_ids t \<subseteq> done_ids (fst (settle_task s out t))"
  using settle_task_frame(3-5) [of t s out] by (auto simp: done_ids_def)

lemma counts_finish:
  assumes "safe_inv def s" "counts_ok s" "idx \<in> set (active s)"
  shows "counts_ok (task_done def idx out s)"
proof -
  let ?t' = "fst (settle_task (steps def ! idx) out (trk s))"
  have run: "sid def idx \<in> running (trk s)"
    using assms(1,3) by (auto simp: safe_inv_def tasks_ok_def)
  have "card (done_ids (trk s)) \<le> card (done_ids ?t')"
  proof (rule card_mono)
    show "finite (done_ids ?t')"
      using tracker_finite [OF settle_tracker_ok [OF _ run, of def out]] assms(1) by (simp add: safe_inv_def)
  qed (rule settle_done_mono)
  with assms(2) run show ?thesis
    by (cases "ctrl_at s") (auto simp: counts_ok_def settle_task_frame(1))
qed

lemma counts_classify:
  assumes "safe_inv def s" "ctrl_at s = AtClassify" "driver_step def now wall s = Some s'"
  shows "counts_ok s'"
  using assms tracker_finite [of def "trk s"]
  by (auto simp: driver_step_def counts_ok_def safe_inv_def total_processed_card split: prod.splits)

lemma counts_blocked:
  assumes "safe_inv def s" "counts_ok s" "ctrl_at s = AtBlocked r" "driver_step def now wall s = Some s'"
  shows "counts_ok s'"
proof -
  let ?B = "sid def ` set (r_blocked r)"
  have s': "trk s' = (trk s)\<lparr>skipped := skipped (trk s) \<union> ?B\<rparr>" "ctrl_at s' = AtSelect r"
    using assms(3,4) by (auto simp: driver_step_def)
  have c: "r_total r \<le> card (done_ids (trk s))" "r_waiting r = length (waiting_until (trk s))"
    "r_running r = 0 \<Longrightarrow> running (trk s) = {} \<and> r_total r = card (done_ids (trk s))"
    using assms(2,3) by (auto simp: counts_ok_def)
  have "card (done_ids (trk s)) \<le> card (done_ids (trk s) \<union> ?B)"
    using tracker_finite [of def "trk s"] assms(1) by (intro card_mono) (auto simp: safe_inv_def)
  moreover have "failed (trk s) \<noteq> {}" if "r_blocked r \<noteq> []"
    using assms(1,3) that by (cases "r_blocked r") (auto simp: safe_inv_def ctrl_ok_def blocked_ok_def)
  moreover have "done_ids (trk s') = done_ids (trk s) \<union> ?B" by (simp only: s' done_ids_skip)
  ultimately show ?thesis
    using c by (cases "r_blocked r = []") (auto simp: counts_ok_def s')
qed

lemma counts_select:
  assumes "safe_inv def s" "counts_ok s" "ctrl_at s = AtSelect r" "driver_step def now wall s = Some s'"
  shows "counts_ok s'"
proof -
  obtain t' ready added where sel: "select_ready def now wall (r_ready r)
      (fold clear_waiting (r_wait_ready r) (trk s), dedup [] (r_wait_ready r), 0) = (t', ready, added)"
    by (metis prod_cases3)
  then have s': "s' = s\<lparr>trk := t', ctrl_at := AtCheck r ready added\<rparr>"
    using assms(3,4) by (simp add: driver_step_def Let_def)
  have r: "round_ok def (trk s) r" "tracker_ok def (trk s)"
    using assms(1,3) by (auto simp: safe_inv_def ctrl_ok_def)
  note out = select_outcome [OF r sel]
  obtain ws where t': "t' = (trk s)\<lparr>waiting_until := ws\<rparr>" using out(3) by blast
  have "waiting_until t' = []" if "r_waiting r + added = 0"
  proof -
    have w: "waiting_until (trk s) = []"
      using that assms(2,3) by (simp add: counts_ok_def)
    have d: "{i \<in> set (r_ready r). delayed def wall i} = {}"
      using that out(6) by (simp add: filter_empty_conv)
    have "fst ` set (waiting_until t') = {}" using out(5) unfolding w d by simp
    then show ?thesis by simp
  qed
  with assms(2,3) show ?thesis by (simp add: counts_ok_def s' t' done_ids_def)
qed

lemma counts_await:
  assumes "safe_inv def s" "ctrl_at s = AtAwait" "driver_step def now wall s = Some s'"
  shows "counts_ok s'"
  using assms by (auto simp: driver_step_def counts_ok_def safe_inv_def tasks_ok_def split: if_splits)

lemma counts_driver:
  assumes "safe_inv def s" "counts_ok s" "driver_step def now wall s = Some s'"
  shows "counts_ok s'"
proof (cases "ctrl_at s")
  case AtClassify
  with assms show ?thesis by (blast intro: counts_classify)
next
  case (AtBlocked r)
  with assms show ?thesis by (blast intro: counts_blocked)
next
  case (AtSelect r)
  with assms show ?thesis by (blast intro: counts_select)
next
  case AtAwait
  with assms show ?thesis by (blast intro: counts_await)
next
  case (AtSpawn ts)
  with assms(3) show ?thesis by (cases ts) (auto simp: driver_step_def counts_ok_def)
qed (use assms(3) in \<open>auto simp: driver_step_def counts_ok_def split: if_splits list.splits\<close>)

lemma counts_reach:
  assumes "schedulable def"
  shows "sched_reach def es ok s \<Longrightarrow> counts_ok s"
proof (induction rule: sched_reach.induct)
  case init
  show ?case by (auto simp: counts_ok_def init_sched_def split: prod.split)
next
  case (step s s')
  from step(2) show ?case
  proof cases
    case (drive now wall)
    with assms step safe_reach show ?thesis by (blast intro: counts_driver)
  next
    case (finish idx out)
    with assms step safe_reach show ?thesis by (blast intro: counts_finish)
  next
    case stop
    then show ?thesis by (auto simp: counts_ok_def)
  qed
qed


lemma covered_mono:
  assumes "covered def s i" "done_ids (trk s) \<union> running (trk s) \<subseteq> done_ids (trk s') \<union> running (trk s')"
    and "fst ` set (waiting_until (trk s)) \<subseteq> fst ` set (waiting_until (trk s'))"
    and "set (pending s) \<subseteq> set (pending s')" "candidates (ctrl_at s) \<subseteq> candidates (ctrl_at s')"
    and "awaits def (done_ids (trk s)) (chan s) i \<Longrightarrow>
      awaits def (done_ids (trk s')) (chan s') i \<or> i \<in> set (pending s')"
  shows "covered def s' i"
  using assms unfolding covered_def by blast

lemma cover_init:
  assumes sch: "schedulable def" and i: "i < length (steps def)"
  shows "covered def (init_sched def es) i"
proof -
  have memo: "set pend0 \<subseteq> set pend \<and>
      (\<forall>d. d \<in> done_ids t \<longrightarrow> d \<in> done_ids t0 \<or> (\<forall>j. j \<in> set (get_dependent_indices def d) \<longrightarrow> j \<in> set pend))"
    if "memoize def es ss (t0, pend0) = (t, pend)" for ss t0 pend0 t pend
    using that
  proof (induction ss arbitrary: t0 pend0)
    case (Cons s ss)
    obtain t1 b where m: "memoize_step es s t0 = (t1, b)" by (cases "memoize_step es s t0")
    have t1: "done_ids t1 = done_ids t0 \<or> b \<and> done_ids t1 = insert (sd_id s) (done_ids t0)"
      using memoize_step_cases [OF m] by (auto simp: done_ids_def)
    from Cons.prems m have rest: "memoize def es ss
        (t1, if b then pend0 @ get_dependent_indices def (sd_id s) else pend0) = (t, pend)" by simp
    note IH = Cons.IH [OF rest]
    show ?case
    proof (cases b)
      case True
      with IH [THEN conjunct1] have p: "set pend0 \<subseteq> set pend"
        "set (get_dependent_indices def (sd_id s)) \<subseteq> set pend" by simp_all
      have "j \<in> set pend" if "d \<in> done_ids t" "d \<notin> done_ids t0" "j \<in> set (get_dependent_indices def d)" for d j
      proof (cases "d = sd_id s")
        case True
        with p(2) that(3) show ?thesis by blast
      next
        case False
        with t1 that(2) have "d \<notin> done_ids t1" by blast
        with IH [THEN conjunct2] that(1,3) show ?thesis by blast
      qed
      with p(1) show ?thesis by blast
    next
      case False
      with IH t1 show ?thesis by simp
    qed
  qed simp
  obtain t pend where m: "memoize def es (steps def) (new_tracker, initial_step_indices def) = (t, pend)"
    by fastforce
  have init: "init_sched def es =
      \<lparr>trk = t, pending = pend, chan = [], active = [], launched = [], ctrl_at = AtTop\<rparr>"
    by (simp add: init_sched_def m)
  show ?thesis
  proof (cases "all_dependencies (steps def ! i) = []")
    case True
    with i memo [OF m] sch show ?thesis
      by (auto simp: covered_def init schedulable_tables in_build_initial)
  next
    case False
    then obtain d where d: "d \<in> set (all_dependencies (steps def ! i))" by (meson last_in_set)
    show ?thesis
    proof (cases "d \<in> done_ids t")
      case True
      with memo [OF m] d i sch show ?thesis
        by (auto simp: covered_def init new_tracker_def done_ids_def in_dependents)
    next
      case False
      with d show ?thesis by (auto simp: covered_def init awaits_def)
    qed
  qed
qed

lemma cover_finish:
  assumes "covered def s i" "idx \<in> set (active s)" "not_paused out"
  shows "covered def (task_done def idx out s) i"
proof (rule covered_mono [OF assms(1)])
  show "done_ids (trk s) \<union> running (trk s) \<subseteq>
      done_ids (trk (task_done def idx out s)) \<union> running (trk (task_done def idx out s))"
    using settle_task_frame(7) [OF assms(3), where s = "steps def ! idx" and t = "trk s"]
    by (auto simp: settle_task_frame(2))
  show "fst ` set (waiting_until (trk s)) \<subseteq> fst ` set (waiting_until (trk (task_done def idx out s)))"
    by (simp add: settle_task_frame(1))
  assume "awaits def (done_ids (trk s)) (chan s) i"
  then show "awaits def (done_ids (trk (task_done def idx out s))) (chan (task_done def idx out s)) i
      \<or> i \<in> set (pending (task_done def idx out s))"
    using settle_task_frame(7) [OF assms(3), where s = "steps def ! idx" and t = "trk s"]
    by (auto simp: awaits_def)
qed simp_all

lemma drained:
  assumes "schedulable def" "i < length (steps def)" "awaits def D ms i"
  shows "awaits def D [] i \<or> i \<in> set (dependents_of_all def ms)"
  using assms by (auto simp: awaits_def in_dependents_of_all)

lemma received:
  "schedulable def \<Longrightarrow> i < length (steps def) \<Longrightarrow> awaits def D ((d, r) # ms) i \<Longrightarrow>
     awaits def D ms i \<or> i \<in> set (get_dependent_indices def d)"
  unfolding awaits_def in_dependents by auto

lemma cover_top:
  assumes "schedulable def" "covered def s i" "i < length (steps def)" "ctrl_at s = AtTop"
    "driver_step def now wall s = Some s'"
  shows "covered def s' i"
proof (rule covered_mono [OF assms(2)])
  assume "awaits def (done_ids (trk s)) (chan s) i"
  from drained [OF assms(1,3) this] show
    "awaits def (done_ids (trk s')) (chan s') i \<or> i \<in> set (pending s')"
    using assms(4,5) by (auto simp: driver_step_def)
qed (use assms(4,5) in \<open>auto simp: driver_step_def\<close>)

lemma unsatisfied_awaits:
  assumes "\<not> (has_failed_dependency t (depends_on s) \<or> have_all_any_deps_failed t (depends_on_any s))"
    and "\<not> (are_dependencies_satisfied t (depends_on s) \<and> is_any_dependency_satisfied t (depends_on_any s))"
  shows "\<exists>d\<in>set (all_dependencies s). d \<notin> done_ids t"
  using assms
  by (auto simp: has_failed_dependency_def have_all_any_deps_failed_def are_dependencies_satisfied_def
      is_any_dependency_satisfied_def all_dependencies_def done_ids_def list_all_iff list_ex_iff)

lemma cover_classify:
  assumes "safe_inv def s" "covered def s i" "i < length (steps def)" "ctrl_at s = AtClassify"
    "driver_step def now wall s = Some s'"
  shows "covered def s' i"
proof -
  obtain ready blocked where c: "classify def (trk s) (pending s) = (ready, blocked)" by fastforce
  have s': "trk s' = trk s" "chan s' = chan s" "candidates (ctrl_at s') = set ready \<union> set blocked"
    using assms(4,5) c by (auto simp: driver_step_def)
  have mem: "i \<in> set ready \<union> set blocked \<or> awaits def (done_ids (trk s)) (chan s) i"
    if "i \<in> set (pending s)" "is_step_processable (trk s) (sid def i) i"
    using that classify_ready [of i def "trk s" "pending s"] classify_blocked [of i def "trk s" "pending s"]
      unsatisfied_awaits [of "trk s" "steps def ! i"] c
    by (auto simp: deps_ok_def awaits_def)
  show ?thesis
    using assms(2-4) mem processable_idle [of i def "trk s"] by (auto simp: covered_def s' idle_def)
qed

lemma cover_blocked:
  assumes "schedulable def" "covered def s i" "i < length (steps def)" "ctrl_at s = AtBlocked r"
    "driver_step def now wall s = Some s'"
  shows "covered def s' i"
proof -
  let ?B = "sid def ` set (r_blocked r)"
  have s': "trk s' = (trk s)\<lparr>skipped := skipped (trk s) \<union> ?B\<rparr>" "ctrl_at s' = AtSelect r" "chan s' = chan s"
    "pending s' = pending s @ concat (map (\<lambda>idx. get_dependent_indices def (sid def idx)) (r_blocked r))"
    using assms(4,5) by (auto simp: driver_step_def)
  have D: "done_ids (trk s') = done_ids (trk s) \<union> ?B" by (simp only: s' done_ids_skip)
  have aw: "awaits def (done_ids (trk s')) (chan s') i \<or> i \<in> set (pending s')"
    if "awaits def (done_ids (trk s)) (chan s) i"
    using that assms(1,3) unfolding awaits_def D by (auto simp: s' in_dependents)
  show ?thesis
    using assms(2,4) aw unfolding covered_def D by (auto simp: s')
qed

lemma cover_select:
  assumes "safe_inv def s" "covered def s i" "ctrl_at s = AtSelect r" "driver_step def now wall s = Some s'"
  shows "covered def s' i"
proof -
  obtain t' ready added where sel: "select_ready def now wall (r_ready r)
      (fold clear_waiting (r_wait_ready r) (trk s), dedup [] (r_wait_ready r), 0) = (t', ready, added)"
    by (metis prod_cases3)
  then have s': "s' = s\<lparr>trk := t', ctrl_at := AtCheck r ready added\<rparr>"
    using assms(3,4) by (simp add: driver_step_def Let_def)
  have r: "round_ok def (trk s) r" "tracker_ok def (trk s)"
    using assms(1,3) by (auto simp: safe_inv_def ctrl_ok_def)
  note out = select_outcome [OF r sel]
  obtain ws where t': "t' = (trk s)\<lparr>waiting_until := ws\<rparr>" using out(3) by blast
  show ?thesis
    using assms(2,3) subsetD [OF out(4), of i] by (auto simp: covered_def s' t')
qed

lemma cover_driver:
  assumes sch: "schedulable def" and safe: "safe_inv def s" and cov: "covered def s i"
    and i: "i < length (steps def)" and step: "driver_step def now wall s = Some s'"
    and live: "\<forall>e. ctrl_at s' \<noteq> Ended e"
  shows "covered def s' i"
proof (cases "ctrl_at s")
  case AtTop
  with assms show ?thesis by (blast intro: cover_top)
next
  case AtClassify
  with assms show ?thesis by (blast intro: cover_classify)
next
  case (AtBlocked r)
  with assms show ?thesis by (blast intro: cover_blocked)
next
  case (AtSelect r)
  with assms show ?thesis by (blast intro: cover_select)
next
  case (AtCheck r ready added)
  with step live have "ready = [] \<and> pending s = []
        \<and> s' = s\<lparr>pending := dependents_of_all def (chan s), chan := [], ctrl_at := AtTop\<rparr>
      \<or> s' = s\<lparr>ctrl_at := AtLaunch ready\<rparr>"
    by (auto simp: driver_step_def split: if_splits)
  with AtCheck cov drained [OF sch i, of "done_ids (trk s)" "chan s"] show ?thesis
    by (elim disjE conjE) (auto simp: covered_def)
next
  case (AtLaunch ready)
  with step have s': "s' = s\<lparr>trk := (trk s)\<lparr>running := running (trk s) \<union> sid def ` set ready\<rparr>,
      launched := launched s @ ready, ctrl_at := AtSpawn ready\<rparr>"
    by (simp add: driver_step_def)
  from cov AtLaunch show ?thesis unfolding covered_def s' by (simp add: image_iff) blast
next
  case (AtSpawn ts)
  with step have "trk s' = trk s \<and> pending s' = pending s \<and> chan s' = chan s \<and> candidates (ctrl_at s') = {}"
    by (cases ts) (auto simp: driver_step_def)
  with cov AtSpawn show ?thesis unfolding covered_def by simp
next
  case AtAwait
  with step have "trk s' = trk s \<and> pending s' = pending s \<and> chan s' = chan s \<and> candidates (ctrl_at s') = {}"
    by (auto simp: driver_step_def split: if_splits)
  with cov AtAwait show ?thesis unfolding covered_def by simp
next
  case AtRecv
  with step obtain d r ms where m: "chan s = (d, r) # ms"
    "s' = s\<lparr>pending := pending s @ get_dependent_indices def d, chan := ms, ctrl_at := AtTop\<rparr>"
    by (auto simp: driver_step_def split: list.splits)
  from AtRecv cov received [OF sch i, of "done_ids (trk s)" d r ms] show ?thesis
    by (auto simp: covered_def m)
qed (use step in \<open>simp add: driver_step_def\<close>)

lemma cover_reach:
  assumes "schedulable def" "i < length (steps def)"
  shows "sched_reach def es not_paused s \<Longrightarrow> (\<exists>e. ctrl_at s = Ended e) \<or> covered def s i"
proof (induction rule: sched_reach.induct)
  case init
  show ?case using assms cover_init by blast
next
  case (step s s')
  from step(2) show ?case
  proof cases
    case (drive now wall)
    then have "\<forall>e. ctrl_at s \<noteq> Ended e" by (auto simp: driver_step_def)
    with step.IH drive assms safe_reach [OF assms(1) step(1)] show ?thesis by (blast intro: cover_driver)
  next
    case (finish idx out)
    with step.IH cover_finish show ?thesis by fastforce
  qed simp
qed

section \<open>How the loop ends\<close>

lemma dep_rel_wf:
  assumes "schedulable def"
  shows "wf ((dep_rel (steps_map (steps def)))\<inverse>)"
proof -
  have "dep_rel (steps_map (steps def)) \<subseteq> (\<Union>s\<in>set (steps def). Pair (sd_id s) ` set (all_dependencies s))"
    by (auto simp: dep_rel_def dest!: steps_map_Some)
  then have "finite (dep_rel (steps_map (steps def)))" by (rule finite_subset) auto
  then show ?thesis using schedulable_tables(4) [OF assms] by (rule finite_acyclic_wf_converse)
qed

text \<open>If every unsettled step awaits an unsettled one, there is no unsettled step.\<close>

lemma no_endless_waiting:
  assumes sch: "schedulable def"
    and aw: "\<And>i. i < length (steps def) \<Longrightarrow> sid def i \<in> D \<or> (\<exists>d\<in>set (all_dependencies (steps def ! i)). d \<notin> D)"
  shows "sd_id ` set (steps def) \<subseteq> D"
proof
  fix x assume "x \<in> sd_id ` set (steps def)"
  then show "x \<in> D"
  proof (induction x rule: wf_induct_rule [OF dep_rel_wf [OF sch]])
    case (1 x)
    then obtain i where i: "i < length (steps def)" "x = sid def i" by (auto simp: in_set_conv_nth)
    show ?case
    proof (rule ccontr)
      assume "x \<notin> D"
      with aw i obtain d where d: "d \<in> set (all_dependencies (steps def ! i))" "d \<notin> D" by blast
      have "steps_map (steps def) x = Some (steps def ! i)"
        using i sch by (auto simp: schedulable_def intro: steps_map_distinct)
      with d(1) have "(d, x) \<in> (dep_rel (steps_map (steps def)))\<inverse>" by (auto simp: dep_rel_def)
      with 1 d schedulable_tables(3) [OF sch i(1) d(1)] show False by blast
    qed
  qed
qed

definition end_ok :: "('d, 'x) workflow_definition \<Rightarrow> sched \<Rightarrow> bool" where
  "end_ok def s =
     (case ctrl_at s of
        Ended (AllProcessed F) \<Rightarrow> done_ids (trk s) = sd_id ` set (steps def) \<and> running (trk s) = {} \<and> F = failed (trk s)
      | Ended (NoProgress F) \<Rightarrow> F \<noteq> {} \<and> running (trk s) = {} \<and> F = failed (trk s)
      | _ \<Rightarrow> True)"

lemma end_ok_check:
  assumes sch: "schedulable def" and reach: "sched_reach def es not_paused s"
    and at: "ctrl_at s = AtCheck r ready added" and step: "driver_step def now wall s = Some s'"
  shows "end_ok def s'"
proof -
  have safe: "safe_inv def s" and counts: "counts_ok s"
    using safe_reach counts_reach sch reach by blast+
  have t: "tracker_ok def (trk s)" using safe by (simp add: safe_inv_def)
  show ?thesis
  proof (cases "r_total r = length (steps def)")
    case True
    with counts at have all: "done_ids (trk s) = sd_id ` set (steps def)"
      by (intro card_done_all [OF sch t]) (simp add: counts_ok_def)
    with t have "running (trk s) = {}" by (auto simp: tracker_ok_def)
    with True all at step show ?thesis by (auto simp: driver_step_def end_ok_def)
  next
    case more: False
    show ?thesis
    proof (cases "ready = [] \<and> r_running r = 0 \<and> r_waiting r + added = 0 \<and> pending s = [] \<and> chan s = []")
      case False
      with more at step show ?thesis by (auto simp: driver_step_def end_ok_def split: if_splits)
    next
      case stuck: True
      with counts at have w: "waiting_until (trk s) = []" "running (trk s) = {}"
        and f: "failed (trk s) \<noteq> {} \<or> r_total r = card (done_ids (trk s))"
        by (auto simp: counts_ok_def)
      have "failed (trk s) \<noteq> {}"
      proof
        assume none: "failed (trk s) = {}"
        have "sid def i \<in> done_ids (trk s) \<or> (\<exists>d\<in>set (all_dependencies (steps def ! i)). d \<notin> done_ids (trk s))"
          if "i < length (steps def)" for i
          using cover_reach [OF sch that reach] at stuck w by (auto simp: covered_def awaits_def)
        then have "sd_id ` set (steps def) \<subseteq> done_ids (trk s)" by (rule no_endless_waiting [OF sch])
        with t have "done_ids (trk s) = sd_id ` set (steps def)" by (auto simp: tracker_ok_def)
        with f none more sch show False
          using distinct_card [of "map sd_id (steps def)"] by (simp add: schedulable_def)
      qed
      with w at stuck more step show ?thesis by (auto simp: driver_step_def end_ok_def)
    qed
  qed
qed

lemma end_ok_finish:
  assumes "safe_inv def s" "end_ok def s" "idx \<in> set (active s)"
  shows "end_ok def (task_done def idx out s)"
proof -
  have "sid def idx \<in> running (trk s)" using assms(1,3) by (auto simp: safe_inv_def tasks_ok_def)
  with assms(2) show ?thesis
    by (auto simp: end_ok_def split: ctrl.splits sched_end.splits)
qed

lemma end_reach:
  assumes "schedulable def"
  shows "sched_reach def es not_paused s \<Longrightarrow> end_ok def s"
proof (induction rule: sched_reach.induct)
  case init
  show ?case by (auto simp: end_ok_def init_sched_def split: prod.split)
next
  case (step s s')
  from step(2) show ?case
  proof cases
    case (drive now wall)
    show ?thesis
    proof (cases "ctrl_at s")
      case (AtCheck r ready added)
      with assms step(1) drive show ?thesis by (blast intro: end_ok_check)
    next
      case (AtSpawn ts)
      with drive show ?thesis by (cases ts) (auto simp: driver_step_def end_ok_def)
    qed (use drive in \<open>auto simp: driver_step_def end_ok_def split: prod.splits list.splits\<close>)
  next
    case (finish idx out)
    with assms step safe_reach show ?thesis by (blast intro: end_ok_finish)
  next
    case stop
    then show ?thesis by (simp add: end_ok_def)
  qed
qed


section \<open>Steps the journal has settled\<close>

lemma settled_grow:
  assumes "safe_inv def s" "driver_step def now wall s = Some s'"
  shows "done_ids (trk s) \<subseteq> done_ids (trk s')"
proof (cases "ctrl_at s")
  case (AtBlocked r)
  with assms(2) show ?thesis by (auto simp: driver_step_def done_ids_def)
next
  case (AtSelect r)
  obtain t' ready added where sel: "select_ready def now wall (r_ready r)
      (fold clear_waiting (r_wait_ready r) (trk s), dedup [] (r_wait_ready r), 0) = (t', ready, added)"
    by (metis prod_cases3)
  have "round_ok def (trk s) r" "tracker_ok def (trk s)"
    using assms(1) AtSelect by (auto simp: safe_inv_def ctrl_ok_def)
  from select_outcome(3) [OF this sel] obtain ws where "t' = (trk s)\<lparr>waiting_until := ws\<rparr>" by blast
  with AtSelect assms(2) sel show ?thesis by (auto simp: driver_step_def Let_def)
next
  case (AtLaunch ready)
  with assms(2) show ?thesis by (auto simp: driver_step_def)
qed (use trk_same(1) [OF assms(2)] in simp_all)

definition keeps_settled :: "('d, 'x) workflow_definition \<Rightarrow> journal_entry list \<Rightarrow> sched \<Rightarrow> bool" where
  "keeps_settled def es s \<longleftrightarrow>
     done_ids (trk (init_sched def es)) \<subseteq> done_ids (trk s)
     \<and> (\<forall>i\<in>set (launched s). sid def i \<notin> done_ids (trk (init_sched def es)))"

lemma keeps_settled_reach:
  assumes "schedulable def"
  shows "sched_reach def es ok s \<Longrightarrow> keeps_settled def es s"
proof (induction rule: sched_reach.induct)
  case init
  show ?case by (auto simp: keeps_settled_def init_sched_def split: prod.split)
next
  case (step s s')
  have safe: "safe_inv def s" using safe_reach [OF assms step(1)] .
  from step(2) show ?case
  proof cases
    case (drive now wall)
    have grow: "done_ids (trk s) \<subseteq> done_ids (trk s')" by (rule settled_grow [OF safe drive])
    show ?thesis
    proof (cases "ctrl_at s")
      case (AtLaunch ready)
      then have "launched s' = launched s @ ready" "\<forall>i\<in>set ready. sid def i \<notin> done_ids (trk s)"
        using drive safe by (auto simp: driver_step_def safe_inv_def ctrl_ok_def chosen_ok_def idle_def)
      with grow step.IH show ?thesis unfolding keeps_settled_def by auto
    next
      case (AtSelect r)
      with drive have "launched s' = launched s" by (auto simp: driver_step_def Let_def split: prod.splits)
      with grow step.IH show ?thesis unfolding keeps_settled_def by auto
    next
      case (AtBlocked r)
      with drive have "launched s' = launched s" by (auto simp: driver_step_def)
      with grow step.IH show ?thesis unfolding keeps_settled_def by auto
    qed (use trk_same(2) [OF drive] grow step.IH in \<open>auto simp: keeps_settled_def\<close>)
  next
    case (finish idx out)
    with step.IH settle_done_mono show ?thesis by (fastforce simp: keeps_settled_def)
  next
    case stop
    with step.IH show ?thesis by (simp add: keeps_settled_def)
  qed
qed

lemma memoize_done:
  assumes "memoize def es ss (t0, pend0) = (t, pend)"
  shows "done_ids t0 \<subseteq> done_ids t"
    "s \<in> set ss \<Longrightarrow> find (concerns (sd_id s)) (rev es) = Some (JStepRun i a (Some x))
      \<Longrightarrow> \<forall>n t. mode s \<noteq> WaitEvent n t \<Longrightarrow> sd_id s \<in> done_ids t"
proof -
  have "done_ids t0 \<subseteq> done_ids t \<and> (\<forall>s\<in>set ss. (\<forall>n t. mode s \<noteq> WaitEvent n t) \<longrightarrow>
      find (concerns (sd_id s)) (rev es) = Some (JStepRun i a (Some x)) \<longrightarrow> sd_id s \<in> done_ids t)"
    using assms
  proof (induction ss arbitrary: t0 pend0)
    case (Cons s ss)
    obtain t1 b where m: "memoize_step es s t0 = (t1, b)" by (cases "memoize_step es s t0")
    have t1: "done_ids t0 \<subseteq> done_ids t1"
      using memoize_step_cases [OF m] by (auto simp: done_ids_def)
    have t1': "sd_id s \<in> done_ids t1" if "\<forall>n t. mode s \<noteq> WaitEvent n t"
      "find (concerns (sd_id s)) (rev es) = Some (JStepRun i a (Some x))"
      using m that by (cases x; cases "mode s") (auto simp: memoize_step_def done_ids_def)
    from Cons.prems m have rest: "memoize def es ss
        (t1, if b then pend0 @ get_dependent_indices def (sd_id s) else pend0) = (t, pend)" by simp
    from Cons.IH [OF rest] t1 t1' show ?case by auto
  qed simp
  then show "done_ids t0 \<subseteq> done_ids t"
    "s \<in> set ss \<Longrightarrow> find (concerns (sd_id s)) (rev es) = Some (JStepRun i a (Some x))
      \<Longrightarrow> \<forall>n t. mode s \<noteq> WaitEvent n t \<Longrightarrow> sd_id s \<in> done_ids t"
    by auto
qed


section \<open>Replaying a schedule\<close>

datatype sched_event = Drive time | Finish nat task_outcome

fun replay :: "('d, 'x) workflow_definition \<Rightarrow> sched_event list \<Rightarrow> sched \<Rightarrow> sched option" where
  "replay def [] s = Some s"
| "replay def (Drive now # evs) s =
     (case driver_step def now now s of None \<Rightarrow> None | Some s' \<Rightarrow> replay def evs s')"
| "replay def (Finish idx out # evs) s =
     (if idx \<in> set (active s) then replay def evs (task_done def idx out s) else None)"

lemma replay_reach:
  "sched_reach def es ok s \<Longrightarrow> replay def evs s = Some s' \<Longrightarrow> \<forall>idx out. Finish idx out \<in> set evs \<longrightarrow> ok out
     \<Longrightarrow> sched_reach def es ok s'"
proof (induction evs arbitrary: s)
  case (Cons ev evs)
  show ?case
  proof (cases ev)
    case (Drive now)
    with Cons.prems(2) obtain s1 where s1: "driver_step def now now s = Some s1" "replay def evs s1 = Some s'"
      by (auto split: option.splits)
    with Cons.prems(1) have "sched_reach def es ok s1" by (blast intro: sched_reach.step sched_step.drive)
    with Cons.IH [OF _ s1(2)] Cons.prems(3) show ?thesis by simp
  next
    case (Finish idx out)
    with Cons.prems have "idx \<in> set (active s)" "replay def evs (task_done def idx out s) = Some s'" "ok out"
      by (auto split: if_splits)
    moreover from this Cons.prems(1) have "sched_reach def es ok (task_done def idx out s)"
      by (blast intro: sched_reach.step sched_step.finish)
    ultimately show ?thesis using Cons.IH Cons.prems(3) by simp
  qed
qed simp

text \<open>Three steps in a row, and a round of driver steps up to the next message.\<close>

definition chain3 :: "(unit, nat) workflow_definition" where
  "chain3 = (new_definition ''wf'' ''wf'')\<lparr>steps :=
     [new_step ''a'' ''a'' 0, (new_step ''b'' ''b'' 1)\<lparr>depends_on := [''a'']\<rparr>,
      (new_step ''c'' ''c'' 2)\<lparr>depends_on := [''b'']\<rparr>],
     reverse_deps := [''a'' \<mapsto> [1], ''b'' \<mapsto> [2]], initial_step_indices := [0]\<rparr>"

lemma chain3_steps [simp]:
  "steps chain3 = [new_step ''a'' ''a'' 0, (new_step ''b'' ''b'' 1)\<lparr>depends_on := [''a'']\<rparr>,
      (new_step ''c'' ''c'' 2)\<lparr>depends_on := [''b'']\<rparr>]"
  "reverse_deps chain3 = [''a'' \<mapsto> [1], ''b'' \<mapsto> [2]]" "initial_step_indices chain3 = [0]"
  by (simp_all add: chain3_def)

lemma chain3_schedulable: "schedulable chain3"
proof -
  have "validate (chain3\<lparr>reverse_deps := Map.empty, initial_step_indices := []\<rparr>) = Some (Inr chain3)"
    by (simp add: validate_eval chain3_def fun_upd_twist numeral_2_eq_2)
  then show ?thesis by (auto simp: schedulable_def new_step_def)
qed

lemmas replay_eval = driver_step_def task_done_def settle_task_def init_sched_def memoize_step_def new_tracker_def
  dependents_of_all_def get_dependent_indices_def is_step_processable_def get_ready_waiting_indices_def
  has_failed_dependency_def have_all_any_deps_failed_def are_dependencies_satisfied_def
  is_any_dependency_satisfied_def calculate_wait_duration_def total_processed_def new_step_def Let_def


definition fail_events :: "sched_event list" where
  "fail_events = replicate 9 (Drive 0) @ Finish 0 (TResult (Inr RFailure)) # replicate 15 (Drive 0)"

definition pause_events :: "sched_event list" where
  "pause_events = replicate 9 (Drive 0) @ Finish 0 (TResult (Inl (Paused 1))) # replicate 6 (Drive 0)"

lemma replay_chain3_fail:
  "\<exists>s. replay chain3 fail_events (init_sched chain3 []) = Some s
     \<and> failed (trk s) = {''a''} \<and> skipped (trk s) = {''b''} \<and> launched s = [0, 2]"
  by (simp add: replay_eval eval_nat_numeral fail_events_def)

lemma replay_chain3_pause:
  "\<exists>s. replay chain3 pause_events (init_sched chain3 []) = Some s
     \<and> ctrl_at s = Ended (NoProgress {}) \<and> launched s = [0]"
  by (simp add: replay_eval eval_nat_numeral pause_events_def)

section \<open>Properties\<close>

text \<open>
  C20: A step is launched only when its dependencies allow it: in every state of every schedule,
  each launched step's \<open>depends_on\<close> steps are all completed or skipped, none of them failed, and
  if it has \<open>depends_on_any\<close> steps at least one of them is completed or skipped.
\<close>

theorem launch_respects_dependencies:
  assumes "schedulable def" "sched_reach def es ok s" "i \<in> set (launched s)"
  shows "set (depends_on (steps def ! i)) \<subseteq> completed (trk s) \<union> skipped (trk s) - failed (trk s)
    \<and> (depends_on_any (steps def ! i) = []
        \<or> set (depends_on_any (steps def ! i)) \<inter> (completed (trk s) \<union> skipped (trk s)) \<noteq> {})"
proof -
  have safe: "safe_inv def s" using safe_reach [OF assms(1,2)] .
  then have "deps_ok def (trk s) i" using assms(3) by (auto simp: safe_inv_def)
  moreover have "completed (trk s) \<inter> failed (trk s) = {}" "failed (trk s) \<inter> skipped (trk s) = {}"
    using safe by (auto simp: safe_inv_def tracker_ok_def)
  ultimately show ?thesis
    by (auto simp: deps_ok_def are_dependencies_satisfied_def is_any_dependency_satisfied_def
        list_all_iff list_ex_iff)
qed

text \<open>
  C21: While no step is stopped by a pause, every step is launched at most once, and the
  completion channel, whose capacity is the number of steps, never holds more messages than that.
  A step that a pause stops is neither done nor failed (\<^verbatim>\<open>engine.rs:945\<close>): it leaves the running steps for
  no other set, so the driver may launch it again while it winds down, through another of its
  \<open>depends_on_any\<close> steps. Such schedules are excluded.
\<close>

theorem launched_at_most_once:
  assumes "schedulable def" "sched_reach def es not_paused s"
  shows "distinct (launched s) \<and> length (chan s) \<le> length (steps def)"
proof -
  have once: "once_inv def s" using once_reach [OF assms] .
  have "set (launched s) \<subseteq> {..<length (steps def)}"
    using safe_reach [OF assms] by (auto simp: safe_inv_def)
  then have "length (launched s) \<le> length (steps def)"
    using once distinct_card [of "launched s"] card_mono [of "{..<length (steps def)}" "set (launched s)"]
    by (simp add: once_inv_def)
  with once show ?thesis by (simp add: once_inv_def)
qed

text \<open>
  C22: A step, other than a wait for an event, whose last journal entry is a step run with a result is not
  launched again when the run is recovered, whether that result is a success or a failure and
  however the rest is scheduled. A wait for an event is always launched again, and finds the delivered
  event in the journal itself.
\<close>

theorem journaled_step_not_rerun:
  assumes "schedulable def" "sched_reach def es ok s" "i < length (steps def)"
    and "find (concerns (sd_id (steps def ! i))) (rev es) = Some (JStepRun j a (Some r))"
    and "\<forall>n t. mode (steps def ! i) \<noteq> WaitEvent n t"
  shows "i \<notin> set (launched s)"
proof -
  obtain t pend where m: "memoize def es (steps def) (new_tracker, initial_step_indices def) = (t, pend)"
    by fastforce
  from memoize_done(2) [OF m _ assms(4,5)] assms(3) have "sd_id (steps def ! i) \<in> done_ids t" by simp
  then have "sd_id (steps def ! i) \<in> done_ids (trk (init_sched def es))"
    by (simp add: init_sched_def m)
  with keeps_settled_reach [OF assms(1,2)] show ?thesis by (auto simp: keeps_settled_def)
qed

text \<open>
  How the driver loop ends, while no step is stopped by a pause: it is stopped from outside,
  or every step is completed, failed or skipped and nothing runs any more, or it gives up for lack
  of progress - and then a step has failed, so a deadlock is never reported of a workflow that
  could go on.
\<close>

lemma driver_end_justified:
  assumes "schedulable def" "sched_reach def es not_paused s" "ctrl_at s = Ended e"
  shows "case e of
      Stopped \<Rightarrow> True
    | AllProcessed F \<Rightarrow> done_ids (trk s) = sd_id ` set (steps def) \<and> running (trk s) = {} \<and> F = failed (trk s)
    | NoProgress F \<Rightarrow> F \<noteq> {} \<and> running (trk s) = {} \<and> F = failed (trk s)"
  using end_reach [OF assms(1,2)] assms(3) by (cases e) (simp_all add: end_ok_def)

text \<open>
  C23: The driver never blocks for ever: in every reachable state it has ended, or it can take a
  step, or a spawned task can finish; in particular it waits on the completion channel only while
  a message is queued or a task is running.
\<close>

theorem driver_never_stuck:
  assumes "schedulable def" "sched_reach def es ok s" "ok out"
  shows "(\<exists>e. ctrl_at s = Ended e) \<or> (\<exists>s'. sched_step def ok s s')"
proof (cases "driver_step def 0 0 s")
  case (Some s')
  then show ?thesis by (blast intro: sched_step.drive)
next
  case None
  show ?thesis
  proof (cases "ctrl_at s")
    case AtRecv
    with None counts_reach [OF assms(1,2)] obtain idx where "idx \<in> set (active s)"
      by (cases "active s") (auto simp: driver_step_def counts_ok_def split: list.splits)
    with assms(3) show ?thesis by (blast intro: sched_step.finish)
  next
    case (AtSpawn ts)
    with None show ?thesis by (cases ts) (simp_all add: driver_step_def)
  qed (use None in \<open>auto simp: driver_step_def Let_def split: prod.splits if_splits\<close>)
qed

text \<open>
  A failure does not cascade: when a step fails, a step that depends on it is skipped, but a
  skipped step counts as satisfied, so a step that depends only on the skipped one is launched.
\<close>

lemma skipped_step_satisfies_dependents:
  "\<exists>s. sched_reach chain3 [] not_paused s \<and> ''a'' \<in> failed (trk s) \<and> ''b'' \<in> skipped (trk s)
     \<and> depends_on (steps chain3 ! 2) = [''b''] \<and> 2 \<in> set (launched s)"
proof -
  obtain s where s: "replay chain3 fail_events (init_sched chain3 []) = Some s"
    "failed (trk s) = {''a''}" "skipped (trk s) = {''b''}" "launched s = [0, 2]"
    using replay_chain3_fail by blast
  have "sched_reach chain3 [] not_paused s"
    by (rule replay_reach [OF sched_reach.init s(1)]) (auto simp: not_paused_def fail_events_def)
  moreover have "''a'' \<in> failed (trk s)" "''b'' \<in> skipped (trk s)" "2 \<in> set (launched s)"
    using s(2-4) by simp_all
  moreover have "depends_on (steps chain3 ! 2) = [''b'']" by simp
  ultimately show ?thesis by blast
qed

text \<open>
  A step stopped by a pause is forgotten if the driver does not see the pause at its next
  check: the loop then gives up as deadlocked although no step failed and the stopped step, and
  those after it, were never finished.
\<close>

lemma unseen_pause_deadlocks:
  "\<exists>s. sched_reach chain3 [] (\<lambda>_. True) s \<and> ctrl_at s = Ended (NoProgress {}) \<and> launched s = [0]"
proof -
  obtain s where s: "replay chain3 pause_events (init_sched chain3 []) = Some s"
    "ctrl_at s = Ended (NoProgress {})" "launched s = [0]"
    using replay_chain3_pause by blast
  have "sched_reach chain3 [] (\<lambda>_. True) s"
    by (rule replay_reach [OF sched_reach.init s(1)]) simp
  with s show ?thesis by blast
qed

section \<open>Witnesses\<close>

definition ok_events :: "sched_event list" where
  "ok_events = replicate 9 (Drive 0) @ Finish 0 (TResult (Inr RSuccess)) # replicate 7 (Drive 0)"

lemma chain3_second_launched:
  "\<exists>s. sched_reach chain3 [] not_paused s \<and> launched s = [0, 1] \<and> completed (trk s) = {''a''}"
proof -
  have "\<exists>s. replay chain3 ok_events (init_sched chain3 []) = Some s \<and> launched s = [0, 1]
      \<and> completed (trk s) = {''a''}"
    by (simp add: replay_eval eval_nat_numeral ok_events_def)
  then obtain s where s: "replay chain3 ok_events (init_sched chain3 []) = Some s" "launched s = [0, 1]"
    "completed (trk s) = {''a''}" by blast
  have "sched_reach chain3 [] not_paused s"
    by (rule replay_reach [OF sched_reach.init s(1)]) (auto simp: not_paused_def ok_events_def)
  with s show ?thesis by blast
qed

theorem launch_respects_dependencies_witness:
  "\<exists>s. sched_reach chain3 [] not_paused s \<and> 1 \<in> set (launched s)
     \<and> set (depends_on (steps chain3 ! 1)) \<subseteq> completed (trk s) \<union> skipped (trk s)"
proof -
  obtain s where s: "sched_reach chain3 [] not_paused s" "launched s = [0, 1]"
    using chain3_second_launched by blast
  with launch_respects_dependencies [OF chain3_schedulable s(1), of 1] show ?thesis by auto
qed

theorem launched_at_most_once_witness:
  "\<exists>s. sched_reach chain3 [] not_paused s \<and> launched s = [0, 1] \<and> distinct (launched s)
     \<and> length (chan s) \<le> 3"
proof -
  obtain s where s: "sched_reach chain3 [] not_paused s" "launched s = [0, 1]"
    using chain3_second_launched by blast
  with launched_at_most_once [OF chain3_schedulable s(1)] show ?thesis by auto
qed

theorem journaled_step_not_rerun_witness:
  "0 \<notin> set (launched (init_sched chain3 [JStepRun ''a'' 1 (Some (ESuccess []))]))"
proof -
  have "sched_reach chain3 [JStepRun ''a'' 1 (Some (ESuccess []))] not_paused
      (init_sched chain3 [JStepRun ''a'' 1 (Some (ESuccess []))])"
    by (rule sched_reach.init)
  from journaled_step_not_rerun [OF chain3_schedulable this, of 0 "''a''" 1 "ESuccess []"] show ?thesis
    by (simp add: new_step_def concerns_def)
qed

lemma driver_end_justified_example:
  "\<exists>s. sched_reach chain3 [] not_paused s \<and> ctrl_at s = Ended Stopped"
proof -
  have "sched_step chain3 not_paused (init_sched chain3 []) ((init_sched chain3 [])\<lparr>ctrl_at := Ended Stopped\<rparr>)"
    by (rule sched_step.stop) (simp add: init_sched_def split: prod.split)
  then have r: "sched_reach chain3 [] not_paused ((init_sched chain3 [])\<lparr>ctrl_at := Ended Stopped\<rparr>)"
    by (blast intro: sched_reach.intros)
  from driver_end_justified [OF chain3_schedulable r] r show ?thesis by auto
qed

theorem driver_never_stuck_witness:
  "\<exists>s'. sched_step chain3 not_paused (init_sched chain3 []) s'"
proof -
  have "not_paused TSkip" by (simp add: not_paused_def)
  moreover have "ctrl_at (init_sched chain3 []) = AtTop" by (simp add: init_sched_def split: prod.split)
  ultimately show ?thesis
    using driver_never_stuck [OF chain3_schedulable sched_reach.init, of not_paused TSkip "[]"] by simp
qed

end
