(* ===== verification/Wf_Takeover.thy ===== *)
theory Wf_Takeover
  imports Wf_Engine
begin

text \<open>
  Executor leases implement the lease contract: several engines, each with its own identity,
  share one store, and a run whose lease is fresh and whose holder is alive is not resumed by
  anybody else. What a resume does, and that a cancellation is announced once.
\<close>

section \<open>The effect of the operations on one run\<close>

lemma w_update_store:
  "world_store (fst (w_update i f now w)) = fst (store_update i f now (world_store w))"
  "eng (fst (w_update i f now w)) = eng w"
  "snd (w_update i f now w) = snd (store_update i f now (world_store w))"
  by (simp_all add: w_update_def split: prod.split)

lemma w_update_loaded:
  "load (world_store w) i = Inr s \<Longrightarrow> w_update i f now w =
     (w\<lparr>world_store := (world_store w)\<lparr>states :=
        AList.update i (touch now (fst (f s))) (states (world_store w))\<rparr>\<rparr>, Inr (snd (f s)))"
  by (simp add: w_update_def store_update_loaded)

lemma w_update_absent:
  "load (world_store w) i = Inl e \<Longrightarrow> w_update i f now w = (w, Inl e)"
  by (simp add: w_update_def mem.update_absent)

lemma load_states_update [simp]:
  "load (m\<lparr>states := AList.update i s (states m)\<rparr>) j = (if j = i then Inr s else load m j)"
  by (simp add: load_def)

lemma is_fresh_mono: "is_fresh l t ttl \<Longrightarrow> ttl \<le> ttl' \<Longrightarrow> is_fresh l t ttl'"
  by (auto simp: is_fresh_def)

lemma engine_sels [simp]:
  "executor_id (drop_driving i e) = executor_id e" "lease_ttl (drop_driving i e) = lease_ttl e"
  by (simp_all add: drop_driving_def)

lemma claim_driving_Some:
  "claim_driving i e = Some e' \<longleftrightarrow>
     i \<notin> driving e \<and> e' = e\<lparr>driving := insert i (driving e), superseded := superseded e - {i}\<rparr>"
  by (auto simp: claim_driving_def)

lemma held_engine_upd [simp]:
  "held_by_live_executor h (e\<lparr>driving := D, superseded := S\<rparr>) now s = held_by_live_executor h e now s"
  "new_lease (e\<lparr>driving := D, superseded := S\<rparr>) now = new_lease e now"
  "is_leased_elsewhere (e\<lparr>driving := D, superseded := S\<rparr>) now s = is_leased_elsewhere e now s"
  "resume_closure h (e\<lparr>driving := D, superseded := S\<rparr>) = resume_closure h e"
  by (simp_all add: fun_eq_iff held_by_live_executor_def is_leased_elsewhere_def lease_holder_is_dead_def
      new_lease_def resume_closure_def split: option.split)

text \<open>\<open>resume_run\<close> on a run it finds, by cases.\<close>

lemma resume_run_taken:
  assumes "load (world_store w) i = Inr s" "st_run_id s = i" "\<not> is_terminal (status s)"
    and "definitions (eng w) (st_workflow_id s) = Some def" "\<not> held_by_live_executor h (eng w) now s"
    and "compatible h def (run_identity h def (ctx_data (st_context s))) s" "i \<notin> driving (eng w)"
  shows "resume_run h i now w =
    (w\<lparr>eng := (eng w)\<lparr>driving := insert i (driving (eng w)), superseded := superseded (eng w) - {i},
         active_workflows := active_workflows (eng w) + 1\<rparr>,
       world_store := (world_store w)\<lparr>states := AList.update i
         (touch now (s\<lparr>status := WRunning, lease := Some (new_lease (eng w) now)\<rparr>))
         (states (world_store w))\<rparr>\<rparr>, Inr True)"
proof -
  have st: "status s \<notin> {WCompleted, WFailed, WCancelled}" using assms(3) by auto
  have ld: "load (world_store (w\<lparr>eng := e\<rparr>)) i = Inr s" for e using assms(1) by simp
  show ?thesis
    using assms st
    by (simp add: resume_run_def try_resume_def Let_def claim_driving_def w_update_loaded [OF ld]
        resume_closure_def)
qed

lemma try_resume_store:
  obtains (none) "world_store (fst (try_resume h s def now w)) = world_store w"
      "snd (try_resume h s def now w) \<noteq> Inr True"
    | (wrote) ex where "world_store (fst (try_resume h s def now w)) =
          fst (store_update (st_run_id s) (resume_closure h (eng w) def ex now) now (world_store w))"
        "snd (try_resume h s def now w) = Inr True \<longleftrightarrow>
          snd (store_update (st_run_id s) (resume_closure h (eng w) def ex now) now (world_store w)) = Inr Taken"
proof (cases "claim_driving (st_run_id s) (eng w)")
  case None
  with none show thesis by (auto simp: try_resume_def Let_def)
next
  case (Some e)
  let ?ex = "run_identity h def (ctx_data (st_context s))"
  let ?u = "w_update (st_run_id s) (resume_closure h e def ?ex now) now (w\<lparr>eng := e\<rparr>)"
  have u: "?u = ((w\<lparr>eng := e\<rparr>)\<lparr>world_store := fst (store_update (st_run_id s)
      (resume_closure h (eng w) def ?ex now) now (world_store w))\<rparr>,
      snd (store_update (st_run_id s) (resume_closure h (eng w) def ?ex now) now (world_store w)))"
    using Some by (simp add: w_update_def claim_driving_Some split: prod.split)
  show thesis
  proof (cases "held_by_live_executor h (eng w) now s \<or> \<not> compatible h def ?ex s")
    case True
    with none show thesis by (auto simp: try_resume_def Let_def)
  next
    case False
    with Some u wrote [of ?ex] show thesis
      by (auto simp: try_resume_def Let_def split: sum.splits take_over.splits)
  qed
qed

lemma resume_run_store:
  obtains (none) "world_store (fst (resume_run h i now w)) = world_store w"
      "snd (resume_run h i now w) \<noteq> Inr True"
    | (wrote) s def ex where "load (world_store w) i = Inr s"
        "world_store (fst (resume_run h i now w)) =
          fst (store_update (st_run_id s) (resume_closure h (eng w) def ex now) now (world_store w))"
        "snd (resume_run h i now w) = Inr True \<longleftrightarrow>
          snd (store_update (st_run_id s) (resume_closure h (eng w) def ex now) now (world_store w)) = Inr Taken"
proof (cases "load (world_store w) i")
  case (Inl e)
  with none show thesis by (simp add: resume_run_def)
next
  case s: (Inr s)
  show thesis
  proof (cases "status s \<in> {WCompleted, WFailed, WCancelled} \<or> definitions (eng w) (st_workflow_id s) = None")
    case True
    with s none show thesis by (auto simp: resume_run_def)
  next
    case False
    then obtain def where r: "resume_run h i now w = try_resume h s def now w"
      using s by (auto simp: resume_run_def)
    show thesis
      by (cases rule: try_resume_store [of h s def now w]) (use r s none wrote in auto)
  qed
qed

section \<open>The lease contract\<close>

datatype ('d, 'x) lease_op =
    LRenew "('d, 'x) engine" run_id
  | LRelease "('d, 'x) engine" run_id
  | LResume "'d host" "('d, 'x) engine" run_id
  | LPause "('d, 'x) engine" run_id
  | LCancel "('d, 'x) engine" run_id "string option"
  | LFail "('d, 'x) engine" run_id string
  | LComplete "('d, 'x) engine" run_id

fun op_engine :: "('d, 'x) lease_op \<Rightarrow> ('d, 'x) engine" where
  "op_engine (LRenew e i) = e"
| "op_engine (LRelease e i) = e"
| "op_engine (LResume h e i) = e"
| "op_engine (LPause e i) = e"
| "op_engine (LCancel e i r) = e"
| "op_engine (LFail e i msg) = e"
| "op_engine (LComplete e i) = e"

definition lease_actor :: "('d, 'x) lease_op \<Rightarrow> string" where
  "lease_actor p = executor_id (op_engine p)"

fun lease_exec :: "('d, 'x) lease_op \<Rightarrow> time \<Rightarrow> 'd mem_store \<Rightarrow> 'd mem_store" where
  "lease_exec (LRenew e i) t m = world_store (fst (renew_lease_round i t \<lparr>eng = e, world_store = m\<rparr>))"
| "lease_exec (LRelease e i) t m = world_store (fst (release_lease i t \<lparr>eng = e, world_store = m\<rparr>))"
| "lease_exec (LResume h e i) t m = world_store (fst (resume_run h i t \<lparr>eng = e, world_store = m\<rparr>))"
| "lease_exec (LPause e i) t m = fst (store_update i pause_closure t m)"
| "lease_exec (LCancel e i r) t m = fst (store_update i (cancel_closure r) t m)"
| "lease_exec (LFail e i msg) t m = fst (store_update i (fail_closure e msg t) t m)"
| "lease_exec (LComplete e i) t m = fst (store_update i (complete_closure e t) t m)"

text \<open>
  The probe of the process table is sound for the processes in \<open>alive\<close>, and the engine's time to
  live is not below the one the lease is judged by.
\<close>

fun probe_sound :: "(string \<Rightarrow> bool) \<Rightarrow> ('d, 'x) lease_op \<Rightarrow> bool" where
  "probe_sound alive (LResume h e i) = (\<forall>l. alive (lease_owner l) \<longrightarrow> \<not> lease_holder_is_dead h e l)"
| "probe_sound alive _ = True"

definition lease_admissible :: "(string \<Rightarrow> bool) \<Rightarrow> duration \<Rightarrow> ('d, 'x) lease_op \<Rightarrow> bool" where
  "lease_admissible alive ttl p \<longleftrightarrow> ttl \<le> lease_ttl (op_engine p) \<and> probe_sound alive p"

fun lease_granted :: "(string \<Rightarrow> bool) \<Rightarrow> ('d, 'x) lease_op \<Rightarrow> time \<Rightarrow> 'd mem_store \<Rightarrow> run_id \<Rightarrow> bool" where
  "lease_granted alive (LResume h e i) t m k \<longleftrightarrow>
     (case load m i of Inr s \<Rightarrow> st_run_id s = k | Inl _ \<Rightarrow> False) \<and> alive (executor_id e)
     \<and> snd (resume_run h i t \<lparr>eng = e, world_store = m\<rparr>) = Inr True"
| "lease_granted alive _ t m k \<longleftrightarrow> False"

definition run_lease :: "(string \<Rightarrow> bool) \<Rightarrow> duration \<Rightarrow> 'd mem_store \<Rightarrow> run_id \<Rightarrow> (string \<times> time) option" where
  "run_lease alive ttl m i =
     (case load m i of
        Inl _ \<Rightarrow> None
      | Inr s \<Rightarrow>
          (case lease s of
             None \<Rightarrow> None
           | Some l \<Rightarrow>
               if alive (lease_owner l)
               then Some (lease_owner l, renewed_at l + int (min ttl chrono_duration_max) - 1)
               else None))"

lemma run_lease_Some:
  "run_lease alive ttl m i = Some (h, x) \<longleftrightarrow>
     (\<exists>s l. load m i = Inr s \<and> lease s = Some l \<and> alive (lease_owner l) \<and> lease_owner l = h
        \<and> x = renewed_at l + int (min ttl chrono_duration_max) - 1)"
  by (auto simp: run_lease_def split: sum.splits option.splits)

lemma run_lease_keep:
  assumes "run_lease alive ttl m i = Some hx" "load m i = Inr s" "load m' i = Inr s'" "lease s' = lease s"
  shows "run_lease alive ttl m' i = Some hx"
  using assms by (simp add: run_lease_def)


text \<open>No closure of another engine touches the lease of a live holder while it is fresh.\<close>

lemma live_lease_elsewhere:
  "lease s = Some l \<Longrightarrow> is_fresh l t ttl \<Longrightarrow> ttl \<le> lease_ttl e \<Longrightarrow> executor_id e \<noteq> lease_owner l
     \<Longrightarrow> is_leased_elsewhere e t s"
  using is_fresh_mono by (auto simp: is_leased_elsewhere_def)

lemma live_lease_held:
  "lease s = Some l \<Longrightarrow> is_fresh l t ttl \<Longrightarrow> ttl \<le> lease_ttl e \<Longrightarrow> executor_id e \<noteq> lease_owner l
     \<Longrightarrow> \<not> lease_holder_is_dead h e l \<Longrightarrow> held_by_live_executor h e t s"
  by (simp add: held_by_live_executor_def live_lease_elsewhere)

lemma closures_keep_lease [simp]:
  "lease (fst (pause_closure s)) = lease s" "lease (fst (cancel_closure r s)) = lease s"
  "lease (fst (fail_closure e msg t s)) = lease s" "lease (fst (complete_closure e t s)) = lease s"
  by (simp_all add: pause_closure_def cancel_closure_def fail_closure_def complete_closure_def)

lemma fresh_at_expiry:
  "t \<le> renewed_at l + int (min ttl chrono_duration_max) - 1 \<longleftrightarrow> is_fresh l t ttl"
  by (auto simp: is_fresh_def)

lemma store_update_lease:
  assumes "load m k = Inr s" "i = k \<Longrightarrow> lease (fst (f s)) = lease s"
  shows "\<exists>s'. load (fst (store_update i f t m)) k = Inr s' \<and> lease s' = lease s"
proof (cases "i = k")
  case True
  with assms show ?thesis using mem.load_update [of m i s f t k] by simp
next
  case False
  with assms(1) mem.update_other [of k i f t m] show ?thesis by simp
qed

lemma lease_exec_keeps:
  assumes s: "load m k = Inr s" "lease s = Some l" "alive (lease_owner l)" "is_fresh l t ttl"
    and p: "lease_actor p \<noteq> lease_owner l" "lease_admissible alive ttl p"
  shows "\<exists>s'. load (lease_exec p t m) k = Inr s' \<and> lease s' = lease s"
proof (cases p)
  case (LRenew e i)
  with s p have "fst (renew_closure e t s) = s"
    using live_lease_elsewhere [of s l t ttl e]
    by (auto simp: renew_closure_def lease_actor_def lease_admissible_def)
  with LRenew s show ?thesis
    using store_update_lease [of m k s i "renew_closure e t" t]
    by (auto simp: renew_lease_round_def w_update_def split: prod.splits sum.splits option.splits
        workflow_error.splits)
next
  case (LRelease e i)
  with s p have "lease (release_closure e s) = lease s"
    by (auto simp: release_closure_def lease_actor_def)
  with LRelease s show ?thesis
    using store_update_lease [of m k s i "\<lambda>s. (release_closure e s, ())" t]
    by (simp add: release_lease_def w_write_def w_update_store)
next
  case (LResume h e i)
  with s p have held: "held_by_live_executor h e t s"
    by (intro live_lease_held) (auto simp: lease_actor_def lease_admissible_def)
  show ?thesis
  proof (cases rule: resume_run_store [of h i t "\<lparr>eng = e, world_store = m\<rparr>"])
    case none
    with LResume s show ?thesis by simp
  next
    case (wrote s0 def ex)
    have "lease (fst (resume_closure h e def ex t s)) = lease s"
      using held by (simp add: resume_closure_def)
    with wrote(2) LResume s show ?thesis
      using store_update_lease [of m k s "st_run_id s0" "resume_closure h e def ex t" t] by simp
  qed
qed (simp_all add: store_update_lease [OF s(1)])

lemma resume_grant:
  assumes "lease_granted alive p t m k"
  obtains h e i s def ex where "p = LResume h e i" "load m k = Inr s" "alive (executor_id e)"
    "\<not> held_by_live_executor h e t s"
    "lease_exec p t m = fst (store_update k (resume_closure h e def ex t) t m)"
    "fst (resume_closure h e def ex t s) = s\<lparr>status := WRunning, lease := Some (new_lease e t)\<rparr>"
proof -
  obtain h e i where p: "p = LResume h e i" using assms by (cases p) auto
  with assms obtain s0 where s0: "load m i = Inr s0" "st_run_id s0 = k" "alive (executor_id e)"
    "snd (resume_run h i t \<lparr>eng = e, world_store = m\<rparr>) = Inr True" by (auto split: sum.splits)
  show thesis
  proof (cases rule: resume_run_store [of h i t "\<lparr>eng = e, world_store = m\<rparr>"])
    case none
    with s0(4) show thesis by simp
  next
    case (wrote s1 def ex)
    with s0 have [simp]: "s1 = s0" by simp
    from wrote s0 have taken: "snd (store_update k (resume_closure h e def ex t) t m) = Inr Taken" by simp
    then obtain s where s: "load m k = Inr s"
      using mem.update_absent [of m k _ "resume_closure h e def ex t" t]
      by (cases "load m k") auto
    with taken have "snd (resume_closure h e def ex t s) = Taken"
      using mem.update_result [OF s, of "resume_closure h e def ex t" t] by simp
    then show thesis
      using wrote(2) s0 p s that [OF p s s0(3)]
      by (auto simp: resume_closure_def split: if_splits)
  qed
qed

lemma run_lease_live:
  assumes "run_lease alive ttl m k = Some (h, e)" "t \<le> e"
  obtains s l where "load m k = Inr s" "lease s = Some l" "alive (lease_owner l)" "lease_owner l = h"
    "is_fresh l t ttl"
proof -
  from assms(1) obtain s l where s: "load m k = Inr s" "lease s = Some l" "alive (lease_owner l)"
    "lease_owner l = h" and e: "e = renewed_at l + int (min ttl chrono_duration_max) - 1"
    unfolding run_lease_Some by blast
  from assms(2) e have "is_fresh l t ttl" by (simp only: fresh_at_expiry)
  with s that show thesis by blast
qed

interpretation wl: lease_protocol "lease_exec :: ('d, 'x) lease_op \<Rightarrow> _" lease_actor
  "lease_admissible alive ttl" "lease_granted alive" "run_lease alive ttl"
  for alive :: "string \<Rightarrow> bool" and ttl :: duration
proof
  fix s :: "'d mem_store" and k h e t and p :: "('d, 'x) lease_op"
  assume a: "run_lease alive ttl s k = Some (h, e)" "t \<le> e" "lease_actor p \<noteq> h"
    "lease_admissible alive ttl p"
  then obtain st l where st: "load s k = Inr st" "lease st = Some l" "alive (lease_owner l)"
    "lease_owner l = h" "is_fresh l t ttl"
    using run_lease_live by blast
  with a lease_exec_keeps [OF st(1,2), of alive t ttl p] obtain st' where
    "load (lease_exec p t s) k = Inr st'" "lease st' = lease st" by auto
  with a(1) st(1) show "run_lease alive ttl (lease_exec p t s) k = Some (h, e)"
    by (rule run_lease_keep)
next
  fix s :: "'d mem_store" and k h e t and p :: "('d, 'x) lease_op"
  assume g: "lease_granted alive p t s k" and a: "lease_admissible alive ttl p"
    and l: "run_lease alive ttl s k = Some (h, e)" "t \<le> e"
  from g obtain hs en i st where p: "p = LResume hs en i" "load s k = Inr st"
    "\<not> held_by_live_executor hs en t st" by (rule resume_grant) blast
  from l p(2) obtain x where "lease st = Some x" "alive (lease_owner x)" "lease_owner x = h"
    "is_fresh x t ttl"
    using run_lease_live [OF l] by (metis sum.inject(2))
  with a p live_lease_held [of st x t ttl en hs] show "lease_actor p = h"
    by (auto simp: lease_admissible_def lease_actor_def)
next
  fix s :: "'d mem_store" and k t and p :: "('d, 'x) lease_op"
  assume "lease_granted alive p t s k"
  then obtain hs en i st def ex where p: "p = LResume hs en i" "load s k = Inr st" "alive (executor_id en)"
    "lease_exec p t s = fst (store_update k (resume_closure hs en def ex t) t s)"
    "fst (resume_closure hs en def ex t st) = st\<lparr>status := WRunning, lease := Some (new_lease en t)\<rparr>"
    by (rule resume_grant)
  then show "\<exists>e. run_lease alive ttl (lease_exec p t s) k = Some (lease_actor p, e)"
    using mem.load_update [OF p(2), of "resume_closure hs en def ex t" t k]
    by (simp add: run_lease_def lease_actor_def new_lease_def)
qed


section \<open>Cancelling and evicting\<close>

lemma cancel_effect:
  "fst (cancel_workflow_impl rb i False reason now w) =
     (case load (world_store w) i of
        Inl _ \<Rightarrow> w
      | Inr s \<Rightarrow>
          (let w' = fst (w_update i (cancel_closure reason) now w) in
           if is_terminal (status s) then w'
           else fst (notify_terminal i WCancelled None (fst (publish (EvWorkflowCancelled i) w')))))"
proof (cases "load (world_store w) i")
  case (Inl e)
  then show ?thesis by (simp add: cancel_workflow_impl_def andThen_def w_update_absent)
next
  case (Inr s)
  then show ?thesis
    by (simp add: cancel_workflow_impl_def andThen_def w_update_loaded cancel_closure_def Let_def
        publish_def notify_terminal_def)
qed

definition cancel_all ::
  "(('d, 'x) workflow_definition \<Rightarrow> (('d, 'x) world, unit) act) \<Rightarrow> run_id \<Rightarrow> (string option \<times> time) list
     \<Rightarrow> ('d, 'x) world \<Rightarrow> ('d, 'x) world" where
  "cancel_all rb i rs w = foldl (\<lambda>w (reason, now). fst (cancel_workflow_impl rb i False reason now w)) w rs"

definition unsettled :: "('d, 'x) world \<Rightarrow> run_id \<Rightarrow> bool" where
  "unsettled w i \<longleftrightarrow> (case load (world_store w) i of Inl _ \<Rightarrow> False | Inr s \<Rightarrow> \<not> is_terminal (status s))"

lemma cancel_step:
  "\<not> unsettled (fst (cancel_workflow_impl rb i False reason now w)) i"
  "published (eng (fst (cancel_workflow_impl rb i False reason now w))) =
     published (eng w) @ (if unsettled w i then [EvWorkflowCancelled i] else [])"
  by (auto simp: cancel_effect unsettled_def w_update_loaded cancel_closure_def publish_def
      notify_terminal_def Let_def split: sum.splits)

lemma cancel_all_settled:
  "\<not> unsettled w i \<Longrightarrow> published (eng (cancel_all rb i rs w)) = published (eng w)"
proof (induction rs arbitrary: w)
  case (Cons r rs)
  obtain reason now where [simp]: "r = (reason, now)" by (cases r)
  have "published (eng (cancel_all rb i rs (fst (cancel_workflow_impl rb i False reason now w))))
      = published (eng (fst (cancel_workflow_impl rb i False reason now w)))"
    by (rule Cons.IH [OF cancel_step(1)])
  with Cons.prems show ?case by (simp add: cancel_all_def cancel_step(2))
qed (simp add: cancel_all_def)

lemma states_delete_run: "states (delete_run i m) = filter (\<lambda>(k, _). k \<noteq> i) (states m)"
  by (auto simp: delete_run_def AList.delete_eq intro: filter_cong)

lemma delete_all_states:
  "states (foldl (\<lambda>m (i, _). delete_run i m) m xs) = filter (\<lambda>(i, _). i \<notin> fst ` set xs) (states m)"
proof (induction xs arbitrary: m)
  case (Cons x xs)
  obtain i t where [simp]: "x = (i, t)" by (cases x)
  have "states (foldl (\<lambda>m (i, _). delete_run i m) m (x # xs)) =
      filter (\<lambda>(i, _). i \<notin> fst ` set xs) (filter (\<lambda>(k, _). k \<noteq> i) (states m))"
    using Cons.IH [of "delete_run i m"] by (simp add: states_delete_run)
  then show ?case by (auto simp: intro: filter_cong)
qed (simp add: case_prod_beta)

lemma in_set_update: "(a, b) \<in> set (AList.update k v xs) \<Longrightarrow> a = k \<and> b = v \<or> (a, b) \<in> set xs"
  by (induction xs) (auto split: if_splits)

definition rows_keyed :: "'d mem_store \<Rightarrow> bool" where
  "rows_keyed m \<longleftrightarrow> list_all (\<lambda>(i, s). st_run_id s = i) (states m)"

lemma rows_keyed_load: "rows_keyed m \<Longrightarrow> load m i = Inr s \<Longrightarrow> st_run_id s = i"
  by (auto simp: rows_keyed_def list_all_iff load_Inr dest!: map_of_SomeD)

lemma rows_keyed_ops:
  assumes "rows_keyed m"
  shows "rows_keyed (save st m)"
    "(\<And>s. st_run_id (fst (f s)) = st_run_id s) \<Longrightarrow> rows_keyed (fst (store_update i f now m))"
    "rows_keyed (delete_run i m)" "rows_keyed (fst (append_journal j e m))"
  using assms
  by (auto simp: rows_keyed_def save_def store_update_def states_delete_run append_journal_def
      list_all_iff Let_def split: option.split prod.split dest!: in_set_update map_of_SomeD)
    (metis case_prodD fst_conv)+

section \<open>Properties\<close>

text \<open>
  C19: A run is not taken from a live executor with a fresh lease. While the holder of a run's lease is
  alive and the lease is fresh, then whatever other engines do (renewals, releases, resumes, pauses,
  cancellations, settling), a resume by another engine does not succeed. A lease that its holder has
  let go stale, alive or not, is taken over by design.
\<close>

theorem live_executor_keeps_run:
  assumes "load m i = Inr s" "lease s = Some l" "alive (lease_owner l)"
    and "\<forall>(t, p)\<in>set ps. is_fresh l t ttl \<and> lease_actor p \<noteq> lease_owner l \<and> lease_admissible alive ttl p"
    and "is_fresh l u ttl" "executor_id e \<noteq> lease_owner l" "lease_admissible alive ttl (LResume h e i)"
  shows "snd (resume_run h i u \<lparr>eng = e, world_store = foldl (\<lambda>m (t, p). lease_exec p t m) m ps\<rparr>) \<noteq> Inr True"
proof -
  let ?m = "foldl (\<lambda>m (t, p). lease_exec p t m) m ps"
  let ?x = "renewed_at l + int (min ttl chrono_duration_max) - 1"
  have "run_lease alive ttl m i = Some (lease_owner l, ?x)" using assms(1-3) by (simp add: run_lease_def)
  then have "run_lease alive ttl ?m i = Some (lease_owner l, ?x)"
    by (rule wl.history_keeps) (use assms(4) in \<open>auto simp: fresh_at_expiry [symmetric]\<close>)
  then obtain s' l' where s': "load ?m i = Inr s'" "lease s' = Some l'" "alive (lease_owner l')"
    "lease_owner l' = lease_owner l" "is_fresh l' u ttl"
    using run_lease_live [of alive ttl ?m i "lease_owner l" ?x u] assms(5)
    unfolding fresh_at_expiry by metis
  then have "held_by_live_executor h e u s'"
    using assms(6,7) by (intro live_lease_held [of s' l']) (auto simp: lease_admissible_def)
  with s'(1) show ?thesis
    by (auto simp: resume_run_def try_resume_def Let_def split: option.split)
qed

text \<open>
  \<open>resume_run\<close> takes a run over exactly when it has not settled, its definition is registered
  and compatible with what the run was started with, no other live executor holds it and this
  engine is not already driving it; then the run is running under this engine's fresh lease and
  the engine drives it. In every other case the stored status and lease stay as they were.
\<close>

lemma resume_run_takes_over:
  assumes "load (world_store w) i = Inr s" "st_run_id s = i"
  shows "case resume_run h i now w of (w', r) \<Rightarrow> \<exists>s'. load (world_store w') i = Inr s' \<and>
    (if \<not> is_terminal (status s) \<and> \<not> held_by_live_executor h (eng w) now s \<and> i \<notin> driving (eng w)
        \<and> (case definitions (eng w) (st_workflow_id s) of None \<Rightarrow> False
            | Some def \<Rightarrow> compatible h def (run_identity h def (ctx_data (st_context s))) s)
     then r = Inr True \<and> status s' = WRunning \<and> lease s' = Some (new_lease (eng w) now)
        \<and> i \<in> driving (eng w')
     else r \<noteq> Inr True \<and> status s' = status s \<and> lease s' = lease s)"
proof (cases "\<not> is_terminal (status s) \<and> \<not> held_by_live_executor h (eng w) now s \<and> i \<notin> driving (eng w)
        \<and> (case definitions (eng w) (st_workflow_id s) of None \<Rightarrow> False
            | Some def \<Rightarrow> compatible h def (run_identity h def (ctx_data (st_context s))) s)")
  case True
  then obtain def where "definitions (eng w) (st_workflow_id s) = Some def"
    "compatible h def (run_identity h def (ctx_data (st_context s))) s" by (auto split: option.splits)
  with True resume_run_taken [OF assms, of def h now] show ?thesis by simp
next
  case False
  then have "fst (resume_run h i now w) = w \<and> snd (resume_run h i now w) \<noteq> Inr True"
    using assms by (cases "status s")
      (auto simp: resume_run_def try_resume_def Let_def claim_driving_def split: option.splits)
  with assms False show ?thesis by (auto simp: case_prod_beta)
qed

text \<open>
  A cancellation is announced once: over any sequence of \<open>cancel_workflow\<close> calls the engine
  publishes one \<open>WorkflowCancelled\<close> event if the run exists and had not settled, and none if it
  had settled or does not exist.
\<close>

lemma cancel_announced_once:
  "published (eng (cancel_all rb i rs w)) =
     published (eng w) @ (if rs \<noteq> [] \<and> unsettled w i then [EvWorkflowCancelled i] else [])"
proof (cases rs)
  case (Cons r rs')
  obtain reason now where "r = (reason, now)" by (cases r)
  with Cons have "cancel_all rb i rs w =
      cancel_all rb i rs' (fst (cancel_workflow_impl rb i False reason now w))"
    by (simp add: cancel_all_def)
  with Cons show ?thesis by (simp add: cancel_all_settled [OF cancel_step(1)] cancel_step(2))
qed (simp add: cancel_all_def)

text \<open>
  Eviction only removes settled runs: a run that is pending, running, waiting, paused or
  cancelled is still in the store afterwards, unchanged.
\<close>

lemma evict_keeps_unsettled:
  assumes "rows_keyed m" "load m i = Inr s" "status s \<noteq> WCompleted" "status s \<noteq> WFailed"
    and "store_wf m"
  shows "load (evict_old_runs m) i = Inr s"
proof -
  have "i \<notin> fst ` set (evictable m)"
  proof
    assume "i \<in> fst ` set (evictable m)"
    then obtain j t where t: "(j, t) \<in> set (states m)" "st_run_id t = i" "status t \<in> {WCompleted, WFailed}"
      by (auto simp: evictable_def list_all_runs_def)
    with assms(1) have "(i, t) \<in> set (states m)" by (auto simp: rows_keyed_def list_all_iff)
    with assms(2,5) have "t = s" by (auto simp: load_Inr store_wf_def)
    with t assms show False by auto
  qed
  then have "i \<notin> fst ` set (take n (evictable m))" for n using set_take_subset by fastforce
  with assms(2,5) show ?thesis
    by (auto simp: evict_old_runs_def Let_def load_Inr delete_all_states store_wf_def map_of_filter_in)
qed


text \<open>A small world: one host, two engines, a run of the other engine.\<close>

definition demo_host :: "unit host" where
  "demo_host = \<lparr>data_budget = (\<lambda>_. None), pid_exists = (\<lambda>_. True), ts_ok = (\<lambda>_. True),
     identity_json = (\<lambda>_ _. []), input_json = (\<lambda>i _. i), ctx_json = (\<lambda>c. Inr (ctx_output c)),
     ctx_parse = (\<lambda>_. None)\<rparr>"

definition demo_engine :: "(unit, nat) engine" where
  "demo_engine = (with_store ''h:2:b'')\<lparr>definitions := [''wf'' \<mapsto> new_definition ''wf'' ''wf'']\<rparr>"

definition demo_run :: "unit workflow_state" where
  "demo_run = (new_state 1 ''wf'' () 0)\<lparr>status := WRunning,
     lease := Some \<lparr>lease_owner = ''h:1:a'', renewed_at = 0\<rparr>\<rparr>"

lemma demo_run_sel [simp]:
  "lease demo_run = Some \<lparr>lease_owner = ''h:1:a'', renewed_at = 0\<rparr>" "status demo_run = WRunning"
  "st_run_id demo_run = 1" "st_workflow_id demo_run = ''wf''" "resume_identity demo_run = None"
  "st_budget demo_run = None"
  by (simp_all add: demo_run_def new_state_def)

lemma demo_engine_sel [simp]:
  "executor_id demo_engine = ''h:2:b''" "lease_ttl demo_engine = 60000000000" "driving demo_engine = {}"
  "definitions demo_engine ''wf'' = Some (new_definition ''wf'' ''wf'')"
  by (simp_all add: demo_engine_def with_store_def nanos_per_sec_def)

lemma demo_host_sel [simp]: "pid_exists demo_host n" "data_budget demo_host d = None"
  by (simp_all add: demo_host_def)

lemma demo_never_dead: "\<not> lease_holder_is_dead demo_host e l"
  by (auto simp: lease_holder_is_dead_def split: option.split prod.split)

theorem live_executor_keeps_run_witness:
  "snd (resume_run demo_host 1 8 \<lparr>eng = demo_engine, world_store =
     foldl (\<lambda>m (t, p). lease_exec p t m) (save demo_run new_store)
       [(5, LPause demo_engine 1), (7, LRelease demo_engine 1)]\<rparr>) \<noteq> Inr True"
  by (rule live_executor_keeps_run [where s = "detach demo_run" and alive = "\<lambda>_. True" and ttl = 60000000000
        and l = "\<lparr>lease_owner = ''h:1:a'', renewed_at = 0\<rparr>"])
    (auto simp: mem.load_save lease_actor_def lease_admissible_def is_fresh_def chrono_duration_max_def
      demo_never_dead)

lemma resume_run_takes_over_example:
  "snd (resume_run demo_host 1 60000000000 \<lparr>eng = demo_engine, world_store = save demo_run new_store\<rparr>) = Inr True"
  using resume_run_takes_over [where h = demo_host and i = 1 and now = 60000000000 and s = "detach demo_run"
      and w = "\<lparr>eng = demo_engine, world_store = save demo_run new_store\<rparr>"]
  by (auto simp: mem.load_save held_by_live_executor_def is_leased_elsewhere_def is_fresh_def
      compatible_def run_identity_def run_limits_def new_definition_def split: prod.splits if_splits)

lemma evict_keeps_unsettled_example:
  "load (evict_old_runs (save demo_run new_store)) 1 = Inr (detach demo_run)"
  by (rule evict_keeps_unsettled)
    (auto simp: load_def rows_keyed_def save_def new_store_def store_wf_def)

end
