(* ===== verification/Wf_Exec.thy ===== *)
theory Wf_Exec
  imports Wf_Scheduler Wf_Takeover
begin

text \<open>
  The execution of one step with retries: \<open>execute_step_with_retry\<close> and
  \<open>execute_with_budget_deadline\<close> (\<^verbatim>\<open>crates/flare-workflow/src/engine_execution.rs\<close>). A step executor
  is supplied by the caller of the engine; while it runs, and while a task sleeps, every other task
  and every other process may act, so both are functions of the environment that return the
  world as it is afterwards.
\<close>

section \<open>The environment of a step task\<close>

datatype exec_outcome = XDone step_result | XError workflow_error | XTimeout

text \<open>
  The executor with its hooks (trait \<^verbatim>\<open>StepExecutor\<close>, \<^verbatim>\<open>executor.rs\<close>); \<open>x_begin\<close> and \<open>x_end\<close> are the
  clock at the beginning and at the end of an attempt, \<open>x_draw\<close> the random numbers of the jitter, and
  the two \<open>show\<close> fields the texts the standard library and \<^verbatim>\<open>uuid\<close> print. The attempts of a loop
  step are numbered by the iteration and the attempt, those of other steps by 0 and the attempt.
\<close>

record ('d, 'x) exec_env =
  x_execute :: "'x \<Rightarrow> duration \<Rightarrow> 'd workflow_context \<Rightarrow> ('d, 'x) world
     \<Rightarrow> ('d, 'x) world \<times> 'd workflow_context \<times> exec_outcome"
  x_retryable :: "'x \<Rightarrow> workflow_error \<Rightarrow> bool"
  x_on_success :: "'x \<Rightarrow> 'd workflow_context \<Rightarrow> ('d, 'x) world \<Rightarrow> ('d, 'x) world"
  x_on_failure :: "'x \<Rightarrow> 'd workflow_context \<Rightarrow> workflow_error \<Rightarrow> ('d, 'x) world \<Rightarrow> ('d, 'x) world"
  x_sleep :: "duration \<Rightarrow> ('d, 'x) world \<Rightarrow> ('d, 'x) world"
  x_begin :: "nat \<Rightarrow> nat \<Rightarrow> time"
  x_end :: "nat \<Rightarrow> nat \<Rightarrow> time"
  x_draw :: "nat \<Rightarrow> nat \<Rightarrow> f64"
  show_duration :: "duration \<Rightarrow> string"
  show_run :: "run_id \<Rightarrow> string"

text \<open>The texts of \<open>WorkflowError\<close> (\<^verbatim>\<open>types.rs\<close>).\<close>

definition status_name :: "workflow_status \<Rightarrow> string" where
  "status_name st =
     (case st of WPending \<Rightarrow> ''Pending'' | WRunning \<Rightarrow> ''Running'' | WWaiting \<Rightarrow> ''Waiting''
      | WPaused \<Rightarrow> ''Paused'' | WCompleted \<Rightarrow> ''Completed'' | WFailed \<Rightarrow> ''Failed'' | WCancelled \<Rightarrow> ''Cancelled'')"

fun error_text :: "(run_id \<Rightarrow> string) \<Rightarrow> workflow_error \<Rightarrow> string" where
  "error_text sr (BudgetError m) = ''workflow budget: '' @ m"
| "error_text sr (NotFound i) = ''workflow run not found: '' @ sr i"
| "error_text sr (DefinitionNotFound i) = ''workflow definition not found: '' @ i"
| "error_text sr (ResumeIdentityMismatch i) = ''workflow run '' @ sr i @ '' has an incompatible or missing resume identity; restore the original definition or start a new run''"
| "error_text sr (StepFailed s m) = ''step failed: '' @ s @ '' - '' @ m"
| "error_text sr (StepTimeout s) = ''step timed out: '' @ s"
| "error_text sr (Cancelled i) = ''workflow cancelled: '' @ sr i"
| "error_text sr (Paused i) = ''workflow paused: '' @ sr i"
| "error_text sr (InvalidStateTransition a b) =
     ''invalid state transition: '' @ status_name a @ '' -> '' @ status_name b"
| "error_text sr ShuttingDown = ''engine is shutting down, not accepting new workflows''"
| "error_text sr (JournalError m) = ''journal error: '' @ m"
| "error_text sr (StoreError m) = ''storage error: '' @ m"

section \<open>One attempt\<close>

text \<open>The checks at a step boundary: cancelled, then paused or superseded.\<close>

definition step_boundary :: "run_id \<Rightarrow> (('d, 'x) world, unit) act" where
  "step_boundary i =
     andThen (lift_res (\<lambda>w. is_cancelled (world_store w) i)) (\<lambda>c.
       if c then fail (Cancelled i)
       else andThen (lift_res (should_stop i)) (\<lambda>p. if p then fail (Paused i) else ret ()))"

definition mark_started :: "step_id \<Rightarrow> nat \<Rightarrow> time \<Rightarrow> 'd workflow_state \<Rightarrow> 'd workflow_state" where
  "mark_started sid att now st =
     modify_step sid (\<lambda>ss. ss\<lparr>ss_status := (if att = 1 then SRunning else SRetrying),
         ss_attempt := att, ss_started_at := Some now\<rparr>)
       (st\<lparr>current_step := Some sid\<rparr>)"

definition step_meta ::
  "('d, 'x) workflow_definition \<Rightarrow> ('d, 'x) step_definition \<Rightarrow> nat \<Rightarrow> nat \<Rightarrow> duration \<Rightarrow> step_execution_meta" where
  "step_meta def s att max_att tmo =
     \<lparr>meta_workflow_id = wd_id def, meta_workflow_name = wd_name def, meta_step_id = sd_id s,
      meta_step_name = sd_name s, meta_attempt = att, meta_max_attempts = max_att, meta_timeout = tmo\<rparr>"

text \<open>\<open>state.budget.map(|b| b.cap_timeout(t)).transpose()?.unwrap_or(t)\<close>\<close>

definition budget_timeout :: "'d host \<Rightarrow> time \<Rightarrow> 'd workflow_state \<Rightarrow> duration \<Rightarrow> duration wf_result" where
  "budget_timeout h now st tmo =
     (case st_budget st of None \<Rightarrow> Inr tmo | Some b \<Rightarrow> cap_timeout (ts_ok h) now b tmo)"

definition budget_for :: "'d workflow_state \<Rightarrow> step_id \<Rightarrow> nat \<Rightarrow> budget_handle option" where
  "budget_for st sid att =
     map_option (\<lambda>_. \<lparr>bh_step_id = sid, bh_logical_attempt = att\<rparr>) (st_budget st)"

definition step_context ::
  "('d, 'x) engine \<Rightarrow> run_id \<Rightarrow> 'd workflow_state \<Rightarrow> step_execution_meta \<Rightarrow> budget_handle option \<Rightarrow> 'd workflow_context" where
  "step_context e i st meta bh =
     (st_context st)\<lparr>ctx_data := apply_data_patch e i (ctx_data (st_context st)), ctx_input := st_input st,
        ctx_variables := st_variables st, ctx_step := meta, ctx_budget := bh\<rparr>"

text \<open>The context a step hands back; a patch registered meanwhile is applied again.\<close>

definition write_back :: "('d, 'x) engine \<Rightarrow> run_id \<Rightarrow> 'd workflow_context \<Rightarrow> 'd workflow_state \<Rightarrow> 'd workflow_state" where
  "write_back e i ctx st = st\<lparr>st_context := ctx\<lparr>ctx_data := apply_data_patch e i (ctx_data ctx)\<rparr>\<rparr>"

text \<open>\<open>as_millis() as u64\<close>\<close>

definition as_millis :: "int \<Rightarrow> nat" where
  "as_millis d = nat (d div 1000000) mod 2 ^ 64"

definition step_succeeded :: "'d workflow_context \<Rightarrow> time \<Rightarrow> nat \<Rightarrow> step_state \<Rightarrow> step_state" where
  "step_succeeded ctx now ms ss =
     ss\<lparr>ss_status := SSucceeded, ss_completed_at := Some now, ss_input_tokens := ctx_input_tokens ctx,
        ss_output_tokens := ctx_output_tokens ctx, ss_duration_ms := ms\<rparr>"

definition record_success ::
  "('d, 'x) step_definition \<Rightarrow> 'd workflow_context \<Rightarrow> time \<Rightarrow> nat \<Rightarrow> 'd workflow_state \<Rightarrow> 'd workflow_state" where
  "record_success s ctx now ms st =
     (let out = ctx_output ctx;
          st1 = st\<lparr>st_input := out, st_output := Some out\<rparr>;
          st2 = (case output_var s of
                   None \<Rightarrow> st1
                 | Some var \<Rightarrow>
                     let vars = capture_output (st_variables st1) (Some var) out
                     in st1\<lparr>st_variables := vars, st_context := (st_context st1)\<lparr>ctx_variables := vars\<rparr>\<rparr>)
      in modify_step (sd_id s) (step_succeeded ctx now ms) st2)"

definition record_failure ::
  "step_id \<Rightarrow> bool \<Rightarrow> string \<Rightarrow> time \<Rightarrow> 'd workflow_state \<Rightarrow> 'd workflow_state" where
  "record_failure sid will_retry msg now =
     modify_step sid (\<lambda>ss. ss\<lparr>ss_status := (if will_retry then SRetrying else SFailed),
       ss_last_error := Some msg,
       ss_completed_at := (if will_retry then ss_completed_at ss else Some now)\<rparr>)"

definition failure_reason ::
  "('d, 'x) exec_env \<Rightarrow> 'x \<Rightarrow> duration \<Rightarrow> exec_outcome \<Rightarrow> string \<times> bool" where
  "failure_reason env x tmo out =
     (case out of
        XError e \<Rightarrow> (error_text (show_run env) e, x_retryable env x e)
      | XTimeout \<Rightarrow> (''Step timeout after '' @ show_duration env tmo, True)
      | XDone (RFailed msg) \<Rightarrow> (msg, False)
      | XDone _ \<Rightarrow> (''Step failed'', False))"

text \<open>How an attempt ends. A delay beyond the longest duration is a panic: the task is gone.\<close>

datatype attempt_end = Finished step_result | Again backoff_seq | Panicked

definition skips_failure :: "('d, 'x) step_definition \<Rightarrow> bool" where
  "skips_failure s \<longleftrightarrow> sd_error_mode s = ESkip \<or> on_failure s = ContinueNextStep"

definition schedule_retry ::
  "('d, 'x) exec_env \<Rightarrow> run_id \<Rightarrow> ('d, 'x) step_definition \<Rightarrow> nat \<Rightarrow> backoff_seq \<Rightarrow> (('d, 'x) world, attempt_end) act" where
  "schedule_retry env i s att b w =
     (case backoff_next b (jitter (eng w)) (x_draw env 0 att) of
        None \<Rightarrow> (w, Inr Panicked)
      | Some (b', wait) \<Rightarrow>
          andThen (publish (EvStepRetrying i (sd_id s) (att + 1) wait)) (\<lambda>_.
            andThen (modify (x_sleep env wait)) (\<lambda>_. ret (Again b'))) w)"

definition give_up ::
  "('d, 'x) exec_env \<Rightarrow> run_id \<Rightarrow> ('d, 'x) step_definition \<Rightarrow> nat \<Rightarrow> 'd workflow_context \<Rightarrow> string
     \<Rightarrow> (('d, 'x) world, attempt_end) act" where
  "give_up env i s att ctx msg =
     andThen (modify (x_on_failure env (executor s) ctx (StepFailed (sd_id s) msg))) (\<lambda>_.
       andThen (w_append i (JStepRun (sd_id s) att (Some (EFailure 1 msg [])))) (\<lambda>_.
         ret (Finished (if skips_failure s then RSkip else RFailure))))"

definition attempt_failed ::
  "('d, 'x) exec_env \<Rightarrow> run_id \<Rightarrow> ('d, 'x) step_definition \<Rightarrow> nat \<Rightarrow> nat \<Rightarrow> backoff_seq \<Rightarrow> duration
     \<Rightarrow> 'd workflow_context \<Rightarrow> exec_outcome \<Rightarrow> (('d, 'x) world, attempt_end) act" where
  "attempt_failed env i s max_att att b tmo ctx out =
     andThen (lift_res (\<lambda>w. is_paused (world_store w) i)) (\<lambda>paused.
       if paused
       then andThen (mark_step_paused i (sd_id s) (x_end env 0 att)) (\<lambda>_. fail (Paused i))
       else (case failure_reason env (executor s) tmo out of (msg, should_retry) \<Rightarrow>
         let will_retry = (should_retry \<and> att < max_att)
         in andThen (w_write i (record_failure (sd_id s) will_retry msg (x_end env 0 att)) (x_end env 0 att)) (\<lambda>_.
            andThen (publish (EvStepFailed i (sd_id s) msg will_retry)) (\<lambda>_.
              if will_retry then schedule_retry env i s att b else give_up env i s att ctx msg))))"

text \<open>The context as it is journaled; the step ends with an error when serde refuses it.\<close>

definition context_bytes :: "'d host \<Rightarrow> 'd workflow_context \<Rightarrow> string wf_result" where
  "context_bytes h ctx = map_sum (\<lambda>e. JournalError (''serialize context: '' @ e)) id (ctx_json h ctx)"

definition attempt_succeeded ::
  "('d, 'x) exec_env \<Rightarrow> run_id \<Rightarrow> ('d, 'x) step_definition \<Rightarrow> nat \<Rightarrow> 'd workflow_context \<Rightarrow> string
     \<Rightarrow> (('d, 'x) world, attempt_end) act" where
  "attempt_succeeded env i s att ctx bytes =
     (let elapsed = x_end env 0 att - x_begin env 0 att; now = x_end env 0 att in
      andThen (w_write i (record_success s ctx now (as_millis elapsed)) now) (\<lambda>_.
      andThen (w_append i (JStepRun (sd_id s) att (Some (ESuccess bytes)))) (\<lambda>_.
      andThen (publish (EvStepSucceeded i (sd_id s) (nat elapsed))) (\<lambda>_.
      andThen (modify (x_on_success env (executor s) ctx)) (\<lambda>_. ret (Finished RSuccess))))))"

definition execute_attempt ::
  "('d, 'x) exec_env \<Rightarrow> 'd host \<Rightarrow> run_id \<Rightarrow> ('d, 'x) workflow_definition \<Rightarrow> ('d, 'x) step_definition
     \<Rightarrow> nat \<Rightarrow> nat \<Rightarrow> backoff_seq \<Rightarrow> (('d, 'x) world, attempt_end) act" where
  "execute_attempt env h i def s max_att att b =
     (let start = x_begin env 0 att in
      andThen (step_boundary i) (\<lambda>_.
      andThen (w_write i (mark_started (sd_id s) att start) start) (\<lambda>_.
      andThen (publish (EvStepStarted i (sd_id s) att)) (\<lambda>_.
      andThen (w_load i) (\<lambda>st.
      andThen (lift_res (\<lambda>_. budget_timeout h start st (get_timeout def s))) (\<lambda>tmo w.
        case x_execute env (executor s) tmo
               (step_context (eng w) i st (step_meta def s att max_att tmo) (budget_for st (sd_id s) att)) w of
          (w1, ctx, out) \<Rightarrow>
            if is_superseded (eng w1) i then (w1, Inl (Paused i))
            else andThen
              (if out = XDone RSkip then ret ()
               else (\<lambda>w. w_write i (write_back (eng w) i ctx) (x_end env 0 att) w))
              (\<lambda>_. andThen (lift_res (\<lambda>_. context_bytes h ctx)) (\<lambda>bytes. case out of
                 XDone RSuccess \<Rightarrow> attempt_succeeded env i s att ctx bytes
               | XDone RSkip \<Rightarrow> ret (Finished RSkip)
               | _ \<Rightarrow> attempt_failed env i s max_att att b tmo ctx out)) w1))))))"

section \<open>The retry loop\<close>

lemma attempt_failed_Again:
  assumes "attempt_failed env i s max_att att b tmo ctx out w = (w', Inr (Again b'))"
  shows "att < max_att"
  using assms
  by (auto simp: attempt_failed_def schedule_retry_def give_up_def andThen_def Let_def publish_def w_append_def
      split: prod.splits sum.splits if_splits option.splits)

lemma execute_attempt_Again:
  assumes "execute_attempt env h i def s max_att att b w = (w', Inr (Again b'))"
  shows "att < max_att"
  using assms
  by (auto simp: execute_attempt_def andThen_def Let_def publish_def w_append_def attempt_succeeded_def
      dest: attempt_failed_Again
      split: prod.splits sum.splits if_splits option.splits exec_outcome.splits step_result.splits)

text \<open>
  The loop ends: an attempt asks for another one only below the bound. The result is \<open>None\<close> when
  the task panicked.
\<close>

function execute_retrying ::
  "('d, 'x) exec_env \<Rightarrow> 'd host \<Rightarrow> run_id \<Rightarrow> ('d, 'x) workflow_definition \<Rightarrow> ('d, 'x) step_definition
     \<Rightarrow> nat \<Rightarrow> nat \<Rightarrow> backoff_seq \<Rightarrow> ('d, 'x) world \<Rightarrow> ('d, 'x) world \<times> step_result wf_result option" where
  "execute_retrying env h i def s max_att att b w =
     (case execute_attempt env h i def s max_att att b w of
        (w', Inl e) \<Rightarrow> (w', Some (Inl e))
      | (w', Inr (Finished r)) \<Rightarrow> (w', Some (Inr r))
      | (w', Inr (Again b')) \<Rightarrow> execute_retrying env h i def s max_att (att + 1) b' w'
      | (w', Inr Panicked) \<Rightarrow> (w', None))"
  by pat_completeness auto
termination
  by (relation "measure (\<lambda>(env, h, i, def, s, max_att, att, b, w). max_att - att)")
    (auto dest: execute_attempt_Again [OF sym])

declare execute_retrying.simps [simp del]

definition execute_step_with_retry ::
  "('d, 'x) exec_env \<Rightarrow> 'd host \<Rightarrow> run_id \<Rightarrow> ('d, 'x) workflow_definition \<Rightarrow> ('d, 'x) step_definition
     \<Rightarrow> ('d, 'x) world \<Rightarrow> ('d, 'x) world \<times> step_result wf_result option" where
  "execute_step_with_retry env h i def s w =
     (let policy = get_retry_policy def s
      in execute_retrying env h i def s
           (effective_max_attempts (max_attempts policy) (on_failure s = RetryIndefinitely)) 1
           (from_strategy (backoff policy)) w)"

text \<open>
  The driver under the run's time limit. \<open>execution\<close> gets the time that is left (or none) and
  returns no result when it was cut off there.
\<close>

definition cancel_exhausted :: "run_id \<Rightarrow> time \<Rightarrow> (run_id \<Rightarrow> string) \<Rightarrow> (('d, 'x) world, unit) act" where
  "cancel_exhausted i now sr =
     cancel_workflow_impl (\<lambda>_. ret ()) i False
       (Some (error_text sr (budget_error ''elapsed allowance exhausted''))) now"

definition execute_with_budget_deadline ::
  "'d host \<Rightarrow> (run_id \<Rightarrow> string) \<Rightarrow> (duration option \<Rightarrow> ('d, 'x) world \<Rightarrow> ('d, 'x) world \<times> unit wf_result option)
     \<Rightarrow> run_id \<Rightarrow> time \<Rightarrow> time \<Rightarrow> ('d, 'x) world \<Rightarrow> ('d, 'x) world \<times> unit wf_result option" where
  "execute_with_budget_deadline h sr execution i now cut_at w =
     (case load (world_store w) i of
        Inl e \<Rightarrow> (w, Some (Inl e))
      | Inr st \<Rightarrow>
          (case (case st_budget st of None \<Rightarrow> None | Some b \<Rightarrow> deadline (ts_ok h) b) of
             None \<Rightarrow> execution None w
           | Some d \<Rightarrow>
               let remaining = nat (d - now) in
               if remaining = 0
               then (case cancel_exhausted i now sr w of (w', r) \<Rightarrow> (w', Some r))
               else (case execution (Some remaining) w of
                       (w', Some r) \<Rightarrow> (w', Some r)
                     | (w', None) \<Rightarrow>
                         (case cancel_exhausted i cut_at sr w' of (w'', r) \<Rightarrow> (w'', Some r)))))"

section \<open>What an attempt journals\<close>

text \<open>
  The entries of a run's journal with a property, and those that concern a step, as recovery
  looks them up.
\<close>

definition run_log :: "(journal_entry \<Rightarrow> bool) \<Rightarrow> run_id \<Rightarrow> ('d, 'x) world \<Rightarrow> journal_entry list" where
  "run_log P i w = (case journal (world_store w) i of Inl _ \<Rightarrow> [] | Inr es \<Rightarrow> filter P es)"

abbreviation step_log :: "run_id \<Rightarrow> step_id \<Rightarrow> ('d, 'x) world \<Rightarrow> journal_entry list" where
  "step_log i sid \<equiv> run_log (concerns sid) i"

lemma run_log_store [simp]: "run_log P i (w\<lparr>eng := e\<rparr>) = run_log P i w"
  by (simp add: run_log_def)

lemma journal_store_update [simp]: "journal (fst (store_update i f now m)) j = journal m j"
  by (simp add: store_update_def journal_def split: option.split prod.split)

lemma run_log_w_update: "w_update i f now w = (w', r) \<Longrightarrow> run_log P j w' = run_log P j w"
  by (auto simp: w_update_def run_log_def split: prod.splits dest: arg_cong [where f = fst])
    (metis fst_conv journal_store_update)+

lemma run_log_append [simp]:
  "run_log P i (fst (w_append i e w)) = run_log P i w @ (if P e then [e] else [])"
  by (auto simp: w_append_def run_log_def append_journal_def journal_def Let_def split: option.split)

text \<open>The environment leaves some journal entries alone.\<close>

definition keeps_log :: "(journal_entry \<Rightarrow> bool) \<Rightarrow> run_id \<Rightarrow> ('d, 'x) exec_env \<Rightarrow> bool" where
  "keeps_log P i env \<longleftrightarrow>
     (\<forall>x tmo ctx w. run_log P i (fst (x_execute env x tmo ctx w)) = run_log P i w) \<and>
     (\<forall>x ctx w. run_log P i (x_on_success env x ctx w) = run_log P i w) \<and>
     (\<forall>x ctx e w. run_log P i (x_on_failure env x ctx e w) = run_log P i w) \<and>
     (\<forall>d w. run_log P i (x_sleep env d w) = run_log P i w)"

text \<open>What is added to the step's log when attempt \<open>att\<close> ends with a result.\<close>

fun result_log :: "('d, 'x) step_definition \<Rightarrow> nat \<Rightarrow> step_result wf_result \<Rightarrow> journal_entry list \<Rightarrow> bool" where
  "result_log s att (Inl e) es \<longleftrightarrow> es = []"
| "result_log s att (Inr RSuccess) es \<longleftrightarrow> (\<exists>c. es = [JStepRun (sd_id s) att (Some (ESuccess c))])"
| "result_log s att (Inr RFailure) es \<longleftrightarrow>
     \<not> skips_failure s \<and> (\<exists>m. es = [JStepRun (sd_id s) att (Some (EFailure 1 m []))])"
| "result_log s att (Inr RSkip) es \<longleftrightarrow>
     es = [] \<or> skips_failure s \<and> (\<exists>m. es = [JStepRun (sd_id s) att (Some (EFailure 1 m []))])"
| "result_log s att (Inr (RFailed m)) es \<longleftrightarrow> False"

fun attempt_log :: "('d, 'x) step_definition \<Rightarrow> nat \<Rightarrow> attempt_end wf_result \<Rightarrow> journal_entry list \<Rightarrow> bool" where
  "attempt_log s att (Inr (Finished r)) es \<longleftrightarrow> result_log s att (Inr r) es"
| "attempt_log s att _ es \<longleftrightarrow> es = []"

text \<open>An action that adds to the log as its result says.\<close>

definition logs ::
  "(journal_entry \<Rightarrow> bool) \<Rightarrow> run_id \<Rightarrow> ('r wf_result \<Rightarrow> journal_entry list \<Rightarrow> bool) \<Rightarrow> (('d, 'x) world, 'r) act \<Rightarrow> bool" where
  "logs P i Q m \<longleftrightarrow>
     (\<forall>w. \<exists>es. run_log P i (fst (m w)) = run_log P i w @ es \<and> Q (snd (m w)) es)"

abbreviation quiet :: "(journal_entry \<Rightarrow> bool) \<Rightarrow> run_id \<Rightarrow> (('d, 'x) world, 'r) act \<Rightarrow> bool" where
  "quiet P i m \<equiv> logs P i (\<lambda>_ es. es = []) m"

lemma quiet_iff: "quiet P i m \<longleftrightarrow> (\<forall>w. run_log P i (fst (m w)) = run_log P i w)"
  by (auto simp: logs_def)

lemma quiet_intros [intro!]:
  "quiet P i (ret a)" "quiet P i (fail e)" "quiet P i (lift_res g)"
  "quiet P i (publish ev)" "quiet P i (w_update j f now)" "quiet P i (w_write j k now)"
  "quiet P i (w_load j)"
  by (auto simp: quiet_iff publish_def w_write_def w_load_def)
    (metis prod.collapse run_log_w_update)+

lemma run_log_w_write [simp]: "run_log P i (fst (w_write j k now w)) = run_log P i w"
  by (metis prod.collapse run_log_w_update w_write_def)

lemma run_log_w_writeD: "w_write j k now w = (w', r) \<Longrightarrow> run_log P i w' = run_log P i w"
  by (metis fst_conv run_log_w_write)

lemma andThen_seq:
  "andThen (w_append i e) f w = f () (fst (w_append i e w))"
  "andThen (publish ev) f w = f () (fst (publish ev w))"
  by (simp_all add: andThen_def w_append_def publish_def)

lemma run_log_publish [simp]: "run_log P i (fst (publish ev w)) = run_log P i w"
  by (simp add: publish_def)

lemma quiet_modify: "(\<And>w. run_log P i (g w) = run_log P i w) \<Longrightarrow> quiet P i (modify g)"
  by (simp add: quiet_iff)

text \<open>A quiet action first, then one that logs: its result decides what was logged.\<close>

lemma logs_andThen:
  assumes "quiet P i m" "\<And>a. logs P i Q (f a)" "\<And>e. Q (Inl e) []"
  shows "logs P i Q (andThen m f)"
  unfolding logs_def
proof
  fix w
  obtain w1 r where m: "m w = (w1, r)" by (cases "m w")
  have same: "run_log P i w1 = run_log P i w" using assms(1) m by (auto simp: quiet_iff dest: spec [of _ w])
  show "\<exists>es. run_log P i (fst (andThen m f w)) = run_log P i w @ es \<and> Q (snd (andThen m f w)) es"
  proof (cases r)
    case (Inl e)
    with m same assms(3) [of e] show ?thesis by (simp add: andThen_def)
  next
    case (Inr a)
    with assms(2) [of a] m same show ?thesis by (simp add: andThen_def logs_def) metis
  qed
qed

lemma logs_append_last:
  assumes "P e" "\<And>a. quiet P i (f a)" "\<And>w. Q (snd (f () w)) [e]"
  shows "logs P i Q (andThen (w_append i e) f)"
  unfolding logs_def
proof
  fix w
  have "andThen (w_append i e) f w = f () (fst (w_append i e w))"
    by (simp add: andThen_def w_append_def)
  moreover have "run_log P i (fst (f () (fst (w_append i e w)))) = run_log P i w @ [e]"
    using assms(1,2) by (simp add: quiet_iff)
  ultimately show "\<exists>es. run_log P i (fst (andThen (w_append i e) f w)) = run_log P i w @ es
      \<and> Q (snd (andThen (w_append i e) f w)) es"
    using assms(3) by auto
qed

lemma concerns_step_run [simp]: "concerns sid (JStepRun j a r) \<longleftrightarrow> j = sid"
  by (simp add: concerns_def)

lemma logs_ret: "Q (Inr a) [] \<Longrightarrow> logs P i Q (ret a)"
  and logs_fail: "Q (Inl e) [] \<Longrightarrow> logs P i Q (fail e)"
  and logs_if: "(c \<Longrightarrow> logs P i Q m) \<Longrightarrow> (\<not> c \<Longrightarrow> logs P i Q m') \<Longrightarrow> logs P i Q (if c then m else m')"
  by (auto simp: logs_def)

lemma quiet_mark_step_paused [intro!]: "quiet P i (mark_step_paused j k now)"
  unfolding mark_step_paused_def by (rule quiet_intros)

lemma schedule_retry_log:
  assumes "keeps_log (concerns (sd_id s)) i env"
  shows "logs (concerns (sd_id s)) i (attempt_log s att) (schedule_retry env i s att b)"
proof -
  have "logs (concerns (sd_id s)) i (attempt_log s att)
      (andThen (publish ev) (\<lambda>_. andThen (modify (x_sleep env d)) (\<lambda>_. ret (Again b'))))" for ev d b'
    by (intro logs_andThen quiet_modify quiet_intros logs_ret)
      (use assms in \<open>auto simp: keeps_log_def\<close>)
  then show ?thesis
    by (auto simp: logs_def schedule_retry_def split: option.split)
qed

lemma give_up_log:
  assumes "keeps_log (concerns (sd_id s)) i env"
  shows "logs (concerns (sd_id s)) i (attempt_log s att) (give_up env i s att ctx msg)"
  unfolding give_up_def
  by (intro logs_andThen quiet_modify logs_append_last quiet_intros)
    (use assms in \<open>auto simp: keeps_log_def\<close>)

lemma attempt_failed_log:
  assumes "keeps_log (concerns (sd_id s)) i env"
  shows "logs (concerns (sd_id s)) i (attempt_log s att) (attempt_failed env i s max_att att b tmo ctx out)"
  unfolding attempt_failed_def Let_def
  using schedule_retry_log [OF assms] give_up_log [OF assms]
  by (auto intro!: logs_andThen logs_if logs_fail split: prod.split)

lemma attempt_succeeded_log:
  assumes "keeps_log (concerns (sd_id s)) i env"
  shows "logs (concerns (sd_id s)) i (attempt_log s att) (attempt_succeeded env i s att ctx bytes)"
  unfolding attempt_succeeded_def Let_def
proof (rule logs_andThen, rule quiet_intros, rule logs_append_last)
  show "quiet (concerns (sd_id s)) i (andThen (publish ev)
      (\<lambda>_. andThen (modify (x_on_success env (executor s) ctx)) (\<lambda>_. ret (Finished RSuccess))))" for ev
    by (intro logs_andThen quiet_intros quiet_modify logs_ret)
      (use assms in \<open>simp_all add: keeps_log_def\<close>)
qed (simp_all add: publish_def)

lemma execute_attempt_log:
  assumes env: "keeps_log (concerns (sd_id s)) i env"
  shows "logs (concerns (sd_id s)) i (attempt_log s att) (execute_attempt env h i def s max_att att b)"
proof -
  have boundary: "quiet (concerns (sd_id s)) i (step_boundary i)"
    unfolding step_boundary_def by (intro logs_andThen quiet_intros logs_if logs_ret logs_fail refl)
  define rest where "rest ctx out tmo = andThen
      (if out = XDone RSkip then ret () else (\<lambda>w. w_write i (write_back (eng w) i ctx) (x_end env 0 att) w))
      (\<lambda>_. andThen (lift_res (\<lambda>_. context_bytes h ctx)) (\<lambda>bytes. case out of
         XDone RSuccess \<Rightarrow> attempt_succeeded env i s att ctx bytes
       | XDone RSkip \<Rightarrow> ret (Finished RSkip)
       | _ \<Rightarrow> attempt_failed env i s max_att att b tmo ctx out))" for ctx out tmo
  have rest: "logs (concerns (sd_id s)) i (attempt_log s att) (rest ctx out tmo)" for ctx out tmo
    unfolding rest_def
  proof (rule logs_andThen)
    show "quiet (concerns (sd_id s)) i
       (if out = XDone RSkip then ret () else (\<lambda>w. w_write i (write_back (eng w) i ctx) (x_end env 0 att) w))"
      by (simp add: quiet_iff)
    have "logs (concerns (sd_id s)) i (attempt_log s att) (case out of
         XDone RSuccess \<Rightarrow> attempt_succeeded env i s att ctx bytes
       | XDone RSkip \<Rightarrow> ret (Finished RSkip)
       | _ \<Rightarrow> attempt_failed env i s max_att att b tmo ctx out)" for bytes
      by (auto split: exec_outcome.split step_result.split intro!: logs_ret
          attempt_succeeded_log [OF env] attempt_failed_log [OF env])
    then show "logs (concerns (sd_id s)) i (attempt_log s att) (andThen (lift_res (\<lambda>_. context_bytes h ctx))
        (\<lambda>bytes. case out of
         XDone RSuccess \<Rightarrow> attempt_succeeded env i s att ctx bytes
       | XDone RSkip \<Rightarrow> ret (Finished RSkip)
       | _ \<Rightarrow> attempt_failed env i s max_att att b tmo ctx out))"
      by (intro logs_andThen quiet_intros) auto
  qed simp
  have "logs (concerns (sd_id s)) i (attempt_log s att) (\<lambda>w. case x_execute env (executor s) tmo (c w) w of
      (w1, ctx, out) \<Rightarrow> if is_superseded (eng w1) i then (w1, Inl (Paused i)) else rest ctx out tmo w1)" for tmo c
    unfolding logs_def
  proof
    fix w
    obtain w1 ctx out where x: "x_execute env (executor s) tmo (c w) w = (w1, ctx, out)"
      by (cases "x_execute env (executor s) tmo (c w) w") auto
    then have same: "step_log i (sd_id s) w1 = step_log i (sd_id s) w"
      using env by (auto simp: keeps_log_def dest: spec [of _ "executor s"]) (metis fst_conv)
    obtain es where "step_log i (sd_id s) (fst (rest ctx out tmo w1)) = step_log i (sd_id s) w1 @ es"
      "attempt_log s att (snd (rest ctx out tmo w1)) es"
      using rest [of ctx out tmo] unfolding logs_def by blast
    with x same show "\<exists>es. step_log i (sd_id s) (fst (case x_execute env (executor s) tmo (c w) w of
        (w1, ctx, out) \<Rightarrow> if is_superseded (eng w1) i then (w1, Inl (Paused i)) else rest ctx out tmo w1))
          = step_log i (sd_id s) w @ es
        \<and> attempt_log s att (snd (case x_execute env (executor s) tmo (c w) w of
        (w1, ctx, out) \<Rightarrow> if is_superseded (eng w1) i then (w1, Inl (Paused i)) else rest ctx out tmo w1)) es"
      by auto
  qed
  with boundary show ?thesis
    unfolding execute_attempt_def Let_def rest_def by (intro logs_andThen quiet_intros) auto
qed

lemma execute_retrying_log:
  assumes "keeps_log (concerns (sd_id s)) i env"
    and "execute_retrying env h i def s max_att att b w = (w', Some r)"
  shows "\<exists>a es. att \<le> a \<and> a \<le> max att max_att \<and> step_log i (sd_id s) w' = step_log i (sd_id s) w @ es
    \<and> result_log s a r es"
  using assms(2)
proof (induction "max_att - att" arbitrary: att b w rule: less_induct)
  case less
  obtain w1 o1 where run: "execute_attempt env h i def s max_att att b w = (w1, o1)"
    by (cases "execute_attempt env h i def s max_att att b w")
  obtain es where es: "step_log i (sd_id s) w1 = step_log i (sd_id s) w @ es" "attempt_log s att o1 es"
    using execute_attempt_log [OF assms(1), of att h def max_att b] run
    unfolding logs_def by (metis fst_conv snd_conv)
  note step = less.prems [unfolded execute_retrying.simps [of env h i def s max_att att b w] run prod.case]
  show ?case
  proof (cases o1)
    case (Inl e)
    with step es show ?thesis by (intro exI [of _ att] exI [of _ es]) auto
  next
    case (Inr fin)
    show ?thesis
    proof (cases fin)
      case (Finished r1)
      with step es Inr show ?thesis by (intro exI [of _ att] exI [of _ es]) auto
    next
      case (Again b1)
      with run Inr have lt: "att < max_att" by (auto dest: execute_attempt_Again)
      from Again Inr es have same: "step_log i (sd_id s) w1 = step_log i (sd_id s) w" by simp
      have next_run: "execute_retrying env h i def s max_att (att + 1) b1 w1 = (w', Some r)"
        using step Inr Again by simp
      have "max_att - (att + 1) < max_att - att" using lt by simp
      from less.hyps [OF this next_run] obtain a es' where "att + 1 \<le> a" "a \<le> max (att + 1) max_att"
        "step_log i (sd_id s) w' = step_log i (sd_id s) w1 @ es'" "result_log s a r es'" by blast
      with same lt show ?thesis by (intro exI [of _ a] exI [of _ es']) auto
    next
      case Panicked
      with step Inr show ?thesis by simp
    qed
  qed
qed

lemma find_rev: "find P (rev es) = (if filter P es = [] then None else Some (last (filter P es)))"
  by (induction es rule: rev_induct) auto

lemma memoize_step_log:
  assumes "journal (world_store w) i = Inr es" "\<And>n t. mode s \<noteq> WaitEvent n t"
  shows "memoize_step es s t =
    (if step_log i (sd_id s) w = [] then (t, False)
     else case last (step_log i (sd_id s) w) of
         JStepRun _ _ (Some (ESuccess _)) \<Rightarrow> (t\<lparr>completed := insert (sd_id s) (completed t)\<rparr>, True)
       | JSleep _ _ (Some _) \<Rightarrow> (t\<lparr>completed := insert (sd_id s) (completed t)\<rparr>, True)
       | JStepRun _ _ (Some (EFailure _ _ _)) \<Rightarrow> (t\<lparr>failed := insert (sd_id s) (failed t)\<rparr>, True)
       | _ \<Rightarrow> (t, False))"
proof -
  have "step_log i (sd_id s) w = filter (concerns (sd_id s)) es" using assms(1) by (simp add: run_log_def)
  with assms(2) show ?thesis
    unfolding memoize_step_def find_rev by (auto split: step_mode.split)
qed

section \<open>Properties\<close>

text \<open>
  C24: What a later recovery makes of a step, other than a wait for an event, whose task ended: success,
  journaled by one entry, is found completed; failure, journaled by one entry, is found failed. A skip
  by the executor and an end with an error (paused, cancelled, refused, a context that cannot be serialised)
  journal nothing: the step is found unsettled and runs again. Only a failure that the step's error mode
  counts as a skip is journaled as a failure and found failed. The attempt an entry records is one
  the retry policy allows.
\<close>

theorem outcome_recovered:
  assumes "keeps_log (concerns (sd_id s)) i env" "\<And>n t. mode s \<noteq> WaitEvent n t"
    and "step_log i (sd_id s) w = []"
    and "execute_step_with_retry env h i def s w = (w', Some r)"
    and "journal (world_store w') i = Inr es"
  shows "\<exists>a. 1 \<le> a \<and> a \<le> max 1 (effective_max_attempts (max_attempts (get_retry_policy def s)) (on_failure s = RetryIndefinitely))
    \<and> (case r of
      Inr RSuccess \<Rightarrow> memoize_step es s t = (t\<lparr>completed := insert (sd_id s) (completed t)\<rparr>, True)
        \<and> (\<exists>c. filter (concerns (sd_id s)) es = [JStepRun (sd_id s) a (Some (ESuccess c))])
    | Inr RFailure \<Rightarrow> memoize_step es s t = (t\<lparr>failed := insert (sd_id s) (failed t)\<rparr>, True)
        \<and> (\<exists>m. filter (concerns (sd_id s)) es = [JStepRun (sd_id s) a (Some (EFailure 1 m []))])
    | Inr RSkip \<Rightarrow> memoize_step es s t = (t, False) \<and> filter (concerns (sd_id s)) es = []
        \<or> skips_failure s \<and> memoize_step es s t = (t\<lparr>failed := insert (sd_id s) (failed t)\<rparr>, True)
          \<and> (\<exists>m. filter (concerns (sd_id s)) es = [JStepRun (sd_id s) a (Some (EFailure 1 m []))])
    | Inr (RFailed _) \<Rightarrow> False
    | Inl _ \<Rightarrow> memoize_step es s t = (t, False) \<and> filter (concerns (sd_id s)) es = [])"
proof -
  obtain a new where a: "1 \<le> a"
    "a \<le> max 1 (effective_max_attempts (max_attempts (get_retry_policy def s)) (on_failure s = RetryIndefinitely))"
    and new: "step_log i (sd_id s) w' = new" "result_log s a r new"
    using execute_retrying_log [OF assms(1) assms(4) [unfolded execute_step_with_retry_def Let_def]] assms(3)
    by auto
  have filter: "filter (concerns (sd_id s)) es = new"
    using new(1) assms(5) by (simp add: run_log_def)
  note memo = memoize_step_log [OF assms(5,2), of t, unfolded new(1)]
  show ?thesis
    by (rule exI [of _ a])
      (use a new(2) in \<open>auto simp: memo filter split: sum.split step_result.split\<close>)
qed

text \<open>
  An environment that does nothing else: executor 0 succeeds, every other one fails for good.
\<close>

definition demo_env :: "(unit, nat) exec_env" where
  "demo_env = \<lparr>x_execute = (\<lambda>x tmo ctx w. (w, ctx, XDone (if x = 0 then RSuccess else RFailure))),
     x_retryable = (\<lambda>_ _. True), x_on_success = (\<lambda>_ _ w. w), x_on_failure = (\<lambda>_ _ _ w. w),
     x_sleep = (\<lambda>_ w. w), x_begin = (\<lambda>_ _. 0), x_end = (\<lambda>_ _. 0), x_draw = (\<lambda>_ _. Fin 0 0),
     show_duration = (\<lambda>_. ''1s''), show_run = (\<lambda>_. ''run'')\<rparr>"

definition demo_world :: "(unit, nat) world" where
  "demo_world = \<lparr>eng = demo_engine, world_store = save demo_run new_store\<rparr>"

definition demo_step :: "nat \<Rightarrow> (unit, nat) step_definition" where
  "demo_step x = new_step ''s'' ''s'' x"

lemma demo_env_keeps_log: "keeps_log P i demo_env"
  by (simp add: keeps_log_def demo_env_def)

lemma demo_step_sel [simp]:
  "executor (demo_step x) = x" "sd_id (demo_step x) = ''s''" "mode (demo_step x) = Sequential"
  "sd_error_mode (demo_step x) = EFail" "on_failure (demo_step x) = FailWorkflow"
  "sd_retry_policy (demo_step x) = None" "output_var (demo_step x) = None" "sd_timeout (demo_step x) = None"
  by (simp_all add: demo_step_def new_step_def)

lemma demo_world_sel [simp]:
  "states (world_store demo_world) = [(1, detach demo_run)]" "journals (world_store demo_world) = Map.empty"
  "eng demo_world = demo_engine"
  by (simp_all add: demo_world_def save_def new_store_def)

lemma demo_engine_idle [simp]: "superseded demo_engine = {}" "jitter demo_engine = Fin 0 0"
  by (simp_all add: demo_engine_def with_store_def)

lemma demo_host_ctx [simp]: "ctx_json demo_host c = Inr (ctx_output c)"
  by (simp add: demo_host_def)

lemma demo_env_sel [simp]:
  "x_execute demo_env x tmo ctx w = (w, ctx, XDone (if x = 0 then RSuccess else RFailure))"
  "x_retryable demo_env x e" "x_on_success demo_env x ctx w = w" "x_on_failure demo_env x ctx e w = w"
  "x_sleep demo_env d w = w" "x_begin demo_env a b = 0" "x_end demo_env a b = 0"
  by (simp_all add: demo_env_def)

lemmas exec_eval =
  execute_attempt_def step_boundary_def Let_def is_cancelled_def should_stop_def
  is_superseded_def is_paused_def load_def andThen_def w_write_def w_update_def store_update_def
  publish_def w_load_def attempt_succeeded_def w_append_def append_journal_def budget_timeout_def
  mark_started_def write_back_def record_success_def journal_def context_bytes_def

lemma demo_success:
  "\<exists>w' es. execute_step_with_retry demo_env demo_host 1 (new_definition ''wf'' ''wf'') (demo_step 0) demo_world
      = (w', Some (Inr RSuccess)) \<and> journal (world_store w') 1 = Inr es"
  unfolding execute_step_with_retry_def Let_def
  by (subst execute_retrying.simps) (simp add: exec_eval)

lemma demo_failure:
  "\<exists>w' es. execute_step_with_retry demo_env demo_host 1 (new_definition ''wf'' ''wf'')
      ((demo_step 1)\<lparr>sd_error_mode := ESkip\<rparr>) demo_world = (w', Some (Inr RSkip))
      \<and> journal (world_store w') 1 = Inr es
      \<and> memoize_step es ((demo_step 1)\<lparr>sd_error_mode := ESkip\<rparr>) new_tracker =
          (new_tracker\<lparr>failed := {''s''}\<rparr>, True)"
  unfolding execute_step_with_retry_def Let_def
  by (subst execute_retrying.simps) (simp add: exec_eval attempt_failed_def failure_reason_def
     give_up_def skips_failure_def memoize_step_def record_failure_def new_tracker_def)
text \<open>
  A failure that counts as a skip changes sides when the run is recovered: the live run puts
  the step among the skipped ones and goes on, the recovered run finds it failed.
\<close>

lemma skipped_failure_recovered_failed:
  "\<exists>w' es. execute_step_with_retry demo_env demo_host 1 (new_definition ''wf'' ''wf'')
      ((demo_step 1)\<lparr>sd_error_mode := ESkip\<rparr>) demo_world = (w', Some (Inr RSkip))
    \<and> journal (world_store w') 1 = Inr es
    \<and> ''s'' \<in> skipped (fst (settle_task ((demo_step 1)\<lparr>sd_error_mode := ESkip\<rparr>) (TResult (Inr RSkip)) new_tracker))
    \<and> ''s'' \<in> failed (fst (memoize_step es ((demo_step 1)\<lparr>sd_error_mode := ESkip\<rparr>) new_tracker))"
  using demo_failure by (auto simp: settle_task_def)

theorem outcome_recovered_witness:
  "\<exists>w' es. execute_step_with_retry demo_env demo_host 1 (new_definition ''wf'' ''wf'') (demo_step 0) demo_world
      = (w', Some (Inr RSuccess))
    \<and> memoize_step es (demo_step 0) new_tracker = (new_tracker\<lparr>completed := {''s''}\<rparr>, True)"
proof -
  obtain w' es where run: "execute_step_with_retry demo_env demo_host 1 (new_definition ''wf'' ''wf'') (demo_step 0) demo_world
      = (w', Some (Inr RSuccess))" "journal (world_store w') 1 = Inr es"
    using demo_success by blast
  have fresh: "step_log 1 (sd_id (demo_step 0)) demo_world = []"
    by (simp add: run_log_def journal_def)
  from outcome_recovered [OF demo_env_keeps_log _ fresh run, of new_tracker]
  have "memoize_step es (demo_step 0) new_tracker = (new_tracker\<lparr>completed := {''s''}\<rparr>, True)"
    by (auto simp: new_tracker_def)
  with run show ?thesis by blast
qed

end
