(* ===== verification/Wf_Loop.thy ===== *)
theory Wf_Loop
  imports Wf_Exec
begin

text \<open>
  Loop steps, \<^verbatim>\<open>crates/flare-workflow/src/loops.rs\<close>: a step's executor is repeated until its output
  contains a text or the iterations run out; every successful iteration is journaled, and a
  recovered run goes on behind the last one.
\<close>

section \<open>One iteration\<close>

definition exec_failed :: "exec_outcome \<Rightarrow> bool" where
  "exec_failed out = (case out of XDone RSuccess \<Rightarrow> False | XDone RSkip \<Rightarrow> False | _ \<Rightarrow> True)"

definition loop_retryable :: "('d, 'x) exec_env \<Rightarrow> 'x \<Rightarrow> exec_outcome \<Rightarrow> bool" where
  "loop_retryable env x out =
     (case out of XError e \<Rightarrow> x_retryable env x e | XTimeout \<Rightarrow> True | XDone _ \<Rightarrow> False)"

text \<open>
  The retries within an iteration: the context is kept from attempt to attempt, the state \<open>st\<close> is
  the one read at the beginning of the iteration. \<open>None\<close> is a panic.
\<close>

function loop_attempts ::
  "('d, 'x) exec_env \<Rightarrow> 'd host \<Rightarrow> run_id \<Rightarrow> ('d, 'x) workflow_definition \<Rightarrow> ('d, 'x) step_definition
     \<Rightarrow> 'd workflow_state \<Rightarrow> nat \<Rightarrow> nat \<Rightarrow> nat \<Rightarrow> backoff_seq \<Rightarrow> 'd workflow_context \<Rightarrow> ('d, 'x) world
     \<Rightarrow> ('d, 'x) world \<times> ('d workflow_context \<times> exec_outcome) wf_result option" where
  "loop_attempts env h i def s st iter max_att att b ctx w =
     (case budget_timeout h (x_begin env iter att) st (get_timeout def s) of
        Inl e \<Rightarrow> (w, Some (Inl e))
      | Inr tmo \<Rightarrow>
          (case x_execute env (executor s) tmo (ctx\<lparr>ctx_budget := budget_for st (sd_id s) att\<rparr>) w of
             (w1, ctx1, out) \<Rightarrow>
               if \<not> exec_failed out \<or> \<not> loop_retryable env (executor s) out \<or> max_att \<le> att
               then (w1, Some (Inr (ctx1, out)))
               else (case should_stop i w1 of
                       Inl e \<Rightarrow> (w1, Some (Inl e))
                     | Inr True \<Rightarrow> (w1, Some (Inr (ctx1, out)))
                     | Inr False \<Rightarrow>
                         (case backoff_next b (jitter (eng w1)) (x_draw env iter att) of
                            None \<Rightarrow> (w1, None)
                          | Some (b', wait) \<Rightarrow>
                              loop_attempts env h i def s st iter max_att (att + 1) b' ctx1 (x_sleep env wait w1)))))"
  by pat_completeness auto
termination
  by (relation "measure (\<lambda>(env, h, i, def, s, st, iter, max_att, att, b, ctx, w). max_att - att)") auto

declare loop_attempts.simps [simp del]

datatype 'd loop_end = LNext "'d workflow_context" | LMatched "'d workflow_context" | LSkipped | LFailed

definition loop_context ::
  "('d, 'x) engine \<Rightarrow> run_id \<Rightarrow> 'd workflow_state \<Rightarrow> step_execution_meta \<Rightarrow> 'd workflow_context" where
  "loop_context e i st meta =
     (st_context st)\<lparr>ctx_data := apply_data_patch e i (ctx_data (st_context st)), ctx_input := st_input st,
        ctx_variables := st_variables st, ctx_output := [], ctx_step := meta\<rparr>"

definition mark_iteration :: "step_id \<Rightarrow> nat \<Rightarrow> time \<Rightarrow> 'd workflow_state \<Rightarrow> 'd workflow_state" where
  "mark_iteration sid iter now st =
     modify_step sid (\<lambda>ss. ss\<lparr>ss_status := SRunning, ss_attempt := iter, ss_started_at := Some now\<rparr>)
       (st\<lparr>current_step := Some sid\<rparr>)"

definition record_iteration ::
  "('d, 'x) engine \<Rightarrow> run_id \<Rightarrow> ('d, 'x) step_definition \<Rightarrow> 'd workflow_context \<Rightarrow> time \<Rightarrow> nat
     \<Rightarrow> 'd workflow_state \<Rightarrow> 'd workflow_state" where
  "record_iteration e i s ctx now ms st =
     (let out = ctx_output ctx; st1 = write_back e i ctx st
      in modify_step (sd_id s) (step_succeeded ctx now ms)
           (st1\<lparr>st_input := out, st_output := Some out,
              st_variables := capture_output (st_variables st1) (output_var s) out\<rparr>))"

definition loop_error :: "('d, 'x) exec_env \<Rightarrow> duration \<Rightarrow> exec_outcome \<Rightarrow> string" where
  "loop_error env tmo out =
     (case out of
        XDone (RFailed msg) \<Rightarrow> msg
      | XTimeout \<Rightarrow> ''Step timed out after '' @ show_duration env tmo
      | XError e \<Rightarrow> error_text (show_run env) e
      | XDone _ \<Rightarrow> ''Step failed'')"

definition until_met :: "string \<Rightarrow> string \<Rightarrow> bool" where
  "until_met until_lower out \<longleftrightarrow> until_lower \<noteq> [] \<and> str_contains until_lower (to_lowercase out)"

definition loop_succeeded ::
  "('d, 'x) exec_env \<Rightarrow> run_id \<Rightarrow> ('d, 'x) step_definition \<Rightarrow> nat \<Rightarrow> string \<Rightarrow> 'd workflow_context
     \<Rightarrow> (('d, 'x) world, 'd loop_end) act" where
  "loop_succeeded env i s iter until_lower ctx =
     (let now = x_end env iter 0; ms = as_millis (now - x_begin env iter 0) in
      andThen (\<lambda>w. w_write i (record_iteration (eng w) i s ctx now ms) now w) (\<lambda>_.
      andThen (w_append i (JLoopIteration (sd_id s) iter (ctx_output ctx))) (\<lambda>_.
        ret (if until_met until_lower (ctx_output ctx) then LMatched ctx else LNext ctx))))"

definition loop_failed ::
  "('d, 'x) exec_env \<Rightarrow> run_id \<Rightarrow> ('d, 'x) step_definition \<Rightarrow> nat \<Rightarrow> duration \<Rightarrow> exec_outcome
     \<Rightarrow> (('d, 'x) world, 'd loop_end) act" where
  "loop_failed env i s iter tmo out =
     (let now = x_end env iter 0 in
      andThen (lift_res (\<lambda>w. is_paused (world_store w) i)) (\<lambda>paused.
        if paused then andThen (mark_step_paused i (sd_id s) now) (\<lambda>_. fail (Paused i))
        else andThen (w_write i (record_failure (sd_id s) False (loop_error env tmo out) now) now) (\<lambda>_.
             andThen (w_append i (JStepRun (sd_id s) iter (Some (EFailure 1 (loop_error env tmo out) [])))) (\<lambda>_.
               ret LFailed))))"

text \<open>What an iteration does before its executor runs, and after.\<close>

definition begin_iteration ::
  "('d, 'x) exec_env \<Rightarrow> run_id \<Rightarrow> ('d, 'x) workflow_definition \<Rightarrow> ('d, 'x) step_definition \<Rightarrow> nat \<Rightarrow> nat
     \<Rightarrow> (('d, 'x) world, 'd workflow_state \<times> 'd workflow_context) act" where
  "begin_iteration env i def s max_iter iter =
     (let start = x_begin env iter 0 in
      andThen (step_boundary i) (\<lambda>_.
      andThen (w_load i) (\<lambda>st w.
      andThen (w_write i (mark_iteration (sd_id s) iter start) start)
        (\<lambda>_. ret (st, loop_context (eng w) i st (step_meta def s iter max_iter (get_timeout def s)))) w)))"

definition end_iteration ::
  "('d, 'x) exec_env \<Rightarrow> run_id \<Rightarrow> ('d, 'x) workflow_definition \<Rightarrow> ('d, 'x) step_definition \<Rightarrow> nat \<Rightarrow> string
     \<Rightarrow> 'd workflow_context \<Rightarrow> exec_outcome \<Rightarrow> (('d, 'x) world, 'd loop_end) act" where
  "end_iteration env i def s iter until_lower ctx out =
     andThen (lift_res (\<lambda>w. Inr (is_superseded (eng w) i))) (\<lambda>lost.
       if lost then fail (Paused i)
       else (case out of
               XDone RSuccess \<Rightarrow> loop_succeeded env i s iter until_lower ctx
             | XDone RSkip \<Rightarrow> ret LSkipped
             | _ \<Rightarrow> loop_failed env i s iter (get_timeout def s) out))"

definition loop_iteration ::
  "('d, 'x) exec_env \<Rightarrow> 'd host \<Rightarrow> run_id \<Rightarrow> ('d, 'x) workflow_definition \<Rightarrow> ('d, 'x) step_definition
     \<Rightarrow> nat \<Rightarrow> string \<Rightarrow> nat \<Rightarrow> ('d, 'x) world \<Rightarrow> ('d, 'x) world \<times> 'd loop_end wf_result option" where
  "loop_iteration env h i def s max_iter until_lower iter w =
     (case begin_iteration env i def s max_iter iter w of
        (w1, Inl e) \<Rightarrow> (w1, Some (Inl e))
      | (w1, Inr (st, ctx)) \<Rightarrow>
          (let policy = get_retry_policy def s;
               max_att = effective_max_attempts (max_attempts policy) (on_failure s = RetryIndefinitely)
           in case loop_attempts env h i def s st iter max_att 1 (from_strategy (backoff policy)) ctx w1 of
                (w2, None) \<Rightarrow> (w2, None)
              | (w2, Some (Inl e)) \<Rightarrow> (w2, Some (Inl e))
              | (w2, Some (Inr (ctx', out))) \<Rightarrow>
                  (case end_iteration env i def s iter until_lower ctx' out w2 of (w3, r) \<Rightarrow> (w3, Some r))))"

section \<open>The loop\<close>

text \<open>
  The result is \<open>Inl\<close> when the step returns from within the loop, else the number of executed
  iterations and the context of the last one.
\<close>

fun loop_over ::
  "('d, 'x) exec_env \<Rightarrow> 'd host \<Rightarrow> run_id \<Rightarrow> ('d, 'x) workflow_definition \<Rightarrow> ('d, 'x) step_definition
     \<Rightarrow> nat \<Rightarrow> string \<Rightarrow> nat list \<Rightarrow> nat \<Rightarrow> 'd workflow_context option \<Rightarrow> ('d, 'x) world
     \<Rightarrow> ('d, 'x) world \<times> (step_result + nat \<times> 'd workflow_context option) wf_result option" where
  "loop_over env h i def s max_iter ul [] executed last_ctx w = (w, Some (Inr (Inr (executed, last_ctx))))"
| "loop_over env h i def s max_iter ul (iter # iters) executed last_ctx w =
     (case loop_iteration env h i def s max_iter ul iter w of
        (w', None) \<Rightarrow> (w', None)
      | (w', Some (Inl e)) \<Rightarrow> (w', Some (Inl e))
      | (w', Some (Inr (LNext ctx))) \<Rightarrow> loop_over env h i def s max_iter ul iters (executed + 1) (Some ctx) w'
      | (w', Some (Inr (LMatched ctx))) \<Rightarrow> (w', Some (Inr (Inr (executed + 1, Some ctx))))
      | (w', Some (Inr LSkipped)) \<Rightarrow> (w', Some (Inr (Inr (executed, last_ctx))))
      | (w', Some (Inr LFailed)) \<Rightarrow> (w', Some (Inr (Inl RFailure))))"

definition iterations :: "step_id \<Rightarrow> journal_entry list \<Rightarrow> nat list" where
  "iterations sid es =
     List.map_filter (\<lambda>e. case e of JLoopIteration j n _ \<Rightarrow> if j = sid then Some n else None | _ \<Rightarrow> None) es"

definition resume_from :: "step_id \<Rightarrow> journal_entry list \<Rightarrow> nat" where
  "resume_from sid es = fold max (iterations sid es) 0"

definition finish_loop ::
  "'d host \<Rightarrow> run_id \<Rightarrow> step_id \<Rightarrow> nat \<Rightarrow> 'd workflow_context option \<Rightarrow> (('d, 'x) world, step_result) act" where
  "finish_loop h i sid executed last_ctx =
     andThen (case last_ctx of Some c \<Rightarrow> ret c | None \<Rightarrow> andThen (w_load i) (\<lambda>st. ret (st_context st))) (\<lambda>c.
     andThen (lift_res (\<lambda>_. context_bytes h c)) (\<lambda>bytes.
     andThen (w_append i (JStepRun sid executed (Some (ESuccess bytes)))) (\<lambda>_. ret RSuccess)))"

definition execute_loop ::
  "('d, 'x) exec_env \<Rightarrow> 'd host \<Rightarrow> run_id \<Rightarrow> ('d, 'x) workflow_definition \<Rightarrow> ('d, 'x) step_definition
     \<Rightarrow> ('d, 'x) world \<Rightarrow> ('d, 'x) world \<times> step_result wf_result option" where
  "execute_loop env h i def s w =
     (case mode s of
        Loop max_iter until \<Rightarrow>
          (case journal (world_store w) i of
             Inl e \<Rightarrow> (w, Some (Inl e))
           | Inr es \<Rightarrow>
               (let from = resume_from (sd_id s) es in
                case loop_over env h i def s max_iter (to_lowercase until) [from + 1..<max_iter + 1] from None w of
                  (w', None) \<Rightarrow> (w', None)
                | (w', Some (Inl e)) \<Rightarrow> (w', Some (Inl e))
                | (w', Some (Inr (Inl r))) \<Rightarrow> (w', Some (Inr r))
                | (w', Some (Inr (Inr (executed, last_ctx)))) \<Rightarrow>
                    (case finish_loop h i (sd_id s) executed last_ctx w' of (w'', r) \<Rightarrow> (w'', Some r))))
      | _ \<Rightarrow> (w, Some (Inr RSkip)))"

section \<open>What a loop journals\<close>

definition loop_entry :: "step_id \<Rightarrow> journal_entry \<Rightarrow> bool" where
  "loop_entry sid e = (case e of JLoopIteration j _ _ \<Rightarrow> j = sid | _ \<Rightarrow> False)"

lemma loop_entry_simps [simp]:
  "loop_entry sid (JLoopIteration j n out) \<longleftrightarrow> j = sid" "\<not> loop_entry sid (JStepRun j a r)"
  by (simp_all add: loop_entry_def)

lemma iterations_simps [simp]:
  "iterations sid [] = []"
  "iterations sid (e # es) =
     (if loop_entry sid e then (case e of JLoopIteration _ n _ \<Rightarrow> n # iterations sid es | _ \<Rightarrow> []) else iterations sid es)"
  by (auto simp: iterations_def map_filter_simps loop_entry_def split: journal_entry.split)

lemma iterations_filter: "iterations sid (filter (loop_entry sid) es) = iterations sid es"
  by (induction es) (auto simp: loop_entry_def split: journal_entry.split)

lemma iterations_append: "iterations sid (es @ fs) = iterations sid es @ iterations sid fs"
  by (simp add: iterations_def map_filter_def)

fun iteration_log :: "step_id \<Rightarrow> nat \<Rightarrow> string \<Rightarrow> 'd loop_end wf_result \<Rightarrow> journal_entry list \<Rightarrow> bool" where
  "iteration_log sid iter ul (Inr (LNext c)) es \<longleftrightarrow>
     es = [JLoopIteration sid iter (ctx_output c)] \<and> \<not> until_met ul (ctx_output c)"
| "iteration_log sid iter ul (Inr (LMatched c)) es \<longleftrightarrow> es = [JLoopIteration sid iter (ctx_output c)]"
| "iteration_log sid iter ul _ es \<longleftrightarrow> es = []"

lemma quiet_append: "\<not> P e \<Longrightarrow> quiet P i (w_append i e)"
  by (simp add: quiet_iff)

lemma quiet_any_write: "quiet P i (\<lambda>w. w_write j (k w) now w)"
  by (simp add: quiet_iff)

lemma quiet_step_boundary: "quiet P i (step_boundary j)"
  unfolding step_boundary_def by (intro logs_andThen quiet_intros logs_if logs_ret logs_fail refl)

lemma begin_iteration_quiet: "quiet P i (begin_iteration env j def s max_iter iter)"
  unfolding begin_iteration_def Let_def
  by (rule logs_andThen [OF quiet_step_boundary], rule logs_andThen [OF quiet_intros(7)])
    (auto simp: quiet_iff andThen_def dest: run_log_w_writeD split: prod.split sum.split)

lemma loop_attempts_quiet:
  assumes "keeps_log P i env"
  shows "loop_attempts env h i def s st iter max_att att b ctx w = (w', r) \<Longrightarrow> run_log P i w' = run_log P i w"
proof (induction "max_att - att" arbitrary: att b ctx w rule: less_induct)
  case less
  note run = less.prems [unfolded loop_attempts.simps [of env h i def s st iter max_att att b ctx w]]
  show ?case
  proof (cases "budget_timeout h (x_begin env iter att) st (get_timeout def s)")
    case (Inl e)
    with run show ?thesis by simp
  next
    case (Inr tmo)
    obtain w1 ctx1 out where x:
      "x_execute env (executor s) tmo (ctx\<lparr>ctx_budget := budget_for st (sd_id s) att\<rparr>) w = (w1, ctx1, out)"
      by (cases "x_execute env (executor s) tmo (ctx\<lparr>ctx_budget := budget_for st (sd_id s) att\<rparr>) w") auto
    have w1: "run_log P i w1 = run_log P i w"
      using assms x by (auto simp: keeps_log_def dest: spec [of _ "executor s"]) (metis fst_conv)
    have slept: "run_log P i (x_sleep env d w1) = run_log P i w1" for d
      using assms by (simp add: keeps_log_def)
    show ?thesis
    proof (cases "\<not> exec_failed out \<or> \<not> loop_retryable env (executor s) out \<or> max_att \<le> att")
      case True
      with run Inr x w1 show ?thesis by simp
    next
      case False
      then have "max_att - (att + 1) < max_att - att" by auto
      note IH = less.hyps [OF this, unfolded Suc_eq_plus1 [symmetric]]
      from False run Inr x w1 slept show ?thesis
        by (auto split: sum.splits bool.splits option.splits prod.splits dest!: IH)
    qed
  qed
qed

lemma loop_succeeded_log:
  "logs (loop_entry (sd_id s)) i (iteration_log (sd_id s) iter ul) (loop_succeeded env i s iter ul ctx)"
  unfolding loop_succeeded_def Let_def
  by (rule logs_andThen [OF quiet_any_write], rule logs_append_last) (auto simp: quiet_iff)

lemma loop_failed_log:
  "logs (loop_entry (sd_id s)) i (iteration_log (sd_id s) iter ul) (loop_failed env i s iter tmo out)"
  unfolding loop_failed_def Let_def
  by (auto intro!: logs_andThen logs_if logs_fail logs_ret quiet_append)

lemma end_iteration_log:
  "logs (loop_entry (sd_id s)) i (iteration_log (sd_id s) iter ul) (end_iteration env i def s iter ul ctx out)"
  unfolding end_iteration_def
  by (auto intro!: logs_andThen logs_if logs_fail logs_ret loop_succeeded_log loop_failed_log
      split: exec_outcome.split step_result.split)

lemma loop_iteration_log:
  assumes "keeps_log (loop_entry (sd_id s)) i env"
    and "loop_iteration env h i def s max_iter ul iter w = (w', r)"
  shows "\<exists>es. run_log (loop_entry (sd_id s)) i w' = run_log (loop_entry (sd_id s)) i w @ es
    \<and> (case r of None \<Rightarrow> es = [] | Some r \<Rightarrow> iteration_log (sd_id s) iter ul r es)"
proof -
  let ?log = "run_log (loop_entry (sd_id s)) i"
  obtain w1 r1 where b: "begin_iteration env i def s max_iter iter w = (w1, r1)"
    by (cases "begin_iteration env i def s max_iter iter w")
  have w1: "?log w1 = ?log w"
    using begin_iteration_quiet [of "loop_entry (sd_id s)" i env i def s max_iter iter] b
    unfolding quiet_iff by (metis fst_conv)
  show ?thesis
  proof (cases r1)
    case (Inl e)
    with b w1 assms(2) show ?thesis by (auto simp: loop_iteration_def)
  next
    case (Inr sc)
    obtain st ctx where sc: "sc = (st, ctx)" by (cases sc)
    let ?mx = "effective_max_attempts (max_attempts (get_retry_policy def s)) (on_failure s = RetryIndefinitely)"
    let ?run = "loop_attempts env h i def s st iter ?mx 1 (from_strategy (backoff (get_retry_policy def s))) ctx w1"
    obtain w2 r2 where a: "?run = (w2, r2)" by (cases ?run)
    have w2: "?log w2 = ?log w" using loop_attempts_quiet [OF assms(1) a] w1 by simp
    note run = assms(2) [unfolded loop_iteration_def b Inr sc Let_def, simplified, unfolded a [simplified]]
    show ?thesis
    proof (cases r2)
      case None
      with run w2 show ?thesis by auto
    next
      case (Some r2')
      show ?thesis
      proof (cases r2')
        case (Inl e)
        with Some run w2 show ?thesis by auto
      next
        case (Inr co)
        obtain ctx' out where co: "co = (ctx', out)" by (cases co)
        with Some Inr run have w': "w' = fst (end_iteration env i def s iter ul ctx' out w2)"
          "r = Some (snd (end_iteration env i def s iter ul ctx' out w2))"
          by (auto split: prod.splits)
        with end_iteration_log [of s i iter ul env def ctx' out] w2 show ?thesis
          unfolding logs_def by (metis option.simps(5))
      qed
    qed
  qed
qed

text \<open>The iterations that ran, with their outputs.\<close>

lemma loop_over_log:
  assumes "keeps_log (loop_entry (sd_id s)) i env"
  shows "loop_over env h i def s max_iter ul iters executed last_ctx w = (w', r) \<Longrightarrow>
    \<exists>outs. length outs \<le> length iters
      \<and> run_log (loop_entry (sd_id s)) i w'
          = run_log (loop_entry (sd_id s)) i w @ map2 (JLoopIteration (sd_id s)) (take (length outs) iters) outs
      \<and> (\<forall>out\<in>set (butlast outs). \<not> until_met ul out)
      \<and> (\<forall>n c. r = Some (Inr (Inr (n, c))) \<longrightarrow> n = executed + length outs)"
proof (induction iters arbitrary: executed last_ctx w)
  case Nil
  then show ?case by (intro exI [of _ "[]"]) auto
next
  case (Cons iter iters)
  let ?log = "run_log (loop_entry (sd_id s)) i"
  obtain w1 r1 where it: "loop_iteration env h i def s max_iter ul iter w = (w1, r1)"
    by (cases "loop_iteration env h i def s max_iter ul iter w")
  note first = loop_iteration_log [OF assms it]
  note run = Cons.prems [unfolded loop_over.simps it prod.case]
  have stop: ?case if "run_log (loop_entry (sd_id s)) i w1 = run_log (loop_entry (sd_id s)) i w" "w' = w1"
      "\<forall>n c. r = Some (Inr (Inr (n, c))) \<longrightarrow> n = executed"
    using that by (intro exI [of _ "[]"]) auto
  consider c where "r1 = Some (Inr (LNext c))" | c where "r1 = Some (Inr (LMatched c))"
    | "r1 = None \<or> (\<exists>e. r1 = Some (Inl e)) \<or> r1 = Some (Inr LSkipped) \<or> r1 = Some (Inr LFailed)"
    by (metis loop_end.exhaust option.exhaust sum.exhaust)
  then show ?case
  proof cases
    case 1
    with first have w1: "?log w1 = ?log w @ [JLoopIteration (sd_id s) iter (ctx_output c)]"
      and go_on: "\<not> until_met ul (ctx_output c)" by auto
    from 1 run have "loop_over env h i def s max_iter ul iters (executed + 1) (Some c) w1 = (w', r)" by simp
    from Cons.IH [OF this] obtain outs where outs: "length outs \<le> length iters"
      "?log w' = ?log w1 @ map2 (JLoopIteration (sd_id s)) (take (length outs) iters) outs"
      "\<forall>out\<in>set (butlast outs). \<not> until_met ul out"
      "\<forall>n c. r = Some (Inr (Inr (n, c))) \<longrightarrow> n = executed + 1 + length outs" by blast
    with w1 go_on show ?thesis
      by (intro exI [of _ "ctx_output c # outs"]) auto
  next
    case 2
    with first have "?log w1 = ?log w @ [JLoopIteration (sd_id s) iter (ctx_output c)]" by auto
    with 2 run show ?thesis by (intro exI [of _ "[ctx_output c]"]) auto
  next
    case 3
    with first run show ?thesis by (intro stop) auto
  qed
qed

lemma filter_log: "journal (world_store w) i = Inr es \<Longrightarrow> run_log P i w = filter P es"
  by (simp add: run_log_def)

lemma finish_loop_quiet: "quiet (loop_entry sid) i (finish_loop h i sid executed last_ctx)"
  unfolding finish_loop_def
  by (cases last_ctx) (auto intro!: logs_andThen logs_ret quiet_append)

lemma finish_loop_logD:
  "finish_loop h i sid executed last_ctx w = (w', r) \<Longrightarrow> run_log (loop_entry sid) i w' = run_log (loop_entry sid) i w"
  using finish_loop_quiet [of sid i h executed last_ctx] unfolding quiet_iff by (metis fst_conv)

lemma execute_loop_log:
  assumes "keeps_log (loop_entry (sd_id s)) i env" "mode s = Loop max_iter until"
    and "journal (world_store w) i = Inr es"
    and "execute_loop env h i def s w = (w', r)"
  shows "\<exists>outs. length outs \<le> max_iter - resume_from (sd_id s) es
    \<and> run_log (loop_entry (sd_id s)) i w' = run_log (loop_entry (sd_id s)) i w
        @ map2 (JLoopIteration (sd_id s))
            (take (length outs) [resume_from (sd_id s) es + 1..<max_iter + 1]) outs
    \<and> (\<forall>out\<in>set (butlast outs). \<not> until_met (to_lowercase until) out)"
proof -
  let ?from = "resume_from (sd_id s) es"
  let ?run = "loop_over env h i def s max_iter (to_lowercase until) [?from + 1..<max_iter + 1] ?from None w"
  obtain w1 r1 where lo: "?run = (w1, r1)" by (cases ?run)
  from loop_over_log [OF assms(1) lo] obtain outs where len: "length outs \<le> length [?from + 1..<max_iter + 1]" and outs:
    "run_log (loop_entry (sd_id s)) i w1 = run_log (loop_entry (sd_id s)) i w
        @ map2 (JLoopIteration (sd_id s)) (take (length outs) [?from + 1..<max_iter + 1]) outs"
    "\<forall>out\<in>set (butlast outs). \<not> until_met (to_lowercase until) out" by blast
  from len have "length outs \<le> max_iter - ?from" by (simp del: upt_Suc)
  moreover have "run_log (loop_entry (sd_id s)) i w' = run_log (loop_entry (sd_id s)) i w1"
    using assms(4) [unfolded execute_loop_def assms(2,3) step_mode.case sum.case Let_def lo prod.case]
    by (auto dest: finish_loop_logD
        split: option.splits sum.splits prod.splits)
  ultimately show ?thesis using outs by metis
qed

section \<open>Properties\<close>

text \<open>
  C25: A loop step resumes where it stopped. Whatever happens to a run of the loop (success,
  failure, pause, cancellation, panic), the iterations it adds to the journal are numbered on
  from the highest one that was there, without gap or repetition and never beyond the maximum;
  only the last of them can have met the \<open>until\<close> condition.
\<close>

theorem loop_iterations_consecutive:
  assumes "keeps_log (loop_entry (sd_id s)) i env" "mode s = Loop max_iter until"
    and "journal (world_store w) i = Inr es" "journal (world_store w') i = Inr es'"
    and "execute_loop env h i def s w = (w', r)"
  shows "\<exists>outs. iterations (sd_id s) es' = iterations (sd_id s) es
        @ [resume_from (sd_id s) es + 1..<resume_from (sd_id s) es + 1 + length outs]
    \<and> resume_from (sd_id s) es + length outs \<le> max max_iter (resume_from (sd_id s) es)
    \<and> filter (loop_entry (sd_id s)) es' = filter (loop_entry (sd_id s)) es
        @ map2 (JLoopIteration (sd_id s))
            [resume_from (sd_id s) es + 1..<resume_from (sd_id s) es + 1 + length outs] outs
    \<and> (\<forall>out\<in>set (butlast outs). \<not> until_met (to_lowercase until) out)"
proof -
  let ?from = "resume_from (sd_id s) es"
  obtain outs where outs: "length outs \<le> max_iter - ?from"
    "run_log (loop_entry (sd_id s)) i w' = run_log (loop_entry (sd_id s)) i w
        @ map2 (JLoopIteration (sd_id s)) (take (length outs) [?from + 1..<max_iter + 1]) outs"
    "\<forall>out\<in>set (butlast outs). \<not> until_met (to_lowercase until) out"
    using execute_loop_log [OF assms(1,2,3,5)] by blast
  have nums: "take (length outs) [?from + 1..<max_iter + 1] = [?from + 1..<?from + 1 + length outs]"
    using outs(1) by (cases "length outs") (simp_all add: take_upt del: upt_Suc)
  have its: "iterations (sd_id s) (map2 (JLoopIteration (sd_id s)) ns xs) = ns" if "length ns = length xs" for ns xs
    using that by (induction ns xs rule: list_induct2) auto
  have log: "filter (loop_entry (sd_id s)) es' = filter (loop_entry (sd_id s)) es
      @ map2 (JLoopIteration (sd_id s)) [?from + 1..<?from + 1 + length outs] outs"
    using outs(2) nums filter_log [OF assms(3)] filter_log [OF assms(4)] by metis
  then have "iterations (sd_id s) es' = iterations (sd_id s) es @ [?from + 1..<?from + 1 + length outs]"
    using its [of "[?from + 1..<?from + 1 + length outs]" outs]
    by (metis (no_types, lifting) add_diff_cancel_left' iterations_append iterations_filter length_upt)
  with log outs show ?thesis by (intro exI [of _ outs]) auto
qed

text \<open>A run whose loop step was interrupted after its first iteration.\<close>

definition demo_loop :: "(unit, nat) step_definition" where
  "demo_loop = (demo_step 0)\<lparr>mode := Loop 2 ''DONE''\<rparr>"

definition loop_world :: "(unit, nat) world" where
  "loop_world = demo_world\<lparr>world_store :=
     fst (append_journal 1 (JLoopIteration ''s'' 1 ''all done'') (world_store demo_world))\<rparr>"

lemma loop_world_sel [simp]:
  "states (world_store loop_world) = [(1, detach demo_run)]"
  "journals (world_store loop_world) = [1 \<mapsto> [JLoopIteration ''s'' 1 ''all done'']]"
  "eng loop_world = demo_engine"
  by (simp_all add: loop_world_def append_journal_def Let_def)

lemma demo_loop_sel [simp]:
  "sd_id demo_loop = ''s''" "mode demo_loop = Loop 2 ''DONE''" "executor demo_loop = 0"
  "on_failure demo_loop = FailWorkflow" "sd_retry_policy demo_loop = None" "output_var demo_loop = None"
  "sd_timeout demo_loop = None"
  by (simp_all add: demo_loop_def)

lemma resume_demo: "resume_from ''s'' [JLoopIteration ''s'' (Suc 0) ''all done''] = 1"
  by (simp add: resume_from_def)

lemma demo_loop_attempt:
  "st_budget st = None \<Longrightarrow>
   loop_attempts demo_env h i def demo_loop st iter mx att b ctx w = (w, Some (Inr (ctx\<lparr>ctx_budget := None\<rparr>, XDone RSuccess)))"
  by (subst loop_attempts.simps) (simp add: budget_timeout_def exec_failed_def budget_for_def)

lemma loop_again:
  "\<exists>w' es. execute_loop demo_env demo_host 1 (new_definition ''wf'' ''wf'') demo_loop loop_world = (w', Some (Inr RSuccess))
    \<and> journal (world_store w') 1 = Inr es \<and> iterations ''s'' es = [1, 2]"
  by (simp add: execute_loop_def resume_demo upt_rec loop_iteration_def begin_iteration_def
      demo_loop_attempt end_iteration_def loop_succeeded_def loop_context_def record_iteration_def mark_iteration_def
      until_met_def finish_loop_def exec_eval)
text \<open>
  The condition of a loop is not looked at when the loop is resumed. The journal says that the
  first iteration met it; the process died before the step was journaled as done; and the
  recovered run executes a second iteration.
\<close>

lemma matched_loop_runs_again:
  "journal (world_store loop_world) 1 = Inr [JLoopIteration ''s'' 1 ''all done'']
    \<and> mode demo_loop = Loop 2 ''DONE'' \<and> until_met (to_lowercase ''DONE'') ''all done''
    \<and> (\<exists>w' es. execute_loop demo_env demo_host 1 (new_definition ''wf'' ''wf'') demo_loop loop_world
          = (w', Some (Inr RSuccess))
        \<and> journal (world_store w') 1 = Inr es \<and> iterations ''s'' es = [1, 2])"
proof (intro conjI loop_again)
  show "until_met (to_lowercase ''DONE'') ''all done''" by code_simp
qed (simp_all add: journal_def)

theorem loop_iterations_consecutive_witness:
  "\<exists>w' es outs. execute_loop demo_env demo_host 1 (new_definition ''wf'' ''wf'') demo_loop loop_world
      = (w', Some (Inr RSuccess))
    \<and> filter (loop_entry ''s'') es
        = [JLoopIteration ''s'' 1 ''all done''] @ map2 (JLoopIteration ''s'') [2..<2 + length outs] outs"
proof -
  obtain w' es where run: "execute_loop demo_env demo_host 1 (new_definition ''wf'' ''wf'') demo_loop loop_world
      = (w', Some (Inr RSuccess))" "journal (world_store w') 1 = Inr es"
    using loop_again by blast
  have "journal (world_store loop_world) 1 = Inr [JLoopIteration ''s'' 1 ''all done'']"
    by (simp add: journal_def)
  from loop_iterations_consecutive [OF demo_env_keeps_log demo_loop_sel(2) this run(2,1)]
  obtain outs where "filter (loop_entry ''s'') es
      = [JLoopIteration ''s'' 1 ''all done''] @ map2 (JLoopIteration ''s'') [1 + 1..<1 + 1 + length outs] outs"
    by (auto simp: resume_demo)
  moreover have "1 + 1 = (2::nat)" by simp
  ultimately show ?thesis using run(1) by metis
qed

end
