(* ===== verification/Str_Ops.thy ===== *)
theory Str_Ops
  imports Prelude
begin

text \<open>
  The operations of Rust's \<^verbatim>\<open>str\<close> that search and cut: the first occurrence of a pattern, replacing
  all of them, and splitting at a character. Shared by the theories on text (\<open>Wf_Variables\<close>,
  \<open>Git_Policy\<close>).
\<close>

section \<open>The first occurrence of a pattern\<close>

text \<open>What stands before and after it: \<open>s.find(p)\<close> with the two slices around the match.\<close>

fun split_at_str :: "string \<Rightarrow> string \<Rightarrow> (string \<times> string) option" where
  "split_at_str p [] = (if p = [] then Some ([], []) else None)"
| "split_at_str p (c # s) =
     (if prefix p (c # s) then Some ([], drop (length p) (c # s))
      else (case split_at_str p s of None \<Rightarrow> None | Some (a, b) \<Rightarrow> Some (c # a, b)))"

lemma split_at_str_Some: "split_at_str p s = Some (a, b) \<Longrightarrow> s = a @ p @ b"
proof (induction s arbitrary: a b)
  case Nil
  then show ?case by (simp split: if_splits)
next
  case (Cons c s)
  then show ?case
    by (fastforce simp: prefix_def split: if_splits option.splits)
qed

lemma split_at_str_None: "split_at_str p s = None \<longleftrightarrow> \<not> str_contains p s"
  by (induction s) (auto split: option.splits)

lemma split_at_str_shorter:
  "split_at_str p s = Some (a, b) \<Longrightarrow> p \<noteq> [] \<Longrightarrow> length b < length s"
  by (drule split_at_str_Some) simp

section \<open>Replacing every occurrence\<close>

text \<open>\<open>s.replace(p, r)\<close> for a pattern that is not empty.\<close>

function replace_all :: "string \<Rightarrow> string \<Rightarrow> string \<Rightarrow> string" where
  "replace_all p r s =
     (if p = [] then s
      else (case split_at_str p s of
              None \<Rightarrow> s
            | Some (a, b) \<Rightarrow> a @ r @ replace_all p r b))"
  by pat_completeness auto
termination
  by (relation "measure (\<lambda>(p, r, s). length s)") (auto dest: split_at_str_shorter)

declare replace_all.simps [simp del]

lemma replace_all_absent: "\<not> str_contains p s \<Longrightarrow> replace_all p r s = s"
  by (simp add: replace_all.simps [of p r s] split_at_str_None [symmetric])

lemma replace_all_same: "replace_all p p s = s"
proof (induction s rule: length_induct)
  case (1 s)
  show ?case
  proof (cases "p = []")
    case True
    then show ?thesis using replace_all.simps [of p p s] by simp
  next
    case False
    with 1 show ?thesis
      by (auto simp: replace_all.simps [of p p s] split: option.split
          dest: split_at_str_shorter split_at_str_Some)
  qed
qed

section \<open>Splitting\<close>

text \<open>\<open>s.split(c)\<close>: one segment more than there are separators.\<close>

fun split_on :: "char \<Rightarrow> string \<Rightarrow> string list" where
  "split_on d [] = [[]]"
| "split_on d (c # s) =
     (if c = d then [] # split_on d s
      else (case split_on d s of [] \<Rightarrow> [[c]] | w # ws \<Rightarrow> (c # w) # ws))"

lemma split_on_not_Nil [simp]: "split_on d s \<noteq> []"
  by (induction s) (auto split: list.split)

text \<open>Splitting is undone by joining with the separator.\<close>

lemma str_join_split_on: "str_join [d] (split_on d s) = s"
proof (induction s)
  case Nil
  show ?case by simp
next
  case (Cons c s)
  then show ?case
    by (cases "split_on d s"; cases "tl (split_on d s)") auto
qed

lemma split_on_no_sep: "w \<in> set (split_on d s) \<Longrightarrow> d \<notin> set w"
  by (induction s arbitrary: w) (auto split: if_splits list.splits)

section \<open>White space and lines\<close>

text \<open>\<open>char::is_whitespace\<close> and \<open>str::trim\<close>, on ASCII text.\<close>

definition is_space :: "char \<Rightarrow> bool" where
  "is_space c \<longleftrightarrow> of_char c \<in> {9, 10, 11, 12, 13, 32 :: nat}"

definition trim :: "string \<Rightarrow> string" where
  "trim s = rev (dropWhile is_space (rev (dropWhile is_space s)))"

lemma trim_Nil [simp]: "trim [] = []"
  by (simp add: trim_def)

text \<open>\<open>str::lines\<close> and \<open>BufRead::lines\<close>: without the line ends, and no empty line after the last end.\<close>

definition strip_cr :: "string \<Rightarrow> string" where
  "strip_cr s = (if s \<noteq> [] \<and> last s = CHR 13 then butlast s else s)"

definition text_lines :: "string \<Rightarrow> string list" where
  "text_lines s =
     (let ws = split_on (CHR 10) s
      in map strip_cr (butlast ws) @ (if last ws = [] then [] else [last ws]))"

text \<open>The words of a text, split at runs of white space.\<close>

fun split_ws :: "string \<Rightarrow> string \<Rightarrow> string list" where
  "split_ws cur [] = (if cur = [] then [] else [cur])"
| "split_ws cur (c # s) =
     (if is_space c then (if cur = [] then split_ws [] s else cur # split_ws [] s)
      else split_ws (cur @ [c]) s)"

definition split_whitespace :: "string \<Rightarrow> string list" where
  "split_whitespace s = split_ws [] s"

section \<open>Decimal numerals\<close>

text \<open>\<open>to_string\<close> of an unsigned number; \<open>parse_u64\<close> reads it back.\<close>

definition digit_char :: "nat \<Rightarrow> char" where
  "digit_char d = char_of (48 + d)"

fun show_nat :: "nat \<Rightarrow> string" where
  "show_nat n = (if n < 10 then [digit_char n] else show_nat (n div 10) @ [digit_char (n mod 10)])"

declare show_nat.simps [simp del]

lemma digit_val_char: "d < 10 \<Longrightarrow> digit_val (digit_char d) = Some d"
proof -
  assume "d < 10"
  then have "d \<in> {0, 1, 2, 3, 4, 5, 6, 7, 8, 9}" by auto
  then show ?thesis by (auto simp: digit_val_def digit_char_def less_eq_char_def)
qed

lemma parse_digits_append:
  "parse_digits acc (xs @ ys) = (case parse_digits acc xs of None \<Rightarrow> None | Some n \<Rightarrow> parse_digits n ys)"
  by (induction xs arbitrary: acc) (auto split: option.split)

lemma parse_digits_show: "n \<le> u64_max \<Longrightarrow> parse_digits 0 (show_nat n) = Some n"
proof (induction n rule: show_nat.induct)
  case (1 n)
  show ?case
  proof (cases "n < 10")
    case True
    then show ?thesis by (simp add: show_nat.simps [of n] digit_val_char 1)
  next
    case False
    then have "parse_digits 0 (show_nat (n div 10)) = Some (n div 10)" using 1 by auto
    with False 1(2) show ?thesis
      by (simp add: show_nat.simps [of n] parse_digits_append digit_val_char)
  qed
qed

lemma show_nat_hd: "\<exists>d s. show_nat n = digit_char d # s \<and> d < 10"
proof (induction n rule: show_nat.induct)
  case (1 n)
  then show ?case by (cases "n < 10") (auto simp: show_nat.simps [of n])
qed

lemma parse_show_nat: "n \<le> u64_max \<Longrightarrow> parse_u64 (show_nat n) = Some n"
proof -
  assume n: "n \<le> u64_max"
  obtain d s where ds: "show_nat n = digit_char d # s" "d < 10" using show_nat_hd by blast
  from ds(2) have "digit_char d \<noteq> CHR ''+''" using digit_val_char [of d] by (auto simp: digit_val_def)
  with ds n show ?thesis
    using parse_digits_show [of n] by (simp add: parse_u64_def del: parse_digits.simps)
qed

end
