(* ===== verification/Wf_Waits.thy ===== *)
theory Wf_Waits
  imports Wf_Exec Str_Ops
begin

text \<open>
  Durable waits, \<^verbatim>\<open>crates/flare-workflow/src/waits.rs\<close>: a sleep journals its timer and takes it up
  again after a restart; a wait for an event journals a promise that \<open>complete_event\<close>, called
  from any process, resolves.
\<close>

section \<open>Sleep\<close>

datatype wake_at = Relative nat | Absolute time

text \<open>
  \<open>duration_secs as i64\<close> wraps; \<open>chrono::Duration::seconds\<close> panics beyond \<open>i64::MAX\<close> milliseconds and
  the addition beyond chrono's range of time stamps.
\<close>

definition wake_resolve :: "'d host \<Rightarrow> time \<Rightarrow> wake_at \<Rightarrow> time option" where
  "wake_resolve h now wk =
     (case wk of
        Relative n \<Rightarrow>
          (let secs = as_i64 n; t = now + secs * 1000000000
           in if abs secs \<le> (2 ^ 63 - 1) div 1000 \<and> ts_ok h t then Some t else None)
      | Absolute t \<Rightarrow> Some t)"

definition pending_timer :: "step_id \<Rightarrow> journal_entry list \<Rightarrow> time option" where
  "pending_timer sid es =
     (case find (\<lambda>e. case e of JSleep j _ None \<Rightarrow> j = sid | _ \<Rightarrow> False) es of
        Some (JSleep _ t _) \<Rightarrow> Some t
      | _ \<Rightarrow> None)"

definition to_waiting :: "'d workflow_state \<Rightarrow> 'd workflow_state" where
  "to_waiting st = (if is_terminal (status st) then st else st\<lparr>status := WWaiting\<rparr>)"

definition to_running :: "'d workflow_state \<Rightarrow> 'd workflow_state" where
  "to_running st = (if status st = WWaiting then st\<lparr>status := WRunning\<rparr> else st)"

definition wait_succeeded :: "step_id \<Rightarrow> time \<Rightarrow> 'd workflow_state \<Rightarrow> 'd workflow_state" where
  "wait_succeeded sid now = modify_step sid (\<lambda>ss. ss\<lparr>ss_status := SSucceeded, ss_completed_at := Some now\<rparr>)"

text \<open>From the moment the wake time is known.\<close>

definition sleep_until ::
  "('d, 'x) exec_env \<Rightarrow> (time \<Rightarrow> string) \<Rightarrow> run_id \<Rightarrow> step_id \<Rightarrow> time \<Rightarrow> time \<Rightarrow> time \<Rightarrow> (('d, 'x) world, step_result) act" where
  "sleep_until env show_time i sid wake now woken =
     andThen (w_write i to_waiting now) (\<lambda>_.
     andThen (publish (EvStepWaiting i sid (''sleep until '' @ show_time wake))) (\<lambda>_.
     andThen (modify (x_sleep env (nat (wake - now)))) (\<lambda>_.
     andThen (w_append i (JSleep sid wake (Some (ESuccess [])))) (\<lambda>_.
     andThen (w_write i (\<lambda>st. wait_succeeded sid woken (to_running st)) woken) (\<lambda>_. ret RSuccess)))))"

definition execute_sleep ::
  "('d, 'x) exec_env \<Rightarrow> 'd host \<Rightarrow> (time \<Rightarrow> string) \<Rightarrow> run_id \<Rightarrow> step_id \<Rightarrow> wake_at \<Rightarrow> time \<Rightarrow> time
     \<Rightarrow> ('d, 'x) world \<Rightarrow> ('d, 'x) world \<times> step_result wf_result option" where
  "execute_sleep env h show_time i sid wk now woken w =
     (case is_cancelled (world_store w) i of
        Inl e \<Rightarrow> (w, Some (Inl e))
      | Inr True \<Rightarrow> (w, Some (Inl (Cancelled i)))
      | Inr False \<Rightarrow>
          (case journal (world_store w) i of
             Inl e \<Rightarrow> (w, Some (Inl e))
           | Inr es \<Rightarrow>
               (case pending_timer sid es of
                  Some wake \<Rightarrow> (case sleep_until env show_time i sid wake now woken w of (w', r) \<Rightarrow> (w', Some r))
                | None \<Rightarrow>
                    (case wake_resolve h now wk of
                       None \<Rightarrow> (w, None)
                     | Some wake \<Rightarrow>
                         (case andThen (w_append i (JSleep sid wake None))
                                 (\<lambda>_. sleep_until env show_time i sid wake now woken) w of
                            (w', r) \<Rightarrow> (w', Some r))))))"

section \<open>Waiting for an event\<close>

definition delivered :: "string \<Rightarrow> journal_entry \<Rightarrow> bool" where
  "delivered name e = (case e of JWaitEvent n (Some _) \<Rightarrow> n = name | _ \<Rightarrow> False)"

definition promised :: "string \<Rightarrow> journal_entry \<Rightarrow> bool" where
  "promised name e = (case e of JWaitEvent n None \<Rightarrow> n = name | _ \<Rightarrow> False)"

text \<open>
  What the waiting task sees, in order: a tick of its timer, before which others have acted, a
  result sent by \<open>complete_event\<close> in this process, or the end of the channel. When the list is
  used up the timeout fires.
\<close>

datatype ('d, 'x) wait_input =
    Tick "('d, 'x) world \<Rightarrow> ('d, 'x) world"
  | Resolved "('d, 'x) world \<Rightarrow> ('d, 'x) world" entry_result
  | ChannelClosed

definition quoted :: "string \<Rightarrow> string" where
  "quoted name = [CHR 0x27] @ name @ [CHR 0x27]"

fun wait_loop ::
  "(run_id \<Rightarrow> string) \<Rightarrow> run_id \<Rightarrow> string \<Rightarrow> nat \<Rightarrow> ('d, 'x) wait_input list \<Rightarrow> ('d, 'x) world
     \<Rightarrow> ('d, 'x) world \<times> (string + entry_result)" where
  "wait_loop sr i name secs [] w =
     (w, Inl (''wait for event '' @ quoted name @ '' timed out after '' @ show_nat secs @ ''s''))"
| "wait_loop sr i name secs (ChannelClosed # ins) w = (w, Inl ''wait channel closed'')"
| "wait_loop sr i name secs (Resolved g r # ins) w = (g w, Inr r)"
| "wait_loop sr i name secs (Tick g # ins) w =
     (case journal (world_store (g w)) i of
        Inl e \<Rightarrow> (g w, Inl (error_text sr e))
      | Inr es \<Rightarrow>
          (case find (delivered name) (rev es) of
             Some (JWaitEvent _ (Some r)) \<Rightarrow> (g w, Inr r)
           | _ \<Rightarrow> wait_loop sr i name secs ins (g w)))"

definition wait_failed :: "step_id \<Rightarrow> string \<Rightarrow> time \<Rightarrow> 'd workflow_state \<Rightarrow> 'd workflow_state" where
  "wait_failed sid msg now st =
     modify_step sid (\<lambda>ss. ss\<lparr>ss_status := SFailed, ss_last_error := Some msg, ss_completed_at := Some now\<rparr>)
       ((to_running st)\<lparr>current_step := Some sid\<rparr>)"

text \<open>What the step does when its wait is over.\<close>

definition wait_over ::
  "run_id \<Rightarrow> step_id \<Rightarrow> string \<Rightarrow> time \<Rightarrow> string + entry_result \<Rightarrow> (('d, 'x) world, step_result) act" where
  "wait_over i sid name now outcome =
     (case outcome of
        Inr r \<Rightarrow>
          andThen (w_append i (JWaitEvent name (Some r))) (\<lambda>_.
          andThen (w_write i (\<lambda>st. wait_succeeded sid now (to_running st)) now) (\<lambda>_. ret RSuccess))
      | Inl msg \<Rightarrow>
          andThen (w_append i (JWaitEvent name (Some (EFailure 2 msg [])))) (\<lambda>_.
          andThen (w_write i (wait_failed sid msg now) now) (\<lambda>_. ret RFailure)))"

definition await_event ::
  "(run_id \<Rightarrow> string) \<Rightarrow> run_id \<Rightarrow> step_id \<Rightarrow> string \<Rightarrow> nat \<Rightarrow> ('d, 'x) wait_input list \<Rightarrow> bool \<Rightarrow> time \<Rightarrow> time
     \<Rightarrow> (('d, 'x) world, step_result) act" where
  "await_event sr i sid name secs ins already_promised now woken =
     andThen (if already_promised then ret () else w_append i (JWaitEvent name None)) (\<lambda>_.
     andThen (w_write i to_waiting now) (\<lambda>_.
     andThen (publish (EvStepWaiting i sid (''wait for event '' @ quoted name))) (\<lambda>_ w.
       case wait_loop sr i name secs ins w of (w', outcome) \<Rightarrow> wait_over i sid name woken outcome w')))"

definition execute_wait_event ::
  "(run_id \<Rightarrow> string) \<Rightarrow> run_id \<Rightarrow> step_id \<Rightarrow> string \<Rightarrow> nat \<Rightarrow> ('d, 'x) wait_input list \<Rightarrow> time \<Rightarrow> time
     \<Rightarrow> (('d, 'x) world, step_result) act" where
  "execute_wait_event sr i sid name secs ins now woken =
     andThen (lift_res (\<lambda>w. is_cancelled (world_store w) i)) (\<lambda>c.
       if c then fail (Cancelled i)
       else andThen (w_journal i) (\<lambda>es.
         if list_ex (delivered name) es
         then andThen (w_write i (wait_succeeded sid now) now) (\<lambda>_. ret RSuccess)
         else await_event sr i sid name secs ins (list_ex (promised name) es) now woken))"

text \<open>
  The waiters of this process are keyed by run, step and event name; a completion is sent to every
  waiter whose key begins and ends right.
\<close>

definition waiter_key :: "(run_id \<Rightarrow> string) \<Rightarrow> run_id \<Rightarrow> step_id \<Rightarrow> string \<Rightarrow> string" where
  "waiter_key sr i sid name = sr i @ '':'' @ sid @ '':'' @ name"

definition woken_by :: "(run_id \<Rightarrow> string) \<Rightarrow> run_id \<Rightarrow> string \<Rightarrow> string \<Rightarrow> bool" where
  "woken_by sr i name key \<longleftrightarrow> prefix (sr i @ '':'') key \<and> suffix ('':'' @ name) key"

definition complete_event ::
  "(run_id \<Rightarrow> string) \<Rightarrow> run_id \<Rightarrow> string \<Rightarrow> entry_result \<Rightarrow> string list \<Rightarrow> ('d, 'x) world
     \<Rightarrow> ('d, 'x) world \<times> string list \<times> (string \<times> entry_result) list" where
  "complete_event sr i name r waiters w =
     (fst (w_append i (JWaitEvent name (Some r)) w),
      filter (\<lambda>k. \<not> woken_by sr i name k) waiters,
      map (\<lambda>k. (k, r)) (filter (woken_by sr i name) waiters))"

section \<open>The timer of a sleep\<close>

definition timer_entry :: "step_id \<Rightarrow> journal_entry \<Rightarrow> bool" where
  "timer_entry sid e = (case e of JSleep j _ _ \<Rightarrow> j = sid | _ \<Rightarrow> False)"

lemma timer_entry_simps [simp]: "timer_entry sid (JSleep j t r) \<longleftrightarrow> j = sid"
  by (simp add: timer_entry_def)

lemma pending_timer_Cons:
  "pending_timer sid (e # es) =
     (case e of JSleep j t None \<Rightarrow> if j = sid then Some t else pending_timer sid es | _ \<Rightarrow> pending_timer sid es)"
  by (auto simp: pending_timer_def split: journal_entry.split option.split)

lemma pending_timer_append:
  "pending_timer sid (es @ fs) = (case pending_timer sid es of Some t \<Rightarrow> Some t | None \<Rightarrow> pending_timer sid fs)"
proof (induction es)
  case Nil
  then show ?case by (simp add: pending_timer_def)
next
  case (Cons e es)
  then show ?case by (auto simp: pending_timer_Cons split: journal_entry.split option.split)
qed

lemma pending_timer_filter: "pending_timer sid (filter (timer_entry sid) es) = pending_timer sid es"
proof (induction es)
  case Nil
  then show ?case by simp
next
  case (Cons e es)
  then show ?case by (auto simp: pending_timer_Cons timer_entry_def split: journal_entry.split option.split)
qed

lemma sleep_until_log:
  assumes "keeps_log (timer_entry sid) i env"
  shows "logs (timer_entry sid) i
    (\<lambda>r es. es = [] \<and> r \<noteq> Inr RSuccess \<or> es = [JSleep sid wake (Some (ESuccess []))])
    (sleep_until env show_time i sid wake now woken)"
  unfolding sleep_until_def
  by (rule logs_andThen, rule quiet_intros, rule logs_andThen, rule quiet_intros, rule logs_andThen,
      rule quiet_modify, use assms in \<open>simp add: keeps_log_def\<close>, rule logs_append_last)
    (auto intro!: logs_andThen logs_ret)

lemma execute_sleep_log:
  assumes "keeps_log (timer_entry sid) i env" "journal (world_store w) i = Inr es"
    and "execute_sleep env h show_time i sid wk now woken w = (w', Some r)"
  shows "\<exists>new. run_log (timer_entry sid) i w' = run_log (timer_entry sid) i w @ new
    \<and> (new = [] \<and> r \<noteq> Inr RSuccess
      \<or> (\<exists>t. pending_timer sid es = Some t \<and> new = [JSleep sid t (Some (ESuccess []))])
      \<or> (\<exists>t. pending_timer sid es = None \<and> wake_resolve h now wk = Some t
            \<and> (new = [JSleep sid t None] \<and> r \<noteq> Inr RSuccess
               \<or> new = [JSleep sid t None, JSleep sid t (Some (ESuccess []))])))"
proof -
  let ?log = "run_log (timer_entry sid) i"
  have sl: "\<exists>new. ?log (fst (sleep_until env show_time i sid t now woken v)) = ?log v @ new
      \<and> (new = [] \<and> snd (sleep_until env show_time i sid t now woken v) \<noteq> Inr RSuccess
         \<or> new = [JSleep sid t (Some (ESuccess []))])" for t v
    using sleep_until_log [OF assms(1)] unfolding logs_def by blast
  consider "w' = w \<and> r \<noteq> Inr RSuccess"
    | t where "pending_timer sid es = Some t" "sleep_until env show_time i sid t now woken w = (w', r)"
    | t where "pending_timer sid es = None" "wake_resolve h now wk = Some t"
      "sleep_until env show_time i sid t now woken (fst (w_append i (JSleep sid t None) w)) = (w', r)"
    using assms(2,3) unfolding execute_sleep_def
    by (auto simp: andThen_def w_append_def split: sum.splits bool.splits option.splits prod.splits)
  then show ?thesis
  proof cases
    case 1
    then show ?thesis by (intro exI [of _ "[]"]) auto
  next
    case 2
    with sl [of t w] show ?thesis by fastforce
  next
    case 3
    with sl [of t "fst (w_append i (JSleep sid t None) w)"]
    obtain new where new: "?log w' = (?log w @ [JSleep sid t None]) @ new"
      "new = [] \<and> r \<noteq> Inr RSuccess \<or> new = [JSleep sid t (Some (ESuccess []))]" by auto
    then show ?thesis using 3 by (intro exI [of _ "JSleep sid t None # new"]) auto
  qed
qed

section \<open>The promise of an event\<close>

lemma journal_w_append:
  "journal (world_store (fst (w_append i e w))) i =
     Inr ((case journal (world_store w) i of Inl _ \<Rightarrow> [] | Inr es \<Rightarrow> es) @ [e])"
  by (auto simp: w_append_def append_journal_def journal_def Let_def split: option.split)

lemma w_write_journal: "w_write j k now w = (w', r) \<Longrightarrow> journal (world_store w') i = journal (world_store w) i"
  by (auto simp: w_write_def w_update_def store_update_def journal_def split: option.splits)

lemma is_cancelled_load: "is_cancelled m i = Inr c \<Longrightarrow> \<exists>st. load m i = Inr st \<and> map_of (states m) i = Some st"
  by (auto simp: is_cancelled_def load_def split: option.splits)

lemma wait_delivered:
  assumes "is_cancelled (world_store w) i = Inr False" "journal (world_store w) i = Inr es"
    and "list_ex (delivered name) es"
  shows "snd (execute_wait_event sr i sid name secs ins now woken w) = Inr RSuccess"
  using assms is_cancelled_load [OF assms(1)]
  by (auto simp: execute_wait_event_def andThen_def w_journal_def w_write_def w_update_def store_update_def)

lemma wait_over_failed:
  assumes "wait_over i sid name now outcome w = (w', Inr RFailure)"
  shows "\<exists>msg es. journal (world_store w') i = Inr (es @ [JWaitEvent name (Some (EFailure 2 msg []))])"
proof (cases outcome)
  case (Inr r)
  with assms show ?thesis by (auto simp: wait_over_def andThen_def split: prod.splits sum.splits)
next
  case (Inl msg)
  let ?e = "JWaitEvent name (Some (EFailure 2 msg []))"
  obtain r where wr: "w_write i (wait_failed sid msg now) now (fst (w_append i ?e w)) = (w', r)"
    using assms Inl by (auto simp: wait_over_def andThen_def w_append_def split: prod.splits sum.splits)
  then have "journal (world_store w') i = journal (world_store (fst (w_append i ?e w))) i"
    by (rule w_write_journal)
  then show ?thesis by (auto simp: journal_w_append)
qed

lemma wait_failed_journal:
  assumes "execute_wait_event sr i sid name secs ins now woken w = (w', Inr RFailure)"
  shows "\<exists>msg es. journal (world_store w') i = Inr (es @ [JWaitEvent name (Some (EFailure 2 msg []))])"
proof -
  have "\<exists>v outcome. wait_over i sid name woken outcome v = (w', Inr RFailure)"
    using assms
    by (auto simp: execute_wait_event_def await_event_def andThen_def w_append_def publish_def w_journal_def
        split: prod.splits sum.splits if_splits)
  then show ?thesis using wait_over_failed by blast
qed

section \<open>Properties\<close>

text \<open>
  A sleep keeps its deadline across restarts. A timer that is pending in the journal is taken
  up as it is, never set anew; the first execution sets the one that was asked for; and a sleep
  that ends well journals that same deadline as fired.
\<close>

lemma sleep_deadline_kept:
  assumes "keeps_log (timer_entry sid) i env"
    and "journal (world_store w) i = Inr es" "journal (world_store w') i = Inr es'"
    and "execute_sleep env h show_time i sid wk now woken w = (w', Some r)"
  shows "(\<forall>t. pending_timer sid es = Some t \<longrightarrow> pending_timer sid es' = Some t)
    \<and> (r = Inr RSuccess \<longrightarrow> (\<exists>t. pending_timer sid es' = Some t
          \<and> JSleep sid t (Some (ESuccess [])) \<in> set es'
          \<and> (pending_timer sid es = Some t \<or> pending_timer sid es = None \<and> wake_resolve h now wk = Some t)))"
proof -
  let ?F = "filter (timer_entry sid)"
  obtain new where new: "run_log (timer_entry sid) i w' = run_log (timer_entry sid) i w @ new"
    and shape: "new = [] \<and> r \<noteq> Inr RSuccess
      \<or> (\<exists>t. pending_timer sid es = Some t \<and> new = [JSleep sid t (Some (ESuccess []))])
      \<or> (\<exists>t. pending_timer sid es = None \<and> wake_resolve h now wk = Some t
            \<and> (new = [JSleep sid t None] \<and> r \<noteq> Inr RSuccess
               \<or> new = [JSleep sid t None, JSleep sid t (Some (ESuccess []))]))"
    using execute_sleep_log [OF assms(1,2,4)] by blast
  have log: "?F es' = ?F es @ new" using new assms(2,3) by (simp add: run_log_def)
  then have "pending_timer sid es' = pending_timer sid (?F es @ new)"
    by (metis pending_timer_filter)
  then have pend: "pending_timer sid es'
      = (case pending_timer sid es of Some t \<Rightarrow> Some t | None \<Rightarrow> pending_timer sid new)"
    by (simp add: pending_timer_append pending_timer_filter)
  have mem: "set new \<subseteq> set es'" using log by (metis filter_is_subset le_supE set_append)
  from shape show ?thesis
    using pend mem by (auto simp: pending_timer_Cons)
qed

text \<open>
  A completion is not lost. An event completed before the step waits for it, in this process
  or another, ends the wait at once; completed while the step waits, it ends the wait at the next
  tick with the result it was given, also when no message reached the waiting task.
\<close>

lemma completed_event_found:
  assumes "is_cancelled (world_store w) i = Inr False"
  shows "snd (execute_wait_event sr i sid name secs ins now woken
             (fst (complete_event sr i name r waiters w))) = Inr RSuccess
    \<and> snd (wait_loop sr i name secs (Tick (\<lambda>v. fst (complete_event sr i name r waiters v)) # ins) w) = Inr r"
proof
  let ?w = "fst (complete_event sr i name r waiters w)"
  have "is_cancelled (world_store ?w) i = Inr False"
    using assms by (simp add: complete_event_def w_append_def is_cancelled_def append_journal_def Let_def)
  then show "snd (execute_wait_event sr i sid name secs ins now woken ?w) = Inr RSuccess"
    by (rule wait_delivered, simp add: complete_event_def journal_w_append) (simp add: delivered_def)
  show "snd (wait_loop sr i name secs (Tick (\<lambda>v. fst (complete_event sr i name r waiters v)) # ins) w) = Inr r"
    by (simp add: complete_event_def journal_w_append delivered_def)
qed

text \<open>
  A wait that timed out is later taken for a delivered event: recovery counts the step as
  settled without counting it as failed, and any step that waits for the same event afterwards
  succeeds at once.
\<close>

lemma timed_out_wait_counts_as_delivered:
  assumes "execute_wait_event sr i (sd_id s) name secs ins now woken w = (w', Inr RFailure)"
    and "mode s = WaitEvent name secs" "journal (world_store w') i = Inr es"
    and "is_cancelled (world_store w') i = Inr False"
  shows "memoize_step es s t = (t, True)
    \<and> snd (execute_wait_event sr i sid' name secs' ins' now' woken' w') = Inr RSuccess"
proof
  obtain msg es0 where es: "es = es0 @ [JWaitEvent name (Some (EFailure 2 msg []))]"
    using wait_failed_journal [OF assms(1)] assms(3) by auto
  with assms(2) show "memoize_step es s t = (t, True)" by (simp add: memoize_step_def)
  show "snd (execute_wait_event sr i sid' name secs' ins' now' woken' w') = Inr RSuccess"
    by (rule wait_delivered [OF assms(4,3)]) (simp add: es delivered_def)
qed

definition with_journal :: "journal_entry list \<Rightarrow> (unit, nat) world" where
  "with_journal es = demo_world\<lparr>world_store := (world_store demo_world)\<lparr>journals := [1 \<mapsto> es]\<rparr>\<rparr>"

lemma with_journal_sel [simp]:
  "states (world_store (with_journal es)) = [(1, detach demo_run)]"
  "journals (world_store (with_journal es)) = [1 \<mapsto> es]" "eng (with_journal es) = demo_engine"
  by (simp_all add: with_journal_def)

lemmas wait_eval = exec_eval execute_sleep_def sleep_until_def wake_resolve_def pending_timer_def
  execute_wait_event_def await_event_def wait_over_def w_journal_def to_waiting_def to_running_def
  wait_succeeded_def wait_failed_def

lemma demo_sleep:
  "\<exists>w' es. execute_sleep demo_env demo_host (\<lambda>_. []) 1 ''s'' (Relative 9) 7 8 (with_journal [JSleep ''s'' 5 None])
      = (w', Some (Inr RSuccess)) \<and> journal (world_store w') 1 = Inr es"
  by (simp add: wait_eval)

lemma sleep_deadline_kept_example:
  "\<exists>w' es. execute_sleep demo_env demo_host (\<lambda>_. []) 1 ''s'' (Relative 9) 7 8 (with_journal [JSleep ''s'' 5 None])
      = (w', Some (Inr RSuccess)) \<and> pending_timer ''s'' es = Some 5 \<and> JSleep ''s'' 5 (Some (ESuccess [])) \<in> set es"
proof -
  obtain w' es where run: "execute_sleep demo_env demo_host (\<lambda>_. []) 1 ''s'' (Relative 9) 7 8
      (with_journal [JSleep ''s'' 5 None]) = (w', Some (Inr RSuccess))" "journal (world_store w') 1 = Inr es"
    using demo_sleep by blast
  have "journal (world_store (with_journal [JSleep ''s'' 5 None])) 1 = Inr [JSleep ''s'' 5 None]"
    by (simp add: journal_def)
  moreover have "pending_timer ''s'' [JSleep ''s'' 5 None] = Some 5" by (simp add: pending_timer_def)
  ultimately show ?thesis
    using sleep_deadline_kept [OF demo_env_keeps_log _ run(2,1)] run(1) by auto
qed

lemma completed_event_found_example:
  "snd (execute_wait_event (\<lambda>_. ''r'') 1 ''s'' ''ok'' 60 [] 1 2
      (fst (complete_event (\<lambda>_. ''r'') 1 ''ok'' (ESuccess []) [] demo_world))) = Inr RSuccess"
  using completed_event_found [of demo_world 1 "\<lambda>_. ''r''" "''s''" "''ok''" 60 "[]" 1 2 "ESuccess []" "[]"]
  by (simp add: is_cancelled_def)

lemma demo_timeout:
  "\<exists>w' es. execute_wait_event (\<lambda>_. ''r'') 1 ''s'' ''ok'' 60 [] 1 2 (with_journal []) = (w', Inr RFailure)
    \<and> journal (world_store w') 1 = Inr es \<and> is_cancelled (world_store w') 1 = Inr False"
  by (simp add: wait_eval)

lemma timed_out_wait_counts_as_delivered_example:
  "\<exists>w'. execute_wait_event (\<lambda>_. ''r'') 1 ''s'' ''ok'' 60 [] 1 2 (with_journal []) = (w', Inr RFailure)
    \<and> snd (execute_wait_event (\<lambda>_. ''r'') 1 ''t'' ''ok'' 60 [] 3 4 w') = Inr RSuccess"
proof -
  obtain w' es where run: "execute_wait_event (\<lambda>_. ''r'') 1 ''s'' ''ok'' 60 [] 1 2 (with_journal []) = (w', Inr RFailure)"
    "journal (world_store w') 1 = Inr es" "is_cancelled (world_store w') 1 = Inr False"
    using demo_timeout by blast
  let ?s = "(demo_step 0)\<lparr>mode := WaitEvent ''ok'' 60\<rparr>"
  have "execute_wait_event (\<lambda>_. ''r'') 1 (sd_id ?s) ''ok'' 60 [] 1 2 (with_journal []) = (w', Inr RFailure)"
    "mode ?s = WaitEvent ''ok'' 60" using run(1) by simp_all
  from timed_out_wait_counts_as_delivered [OF this run(2,3)] run(1) show ?thesis by blast
qed

end
