(* ===== verification/Wf_Rollback.thy ===== *)
theory Wf_Rollback
  imports Wf_Exec "HOL-Library.Multiset" "HOL-Library.Option_ord" "HOL-Library.Product_Lexorder"
begin

text \<open>
  Saga rollback, \<^verbatim>\<open>crates/flare-workflow/src/rollback.rs\<close>: before a run settles as failed (or is
  cancelled with rollback) the succeeded steps that registered a handler are compensated, the
  one started last first. What was compensated is journaled, so that an unwind that was
  interrupted goes on where it stopped.
\<close>

section \<open>What is to be compensated\<close>

text \<open>Steps a rollback phase has dealt with already: whether they were compensated.\<close>

definition note_processed :: "(step_id \<rightharpoonup> bool) \<Rightarrow> journal_entry \<Rightarrow> (step_id \<rightharpoonup> bool)" where
  "note_processed m e =
     (case e of
        JRollback sid _ (Some res) \<Rightarrow> m(sid \<mapsto> (case res of ESuccess _ \<Rightarrow> True | EFailure _ _ _ \<Rightarrow> False))
      | _ \<Rightarrow> m)"

definition already_processed :: "journal_entry list \<Rightarrow> (step_id \<rightharpoonup> bool)" where
  "already_processed es = foldl note_processed Map.empty es"

definition step_succeeded_in :: "'d workflow_state \<Rightarrow> step_id \<Rightarrow> bool" where
  "step_succeeded_in st sid = (case step_states st sid of None \<Rightarrow> False | Some ss \<Rightarrow> ss_status ss = SSucceeded)"

definition started_in :: "'d workflow_state \<Rightarrow> step_id \<Rightarrow> time option" where
  "started_in st sid = (case step_states st sid of None \<Rightarrow> None | Some ss \<Rightarrow> ss_started_at ss)"

definition eligible ::
  "('d, 'x) step_definition list \<Rightarrow> 'd workflow_state \<Rightarrow> step_id option \<Rightarrow> (nat \<times> ('d, 'x) step_definition) list" where
  "eligible ss st failed_step =
     filter (\<lambda>(_, s). rollback s \<noteq> None \<and> (step_succeeded_in st (sd_id s) \<or> failed_step = Some (sd_id s)))
       (enumerate 0 ss)"

text \<open>Latest start first, of equal starts (or none) the later declaration first.\<close>

definition rollback_key :: "'d workflow_state \<Rightarrow> nat \<times> ('d, 'x) step_definition \<Rightarrow> time option \<times> nat" where
  "rollback_key st = (\<lambda>(idx, s). (started_in st (sd_id s), idx))"

definition rollback_order ::
  "('d, 'x) step_definition list \<Rightarrow> 'd workflow_state \<Rightarrow> step_id option \<Rightarrow> ('d, 'x) step_definition list" where
  "rollback_order ss st failed_step = map snd (rev (sort_key (rollback_key st) (eligible ss st failed_step)))"

text \<open>The context a handler starts from.\<close>

definition rollback_context ::
  "'d host \<Rightarrow> journal_entry list \<Rightarrow> 'd workflow_state \<Rightarrow> step_id option \<Rightarrow> step_id \<Rightarrow> 'd workflow_context option" where
  "rollback_context h es st failed_step sid =
     (if failed_step = Some sid then Some ((st_context st)\<lparr>ctx_output := []\<rparr>)
      else (case List.map_filter (\<lambda>e. case e of
                   JStepRun j _ (Some (ESuccess bytes)) \<Rightarrow> if j = sid then ctx_parse h bytes else None
                 | _ \<Rightarrow> None) (rev es) of
              [] \<Rightarrow> None
            | c # _ \<Rightarrow> Some c))"

section \<open>Compensating one step\<close>

definition rollback_policy :: "('d, 'x) workflow_definition \<Rightarrow> ('d, 'x) step_definition \<Rightarrow> retry_policy" where
  "rollback_policy def s =
     (case rollback_retry_policy s of Some p \<Rightarrow> p | None \<Rightarrow> get_retry_policy def s)"

definition rollback_error :: "('d, 'x) exec_env \<Rightarrow> 'x \<Rightarrow> duration \<Rightarrow> exec_outcome \<Rightarrow> string \<times> bool" where
  "rollback_error env x tmo out =
     (case out of
        XDone (RFailed msg) \<Rightarrow> (msg, False)
      | XError e \<Rightarrow> (error_text (show_run env) e, x_retryable env x e)
      | XTimeout \<Rightarrow> (''rollback timeout after '' @ show_duration env tmo, True)
      | XDone _ \<Rightarrow> (''rollback failed'', False))"

text \<open>The handler with its retries: the attempt that decided, its context and its result.\<close>

function rollback_attempts ::
  "('d, 'x) exec_env \<Rightarrow> 'd host \<Rightarrow> ('d, 'x) workflow_definition \<Rightarrow> ('d, 'x) step_definition \<Rightarrow> 'd workflow_state
     \<Rightarrow> 'x \<Rightarrow> nat \<Rightarrow> nat \<Rightarrow> backoff_seq \<Rightarrow> 'd workflow_context \<Rightarrow> ('d, 'x) world
     \<Rightarrow> ('d, 'x) world \<times> (nat \<times> 'd workflow_context \<times> (string + unit)) option" where
  "rollback_attempts env h def s st x max_att att b ctx w =
     (case budget_timeout h (x_begin env 0 att) st (get_timeout def s) of
        Inl e \<Rightarrow> (w, Some (att, ctx, Inl (error_text (show_run env) e)))
      | Inr tmo \<Rightarrow>
          (case x_execute env x tmo (ctx\<lparr>ctx_budget := budget_for st (sd_id s) att\<rparr>) w of
             (w1, ctx1, out) \<Rightarrow>
               if out = XDone RSuccess \<or> out = XDone RSkip then (w1, Some (att, ctx1, Inr ()))
               else (case rollback_error env x tmo out of (msg, should_retry) \<Rightarrow>
                 if should_retry \<and> att < max_att
                 then (case backoff_next b (jitter (eng w1)) (x_draw env 0 att) of
                         None \<Rightarrow> (w1, None)
                       | Some (b', wait) \<Rightarrow>
                           rollback_attempts env h def s st x max_att (att + 1) b' ctx1 (x_sleep env wait w1))
                 else (w1, Some (att, ctx1, Inl msg)))))"
  by pat_completeness auto
termination
  by (relation "measure (\<lambda>(env, h, def, s, st, x, max_att, att, b, ctx, w). max_att - att)") auto

declare rollback_attempts.simps [simp del]

definition rollback_failed ::
  "run_id \<Rightarrow> step_id \<Rightarrow> nat \<Rightarrow> string \<Rightarrow> (('d, 'x) world, bool) act" where
  "rollback_failed i sid att msg =
     andThen (w_append i (JRollback sid att (Some (EFailure 1 msg [])))) (\<lambda>_.
     andThen (publish (EvRollbackStepFailed i sid msg)) (\<lambda>_. ret False))"

text \<open>Whether the step counts as compensated; \<open>None\<close> is a panic of the retry delay.\<close>

definition compensate ::
  "('d, 'x) exec_env \<Rightarrow> 'd host \<Rightarrow> run_id \<Rightarrow> ('d, 'x) workflow_definition \<Rightarrow> 'd workflow_state \<Rightarrow> journal_entry list
     \<Rightarrow> step_id option \<Rightarrow> ('d, 'x) step_definition \<Rightarrow> ('d, 'x) world \<Rightarrow> ('d, 'x) world \<times> bool option" where
  "compensate env h i def st es failed_step s w =
     (case already_processed es (sd_id s) of
        Some ok \<Rightarrow> (w, Some ok)
      | None \<Rightarrow>
          (case rollback_context h es st failed_step (sd_id s) of
             None \<Rightarrow> (fst (rollback_failed i (sd_id s) 0 ''no journaled context snapshot for rollback'' w), Some False)
           | Some ctx \<Rightarrow>
               (case rollback_attempts env h def s st (the (rollback s)) (max_attempts (rollback_policy def s)) 1
                       (from_strategy (backoff (rollback_policy def s))) ctx w of
                  (w1, None) \<Rightarrow> (w1, None)
                | (w1, Some (att, ctx1, Inr _)) \<Rightarrow>
                    (fst (w_append i (JRollback (sd_id s) att (Some (ESuccess (ctx_output ctx1)))) w1), Some True)
                | (w1, Some (att, ctx1, Inl msg)) \<Rightarrow> (fst (rollback_failed i (sd_id s) att msg w1), Some False))))"

section \<open>The rollback phase\<close>

fun compensate_all ::
  "('d, 'x) exec_env \<Rightarrow> 'd host \<Rightarrow> run_id \<Rightarrow> ('d, 'x) workflow_definition \<Rightarrow> 'd workflow_state \<Rightarrow> journal_entry list
     \<Rightarrow> step_id option \<Rightarrow> ('d, 'x) step_definition list \<Rightarrow> step_id list \<times> step_id list \<Rightarrow> ('d, 'x) world
     \<Rightarrow> ('d, 'x) world \<times> (step_id list \<times> step_id list) option" where
  "compensate_all env h i def st es fs [] acc w = (w, Some acc)"
| "compensate_all env h i def st es fs (s # ss) (compensated, fail_list) w =
     (case compensate env h i def st es fs s w of
        (w1, None) \<Rightarrow> (w1, None)
      | (w1, Some True) \<Rightarrow> compensate_all env h i def st es fs ss (compensated @ [sd_id s], fail_list) w1
      | (w1, Some False) \<Rightarrow> compensate_all env h i def st es fs ss (compensated, fail_list @ [sd_id s]) w1)"

definition note_failures :: "step_id list \<Rightarrow> 'd workflow_state \<Rightarrow> 'd workflow_state" where
  "note_failures fail_list st =
     (let msg = ''rollback failed for steps: '' @ str_join '', '' fail_list
      in st\<lparr>st_error := Some (case st_error st of Some old \<Rightarrow> old @ ''; '' @ msg | None \<Rightarrow> msg)\<rparr>)"

definition finish_rollback ::
  "run_id \<Rightarrow> step_id list \<Rightarrow> step_id list \<Rightarrow> time \<Rightarrow> (('d, 'x) world, unit) act" where
  "finish_rollback i compensated fail_list now =
     andThen (if fail_list = [] then ret () else w_write i (note_failures fail_list) now)
       (\<lambda>_. publish (EvRollbackCompleted i compensated fail_list))"

definition run_rollback_phase ::
  "('d, 'x) exec_env \<Rightarrow> 'd host \<Rightarrow> run_id \<Rightarrow> ('d, 'x) workflow_definition \<Rightarrow> step_id option \<Rightarrow> time
     \<Rightarrow> ('d, 'x) world \<Rightarrow> ('d, 'x) world \<times> unit wf_result option" where
  "run_rollback_phase env h i def failed_step now w =
     (case (load (world_store w) i, journal (world_store w) i) of
        (Inl e, _) \<Rightarrow> (w, Some (Inl e))
      | (Inr st, Inl e) \<Rightarrow> (w, Some (Inl e))
      | (Inr st, Inr es) \<Rightarrow>
          (case compensate_all env h i def st es failed_step
                  (rollback_order (steps def) st failed_step) ([], []) w of
             (w1, None) \<Rightarrow> (w1, None)
           | (w1, Some (compensated, fail_list)) \<Rightarrow>
               (case finish_rollback i compensated fail_list now w1 of (w2, r) \<Rightarrow> (w2, Some r))))"

section \<open>What a rollback phase journals\<close>

definition rollback_entry :: "journal_entry \<Rightarrow> bool" where
  "rollback_entry e = (case e of JRollback _ _ _ \<Rightarrow> True | _ \<Rightarrow> False)"

lemma rollback_entry_simps [simp]: "rollback_entry (JRollback sid a r)"
  by (simp add: rollback_entry_def)

lemma already_processed_iff:
  "already_processed es sid \<noteq> None \<longleftrightarrow> (\<exists>a res. JRollback sid a (Some res) \<in> set es)"
proof (induction es rule: rev_induct)
  case Nil
  then show ?case by (simp add: already_processed_def)
next
  case (snoc e es)
  have "already_processed (es @ [e]) = note_processed (already_processed es) e"
    by (simp add: already_processed_def)
  with snoc show ?case
    by (auto simp: note_processed_def split: journal_entry.split option.split)
qed

lemma rollback_attempts_quiet:
  assumes "keeps_log P i env"
  shows "rollback_attempts env h def s st x max_att att b ctx w = (w', r) \<Longrightarrow> run_log P i w' = run_log P i w"
proof (induction "max_att - att" arbitrary: att b ctx w rule: less_induct)
  case less
  note run = less.prems [unfolded rollback_attempts.simps [of env h def s st x max_att att b ctx w]]
  show ?case
  proof (cases "budget_timeout h (x_begin env 0 att) st (get_timeout def s)")
    case (Inl e)
    with run show ?thesis by simp
  next
    case (Inr tmo)
    obtain w1 ctx1 out where x: "x_execute env x tmo (ctx\<lparr>ctx_budget := budget_for st (sd_id s) att\<rparr>) w = (w1, ctx1, out)"
      by (cases "x_execute env x tmo (ctx\<lparr>ctx_budget := budget_for st (sd_id s) att\<rparr>) w") auto
    have w1: "run_log P i w1 = run_log P i w"
      using assms x by (auto simp: keeps_log_def dest: spec [of _ x]) (metis fst_conv)
    have slept: "run_log P i (x_sleep env d w1) = run_log P i w1" for d
      using assms by (simp add: keeps_log_def)
    show ?thesis
    proof (cases "att < max_att")
      case False
      with run Inr x w1 show ?thesis by (auto split: if_splits prod.splits)
    next
      case True
      then have "max_att - (att + 1) < max_att - att" by auto
      note IH = less.hyps [OF this, unfolded Suc_eq_plus1 [symmetric]]
      from run Inr x w1 slept show ?thesis
        by (auto split: if_splits option.splits prod.splits dest!: IH)
    qed
  qed
qed

lemma run_log_rollback_failed:
  "run_log rollback_entry i (fst (rollback_failed i sid att msg w))
     = run_log rollback_entry i w @ [JRollback sid att (Some (EFailure 1 msg []))]"
  by (simp add: rollback_failed_def andThen_seq)

lemma compensate_log:
  assumes "keeps_log rollback_entry i env" "compensate env h i def st es fs s w = (w', r)"
  shows "\<exists>new. run_log rollback_entry i w' = run_log rollback_entry i w @ new
    \<and> (r \<noteq> None \<longrightarrow> (if already_processed es (sd_id s) = None
          then \<exists>a res. new = [JRollback (sd_id s) a (Some res)] else new = []))"
proof (cases "already_processed es (sd_id s)")
  case (Some ok)
  with assms(2) show ?thesis by (auto simp: compensate_def)
next
  case fresh: None
  show ?thesis
  proof (cases "rollback_context h es st fs (sd_id s)")
    case None
    with assms(2) fresh show ?thesis by (auto simp: compensate_def run_log_rollback_failed)
  next
    case (Some ctx)
    let ?run = "rollback_attempts env h def s st (the (rollback s)) (max_attempts (rollback_policy def s)) 1
        (from_strategy (backoff (rollback_policy def s))) ctx w"
    obtain w1 r1 where a: "?run = (w1, r1)" by (cases ?run)
    note same = rollback_attempts_quiet [OF assms(1) a]
    note run = assms(2) [unfolded compensate_def fresh Some option.case a prod.case]
    show ?thesis
    proof (cases r1)
      case None
      with run same show ?thesis by auto
    next
      case (Some end1)
      obtain att ctx1 out where e: "end1 = (att, ctx1, out)" by (cases end1) auto
      note run = run [unfolded Some e option.case prod.case]
      show ?thesis
      proof (cases out)
        case (Inl msg)
        with run have "w' = fst (rollback_failed i (sd_id s) att msg w1)" by simp
        then show ?thesis using same fresh by (simp add: run_log_rollback_failed)
      next
        case (Inr u)
        with run have "w' = fst (w_append i (JRollback (sd_id s) att (Some (ESuccess (ctx_output ctx1)))) w1)" by simp
        then show ?thesis using same fresh by simp
      qed
    qed
  qed
qed

lemma compensate_all_log:
  assumes "keeps_log rollback_entry i env"
  shows "compensate_all env h i def st es fs ss acc w = (w', Some acc') \<Longrightarrow>
    \<exists>new. run_log rollback_entry i w' = run_log rollback_entry i w @ new
      \<and> list_all2 (\<lambda>s e. \<exists>a res. e = JRollback (sd_id s) a (Some res))
          (filter (\<lambda>s. already_processed es (sd_id s) = None) ss) new"
proof (induction ss arbitrary: acc w)
  case Nil
  then show ?case by (cases acc) (auto intro: exI [of _ "[]"])
next
  case (Cons s ss)
  obtain compensated fl where acc: "acc = (compensated, fl)" by (cases acc)
  obtain w1 r where c: "compensate env h i def st es fs s w = (w1, r)"
    by (cases "compensate env h i def st es fs s w")
  with Cons.prems acc obtain ok where r: "r = Some ok" by (cases r) auto
  obtain acc1 where rest: "compensate_all env h i def st es fs ss acc1 w1 = (w', Some acc')"
    using Cons.prems acc c r by (cases ok) auto
  from compensate_log [OF assms c] r obtain new where new:
    "run_log rollback_entry i w1 = run_log rollback_entry i w @ new"
    "if already_processed es (sd_id s) = None then \<exists>a res. new = [JRollback (sd_id s) a (Some res)] else new = []"
    by auto
  from Cons.IH [OF rest] obtain new' where new':
    "run_log rollback_entry i w' = run_log rollback_entry i w1 @ new'"
    "list_all2 (\<lambda>s e. \<exists>a res. e = JRollback (sd_id s) a (Some res))
       (filter (\<lambda>s. already_processed es (sd_id s) = None) ss) new'" by blast
  from new new' show ?case
    by (intro exI [of _ "new @ new'"]) (auto split: if_splits)
qed

lemma list_all2_set1: "list_all2 R xs ys \<Longrightarrow> x \<in> set xs \<Longrightarrow> \<exists>y\<in>set ys. R x y"
  by (induction rule: list_all2_induct) auto

lemma finish_rollback_log: "finish_rollback i c f now w = (w', r) \<Longrightarrow> run_log P i w' = run_log P i w"
proof (cases "f = []")
  case True
  assume "finish_rollback i c f now w = (w', r)"
  with True show ?thesis by (auto simp: finish_rollback_def publish_def)
next
  case False
  assume fin: "finish_rollback i c f now w = (w', r)"
  obtain w1 r1 where wr: "w_write i (note_failures f) now w = (w1, r1)" by (cases "w_write i (note_failures f) now w")
  with fin False have "w' = w1 \<or> w' = fst (publish (EvRollbackCompleted i c f) w1)"
    by (auto simp: finish_rollback_def andThen_def publish_def split: sum.splits)
  with run_log_w_writeD [OF wr, of P i] show ?thesis by auto
qed

lemma eligible_snd: "map snd (eligible ss st fs) =
    filter (\<lambda>s. rollback s \<noteq> None \<and> (step_succeeded_in st (sd_id s) \<or> fs = Some (sd_id s))) ss"
proof -
  have "map snd (filter (\<lambda>(_, s). P s) (enumerate k xs)) = filter P xs" for P k and xs :: "('a, 'b) step_definition list"
    by (induction xs arbitrary: k) auto
  then show ?thesis by (simp add: eligible_def)
qed

lemma mset_rollback_order: "mset (rollback_order ss st fs) =
    mset (filter (\<lambda>s. rollback s \<noteq> None \<and> (step_succeeded_in st (sd_id s) \<or> fs = Some (sd_id s))) ss)"
  unfolding eligible_snd [symmetric] by (simp add: rollback_order_def rev_map [symmetric])

section \<open>Properties\<close>

text \<open>
  Compensation runs in reverse: the steps of a rollback phase are exactly those with a handler
  that succeeded, or whose failure set it off, and they come latest start first.
\<close>

lemma rollback_order_reverse:
  "mset (rollback_order ss st failed_step) =
     mset (filter (\<lambda>s. rollback s \<noteq> None \<and> (step_succeeded_in st (sd_id s) \<or> failed_step = Some (sd_id s))) ss)
   \<and> sorted_wrt (\<lambda>a b. started_in st (sd_id b) \<le> started_in st (sd_id a)) (rollback_order ss st failed_step)"
proof
  show "mset (rollback_order ss st failed_step) =
     mset (filter (\<lambda>s. rollback s \<noteq> None \<and> (step_succeeded_in st (sd_id s) \<or> failed_step = Some (sd_id s))) ss)"
    by (rule mset_rollback_order)
  let ?xs = "sort_key (rollback_key st) (eligible ss st failed_step)"
  have "sorted (map (rollback_key st) ?xs)" by simp
  then have "sorted_wrt (\<lambda>a b. rollback_key st a \<le> rollback_key st b) ?xs" by (simp only: sorted_map)
  then have "sorted_wrt (\<lambda>a b. started_in st (sd_id (snd a)) \<le> started_in st (sd_id (snd b))) ?xs"
    by (rule sorted_wrt_mono_rel [rotated]) (auto simp: rollback_key_def less_eq_prod_def)
  then show "sorted_wrt (\<lambda>a b. started_in st (sd_id b) \<le> started_in st (sd_id a)) (rollback_order ss st failed_step)"
    by (simp add: rollback_order_def sorted_wrt_map sorted_wrt_rev)
qed

text \<open>
  Every compensation is tried and recorded once. A rollback phase that returns has added one
  completed entry, in the order of the unwind, for each eligible step that no earlier, interrupted
  phase had dealt with, whether its handler succeeded or not; afterwards none is left over.
\<close>

lemma rollback_recorded_once:
  assumes "keeps_log rollback_entry i env"
    and "load (world_store w) i = Inr st" "journal (world_store w) i = Inr es"
    and "run_rollback_phase env h i def failed_step now w = (w', Some r)"
    and "journal (world_store w') i = Inr es'"
  shows "(\<exists>new. filter rollback_entry es' = filter rollback_entry es @ new
      \<and> list_all2 (\<lambda>s e. \<exists>a res. e = JRollback (sd_id s) a (Some res))
          (filter (\<lambda>s. already_processed es (sd_id s) = None) (rollback_order (steps def) st failed_step)) new)
    \<and> list_all (\<lambda>s. already_processed es' (sd_id s) \<noteq> None) (rollback_order (steps def) st failed_step)"
proof -
  let ?order = "rollback_order (steps def) st failed_step"
  let ?todo = "filter (\<lambda>s. already_processed es (sd_id s) = None) ?order"
  obtain w1 acc where all: "compensate_all env h i def st es failed_step ?order ([], []) w = (w1, Some acc)"
    and fin: "finish_rollback i (fst acc) (snd acc) now w1 = (w', r)"
    using assms(2,3,4) by (auto simp: run_rollback_phase_def split: option.splits prod.splits)
  obtain new where "run_log rollback_entry i w1 = run_log rollback_entry i w @ new"
    and new: "list_all2 (\<lambda>s e. \<exists>a res. e = JRollback (sd_id s) a (Some res)) ?todo new"
    using compensate_all_log [OF assms(1) all] by blast
  then have log: "filter rollback_entry es' = filter rollback_entry es @ new"
    using finish_rollback_log [OF fin, of rollback_entry] assms(3,5) by (simp add: run_log_def)
  have "set (filter rollback_entry es') \<subseteq> set es'" by (rule filter_is_subset)
  then have mem: "set new \<subseteq> set es'" unfolding log by simp
  have "already_processed es' (sd_id s) \<noteq> None" if s: "s \<in> set ?order" for s
  proof (cases "already_processed es (sd_id s) = None")
    case True
    with s have "s \<in> set ?todo" by simp
    with new obtain e where "e \<in> set new" "\<exists>a res. e = JRollback (sd_id s) a (Some res)"
      using list_all2_set1 [OF new] by blast
    with mem show ?thesis unfolding already_processed_iff by blast
  next
    case False
    then have "\<exists>a res. JRollback (sd_id s) a (Some res) \<in> set es" unfolding already_processed_iff .
    then obtain a res where "JRollback (sd_id s) a (Some res) \<in> set (filter rollback_entry es)" by auto
    then have "JRollback (sd_id s) a (Some res) \<in> set (filter rollback_entry es')" by (simp add: log)
    then show ?thesis unfolding already_processed_iff by auto
  qed
  then have "list_all (\<lambda>s. already_processed es' (sd_id s) \<noteq> None) ?order" by (simp add: list_all_iff)
  with log new show ?thesis by blast
qed

text \<open>A run with one succeeded step whose handler is executor 0.\<close>

definition undo_step :: "(unit, nat) step_definition" where
  "undo_step = (demo_step 0)\<lparr>rollback := Some 0\<rparr>"

definition undo_world :: "(unit, nat) world" where
  "undo_world = demo_world\<lparr>world_store :=
     \<lparr>states = [(1, demo_run\<lparr>step_states := [''s'' \<mapsto> default_step_state\<lparr>ss_status := SSucceeded\<rparr>]\<rparr>)],
      journals = [1 \<mapsto> [JStepRun ''s'' 1 (Some (ESuccess ''ctx''))]]\<rparr>\<rparr>"

definition undo_host :: "unit host" where
  "undo_host = demo_host\<lparr>ctx_parse := (\<lambda>_. Some (st_context demo_run))\<rparr>"

definition undo_def :: "(unit, nat) workflow_definition" where
  "undo_def = (new_definition ''wf'' ''wf'')\<lparr>steps := [undo_step]\<rparr>"

definition undo_state :: "unit workflow_state" where
  "undo_state = demo_run\<lparr>step_states := [''s'' \<mapsto> default_step_state\<lparr>ss_status := SSucceeded\<rparr>]\<rparr>"

lemma undo_sel [simp]:
  "states (world_store undo_world) = [(1, undo_state)]"
  "journals (world_store undo_world) = [1 \<mapsto> [JStepRun ''s'' 1 (Some (ESuccess ''ctx''))]]"
  "st_budget undo_state = None" "sd_id undo_step = ''s''" "rollback undo_step = Some 0" "steps undo_def = [undo_step]"
  by (simp_all add: undo_world_def undo_step_def undo_def_def undo_state_def)

lemma undo_loads:
  "load (world_store undo_world) 1 = Inr undo_state"
  "journal (world_store undo_world) 1 = Inr [JStepRun ''s'' 1 (Some (ESuccess ''ctx''))]"
  by (simp_all add: load_def journal_def)

lemma undo_order: "rollback_order [undo_step] undo_state None = [undo_step]"
  by (simp add: rollback_order_def eligible_def step_succeeded_in_def undo_state_def)

lemma undo_attempt:
  "st_budget st = None \<Longrightarrow> rollback_attempts demo_env undo_host undo_def undo_step st 0 mx att b c w
     = (w, Some (att, c\<lparr>ctx_budget := None\<rparr>, Inr ()))"
  by (subst rollback_attempts.simps) (simp add: budget_timeout_def budget_for_def)

lemma undo_run:
  "\<exists>w' es. run_rollback_phase demo_env undo_host 1 undo_def None 5 undo_world = (w', Some (Inr ()))
    \<and> journal (world_store w') 1 = Inr es"
proof -
  obtain c where "rollback_context undo_host [JStepRun ''s'' (Suc 0) (Some (ESuccess ''ctx''))] undo_state None ''s'' = Some c"
    by (simp add: rollback_context_def undo_host_def map_filter_simps)
  then show ?thesis
    by (simp add: run_rollback_phase_def undo_order compensate_def already_processed_def note_processed_def
        undo_attempt finish_rollback_def publish_def w_append_def append_journal_def journal_def load_def Let_def)
qed

lemma rollback_recorded_once_example:
  "\<exists>w' es. run_rollback_phase demo_env undo_host 1 undo_def None 5 undo_world = (w', Some (Inr ()))
    \<and> (\<exists>a res. filter rollback_entry es = [JRollback ''s'' a (Some res)])"
proof -
  obtain w' es where run: "run_rollback_phase demo_env undo_host 1 undo_def None 5 undo_world = (w', Some (Inr ()))"
    "journal (world_store w') 1 = Inr es" using undo_run by blast
  note once = rollback_recorded_once [OF demo_env_keeps_log undo_loads run]
  have "filter (\<lambda>s. already_processed [JStepRun ''s'' 1 (Some (ESuccess ''ctx''))] (sd_id s) = None) [undo_step] = [undo_step]"
    by (simp add: already_processed_def note_processed_def)
  with once obtain new where "filter rollback_entry es = new"
    "list_all2 (\<lambda>s e. \<exists>a res. e = JRollback (sd_id s) a (Some res)) [undo_step] new"
    by (auto simp: undo_order rollback_entry_def)
  then show ?thesis using run(1) by (auto simp: list_all2_Cons1)
qed

end
