(* ===== verification/Wf_Start_Once.thy ===== *)
theory Wf_Start_Once
  imports Wf_Takeover
begin

text \<open>
  Idempotent starts: \<^verbatim>\<open>crates/flare-workflow/src/engine_start_once.rs\<close> and the start receipts of the
  SQLite store, \<^verbatim>\<open>sqlite_start_once.rs\<close>. The rows of the store's run and journal tables are those of
  \<open>mem_store\<close>; its transactions are atomic, so each is one step of the model.
\<close>

section \<open>Receipts\<close>



text \<open>Receipts whose key begins with the prefix, literally, are removed.\<close>

definition purge_start_receipts_with_prefix ::
  "string \<Rightarrow> (string \<times> run_id \<times> time) list \<Rightarrow> (string \<times> run_id \<times> time) list \<times> nat" where
  "purge_start_receipts_with_prefix p rs =
     (let kept = filter (\<lambda>(k, _). take (length p) k \<noteq> p) rs in (kept, length rs - length kept))"


section \<open>Starting once\<close>



section \<open>Cancelling orphans\<close>

datatype orphan_outcome = OCancelled | OUnchanged | OTerminal workflow_status | OMissing

definition orphan_note :: string where
  "orphan_note = ''interrupted: executor lease stale or missing; run cancelled as an orphan''"

definition cancel_orphaned_run ::
  "run_id \<Rightarrow> time \<Rightarrow> duration \<Rightarrow> 'd mem_store \<Rightarrow> 'd mem_store \<times> orphan_outcome" where
  "cancel_orphaned_run i now ttl m =
     (case load m i of
        Inl _ \<Rightarrow> (m, OMissing)
      | Inr st \<Rightarrow>
          if is_terminal (status st) then (m, OTerminal (status st))
          else let lease_fresh = (case lease st of None \<Rightarrow> False | Some l \<Rightarrow> is_fresh l now ttl)
               in if status st = WPaused \<or> lease_fresh then (m, OUnchanged)
                  else (m\<lparr>states := AList.update i
                           (detach (st\<lparr>status := WCancelled, lease := None, updated_at := now, st_error := Some orphan_note\<rparr>))
                           (states m)\<rparr>, OCancelled))"

datatype orphan_disposition = DInterrupted | DUnchanged | DTerminal workflow_status | DMissing

definition cancel_if_orphaned ::
  "run_id \<Rightarrow> time \<Rightarrow> ('d, 'x) world \<Rightarrow> ('d, 'x) world \<times> orphan_disposition" where
  "cancel_if_orphaned i now w =
     (case cancel_orphaned_run i now (lease_ttl (eng w)) (world_store w) of
        (m, OCancelled) \<Rightarrow> (fst (publish (EvWorkflowCancelled i) (w\<lparr>world_store := m\<rparr>)), DInterrupted)
      | (m, OUnchanged) \<Rightarrow> (w\<lparr>world_store := m\<rparr>, DUnchanged)
      | (m, OTerminal st) \<Rightarrow> (w\<lparr>world_store := m\<rparr>, DTerminal st)
      | (m, OMissing) \<Rightarrow> (w\<lparr>world_store := m\<rparr>, DMissing))"

section \<open>Lemmas\<close>








section \<open>Property\<close>





end
