(* ===== verification/Wf_Task.thy ===== *)
theory Wf_Task
  imports Wf_Loop Wf_Waits Wf_Rollback Wf_Start_Once
begin

text \<open>
  The body of a spawned step task in \<open>execute_workflow\<close> (\<^verbatim>\<open>crates/flare-workflow/src/engine.rs\<close>): its
  conditions, the dispatch on the step's mode, and the writes to the run's state around the end of
  the task. The end itself, which the driver sees, is \<open>settle_task\<close> of \<open>Wf_Scheduler\<close>. The last
  section collects every closure the engine writes a run's state with, and what else is written to the
  table of runs: the cancellation of an orphaned run, a new run, journal entries.
\<close>

section \<open>Conditions\<close>

datatype gate = GoOn | TaskOver task_outcome "workflow_error option"

definition run_if_gate :: "run_id \<Rightarrow> ('d, 'x) step_definition \<Rightarrow> ('d, 'x) world \<Rightarrow> gate" where
  "run_if_gate i s w =
     (case run_if s of
        None \<Rightarrow> GoOn
      | Some condition \<Rightarrow>
          (case get_context (world_store w) i of
             Inr ctx \<Rightarrow> if condition ctx then GoOn else TaskOver TSkip None
           | Inl e \<Rightarrow> TaskOver TContextError (Some e)))"

definition conditional_gate :: "run_id \<Rightarrow> ('d, 'x) step_definition \<Rightarrow> ('d, 'x) world \<Rightarrow> gate" where
  "conditional_gate i s w =
     (case mode s of
        Conditional condition \<Rightarrow>
          (let current_input = (case load (world_store w) i of Inr st \<Rightarrow> st_input st | Inl _ \<Rightarrow> [])
           in if str_contains (to_lowercase condition) (to_lowercase current_input) then GoOn
              else TaskOver TSkip None)
      | _ \<Rightarrow> GoOn)"

definition step_gate :: "run_id \<Rightarrow> ('d, 'x) step_definition \<Rightarrow> ('d, 'x) world \<Rightarrow> gate" where
  "step_gate i s w = (case run_if_gate i s w of GoOn \<Rightarrow> conditional_gate i s w | g \<Rightarrow> g)"

section \<open>Dispatch on the mode\<close>

text \<open>A \<open>Collect\<close> step joins what the fan-out steps have left in the buffer and empties it.\<close>

definition collect_separator :: string where
  "collect_separator = [CHR 0x0A, CHR 0x0A] @ ''---'' @ [CHR 0x0A, CHR 0x0A]"

definition collect_closure :: "step_id \<Rightarrow> string \<Rightarrow> time \<Rightarrow> 'd workflow_state \<Rightarrow> 'd workflow_state" where
  "collect_closure sid joined now st =
     wait_succeeded sid now (st\<lparr>st_input := joined, st_output := Some joined\<rparr>)"

text \<open>What only some modes need besides the executor's environment.\<close>

record ('d, 'x) task_env =
  t_exec :: "('d, 'x) exec_env"
  t_host :: "'d host"
  t_show_time :: "time \<Rightarrow> string"
  t_inputs :: "('d, 'x) wait_input list"
  t_now :: time
  t_woken :: time

definition dispatch_step ::
  "('d, 'x) task_env \<Rightarrow> run_id \<Rightarrow> ('d, 'x) workflow_definition \<Rightarrow> ('d, 'x) step_definition \<Rightarrow> string list
     \<Rightarrow> ('d, 'x) world \<Rightarrow> ('d, 'x) world \<times> string list \<times> step_result wf_result option" where
  "dispatch_step t i def s buf w =
     (let keep = (\<lambda>(w', r). (w', buf, r));
          total = (\<lambda>(w', r). (w', buf, Some r))
      in case mode s of
        Collect \<Rightarrow>
          (case w_write i (collect_closure (sd_id s) (str_join collect_separator buf) (t_now t)) (t_now t) w of
             (w', r) \<Rightarrow> (w', [], Some (map_sum id (\<lambda>_. RSuccess) r)))
      | Loop _ _ \<Rightarrow> keep (execute_loop (t_exec t) (t_host t) i def s w)
      | Sleep n \<Rightarrow>
          keep (execute_sleep (t_exec t) (t_host t) (t_show_time t) i (sd_id s) (Relative n) (t_now t) (t_woken t) w)
      | SleepUntil u \<Rightarrow>
          keep (execute_sleep (t_exec t) (t_host t) (t_show_time t) i (sd_id s) (Absolute u) (t_now t) (t_woken t) w)
      | WaitEvent name secs \<Rightarrow>
          total (execute_wait_event (show_run (t_exec t)) i (sd_id s) name secs (t_inputs t) (t_now t) (t_woken t) w)
      | _ \<Rightarrow> keep (execute_step_with_retry (t_exec t) (t_host t) i def s w))"

text \<open>A fan-out step that succeeded leaves the run's output in the buffer.\<close>

definition collect_output ::
  "run_id \<Rightarrow> ('d, 'x) step_definition \<Rightarrow> step_result wf_result \<Rightarrow> ('d, 'x) world \<Rightarrow> string list \<Rightarrow> string list" where
  "collect_output i s r w buf =
     (if r = Inr RSuccess \<and> mode s = FanOut
      then (case load (world_store w) i of
              Inr st \<Rightarrow> buf @ [case st_output st of None \<Rightarrow> [] | Some out \<Rightarrow> out]
            | Inl _ \<Rightarrow> buf)
      else buf)"

section \<open>The task\<close>

definition skip_closure :: "step_id \<Rightarrow> 'd workflow_state \<Rightarrow> 'd workflow_state" where
  "skip_closure sid = modify_step sid (\<lambda>ss. ss\<lparr>ss_status := SSkipped\<rparr>)"

definition context_error_closure :: "step_id \<Rightarrow> string \<Rightarrow> 'd workflow_state \<Rightarrow> 'd workflow_state" where
  "context_error_closure sid msg = modify_step sid (\<lambda>ss. ss\<lparr>ss_status := SFailed, ss_last_error := Some msg\<rparr>)"

text \<open>The write after the tracker was updated: skipped steps are marked, errors noted.\<close>

definition after_settle ::
  "('d, 'x) task_env \<Rightarrow> run_id \<Rightarrow> ('d, 'x) step_definition \<Rightarrow> task_outcome \<Rightarrow> workflow_error option
     \<Rightarrow> (('d, 'x) world, unit) act" where
  "after_settle t i s out err =
     (case (out, err) of
        (TContextError, Some e) \<Rightarrow>
          ignore (w_write i (context_error_closure (sd_id s)
            (''run_if context error: '' @ error_text (show_run (t_exec t)) e)) (t_woken t))
      | _ \<Rightarrow>
          (case settle_task s out new_tracker of (_, _, needs_update) \<Rightarrow>
             if needs_update then ignore (w_write i (skip_closure (sd_id s)) (t_woken t)) else ret ()))"

text \<open>The outcome is \<open>None\<close> when the task panicked: then it never reports back.\<close>

definition step_task ::
  "('d, 'x) task_env \<Rightarrow> run_id \<Rightarrow> ('d, 'x) workflow_definition \<Rightarrow> ('d, 'x) step_definition \<Rightarrow> string list
     \<Rightarrow> ('d, 'x) world \<Rightarrow> ('d, 'x) world \<times> string list \<times> task_outcome option" where
  "step_task t i def s buf w =
     (case step_gate i s w of
        TaskOver out err \<Rightarrow> (fst (after_settle t i s out err w), buf, Some out)
      | GoOn \<Rightarrow>
          (case dispatch_step t i def s buf w of
             (w', buf', None) \<Rightarrow> (w', buf', None)
           | (w', buf', Some r) \<Rightarrow>
               (fst (after_settle t i s (TResult r) None w'), collect_output i s r w' buf', Some (TResult r))))"

text \<open>A step blocked by a failed dependency (the driver's own write).\<close>

definition blocked_closure :: "step_id \<Rightarrow> time \<Rightarrow> 'd workflow_state \<Rightarrow> 'd workflow_state" where
  "blocked_closure sid now = modify_step sid (\<lambda>ss. ss\<lparr>ss_status := SSkipped,
     ss_last_error := Some ''skipped: upstream dependency failed'', ss_completed_at := Some now\<rparr>)"

section \<open>Every write to a run's state\<close>

text \<open>The closures of the writes of an engine \<open>e\<close>, whatever the other data in them are.\<close>

inductive engine_write :: "('d, 'x) engine \<Rightarrow> ('d workflow_state \<Rightarrow> 'd workflow_state) \<Rightarrow> bool" for e :: "('d, 'x) engine" where
  pause: "engine_write e (\<lambda>st. fst (pause_closure st))"
| cancel: "engine_write e (\<lambda>st. fst (cancel_closure reason st))"
| resume: "engine_write e (\<lambda>st. fst (resume_closure h e (def :: ('d, 'x) workflow_definition) expected now st))"
| renew: "engine_write e (\<lambda>st. fst (renew_closure e now st))"
| release: "engine_write e (release_closure e)"
| fail_run: "engine_write e (\<lambda>st. fst (fail_closure e msg now st))"
| complete: "engine_write e (\<lambda>st. fst (complete_closure e now st))"
| budget: "engine_write e (\<lambda>st. fst (budget_closure ok now op st))"
| patch: "engine_write e (\<lambda>st. st\<lparr>st_context := (st_context st)\<lparr>ctx_data := p (ctx_data (st_context st))\<rparr>\<rparr>)"
| step: "engine_write e (modify_step sid f)"
| started: "engine_write e (mark_started sid att now)"
| written_back: "engine_write e (write_back e i ctx)"
| success: "engine_write e (record_success (s :: ('d, 'x) step_definition) ctx now ms)"
| iteration: "engine_write e (mark_iteration sid iter now)"
| iterated: "engine_write e (record_iteration e i (s :: ('d, 'x) step_definition) ctx now ms)"
| waiting: "engine_write e to_waiting"
| woken: "engine_write e (\<lambda>st. wait_succeeded sid now (to_running st))"
| wait_fail: "engine_write e (wait_failed sid msg now)"
| collected: "engine_write e (collect_closure sid joined now)"
| rollback_note: "engine_write e (note_failures fl)"

lemma engine_write_settled:
  "engine_write e f \<Longrightarrow> is_terminal (status st) \<Longrightarrow> status (f st) = status st"
proof (induction rule: engine_write.induct)
  case budget
  then show ?case by (auto simp: budget_closure_def split: option.split prod.split)
next
  case resume
  then show ?case by (auto simp: resume_closure_def is_terminal_def split: workflow_status.splits)
qed (auto simp: pause_closure_def cancel_closure_def renew_closure_def release_closure_def fail_closure_def
    complete_closure_def mark_started_def write_back_def record_success_def mark_iteration_def
    record_iteration_def to_waiting_def to_running_def wait_succeeded_def wait_failed_def
    collect_closure_def note_failures_def Let_def is_terminal_def
    split: option.split workflow_status.splits)

text \<open>
  What the engines \<open>es\<close>, each of some process, do to the shared table of runs: the closures above through
  the store's \<open>update\<close>, the cancellation of an orphaned run, which is a transaction of its own, the first
  state of a run that is not stored yet, and the entries of the journal. Deletion and eviction, which take
  a run away, are not among them.
\<close>

inductive run_write :: "('d, 'x) engine set \<Rightarrow> 'd mem_store \<Rightarrow> 'd mem_store \<Rightarrow> bool" for es where
  closure: "e \<in> es \<Longrightarrow> engine_write e f \<Longrightarrow> run_write es m (fst (store_update j (\<lambda>s. (f s, ())) now m))"
| orphan: "run_write es m (fst (cancel_orphaned_run j now ttl m))"
| new_run: "load m (st_run_id st) = Inl err \<Longrightarrow> run_write es m (save st m)"
| journal: "run_write es m (fst (append_journal j entry m))"

lemma orphan_keeps_settled:
  assumes "load m i = Inr st" "is_terminal (status st)"
  shows "load (fst (cancel_orphaned_run j now ttl m)) i = Inr st"
  using assms by (auto simp: cancel_orphaned_run_def load_def Let_def split: option.splits)

lemma run_write_settled:
  assumes "run_write es m m'" "load m i = Inr st" "is_terminal (status st)"
  shows "\<exists>st'. load m' i = Inr st' \<and> status st' = status st"
  using assms(1)
proof (cases rule: run_write.cases)
  case (closure e f j now)
  from engine_write_settled [OF closure(3) assms(3)] show ?thesis
    unfolding closure(1) by (intro mem.update_rel [OF assms(2)]) simp_all
next
  case (orphan j now ttl)
  with orphan_keeps_settled [OF assms(2,3)] show ?thesis by simp
next
  case (new_run x err)
  with assms(2) show ?thesis by (auto simp: mem.load_save)
next
  case (journal j entry)
  with assms(2) show ?thesis by (simp add: load_def append_journal_def)
qed

section \<open>Property\<close>

text \<open>
  C26: A settled run stays as it settled. Whatever the engines of any number of processes write
  afterwards, in any order, to this run and others (step tasks that are still at work, lease
  renewals, pauses, cancellations, resumes, budget calls, cancellations of orphaned runs, new runs,
  journal entries), the run's status does not change.
\<close>

theorem settled_run_stays_settled:
  assumes "(run_write es)\<^sup>*\<^sup>* m m'" "load m i = Inr st" "is_terminal (status st)"
  shows "\<exists>st'. load m' i = Inr st' \<and> status st' = status st"
  using assms(1)
proof (induction rule: rtranclp_induct)
  case base
  with assms(2) show ?case by simp
next
  case (step m1 m2)
  then obtain st1 where "load m1 i = Inr st1" "status st1 = status st" by blast
  with run_write_settled [OF step.hyps(2), of i st1] assms(3) show ?case by simp
qed

theorem settled_run_stays_settled_witness:
  "\<exists>st'. load (fst (cancel_orphaned_run 1 500 60 (fst (store_update 1 (\<lambda>s. (to_waiting s, ())) 6
      (save (demo_run\<lparr>status := WCompleted\<rparr>) new_store))))) 1 = Inr st' \<and> status st' = WCompleted"
proof -
  let ?m = "save (demo_run\<lparr>status := WCompleted\<rparr>) new_store"
  let ?m1 = "fst (store_update 1 (\<lambda>s. (to_waiting s, ())) 6 ?m)"
  have "run_write {demo_engine} ?m ?m1" by (rule run_write.closure [where e = demo_engine]) (simp_all add: engine_write.waiting)
  then have steps: "(run_write {demo_engine})\<^sup>*\<^sup>* ?m (fst (cancel_orphaned_run 1 500 60 ?m1))"
    by (meson run_write.orphan r_into_rtranclp rtranclp.rtrancl_into_rtrancl)
  have run: "load ?m 1 = Inr (detach (demo_run\<lparr>status := WCompleted\<rparr>))" by (simp add: mem.load_save)
  from settled_run_stays_settled [OF steps run] show ?thesis by simp
qed

end
