(* ===== verification/Wf_Variables.thy ===== *)
theory Wf_Variables
  imports Wf_State Str_Ops
begin

text \<open>
  The expansion of prompt templates, \<^verbatim>\<open>crates/flare-workflow/src/variables.rs\<close>. The variables of a
  run are a hash map: the order they are replaced in is the order of the argument \<open>vars\<close>. The
  compact text serde prints for a JSON value is the argument \<open>show_json\<close>.
\<close>

section \<open>Structured parameters\<close>

text \<open>\<open>Value::get(&str)\<close>: only an object has fields.\<close>

fun json_get :: "json \<Rightarrow> string \<Rightarrow> json option" where
  "json_get (JObj fs) k = map_of fs k"
| "json_get _ k = None"

fun json_walk :: "json \<Rightarrow> string list \<Rightarrow> json option" where
  "json_walk v [] = Some v"
| "json_walk v (k # ks) = (case json_get v k of None \<Rightarrow> None | Some v' \<Rightarrow> json_walk v' ks)"

definition resolve_params_path :: "(json \<Rightarrow> string) \<Rightarrow> json \<Rightarrow> string \<Rightarrow> string option" where
  "resolve_params_path show_json params path =
     (case json_walk params (split_on CHR ''.'' path) of
        None \<Rightarrow> None
      | Some (JStr s) \<Rightarrow> Some s
      | Some v \<Rightarrow> Some (show_json v))"

function expand_params :: "(json \<Rightarrow> string) \<Rightarrow> string \<Rightarrow> json \<Rightarrow> string" where
  "expand_params show_json rest params =
     (case split_at_str ''{{params.'' rest of
        None \<Rightarrow> rest
      | Some (before, after) \<Rightarrow>
          (case split_at_str ''}}'' (''params.'' @ after) of
             None \<Rightarrow> before @ ''{{'' @ ''params.'' @ after
           | Some (inner, rest') \<Rightarrow>
               (let path = drop (length ''params.'') inner
                in before
                   @ (case resolve_params_path show_json params path of
                        Some txt \<Rightarrow> txt
                      | None \<Rightarrow> ''{{params.'' @ path @ ''}}'')
                   @ expand_params show_json rest' params)))"
  by pat_completeness auto
termination
proof (relation "measure (\<lambda>(show_json, rest, params). length rest)", goal_cases)
  case 1
  show ?case by simp
next
  case (2 show_json rest params x before after y inner rest' path)
  have "rest = before @ ''{{params.'' @ after"
    by (rule split_at_str_Some) (use 2 in \<open>simp del: split_at_str.simps\<close>)
  moreover have "''params.'' @ after = inner @ ''}}'' @ rest'"
    by (rule split_at_str_Some) (use 2 in \<open>simp del: split_at_str.simps\<close>)
  then have "length (''params.'' @ after) = length (inner @ ''}}'' @ rest')" by (rule arg_cong)
  ultimately show ?case by simp
qed

declare expand_params.simps [simp del]

definition expand_variables ::
  "(json \<Rightarrow> string) \<Rightarrow> string \<Rightarrow> string \<Rightarrow> (string \<times> string) list \<Rightarrow> json \<Rightarrow> string" where
  "expand_variables show_json template inp vars params =
     expand_params show_json
       (foldl (\<lambda>result (key, val). replace_all (''{{'' @ key @ ''}}'') val result)
          (replace_all ''{{input}}'' inp template) vars) params"

lemma inner_has_prefix:
  assumes "split_at_str (c # cs) (pre @ after) = Some (inner, rest')" "c \<notin> set pre"
  shows "\<exists>path. inner = pre @ path \<and> after = path @ (c # cs) @ rest'"
proof -
  have "pre @ after = inner @ (c # cs) @ rest'" using assms(1) by (rule split_at_str_Some)
  then consider us where "pre = inner @ us" "us @ after = (c # cs) @ rest'"
    | us where "pre @ us = inner" "after = us @ (c # cs) @ rest'"
    by (auto simp: append_eq_append_conv2)
  then show ?thesis
  proof cases
    case 1
    with assms(2) show ?thesis by (cases us) auto
  next
    case 2
    then show ?thesis by auto
  qed
qed

text \<open>A path that resolves to nothing leaves its placeholder as it was.\<close>

lemma expand_params_unresolved:
  assumes "\<And>path. resolve_params_path show_json params path = None"
  shows "expand_params show_json t params = t"
  using assms
proof (induction show_json t params rule: expand_params.induct)
  case (1 show_json t params)
  show ?case
  proof (cases "split_at_str ''{{params.'' t")
    case None
    then show ?thesis by (simp add: expand_params.simps [of _ t])
  next
    case (Some ba)
    obtain before after where ba: "ba = (before, after)" by (cases ba)
    have t: "t = before @ ''{{params.'' @ after"
      using Some ba by (intro split_at_str_Some) simp
    show ?thesis
    proof (cases "split_at_str ''}}'' (''params.'' @ after)")
      case None
      have "expand_params show_json t params = before @ ''{{'' @ ''params.'' @ after"
        by (simp only: expand_params.simps [of show_json t params] Some ba None option.case prod.case)
      with t show ?thesis by simp
    next
      case inner: (Some ir)
      obtain inner rest' where ir: "ir = (inner, rest')" by (cases ir)
      obtain path where path: "inner = ''params.'' @ path" "after = path @ ''}}'' @ rest'"
        using inner_has_prefix [of "CHR ''}''" "''}''" "''params.''" after inner rest'] inner ir by auto
      have "expand_params show_json rest' params = rest'"
        using 1 Some ba inner ir by blast
      moreover have "drop (length ''params.'') inner = path" by (simp add: path)
      ultimately have "expand_params show_json t params = before @ (''{{params.'' @ path @ ''}}'') @ rest'"
        by (simp only: expand_params.simps [of show_json t params] Some ba inner ir option.case prod.case
            Let_def "1.prems")
      with t path show ?thesis by simp
    qed
  qed
qed

end
