(* ===== verification/Wf_Sqlite.thy ===== *)
theory Wf_Sqlite
  imports Wf_Store "HOL-Library.Multiset"
begin

text \<open>
  The SQLite state store, \<^verbatim>\<open>crates/flare-workflow/src/sqlite_store.rs\<close>, its journal table
  (\<^verbatim>\<open>journal.rs\<close>) and its budget ledger (\<^verbatim>\<open>sqlite_budget.rs\<close>), and the refinement that its
  operations answer as the in-memory store does.

  A table with a primary key is an association list in the order of its row ids, or a map where no
  query lists it. The JSON text of a state or a journal entry is an opaque value: \<open>ser\<close>, \<open>de\<close>,
  \<open>ser_entry\<close> and \<open>de_entry\<close> are serde's functions, with the text of their error on the left. The
  \<^verbatim>\<open>to_rfc3339\<close> texts of times in one time zone compare as the times do, and stand for them; the text of
  a run id stands for the id. Errors of the database itself (locks, transactions) are not modelled.
\<close>

section \<open>Status names\<close>

fun status_as_str :: "workflow_status \<Rightarrow> string" where
  "status_as_str WPending = ''pending''"
| "status_as_str WRunning = ''running''"
| "status_as_str WWaiting = ''waiting''"
| "status_as_str WPaused = ''paused''"
| "status_as_str WCompleted = ''completed''"
| "status_as_str WFailed = ''failed''"
| "status_as_str WCancelled = ''cancelled''"

fun step_status_as_str :: "step_status \<Rightarrow> string" where
  "step_status_as_str SPending = ''pending''"
| "step_status_as_str SRunning = ''running''"
| "step_status_as_str SSucceeded = ''succeeded''"
| "step_status_as_str SFailed = ''failed''"
| "step_status_as_str SRetrying = ''retrying''"
| "step_status_as_str SSkipped = ''skipped''"

definition status_from_str :: "string \<Rightarrow> workflow_status" where
  "status_from_str s =
     (if s = ''running'' then WRunning else if s = ''waiting'' then WWaiting
      else if s = ''paused'' then WPaused else if s = ''completed'' then WCompleted
      else if s = ''failed'' then WFailed else if s = ''cancelled'' then WCancelled else WPending)"

definition step_status_from_str :: "string \<Rightarrow> step_status" where
  "step_status_from_str s =
     (if s = ''running'' then SRunning else if s = ''succeeded'' then SSucceeded
      else if s = ''failed'' then SFailed else if s = ''retrying'' then SRetrying
      else if s = ''skipped'' then SSkipped else SPending)"

lemma status_roundtrip [simp]: "status_from_str (status_as_str s) = s"
  by (cases s) (simp_all add: status_from_str_def)

lemma step_status_roundtrip [simp]: "step_status_from_str (step_status_as_str s) = s"
  by (cases s) (simp_all add: step_status_from_str_def)

lemma status_as_str_inj [simp]: "status_as_str s = status_as_str t \<longleftrightarrow> s = t"
  by (metis status_roundtrip)

section \<open>Tables\<close>

record 'j run_row =
  rr_workflow_id :: workflow_id
  rr_status :: string
  rr_current_step :: "step_id option"
  rr_input :: string
  rr_output :: "string option"
  rr_error :: "string option"
  rr_state_json :: 'j
  rr_created_at :: time
  rr_updated_at :: time

record step_row =
  sw_status :: string
  sw_attempt :: int
  sw_last_error :: "string option"
  sw_started_at :: "time option"
  sw_completed_at :: "time option"
  sw_duration_ms :: int
  sw_input_tokens :: int
  sw_output_tokens :: int

record ('j, 'e) sqlite_store =
  workflow_runs :: "(run_id \<times> 'j run_row) list"
  step_state_rows :: "run_id \<times> step_id \<rightharpoonup> step_row"
  run_vars :: "run_id \<times> string \<rightharpoonup> string"
  journal_rows :: "(run_id \<times> nat \<times> 'e) list"
  workflow_budgets :: "run_id \<rightharpoonup> budget_state"




section \<open>Reading and writing states\<close>


definition delete_state :: "run_id \<Rightarrow> ('j, 'e) sqlite_store \<Rightarrow> ('j, 'e) sqlite_store" where
  "delete_state i q = q\<lparr>workflow_runs := filter (\<lambda>(j, _). j \<noteq> i) (workflow_runs q),
     journal_rows := filter (\<lambda>(j, _, _). j \<noteq> i) (journal_rows q),
     step_state_rows := (\<lambda>(j, s). if j = i then None else step_state_rows q (j, s)),
     run_vars := (\<lambda>(j, k). if j = i then None else run_vars q (j, k)),
     workflow_budgets := (workflow_budgets q)(i := None)\<rparr>"

definition deserialize :: "('j \<Rightarrow> string + 'd workflow_state) \<Rightarrow> 'j \<Rightarrow> 'd workflow_state wf_result" where
  "deserialize de json = (case de json of Inl e \<Rightarrow> Inl (StoreError (''deserialize state: '' @ e)) | Inr st \<Rightarrow> Inr st)"


definition sq_load ::
  "('j \<Rightarrow> string + 'd workflow_state) \<Rightarrow> ('j, 'e) sqlite_store \<Rightarrow> run_id \<Rightarrow> 'd workflow_state wf_result" where
  "sq_load de q i = (case map_of (workflow_runs q) i of
     None \<Rightarrow> Inl (NotFound i) | Some r \<Rightarrow> deserialize de (rr_state_json r))"







section \<open>Cleaning up\<close>

text \<open>
  A time to live beyond chrono's largest duration counts as one hour. When the cutoff is not a
  timestamp (\<open>ts_ok\<close>) the subtraction panics in the blocking task, and nothing is removed.
\<close>

definition sq_cutoff :: "time \<Rightarrow> duration \<Rightarrow> time" where
  "sq_cutoff now ttl = now - int (if ttl \<le> chrono_duration_max then ttl else 3600 * 1000000000)"

definition sq_cleanup_old_workflows ::
  "(time \<Rightarrow> bool) \<Rightarrow> time \<Rightarrow> duration \<Rightarrow> ('j, 'e) sqlite_store \<Rightarrow> ('j, 'e) sqlite_store \<times> nat" where
  "sq_cleanup_old_workflows ts_ok now ttl q =
     (if \<not> ts_ok (sq_cutoff now ttl) then (q, 0)
      else (let ids = map fst (filter (\<lambda>(_, r). rr_status r \<notin> {''pending'', ''running'', ''waiting'', ''paused''}
                  \<and> rr_updated_at r < sq_cutoff now ttl) (workflow_runs q))
            in (fold delete_state ids q, length ids)))"


section \<open>The journal\<close>






section \<open>The budget ledger\<close>

text \<open>The ledger has a table of its own, seeded by the budget in the run's state.\<close>

definition mutate_budget ::
  "('j \<Rightarrow> string + 'd workflow_state) \<Rightarrow> (time \<Rightarrow> bool) \<Rightarrow> run_id \<Rightarrow> budget_operation \<Rightarrow> time \<Rightarrow> ('j, 'e) sqlite_store
     \<Rightarrow> ('j, 'e) sqlite_store \<times> budget_update wf_result" where
  "mutate_budget de ts_ok i op now q =
     (case sq_load de q i of
        Inl e \<Rightarrow> (q, Inl e)
      | Inr st \<Rightarrow>
          if (case op of Reserve _ _ _ \<Rightarrow> True | _ \<Rightarrow> False) \<and> (is_terminal (status st) \<or> status st = WPaused)
          then (q, Inl (budget_error ''run is no longer dispatchable''))
          else (case st_budget st of
            None \<Rightarrow> (q, Inl (budget_error ''run has no budget''))
          | Some seed \<Rightarrow>
              (let b = (case workflow_budgets q i of None \<Rightarrow> seed | Some b \<Rightarrow> b)
               in if limits b \<noteq> limits seed \<or> started_at b \<noteq> started_at seed
                  then (q, Inl (budget_error ''persisted budget policy changed; start a new run''))
                  else (case apply_budget ts_ok now b op of
                      (_, Inl e) \<Rightarrow> (q, Inl e)
                    | (b', Inr u) \<Rightarrow>
                        (if op = Snapshot then q else q\<lparr>workflow_budgets := (workflow_budgets q)(i \<mapsto> b')\<rparr>, Inr u)))))"

section \<open>The same answers as the in-memory store\<close>


datatype ('d, 'r) store_reply =
    Done "unit wf_result"
  | Updated "'r wf_result"
  | Removed bool
  | Seq "nat wf_result"
  | State "'d workflow_state wf_result"
  | Context "'d workflow_context wf_result"
  | Flag "bool wf_result"
  | States "'d workflow_state list"
  | Entries "journal_entry list wf_result"


text \<open>serde's functions, as one argument.\<close>

record ('d, 'j, 'e) codec =
  ser :: "'d workflow_state \<Rightarrow> string + 'j"
  de :: "'j \<Rightarrow> string + 'd workflow_state"
  ser_entry :: "journal_entry \<Rightarrow> string + 'e"
  de_entry :: "'e \<Rightarrow> string + journal_entry"






fun same_answer :: "('d, 'r) store_reply \<Rightarrow> ('d, 'r) store_reply \<Rightarrow> bool" where
  "same_answer (States xs) (States ys) \<longleftrightarrow> mset xs = mset ys"
| "same_answer a b \<longleftrightarrow> a = b"

lemma same_answer_refl [simp]: "same_answer a a"
  by (cases a) simp_all

section \<open>The simulation\<close>















lemma foldl_max: "foldl max a (xs :: nat list) = max a (foldl max 0 xs)"
proof (induction xs arbitrary: a)
  case (Cons x xs)
  show ?case by (simp only: foldl_Cons, subst (1 2) Cons.IH) simp
qed simp











section \<open>Property\<close>





end
