(* ===== verification/Job_Queue.thy ===== *)
theory Job_Queue
  imports Str_Ops
begin

text \<open>
  The daemon's job queue: \<^verbatim>\<open>crates/agentflare-jobs/src/queue.rs\<close> and \<^verbatim>\<open>types.rs\<close>. The table
  \<open>agent_jobs\<close> is the list of its rows in the order of their row ids; every operation is one SQL
  transaction. Times are epoch seconds. A payload is \<open>None\<close> when its text does not parse as an
  \<open>AgentJob\<close>; a path is the text it is stored as.
\<close>

section \<open>Jobs and rows\<close>

datatype job_state = JobQueued | JobRunning | JobExited | JobKilled | JobFailed

definition job_is_terminal :: "job_state \<Rightarrow> bool" where
  "job_is_terminal s \<longleftrightarrow> s = JobExited \<or> s = JobKilled \<or> s = JobFailed"

fun as_sql_state :: "job_state \<Rightarrow> string" where
  "as_sql_state JobQueued = ''queued''"
| "as_sql_state JobRunning = ''running''"
| "as_sql_state JobExited = ''exited''"
| "as_sql_state JobKilled = ''killed''"
| "as_sql_state JobFailed = ''failed''"

definition job_state_of_sql :: "string \<Rightarrow> job_state" where
  "job_state_of_sql s =
     (if s = ''running'' then JobRunning else if s = ''exited'' then JobExited
      else if s = ''killed'' then JobKilled else if s = ''failed'' then JobFailed else JobQueued)"

record agent_job =
  aj_command :: string
  aj_args :: "string list"
  aj_env :: "(string \<times> string) list"
  aj_cwd :: "string option"
  aj_timeout_secs :: nat
  aj_kill_after_secs :: nat
  aj_max_retries :: nat
  aj_task_type :: "string option"
  aj_agent_type :: "string option"
  aj_prompt :: "string option"
  aj_metadata :: "string \<rightharpoonup> string"
  aj_in_process :: bool

definition new_job :: "string \<Rightarrow> agent_job" where
  "new_job command = \<lparr>aj_command = command, aj_args = [], aj_env = [], aj_cwd = None, aj_timeout_secs = 300,
     aj_kill_after_secs = 5, aj_max_retries = 3, aj_task_type = None, aj_agent_type = None, aj_prompt = None,
     aj_metadata = Map.empty, aj_in_process = False\<rparr>"

record job_output =
  jo_exit_code :: "int option"
  jo_timed_out :: bool
  jo_stdout_path :: string
  jo_stderr_path :: string
  jo_stdout_total_bytes :: nat
  jo_stderr_total_bytes :: nat

record job_info =
  ji_id :: string
  ji_command :: string
  ji_args :: "string list"
  ji_state :: job_state
  ji_retries :: nat
  ji_max_retries :: nat
  ji_error :: "string option"
  ji_created_at :: time
  ji_started_at :: "time option"
  ji_finished_at :: "time option"
  ji_output :: "job_output option"
  ji_in_process :: bool
  ji_dispatch_reason :: "string option"

record job_row =
  jr_id :: string
  jr_state :: string
  jr_payload :: "agent_job option"
  jr_retries :: nat
  jr_max_retries :: nat
  jr_error :: "string option"
  jr_stdout_log_path :: "string option"
  jr_stderr_log_path :: "string option"
  jr_exit_code :: "int option"
  jr_timed_out :: bool
  jr_created_at :: time
  jr_started_at :: "time option"
  jr_finished_at :: "time option"
  jr_stdout_bytes :: int
  jr_stderr_bytes :: int
  jr_not_before :: "time option"
  jr_cancel_requested :: bool
  jr_effective_agent :: "string option"

text \<open>The row an \<open>INSERT\<close> makes, with the defaults of the table's columns.\<close>

definition inserted_row :: "string \<Rightarrow> agent_job \<Rightarrow> time \<Rightarrow> job_row" where
  "inserted_row i job now = \<lparr>jr_id = i, jr_state = ''queued'', jr_payload = Some job, jr_retries = 0,
     jr_max_retries = aj_max_retries job, jr_error = None, jr_stdout_log_path = None, jr_stderr_log_path = None,
     jr_exit_code = None, jr_timed_out = False, jr_created_at = now, jr_started_at = None, jr_finished_at = None,
     jr_stdout_bytes = 0, jr_stderr_bytes = 0, jr_not_before = None, jr_cancel_requested = False,
     jr_effective_agent = None\<rparr>"

datatype queue_error = QSqlite | QNoRows | QNotFound string | QNotCancellable string | QSerialize

text \<open>\<open>signaled\<close> is the flag of a wake-up that no worker has seen yet.\<close>

record job_queue =
  agent_jobs :: "job_row list"
  signaled :: bool
  log_dir :: string

definition open_memory :: "string \<Rightarrow> job_queue" where
  "open_memory dir = \<lparr>agent_jobs = [], signaled = False, log_dir = dir\<rparr>"

text \<open>\<open>UPDATE agent_jobs SET \<dots> WHERE \<dots>\<close>, with the number of rows it changed; the look at one row.\<close>

definition update_where :: "(job_row \<Rightarrow> bool) \<Rightarrow> (job_row \<Rightarrow> job_row) \<Rightarrow> job_queue \<Rightarrow> job_queue \<times> nat" where
  "update_where c f q =
     (q\<lparr>agent_jobs := map (\<lambda>r. if c r then f r else r) (agent_jobs q)\<rparr>, length (filter c (agent_jobs q)))"

definition row_of :: "string \<Rightarrow> job_queue \<Rightarrow> job_row option" where
  "row_of i q = find (\<lambda>r. jr_id r = i) (agent_jobs q)"

section \<open>Waking the workers\<close>

definition wake_workers :: "job_queue \<Rightarrow> job_queue" where
  "wake_workers q = q\<lparr>signaled := True\<rparr>"

text \<open>The result says whether the worker has to block until the flag is set or the time is over.\<close>

definition wait_for_work :: "job_queue \<Rightarrow> job_queue \<times> bool" where
  "wait_for_work q = (q\<lparr>signaled := False\<rparr>, \<not> signaled q)"

section \<open>Enqueue, dequeue\<close>

definition queued_info :: "string \<Rightarrow> agent_job \<Rightarrow> time \<Rightarrow> job_info" where
  "queued_info i job now = \<lparr>ji_id = i, ji_command = aj_command job, ji_args = aj_args job, ji_state = JobQueued,
     ji_retries = 0, ji_max_retries = aj_max_retries job, ji_error = None, ji_created_at = now,
     ji_started_at = None, ji_finished_at = None, ji_output = None, ji_in_process = aj_in_process job,
     ji_dispatch_reason = aj_metadata job ''dispatch_reason''\<rparr>"

definition enqueue :: "string \<Rightarrow> agent_job \<Rightarrow> time \<Rightarrow> job_queue \<Rightarrow> job_queue \<times> (queue_error + job_info)" where
  "enqueue i job now q =
     (if row_of i q \<noteq> None then (q, Inl QSqlite)
      else (wake_workers (q\<lparr>agent_jobs := agent_jobs q @ [inserted_row i job now]\<rparr>), Inr (queued_info i job now)))"

definition is_due :: "time \<Rightarrow> job_row \<Rightarrow> bool" where
  "is_due now r \<longleftrightarrow> jr_state r = ''queued'' \<and> (case jr_not_before r of None \<Rightarrow> True | Some t \<Rightarrow> t \<le> now)"

text \<open>\<open>ORDER BY created_at ASC LIMIT 1\<close>; rows created in the same second in the order of their row ids.\<close>

fun oldest :: "job_row list \<Rightarrow> job_row option" where
  "oldest [] = None"
| "oldest (r # rs) = (case oldest rs of
     None \<Rightarrow> Some r
   | Some r' \<Rightarrow> Some (if jr_created_at r' < jr_created_at r then r' else r))"

definition dequeue :: "time \<Rightarrow> job_queue \<Rightarrow> job_queue \<times> (queue_error + (string \<times> agent_job) option)" where
  "dequeue now q =
     (case oldest (filter (is_due now) (agent_jobs q)) of
        None \<Rightarrow> (q, Inr None)
      | Some r \<Rightarrow>
          (let q' = fst (update_where (\<lambda>r'. jr_id r' = jr_id r)
                      (\<lambda>r'. r'\<lparr>jr_state := ''running'', jr_started_at := Some now\<rparr>) q)
           in case jr_payload r of
                None \<Rightarrow> (q', Inl QSerialize)
              | Some job \<Rightarrow> (q', Inr (Some (jr_id r, job)))))"

section \<open>The end of an attempt\<close>

definition cancelled_message :: string where
  "cancelled_message = ''cancelled: job stopped on request (item reassigned, cancelled or paused)''"

definition complete_row :: "job_output \<Rightarrow> bool \<Rightarrow> time \<Rightarrow> job_row \<Rightarrow> job_row" where
  "complete_row out success now r = r\<lparr>
     jr_state := (if jr_cancel_requested r then ''killed'' else if success then ''exited'' else ''failed''),
     jr_error := (if jr_cancel_requested r then Some cancelled_message else jr_error r),
     jr_exit_code := jo_exit_code out, jr_timed_out := jo_timed_out out,
     jr_stdout_log_path := Some (jo_stdout_path out), jr_stderr_log_path := Some (jo_stderr_path out),
     jr_stdout_bytes := as_i64 (jo_stdout_total_bytes out), jr_stderr_bytes := as_i64 (jo_stderr_total_bytes out),
     jr_finished_at := Some now\<rparr>"

definition complete :: "string \<Rightarrow> job_output \<Rightarrow> bool \<Rightarrow> time \<Rightarrow> job_queue \<Rightarrow> job_queue" where
  "complete i out success now q = fst (update_where (\<lambda>r. jr_id r = i) (complete_row out success now) q)"

definition set_output :: "string \<Rightarrow> string \<Rightarrow> nat \<Rightarrow> nat \<Rightarrow> job_row \<Rightarrow> job_row" where
  "set_output so se nso nse r = r\<lparr>jr_stdout_log_path := Some so, jr_stderr_log_path := Some se,
     jr_stdout_bytes := as_i64 nso, jr_stderr_bytes := as_i64 nse\<rparr>"

definition record_output :: "string \<Rightarrow> string \<Rightarrow> string \<Rightarrow> nat \<Rightarrow> nat \<Rightarrow> job_queue \<Rightarrow> job_queue" where
  "record_output i so se nso nse q = fst (update_where (\<lambda>r. jr_id r = i) (set_output so se nso nse) q)"

definition killed_row :: "string \<Rightarrow> time \<Rightarrow> job_row \<Rightarrow> job_row" where
  "killed_row msg now r = r\<lparr>jr_state := ''killed'', jr_error := Some msg, jr_finished_at := Some now\<rparr>"

definition requeued_row :: "string \<Rightarrow> time option \<Rightarrow> job_row \<Rightarrow> job_row" where
  "requeued_row msg nb r = r\<lparr>jr_state := ''queued'', jr_retries := jr_retries r + 1, jr_error := Some msg,
     jr_started_at := None, jr_not_before := nb\<rparr>"

definition failed_row :: "string \<Rightarrow> time \<Rightarrow> job_row \<Rightarrow> job_row" where
  "failed_row msg now r = r\<lparr>jr_state := ''failed'', jr_error := Some msg, jr_finished_at := Some now\<rparr>"

text \<open>The result says whether the failure was final.\<close>

definition fail_job ::
  "string \<Rightarrow> string \<Rightarrow> nat option \<Rightarrow> bool \<Rightarrow> time \<Rightarrow> job_queue \<Rightarrow> job_queue \<times> (queue_error + bool)" where
  "fail_job i msg retry_after fatal now q =
     (case row_of i q of
        None \<Rightarrow> (q, Inl QNoRows)
      | Some r \<Rightarrow>
          if jr_cancel_requested r
          then (fst (update_where (\<lambda>r. jr_id r = i) (killed_row msg now) q), Inr False)
          else if \<not> fatal \<and> jr_retries r < jr_max_retries r
          then (wake_workers (fst (update_where (\<lambda>r. jr_id r = i)
                  (requeued_row msg (map_option (\<lambda>s. now + as_i64 s) retry_after)) q)), Inr False)
          else (fst (update_where (\<lambda>r. jr_id r = i) (failed_row msg now) q), Inr True))"

section \<open>Reconciling running rows nobody runs\<close>

definition path_join :: "string \<Rightarrow> string \<Rightarrow> string" where
  "path_join d f = (if d = [] \<or> last d = CHR ''/'' then d @ f else d @ ''/'' @ f)"

definition reconciled_row :: "string \<Rightarrow> string \<Rightarrow> (string \<Rightarrow> nat) \<Rightarrow> time \<Rightarrow> job_row \<Rightarrow> job_row" where
  "reconciled_row msg dir sizes now r =
     (let so = path_join dir (jr_id r @ ''.stdout''); se = path_join dir (jr_id r @ ''.stderr'')
      in set_output so se (sizes so) (sizes se) (failed_row msg now r))"

definition orphan_error :: string where
  "orphan_error = ''orphaned by daemon restart''"

definition stale_error :: string where
  "stale_error = ''orphaned: exceeded its own timeout without ever completing (its worker thread likely died mid-job)''"

definition parsed_jobs :: "job_row list \<Rightarrow> (string \<times> agent_job) list" where
  "parsed_jobs rs = List.map_filter (\<lambda>r. map_option (\<lambda>job. (jr_id r, job)) (jr_payload r)) rs"

text \<open>\<open>sizes\<close> gives the length of a file, 0 for a missing one.\<close>

definition reconcile_orphaned_running ::
  "(string \<Rightarrow> nat) \<Rightarrow> time \<Rightarrow> job_queue \<Rightarrow> job_queue \<times> (string \<times> agent_job) list" where
  "reconcile_orphaned_running sizes now q =
     (let rows = filter (\<lambda>r. jr_state r = ''running'') (agent_jobs q)
      in (foldl (\<lambda>q' r. fst (update_where (\<lambda>r'. jr_id r' = jr_id r)
            (reconciled_row orphan_error (log_dir q) sizes now) q')) q rows,
          parsed_jobs rows))"

definition still_in_time :: "int \<Rightarrow> time \<Rightarrow> agent_job \<Rightarrow> job_row \<Rightarrow> bool" where
  "still_in_time grace now job r \<longleftrightarrow>
     (case jr_started_at r of None \<Rightarrow> True | Some t \<Rightarrow> now < t + as_i64 (aj_timeout_secs job) + grace)"

definition reconcile_stale ::
  "int \<Rightarrow> (string \<Rightarrow> nat) \<Rightarrow> time \<Rightarrow> job_row \<Rightarrow> job_queue \<times> (string \<times> agent_job) list
     \<Rightarrow> job_queue \<times> (string \<times> agent_job) list" where
  "reconcile_stale grace sizes now r = (\<lambda>(q, out).
     (case jr_payload r of
        None \<Rightarrow> (q, out)
      | Some job \<Rightarrow>
          if still_in_time grace now job r then (q, out)
          else (case update_where (\<lambda>r'. jr_id r' = jr_id r \<and> jr_state r' = ''running'')
                       (reconciled_row stale_error (log_dir q) sizes now) q of
                  (q', affected) \<Rightarrow> (q', if affected > 0 then out @ [(jr_id r, job)] else out))))"

definition reconcile_stale_running ::
  "int \<Rightarrow> (string \<Rightarrow> nat) \<Rightarrow> time \<Rightarrow> job_queue \<Rightarrow> job_queue \<times> (string \<times> agent_job) list" where
  "reconcile_stale_running grace sizes now q =
     fold (reconcile_stale grace sizes now)
       (filter (\<lambda>r. jr_state r = ''running'' \<and> jr_started_at r \<noteq> None) (agent_jobs q)) (q, [])"

section \<open>Cancelling\<close>

definition cancel_job :: "string \<Rightarrow> time \<Rightarrow> job_queue \<Rightarrow> job_queue \<times> (queue_error + unit)" where
  "cancel_job i now q =
     (case update_where (\<lambda>r. jr_id r = i \<and> jr_state r = ''queued'')
             (\<lambda>r. r\<lparr>jr_state := ''killed'', jr_finished_at := Some now\<rparr>) q of
        (q', affected) \<Rightarrow> (q', if affected = 0 then Inl (QNotFound i) else Inr ()))"

text \<open>A queued job is killed at once; a running one only gets its flag.\<close>

definition kill_or_flag :: "string \<Rightarrow> string \<Rightarrow> time \<Rightarrow> job_queue \<Rightarrow> job_queue \<times> bool" where
  "kill_or_flag i st now q =
     (let (q1, killed) = (if st = ''queued''
            then map_prod id (\<lambda>n. n > 0) (update_where (\<lambda>r. jr_id r = i \<and> jr_state r = ''queued'')
                   (killed_row cancelled_message now) q)
            else (q, False));
          (q2, flagged) = (if \<not> killed
            then map_prod id (\<lambda>n. n > 0)
                   (update_where (\<lambda>r. jr_id r = i \<and> (jr_state r = ''queued'' \<or> jr_state r = ''running''))
                      (\<lambda>r. r\<lparr>jr_cancel_requested := True\<rparr>) q1)
            else (q1, False))
      in (q2, killed \<or> flagged))"

definition request_cancel :: "string \<Rightarrow> time \<Rightarrow> job_queue \<Rightarrow> job_queue \<times> (queue_error + bool)" where
  "request_cancel i now q =
     (case row_of i q of
        None \<Rightarrow> (q, Inl (QNotFound i))
      | Some r \<Rightarrow>
          (let in_process = (case jr_payload r of None \<Rightarrow> False | Some job \<Rightarrow> aj_in_process job)
           in if jr_state r = ''running'' \<and> \<not> in_process then (q, Inl (QNotCancellable i))
              else (case kill_or_flag i (jr_state r) now q of (q', done_it) \<Rightarrow> (q', Inr done_it))))"

definition job_cancelled :: "string \<Rightarrow> job_queue \<Rightarrow> bool" where
  "job_cancelled i q =
     (case row_of i q of None \<Rightarrow> False | Some r \<Rightarrow> jr_state r = ''killed'' \<or> jr_cancel_requested r)"

definition targets_item :: "string \<Rightarrow> (string \<Rightarrow> bool) \<Rightarrow> agent_job \<Rightarrow> bool" where
  "targets_item item keep job \<longleftrightarrow>
     aj_in_process job \<and> aj_args job \<noteq> [] \<and> aj_args job ! 0 = item
     \<and> length (aj_args job) > 1 \<and> \<not> keep (aj_args job ! 1)"

definition cancel_one ::
  "string \<Rightarrow> (string \<Rightarrow> bool) \<Rightarrow> time \<Rightarrow> job_row \<Rightarrow> job_queue \<times> string list \<Rightarrow> job_queue \<times> string list" where
  "cancel_one item keep now r = (\<lambda>(q, out).
     (case jr_payload r of
        None \<Rightarrow> (q, out)
      | Some job \<Rightarrow>
          if \<not> targets_item item keep job then (q, out)
          else (case kill_or_flag (jr_id r) (jr_state r) now q of
                  (q', done_it) \<Rightarrow> (q', if done_it then out @ [jr_id r] else out))))"

definition cancel_for_item ::
  "string \<Rightarrow> (string \<Rightarrow> bool) \<Rightarrow> time \<Rightarrow> job_queue \<Rightarrow> job_queue \<times> string list" where
  "cancel_for_item item keep now q =
     fold (cancel_one item keep now)
       (filter (\<lambda>r. (jr_state r = ''queued'' \<or> jr_state r = ''running'') \<and> \<not> jr_cancel_requested r) (agent_jobs q)) (q, [])"

section \<open>Cleaning up, reading\<close>

definition cleanable :: "time \<Rightarrow> job_row \<Rightarrow> bool" where
  "cleanable cutoff r \<longleftrightarrow> (case jr_finished_at r of None \<Rightarrow> False | Some t \<Rightarrow> t < cutoff)"

text \<open>The result is the number of rows deleted and the log files that are removed with them.\<close>

definition cleanup_jobs :: "int \<Rightarrow> time \<Rightarrow> job_queue \<Rightarrow> job_queue \<times> nat \<times> string list" where
  "cleanup_jobs older_than now q =
     (let gone = filter (cleanable (now - older_than)) (agent_jobs q)
      in (q\<lparr>agent_jobs := filter (\<lambda>r. \<not> cleanable (now - older_than) r) (agent_jobs q)\<rparr>, length gone,
          concat (map (\<lambda>r. List.map_filter id [jr_stdout_log_path r, jr_stderr_log_path r]) gone)))"

definition map_job_row :: "job_row \<Rightarrow> job_info" where
  "map_job_row r =
     (let (command, args, in_process, reason) = (case jr_payload r of
            None \<Rightarrow> ([], [], False, None)
          | Some job \<Rightarrow> (aj_command job, aj_args job, aj_in_process job, aj_metadata job ''dispatch_reason''))
      in \<lparr>ji_id = jr_id r, ji_command = command, ji_args = args, ji_state = job_state_of_sql (jr_state r),
          ji_retries = jr_retries r, ji_max_retries = jr_max_retries r, ji_error = jr_error r,
          ji_created_at = jr_created_at r, ji_started_at = jr_started_at r, ji_finished_at = jr_finished_at r,
          ji_output = map_option (\<lambda>code. \<lparr>jo_exit_code = Some code, jo_timed_out = jr_timed_out r,
              jo_stdout_path = (case jr_stdout_log_path r of None \<Rightarrow> [] | Some p \<Rightarrow> p),
              jo_stderr_path = (case jr_stderr_log_path r of None \<Rightarrow> [] | Some p \<Rightarrow> p),
              jo_stdout_total_bytes = nat (jr_stdout_bytes r mod 2 ^ 64),
              jo_stderr_total_bytes = nat (jr_stderr_bytes r mod 2 ^ 64)\<rparr>) (jr_exit_code r),
          ji_in_process = in_process, ji_dispatch_reason = reason\<rparr>)"

definition list_jobs :: "job_state option \<Rightarrow> job_queue \<Rightarrow> job_info list" where
  "list_jobs st q =
     (let rows = (case st of None \<Rightarrow> agent_jobs q
                  | Some s \<Rightarrow> filter (\<lambda>r. jr_state r = as_sql_state s) (agent_jobs q))
      in map map_job_row (take 100 (sort_key (\<lambda>r. - jr_created_at r) rows)))"

definition get_job :: "string \<Rightarrow> job_queue \<Rightarrow> queue_error + job_info" where
  "get_job i q = (case row_of i q of None \<Rightarrow> Inl QNoRows | Some r \<Rightarrow> Inr (map_job_row r))"

definition set_effective_agent :: "string \<Rightarrow> string \<Rightarrow> job_queue \<Rightarrow> job_queue" where
  "set_effective_agent i agent q = fst (update_where (\<lambda>r. jr_id r = i) (\<lambda>r. r\<lparr>jr_effective_agent := Some agent\<rparr>) q)"

lemmas row_updates = complete_row_def set_output_def killed_row_def requeued_row_def failed_row_def reconciled_row_def
  Let_def

end
