(* ===== verification/Job_Worker.thy ===== *)
theory Job_Worker
  imports Job_Queue
begin

text \<open>
  The workers of the job queue: \<^verbatim>\<open>crates/agentflare-jobs/src/worker.rs\<close>, the executor's result in
  \<^verbatim>\<open>executor.rs\<close> and the capture of a subprocess's output in \<^verbatim>\<open>supervisor.rs\<close>. What an executor or
  a subprocess does is an argument; what the worker then does to the queue is modelled. Histories
  interleave the workers of one daemon with everybody else who changes the table.
\<close>

section \<open>How an attempt ends\<close>

record job_failure =
  jf_message :: string
  jf_retry_after_secs :: "nat option"
  jf_fatal :: bool

definition failure_of_message :: "string \<Rightarrow> job_failure" where
  "failure_of_message msg = \<lparr>jf_message = msg, jf_retry_after_secs = None, jf_fatal = False\<rparr>"

text \<open>
  \<open>Returned\<close> is a result within the timeout. \<open>TimedOut\<close> is the timeout, or the end of a panicking
  executor; its argument says whether the executor returned success within the grace period.
\<close>

datatype in_process_end = NoExecutor | LogFileError string | Returned "job_failure option" | TimedOut bool

datatype job_attempt_end = InProcess in_process_end | SpawnError string | Spawned job_output job_state

definition watchdog_secs :: "nat \<Rightarrow> nat" where
  "watchdog_secs timeout_secs = max timeout_secs 1"

definition abandon_grace :: "nat \<Rightarrow> nat" where
  "abandon_grace timeout_secs = min (max timeout_secs 1) 30"

definition timeout_message :: "nat \<Rightarrow> string" where
  "timeout_message secs = ''in-process job exceeded its '' @ show_nat secs @
     ''s timeout and was abandoned (a coordination step may be stuck '' @ [CHR 0xE2, CHR 0x80, CHR 0x94] @
     '' the agent CLI subprocess itself has its own separate hard-cap/idle-timeout and is not what this timeout measures)''"

definition no_executor_message :: string where
  "no_executor_message = ''job is marked in_process but no InProcessExecutor is registered on this WorkerPool''"

definition record_fail :: "string \<Rightarrow> job_failure \<Rightarrow> time \<Rightarrow> job_queue \<Rightarrow> job_queue \<times> bool" where
  "record_fail i f now q =
     map_prod id (\<lambda>r. r = Inr True) (fail_job i (jf_message f) (jf_retry_after_secs f) (jf_fatal f) now q)"

text \<open>The flag of the result says whether the terminal-failure hook is called.\<close>

definition record_job_success :: "string \<Rightarrow> (string \<Rightarrow> nat) \<Rightarrow> time \<Rightarrow> job_queue \<Rightarrow> job_queue \<times> bool" where
  "record_job_success i sizes now q =
     (let so = path_join (log_dir q) (i @ ''.stdout''); se = path_join (log_dir q) (i @ ''.stderr'')
      in (complete i \<lparr>jo_exit_code = Some 0, jo_timed_out = False, jo_stdout_path = so, jo_stderr_path = se,
            jo_stdout_total_bytes = sizes so, jo_stderr_total_bytes = 0\<rparr> True now q, False))"

definition record_output_best_effort :: "string \<Rightarrow> (string \<Rightarrow> nat) \<Rightarrow> job_queue \<Rightarrow> job_queue" where
  "record_output_best_effort i sizes q =
     (let so = path_join (log_dir q) (i @ ''.stdout''); se = path_join (log_dir q) (i @ ''.stderr'')
      in record_output i so se (sizes so) 0 q)"

fun run_in_process ::
  "string \<Rightarrow> agent_job \<Rightarrow> (string \<Rightarrow> nat) \<Rightarrow> in_process_end \<Rightarrow> time \<Rightarrow> job_queue \<Rightarrow> job_queue \<times> bool" where
  "run_in_process i job sizes NoExecutor now q = record_fail i (failure_of_message no_executor_message) now q"
| "run_in_process i job sizes (LogFileError e) now q =
     record_fail i (failure_of_message (''failed to open job log file: '' @ e)) now q"
| "run_in_process i job sizes (Returned None) now q = record_job_success i sizes now q"
| "run_in_process i job sizes (Returned (Some f)) now q =
     record_fail i f now (record_output_best_effort i sizes q)"
| "run_in_process i job sizes (TimedOut finished) now q =
     (if finished then record_job_success i sizes now q
      else record_fail i (failure_of_message (timeout_message (aj_timeout_secs job))) now
             (record_output_best_effort i sizes q))"

text \<open>The arms of \<open>worker_loop\<close> for a job it has dequeued; only in-process jobs have the hook.\<close>

fun finish_job ::
  "string \<Rightarrow> agent_job \<Rightarrow> (string \<Rightarrow> nat) \<Rightarrow> job_attempt_end \<Rightarrow> time \<Rightarrow> job_queue \<Rightarrow> job_queue \<times> bool" where
  "finish_job i job sizes (InProcess e) now q = run_in_process i job sizes e now q"
| "finish_job i job sizes (SpawnError e) now q = (fst (fail_job i e None False now q), False)"
| "finish_job i job sizes (Spawned out st) now q = (complete i out (st = JobExited) now q, False)"

section \<open>Histories\<close>

text \<open>
  \<open>held\<close> are the jobs some worker of the daemon is at work on, \<open>attempts\<close> the ids handed to workers so
  far, the latest first. A worker thread may die without a word, and the daemon may be restarted:
  the workers are gone and the rows they left running are reconciled before anything is dequeued.
\<close>

record pool =
  pq :: job_queue
  held :: "(string \<times> agent_job) list"
  attempts :: "string list"

datatype pool_op =
    Enqueue string agent_job time
  | Dequeue time
  | Finish string "string \<Rightarrow> nat" job_attempt_end time
  | WorkerDies string
  | Restart "string \<Rightarrow> nat" time
  | SweepStale int "string \<Rightarrow> nat" time
  | Cancel string time
  | RequestCancel string time
  | CancelForItem string "string \<Rightarrow> bool" time
  | Cleanup int time
  | SetAgent string string

fun pool_exec :: "pool_op \<Rightarrow> pool \<Rightarrow> pool" where
  "pool_exec (Enqueue i job now) p = p\<lparr>pq := fst (enqueue i job now (pq p))\<rparr>"
| "pool_exec (Dequeue now) p =
     (case dequeue now (pq p) of
        (q, Inr (Some (i, job))) \<Rightarrow> p\<lparr>pq := q, held := held p @ [(i, job)], attempts := i # attempts p\<rparr>
      | (q, Inr None) \<Rightarrow> p\<lparr>pq := fst (wait_for_work q)\<rparr>
      | (q, Inl _) \<Rightarrow> p\<lparr>pq := q\<rparr>)"
| "pool_exec (Finish i sizes e now) p =
     (case map_of (held p) i of
        None \<Rightarrow> p
      | Some job \<Rightarrow> p\<lparr>pq := fst (finish_job i job sizes e now (pq p)), held := filter (\<lambda>(j, _). j \<noteq> i) (held p)\<rparr>)"
| "pool_exec (WorkerDies i) p = p\<lparr>held := filter (\<lambda>(j, _). j \<noteq> i) (held p)\<rparr>"
| "pool_exec (Restart sizes now) p = p\<lparr>pq := fst (reconcile_orphaned_running sizes now (pq p)), held := []\<rparr>"
| "pool_exec (SweepStale grace sizes now) p = p\<lparr>pq := fst (reconcile_stale_running grace sizes now (pq p))\<rparr>"
| "pool_exec (Cancel i now) p = p\<lparr>pq := fst (cancel_job i now (pq p))\<rparr>"
| "pool_exec (RequestCancel i now) p = p\<lparr>pq := fst (request_cancel i now (pq p))\<rparr>"
| "pool_exec (CancelForItem item keep now) p = p\<lparr>pq := fst (cancel_for_item item keep now (pq p))\<rparr>"
| "pool_exec (Cleanup older now) p = p\<lparr>pq := fst (cleanup_jobs older now (pq p))\<rparr>"
| "pool_exec (SetAgent i a) p = p\<lparr>pq := set_effective_agent i a (pq p)\<rparr>"

definition pool_run :: "pool_op list \<Rightarrow> pool \<Rightarrow> pool" where
  "pool_run ops p = fold pool_exec ops p"

definition new_pool :: "string \<Rightarrow> pool" where
  "new_pool dir = \<lparr>pq = open_memory dir, held = [], attempts = []\<rparr>"

fun enqueued_id :: "pool_op \<Rightarrow> string list" where
  "enqueued_id (Enqueue i _ _) = [i]"
| "enqueued_id _ = []"

text \<open>Ids are drawn by \<open>nanoid\<close>: no id is drawn twice.\<close>

definition fresh_ids :: "pool_op list \<Rightarrow> bool" where
  "fresh_ids ops \<longleftrightarrow> distinct (concat (map enqueued_id ops))"

end
