(* ===== verification/Job_Life.thy ===== *)
theory Job_Life
  imports Job_Worker
begin

text \<open>
  What happens to one job of the queue: an abstract state machine of a single job, the simulation
  that every operation of the queue and its workers moves every job along it, and what follows for
  whole histories.
\<close>

section \<open>Rows after an update\<close>

lemma find_SomeD: "find P xs = Some x \<Longrightarrow> P x \<and> x \<in> set xs"
  by (auto simp: find_Some_iff)

lemma find_map_same: "(\<And>x. P (g x) = P x) \<Longrightarrow> find P (map g xs) = map_option g (find P xs)"
  by (induction xs) auto

lemma row_of_update_where:
  assumes "\<And>r. jr_id (f r) = jr_id r"
  shows "row_of i (fst (update_where c f q)) = map_option (\<lambda>r. if c r then f r else r) (row_of i q)"
  using assms by (simp add: row_of_def update_where_def find_map_same)

lemma row_of_Some: "row_of i q = Some r \<Longrightarrow> r \<in> set (agent_jobs q) \<and> jr_id r = i"
  by (auto simp: row_of_def find_Some_iff)

lemma row_of_None: "row_of i q = None \<longleftrightarrow> i \<notin> jr_id ` set (agent_jobs q)"
  by (auto simp: row_of_def find_None_iff)

definition ids_distinct :: "job_queue \<Rightarrow> bool" where
  "ids_distinct q \<longleftrightarrow> distinct (map jr_id (agent_jobs q))"

lemma row_of_mem: "ids_distinct q \<Longrightarrow> r \<in> set (agent_jobs q) \<Longrightarrow> row_of (jr_id r) q = Some r"
proof -
  have "distinct (map jr_id rs) \<Longrightarrow> r \<in> set rs \<Longrightarrow> find (\<lambda>r'. jr_id r' = jr_id r) rs = Some r" for rs
    by (induction rs) force+
  then show "ids_distinct q \<Longrightarrow> r \<in> set (agent_jobs q) \<Longrightarrow> row_of (jr_id r) q = Some r"
    by (simp add: ids_distinct_def row_of_def)
qed

lemma row_unique: "ids_distinct q \<Longrightarrow> row_of i q = Some r \<Longrightarrow> r' \<in> set (agent_jobs q) \<Longrightarrow> jr_id r' = i \<Longrightarrow> r' = r"
  using row_of_mem [of q r'] by simp

lemma ids_update_where:
  "(\<And>r. jr_id (f r) = jr_id r) \<Longrightarrow> ids_distinct (fst (update_where c f q)) = ids_distinct q"
  by (simp add: ids_distinct_def update_where_def comp_def if_distrib cong: if_cong)

lemma affected_pos: "0 < snd (update_where c f q) \<longleftrightarrow> (\<exists>r \<in> set (agent_jobs q). c r)"
  by (auto simp: update_where_def filter_empty_conv)

lemma row_of_update_other:
  "(\<And>r. jr_id (f r) = jr_id r) \<Longrightarrow> (\<And>r. jr_id r = j \<Longrightarrow> \<not> c r) \<Longrightarrow> row_of j (fst (update_where c f q)) = row_of j q"
  by (cases "row_of j q") (auto simp: row_of_update_where dest: row_of_Some)

lemma update_where_none: "\<forall>r \<in> set (agent_jobs q). \<not> c r \<Longrightarrow> fst (update_where c f q) = q"
  by (simp add: update_where_def map_idI)

lemma affected_zero: "snd (update_where c f q) = 0 \<longleftrightarrow> (\<forall>r \<in> set (agent_jobs q). \<not> c r)"
  by (auto simp: update_where_def filter_empty_conv)

lemma row_of_wake [simp]: "row_of i (wake_workers q) = row_of i q"
  by (simp add: row_of_def wake_workers_def)

lemma ids_wake [simp]: "ids_distinct (wake_workers q) = ids_distinct q"
  by (simp add: ids_distinct_def wake_workers_def)

lemma row_id_updates [simp]:
  "jr_id (complete_row out ok now r) = jr_id r" "jr_id (set_output so se n m r) = jr_id r"
  "jr_id (killed_row msg now r) = jr_id r" "jr_id (requeued_row msg nb r) = jr_id r"
  "jr_id (failed_row msg now r) = jr_id r" "jr_id (reconciled_row msg dir sizes now r) = jr_id r"
  by (simp_all add: row_updates)

lemma row_of_cleanup:
  "ids_distinct q \<Longrightarrow> row_of i (fst (cleanup_jobs older now q)) =
     (case row_of i q of Some r \<Rightarrow> if cleanable (now - older) r then None else Some r | None \<Rightarrow> None)"
proof -
  have "distinct (map jr_id rs) \<Longrightarrow> find (\<lambda>r. jr_id r = i) (filter (\<lambda>r. \<not> P r) rs) =
      (case find (\<lambda>r. jr_id r = i) rs of Some r \<Rightarrow> if P r then None else Some r | None \<Rightarrow> None)" for P rs
  proof (induction rs)
    case (Cons a rs)
    show ?case
    proof (cases "jr_id a = i")
      case True
      with Cons.prems have "find (\<lambda>r. jr_id r = i) (filter (\<lambda>r. \<not> P r) rs) = None"
        by (auto simp: find_None_iff image_iff)
      with True show ?thesis by simp
    qed (use Cons in simp)
  qed simp
  then show "ids_distinct q \<Longrightarrow> row_of i (fst (cleanup_jobs older now q)) =
     (case row_of i q of Some r \<Rightarrow> if cleanable (now - older) r then None else Some r | None \<Rightarrow> None)"
    by (simp add: row_of_def cleanup_jobs_def Let_def ids_distinct_def)
qed

section \<open>The life of one job\<close>

text \<open>
  A job as the abstract machine sees it: its row's state, retries, allowed retries and cancel flag,
  unless the row is gone; whether a worker is at work on it; how often it was handed to one.
\<close>

type_synonym job_core = "string \<times> nat \<times> nat \<times> bool"
type_synonym job_life = "job_core option \<times> bool \<times> nat"

definition core :: "job_row \<Rightarrow> job_core" where
  "core r = (jr_state r, jr_retries r, jr_max_retries r, jr_cancel_requested r)"

definition job_view :: "string \<Rightarrow> pool \<Rightarrow> job_life" where
  "job_view i p = (map_option core (row_of i (pq p)), i \<in> fst ` set (held p), count_list (attempts p) i)"

inductive job_step :: "job_life \<Rightarrow> job_life \<Rightarrow> bool" where
  cleaned: "job_step (Some c, h, k) (None, h, k)"
| reconciled: "job_step (Some (''running'', n, m, c), h, k) (Some (''failed'', n, m, c), h, k)"
| killed: "job_step (Some (''queued'', n, m, c), h, k) (Some (''killed'', n, m, c), h, k)"
| flagged: "job_step (Some (''running'', n, m, c), h, k) (Some (''running'', n, m, True), h, k)"
| stuck: "job_step (Some (''queued'', n, m, c), h, k) (Some (''running'', n, m, c), h, k)"
| taken: "job_step (Some (''queued'', n, m, c), h, k) (Some (''running'', n, m, c), True, Suc k)"
| dropped: "job_step (x, h, k) (x, False, k)"
| completed: "s = ''exited'' \<or> s = ''failed'' \<Longrightarrow>
    job_step (Some (s', n, m, False), True, k) (Some (s, n, m, False), False, k)"
| stopped: "job_step (Some (s, n, m, True), True, k) (Some (''killed'', n, m, True), False, k)"
| requeued: "n < m \<Longrightarrow> job_step (Some (s, n, m, False), True, k) (Some (''queued'', Suc n, m, False), False, k)"

abbreviation job_steps :: "job_life \<Rightarrow> job_life \<Rightarrow> bool" where
  "job_steps \<equiv> job_step\<^sup>*\<^sup>*"

text \<open>Operations that change rows only, not who works on them.\<close>

definition row_steps :: "job_queue \<Rightarrow> job_queue \<Rightarrow> bool" where
  "row_steps q q' \<longleftrightarrow> (ids_distinct q \<longrightarrow> ids_distinct q' \<and>
     (\<forall>i h k. job_steps (map_option core (row_of i q), h, k) (map_option core (row_of i q'), h, k)))"

lemma row_steps_refl [simp, intro]: "row_steps q q"
  by (simp add: row_steps_def)

lemma row_steps_trans: "row_steps q q' \<Longrightarrow> row_steps q' q'' \<Longrightarrow> row_steps q q''"
  unfolding row_steps_def by (meson rtranclp_trans)

lemma row_steps_wake [simp]: "row_steps q (wake_workers q') = row_steps q q'"
  by (simp add: row_steps_def)

lemma row_steps_fold:
  assumes "\<And>x s. row_steps (g s) (g (f x s))"
  shows "row_steps (g s) (g (fold f xs s))"
  by (induction xs arbitrary: s) (auto intro: row_steps_trans assms)

text \<open>An update whose effect on each row it selects is a step, or none.\<close>

lemma row_steps_update:
  assumes "\<And>r. jr_id (f r) = jr_id r"
    and "\<And>r h k. r \<in> set (agent_jobs q) \<Longrightarrow> c r \<Longrightarrow> job_steps (Some (core r), h, k) (Some (core (f r)), h, k)"
  shows "row_steps q (fst (update_where c f q))"
  unfolding row_steps_def
proof (intro impI conjI allI)
  fix i h k
  assume "ids_distinct q"
  then show "ids_distinct (fst (update_where c f q))" by (simp add: ids_update_where assms(1))
  show "job_steps (map_option core (row_of i q), h, k) (map_option core (row_of i (fst (update_where c f q))), h, k)"
    using assms(2) by (cases "row_of i q") (auto simp: row_of_update_where assms(1) dest: row_of_Some)
qed

lemmas step_once = r_into_rtranclp [where r = job_step]

lemma core_updates [simp]:
  "core (set_output so se n m r) = core r"
  "core (killed_row msg now r) = (''killed'', jr_retries r, jr_max_retries r, jr_cancel_requested r)"
  "core (failed_row msg now r) = (''failed'', jr_retries r, jr_max_retries r, jr_cancel_requested r)"
  "core (reconciled_row msg dir sizes now r) = (''failed'', jr_retries r, jr_max_retries r, jr_cancel_requested r)"
  "core (requeued_row msg nb r) = (''queued'', Suc (jr_retries r), jr_max_retries r, jr_cancel_requested r)"
  by (simp_all add: core_def row_updates)

lemma core_eq: "core r = (jr_state r, jr_retries r, jr_max_retries r, jr_cancel_requested r)"
  by (rule core_def)

text \<open>Single steps, as updates make them.\<close>

lemma steps_of_updates:
  "jr_state r = ''queued'' \<Longrightarrow> job_steps (Some (core r), h, k) (Some (''killed'', jr_retries r, jr_max_retries r, jr_cancel_requested r), h, k)"
  "jr_state r = ''running'' \<Longrightarrow> job_steps (Some (core r), h, k) (Some (''failed'', jr_retries r, jr_max_retries r, jr_cancel_requested r), h, k)"
  "jr_state r = ''running'' \<Longrightarrow> job_steps (Some (core r), h, k) (Some (core (r\<lparr>jr_cancel_requested := True\<rparr>)), h, k)"
  by (auto simp: core_eq intro: step_once job_step.intros)

lemma row_steps_output: "row_steps q (record_output i so se n m q)"
  unfolding record_output_def by (rule row_steps_update) auto

lemma row_steps_agent: "row_steps q (set_effective_agent i a q)"
  unfolding set_effective_agent_def by (rule row_steps_update) (auto simp: core_eq)

text \<open>\<open>kill_or_flag\<close> makes one of two updates.\<close>

lemma kill_or_flag_cases:
  obtains (kill) "st = ''queued''" "fst (kill_or_flag i st now q) =
      fst (update_where (\<lambda>r. jr_id r = i \<and> jr_state r = ''queued'') (killed_row cancelled_message now) q)"
  | (flag) "st \<noteq> ''queued'' \<or> (\<forall>r \<in> set (agent_jobs q). jr_id r = i \<longrightarrow> jr_state r \<noteq> ''queued'')"
      "fst (kill_or_flag i st now q) = fst (update_where
         (\<lambda>r. jr_id r = i \<and> (jr_state r = ''queued'' \<or> jr_state r = ''running'')) (\<lambda>r. r\<lparr>jr_cancel_requested := True\<rparr>) q)"
proof (cases "st = ''queued'' \<and> (\<exists>r \<in> set (agent_jobs q). jr_id r = i \<and> jr_state r = ''queued'')")
  case True
  then show thesis by (intro kill) (auto simp: kill_or_flag_def Let_def map_prod_def split_beta affected_zero)
next
  case False
  then show thesis
    by (intro flag) (auto simp: kill_or_flag_def Let_def map_prod_def split_beta update_where_none affected_zero affected_pos)
qed

lemma kill_or_flag_other: "j \<noteq> i \<Longrightarrow> row_of j (fst (kill_or_flag i st now q)) = row_of j q"
  by (rule kill_or_flag_cases [of st i now q]) (auto intro: row_of_update_other)

lemma row_steps_kill_or_flag:
  assumes "\<And>r. r \<in> set (agent_jobs q) \<Longrightarrow> jr_id r = i \<Longrightarrow> jr_state r = st"
  shows "row_steps q (fst (kill_or_flag i st now q))"
proof (rule kill_or_flag_cases [of st i now q])
  assume "st = ''queued''" "fst (kill_or_flag i st now q) =
      fst (update_where (\<lambda>r. jr_id r = i \<and> jr_state r = ''queued'') (killed_row cancelled_message now) q)"
  then show ?thesis by (simp only:, intro row_steps_update) (auto intro: steps_of_updates)
next
  assume "st \<noteq> ''queued'' \<or> (\<forall>r \<in> set (agent_jobs q). jr_id r = i \<longrightarrow> jr_state r \<noteq> ''queued'')"
    and run: "fst (kill_or_flag i st now q) = fst (update_where
         (\<lambda>r. jr_id r = i \<and> (jr_state r = ''queued'' \<or> jr_state r = ''running'')) (\<lambda>r. r\<lparr>jr_cancel_requested := True\<rparr>) q)"
  then have "jr_state r = ''running''" if "r \<in> set (agent_jobs q)" "jr_id r = i" "jr_state r = ''queued'' \<or> jr_state r = ''running''" for r
    using that assms by blast
  then show ?thesis unfolding run by (intro row_steps_update) (auto intro: steps_of_updates)
qed

lemma row_steps_cancel: "row_steps q (fst (cancel_job i now q))"
proof -
  have "row_steps q (fst (update_where (\<lambda>r. jr_id r = i \<and> jr_state r = ''queued'')
      (\<lambda>r. r\<lparr>jr_state := ''killed'', jr_finished_at := Some now\<rparr>) q))"
    by (rule row_steps_update) (auto simp: core_eq intro: step_once killed)
  then show ?thesis by (simp add: cancel_job_def split_beta)
qed

text \<open>With distinct ids a row seen by id is the only one.\<close>

lemma row_steps_distinct: "(ids_distinct q \<Longrightarrow> row_steps q q') \<Longrightarrow> row_steps q q'"
  by (auto simp: row_steps_def)

lemma row_steps_request: "row_steps q (fst (request_cancel i now q))"
proof (rule row_steps_distinct, cases "row_of i q")
  case (Some r)
  assume "ids_distinct q"
  with Some have "row_steps q (fst (kill_or_flag i (jr_state r) now q))"
    by (intro row_steps_kill_or_flag) (auto dest: row_of_mem)
  with Some show ?thesis by (auto simp: request_cancel_def Let_def split_beta)
qed (simp add: request_cancel_def)

text \<open>A pass over rows that were read before it, each of which it changes by a step.\<close>

lemma row_steps_each:
  assumes "\<forall>r \<in> set rs. row_of (jr_id r) (g s) = Some r" "distinct (map jr_id rs)"
    and step: "\<And>r s. ids_distinct (g s) \<Longrightarrow> row_of (jr_id r) (g s) = Some r \<Longrightarrow> row_steps (g s) (g (f r s))"
    and other: "\<And>r s j. j \<noteq> jr_id r \<Longrightarrow> row_of j (g (f r s)) = row_of j (g s)"
  shows "row_steps (g s) (g (fold f rs s))"
proof (rule row_steps_distinct)
  assume "ids_distinct (g s)"
  with assms(1,2) show ?thesis
  proof (induction rs arbitrary: s)
    case (Cons r rs)
    then have one: "row_steps (g s) (g (f r s))" by (intro step) auto
    have "\<forall>r' \<in> set rs. row_of (jr_id r') (g (f r s)) = Some r'"
      using Cons.prems(1,2) by (auto simp: other image_iff)
    moreover have "ids_distinct (g (f r s))" using one Cons.prems(3) by (simp add: row_steps_def)
    ultimately have "row_steps (g (f r s)) (g (fold f rs (f r s)))" using Cons.IH Cons.prems(2) by simp
    with one show ?case by (auto intro: row_steps_trans)
  qed simp
qed

lemma rows_read:
  assumes "ids_distinct q"
  shows "\<forall>r \<in> set (filter P (agent_jobs q)). row_of (jr_id r) q = Some r" "distinct (map jr_id (filter P (agent_jobs q)))"
  using assms by (auto simp: row_of_mem ids_distinct_def distinct_map_filter)

lemma row_steps_cancel_item: "row_steps q (fst (cancel_for_item item keep now q))"
proof (rule row_steps_distinct)
  assume "ids_distinct q"
  note read = rows_read [OF this]
  have ends: "fst (cancel_one item keep now r s) \<in> {fst s, fst (kill_or_flag (jr_id r) (jr_state r) now (fst s))}" for r s
    by (cases s) (auto simp: cancel_one_def split: option.split prod.split)
  have "row_steps (fst (q, [] :: string list)) (fst (cancel_for_item item keep now q))"
    unfolding cancel_for_item_def
  proof (rule row_steps_each [where g = fst and f = "cancel_one item keep now"])
    fix r :: job_row and s :: "job_queue \<times> string list"
    assume "ids_distinct (fst s)" "row_of (jr_id r) (fst s) = Some r"
    then have "row_steps (fst s) (fst (kill_or_flag (jr_id r) (jr_state r) now (fst s)))"
      by (intro row_steps_kill_or_flag) (blast dest: row_unique)
    with ends [of r s] show "row_steps (fst s) (fst (cancel_one item keep now r s))" by auto
  next
    fix r :: job_row and j and s :: "job_queue \<times> string list"
    assume "j \<noteq> jr_id r"
    with ends [of r s] show "row_of j (fst (cancel_one item keep now r s)) = row_of j (fst s)"
      by (auto simp: kill_or_flag_other)
  qed (use read in auto)
  then show ?thesis by simp
qed

lemma row_steps_orphaned: "row_steps q (fst (reconcile_orphaned_running sizes now q))"
proof (rule row_steps_distinct)
  let ?f = "\<lambda>r q'. fst (update_where (\<lambda>r'. jr_id r' = jr_id r) (reconciled_row orphan_error (log_dir q) sizes now) q')"
  let ?run = "filter (\<lambda>r. jr_state r = ''running'') (agent_jobs q)"
  assume "ids_distinct q"
  note read = rows_read [OF this]
  have "row_steps q (fold (\<lambda>r. if jr_state r = ''running'' then ?f r else id) ?run q)"
  proof (rule row_steps_each [where g = "\<lambda>x. x" and f = "\<lambda>r. if jr_state r = ''running'' then ?f r else id"])
    fix r :: job_row and q1 assume *: "ids_distinct q1" "row_of (jr_id r) q1 = Some r"
    have "row_steps q1 (?f r q1)" if "jr_state r = ''running''"
    proof (rule row_steps_update)
      fix r' h k assume "r' \<in> set (agent_jobs q1)" "jr_id r' = jr_id r"
      then have "r' = r" using * row_unique by blast
      with that show "job_steps (Some (core r'), h, k)
          (Some (core (reconciled_row orphan_error (log_dir q) sizes now r')), h, k)"
        by (simp add: steps_of_updates)
    qed simp
    then show "row_steps q1 ((if jr_state r = ''running'' then ?f r else id) q1)" by simp
  next
    fix r :: job_row and q1 j assume "j \<noteq> jr_id r"
    then show "row_of j ((if jr_state r = ''running'' then ?f r else id) q1) = row_of j q1"
      by (simp add: row_of_update_other)
  qed (use read in auto)
  also have "fold (\<lambda>r. if jr_state r = ''running'' then ?f r else id) ?run q = fold ?f ?run q"
    by (intro fold_cong) auto
  finally show ?thesis by (simp add: reconcile_orphaned_running_def Let_def foldl_conv_fold)
qed

lemma row_steps_stale: "row_steps q (fst (reconcile_stale_running grace sizes now q))"
proof -
  have "row_steps (fst s) (fst (reconcile_stale grace sizes now r s))" for r s
  proof (cases s)
    case (Pair q out)
    have "row_steps q (fst (update_where (\<lambda>r'. jr_id r' = jr_id r \<and> jr_state r' = ''running'')
        (reconciled_row stale_error (log_dir q) sizes now) q))"
      by (rule row_steps_update) (auto intro: steps_of_updates)
    with Pair show ?thesis
      by (auto simp: reconcile_stale_def split_beta split: option.split)
  qed
  then have "row_steps (fst (q, [] :: (string \<times> agent_job) list)) (fst (reconcile_stale_running grace sizes now q))"
    unfolding reconcile_stale_running_def by (rule row_steps_fold [where g = fst and f = "reconcile_stale grace sizes now"])
  then show ?thesis
    by simp
qed

lemma row_steps_cleanup: "row_steps q (fst (cleanup_jobs older now q))"
proof (rule row_steps_distinct)
  assume "ids_distinct q"
  moreover from this have "ids_distinct (fst (cleanup_jobs older now q))"
    by (simp add: ids_distinct_def cleanup_jobs_def Let_def distinct_map_filter)
  ultimately show ?thesis
    by (auto simp: row_steps_def row_of_cleanup intro: step_once cleaned split: option.split)
qed

text \<open>The end of an attempt changes the row of its job only.\<close>

definition same_cores :: "job_queue \<Rightarrow> job_queue \<Rightarrow> bool" where
  "same_cores q q' \<longleftrightarrow> (ids_distinct q \<longrightarrow> ids_distinct q') \<and>
     (\<forall>j. map_option core (row_of j q') = map_option core (row_of j q))"

definition ends :: "string \<Rightarrow> job_queue \<Rightarrow> job_queue \<Rightarrow> bool" where
  "ends i q q' \<longleftrightarrow> (ids_distinct q \<longrightarrow> ids_distinct q') \<and>
     (\<forall>j. j \<noteq> i \<longrightarrow> map_option core (row_of j q') = map_option core (row_of j q)) \<and>
     (\<forall>k. job_steps (map_option core (row_of i q), True, k) (map_option core (row_of i q'), False, k))"

lemma ends_trans: "same_cores q q1 \<Longrightarrow> ends i q1 q2 \<Longrightarrow> ends i q q2"
  by (simp add: ends_def same_cores_def)

lemma ends_update:
  assumes "\<And>r. jr_id (f r) = jr_id r"
    and "\<And>r k. row_of i q = Some r \<Longrightarrow> job_step (Some (core r), True, k) (Some (core (f r)), False, k)"
  shows "ends i q (fst (update_where (\<lambda>r. jr_id r = i) f q))"
  unfolding ends_def
proof (intro conjI allI impI)
  fix k
  show "job_steps (map_option core (row_of i q), True, k)
      (map_option core (row_of i (fst (update_where (\<lambda>r. jr_id r = i) f q))), False, k)"
    using assms(2) by (cases "row_of i q") (auto simp: row_of_update_where assms(1) intro: step_once dropped dest: row_of_Some)
qed (use assms(1) in \<open>auto simp: ids_update_where row_of_update_other\<close>)

lemma ends_wake [simp]: "ends i q (wake_workers q') = ends i q q'"
  by (simp add: ends_def)

lemma step_completed: "job_step (Some (core r), True, k) (Some (core (complete_row out ok now r)), False, k)"
proof -
  have "core (complete_row out ok now r) =
      (if jr_cancel_requested r then ''killed'' else if ok then ''exited'' else ''failed'',
       jr_retries r, jr_max_retries r, jr_cancel_requested r)"
    by (simp add: core_def complete_row_def)
  then show ?thesis
    by (cases "jr_cancel_requested r") (simp_all add: core_eq [of r] completed stopped)
qed

lemma ends_complete: "ends i q (complete i out ok now q)"
  unfolding complete_def by (rule ends_update) (simp_all add: step_completed)

lemma ends_fail: "ends i q (fst (fail_job i msg ra fatal now q))"
proof (cases "row_of i q")
  case None
  then show ?thesis by (auto simp: fail_job_def ends_def intro: step_once dropped)
next
  case (Some r)
  have step: "job_step (Some (core r), True, k) (Some (core (if jr_cancel_requested r then killed_row msg now r
      else if \<not> fatal \<and> jr_retries r < jr_max_retries r then requeued_row msg nb r else failed_row msg now r)), False, k)" for nb k
    by (cases "jr_cancel_requested r") (simp_all add: core_eq [of r] completed stopped requeued)
  show ?thesis
  proof (cases "jr_cancel_requested r \<or> \<not> (\<not> fatal \<and> jr_retries r < jr_max_retries r)")
    case True
    with Some step show ?thesis by (auto simp: fail_job_def intro!: ends_update)
  next
    case False
    with Some step show ?thesis by (auto simp: fail_job_def intro!: ends_update)
  qed
qed

lemma same_cores_output: "same_cores q (record_output_best_effort i sizes q)"
  by (auto simp: same_cores_def record_output_best_effort_def record_output_def Let_def ids_update_where
      row_of_update_where option.map_comp comp_def if_distrib [of core] cong: if_cong)

lemma ends_record_fail: "ends i q (fst (record_fail i f now q))"
  by (simp add: record_fail_def map_prod_def split_beta ends_fail)

lemma ends_finish: "ends i q (fst (finish_job i job sizes e now q))"
proof -
  have "ends i q (fst (record_fail i f now (record_output_best_effort i sizes q)))" for f
    by (rule ends_trans [OF same_cores_output ends_record_fail])
  then have "ends i q (fst (run_in_process i job sizes a now q))" for a
    by (cases "(i, job, sizes, a, now, q)" rule: run_in_process.cases)
      (auto simp: ends_record_fail record_job_success_def Let_def ends_complete)
  then show ?thesis by (cases e) (auto simp: ends_fail ends_complete)
qed

section \<open>Every operation is a step of every job\<close>

lemma oldest_mem: "oldest rs = Some r \<Longrightarrow> r \<in> set rs"
  by (induction rs arbitrary: r) (auto split: option.splits if_splits)

text \<open>What a worker is handed was queued, and is now running.\<close>

lemma dequeue_cases:
  assumes "ids_distinct q" "dequeue now q = (q', res)"
  obtains (nothing) "q' = q" "res = Inr None"
  | (row) r where "row_of (jr_id r) q = Some r" "jr_state r = ''queued''" "ids_distinct q'"
      "row_of (jr_id r) q' = Some (r\<lparr>jr_state := ''running'', jr_started_at := Some now\<rparr>)"
      "\<And>j. j \<noteq> jr_id r \<Longrightarrow> row_of j q' = row_of j q"
      "res = Inl QSerialize \<or> (\<exists>job. res = Inr (Some (jr_id r, job)))"
proof (cases "oldest (filter (is_due now) (agent_jobs q))")
  case None
  with assms have "q' = q" "res = Inr None" by (simp_all add: dequeue_def)
  then show thesis by (rule nothing)
next
  case (Some r)
  then have r: "row_of (jr_id r) q = Some r" "jr_state r = ''queued''"
    using oldest_mem [OF Some] assms(1) by (auto simp: row_of_mem is_due_def)
  have q': "q' = fst (update_where (\<lambda>r'. jr_id r' = jr_id r) (\<lambda>r'. r'\<lparr>jr_state := ''running'', jr_started_at := Some now\<rparr>) q)"
    and res: "res = Inl QSerialize \<or> (\<exists>job. res = Inr (Some (jr_id r, job)))"
    using assms(2) Some by (auto simp: dequeue_def Let_def split: option.splits)
  have other: "row_of j q' = row_of j q" if "j \<noteq> jr_id r" for j
    unfolding q' using that by (intro row_of_update_other) auto
  show thesis
    by (rule row [OF r _ _ other res]) (use r assms(1) in \<open>auto simp: q' ids_update_where row_of_update_where\<close>)
qed

definition pool_ok :: "pool \<Rightarrow> bool" where
  "pool_ok p \<longleftrightarrow> ids_distinct (pq p) \<and> distinct (map fst (held p))"

text \<open>The simulation: no operation but the job's own enqueueing takes it outside the machine.\<close>

lemma job_steps_row:
  assumes "row_steps (pq p) q" "pool_ok p"
  shows "pool_ok (p\<lparr>pq := q\<rparr>) \<and> job_steps (job_view i p) (job_view i (p\<lparr>pq := q\<rparr>))"
  using assms by (simp add: pool_ok_def row_steps_def job_view_def)

lemma job_steps_drop:
  assumes "\<And>j. j \<in> fst ` set hs \<Longrightarrow> j \<in> fst ` set (held p)"
  shows "job_steps (job_view i p) (job_view i (p\<lparr>held := hs\<rparr>))"
proof (cases "i \<in> fst ` set hs")
  case True
  with assms have "i \<in> fst ` set (held p)" by blast
  with True show ?thesis by (simp add: job_view_def)
next
  case False
  then have "job_view i (p\<lparr>held := hs\<rparr>) = (map_option core (row_of i (pq p)), False, count_list (attempts p) i)"
    by (simp add: job_view_def)
  then show ?thesis by (simp only: job_view_def step_once [OF dropped])
qed

lemma held_filter: "distinct (map fst hs) \<Longrightarrow> distinct (map fst (filter (\<lambda>(j, _). j \<noteq> i) hs))"
  by (simp add: distinct_map_filter)

lemma held_filter_ids: "fst ` {x \<in> set hs. case x of (j, _) \<Rightarrow> j \<noteq> i} = fst ` set hs - {i}"
  by force

lemma pool_step_finish:
  assumes ok: "pool_ok p" and ends: "ends i (pq p) q" and holds: "i \<in> fst ` set (held p)"
  shows "pool_ok (p\<lparr>pq := q, held := filter (\<lambda>(j, _). j \<noteq> i) (held p)\<rparr>)
    \<and> job_steps (job_view j p) (job_view j (p\<lparr>pq := q, held := filter (\<lambda>(j, _). j \<noteq> i) (held p)\<rparr>))"
  using assms by (cases "j = i") (auto simp: pool_ok_def ends_def job_view_def held_filter held_filter_ids)

lemma pool_step_dequeue:
  assumes ok: "pool_ok p" and free: "\<And>j r. j \<in> fst ` set (held p) \<Longrightarrow> row_of j (pq p) = Some r \<Longrightarrow> jr_state r \<noteq> ''queued''"
  shows "pool_ok (pool_exec (Dequeue now) p) \<and> job_steps (job_view i p) (job_view i (pool_exec (Dequeue now) p))"
proof -
  obtain q res where run: "dequeue now (pq p) = (q, res)" by fastforce
  from ok have "ids_distinct (pq p)" by (simp add: pool_ok_def)
  from this run show ?thesis
  proof (cases rule: dequeue_cases)
    case nothing
    with ok run show ?thesis
      by (simp add: wait_for_work_def pool_ok_def ids_distinct_def job_view_def row_of_def)
  next
    case (row r)
    let ?r' = "r\<lparr>jr_state := ''running'', jr_started_at := Some now\<rparr>"
    have before: "core r = (''queued'', jr_retries r, jr_max_retries r, jr_cancel_requested r)"
      using row(2) by (simp add: core_def)
    have after: "core ?r' = (''running'', jr_retries r, jr_max_retries r, jr_cancel_requested r)"
      by (simp add: core_def)
    have new: "jr_id r \<notin> fst ` set (held p)" using free row(1,2) by blast
    from row(6) show ?thesis
    proof
      assume "res = Inl QSerialize"
      with run ok row(1,3,4,5) show ?thesis
        by (cases "i = jr_id r") (auto simp: pool_ok_def job_view_def before after intro: step_once stuck)
    next
      assume "\<exists>job. res = Inr (Some (jr_id r, job))"
      then obtain job where "res = Inr (Some (jr_id r, job))" ..
      with run ok new row(1,3,4,5) show ?thesis
        by (cases "i = jr_id r") (auto simp: pool_ok_def job_view_def before after intro: step_once taken)
    qed
  qed
qed

section \<open>Histories\<close>

text \<open>
  What holds of a job from its enqueueing on: at work means not queued; a cancelled job is running,
  killed or failed; every retry, and the row's being out of the queue, pays for one attempt.
\<close>

definition life_inv :: "nat \<Rightarrow> job_life \<Rightarrow> bool" where
  "life_inv M v \<longleftrightarrow> (case v of
     (None, h, k) \<Rightarrow> k \<le> M + 1
   | (Some (s, n, m, c), h, k) \<Rightarrow>
       m = M \<and> n \<le> M \<and> k \<le> n + (if s = ''queued'' then 0 else 1) \<and> (h \<longrightarrow> s \<noteq> ''queued'')
       \<and> (c \<longrightarrow> s \<in> {''running'', ''killed'', ''failed''}) \<and> (h \<and> s = ''killed'' \<longrightarrow> c))"

lemma life_inv_simps:
  "life_inv M (None, h, k) \<longleftrightarrow> k \<le> M + 1"
  "life_inv M (Some (s, n, m, c), h, k) \<longleftrightarrow>
     m = M \<and> n \<le> M \<and> k \<le> n + (if s = ''queued'' then 0 else 1) \<and> (h \<longrightarrow> s \<noteq> ''queued'')
     \<and> (c \<longrightarrow> s \<in> {''running'', ''killed'', ''failed''}) \<and> (h \<and> s = ''killed'' \<longrightarrow> c)"
  by (simp_all add: life_inv_def)

lemma life_inv_dropped: "life_inv M (x, h, k) \<Longrightarrow> life_inv M (x, False, k)"
  by (cases x) (auto simp: life_inv_def)

lemma life_inv_step: "job_step v v' \<Longrightarrow> life_inv M v \<Longrightarrow> life_inv M v'"
proof (induction rule: job_step.induct)
  case (cleaned c h k)
  then show ?case by (cases c) (auto simp: life_inv_simps split: if_splits)
qed (auto simp: life_inv_simps life_inv_dropped split: if_splits)

lemma life_inv_steps: "job_steps v v' \<Longrightarrow> life_inv M v \<Longrightarrow> life_inv M v'"
  by (induction rule: rtranclp_induct) (auto intro: life_inv_step)

text \<open>A cancelled job takes no step into a worker's hands.\<close>

definition cancelled_view :: "job_life \<Rightarrow> bool" where
  "cancelled_view v \<longleftrightarrow> (case v of
     (None, _, _) \<Rightarrow> True
   | (Some (s, n, m, c), h, _) \<Rightarrow> (c \<and> s \<in> {''running'', ''killed'', ''failed''}) \<or> (s = ''killed'' \<and> \<not> h))"

lemma cancelled_step:
  "job_step v v' \<Longrightarrow> cancelled_view v \<Longrightarrow> cancelled_view v' \<and> snd (snd v') = snd (snd v)"
proof (induction rule: job_step.induct)
  case (dropped x h k)
  then show ?case by (cases x) (auto simp: cancelled_view_def)
qed (auto simp: cancelled_view_def)

lemma cancelled_steps:
  "job_steps v v' \<Longrightarrow> cancelled_view v \<Longrightarrow> cancelled_view v' \<and> snd (snd v') = snd (snd v)"
  by (induction rule: rtranclp_induct) (auto dest: cancelled_step)

definition held_running :: "pool \<Rightarrow> bool" where
  "held_running p \<longleftrightarrow> (\<forall>j r. j \<in> fst ` set (held p) \<longrightarrow> row_of j (pq p) = Some r \<longrightarrow> jr_state r \<noteq> ''queued'')"

lemma row_of_enqueue:
  "row_of j (fst (enqueue i job now q)) = (if row_of i q = None \<and> j = i then Some (inserted_row i job now) else row_of j q)"
proof -
  have "find P (xs @ ys) = (case find P xs of None \<Rightarrow> find P ys | Some x \<Rightarrow> Some x)" for P :: "job_row \<Rightarrow> bool" and xs ys
    by (induction xs) auto
  then show ?thesis
    by (auto simp: enqueue_def row_of_def wake_workers_def inserted_row_def split: option.split)
qed

lemma pool_step:
  assumes ok: "pool_ok p" and free: "held_running p" and other: "i \<notin> set (enqueued_id op)"
  shows "pool_ok (pool_exec op p) \<and> job_steps (job_view i p) (job_view i (pool_exec op p))"
proof (cases op)
  case (Enqueue j job now)
  have "ids_distinct (fst (enqueue j job now (pq p)))"
    using ok by (auto simp: pool_ok_def ids_distinct_def enqueue_def wake_workers_def row_of_None inserted_row_def)
  with Enqueue ok other show ?thesis
    by (auto simp: pool_ok_def job_view_def row_of_enqueue)
next
  case (Dequeue now)
  with ok free show ?thesis by (simp only:, intro pool_step_dequeue) (auto simp: held_running_def)
next
  case (Finish j sizes e now)
  show ?thesis
  proof (cases "map_of (held p) j")
    case (Some job)
    then have "j \<in> fst ` set (held p)" by (metis map_of_eq_None_iff option.distinct(1))
    with Finish Some ok show ?thesis by (simp add: pool_step_finish ends_finish)
  qed (use Finish ok in simp)
next
  case (WorkerDies j)
  with ok show ?thesis
    by (auto simp: pool_ok_def held_filter intro!: job_steps_drop)
next
  case (Restart sizes now)
  let ?p0 = "p\<lparr>held := []\<rparr>"
  have drop: "pool_ok ?p0 \<and> job_steps (job_view i p) (job_view i ?p0)"
    using ok by (auto simp: pool_ok_def intro: job_steps_drop)
  have "pool_exec op p = ?p0\<lparr>pq := fst (reconcile_orphaned_running sizes now (pq ?p0))\<rparr>"
    using Restart by simp
  with drop job_steps_row [OF row_steps_orphaned, of ?p0] show ?thesis
    by (auto intro: rtranclp_trans)
qed (use ok in \<open>simp_all only: pool_exec.simps, auto intro!: job_steps_row row_steps_stale row_steps_cancel
    row_steps_request row_steps_cancel_item row_steps_cleanup row_steps_agent\<close>)

definition enqueued :: "pool_op list \<Rightarrow> string list" where
  "enqueued ops = concat (map enqueued_id ops)"

text \<open>What is known of every job after any history.\<close>

definition lives :: "pool_op list \<Rightarrow> pool \<Rightarrow> bool" where
  "lives ops p \<longleftrightarrow> pool_ok p \<and>
     (\<forall>i. i \<notin> set (enqueued ops) \<longrightarrow> job_view i p = (None, False, 0)) \<and>
     (\<forall>i job now. Enqueue i job now \<in> set ops \<longrightarrow> life_inv (aj_max_retries job) (job_view i p))"

lemma enqueued_in: "i \<in> set (enqueued ops) \<longleftrightarrow> (\<exists>job now. Enqueue i job now \<in> set ops)"
proof
  assume "i \<in> set (enqueued ops)"
  then obtain op where op: "op \<in> set ops" "i \<in> set (enqueued_id op)" by (auto simp: enqueued_def)
  from op(2) obtain job now where "op = Enqueue i job now" by (cases op) auto
  with op(1) show "\<exists>job now. Enqueue i job now \<in> set ops" by blast
qed (force simp: enqueued_def)

text \<open>The invariant of a job that has a row.\<close>

lemma lives_row:
  assumes "lives ops p" "row_of i (pq p) = Some r"
  obtains job now where "Enqueue i job now \<in> set ops"
    "life_inv (aj_max_retries job) (Some (core r), i \<in> fst ` set (held p), count_list (attempts p) i)"
proof -
  have "i \<in> set (enqueued ops)" using assms by (auto simp: lives_def job_view_def)
  then obtain job now where mem: "Enqueue i job now \<in> set ops" by (auto simp: enqueued_in)
  with assms(1) have "life_inv (aj_max_retries job) (job_view i p)" unfolding lives_def by blast
  with assms(2) show thesis by (intro that [OF mem]) (simp add: job_view_def)
qed

lemma lives_held_running:
  assumes "lives ops p"
  shows "held_running p"
  unfolding held_running_def
proof (intro allI impI)
  fix i r assume "i \<in> fst ` set (held p)" and row: "row_of i (pq p) = Some r"
  from assms row show "jr_state r \<noteq> ''queued''"
    by (rule lives_row) (use \<open>i \<in> fst ` set (held p)\<close> in \<open>simp add: core_def life_inv_simps\<close>)
qed

lemma job_steps_fresh: "job_steps v v' \<Longrightarrow> v = (None, False, 0) \<Longrightarrow> v' = (None, False, 0)"
  by (induction rule: rtranclp_induct) (auto elim: job_step.cases)

lemma lives_step:
  assumes lives: "lives ops p" and fresh: "set (enqueued_id op) \<inter> set (enqueued ops) = {}"
  shows "lives (ops @ [op]) (pool_exec op p)"
proof -
  have step: "pool_ok (pool_exec op p) \<and> job_steps (job_view i p) (job_view i (pool_exec op p))"
    if "i \<notin> set (enqueued_id op)" for i
    using pool_step [OF _ lives_held_running [OF lives] that] lives by (simp add: lives_def)
  obtain i where "i \<notin> set (enqueued_id op)" by (cases op) (auto intro: exI [where x = "_ # _"])
  with step have ok: "pool_ok (pool_exec op p)" by blast
  have out: "job_view i (pool_exec op p) = (None, False, 0)" if "i \<notin> set (enqueued (ops @ [op]))" for i
    using that lives step [of i] job_steps_fresh by (auto simp: enqueued_def lives_def)
  have "life_inv (aj_max_retries job) (job_view i (pool_exec op p))" if "Enqueue i job now \<in> set (ops @ [op])" for i job now
  proof (cases "op = Enqueue i job now")
    case True
    then have "job_view i p = (None, False, 0)" using lives fresh by (simp add: lives_def)
    with True show ?thesis
      by (simp add: job_view_def row_of_enqueue core_def inserted_row_def life_inv_def)
  next
    case False
    with that have mem: "Enqueue i job now \<in> set ops" by simp
    then have "i \<notin> set (enqueued_id op)" using fresh enqueued_in by blast
    with step have "job_steps (job_view i p) (job_view i (pool_exec op p))" by blast
    moreover have "life_inv (aj_max_retries job) (job_view i p)" using mem lives unfolding lives_def by blast
    ultimately show ?thesis by (rule life_inv_steps)
  qed
  with ok out show ?thesis by (simp add: lives_def)
qed

lemma lives_run: "fresh_ids ops \<Longrightarrow> lives ops (pool_run ops (new_pool dir))"
proof (induction ops rule: rev_induct)
  case Nil
  show ?case by (simp add: lives_def pool_run_def new_pool_def open_memory_def pool_ok_def ids_distinct_def
        job_view_def row_of_def)
next
  case (snoc op ops)
  then have "lives (ops @ [op]) (pool_exec op (pool_run ops (new_pool dir)))"
    by (intro lives_step) (auto simp: fresh_ids_def enqueued_def)
  then show ?case by (simp add: pool_run_def)
qed

lemma history_steps:
  assumes "lives ops p" "fresh_ids (ops @ later)" "i \<in> set (enqueued ops)"
  shows "job_steps (job_view i p) (job_view i (pool_run later p))"
  using assms
proof (induction later arbitrary: ops p)
  case Nil
  then show ?case by (simp add: pool_run_def)
next
  case (Cons op later)
  from Cons.prems have fresh: "set (enqueued_id op) \<inter> set (enqueued ops) = {}"
    by (auto simp: fresh_ids_def enqueued_def)
  with Cons.prems(3) have "i \<notin> set (enqueued_id op)" by blast
  with pool_step [OF _ lives_held_running [OF Cons.prems(1)]] Cons.prems(1)
  have "job_steps (job_view i p) (job_view i (pool_exec op p))" by (simp add: lives_def)
  moreover have "job_steps (job_view i (pool_exec op p)) (job_view i (pool_run later (pool_exec op p)))"
    using Cons.prems by (intro Cons.IH [OF lives_step [OF Cons.prems(1) fresh]]) (auto simp: enqueued_def)
  ultimately show ?case by (simp add: pool_run_def)
qed

section \<open>Properties\<close>

text \<open>
  C28: A job has one runner. In any interleaving of the daemon's workers, restarts, sweeps and
  cancellations no two workers are ever at work on the same job, and no job that a worker has is in
  the queue.
\<close>

theorem job_has_one_runner:
  assumes "fresh_ids ops"
  shows "distinct (map fst (held (pool_run ops (new_pool dir)))) \<and>
    (\<forall>(i, job) \<in> set (held (pool_run ops (new_pool dir))).
       case row_of i (pq (pool_run ops (new_pool dir))) of None \<Rightarrow> True | Some r \<Rightarrow> jr_state r \<noteq> ''queued'')"
  using lives_run [OF assms, of dir] lives_held_running [OF lives_run [OF assms, of dir]]
  by (force simp: lives_def pool_ok_def held_running_def split: option.split)

text \<open>
  A job is handed to a worker at most once more than its allowed retries, whatever fails: its
  executors, its worker threads or the daemon itself.
\<close>

lemma attempts_bounded:
  assumes "fresh_ids ops" "Enqueue i job now \<in> set ops"
  shows "count_list (attempts (pool_run ops (new_pool dir))) i \<le> aj_max_retries job + 1"
proof -
  have "life_inv (aj_max_retries job) (job_view i (pool_run ops (new_pool dir)))"
    using lives_run [OF assms(1), of dir] assms(2) unfolding lives_def by blast
  then show ?thesis
    by (auto simp: life_inv_def job_view_def split: option.splits prod.splits if_splits)
qed

text \<open>
  C29: A cancelled job is never handed to a worker again, whatever its running attempt returns and
  whatever happens to its worker, and it never ends as exited.
\<close>

theorem cancelled_job_never_restarts:
  assumes "fresh_ids (ops @ later)" "job_cancelled i (pq (pool_run ops (new_pool dir)))"
  shows "count_list (attempts (pool_run (ops @ later) (new_pool dir))) i = count_list (attempts (pool_run ops (new_pool dir))) i
    \<and> (case row_of i (pq (pool_run (ops @ later) (new_pool dir))) of None \<Rightarrow> True
       | Some r \<Rightarrow> jr_state r = ''running'' \<or> jr_state r = ''killed'' \<or> jr_state r = ''failed'')"
proof -
  let ?p = "pool_run ops (new_pool dir)"
  have lives: "lives ops ?p" using assms(1) by (intro lives_run) (simp add: fresh_ids_def)
  obtain r where row: "row_of i (pq ?p) = Some r" and c: "jr_state r = ''killed'' \<or> jr_cancel_requested r"
    using assms(2) by (auto simp: job_cancelled_def split: option.splits)
  obtain job now where "Enqueue i job now \<in> set ops"
    and "life_inv (aj_max_retries job) (Some (core r), i \<in> fst ` set (held ?p), count_list (attempts ?p) i)"
    using lives_row [OF lives row] .
  with row c have "cancelled_view (job_view i ?p)" "i \<in> set (enqueued ops)"
    by (auto simp: cancelled_view_def job_view_def life_inv_simps core_def enqueued_in)
  with cancelled_steps [OF history_steps [OF lives assms(1)]]
  have "cancelled_view (job_view i (pool_run later ?p))"
    "snd (snd (job_view i (pool_run later ?p))) = snd (snd (job_view i ?p))" by auto
  moreover have "pool_run later ?p = pool_run (ops @ later) (new_pool dir)" by (simp add: pool_run_def)
  ultimately show ?thesis
    by (auto simp: job_view_def cancelled_view_def core_def split: option.split)
qed

section \<open>Concrete histories\<close>

definition demo_job :: agent_job where
  "demo_job = (new_job ''work'')\<lparr>aj_max_retries := 1, aj_in_process := True\<rparr>"

text \<open>Two workers; the first attempt fails, is retried, and is then cancelled while it runs.\<close>

definition demo_ops :: "pool_op list" where
  "demo_ops = [Enqueue ''a'' demo_job 0, Enqueue ''b'' demo_job 1, Dequeue 2, Dequeue 2,
     Finish ''a'' (\<lambda>_. 0) (InProcess (Returned (Some (failure_of_message ''boom'')))) 3, Dequeue 4, RequestCancel ''a'' 5]"

lemmas pool_eval = pool_run_def new_pool_def open_memory_def enqueue_def row_of_def wake_workers_def inserted_row_def
  dequeue_def is_due_def update_where_def Let_def queued_info_def demo_job_def new_job_def fail_job_def record_fail_def
  record_output_best_effort_def record_output_def failure_of_message_def row_updates request_cancel_def kill_or_flag_def
  path_join_def job_cancelled_def reconcile_stale_running_def reconcile_stale_def still_in_time_def as_i64_def
  cleanup_jobs_def cleanable_def

lemma demo_fresh: "fresh_ids demo_ops"
  by (simp add: demo_ops_def fresh_ids_def)

lemma demo_run: "held (pool_run demo_ops (new_pool ''logs'')) = [(''b'', demo_job), (''a'', demo_job)]"
  "attempts (pool_run demo_ops (new_pool ''logs'')) = [''a'', ''b'', ''a'']"
  "job_cancelled ''a'' (pq (pool_run demo_ops (new_pool ''logs'')))"
  by (simp_all add: demo_ops_def pool_eval)

theorem job_has_one_runner_witness:
  "distinct (map fst (held (pool_run demo_ops (new_pool ''logs''))))
    \<and> held (pool_run demo_ops (new_pool ''logs'')) = [(''b'', demo_job), (''a'', demo_job)]"
  using job_has_one_runner [OF demo_fresh, of "''logs''"] demo_run(1) by blast

lemma attempts_bounded_example:
  "count_list (attempts (pool_run demo_ops (new_pool ''logs''))) ''a'' \<le> 2"
  using attempts_bounded [OF demo_fresh, of "''a''" demo_job 0 "''logs''"]
  by (simp add: demo_ops_def demo_job_def new_job_def)

theorem cancelled_job_never_restarts_witness:
  "count_list (attempts (pool_run (demo_ops @ [Restart (\<lambda>_. 0) 9, Dequeue 10]) (new_pool ''logs''))) ''a'' = 2"
proof -
  have "fresh_ids (demo_ops @ [Restart (\<lambda>_. 0) 9, Dequeue 10])" by (simp add: fresh_ids_def demo_ops_def)
  from cancelled_job_never_restarts [OF this, of "''a''" "''logs''"] demo_run show ?thesis by simp
qed

text \<open>
  A requeued job keeps the time at which a sweep declared it finished: when the sweep fails a row
  whose attempt is still alive and that attempt then fails, the cleanup deletes a queued job.
\<close>

lemma queued_job_cleaned_up:
  "map jr_state (agent_jobs (pq (pool_run [Enqueue ''a'' demo_job 0, Dequeue 1, SweepStale 60 (\<lambda>_. 0) 1000,
      Finish ''a'' (\<lambda>_. 0) (InProcess (Returned (Some (failure_of_message ''boom'')))) 1001] (new_pool ''logs'')))) = [''queued'']
    \<and> agent_jobs (pq (pool_run [Enqueue ''a'' demo_job 0, Dequeue 1, SweepStale 60 (\<lambda>_. 0) 1000,
      Finish ''a'' (\<lambda>_. 0) (InProcess (Returned (Some (failure_of_message ''boom'')))) 1001, Cleanup 3600 5000] (new_pool ''logs''))) = []"
  by (simp add: pool_eval)

end
