(* ===== verification/Job_Output.thy ===== *)
theory Job_Output
  imports Job_Worker
begin

text \<open>
  The subprocess side of the job queue, \<^verbatim>\<open>crates/agentflare-jobs/src/supervisor.rs\<close>: how a
  subprocess ends, and how its output is pumped into a log file of bounded size. The pipe is the
  list of what its reads return, the file system a function that says how many bytes of a buffer a
  write to the file takes (\<open>None\<close> for an error), given what the file holds.
\<close>

section \<open>Waiting for the subprocess\<close>

text \<open>
  Each poll of \<open>try_wait\<close> gives the exit code of an ended process or the time elapsed. The
  argument \<open>killed_code\<close> is what waiting for the killed process gives.
\<close>

datatype child_poll = ExitedWith "int option" | Alive nat

fun supervise :: "nat \<Rightarrow> int option \<Rightarrow> child_poll list \<Rightarrow> (job_state \<times> int option \<times> bool) option" where
  "supervise timeout killed_code [] = None"
| "supervise timeout killed_code (ExitedWith code # _) = Some (JobExited, code, False)"
| "supervise timeout killed_code (Alive elapsed # polls) =
     (if elapsed \<ge> timeout then Some (JobKilled, killed_code, True) else supervise timeout killed_code polls)"

section \<open>The pump\<close>

datatype read_result = Bytes string | Interrupted | ReadError

type_synonym file_writer = "string \<Rightarrow> string \<Rightarrow> nat option"

text \<open>Writing a buffer to the end, or until a write fails or takes nothing.\<close>

function write_buf :: "file_writer \<Rightarrow> string \<Rightarrow> string \<Rightarrow> string \<times> nat \<times> bool" where
  "write_buf wr buf file =
     (if buf = [] then (file, 0, False)
      else (case wr file buf of
        None \<Rightarrow> (file, 0, True)
      | Some 0 \<Rightarrow> (file, 0, True)
      | Some (Suc m) \<Rightarrow>
          (case write_buf wr (drop (Suc m) buf) (file @ take (Suc m) buf) of
             (file', n, failed) \<Rightarrow> (file', min (Suc m) (length buf) + n, failed))))"
  by pat_completeness auto
termination by (relation "measure (\<lambda>(_, buf, _). length buf)") auto

declare write_buf.simps [simp del]

definition truncation_marker :: "nat \<Rightarrow> string" where
  "truncation_marker cap = [CHR 0x0A] @ ''[job log truncated at '' @ show_nat cap @ '' bytes]'' @ [CHR 0x0A]"

record pump =
  p_file :: string
  p_total :: nat
  p_truncated :: bool
  p_storing :: bool

definition pump_bytes :: "nat \<Rightarrow> file_writer \<Rightarrow> string \<Rightarrow> pump \<Rightarrow> pump" where
  "pump_bytes cap wr buf p =
     (if \<not> p_storing p then p
      else let room = cap - p_total p; tk = min room (length buf)
           in case write_buf wr (take tk buf) (p_file p) of (file, written, failed) \<Rightarrow>
             (let kept = p_total p + written
              in if failed \<or> tk < length buf
                 then if failed then \<lparr>p_file = file, p_total = kept, p_truncated = True, p_storing = False\<rparr>
                      else \<lparr>p_file = fst (write_buf wr (truncation_marker cap) file), p_total = cap,
                            p_truncated = True, p_storing = False\<rparr>
                 else p\<lparr>p_file := file, p_total := kept\<rparr>))"

fun pump_reads :: "nat \<Rightarrow> file_writer \<Rightarrow> read_result list \<Rightarrow> pump \<Rightarrow> pump" where
  "pump_reads cap wr [] p = p"
| "pump_reads cap wr (Bytes buf # rs) p = (if buf = [] then p else pump_reads cap wr rs (pump_bytes cap wr buf p))"
| "pump_reads cap wr (Interrupted # rs) p = pump_reads cap wr rs p"
| "pump_reads cap wr (ReadError # _) p = p"

definition pump_capped_with :: "nat \<Rightarrow> file_writer \<Rightarrow> read_result list \<Rightarrow> string \<times> nat \<times> bool" where
  "pump_capped_with cap wr rs =
     (let p = pump_reads cap wr rs \<lparr>p_file = [], p_total = 0, p_truncated = False, p_storing = True\<rparr>
      in (p_file p, p_total p, p_truncated p))"

definition max_log_stream_bytes :: nat where
  "max_log_stream_bytes = 64 * 1024 * 1024"

definition pump_capped :: "file_writer \<Rightarrow> read_result list \<Rightarrow> string \<times> nat \<times> bool" where
  "pump_capped wr rs = pump_capped_with max_log_stream_bytes wr rs"

section \<open>What the log holds\<close>

text \<open>What the pump reads until the pipe ends or fails.\<close>

fun drained :: "read_result list \<Rightarrow> string" where
  "drained [] = []"
| "drained (Bytes buf # rs) = (if buf = [] then [] else buf @ drained rs)"
| "drained (Interrupted # rs) = drained rs"
| "drained (ReadError # _) = []"

lemma write_buf_prefix:
  "write_buf wr buf fl = (fl2, n, failed) \<Longrightarrow>
     fl2 = fl @ take n buf \<and> n \<le> length buf \<and> failed = (n < length buf)"
proof (induction "length buf" arbitrary: buf fl fl2 n failed rule: less_induct)
  case less
  show ?case
  proof (cases "buf = [] \<or> wr fl buf = None \<or> wr fl buf = Some 0")
    case True
    with less.prems show ?thesis by (subst (asm) write_buf.simps) (auto split: if_splits)
  next
    case False
    then obtain m where m: "wr fl buf = Some (Suc m)" "buf \<noteq> []" by (metis not0_implies_Suc not_None_eq)
    obtain f1 n1 b1 where rest: "write_buf wr (drop (Suc m) buf) (fl @ take (Suc m) buf) = (f1, n1, b1)"
      using prod_cases3 by blast
    have "(fl2, n, failed) = (f1, min (Suc m) (length buf) + n1, b1)"
      using less.prems m rest by (subst (asm) write_buf.simps) simp
    moreover have "f1 = (fl @ take (Suc m) buf) @ take n1 (drop (Suc m) buf) \<and> n1 \<le> length buf - Suc m
        \<and> b1 = (n1 < length buf - Suc m)"
      using less.hyps [OF _ rest] m by simp
    ultimately show ?thesis
      using take_add [of "Suc m" n1 buf] by (cases "Suc m \<le> length buf") auto
  qed
qed

text \<open>The pump's state after it has drained \<open>input\<close>.\<close>

definition pump_inv :: "nat \<Rightarrow> string \<Rightarrow> pump \<Rightarrow> bool" where
  "pump_inv cap input p \<longleftrightarrow> p_total p \<le> cap \<and> p_total p \<le> length input
     \<and> p_truncated p = (p_total p < length input) \<and> p_storing p = (\<not> p_truncated p)
     \<and> (\<exists>m. p_file p = take (p_total p) input @ m \<and> prefix m (truncation_marker cap)
          \<and> (m = [] \<or> p_truncated p \<and> p_total p = cap))"

lemma pump_bytes_inv:
  assumes inv: "pump_inv cap input p" and some: "buf \<noteq> []"
  shows "pump_inv cap (input @ buf) (pump_bytes cap wr buf p)"
proof (cases "p_storing p")
  case False
  with inv show ?thesis by (auto simp: pump_inv_def pump_bytes_def)
next
  case True
  define tk where "tk = min (cap - p_total p) (length buf)"
  then have tk: "tk \<le> length buf" "tk \<le> cap - p_total p" "tk < length buf \<Longrightarrow> tk = cap - p_total p" by auto
  obtain fl n failed where w: "write_buf wr (take tk buf) (p_file p) = (fl, n, failed)" using prod_cases3 by blast
  from write_buf_prefix [OF w] tk(1) have n: "fl = p_file p @ take n buf" "n \<le> tk" "failed = (n < tk)"
    by (auto simp: min_absorb2)
  from inv True have full: "p_total p = length input" "p_file p = input" "p_total p \<le> cap"
    by (auto simp: pump_inv_def)
  have run: "pump_bytes cap wr buf p = (if failed \<or> tk < length buf
      then if failed then \<lparr>p_file = fl, p_total = length input + n, p_truncated = True, p_storing = False\<rparr>
           else \<lparr>p_file = fst (write_buf wr (truncation_marker cap) fl), p_total = cap, p_truncated = True, p_storing = False\<rparr>
      else p\<lparr>p_file := fl, p_total := length input + n\<rparr>)"
    using True w full by (simp add: pump_bytes_def Let_def tk_def)
  show ?thesis
  proof (cases "\<not> failed \<and> tk < length buf")
    case True
    obtain f2 k b2 where w2: "write_buf wr (truncation_marker cap) fl = (f2, k, b2)" using prod_cases3 by blast
    have "pump_bytes cap wr buf p = \<lparr>p_file = fl @ take k (truncation_marker cap), p_total = cap, p_truncated = True, p_storing = False\<rparr>"
      using True run write_buf_prefix [OF w2] w2 by simp
    moreover have "length input + n = cap" "n < length buf" "fl = input @ take n buf" using True n full tk by auto
    ultimately show ?thesis by (auto simp: pump_inv_def take_is_prefix)
  next
    case False
    show ?thesis
    proof (cases failed)
      case True
      with run have "pump_bytes cap wr buf p = \<lparr>p_file = fl, p_total = length input + n, p_truncated = True, p_storing = False\<rparr>"
        by simp
      moreover have "n < length buf" "length input + n \<le> cap" "fl = input @ take n buf" using True n full tk by auto
      ultimately show ?thesis by (simp add: pump_inv_def)
    next
      case whole: False
      with False run have "pump_bytes cap wr buf p = p\<lparr>p_file := fl, p_total := length input + n\<rparr>" by simp
      moreover have "n = length buf" "length input + n \<le> cap" "fl = input @ buf" using whole False n full tk by auto
      ultimately show ?thesis using inv \<open>p_storing p\<close> by (auto simp: pump_inv_def)
    qed
  qed
qed

lemma pump_reads_inv: "pump_inv cap input p \<Longrightarrow> pump_inv cap (input @ drained rs) (pump_reads cap wr rs p)"
proof (induction cap wr rs p arbitrary: input rule: pump_reads.induct)
  case (2 cap wr buf rs p)
  show ?case
  proof (cases "buf = []")
    case False
    with "2.IH" [OF False pump_bytes_inv [OF "2.prems" False]] show ?thesis by simp
  qed (use 2 in simp)
qed auto

section \<open>Property\<close>

text \<open>
  The log is a true prefix of what the subprocess wrote, of at most the cap's size, followed by
  no more than the truncation marker; the count returned is the prefix's length, and the output is
  reported truncated exactly when some of it is missing. This holds whatever the file system does.
\<close>

lemma pump_keeps_prefix:
  "case pump_capped_with cap wr rs of (log, n, truncated) \<Rightarrow>
     n \<le> cap \<and> truncated = (n < length (drained rs))
     \<and> (\<exists>m. log = take n (drained rs) @ m \<and> prefix m (truncation_marker cap)
          \<and> (m = [] \<or> truncated \<and> n = cap))"
proof -
  have "pump_inv cap [] \<lparr>p_file = [], p_total = 0, p_truncated = False, p_storing = True\<rparr>"
    by (simp add: pump_inv_def)
  from pump_reads_inv [OF this, of rs wr]
  have "pump_inv cap (drained rs) (pump_reads cap wr rs \<lparr>p_file = [], p_total = 0, p_truncated = False, p_storing = True\<rparr>)"
    by simp
  then show ?thesis
    by (auto simp: pump_capped_with_def Let_def pump_inv_def)
qed

end
