(* ===== verification/Bridge_Marker.thy ===== *)
theory Bridge_Marker
  imports Str_Ops
begin

text \<open>
  The marker comments by which instances of the program coordinate on GitHub:
  \<^verbatim>\<open>src/github/bridge/marker.rs\<close>, with the check of instance ids of \<^verbatim>\<open>config.rs\<close>. Texts are byte
  strings; white space is ASCII white space. The content hash (a digest by a library) is a value of
  the marker.
\<close>

section \<open>Signed decimal numerals\<close>

definition i64_top :: int where
  "i64_top = 2 ^ 63 - 1"

definition i64_bot :: int where
  "i64_bot = - (2 ^ 63)"

definition in_i64 :: "int \<Rightarrow> bool" where
  "in_i64 i \<longleftrightarrow> i64_bot \<le> i \<and> i \<le> i64_top"

definition show_int :: "int \<Rightarrow> string" where
  "show_int i = (if i < 0 then CHR ''-'' # show_nat (nat (- i)) else show_nat (nat i))"

text \<open>\<open>str::parse::<i64>\<close>: an optional sign and at least one digit, in range.\<close>

definition parse_i64 :: "string \<Rightarrow> int option" where
  "parse_i64 s =
     (let (neg, ds) =
        (case s of
           c # s' \<Rightarrow> if c = CHR ''-'' then (True, s') else if c = CHR ''+'' then (False, s') else (False, s)
         | [] \<Rightarrow> (False, []))
      in if ds = [] then None
         else (case parse_digits 0 ds of
                 None \<Rightarrow> None
               | Some n \<Rightarrow>
                   (let i = (if neg then - int n else int n) in if in_i64 i then Some i else None)))"

lemma digit_char_not_sign:
  "d < 10 \<Longrightarrow> digit_char d \<noteq> CHR ''-'' \<and> digit_char d \<noteq> CHR ''+'' \<and> \<not> is_space (digit_char d) \<and>
     digit_char d \<noteq> CHR ''<'' \<and> digit_char d \<noteq> CHR ''>''"
proof -
  assume d: "d < 10"
  then have "\<not> is_space (digit_char d)" by (auto simp: is_space_def digit_char_def of_char_of)
  with digit_val_char [OF d] show ?thesis by (auto simp: digit_val_def split: if_splits)
qed

lemma show_nat_chars: "c \<in> set (show_nat n) \<Longrightarrow> \<exists>d<10. c = digit_char d"
proof (induction n rule: show_nat.induct)
  case (1 n)
  show ?case
  proof (cases "n < 10 \<or> c \<in> set (show_nat (n div 10))")
    case True
    with 1 show ?thesis by (cases "n < 10") (auto simp: show_nat.simps [of n])
  next
    case False
    with 1(2) have "c = digit_char (n mod 10)" by (simp add: show_nat.simps [of n])
    then show ?thesis by (intro exI [of _ "n mod 10"]) simp
  qed
qed

lemma parse_show_int:
  assumes "in_i64 i"
  shows "parse_i64 (show_int i) = Some i"
proof (cases "i < 0")
  case True
  then have "nat (- i) \<le> u64_max" using assms by (simp add: in_i64_def i64_bot_def u64_max_def nat_le_iff)
  moreover have "show_nat (nat (- i)) \<noteq> []" using show_nat_hd [of "nat (- i)"] by auto
  ultimately show ?thesis using True assms by (simp add: show_int_def parse_i64_def parse_digits_show)
next
  case False
  then have "nat i \<le> u64_max" using assms by (simp add: in_i64_def i64_top_def u64_max_def nat_le_iff)
  moreover obtain d s where "show_nat (nat i) = digit_char d # s" "d < 10" using show_nat_hd by blast
  ultimately show ?thesis
    using False assms digit_char_not_sign [of d] parse_digits_show [of "nat i"]
    by (simp add: show_int_def parse_i64_def)
qed

section \<open>Markers\<close>

datatype action = Claim | Progress | Done | Cede | Takeover

definition action_as_str :: "action \<Rightarrow> string" where
  "action_as_str a =
     (case a of Claim \<Rightarrow> ''claim'' | Progress \<Rightarrow> ''progress'' | Done \<Rightarrow> ''done'' | Cede \<Rightarrow> ''cede''
      | Takeover \<Rightarrow> ''takeover'')"

definition action_parse :: "string \<Rightarrow> action option" where
  "action_parse s =
     (if s = ''claim'' then Some Claim
      else if s = ''progress'' then Some Progress
      else if s = ''done'' then Some Done
      else if s = ''cede'' then Some Cede
      else if s = ''takeover'' then Some Takeover
      else None)"

record marker =
  m_action :: action
  m_owner :: string
  m_item :: string
  m_ts :: int
  m_hash :: string

definition marker_version :: string where
  "marker_version = ''agentflare:v1''"

text \<open>A field with nothing to say is written as a dash.\<close>

definition marker_field :: "string \<Rightarrow> string" where
  "marker_field v = (if v = [] then ''-'' else v)"

definition marker_words :: "marker \<Rightarrow> string list" where
  "marker_words m =
     [''action='' @ action_as_str (m_action m), ''owner='' @ marker_field (m_owner m),
      ''item='' @ marker_field (m_item m), ''ts='' @ show_int (m_ts m), ''hash='' @ marker_field (m_hash m)]"

definition marker_open :: string where
  "marker_open = ''<!-- '' @ marker_version @ '' ''"

definition marker_render :: "marker \<Rightarrow> string" where
  "marker_render m = marker_open @ str_join '' '' (marker_words m) @ '' -->''"

text \<open>What stands after the last occurrence of a pattern: \<open>s.rfind(p)\<close> with the slice behind the match.\<close>

fun after_last :: "string \<Rightarrow> string \<Rightarrow> string option" where
  "after_last p [] = (if p = [] then Some [] else None)"
| "after_last p (c # s) =
     (case after_last p s of
        Some r \<Rightarrow> Some r
      | None \<Rightarrow> if prefix p (c # s) then Some (drop (length p) (c # s)) else None)"

text \<open>The fields read so far; a later pair with the same key overwrites an earlier one.\<close>

record marker_fields =
  mf_action :: "action option"
  mf_owner :: "string option"
  mf_item :: "string option"
  mf_ts :: "int option"
  mf_hash :: "string option"

definition set_field :: "string \<Rightarrow> string \<Rightarrow> marker_fields \<Rightarrow> marker_fields" where
  "set_field k v f =
     (if k = ''action'' then f\<lparr>mf_action := action_parse v\<rparr>
      else if k = ''owner'' then f\<lparr>mf_owner := Some v\<rparr>
      else if k = ''item'' then f\<lparr>mf_item := Some v\<rparr>
      else if k = ''ts'' then f\<lparr>mf_ts := parse_i64 v\<rparr>
      else if k = ''hash'' then f\<lparr>mf_hash := Some v\<rparr>
      else f)"

fun read_pairs :: "string list \<Rightarrow> marker_fields \<Rightarrow> marker_fields option" where
  "read_pairs [] f = Some f"
| "read_pairs (w # ws) f =
     (case split_once CHR ''='' w of
        None \<Rightarrow> None
      | Some (k, v) \<Rightarrow> if v = [] then None else read_pairs ws (set_field k v f))"

definition marker_of_fields :: "marker_fields \<Rightarrow> marker option" where
  "marker_of_fields f =
     (case (mf_action f, mf_owner f, mf_item f, mf_ts f, mf_hash f) of
        (Some a, Some ow, Some it, Some t, Some h) \<Rightarrow>
          Some \<lparr>m_action = a, m_owner = ow, m_item = it, m_ts = t, m_hash = h\<rparr>
      | _ \<Rightarrow> None)"

definition no_fields :: marker_fields where
  "no_fields = \<lparr>mf_action = None, mf_owner = None, mf_item = None, mf_ts = None, mf_hash = None\<rparr>"

definition marker_parse :: "string \<Rightarrow> marker option" where
  "marker_parse s =
     (case after_last marker_open s of
        None \<Rightarrow> None
      | Some rest \<Rightarrow>
          (case split_at_str '' -->'' rest of
             None \<Rightarrow> None
           | Some (body, _) \<Rightarrow>
               if str_contains ''<!--'' body \<or> str_contains ''-->'' body then None
               else (case read_pairs (split_whitespace body) no_fields of
                       None \<Rightarrow> None
                     | Some f \<Rightarrow> marker_of_fields f)))"

section \<open>Instance ids\<close>

definition is_control :: "char \<Rightarrow> bool" where
  "is_control c \<longleftrightarrow> of_char c < (32 :: nat) \<or> of_char c = (127 :: nat)"

definition invalid_instance_char :: "char \<Rightarrow> bool" where
  "invalid_instance_char c \<longleftrightarrow> is_space c \<or> is_control c \<or> c = CHR ''/''"

definition validate_instance_id :: "string \<Rightarrow> char + unit" where
  "validate_instance_id i = (case find invalid_instance_char i of Some c \<Rightarrow> Inl c | None \<Rightarrow> Inr ())"

lemma validate_instance_id_Inr: "validate_instance_id i = Inr () \<longleftrightarrow> (\<forall>c\<in>set i. \<not> invalid_instance_char c)"
  by (auto simp: validate_instance_id_def find_None_iff split: option.split dest: find_Some_iff_mem)

section \<open>Scanning a rendered marker\<close>

lemma split_ws_word: "\<forall>c\<in>set w. \<not> is_space c \<Longrightarrow> split_ws cur (w @ s) = split_ws (cur @ w) s"
  by (induction w arbitrary: cur) auto

lemma split_ws_join:
  "\<forall>w\<in>set ws. w \<noteq> [] \<and> (\<forall>c\<in>set w. \<not> is_space c) \<Longrightarrow> split_ws [] (str_join '' '' ws) = ws"
proof (induction ws rule: induct_list012)
  case 1
  show ?case by simp
next
  case (2 w)
  then show ?case using split_ws_word [of w "[]" "[]"] by simp
next
  case (3 v w ws)
  have sp: "is_space CHR '' ''" by (simp add: is_space_def)
  have "split_ws [] (v @ '' '' @ str_join '' '' (w # ws)) = v # split_ws [] (str_join '' '' (w # ws))"
    using 3 sp split_ws_word [of v "[]"] by simp
  with 3 show ?case by simp
qed

text \<open>A pattern whose first byte occurs nowhere else in it cannot match across a boundary in front of it.\<close>

lemma split_at_first:
  assumes "\<not> str_contains (d # p) s" "d \<notin> set p"
  shows "split_at_str (d # p) (s @ (d # p) @ t) = Some (s, t)"
  using assms(1)
proof (induction s)
  case Nil
  show ?case by simp
next
  case (Cons c s)
  have "\<not> prefix (d # p) ((c # s) @ (d # p) @ t)"
  proof
    assume pre: "prefix (d # p) ((c # s) @ (d # p) @ t)"
    have "\<not> prefix (d # p) (c # s)" using Cons.prems by (auto simp: str_contains_iff_sublist)
    then obtain q where q: "d # p = (c # s) @ q" "prefix q ((d # p) @ t)"
      using pre by (auto simp: prefix_append)
    have "q \<noteq> []" using q(1) \<open>\<not> prefix (d # p) (c # s)\<close> by auto
    then have "hd q = d" using q(2) by (cases q) (auto simp: prefix_def)
    moreover have "hd q \<in> set p" using q(1) \<open>q \<noteq> []\<close> by (cases q) auto
    ultimately show False using assms(2) by simp
  qed
  with Cons show ?case by simp
qed

lemma after_last_last:
  assumes "d \<notin> set (p @ s)"
  shows "after_last (d # p) (pre @ (d # p) @ s) = Some s"
proof -
  have none: "d \<notin> set u \<Longrightarrow> after_last (d # p) u = None" for u
    by (induction u) (auto simp: prefix_def)
  show ?thesis using none [of "p @ s"] assms by (induction pre) simp_all
qed


text \<open>The bytes a field may consist of, so that the marker around it can be read back.\<close>

definition clean :: "string \<Rightarrow> bool" where
  "clean v \<longleftrightarrow> (\<forall>c\<in>set v. \<not> is_space c \<and> c \<noteq> CHR ''<'' \<and> c \<noteq> CHR ''>'')"

definition readable :: "marker \<Rightarrow> bool" where
  "readable m \<longleftrightarrow> clean (m_owner m) \<and> clean (m_item m) \<and> clean (m_hash m) \<and> in_i64 (m_ts m)"

text \<open>What comes back: an empty field comes back as the dash that stands for it.\<close>

definition read_back :: "marker \<Rightarrow> marker" where
  "read_back m = m\<lparr>m_owner := marker_field (m_owner m), m_item := marker_field (m_item m),
                    m_hash := marker_field (m_hash m)\<rparr>"

lemma clean_simps [simp]:
  "clean []" "clean (a @ b) \<longleftrightarrow> clean a \<and> clean b"
  by (auto simp: clean_def)

lemma clean_field: "clean v \<Longrightarrow> clean (marker_field v)" "marker_field v \<noteq> []"
  by (auto simp: clean_def marker_field_def is_space_def)

lemma clean_show_int: "clean (show_int i)" "show_int i \<noteq> []"
proof -
  have "clean (show_nat n)" for n
    using show_nat_chars [of _ n] digit_char_not_sign by (fastforce simp: clean_def)
  moreover have "clean ''-''" by (simp add: clean_def is_space_def)
  ultimately show "clean (show_int i)"
    using clean_simps(2) [of "''-''" "show_nat (nat (- i))"] by (simp add: show_int_def)
  show "show_int i \<noteq> []" using show_nat_hd [of "nat i"] by (auto simp: show_int_def)
qed

lemma clean_action: "clean (action_as_str a)" "action_as_str a \<noteq> []" "action_parse (action_as_str a) = Some a"
  by (cases a; simp add: action_as_str_def clean_def is_space_def action_parse_def)+

lemma marker_words_clean: "readable m \<Longrightarrow> w \<in> set (marker_words m) \<Longrightarrow> w \<noteq> [] \<and> clean w"
proof -
  have keys: "clean ''action=''" "clean ''owner=''" "clean ''item=''" "clean ''ts=''" "clean ''hash=''"
    by (simp_all add: clean_def is_space_def)
  assume "readable m" "w \<in> set (marker_words m)"
  then show ?thesis
    using keys clean_field clean_show_int clean_action
    by (auto simp: marker_words_def readable_def simp del: append_Cons)
qed

lemma set_str_join: "set (str_join sep ws) \<subseteq> set sep \<union> \<Union> (set ` set ws)"
  by (induction sep ws rule: str_join.induct) auto

lemma read_pair: "CHR ''='' \<notin> set k \<Longrightarrow> v \<noteq> [] \<Longrightarrow>
   read_pairs ((k @ CHR ''='' # v) # ws) f = read_pairs ws (set_field k v f)"
proof -
  assume "CHR ''='' \<notin> set k" "v \<noteq> []"
  moreover from this(1) have "split_once CHR ''='' (k @ CHR ''='' # v) = Some (k, v)"
    by (simp add: split_once_Some)
  ultimately show ?thesis by simp
qed

lemma read_marker_words:
  assumes "in_i64 (m_ts m)"
  shows "read_pairs (marker_words m) no_fields =
     Some \<lparr>mf_action = Some (m_action m), mf_owner = Some (marker_field (m_owner m)),
           mf_item = Some (marker_field (m_item m)), mf_ts = Some (m_ts m),
           mf_hash = Some (marker_field (m_hash m))\<rparr>"
proof -
  have words: "marker_words m =
     [''action'' @ CHR ''='' # action_as_str (m_action m), ''owner'' @ CHR ''='' # marker_field (m_owner m),
      ''item'' @ CHR ''='' # marker_field (m_item m), ''ts'' @ CHR ''='' # show_int (m_ts m),
      ''hash'' @ CHR ''='' # marker_field (m_hash m)]"
    by (simp add: marker_words_def)
  have keys: "CHR ''='' \<notin> set ''action''" "CHR ''='' \<notin> set ''owner''" "CHR ''='' \<notin> set ''item''"
    "CHR ''='' \<notin> set ''ts''" "CHR ''='' \<notin> set ''hash''" by simp_all
  show ?thesis
    unfolding words
    by (simp only: read_pair keys clean_field(2) clean_show_int(2) clean_action(2) not_False_eq_True)
      (simp add: set_field_def no_fields_def clean_action parse_show_int [OF assms])
qed

lemma parse_words:
  assumes "\<And>w. w \<in> set ws \<Longrightarrow> w \<noteq> [] \<and> clean w"
  shows "marker_parse (pre @ marker_open @ str_join '' '' ws @ '' -->'') =
    (case read_pairs ws no_fields of None \<Rightarrow> None | Some f \<Rightarrow> marker_of_fields f)"
proof -
  let ?f = "str_join '' '' ws"
  have words: "\<forall>w\<in>set ws. w \<noteq> [] \<and> (\<forall>c\<in>set w. \<not> is_space c)"
    using assms by (auto simp: clean_def)
  have "set ?f \<subseteq> {CHR '' ''} \<union> \<Union> (set ` set ws)" using set_str_join [of "'' ''"] by simp
  then have f: "CHR ''<'' \<notin> set ?f" "CHR ''>'' \<notin> set ?f"
    using assms by (fastforce simp: clean_def)+
  have op: "marker_open = CHR ''<'' # ''!-- agentflare:v1 ''" by (simp add: marker_open_def marker_version_def)
  have "after_last marker_open (pre @ marker_open @ ?f @ '' -->'') = Some (?f @ '' -->'')"
    unfolding op by (rule after_last_last) (use f in simp)
  moreover have "split_at_str '' -->'' (?f @ '' -->'' @ []) = Some (?f, [])"
  proof (rule split_at_first)
    show "\<not> str_contains '' -->'' ?f"
      using f(2) by (auto simp: str_contains_iff_sublist dest: set_mono_sublist)
  qed simp
  moreover have "\<not> str_contains ''<!--'' ?f" "\<not> str_contains ''-->'' ?f"
    using f by (auto simp: str_contains_iff_sublist dest: set_mono_sublist)
  moreover have "split_whitespace ?f = ws"
    using split_ws_join [OF words] by (simp add: split_whitespace_def)
  ultimately show ?thesis by (simp add: marker_parse_def)
qed

lemma parse_rendered:
  assumes "readable m"
  shows "marker_parse (pre @ marker_render m) = Some (read_back m)"
proof -
  have "in_i64 (m_ts m)" using assms by (simp add: readable_def)
  then show ?thesis
    using parse_words [OF marker_words_clean [OF assms], where pre = pre]
    by (simp add: marker_render_def read_marker_words marker_of_fields_def read_back_def)
qed

text \<open>An owner with a space in it splits into two words, the second of which is no pair.\<close>

lemma spaced_owner_unreadable:
  assumes "m_owner m = a @ '' '' @ b" "clean a" "clean b" "b \<noteq> []" "CHR ''='' \<notin> set b"
    "clean (m_item m)" "clean (m_hash m)"
  shows "marker_parse (pre @ marker_render m) = None"
proof -
  let ?ws = "[''action='' @ action_as_str (m_action m), ''owner='' @ a, b, ''item='' @ marker_field (m_item m),
     ''ts='' @ show_int (m_ts m), ''hash='' @ marker_field (m_hash m)]"
  have keys: "clean ''action=''" "clean ''owner=''" "clean ''item=''" "clean ''ts=''" "clean ''hash=''"
    by (simp_all add: clean_def is_space_def)
  have ws: "w \<noteq> [] \<and> clean w" if "w \<in> set ?ws" for w
    using that assms(2-4,6,7) keys clean_field clean_show_int clean_action by (auto simp del: append_Cons)
  have eq: "str_join '' '' (marker_words m) = str_join '' '' ?ws"
    using assms(1) by (simp add: marker_words_def marker_field_def)
  have "marker_parse (pre @ marker_render m) = (case read_pairs ?ws no_fields of None \<Rightarrow> None | Some f \<Rightarrow> marker_of_fields f)"
    unfolding marker_render_def eq by (rule parse_words) (rule ws)
  moreover have "split_once CHR ''='' b = None"
    using assms(5) by (metis Un_iff list.set_intros(1) not_None_eq set_append split_once_Some surj_pair)
  then have "read_pairs ?ws no_fields = None" by (auto split: option.splits)
  ultimately show ?thesis by simp
qed

text \<open>An id the check accepts although no marker with it can be read.\<close>

lemma arrow_id_unreadable:
  "validate_instance_id ''a-->'' = Inr ()"
  "marker_parse (marker_render \<lparr>m_action = Claim, m_owner = ''a-->'', m_item = ''i'', m_ts = 5, m_hash = ''h''\<rparr>) = None"
  by code_simp+

end
