(* ===== verification/Bridge_Claim.thy ===== *)
theory Bridge_Claim
  imports Bridge_Marker
begin

text \<open>
  Arbitration of an issue between instances, decided from its comments alone:
  \<^verbatim>\<open>src/github/bridge/claim.rs\<close>. A comment is its id and its body; ids grow with time. Times are
  \<open>i64\<close> seconds, subtracted with saturation.
\<close>

section \<open>The rules\<close>

type_synonym comments = "(nat \<times> string) list"
type_synonym markers = "(nat \<times> marker) list"

record holder =
  comment_id :: nat
  holder_marker :: marker

abbreviation holder_owner :: "holder \<Rightarrow> string" where
  "holder_owner h \<equiv> m_owner (holder_marker h)"

definition parsed :: "comments \<Rightarrow> markers" where
  "parsed cs = List.map_filter (\<lambda>(i, b). map_option (Pair i) (marker_parse b)) cs"

text \<open>\<open>i64::saturating_sub\<close>.\<close>

definition sat_sub :: "int \<Rightarrow> int \<Rightarrow> int" where
  "sat_sub a b = max i64_bot (min i64_top (a - b))"

definition is_live :: "int \<Rightarrow> int \<Rightarrow> int \<Rightarrow> bool" where
  "is_live ts now ttl = (if ts > now then sat_sub ts now \<le> ttl else sat_sub now ts \<le> ttl)"

definition is_retired :: "nat \<Rightarrow> string \<Rightarrow> markers \<Rightarrow> bool" where
  "is_retired cid ow ps \<longleftrightarrow>
     (\<exists>(i, m)\<in>set ps. m_action m \<in> {Cede, Done} \<and> m_owner m = ow \<and> cid < i)"

definition latest_ts_for :: "string \<Rightarrow> markers \<Rightarrow> int option" where
  "latest_ts_for ow ps =
     (case map (\<lambda>(i, m). m_ts m) (filter (\<lambda>(i, m). m_owner m = ow) ps) of
        [] \<Rightarrow> None
      | t # ts \<Rightarrow> Some (fold max ts t))"

text \<open>A \<open>done\<close> of an owner that had claimed ends the issue while no claim follows it.\<close>

definition issue_done :: "markers \<Rightarrow> bool" where
  "issue_done ps \<longleftrightarrow>
     (\<exists>(d, dm)\<in>set ps. m_action dm = Done
        \<and> (\<exists>(c, cm)\<in>set ps. m_action cm = Claim \<and> m_owner cm = m_owner dm \<and> c < d)
        \<and> \<not> (\<exists>(c, cm)\<in>set ps. m_action cm = Claim \<and> d < c))"

text \<open>\<open>min_by_key\<close> on the id: the first of the smallest.\<close>

fun min_by_id :: "(nat \<times> 'a) list \<Rightarrow> (nat \<times> 'a) option" where
  "min_by_id [] = None"
| "min_by_id (x # xs) =
     (case min_by_id xs of
        None \<Rightarrow> Some x
      | Some y \<Rightarrow> if fst y < fst x then Some y else Some x)"

definition standing :: "markers \<Rightarrow> int \<Rightarrow> int \<Rightarrow> nat \<times> marker \<Rightarrow> bool" where
  "standing ps now ttl = (\<lambda>(i, m).
     m_action m = Claim \<and> \<not> is_retired i (m_owner m) ps \<and>
     (case latest_ts_for (m_owner m) ps of None \<Rightarrow> False | Some t \<Rightarrow> is_live t now ttl))"

definition resolve_holder :: "comments \<Rightarrow> int \<Rightarrow> int \<Rightarrow> holder option" where
  "resolve_holder cs now ttl =
     (let ps = parsed cs
      in if issue_done ps then None
         else map_option (\<lambda>(i, m). \<lparr>comment_id = i, holder_marker = m\<rparr>)
                (min_by_id (filter (standing ps now ttl) ps)))"

definition owner_liveness :: "comments \<Rightarrow> string \<Rightarrow> int option" where
  "owner_liveness cs ow = latest_ts_for ow (parsed cs)"

definition i_hold :: "comments \<Rightarrow> string \<Rightarrow> int \<Rightarrow> int \<Rightarrow> bool" where
  "i_hold cs me now ttl =
     (case resolve_holder cs now ttl of None \<Rightarrow> False | Some h \<Rightarrow> holder_owner h = me)"

section \<open>Facts about the parts\<close>

lemma parsed_simps [simp]:
  "parsed [] = []"
  "parsed (c # cs) = (case marker_parse (snd c) of None \<Rightarrow> parsed cs | Some m \<Rightarrow> (fst c, m) # parsed cs)"
  "parsed (cs @ cs') = parsed cs @ parsed cs'"
  by (cases c; auto simp: parsed_def List.map_filter_def split: option.split)+

lemma parsed_id: "(i, m) \<in> set (parsed cs) \<Longrightarrow> \<exists>b. (i, b) \<in> set cs"
  by (induction cs) (auto split: option.splits)

lemma distinct_parsed: "distinct (map fst cs) \<Longrightarrow> distinct (map fst (parsed cs))"
  by (induction cs) (force split: option.splits dest: parsed_id)+

lemma fold_max_Max: "fold max ts (t :: int) = Max (insert t (set ts))"
  using Max.set_eq_fold [of t ts] by simp

lemma latest_ts_for_None: "latest_ts_for ow ps = None \<longleftrightarrow> (\<forall>(i, m)\<in>set ps. m_owner m \<noteq> ow)"
proof -
  have "latest_ts_for ow ps = None \<longleftrightarrow> filter (\<lambda>(i, m). m_owner m = ow) ps = []"
    by (auto simp: latest_ts_for_def split: list.split)
  then show ?thesis by (auto simp: filter_empty_conv)
qed

lemma latest_ts_for_Some:
  "latest_ts_for ow ps = Some t \<longleftrightarrow>
     (\<exists>(i, m)\<in>set ps. m_owner m = ow \<and> m_ts m = t) \<and> (\<forall>(i, m)\<in>set ps. m_owner m = ow \<longrightarrow> m_ts m \<le> t)"
proof -
  let ?ts = "map (\<lambda>(i, m). m_ts m) (filter (\<lambda>(i, m). m_owner m = ow) ps)"
  have set_ts: "set ?ts = {m_ts m |i m. (i, m) \<in> set ps \<and> m_owner m = ow}" by force
  have "latest_ts_for ow ps = Some t \<longleftrightarrow> ?ts \<noteq> [] \<and> t = Max (set ?ts)"
    unfolding latest_ts_for_def by (cases ?ts) (auto simp: fold_max_Max)
  also have "\<dots> \<longleftrightarrow> t \<in> set ?ts \<and> (\<forall>t'\<in>set ?ts. t' \<le> t)"
    by (metis List.finite_set Max_eqI Max_ge Max_in empty_iff set_empty)
  also have "\<dots> \<longleftrightarrow> (\<exists>(i, m)\<in>set ps. m_owner m = ow \<and> m_ts m = t) \<and>
      (\<forall>(i, m)\<in>set ps. m_owner m = ow \<longrightarrow> m_ts m \<le> t)"
    unfolding set_ts by blast
  finally show ?thesis .
qed

text \<open>Markers of others do not change an owner's liveness.\<close>

lemma latest_ts_for_append:
  "\<forall>(i, m)\<in>set qs. m_owner m \<noteq> ow \<Longrightarrow> latest_ts_for ow (ps @ qs) = latest_ts_for ow ps"
proof -
  assume "\<forall>(i, m)\<in>set qs. m_owner m \<noteq> ow"
  then have "filter (\<lambda>(i, m). m_owner m = ow) qs = []" by (auto simp: filter_empty_conv)
  then show ?thesis by (simp add: latest_ts_for_def)
qed

lemma min_by_id_None: "min_by_id xs = None \<longleftrightarrow> xs = []"
  by (cases xs) (auto split: option.split)

lemma min_by_id_Some: "min_by_id xs = Some x \<Longrightarrow> x \<in> set xs \<and> (\<forall>y\<in>set xs. fst x \<le> fst y)"
  by (induction xs arbitrary: x) (auto simp: min_by_id_None split: option.splits if_splits)

lemma min_by_id_unique:
  "distinct (map fst xs) \<Longrightarrow> x \<in> set xs \<Longrightarrow> \<forall>y\<in>set xs. fst x \<le> fst y \<Longrightarrow> min_by_id xs = Some x"
proof (cases "min_by_id xs")
  case None
  then show "x \<in> set xs \<Longrightarrow> ?thesis" by (simp add: min_by_id_None)
next
  case (Some y)
  assume "distinct (map fst xs)" "x \<in> set xs" "\<forall>y\<in>set xs. fst x \<le> fst y"
  then show ?thesis
    using Some min_by_id_Some [OF Some] by (metis eq_key_imp_eq_value order_antisym prod.collapse)
qed

text \<open>The holder is the standing claim with the smallest id.\<close>

lemma resolve_holder_None:
  "resolve_holder cs now ttl = None \<longleftrightarrow>
     issue_done (parsed cs) \<or> (\<forall>c\<in>set (parsed cs). \<not> standing (parsed cs) now ttl c)"
  by (auto simp: resolve_holder_def Let_def min_by_id_None filter_empty_conv)

lemma resolve_holder_SomeD:
  assumes "resolve_holder cs now ttl = Some h"
  shows "\<not> issue_done (parsed cs)" "(comment_id h, holder_marker h) \<in> set (parsed cs)"
    "standing (parsed cs) now ttl (comment_id h, holder_marker h)"
    "c \<in> set (parsed cs) \<Longrightarrow> standing (parsed cs) now ttl c \<Longrightarrow> comment_id h \<le> fst c"
proof -
  obtain i m where im: "min_by_id (filter (standing (parsed cs) now ttl) (parsed cs)) = Some (i, m)"
    and h: "h = \<lparr>comment_id = i, holder_marker = m\<rparr>" and "\<not> issue_done (parsed cs)"
    using assms by (auto simp: resolve_holder_def Let_def split: if_splits)
  then show "\<not> issue_done (parsed cs)" "(comment_id h, holder_marker h) \<in> set (parsed cs)"
    "standing (parsed cs) now ttl (comment_id h, holder_marker h)"
    "c \<in> set (parsed cs) \<Longrightarrow> standing (parsed cs) now ttl c \<Longrightarrow> comment_id h \<le> fst c"
    using min_by_id_Some [OF im] by (cases c; force)+
qed

lemma resolve_holder_SomeI:
  assumes "distinct (map fst cs)" "\<not> issue_done (parsed cs)" "(i, m) \<in> set (parsed cs)"
    "standing (parsed cs) now ttl (i, m)"
    "\<And>j n. (j, n) \<in> set (parsed cs) \<Longrightarrow> standing (parsed cs) now ttl (j, n) \<Longrightarrow> i \<le> j"
  shows "resolve_holder cs now ttl = Some \<lparr>comment_id = i, holder_marker = m\<rparr>"
proof -
  have "min_by_id (filter (standing (parsed cs) now ttl) (parsed cs)) = Some (i, m)"
    using assms distinct_parsed [OF assms(1)]
    by (intro min_by_id_unique) (auto simp: distinct_map_filter)
  then show ?thesis using assms(2) by (simp add: resolve_holder_def Let_def)
qed

lemma expired_stays_expired:
  "ts \<le> now \<Longrightarrow> now \<le> now' \<Longrightarrow> \<not> is_live ts now ttl \<Longrightarrow> \<not> is_live ts now' ttl"
  by (auto simp: is_live_def sat_sub_def min_def max_def split: if_splits)

section \<open>Comments appended to an issue\<close>

text \<open>Comments that are posted later have larger ids.\<close>

definition newer :: "comments \<Rightarrow> comments \<Rightarrow> bool" where
  "newer cs new \<longleftrightarrow> (\<forall>(i, b)\<in>set new. \<forall>(j, c)\<in>set cs. j < i)"

text \<open>
  What may be added without disputing the claim of \<open>ow\<close>: nobody reports the issue done, \<open>ow\<close> does
  not cede, and no other owner with an earlier claim adds a marker.
\<close>

definition undisputed :: "string \<Rightarrow> markers \<Rightarrow> markers \<Rightarrow> bool" where
  "undisputed ow ps qs \<longleftrightarrow>
     (\<forall>(i, m)\<in>set qs. m_action m \<noteq> Done \<and>
        (if m_owner m = ow then m_action m \<noteq> Cede
         else \<forall>(j, n)\<in>set ps. \<not> (m_action n = Claim \<and> m_owner n = m_owner m)))"

lemma newer_parsed: "newer cs new \<Longrightarrow> (i, m) \<in> set (parsed new) \<Longrightarrow> (j, n) \<in> set (parsed cs) \<Longrightarrow> j < i"
  unfolding newer_def by (blast dest: parsed_id)

lemma newer_distinct:
  "newer cs new \<Longrightarrow> distinct (map fst cs) \<Longrightarrow> distinct (map fst new) \<Longrightarrow> distinct (map fst (cs @ new))"
  by (fastforce simp: newer_def)

lemma is_retired_append:
  "is_retired i ow (ps @ qs) \<longleftrightarrow> is_retired i ow ps \<or> is_retired i ow qs"
  by (auto simp: is_retired_def)

lemma issue_done_append:
  assumes "newer cs new" "issue_done (parsed (cs @ new))" "\<forall>(i, m)\<in>set (parsed new). m_action m \<noteq> Done"
  shows "issue_done (parsed cs)"
proof -
  obtain d dm c cm where d: "(d, dm) \<in> set (parsed (cs @ new))" "m_action dm = Done"
    and c: "(c, cm) \<in> set (parsed (cs @ new))" "m_action cm = Claim" "m_owner cm = m_owner dm" "c < d"
    and last: "\<not> (\<exists>(c, cm)\<in>set (parsed (cs @ new)). m_action cm = Claim \<and> d < c)"
    using assms(2) unfolding issue_done_def by blast
  have din: "(d, dm) \<in> set (parsed cs)" using d assms(3) by auto
  then have "(c, cm) \<in> set (parsed cs)" using c(1,4) newer_parsed [OF assms(1), of c cm d dm] by auto
  then show ?thesis using din d(2) c last unfolding issue_done_def by auto
qed

text \<open>A claim by the newest comment ends the reign of every earlier \<open>done\<close>.\<close>

lemma new_claim_not_done:
  assumes "newer cs [(i, b)]" "marker_parse b = Some m" "m_action m = Claim"
  shows "\<not> issue_done (parsed (cs @ [(i, b)]))"
proof
  assume "issue_done (parsed (cs @ [(i, b)]))"
  then obtain d dm where "(d, dm) \<in> set (parsed (cs @ [(i, b)]))" "m_action dm = Done" "\<not> d < i"
    using assms(2,3) unfolding issue_done_def by auto
  then show False using assms newer_parsed [OF assms(1), of i m d dm] by auto
qed

lemma fresh_claim_stands:
  assumes "newer cs [(i, b)]" "marker_parse b = Some m" "m_action m = Claim" "m_ts m = now" "0 \<le> ttl"
    "\<forall>(j, n)\<in>set (parsed cs). m_ts n \<le> now"
  shows "standing (parsed (cs @ [(i, b)])) now ttl (i, m)"
proof -
  have "\<not> is_retired i (m_owner m) (parsed (cs @ [(i, b)]))"
    using assms(2,3) newer_parsed [OF assms(1), of i m] by (fastforce simp: is_retired_def)
  moreover have "latest_ts_for (m_owner m) (parsed (cs @ [(i, b)])) = Some now"
    using assms by (auto simp: latest_ts_for_Some)
  moreover have "is_live now now ttl" using assms(5) by (simp add: is_live_def sat_sub_def i64_bot_def i64_top_def)
  ultimately show ?thesis using assms(3) by (simp add: standing_def)
qed

text \<open>An owner that adds no marker does not come back to life.\<close>

lemma standing_append_other:
  assumes "standing (parsed (cs @ new)) now' ttl (i, m)" "now \<le> now'"
    "\<forall>(j, n)\<in>set (parsed cs). m_ts n \<le> now" "\<forall>(j, n)\<in>set (parsed new). m_owner n \<noteq> m_owner m"
  shows "standing (parsed cs) now ttl (i, m)"
proof -
  have "latest_ts_for (m_owner m) (parsed (cs @ new)) = latest_ts_for (m_owner m) (parsed cs)"
    using assms(4) latest_ts_for_append by simp
  with assms(1) obtain t where t: "latest_ts_for (m_owner m) (parsed cs) = Some t" "is_live t now' ttl"
    by (auto simp: standing_def split: option.splits)
  then have "t \<le> now" using assms(3) by (auto simp: latest_ts_for_Some)
  then have "is_live t now ttl" using expired_stays_expired t(2) assms(2) by blast
  then show ?thesis using assms(1) t(1) by (simp add: standing_def is_retired_append)
qed

section \<open>Claims of the protocol\<close>

text \<open>The comment an instance claims an issue with; \<open>item=\<close> is still unknown then.\<close>

definition claim_marker :: "string \<Rightarrow> string \<Rightarrow> string \<Rightarrow> int \<Rightarrow> marker" where
  "claim_marker me item hash now = \<lparr>m_action = Claim, m_owner = me, m_item = item, m_ts = now, m_hash = hash\<rparr>"

definition claim_note :: "string \<Rightarrow> marker \<Rightarrow> string" where
  "claim_note me m = ''Claiming this for `'' @ me @ ''`.'' @ [CHR 0x0A, CHR 0x0A] @ marker_render m"

definition new_claim :: "string \<Rightarrow> string \<Rightarrow> int \<Rightarrow> string" where
  "new_claim me hash now = claim_note me (claim_marker me ''pending'' hash now)"

text \<open>An id a marker can carry: accepted by the check, not empty, and without comment delimiters.\<close>

definition good_owner :: "string \<Rightarrow> bool" where
  "good_owner me \<longleftrightarrow> me \<noteq> [] \<and> clean me"

lemma validated_clean:
  "validate_instance_id me = Inr () \<Longrightarrow> CHR ''<'' \<notin> set me \<Longrightarrow> CHR ''>'' \<notin> set me \<Longrightarrow> clean me"
  by (auto simp: validate_instance_id_Inr clean_def invalid_instance_char_def)

lemma parse_claim_note: "readable m \<Longrightarrow> marker_parse (claim_note me m) = Some (read_back m)"
  using parse_rendered [of m "''Claiming this for `'' @ me @ ''`.'' @ [CHR 0x0A, CHR 0x0A]"]
  by (simp add: claim_note_def)

lemma parse_new_claim_read_back:
  assumes "good_owner me" "clean hash" "in_i64 now"
  shows "marker_parse (new_claim me hash now) = Some (read_back (claim_marker me ''pending'' hash now))"
  unfolding new_claim_def
  by (rule parse_claim_note)
    (use assms in \<open>simp add: readable_def claim_marker_def good_owner_def clean_def is_space_def\<close>)

lemma parse_new_claim:
  "good_owner me \<Longrightarrow> clean hash \<Longrightarrow> in_i64 now \<Longrightarrow> hash \<noteq> [] \<Longrightarrow>
     marker_parse (new_claim me hash now) = Some (claim_marker me ''pending'' hash now)"
  by (simp add: parse_new_claim_read_back read_back_def claim_marker_def marker_field_def good_owner_def)

lemma new_claim_parses:
  assumes "good_owner me" "clean hash" "in_i64 now"
  obtains m where "marker_parse (new_claim me hash now) = Some m" "m_action m = Claim" "m_owner m = me" "m_ts m = now"
  using parse_new_claim_read_back [OF assms] assms(1) that
  by (simp add: read_back_def claim_marker_def marker_field_def good_owner_def)

section \<open>Who wins\<close>

lemma holder_is_kept:
  assumes "distinct (map fst (cs @ new))" "newer cs new" "resolve_holder cs now ttl = Some h" "now \<le> now'"
    "\<forall>(i, m)\<in>set (parsed cs). m_ts m \<le> now"
    "undisputed (holder_owner h) (parsed cs) (parsed new)"
    "latest_ts_for (holder_owner h) (parsed (cs @ new)) = Some t" "is_live t now' ttl"
  shows "resolve_holder (cs @ new) now' ttl = Some h"
proof -
  let ?all = "parsed (cs @ new)"
  have no_done: "\<forall>(i, m)\<in>set (parsed new). m_action m \<noteq> Done"
    using assms(6) by (fastforce simp: undisputed_def)
  have own: "(comment_id h, holder_marker h) \<in> set (parsed cs)" "standing (parsed cs) now ttl (comment_id h, holder_marker h)"
    using resolve_holder_SomeD [OF assms(3)] by blast+
  have kept: "\<not> is_retired i (holder_owner h) ?all" if "\<not> is_retired i (holder_owner h) (parsed cs)" for i
    using that assms(6) by (fastforce simp: is_retired_def undisputed_def split: if_splits)
  have "standing ?all now' ttl (comment_id h, holder_marker h)"
    using own(2) assms(7,8) kept by (simp add: standing_def)
  moreover have "comment_id h \<le> j" if n: "(j, n) \<in> set ?all" "standing ?all now' ttl (j, n)" for j n
  proof (cases "(j, n) \<in> set (parsed cs)")
    case True
    have "standing (parsed cs) now ttl (j, n)"
    proof (cases "m_owner n = holder_owner h")
      case True
      then show ?thesis using n(2) own(2) by (simp add: standing_def is_retired_append)
    next
      case False
      have "m_action n = Claim" using n(2) by (simp add: standing_def)
      then have "\<forall>(k, q)\<in>set (parsed new). m_owner q \<noteq> m_owner n"
        using assms(6) False \<open>(j, n) \<in> set (parsed cs)\<close> by (fastforce simp: undisputed_def split: if_splits)
      then show ?thesis using standing_append_other n(2) assms(4,5) by blast
    qed
    then show ?thesis using resolve_holder_SomeD(4) [OF assms(3)] True by fastforce
  next
    case False
    then have "comment_id h < j" using n(1) own(1) newer_parsed [OF assms(2)] by auto
    then show ?thesis by simp
  qed
  moreover have "\<not> issue_done ?all"
    using issue_done_append [OF assms(2) _ no_done] resolve_holder_SomeD(1) [OF assms(3)] by blast
  ultimately show ?thesis using resolve_holder_SomeI [OF assms(1), of "comment_id h" "holder_marker h"] own(1) by simp
qed

text \<open>A claimant wins with its lowest unretired claim, old or new, once it has posted again.\<close>

lemma lowest_claim_wins:
  assumes "newer cs [(i, b)]" "marker_parse b = Some m" "m_action m = Claim" "m_owner m = me"
    "\<forall>(j, n)\<in>set (parsed cs). m_ts n \<le> now"
    "(k, n) \<in> set (parsed (cs @ [(i, b)]))" "standing (parsed (cs @ [(i, b)])) now ttl (k, n)"
    "\<And>l p. (l, p) \<in> set (parsed cs) \<Longrightarrow> m_owner p \<noteq> me \<Longrightarrow> l \<le> k \<Longrightarrow> \<not> standing (parsed cs) now ttl (l, p)"
  shows "i_hold (cs @ [(i, b)]) me now ttl"
proof -
  let ?all = "parsed (cs @ [(i, b)])"
  have "filter (standing ?all now ttl) ?all \<noteq> []" using assms(6,7) by (metis filter_empty_conv)
  then obtain h where h: "resolve_holder (cs @ [(i, b)]) now ttl = Some h"
    using new_claim_not_done [OF assms(1-3)]
    by (cases "min_by_id (filter (standing ?all now ttl) ?all)") (auto simp: resolve_holder_def Let_def min_by_id_None)
  have "holder_owner h = me"
  proof (rule ccontr)
    assume other: "holder_owner h \<noteq> me"
    then have hin: "(comment_id h, holder_marker h) \<in> set (parsed cs)"
      using resolve_holder_SomeD(2) [OF h] assms(2,4) by auto
    have "standing (parsed cs) now ttl (comment_id h, holder_marker h)"
      using standing_append_other [OF resolve_holder_SomeD(3) [OF h] order_refl assms(5)] assms(2,4) other by simp
    moreover have "comment_id h \<le> k" using resolve_holder_SomeD(4) [OF h assms(6,7)] by simp
    ultimately show False using assms(8) [OF hin other] by blast
  qed
  then show ?thesis using h by (simp add: i_hold_def)
qed

lemma lone_claim_wins:
  assumes "newer cs [(i, new_claim me hash now)]" "good_owner me" "clean hash" "in_i64 now" "0 \<le> ttl"
    "\<forall>(j, n)\<in>set (parsed cs). m_ts n \<le> now"
    "\<forall>c\<in>set (parsed cs). m_owner (snd c) \<noteq> me \<longrightarrow> \<not> standing (parsed cs) now ttl c"
  shows "i_hold (cs @ [(i, new_claim me hash now)]) me now ttl"
proof -
  obtain m where m: "marker_parse (new_claim me hash now) = Some m" "m_action m = Claim" "m_owner m = me" "m_ts m = now"
    by (rule new_claim_parses [OF assms(2-4)])
  show ?thesis
    by (rule lowest_claim_wins [OF assms(1) m(1-3) assms(6) _ fresh_claim_stands [OF assms(1) m(1,2,4) assms(5,6)]])
      (use m(1) assms(7) in auto)
qed

lemma revived_claim_wins:
  assumes "newer cs [(j, new_claim me hash now)]" "good_owner me" "clean hash" "in_i64 now" "0 \<le> ttl"
    "\<forall>(j, n)\<in>set (parsed cs). m_ts n \<le> now"
    "(k, n) \<in> set (parsed cs)" "m_action n = Claim" "m_owner n = me" "\<not> is_retired k me (parsed cs)"
    "\<And>l p. (l, p) \<in> set (parsed cs) \<Longrightarrow> m_owner p \<noteq> me \<Longrightarrow> l \<le> k \<Longrightarrow> \<not> standing (parsed cs) now ttl (l, p)"
  shows "i_hold (cs @ [(j, new_claim me hash now)]) me now ttl"
proof -
  let ?all = "parsed (cs @ [(j, new_claim me hash now)])"
  obtain m where m: "marker_parse (new_claim me hash now) = Some m" "m_action m = Claim" "m_owner m = me" "m_ts m = now"
    by (rule new_claim_parses [OF assms(2-4)])
  have live: "latest_ts_for me ?all = Some now" using assms(6) m by (auto simp: latest_ts_for_Some)
  have "standing ?all now ttl (j, m)" by (rule fresh_claim_stands [OF assms(1) m(1,2,4) assms(5,6)])
  then have "is_live now now ttl" using live m(3) by (simp add: standing_def)
  moreover have "\<not> is_retired k me ?all" using assms(10) m(1,2) by (simp add: is_retired_append) (simp add: is_retired_def)
  ultimately have st: "standing ?all now ttl (k, n)" using assms(8,9) live by (simp add: standing_def)
  show ?thesis
    by (rule lowest_claim_wins [OF assms(1) m(1-3) assms(6) _ st]) (use assms(7,11) in auto)
qed

text \<open>
  C31: \<^bold>\<open>A live claim is not displaced.\<close> While the holder of an issue stays live, comments that are
  posted later leave it the holder, provided nobody reports the issue done, the holder does not cede,
  no owner with an earlier claim speaks up again, and no marker is dated in the future.
\<close>

theorem live_holder_not_displaced:
  assumes "distinct (map fst (cs @ new))" "newer cs new"
    and "resolve_holder cs now ttl = Some h" "now \<le> now'"
    and "\<forall>(i, m)\<in>set (parsed cs). m_ts m \<le> now"
    and "undisputed (holder_owner h) (parsed cs) (parsed new)"
    and "owner_liveness (cs @ new) (holder_owner h) = Some t" "is_live t now' ttl"
  shows "resolve_holder (cs @ new) now' ttl = Some h"
  using holder_is_kept [OF assms(1-6)] assms(7,8) by (simp add: owner_liveness_def)

text \<open>A holder and a late rival: the rival's claim changes nothing while the holder is live.\<close>

definition sample_log :: comments where
  "sample_log = [(3, ''please fix''), (5, new_claim ''flared:a'' ''h'' 100)]"

lemma parse_claims [simp]:
  "marker_parse (new_claim ''flared:a'' ''h'' 100) = Some (claim_marker ''flared:a'' ''pending'' ''h'' 100)"
  "marker_parse (new_claim ''flared:b'' ''h'' 150) = Some (claim_marker ''flared:b'' ''pending'' ''h'' 150)"
  by (rule parse_new_claim; simp add: good_owner_def clean_def is_space_def in_i64_def i64_bot_def i64_top_def)+

lemma sample_markers: "parsed sample_log = [(5, claim_marker ''flared:a'' ''pending'' ''h'' 100)]"
proof -
  have "marker_parse ''please fix'' = None" by code_simp
  then show ?thesis by (simp add: sample_log_def)
qed

lemma live_holder_not_displaced_witness:
  "resolve_holder (sample_log @ [(9, new_claim ''flared:b'' ''h'' 150)]) 160 100 = resolve_holder sample_log 120 100"
proof -
  define h where "h = \<lparr>comment_id = 5, holder_marker = claim_marker ''flared:a'' ''pending'' ''h'' 100\<rparr>"
  have h: "resolve_holder sample_log 120 100 = Some h"
    unfolding h_def resolve_holder_def sample_markers by code_simp
  have "resolve_holder (sample_log @ [(9, new_claim ''flared:b'' ''h'' 150)]) 160 100 = Some h"
  proof (rule live_holder_not_displaced [OF _ _ h, where t = 100])
    show "distinct (map fst (sample_log @ [(9, new_claim ''flared:b'' ''h'' 150)]))" by (simp add: sample_log_def)
    show "newer sample_log [(9, new_claim ''flared:b'' ''h'' 150)]" by (simp add: newer_def sample_log_def)
    show "undisputed (holder_owner h) (parsed sample_log) (parsed [(9, new_claim ''flared:b'' ''h'' 150)])"
      by (simp add: undisputed_def sample_markers claim_marker_def h_def)
    show "owner_liveness (sample_log @ [(9, new_claim ''flared:b'' ''h'' 150)]) (holder_owner h) = Some 100"
      by (simp add: owner_liveness_def sample_markers latest_ts_for_def claim_marker_def h_def)
    show "is_live 100 160 100" by code_simp
  qed (simp_all add: sample_markers claim_marker_def)
  then show ?thesis using h by simp
qed

text \<open>
  \<^bold>\<open>An uncontended claim wins.\<close> An instance that finds an issue without a holder, posts its
  claim, and reads the comments back holds the issue, if nobody posted in between and the issue was
  never reported done.
\<close>

lemma uncontended_claim_wins:
  assumes "validate_instance_id me = Inr ()" "me \<noteq> []" "CHR ''<'' \<notin> set me" "CHR ''>'' \<notin> set me"
    and "clean hash" "in_i64 now" "0 \<le> ttl"
    and "newer cs [(i, new_claim me hash now)]"
    and "\<forall>(j, n)\<in>set (parsed cs). m_ts n \<le> now \<and> m_action n \<noteq> Done"
    and "resolve_holder cs now ttl = None"
  shows "i_hold (cs @ [(i, new_claim me hash now)]) me now ttl"
proof (rule lone_claim_wins [OF assms(8) _ assms(5-7)])
  show "good_owner me" using validated_clean assms(1-4) by (simp add: good_owner_def)
  have "\<not> issue_done (parsed cs)" using assms(9) by (fastforce simp: issue_done_def)
  then show "\<forall>c\<in>set (parsed cs). m_owner (snd c) \<noteq> me \<longrightarrow> \<not> standing (parsed cs) now ttl c"
    using assms(10) by (simp add: resolve_holder_None)
qed (use assms(9) in fastforce)

lemma uncontended_claim_wins_example:
  "i_hold (sample_log @ [(9, new_claim ''flared:b'' ''h'' 250)]) ''flared:b'' 250 100"
proof (rule uncontended_claim_wins)
  show "validate_instance_id ''flared:b'' = Inr ()"
    by (simp add: validate_instance_id_Inr invalid_instance_char_def is_space_def is_control_def)
  show "clean ''h''" "in_i64 250" by (simp_all add: clean_def is_space_def in_i64_def i64_bot_def i64_top_def)
  show "newer sample_log [(9, new_claim ''flared:b'' ''h'' 250)]" by (simp add: newer_def sample_log_def)
  show "\<forall>(j, n)\<in>set (parsed sample_log). m_ts n \<le> 250 \<and> m_action n \<noteq> Done"
    by (simp add: sample_markers claim_marker_def)
  show "resolve_holder sample_log 250 100 = None"
    unfolding resolve_holder_def sample_markers by code_simp
qed simp_all

text \<open>
  \<^bold>\<open>A returning claimant wins too.\<close> If an owner with an expired claim on the issue and a
  newcomer both find it free, both post a claim and both read it back, then both find that they hold
  it, even if every listing is complete: the new claim revives the old one, whose id is lower.
\<close>

lemma returning_claimant_wins_too:
  assumes "good_owner fresh" "good_owner old" "old \<noteq> fresh" "clean hash" "in_i64 now" "0 \<le> ttl"
    and "newer cs [(i, new_claim fresh hash now)]" "i < j"
    and "\<forall>(k, n)\<in>set (parsed cs). m_ts n \<le> now \<and> m_action n \<notin> {Done, Cede} \<and> m_owner n \<noteq> fresh"
    and "\<exists>(k, n)\<in>set (parsed cs). m_action n = Claim \<and> m_owner n = old"
    and "resolve_holder cs now ttl = None"
  shows "i_hold (cs @ [(i, new_claim fresh hash now)]) fresh now ttl \<and>
    i_hold (cs @ [(i, new_claim fresh hash now), (j, new_claim old hash now)]) old now ttl"
proof
  let ?cs = "cs @ [(i, new_claim fresh hash now)]"
  have "\<not> issue_done (parsed cs)" using assms(9) by (fastforce simp: issue_done_def)
  then have none: "\<forall>c\<in>set (parsed cs). \<not> standing (parsed cs) now ttl c"
    using assms(11) by (simp add: resolve_holder_None)
  have past: "\<forall>(j, n)\<in>set (parsed cs). m_ts n \<le> now" using assms(9) by fastforce
  show "i_hold ?cs fresh now ttl"
    by (rule lone_claim_wins [OF assms(7,1,4,5,6) past]) (use none in auto)
  obtain f where f: "marker_parse (new_claim fresh hash now) = Some f" "m_action f = Claim" "m_owner f = fresh" "m_ts f = now"
    by (rule new_claim_parses [OF assms(1,4,5)])
  obtain k n where kn: "(k, n) \<in> set (parsed cs)" "m_action n = Claim" "m_owner n = old" using assms(10) by blast
  have "k < i" using newer_parsed [OF assms(7), of i f k n] f(1) kn(1) by simp
  have silent: "\<not> standing (parsed ?cs) now ttl (l, p)" if "(l, p) \<in> set (parsed ?cs)" "l \<le> k" for l p
  proof -
    have "(l, p) \<in> set (parsed cs)" using that f(1) \<open>k < i\<close> by auto
    moreover have "m_owner p \<noteq> fresh" using calculation assms(9) by fastforce
    ultimately show ?thesis using standing_append_other [OF _ order_refl past, of "[(i, new_claim fresh hash now)]" ttl l p] f none by auto
  qed
  have "i_hold (?cs @ [(j, new_claim old hash now)]) old now ttl"
  proof (rule revived_claim_wins [OF _ assms(2,4,5,6) _ _ kn(2,3)])
    show "newer ?cs [(j, new_claim old hash now)]" using assms(7,8) by (fastforce simp: newer_def)
    show "\<forall>(j, n)\<in>set (parsed ?cs). m_ts n \<le> now" using past f by auto
    show "\<not> is_retired k old (parsed ?cs)" using assms(9) f by (fastforce simp: is_retired_def)
  qed (use kn(1) silent in auto)
  then show "i_hold (cs @ [(i, new_claim fresh hash now), (j, new_claim old hash now)]) old now ttl" by simp
qed

lemma returning_claimant_wins_too_example:
  "i_hold (sample_log @ [(9, new_claim ''flared:b'' ''h'' 250)]) ''flared:b'' 250 100 \<and>
   i_hold (sample_log @ [(9, new_claim ''flared:b'' ''h'' 250), (10, new_claim ''flared:a'' ''h'' 250)]) ''flared:a'' 250 100"
proof (rule returning_claimant_wins_too)
  show "good_owner ''flared:b''" "good_owner ''flared:a''" "clean ''h''" "in_i64 250"
    by (simp_all add: good_owner_def clean_def is_space_def in_i64_def i64_bot_def i64_top_def)
  show "newer sample_log [(9, new_claim ''flared:b'' ''h'' 250)]" by (simp add: newer_def sample_log_def)
  show "resolve_holder sample_log 250 100 = None"
    unfolding resolve_holder_def sample_markers by code_simp
qed (simp_all add: sample_markers claim_marker_def)

end
