(* ===== verification/Bridge_World.thy ===== *)
theory Bridge_World
  imports Bridge_Claim Claim_Ledger Json_Value
begin

text \<open>
  What a tick of the bridge works on: GitHub, which is a parameter (a record of its calls on an
  abstract state, so that other instances may act between any two calls), the items of the backend
  database (\<^verbatim>\<open>crates/agentflare-backend/src/item/crud.rs\<close>, \<^verbatim>\<open>state.rs\<close>, \<^verbatim>\<open>src/github/bridge/items.rs\<close>),
  and the local claim ledger (\<^verbatim>\<open>src/claims.rs\<close>). Reads of the databases succeed; each write of the
  item database may fail.
\<close>

section \<open>GitHub\<close>

datatype gh_error =
    GhNoAuth string
  | GhForbidden string
  | GhNotFound
  | GhRateLimited string
  | GhHttp nat string
  | GhTransport string
  | GhParse string

record issue =
  is_number :: nat
  is_state :: string
  is_title :: string
  is_body :: "string option"
  is_labels :: "string list"
  is_association :: string

record 'g github =
  gh_list :: "string \<Rightarrow> string \<Rightarrow> 'g \<Rightarrow> (gh_error + issue list) \<times> 'g"
  gh_comments :: "nat \<Rightarrow> 'g \<Rightarrow> (gh_error + comments) \<times> 'g"
  gh_post :: "nat \<Rightarrow> string \<Rightarrow> 'g \<Rightarrow> (gh_error + nat) \<times> 'g"
  gh_edit :: "nat \<Rightarrow> string \<Rightarrow> 'g \<Rightarrow> (gh_error + unit) \<times> 'g"
  gh_close :: "nat \<Rightarrow> 'g \<Rightarrow> (gh_error + unit) \<times> 'g"
  gh_add_labels :: "nat \<Rightarrow> string list \<Rightarrow> 'g \<Rightarrow> (gh_error + unit) \<times> 'g"
  gh_remove_label :: "nat \<Rightarrow> string \<Rightarrow> 'g \<Rightarrow> (gh_error + unit) \<times> 'g"

text \<open>Rate limits and missing rights end a tick quietly.\<close>

definition is_soft :: "gh_error \<Rightarrow> bool" where
  "is_soft e = (case e of GhRateLimited _ \<Rightarrow> True | GhNoAuth _ \<Rightarrow> True | GhForbidden _ \<Rightarrow> True | _ \<Rightarrow> False)"

definition gh_error_text :: "gh_error \<Rightarrow> string" where
  "gh_error_text e =
     (case e of
        GhNoAuth m \<Rightarrow> m | GhForbidden m \<Rightarrow> m | GhRateLimited m \<Rightarrow> m
      | GhNotFound \<Rightarrow> ''not found''
      | GhHttp st body \<Rightarrow> ''GitHub HTTP '' @ show_nat st @ '': '' @ body
      | GhTransport m \<Rightarrow> ''transport error: '' @ m
      | GhParse m \<Rightarrow> ''response parse error: '' @ m)"

definition is_trusted_author_association :: "string \<Rightarrow> bool" where
  "is_trusted_author_association a \<longleftrightarrow> a = ''OWNER'' \<or> a = ''MEMBER'' \<or> a = ''COLLABORATOR''"

definition is_trusted_author :: "issue \<Rightarrow> bool" where
  "is_trusted_author i = is_trusted_author_association (is_association i)"

section \<open>Items and their states\<close>

text \<open>The states that are not deleted, in the order of their sequence numbers.\<close>

record state_row =
  sr_id :: string
  sr_project :: string
  sr_group :: string

text \<open>
  The items that are not deleted, in list order. The metadata is the value its text parses to,
  \<open>None\<close> for text that is not JSON.
\<close>

record bridge_item =
  bi_id :: string
  bi_project :: string
  bi_state :: string
  bi_name :: string
  bi_description :: string
  bi_assignee :: "string option"
  bi_labels :: "string list"
  bi_started :: "int option"
  bi_completed :: "int option"
  bi_source :: "string option"
  bi_external :: "string option"
  bi_metadata :: "json option"

record handoff_payload =
  hp_content :: string
  hp_completed :: string
  hp_remaining :: string
  hp_thread :: "string option"

text \<open>
  The setting of one tick: the configuration, the tables a tick only reads, and as parameters the
  hash function, the decoder of an embedded payload, the ids that are drawn, and which writes of
  the item database succeed.
\<close>

record 'g bridge =
  br_github :: "'g github"
  br_repo :: string
  br_project :: string
  br_instance :: string
  br_ttl :: int
  br_max_claims :: nat
  br_queue_label :: string
  br_work_agent :: "string option"
  br_machine :: string
  br_states :: "state_row list"
  br_labels :: "(string \<times> string) list"
  br_digest :: "string \<Rightarrow> string"
  br_decode :: "string \<Rightarrow> handoff_payload option"
  br_canonical :: "string \<Rightarrow> string"
  br_new_id :: "nat \<Rightarrow> string"
  br_write_ok :: "nat \<Rightarrow> bool"

record 'g bridge_state =
  bs_gh :: 'g
  bs_items :: "bridge_item list"
  bs_ledger :: claim_db
  bs_writes :: nat
  bs_claimed :: "nat list"
  bs_ceded :: "nat list"
  bs_exported :: "nat list"

definition external_source :: string where
  "external_source = ''github''"

definition last_hash_key :: string where
  "last_hash_key = ''github_last_hash''"

definition list_by_project :: "'g bridge \<Rightarrow> 'g bridge_state \<Rightarrow> bridge_item list" where
  "list_by_project b s = filter (\<lambda>i. bi_project i = br_project b) (bs_items s)"

definition find_by_issue :: "'g bridge \<Rightarrow> nat \<Rightarrow> 'g bridge_state \<Rightarrow> bridge_item option" where
  "find_by_issue b n s =
     find (\<lambda>i. bi_source i = Some external_source \<and> bi_external i = Some (show_nat n)) (list_by_project b s)"

definition metadata_object :: "json option \<Rightarrow> (string \<times> json) list" where
  "metadata_object m = (case m of Some (JObj es) \<Rightarrow> es | _ \<Rightarrow> [])"

definition last_hash :: "bridge_item \<Rightarrow> string option" where
  "last_hash i =
     (case map_of (metadata_object (bi_metadata i)) last_hash_key of Some (JStr h) \<Rightarrow> Some h | _ \<Rightarrow> None)"

definition state_row_of :: "'g bridge \<Rightarrow> string \<Rightarrow> state_row option" where
  "state_row_of b sid = find (\<lambda>r. sr_id r = sid) (br_states b)"

definition first_in_group :: "'g bridge \<Rightarrow> string \<Rightarrow> state_row option" where
  "first_in_group b g = find (\<lambda>r. sr_project r = br_project b \<and> sr_group r = g) (br_states b)"

definition state_id_for_group :: "'g bridge \<Rightarrow> string \<Rightarrow> string option" where
  "state_id_for_group b g = map_option sr_id (first_in_group b g)"

definition is_active :: "'g bridge \<Rightarrow> bridge_item \<Rightarrow> bool" where
  "is_active b i =
     (case state_row_of b (bi_state i) of
        None \<Rightarrow> True
      | Some r \<Rightarrow> sr_group r \<noteq> ''cancelled'' \<and> sr_group r \<noteq> ''completed'')"

definition is_ceded :: "'g bridge \<Rightarrow> bridge_item \<Rightarrow> bool" where
  "is_ceded b i = (case state_row_of b (bi_state i) of None \<Rightarrow> False | Some r \<Rightarrow> sr_group r = ''cancelled'')"

definition items_tracked :: "'g bridge \<Rightarrow> 'g bridge_state \<Rightarrow> bridge_item list" where
  "items_tracked b s =
     filter (is_active b) (filter (\<lambda>i. bi_source i = Some external_source) (list_by_project b s))"

definition held_count :: "'g bridge \<Rightarrow> 'g bridge_state \<Rightarrow> nat" where
  "held_count b s = length (items_tracked b s)"

section \<open>Writes of the item database\<close>

definition write_items ::
  "'g bridge \<Rightarrow> bridge_item list \<Rightarrow> 'g bridge_state \<Rightarrow> (string + unit) \<times> 'g bridge_state" where
  "write_items b xs s =
     (if br_write_ok b (bs_writes s) then (Inr (), s\<lparr>bs_items := xs, bs_writes := Suc (bs_writes s)\<rparr>)
      else (Inl ''database is locked'', s\<lparr>bs_writes := Suc (bs_writes s)\<rparr>))"

definition find_item :: "string \<Rightarrow> 'g bridge_state \<Rightarrow> bridge_item option" where
  "find_item iid s = find (\<lambda>i. bi_id i = iid) (bs_items s)"

definition edit_item :: "string \<Rightarrow> (bridge_item \<Rightarrow> bridge_item) \<Rightarrow> bridge_item list \<Rightarrow> bridge_item list" where
  "edit_item iid f xs = map (\<lambda>i. if bi_id i = iid then f i else i) xs"

text \<open>Moving an item sets the time stamp that goes with the group, and clears none.\<close>

definition enter_state :: "state_row \<Rightarrow> int \<Rightarrow> bridge_item \<Rightarrow> bridge_item" where
  "enter_state r now i =
     (if sr_group r = ''started'' then i\<lparr>bi_state := sr_id r, bi_started := Some now\<rparr>
      else if sr_group r = ''completed'' then i\<lparr>bi_state := sr_id r, bi_completed := Some now\<rparr>
      else i\<lparr>bi_state := sr_id r\<rparr>)"

definition update_state ::
  "'g bridge \<Rightarrow> string \<Rightarrow> string \<Rightarrow> int \<Rightarrow> 'g bridge_state \<Rightarrow> (string + unit) \<times> 'g bridge_state" where
  "update_state b iid sid now s =
     (case find_item iid s of
        None \<Rightarrow> (Inl (''not found: '' @ iid), s)
      | Some i \<Rightarrow>
          (case state_row_of b sid of
             None \<Rightarrow> (Inl (''not found: '' @ sid), s)
           | Some r \<Rightarrow>
               if sr_project r \<noteq> bi_project i then (Inl (''state '' @ sid @ '' belongs to a different project''), s)
               else write_items b (edit_item iid (enter_state r now) (bs_items s)) s))"

definition set_hash :: "string option \<Rightarrow> bridge_item \<Rightarrow> bridge_item" where
  "set_hash h i =
     (let es = metadata_object (bi_metadata i)
      in i\<lparr>bi_metadata := Some (JObj (case h of
             Some x \<Rightarrow> AList.update last_hash_key (JStr x) es
           | None \<Rightarrow> AList.delete last_hash_key es))\<rparr>)"

definition store_hash ::
  "'g bridge \<Rightarrow> string \<Rightarrow> string option \<Rightarrow> 'g bridge_state \<Rightarrow> (string + unit) \<times> 'g bridge_state" where
  "store_hash b iid h s =
     (case find_item iid s of
        None \<Rightarrow> (Inl (''not found: '' @ iid), s)
      | Some i \<Rightarrow> write_items b (edit_item iid (set_hash h) (bs_items s)) s)"

text \<open>A new item under a drawn id; a missing description is empty, missing metadata an empty object.\<close>

definition create_item ::
  "'g bridge \<Rightarrow> bridge_item \<Rightarrow> 'g bridge_state \<Rightarrow> (string + bridge_item) \<times> 'g bridge_state" where
  "create_item b i s =
     (case state_row_of b (bi_state i) of
        None \<Rightarrow> (Inl (''not found: '' @ bi_state i), s)
      | Some r \<Rightarrow>
          if sr_project r \<noteq> bi_project i then (Inl (''state '' @ bi_state i @ '' belongs to a different project''), s)
          else
            (let i' = i\<lparr>bi_id := br_new_id b (bs_writes s), bi_assignee := map_option (br_canonical b) (bi_assignee i)\<rparr>
             in case write_items b (bs_items s @ [i']) s of
                  (Inl e, s') \<Rightarrow> (Inl e, s')
                | (Inr u, s') \<Rightarrow> (Inr i', s')))"

section \<open>Content hashes\<close>

definition claimed_label_prefix :: string where
  "claimed_label_prefix = ''claimed:''"

definition content_labels :: "issue \<Rightarrow> string list" where
  "content_labels i = filter (\<lambda>n. \<not> prefix claimed_label_prefix n) (is_labels i)"

text \<open>Byte-wise order of labels, and the text that is digested: each part is closed by a zero byte.\<close>

definition str_le :: "string \<Rightarrow> string \<Rightarrow> bool" where
  "str_le x y = lexordp_eq (map (of_char :: char \<Rightarrow> nat) x) (map of_char y)"

fun insert_str :: "string \<Rightarrow> string list \<Rightarrow> string list" where
  "insert_str x [] = [x]"
| "insert_str x (y # ys) = (if str_le x y then x # y # ys else y # insert_str x ys)"

definition hash_input :: "string \<Rightarrow> string \<Rightarrow> string \<Rightarrow> string list \<Rightarrow> string" where
  "hash_input title body st labels =
     concat (map (\<lambda>x. x @ [CHR 0x00]) ([title, body, st] @ foldr insert_str labels []))"

definition content_hash :: "'g bridge \<Rightarrow> string \<Rightarrow> string \<Rightarrow> string \<Rightarrow> string list \<Rightarrow> string" where
  "content_hash b title body st labels = br_digest b (hash_input title body st labels)"

definition issue_hash :: "'g bridge \<Rightarrow> issue \<Rightarrow> string" where
  "issue_hash b i =
     content_hash b (is_title i) (case is_body i of None \<Rightarrow> [] | Some t \<Rightarrow> t) (is_state i) (content_labels i)"

definition export_hash :: "'g bridge \<Rightarrow> bridge_item \<Rightarrow> issue \<Rightarrow> string" where
  "export_hash b it i =
     content_hash b (bi_name it) (bi_description it)
       (if bi_completed it \<noteq> None then ''closed'' else ''open'') (content_labels i)"

section \<open>The payload of a handoff\<close>

definition payload_prefix :: string where
  "payload_prefix = ''<!-- agentflare:handoff:v1 ''"

definition strip_suffix :: "string \<Rightarrow> string \<Rightarrow> string option" where
  "strip_suffix p s = map_option rev (strip_prefix (rev p) (rev s))"

definition trim_end :: "string \<Rightarrow> string" where
  "trim_end s = rev (dropWhile is_space (rev s))"

definition extract_payload :: "'g bridge \<Rightarrow> string \<Rightarrow> handoff_payload option" where
  "extract_payload b body =
     (case strip_suffix '' -->'' (trim_end body) of
        None \<Rightarrow> None
      | Some front \<Rightarrow>
          (case after_last payload_prefix front of
             None \<Rightarrow> None
           | Some encoded \<Rightarrow> br_decode b encoded))"

end
