(* ===== verification/Bridge_Tick.thy ===== *)
theory Bridge_Tick
  imports Bridge_World
begin

text \<open>
  One poll of the bridge, \<^verbatim>\<open>src/github/bridge/tick.rs\<close>: re-verify the claims held (heartbeat or cede),
  export the items that changed, then claim new work up to the headroom. A step takes the state and
  returns a value or the error that ends the tick, with the state it leaves; the report of the tick is
  part of the state, so that what was done before an error stays reported.
\<close>

section \<open>Sequencing\<close>

text \<open>The \<open>?\<close> operator, and a call of GitHub.\<close>

definition tick_then ::
  "('s \<Rightarrow> ('e + 'a) \<times> 's) \<Rightarrow> ('a \<Rightarrow> 's \<Rightarrow> ('e + 'b) \<times> 's) \<Rightarrow> 's \<Rightarrow> ('e + 'b) \<times> 's" where
  "tick_then m k s = (case m s of (Inl e, s') \<Rightarrow> (Inl e, s') | (Inr a, s') \<Rightarrow> k a s')"

definition on_github ::
  "('g \<Rightarrow> (gh_error + 'a) \<times> 'g) \<Rightarrow> 'g bridge_state \<Rightarrow> (gh_error + 'a) \<times> 'g bridge_state" where
  "on_github f s = (let (r, g) = f (bs_gh s) in (r, s\<lparr>bs_gh := g\<rparr>))"

text \<open>A best-effort call: a failure is only logged.\<close>

definition ignoring :: "('s \<Rightarrow> ('e + 'a) \<times> 's) \<Rightarrow> 's \<Rightarrow> 's" where
  "ignoring m s = snd (m s)"

text \<open>An error of the item database ends the tick as a parse error.\<close>

definition db_step :: "('s \<Rightarrow> (string + 'a) \<times> 's) \<Rightarrow> 's \<Rightarrow> (gh_error + 'a) \<times> 's" where
  "db_step m s = (case m s of (Inl e, s') \<Rightarrow> (Inl (GhParse e), s') | (Inr a, s') \<Rightarrow> (Inr a, s'))"

section \<open>Calls of GitHub\<close>

definition comment_pairs :: "'g bridge \<Rightarrow> nat \<Rightarrow> 'g bridge_state \<Rightarrow> (gh_error + comments) \<times> 'g bridge_state" where
  "comment_pairs b n = on_github (gh_comments (br_github b) n)"

definition post_comment :: "'g bridge \<Rightarrow> nat \<Rightarrow> string \<Rightarrow> 'g bridge_state \<Rightarrow> (gh_error + nat) \<times> 'g bridge_state" where
  "post_comment b n body = on_github (gh_post (br_github b) n body)"

definition update_comment :: "'g bridge \<Rightarrow> nat \<Rightarrow> string \<Rightarrow> 'g bridge_state \<Rightarrow> (gh_error + unit) \<times> 'g bridge_state" where
  "update_comment b c body = on_github (gh_edit (br_github b) c body)"

definition marker_for :: "'g bridge \<Rightarrow> action \<Rightarrow> string \<Rightarrow> string \<Rightarrow> int \<Rightarrow> marker" where
  "marker_for b a item hash now =
     \<lparr>m_action = a, m_owner = br_instance b, m_item = item, m_ts = now, m_hash = hash\<rparr>"

text \<open>A line of text, an empty line, and the marker.\<close>

definition noted :: "string \<Rightarrow> marker \<Rightarrow> string" where
  "noted note m = note @ [CHR 0x0A, CHR 0x0A] @ marker_render m"

section \<open>The local claim ledger\<close>

definition claims_ledger :: claim_ledger where
  "claims_ledger = \<lparr>ledger_table = ''claims'', key_columns = [''repo'', ''target'']\<rparr>"

definition ledger_key :: "'g bridge \<Rightarrow> nat \<Rightarrow> claim_key" where
  "ledger_key b n = [br_repo b, ''issue#'' @ show_nat n]"

definition ledger_acquire :: "'g bridge \<Rightarrow> nat \<Rightarrow> int \<Rightarrow> 'g bridge_state \<Rightarrow> 'g bridge_state" where
  "ledger_acquire b n now s =
     s\<lparr>bs_ledger := fst (acquire claims_ledger (bs_ledger s) (ledger_key b n) (br_instance b) now (br_ttl b))\<rparr>"

definition ledger_heartbeat :: "'g bridge \<Rightarrow> nat \<Rightarrow> int \<Rightarrow> 'g bridge_state \<Rightarrow> 'g bridge_state" where
  "ledger_heartbeat b n now s =
     s\<lparr>bs_ledger := fst (heartbeat claims_ledger (bs_ledger s) (ledger_key b n) (br_instance b) now)\<rparr>"

definition ledger_release :: "'g bridge \<Rightarrow> nat \<Rightarrow> 'g bridge_state \<Rightarrow> 'g bridge_state" where
  "ledger_release b n s =
     s\<lparr>bs_ledger := fst (release claims_ledger (bs_ledger s) (ledger_key b n) (br_instance b))\<rparr>"

definition ledger_done :: "'g bridge \<Rightarrow> nat \<Rightarrow> int \<Rightarrow> 'g bridge_state \<Rightarrow> 'g bridge_state" where
  "ledger_done b n now s =
     s\<lparr>bs_ledger := fst (claim_done claims_ledger (bs_ledger s) (ledger_key b n) (br_instance b) now)\<rparr>"

section \<open>Heartbeat and cede\<close>

definition heartbeat_due_after :: "int \<Rightarrow> int" where
  "heartbeat_due_after ttl = max 1 (ttl div 2)"

definition bridge_heartbeat ::
  "'g bridge \<Rightarrow> comments \<Rightarrow> nat \<Rightarrow> holder \<Rightarrow> bridge_item \<Rightarrow> int \<Rightarrow> 'g bridge_state
     \<Rightarrow> (gh_error + bool) \<times> 'g bridge_state" where
  "bridge_heartbeat b cs n held it now s =
     (let s = ledger_heartbeat b n now s;
          due = (case owner_liveness cs (br_instance b) of
                   None \<Rightarrow> True
                 | Some ts \<Rightarrow> heartbeat_due_after (br_ttl b) \<le> sat_sub now ts)
      in if \<not> due then (Inr False, s)
         else tick_then
                (update_comment b (comment_id held)
                  (claim_note (br_instance b) (marker_for b Claim (bi_id it) (m_hash (holder_marker held)) now)))
                (\<lambda>_ s. (Inr True, s)) s)"

definition claimed_label :: "'g bridge \<Rightarrow> string" where
  "claimed_label b = claimed_label_prefix @ br_instance b"

definition drop_claimed_label :: "'g bridge \<Rightarrow> nat \<Rightarrow> 'g bridge_state \<Rightarrow> 'g bridge_state" where
  "drop_claimed_label b n = ignoring (on_github (gh_remove_label (br_github b) n (claimed_label b)))"

definition long_dash :: string where
  "long_dash = [CHR 0xE2, CHR 0x80, CHR 0x94]"

definition cede_note :: "'g bridge \<Rightarrow> bridge_item \<Rightarrow> int \<Rightarrow> string" where
  "cede_note b it now =
     noted (CHR ''`'' # br_instance b @ ''` is ceding this '' @ long_dash @ '' another instance holds an earlier claim.'')
       (marker_for b Cede (bi_id it) [] now)"

text \<open>Cancelled locally first; a failed announcement puts the item back.\<close>

definition cede ::
  "'g bridge \<Rightarrow> nat \<Rightarrow> bridge_item \<Rightarrow> int \<Rightarrow> 'g bridge_state \<Rightarrow> (gh_error + unit) \<times> 'g bridge_state" where
  "cede b n it now s =
     (case state_id_for_group b ''cancelled'' of
        None \<Rightarrow> (Inr (), s)
      | Some cancelled \<Rightarrow>
          (case update_state b (bi_id it) cancelled now s of
             (Inl e, s) \<Rightarrow> (Inr (), s)
           | (Inr u, s) \<Rightarrow>
               (case post_comment b n (cede_note b it now) s of
                  (Inl e, s) \<Rightarrow> (Inl e, ignoring (update_state b (bi_id it) (bi_state it) now) s)
                | (Inr c, s) \<Rightarrow> (Inr (), drop_claimed_label b n (ledger_release b n s)))))"

section \<open>Export\<close>

definition close_if_still_open :: "'g bridge \<Rightarrow> issue \<Rightarrow> 'g bridge_state \<Rightarrow> 'g bridge_state" where
  "close_if_still_open b i s =
     (if is_state i = ''closed'' then s else ignoring (on_github (gh_close (br_github b) (is_number i))) s)"

definition export_note :: "'g bridge \<Rightarrow> bridge_item \<Rightarrow> issue \<Rightarrow> int \<Rightarrow> string" where
  "export_note b it i now =
     (if bi_completed it \<noteq> None
      then noted (''Completed by `'' @ br_instance b @ ''`.'') (marker_for b Done (bi_id it) (export_hash b it i) now)
      else noted (''Progress from `'' @ br_instance b @ ''`.'') (marker_for b Progress (bi_id it) (export_hash b it i) now))"

definition export_if_dirty ::
  "'g bridge \<Rightarrow> issue \<Rightarrow> bridge_item \<Rightarrow> int \<Rightarrow> 'g bridge_state \<Rightarrow> (gh_error + bool) \<times> 'g bridge_state" where
  "export_if_dirty b i it now s =
     (let completed = (bi_completed it \<noteq> None); hash = export_hash b it i
      in if last_hash it = Some hash
         then (Inr False, if completed then close_if_still_open b i s else s)
         else
           (case store_hash b (bi_id it) (Some hash) s of
              (Inl e, s) \<Rightarrow> (Inr False, s)
            | (Inr u, s) \<Rightarrow>
                (case post_comment b (is_number i) (export_note b it i now) s of
                   (Inl e, s) \<Rightarrow> (Inl e, ignoring (store_hash b (bi_id it) (last_hash it)) s)
                 | (Inr c, s) \<Rightarrow>
                     (Inr True,
                      if completed
                      then drop_claimed_label b (is_number i)
                             (ledger_done b (is_number i) now (close_if_still_open b i s))
                      else s))))"

section \<open>Claiming\<close>

text \<open>The item an issue becomes; its id is drawn when it is created.\<close>

definition item_of_issue :: "'g bridge \<Rightarrow> issue \<Rightarrow> string \<Rightarrow> bridge_item" where
  "item_of_issue b i sid =
     (let payload = Option.bind (is_body i) (extract_payload b);
          ready = (case br_work_agent b of None \<Rightarrow> None | Some _ \<Rightarrow> map_of (br_labels b) ''ready-for-work'')
      in \<lparr>bi_id = [], bi_project = br_project b, bi_state = sid, bi_name = is_title i,
          bi_description = (case payload of
                              Some p \<Rightarrow> hp_content p
                            | None \<Rightarrow> (case is_body i of Some t \<Rightarrow> t | None \<Rightarrow> [])),
          bi_assignee = Some (case br_work_agent b of Some a \<Rightarrow> a | None \<Rightarrow> br_instance b),
          bi_labels = (case ready of Some l \<Rightarrow> [l] | None \<Rightarrow> []),
          bi_started = None, bi_completed = None,
          bi_source = Some external_source, bi_external = Some (show_nat (is_number i)),
          bi_metadata = Some (JObj (case payload of
              None \<Rightarrow> []
            | Some p \<Rightarrow> [(''completed'', JStr (hp_completed p)), (''remaining'', JStr (hp_remaining p))] @
                (case hp_thread p of None \<Rightarrow> [] | Some t \<Rightarrow> [(''thread_id'', JStr t)])))\<rparr>)"

text \<open>The item behind a won issue: a ceded one is taken up again, otherwise it is created.\<close>

definition adopt_or_create ::
  "'g bridge \<Rightarrow> issue \<Rightarrow> string \<Rightarrow> int \<Rightarrow> 'g bridge_state \<Rightarrow> (string + bridge_item) \<times> 'g bridge_state" where
  "adopt_or_create b i sid now s =
     (case find_by_issue b (is_number i) s of
        Some existing \<Rightarrow>
          (case update_state b (bi_id existing) sid now s of
             (Inl e, s) \<Rightarrow> (Inl e, s)
           | (Inr u, s) \<Rightarrow> (Inr existing, s))
      | None \<Rightarrow> create_item b (item_of_issue b i sid) s)"

text \<open>
  Everything that follows once the item exists: the ledger row, the item named in the claim comment,
  the export hash of what was just imported, and the labels.
\<close>

definition settle_claim ::
  "'g bridge \<Rightarrow> issue \<Rightarrow> nat option \<Rightarrow> int \<Rightarrow> bridge_item \<Rightarrow> 'g bridge_state
     \<Rightarrow> (gh_error + bool) \<times> 'g bridge_state" where
  "settle_claim b i claim_comment now created s =
     (let s = ledger_acquire b (is_number i) now s;
          s = (case claim_comment of
                 None \<Rightarrow> s
               | Some c \<Rightarrow> ignoring (update_comment b c
                   (claim_note (br_instance b) (marker_for b Claim (bi_id created) (issue_hash b i) now))) s);
          s = ignoring (store_hash b (bi_id created) (Some (export_hash b created i))) s
      in tick_then (on_github (gh_add_labels (br_github b) (is_number i) [claimed_label b]))
           (\<lambda>_ s. (Inr True,
              ignoring (on_github (gh_add_labels (br_github b) (is_number i) [''beacon:'' @ br_machine b])) s)) s)"

definition record_claim ::
  "'g bridge \<Rightarrow> issue \<Rightarrow> nat option \<Rightarrow> int \<Rightarrow> 'g bridge_state \<Rightarrow> (gh_error + bool) \<times> 'g bridge_state" where
  "record_claim b i claim_comment now s =
     (case state_id_for_group b ''started'' of
        None \<Rightarrow> (Inr False, s)
      | Some sid \<Rightarrow>
          tick_then (db_step (adopt_or_create b i sid now)) (settle_claim b i claim_comment now) s)"

definition try_claim ::
  "'g bridge \<Rightarrow> issue \<Rightarrow> int \<Rightarrow> 'g bridge_state \<Rightarrow> (gh_error + bool) \<times> 'g bridge_state" where
  "try_claim b i now s =
     (if \<not> is_trusted_author i then (Inr False, s)
      else tick_then (comment_pairs b (is_number i))
        (\<lambda>before. case resolve_holder before now (br_ttl b) of
            Some h \<Rightarrow>
              if holder_owner h = br_instance b then record_claim b i (Some (comment_id h)) now
              else (\<lambda>s. (Inr False, s))
          | None \<Rightarrow>
              tick_then (post_comment b (is_number i) (new_claim (br_instance b) (issue_hash b i) now))
                (\<lambda>c. tick_then (comment_pairs b (is_number i))
                  (\<lambda>after. if \<not> i_hold after (br_instance b) now (br_ttl b) then (\<lambda>s. (Inr False, s))
                           else record_claim b i (Some c) now)))
        s)"

section \<open>The tick\<close>

fun reverify :: "'g bridge \<Rightarrow> int \<Rightarrow> issue list \<Rightarrow> 'g bridge_state \<Rightarrow> (gh_error + unit) \<times> 'g bridge_state" where
  "reverify b now [] s = (Inr (), s)"
| "reverify b now (i # is) s =
     (case find_by_issue b (is_number i) s of
        None \<Rightarrow> reverify b now is s
      | Some it \<Rightarrow>
          if \<not> is_active b it then reverify b now is s
          else tick_then (comment_pairs b (is_number i))
            (\<lambda>cs. case resolve_holder cs now (br_ttl b) of
                Some h \<Rightarrow>
                  if holder_owner h = br_instance b
                  then tick_then (bridge_heartbeat b cs (is_number i) h it now) (\<lambda>_. reverify b now is)
                  else tick_then (cede b (is_number i) it now)
                         (\<lambda>_ s. reverify b now is (s\<lparr>bs_ceded := bs_ceded s @ [is_number i]\<rparr>))
              | None \<Rightarrow>
                  tick_then (cede b (is_number i) it now)
                    (\<lambda>_ s. reverify b now is (s\<lparr>bs_ceded := bs_ceded s @ [is_number i]\<rparr>)))
            s)"

fun export_all :: "'g bridge \<Rightarrow> int \<Rightarrow> issue list \<Rightarrow> 'g bridge_state \<Rightarrow> (gh_error + unit) \<times> 'g bridge_state" where
  "export_all b now [] s = (Inr (), s)"
| "export_all b now (i # is) s =
     (if is_number i \<in> set (bs_ceded s) then export_all b now is s
      else (case find_by_issue b (is_number i) s of
              None \<Rightarrow> export_all b now is s
            | Some it \<Rightarrow>
                if is_ceded b it then export_all b now is s
                else tick_then (export_if_dirty b i it now)
                  (\<lambda>r s. export_all b now is
                     (if r then s\<lparr>bs_exported := bs_exported s @ [is_number i]\<rparr> else s)) s))"

fun claim_all ::
  "'g bridge \<Rightarrow> int \<Rightarrow> nat \<Rightarrow> issue list \<Rightarrow> 'g bridge_state \<Rightarrow> (gh_error + unit) \<times> 'g bridge_state" where
  "claim_all b now remaining [] s = (Inr (), s)"
| "claim_all b now remaining (i # is) s =
     (if remaining = 0 then (Inr (), s)
      else if is_number i \<in> set (bs_ceded s) then claim_all b now remaining is s
      else if (case find_by_issue b (is_number i) s of None \<Rightarrow> False | Some it \<Rightarrow> \<not> is_ceded b it)
      then claim_all b now remaining is s
      else tick_then (try_claim b i now)
        (\<lambda>r s. if r then claim_all b now (remaining - 1) is (s\<lparr>bs_claimed := bs_claimed s @ [is_number i]\<rparr>)
               else claim_all b now remaining is s) s)"

definition run_inner :: "'g bridge \<Rightarrow> int \<Rightarrow> 'g bridge_state \<Rightarrow> (gh_error + unit) \<times> 'g bridge_state" where
  "run_inner b now =
     tick_then (on_github (gh_list (br_github b) ''open'' (br_queue_label b)))
       (\<lambda>queued.
          tick_then (reverify b now queued)
            (\<lambda>_. tick_then (export_all b now queued)
              (\<lambda>_ s. claim_all b now (br_max_claims b - held_count b s) queued s)))"

record tick_report =
  rp_claimed :: "nat list"
  rp_ceded :: "nat list"
  rp_exported :: "nat list"
  rp_soft_error :: "string option"

definition report_of :: "'g bridge_state \<Rightarrow> string option \<Rightarrow> tick_report" where
  "report_of s e =
     \<lparr>rp_claimed = bs_claimed s, rp_ceded = bs_ceded s, rp_exported = bs_exported s, rp_soft_error = e\<rparr>"

definition run_once :: "'g bridge \<Rightarrow> int \<Rightarrow> 'g bridge_state \<Rightarrow> (string + tick_report) \<times> 'g bridge_state" where
  "run_once b now s =
     (case run_inner b now (s\<lparr>bs_claimed := [], bs_ceded := [], bs_exported := []\<rparr>) of
        (Inr u, s) \<Rightarrow> (Inr (report_of s None), s)
      | (Inl e, s) \<Rightarrow> if is_soft e then (Inr (report_of s (Some (gh_error_text e))), s)
                      else (Inl (gh_error_text e), s))"

end
