(* ===== verification/Bridge_Tick_Props.thy ===== *)
theory Bridge_Tick_Props
  imports Bridge_Tick_Safe
begin

text \<open>
  Properties of the bridge's tick: capacity, cede, export and heartbeat, over any GitHub that keeps
  the documented law the heartbeat relies on.
\<close>

section \<open>Capacity\<close>

text \<open>
  C33: \<^bold>\<open>A tick respects the capacity.\<close> Whatever GitHub answers and whichever writes fail, a tick
  leaves no more items held than the configured maximum, or than were held before if that was more.
\<close>

theorem tick_respects_capacity:
  assumes "inj (br_new_id b)" "distinct (item_ids s)" "\<forall>k. br_new_id b k \<notin> set (item_ids s)"
  shows "held_count b (snd (run_once b now s)) \<le> max (held_count b s) (br_max_claims b)"
proof -
  have "at_most b (held_count b s) (s\<lparr>bs_claimed := [], bs_ceded := [], bs_exported := []\<rparr>)"
    using assms by (simp add: at_most_def ids_ok_def item_ids_def held_count_filter)
  then have "at_most b (max (held_count b s) (br_max_claims b))
      (snd (run_inner b now (s\<lparr>bs_claimed := [], bs_ceded := [], bs_exported := []\<rparr>)))"
    by (rule run_inner_at_most)
  then show ?thesis by (auto simp: run_once_def at_most_def split: prod.split sum.split)
qed

section \<open>An example\<close>

definition edit_comment :: "nat \<Rightarrow> string \<Rightarrow> comments \<Rightarrow> comments" where
  "edit_comment c body cs = map (\<lambda>(i, t). if i = c then (i, body) else (i, t)) cs"

text \<open>A GitHub whose state is the comments of each issue; ids count up from 100.\<close>

definition example_github :: "(nat \<Rightarrow> comments) github" where
  "example_github =
     \<lparr>gh_list = (\<lambda>_ _ g. (Inr [], g)),
      gh_comments = (\<lambda>n g. (Inr (g n), g)),
      gh_post = (\<lambda>n body g. (Inr (100 + length (g n)), g(n := g n @ [(100 + length (g n), body)]))),
      gh_edit = (\<lambda>c body g. (Inr (), \<lambda>n. edit_comment c body (g n))),
      gh_close = (\<lambda>_ g. (Inr (), g)),
      gh_add_labels = (\<lambda>_ _ g. (Inr (), g)),
      gh_remove_label = (\<lambda>_ _ g. (Inr (), g))\<rparr>"

definition example_item :: bridge_item where
  "example_item =
     \<lparr>bi_id = ''i1'', bi_project = ''p'', bi_state = ''doing'', bi_name = ''n'', bi_description = ''d'',
      bi_assignee = None, bi_labels = [], bi_started = Some 1, bi_completed = None,
      bi_source = Some ''github'', bi_external = Some ''7'', bi_metadata = Some (JObj [])\<rparr>"

definition example_issue :: issue where
  "example_issue =
     \<lparr>is_number = 7, is_state = ''open'', is_title = ''n'', is_body = None, is_labels = [],
      is_association = ''OWNER''\<rparr>"

definition example_bridge :: "(nat \<Rightarrow> comments) bridge" where
  "example_bridge =
     \<lparr>br_github = example_github, br_repo = ''o/r'', br_project = ''p'', br_instance = ''flared:a'', br_ttl = 100,
      br_max_claims = 2, br_queue_label = ''agentflare'', br_work_agent = None, br_machine = ''m'',
      br_states = [\<lparr>sr_id = ''doing'', sr_project = ''p'', sr_group = ''started''\<rparr>,
                   \<lparr>sr_id = ''dropped'', sr_project = ''p'', sr_group = ''cancelled''\<rparr>],
      br_labels = [], br_digest = (\<lambda>_. ''h''), br_decode = (\<lambda>_. None), br_canonical = (\<lambda>a. a),
      br_new_id = (\<lambda>k. replicate (k + 3) CHR ''x''), br_write_ok = (\<lambda>_. True)\<rparr>"

definition example_state :: "(nat \<Rightarrow> comments) bridge_state" where
  "example_state =
     \<lparr>bs_gh = (\<lambda>_. []), bs_items = [example_item], bs_ledger = [], bs_writes = 0, bs_claimed = [], bs_ceded = [],
      bs_exported = []\<rparr>"

lemma tick_respects_capacity_witness:
  "held_count example_bridge (snd (run_once example_bridge 150 example_state)) \<le> max (held_count example_bridge example_state) 2"
proof -
  have "inj (br_new_id example_bridge)" by (auto simp: inj_def example_bridge_def)
  moreover have "distinct (item_ids example_state)" by (simp add: item_ids_def example_state_def)
  moreover have "\<forall>k. br_new_id example_bridge k \<notin> set (item_ids example_state)"
    by (simp add: item_ids_def example_state_def example_bridge_def example_item_def replicate_add numeral_3_eq_3)
  ultimately show ?thesis
    using tick_respects_capacity [of example_bridge example_state 150] by (simp add: example_bridge_def)
qed

section \<open>Ceding\<close>

lemma on_github_frame: "on_github f s = (r, t) \<Longrightarrow> bs_items t = bs_items s \<and> bs_writes t = bs_writes s"
  by (auto simp: on_github_def split: prod.splits)

lemma find_item_cong: "bs_items t = bs_items s \<Longrightarrow> find_item iid t = find_item iid s"
  by (simp add: find_item_def)

lemma drop_claimed_label_items [simp]: "bs_items (drop_claimed_label b n s) = bs_items s"
  "bs_writes (drop_claimed_label b n s) = bs_writes s"
  by (simp_all add: drop_claimed_label_def ignoring_def)

lemma ledger_items [simp]:
  "bs_items (ledger_release b n s) = bs_items s" "bs_items (ledger_done b n now s) = bs_items s"
  by (simp_all add: ledger_release_def ledger_done_def)

lemma state_row_of_group:
  assumes "distinct (map sr_id (br_states b))" "state_id_for_group b g = Some sid"
  shows "\<exists>r. state_row_of b sid = Some r \<and> sr_group r = g"
proof -
  obtain r where r: "find (\<lambda>r. sr_project r = br_project b \<and> sr_group r = g) (br_states b) = Some r" "sid = sr_id r"
    using assms(2) by (auto simp: state_id_for_group_def first_in_group_def)
  then have mem: "r \<in> set (br_states b)" "sr_group r = g" by (auto dest: find_Some_iff_mem)
  have "distinct (map sr_id xs) \<Longrightarrow> r \<in> set xs \<Longrightarrow> find (\<lambda>q. sr_id q = sr_id r) xs = Some r" for xs
    by (induction xs) auto
  then show ?thesis using mem assms(1) r(2) by (auto simp: state_row_of_def)
qed

text \<open>
  \<^bold>\<open>A cede is announced only for a cancelled item.\<close> If a cede touched GitHub, then either it
  succeeded and the local item is cancelled, so that no later tick cedes it again; or it ends the tick
  with an error, and the item is back in the state it had, if that write succeeds.
\<close>

lemma cede_announces_only_cancelled:
  assumes "cede b n it now s = (r, s')" "bs_gh s' \<noteq> bs_gh s"
    and "distinct (map sr_id (br_states b))" "find_item (bi_id it) s = Some it"
    and "state_row_of b (bi_state it) = Some q" "sr_project q = bi_project it"
  shows "\<exists>i. find_item (bi_id it) s' = Some i \<and>
    (case r of Inr _ \<Rightarrow> is_ceded b i
     | Inl _ \<Rightarrow> br_write_ok b (Suc (bs_writes s)) \<longrightarrow> bi_state i = bi_state it)"
proof -
  obtain c where c: "state_id_for_group b ''cancelled'' = Some c"
    using assms(1,2) by (cases "state_id_for_group b ''cancelled''") (auto simp: cede_def)
  obtain u t where u: "update_state b (bi_id it) c now s = (u, t)" by fastforce
  have "\<exists>v. u = Inr v"
    using assms(1,2) c u update_state_Inl [of b "bi_id it" c now s _ t] by (cases u) (fastforce simp: cede_def)+
  then obtain r1 where r1: "state_row_of b c = Some r1"
    "t = s\<lparr>bs_items := edit_item (bi_id it) (enter_state r1 now) (bs_items s), bs_writes := Suc (bs_writes s)\<rparr>"
    using u update_state_Inr [of b "bi_id it" c now s _ t] by metis
  have group: "sr_group r1 = ''cancelled''" using state_row_of_group [OF assms(3) c] r1(1) by simp
  have "sr_id r1 = c" using r1(1) by (auto simp: state_row_of_def dest: find_Some_iff_mem)
  then have ced: "is_ceded b (enter_state r1 now it)" using r1(1) group by (simp add: is_ceded_def)
  have ft: "find_item (bi_id it) t = Some (enter_state r1 now it)" unfolding r1(2) by (rule find_item_edit [OF assms(4)]) simp
  obtain p g where pc: "post_comment b n (cede_note b it now) t = (p, g)" by fastforce
  have fg: "find_item (bi_id it) g = Some (enter_state r1 now it)" "bs_writes g = Suc (bs_writes s)"
    using on_github_frame [OF pc [unfolded post_comment_def]] ft r1(2) find_item_cong by (metis, simp)
  show ?thesis
  proof (cases p)
    case (Inr x)
    then have "r = Inr () \<and> bs_items s' = bs_items g"
      using assms(1) c u \<open>\<exists>v. u = Inr v\<close> pc by (auto simp: cede_def)
    then show ?thesis using fg(1) ced find_item_cong by fastforce
  next
    case (Inl e)
    then have s': "r = Inl e" "s' = snd (update_state b (bi_id it) (bi_state it) now g)"
      using assms(1) c u \<open>\<exists>v. u = Inr v\<close> pc by (auto simp: cede_def ignoring_def)
    show ?thesis
    proof (cases "br_write_ok b (Suc (bs_writes s))")
      case True
      then have "s' = g\<lparr>bs_items := edit_item (bi_id it) (enter_state q now) (bs_items g), bs_writes := Suc (bs_writes g)\<rparr>"
        using s'(2) fg assms(5,6) by (simp add: update_state_def write_items_def)
      then have "find_item (bi_id it) s' = Some (enter_state q now (enter_state r1 now it))"
        using find_item_edit [OF fg(1), of "enter_state q now"] by simp
      moreover have "sr_id q = bi_state it" using assms(5) by (auto simp: state_row_of_def dest: find_Some_iff_mem)
      ultimately show ?thesis using s'(1) by simp
    next
      case False
      then have "s' = g\<lparr>bs_writes := Suc (bs_writes g)\<rparr>"
        using s'(2) fg assms(5,6) by (simp add: update_state_def write_items_def)
      then have "find_item (bi_id it) s' = Some (enter_state r1 now it)" using fg(1) by (simp add: find_item_def)
      then show ?thesis using s'(1) False by simp
    qed
  qed
qed

lemma cede_announces_only_cancelled_example:
  "\<exists>i. find_item ''i1'' (snd (cede example_bridge 7 example_item 150 example_state)) = Some i \<and> is_ceded example_bridge i"
proof -
  let ?s = "snd (cede example_bridge 7 example_item 150 example_state)"
  have r: "cede example_bridge 7 example_item 150 example_state = (Inr (), ?s)"
    by (simp add: cede_def state_id_for_group_def first_in_group_def update_state_def find_item_def write_items_def
        state_row_of_def post_comment_def on_github_def example_github_def example_bridge_def example_state_def example_item_def)
  have "bs_gh ?s 7 \<noteq> []"
    by (simp add: cede_def state_id_for_group_def first_in_group_def update_state_def find_item_def write_items_def
        state_row_of_def post_comment_def on_github_def ledger_release_def drop_claimed_label_def ignoring_def
        example_github_def example_bridge_def example_state_def example_item_def)
  then have "bs_gh ?s \<noteq> bs_gh example_state" by (auto simp: example_state_def)
  moreover have "distinct (map sr_id (br_states example_bridge))" by (simp add: example_bridge_def)
  moreover have "find_item (bi_id example_item) example_state = Some example_item"
    by (simp add: find_item_def example_state_def)
  moreover have "state_row_of example_bridge (bi_state example_item) = Some \<lparr>sr_id = ''doing'', sr_project = ''p'', sr_group = ''started''\<rparr>"
    by (simp add: state_row_of_def example_bridge_def example_item_def)
  ultimately show ?thesis
    using cede_announces_only_cancelled [OF r] by (fastforce simp: example_item_def)
qed

section \<open>Exporting\<close>

lemma last_hash_set_hash: "last_hash (set_hash (Some h) i) = Some h"
  by (simp add: last_hash_def set_hash_def Let_def metadata_object_def update_conv)

lemma export_hash_set_hash [simp]: "export_hash b (set_hash h i) is = export_hash b i is"
  by (simp add: export_hash_def)

text \<open>
  \<^bold>\<open>An export is posted once.\<close> After an export that posted a comment, the stored item says so:
  exporting it again, at any later time and for the same issue, posts nothing; for a completed item it
  still tries to close the issue.
\<close>

lemma export_posts_once:
  assumes "export_if_dirty b i it now s = (Inr True, s')" "find_item (bi_id it) s = Some it"
  shows "\<exists>it'. find_item (bi_id it) s' = Some it' \<and>
    export_if_dirty b i it' later s' = (Inr False, if bi_completed it \<noteq> None then close_if_still_open b i s' else s')"
proof -
  let ?h = "export_hash b it i"
  obtain u t where u: "store_hash b (bi_id it) (Some ?h) s = (u, t)" by fastforce
  obtain p g where pc: "post_comment b (is_number i) (export_note b it i now) t = (p, g)" by fastforce
  have "\<exists>v. u = Inr v" "\<exists>c. p = Inr c" and items: "bs_items s' = bs_items g"
    using assms(1) u pc
    by (auto simp: export_if_dirty_def Let_def close_if_still_open_def ignoring_def split: if_splits sum.splits)
  then have "t = s\<lparr>bs_items := edit_item (bi_id it) (set_hash (Some ?h)) (bs_items s), bs_writes := Suc (bs_writes s)\<rparr>"
    using u assms(2) by (auto simp: store_hash_def write_items_def split: if_splits)
  then have "find_item (bi_id it) t = Some (set_hash (Some ?h) it)" using find_item_edit [OF assms(2)] by simp
  then have "find_item (bi_id it) s' = Some (set_hash (Some ?h) it)"
    using on_github_frame [OF pc [unfolded post_comment_def]] items find_item_cong by metis
  then show ?thesis by (simp add: export_if_dirty_def Let_def last_hash_set_hash)
qed

lemma export_posts_once_witness:
  "\<exists>it'. find_item ''i1'' (snd (export_if_dirty example_bridge example_issue example_item 150 example_state)) = Some it' \<and>
     fst (export_if_dirty example_bridge example_issue it' 160
       (snd (export_if_dirty example_bridge example_issue example_item 150 example_state))) = Inr False"
proof -
  let ?s = "snd (export_if_dirty example_bridge example_issue example_item 150 example_state)"
  have r: "export_if_dirty example_bridge example_issue example_item 150 example_state = (Inr True, ?s)"
    by (simp add: export_if_dirty_def Let_def last_hash_def metadata_object_def store_hash_def find_item_def
        write_items_def post_comment_def on_github_def example_github_def example_bridge_def example_state_def
        example_item_def)
  have "find_item (bi_id example_item) example_state = Some example_item"
    by (simp add: find_item_def example_state_def)
  from export_posts_once [OF r this, of 160] r show ?thesis by (auto simp: example_item_def)
qed

text \<open>
  The close is retried as long as the issue is open, also when it was opened again by hand: an item
  that was ever completed keeps its time stamp, whatever state it is moved to.
\<close>

lemma reopened_issue_is_closed_again:
  assumes "bi_completed it \<noteq> None" "last_hash it = Some (export_hash b it i)" "is_state i \<noteq> ''closed''"
  shows "export_if_dirty b i it now s = (Inr False, ignoring (on_github (gh_close (br_github b) (is_number i))) s)"
  using assms by (simp add: export_if_dirty_def Let_def close_if_still_open_def)

lemma completed_stamp_stays: "bi_completed i \<noteq> None \<Longrightarrow> bi_completed (enter_state r now i) \<noteq> None"
  by (simp add: enter_state_def)

section \<open>The heartbeat\<close>

text \<open>What decides about done and retired claims: ids, actions and owners.\<close>

definition outline :: "markers \<Rightarrow> (nat \<times> action \<times> string) list" where
  "outline ps = map (\<lambda>(i, m). (i, m_action m, m_owner m)) ps"

lemma outline_mem:
  "outline ps = outline qs \<Longrightarrow> (i, m) \<in> set ps \<Longrightarrow> \<exists>n. (i, n) \<in> set qs \<and> m_action n = m_action m \<and> m_owner n = m_owner m"
proof -
  assume eq: "outline ps = outline qs" and mem: "(i, m) \<in> set ps"
  from mem have "(i, m_action m, m_owner m) \<in> set (outline ps)" by (force simp: outline_def)
  then show ?thesis unfolding eq by (auto simp: outline_def)
qed

lemma is_retired_outline: "outline ps = outline qs \<Longrightarrow> is_retired i ow ps \<Longrightarrow> is_retired i ow qs"
  unfolding is_retired_def by (fastforce dest: outline_mem)

lemma issue_done_outline:
  assumes "outline ps = outline qs" "issue_done ps"
  shows "issue_done qs"
proof -
  obtain d dm c cm where d: "(d, dm) \<in> set ps" "m_action dm = Done"
    and c: "(c, cm) \<in> set ps" "m_action cm = Claim" "m_owner cm = m_owner dm" "c < d"
    and last: "\<not> (\<exists>(c, cm)\<in>set ps. m_action cm = Claim \<and> d < c)"
    using assms(2) unfolding issue_done_def by blast
  obtain dn where dn: "(d, dn) \<in> set qs" "m_action dn = Done" "m_owner dn = m_owner dm"
    using outline_mem [OF assms(1) d(1)] d(2) by auto
  obtain cn where cn: "(c, cn) \<in> set qs" "m_action cn = Claim" "m_owner cn = m_owner dm"
    using outline_mem [OF assms(1) c(1)] c(2,3) by auto
  have "\<not> d < e" if "(e, en) \<in> set qs" "m_action en = Claim" for e en
    using last outline_mem [OF assms(1) [symmetric] that(1)] that(2) by auto
  then have "\<not> (\<exists>(e, en)\<in>set qs. m_action en = Claim \<and> d < e)" by auto
  moreover have "\<exists>(e, en)\<in>set qs. m_action en = Claim \<and> m_owner en = m_owner dn \<and> e < d"
    using cn dn(3) c(4) by auto
  ultimately show ?thesis using dn(1,2) unfolding issue_done_def by blast
qed

lemma refreshed_holder_holds:
  assumes "distinct (map fst cs')" "outline (parsed cs') = outline (parsed cs)"
    and h: "resolve_holder cs now ttl = Some h" and "now \<le> now'"
    and "\<forall>(i, m)\<in>set (parsed cs). m_ts m \<le> now"
    and "latest_ts_for (holder_owner h) (parsed cs') = Some t" "is_live t now' ttl"
    and "\<And>ow. ow \<noteq> holder_owner h \<Longrightarrow> latest_ts_for ow (parsed cs') = latest_ts_for ow (parsed cs)"
  shows "i_hold cs' (holder_owner h) now' ttl"
proof -
  have own: "(comment_id h, holder_marker h) \<in> set (parsed cs)" "standing (parsed cs) now ttl (comment_id h, holder_marker h)"
    using resolve_holder_SomeD [OF h] by blast+
  obtain m where m: "(comment_id h, m) \<in> set (parsed cs')" "m_action m = Claim" "m_owner m = holder_owner h"
    using outline_mem [OF assms(2) [symmetric] own(1)] own(2) by (auto simp: standing_def)
  have stand: "standing (parsed cs') now' ttl (comment_id h, m)"
    using m(2,3) assms(6,7) own(2) is_retired_outline [OF assms(2)] by (auto simp: standing_def)
  have not_done: "\<not> issue_done (parsed cs')"
    using issue_done_outline [OF assms(2)] resolve_holder_SomeD(1) [OF h] by blast
  have least: "comment_id h \<le> j" if n: "(j, n) \<in> set (parsed cs')" "standing (parsed cs') now' ttl (j, n)" for j n
  proof -
    obtain p where p: "(j, p) \<in> set (parsed cs)" "m_action p = m_action n" "m_owner p = m_owner n"
      using outline_mem [OF assms(2) n(1)] by blast
    have ret: "\<not> is_retired j (m_owner p) (parsed cs)"
      using n(2) p(3) is_retired_outline [OF assms(2) [symmetric]] by (auto simp: standing_def)
    have "standing (parsed cs) now ttl (j, p)"
    proof (cases "m_owner p = holder_owner h")
      case True
      then show ?thesis using n(2) p(2) ret own(2) by (simp add: standing_def)
    next
      case False
      then obtain q where q: "latest_ts_for (m_owner p) (parsed cs) = Some q" "is_live q now' ttl"
        using n(2) p(3) assms(8) by (auto simp: standing_def split: option.splits)
      then have "q \<le> now" using assms(5) by (auto simp: latest_ts_for_Some)
      then have "is_live q now ttl" using expired_stays_expired q(2) assms(4) by blast
      then show ?thesis using n(2) p(2) ret q(1) by (simp add: standing_def)
    qed
    then show ?thesis using resolve_holder_SomeD(4) [OF h p(1)] by simp
  qed
  have "resolve_holder cs' now' ttl = Some \<lparr>comment_id = comment_id h, holder_marker = m\<rparr>"
    by (rule resolve_holder_SomeI [OF assms(1) not_done m(1) stand least])
  then show ?thesis using m(3) by (simp add: i_hold_def)
qed

lemma parsed_edit:
  assumes "distinct (map fst cs)" "(c, m) \<in> set (parsed cs)" "marker_parse body = Some n"
  shows "parsed (edit_comment c body cs) = map (\<lambda>(i, q). if i = c then (i, n) else (i, q)) (parsed cs)"
proof -
  have mem: "(i, q) \<in> set (parsed xs) \<Longrightarrow> \<exists>t. (i, t) \<in> set xs \<and> marker_parse t = Some q" for i q and xs :: comments
    by (induction xs) (auto split: option.splits)
  obtain t where t: "(c, t) \<in> set cs" "marker_parse t = Some m" using mem [OF assms(2)] by blast
  have "\<forall>(i, u)\<in>set cs. i = c \<longrightarrow> marker_parse u \<noteq> None"
    using t assms(1) by (auto dest: eq_key_imp_eq_value)
  then show ?thesis
    using assms(3) by (induction cs) (auto simp: edit_comment_def split: option.split)
qed

lemma sat_sub_le: "0 \<le> ttl \<Longrightarrow> a - b \<le> ttl \<Longrightarrow> sat_sub a b \<le> ttl"
  by (simp add: sat_sub_def i64_bot_def)

lemma not_due_recent:
  assumes "sat_sub now t < heartbeat_due_after ttl" "t \<le> now" "0 \<le> ttl" "ttl \<le> i64_top"
  shows "now - t \<le> ttl - ttl div 2"
proof -
  have "heartbeat_due_after ttl \<le> i64_top" using assms(3,4) by (simp add: heartbeat_due_after_def i64_top_def)
  then have "sat_sub now t = now - t" using assms(1,2)
    by (auto simp: sat_sub_def i64_bot_def min_def max_def split: if_splits)
  then show ?thesis using assms(1,3) by (simp add: heartbeat_due_after_def)
qed

text \<open>
  What the heartbeat relies on: an edit that succeeds replaces the body of the comment with that id.
  \<open>view g n\<close> are the comments of issue \<open>n\<close> in GitHub's state \<open>g\<close>.
\<close>

definition edits_in_place :: "'g github \<Rightarrow> ('g \<Rightarrow> nat \<Rightarrow> comments) \<Rightarrow> bool" where
  "edits_in_place G view \<longleftrightarrow>
     (\<forall>c body g g' n. gh_edit G c body g = (Inr (), g') \<longrightarrow> view g' n = edit_comment c body (view g n))"

definition refreshed :: "'g bridge \<Rightarrow> holder \<Rightarrow> bridge_item \<Rightarrow> int \<Rightarrow> marker" where
  "refreshed b h it now = marker_for b Claim (bi_id it) (m_hash (holder_marker h)) now"

lemma bridge_heartbeat_cases:
  assumes "bridge_heartbeat b cs n h it now s = (Inr r, s')" "edits_in_place (br_github b) view"
  obtains "view (bs_gh s') k = edit_comment (comment_id h) (claim_note (br_instance b) (refreshed b h it now)) (view (bs_gh s) k)"
  | t where "owner_liveness cs (br_instance b) = Some t" "sat_sub now t < heartbeat_due_after (br_ttl b)" "bs_gh s' = bs_gh s"
proof (cases "case owner_liveness cs (br_instance b) of None \<Rightarrow> True | Some ts \<Rightarrow> heartbeat_due_after (br_ttl b) \<le> sat_sub now ts")
  case True
  let ?s = "ledger_heartbeat b n now s"
  have gh: "bs_gh ?s = bs_gh s" by (simp add: ledger_heartbeat_def)
  obtain x g where e: "gh_edit (br_github b) (comment_id h) (claim_note (br_instance b) (refreshed b h it now)) (bs_gh s) = (x, g)"
    by fastforce
  have "x = Inr () \<and> bs_gh s' = g"
    using assms(1) True e gh
    by (cases x) (auto simp: bridge_heartbeat_def Let_def tick_then_def update_comment_def on_github_def refreshed_def)
  then show thesis using that(1) e assms(2) by (simp add: edits_in_place_def)
next
  case False
  then show thesis using assms(1) that(2)
    by (auto simp: bridge_heartbeat_def Let_def ledger_heartbeat_def split: option.splits)
qed

lemma edited_claim_holds:
  assumes "resolve_holder cs now ttl = Some h" "holder_owner h = br_instance b" "distinct (map fst cs)"
    "\<forall>(i, m)\<in>set (parsed cs). m_ts m \<le> now" "readable (refreshed b h it now)" "br_instance b \<noteq> []"
    "0 \<le> ttl" "now \<le> now'" "now' \<le> now + ttl div 2"
  shows "i_hold (edit_comment (comment_id h) (claim_note (br_instance b) (refreshed b h it now)) cs) (br_instance b) now' ttl"
proof -
  let ?cs = "edit_comment (comment_id h) (claim_note (br_instance b) (refreshed b h it now)) cs"
  let ?m = "read_back (refreshed b h it now)"
  have own: "(comment_id h, holder_marker h) \<in> set (parsed cs)" "m_action (holder_marker h) = Claim"
    using resolve_holder_SomeD(2,3) [OF assms(1)] by (auto simp: standing_def)
  have ps: "parsed ?cs = map (\<lambda>(i, q). if i = comment_id h then (i, ?m) else (i, q)) (parsed cs)"
    by (rule parsed_edit [OF assms(3) own(1) parse_claim_note [OF assms(5)]])
  have m: "m_action ?m = Claim" "m_owner ?m = br_instance b" "m_ts ?m = now"
    using assms(6) by (simp_all add: read_back_def refreshed_def marker_for_def marker_field_def)
  have same: "(i, q) \<in> set (parsed cs) \<Longrightarrow> i = comment_id h \<Longrightarrow> q = holder_marker h" for i q
    using own(1) distinct_parsed [OF assms(3)] eq_key_imp_eq_value by metis
  have "outline (parsed ?cs) = outline (parsed cs)"
    unfolding ps outline_def using m own(2) assms(2) same by (auto split: prod.split)
  moreover have "latest_ts_for (holder_owner h) (parsed ?cs) = Some now"
    unfolding latest_ts_for_Some ps
  proof
    show "\<exists>(i, n)\<in>set (map (\<lambda>(i, q). if i = comment_id h then (i, ?m) else (i, q)) (parsed cs)).
        m_owner n = holder_owner h \<and> m_ts n = now"
      using own(1) m(2,3) assms(2) by (intro bexI [of _ "(comment_id h, ?m)"]) (auto intro!: image_eqI [OF _ own(1)])
    show "\<forall>(i, n)\<in>set (map (\<lambda>(i, q). if i = comment_id h then (i, ?m) else (i, q)) (parsed cs)).
        m_owner n = holder_owner h \<longrightarrow> m_ts n \<le> now"
      using m(3) assms(4) by (auto split: if_splits)
  qed
  moreover have "latest_ts_for ow (parsed ?cs) = latest_ts_for ow (parsed cs)" if "ow \<noteq> holder_owner h" for ow
  proof -
    have "(i, q) \<in> set (parsed ?cs) \<and> m_owner q = ow \<longleftrightarrow> (i, q) \<in> set (parsed cs) \<and> m_owner q = ow" for i q
      unfolding ps using that m(2) assms(2) same by force
    then have "latest_ts_for ow (parsed ?cs) = Some t \<longleftrightarrow> latest_ts_for ow (parsed cs) = Some t" for t
      unfolding latest_ts_for_Some by fast
    then show ?thesis by (metis not_None_eq)
  qed
  moreover have "is_live now now' ttl"
    using assms(7,8,9) by (auto simp: is_live_def intro!: sat_sub_le)
  moreover have "distinct (map fst ?cs)"
    using assms(3) by (simp add: edit_comment_def comp_def case_prod_beta if_distrib cong: if_cong)
  ultimately show ?thesis
    using refreshed_holder_holds [OF _ _ assms(1,8,4)] assms(2) by metis
qed

text \<open>
  C32: \<^bold>\<open>The heartbeat keeps a held claim alive.\<close> If an instance holds an issue and its heartbeat
  returns, then it still holds the issue for another half of the time to live, whether the heartbeat
  edited the claim comment or found the marker recent enough, as long as no other comment appears.
\<close>

theorem heartbeat_keeps_claim_alive:
  assumes "bridge_heartbeat b cs n h it now s = (Inr r, s')" "view (bs_gh s) n = cs"
    and "edits_in_place (br_github b) view"
    and "resolve_holder cs now (br_ttl b) = Some h" "holder_owner h = br_instance b"
    and "distinct (map fst cs)" "\<forall>(i, m)\<in>set (parsed cs). m_ts m \<le> now"
    and "readable (refreshed b h it now)" "br_instance b \<noteq> []"
    and "0 \<le> br_ttl b" "br_ttl b \<le> i64_top" "now \<le> now'" "now' \<le> now + br_ttl b div 2"
  shows "i_hold (view (bs_gh s') n) (br_instance b) now' (br_ttl b)"
proof (rule bridge_heartbeat_cases [OF assms(1,3), of n])
  assume "view (bs_gh s') n = edit_comment (comment_id h) (claim_note (br_instance b) (refreshed b h it now)) (view (bs_gh s) n)"
  then show ?thesis using edited_claim_holds [OF assms(4-10,12,13)] assms(2) by simp
next
  fix t assume t: "owner_liveness cs (br_instance b) = Some t" "sat_sub now t < heartbeat_due_after (br_ttl b)" "bs_gh s' = bs_gh s"
  then have live: "latest_ts_for (holder_owner h) (parsed cs) = Some t" using assms(5) by (simp add: owner_liveness_def)
  then have "t \<le> now" using assms(7) by (auto simp: latest_ts_for_Some)
  then have "now' - t \<le> br_ttl b" using not_due_recent [OF t(2) _ assms(10,11)] assms(13) by simp
  then have "is_live t now' (br_ttl b)"
    using \<open>t \<le> now\<close> assms(10,12) by (auto simp: is_live_def intro!: sat_sub_le)
  then have "i_hold cs (holder_owner h) now' (br_ttl b)"
    using refreshed_holder_holds [OF assms(6) refl assms(4,12,7) live] by blast
  then show ?thesis using t(3) assms(2,5) by simp
qed

lemma heartbeat_keeps_claim_alive_witness:
  "\<exists>s. fst (bridge_heartbeat example_bridge [(5, new_claim ''flared:a'' ''h'' 100)] 7
      \<lparr>comment_id = 5, holder_marker = claim_marker ''flared:a'' ''pending'' ''h'' 100\<rparr> example_item 180 s) = Inr True \<and>
    i_hold (bs_gh (snd (bridge_heartbeat example_bridge [(5, new_claim ''flared:a'' ''h'' 100)] 7
      \<lparr>comment_id = 5, holder_marker = claim_marker ''flared:a'' ''pending'' ''h'' 100\<rparr> example_item 180 s)) 7) ''flared:a'' 230 100"
proof -
  define cs where "cs = [(5 :: nat, new_claim ''flared:a'' ''h'' 100)]"
  define h where "h = \<lparr>comment_id = 5, holder_marker = claim_marker ''flared:a'' ''pending'' ''h'' 100\<rparr>"
  define s where "s = example_state\<lparr>bs_gh := (\<lambda>_. cs)\<rparr>"
  have ps: "parsed cs = [(5, claim_marker ''flared:a'' ''pending'' ''h'' 100)]" by (simp add: cs_def)
  have due: "owner_liveness cs ''flared:a'' = Some 100" by (simp add: owner_liveness_def ps latest_ts_for_def claim_marker_def)
  have r: "fst (bridge_heartbeat example_bridge cs 7 h example_item 180 s) = Inr True"
    using due
    by (simp add: bridge_heartbeat_def Let_def tick_then_def update_comment_def on_github_def example_bridge_def
        example_github_def heartbeat_due_after_def sat_sub_def i64_bot_def i64_top_def)
  obtain s' where s': "bridge_heartbeat example_bridge cs 7 h example_item 180 s = (Inr True, s')"
    using r by (metis prod.collapse)
  have "i_hold ((\<lambda>g n. g n) (bs_gh s') 7) (br_instance example_bridge) 230 (br_ttl example_bridge)"
  proof (rule heartbeat_keeps_claim_alive [OF s'])
    show "bs_gh s 7 = cs" by (simp add: s_def)
    show "edits_in_place (br_github example_bridge) (\<lambda>g n. g n)"
      by (simp add: edits_in_place_def example_bridge_def example_github_def)
    show "resolve_holder cs 180 (br_ttl example_bridge) = Some h"
      unfolding resolve_holder_def ps h_def example_bridge_def by code_simp
    show "readable (refreshed example_bridge h example_item 180)"
      by (simp add: readable_def refreshed_def marker_for_def example_bridge_def example_item_def h_def claim_marker_def
          clean_def is_space_def in_i64_def i64_bot_def i64_top_def)
    show "\<forall>(i, m)\<in>set (parsed cs). m_ts m \<le> 180" by (simp add: ps claim_marker_def)
    show "distinct (map fst cs)" by (simp add: cs_def)
  qed (simp_all add: h_def claim_marker_def example_bridge_def i64_top_def)
  then show ?thesis using r s' unfolding cs_def h_def by (intro exI [of _ s]) (simp add: example_bridge_def)
qed

end
