(* ===== verification/Pr_Identity.thy ===== *)
theory Pr_Identity
  imports Bridge_World
begin

text \<open>
  Which item and which instance a pull request belongs to, read off its body and comments: the stamps
  of \<^verbatim>\<open>src/github/pulls.rs\<close>, the ownership of \<^verbatim>\<open>src/github/pr_owner.rs\<close>, and the claim a machine makes
  before it repairs a pull request (\<open>claim_self_repair\<close> of \<^verbatim>\<open>src/supervisor.rs\<close>). \<open>self\<close> is this
  instance's id.
\<close>

section \<open>Origin stamps\<close>

record pr_origin =
  o_instance :: string
  o_item :: string
  o_seq :: int
  o_branch :: string

definition origin_tag_prefix :: string where
  "origin_tag_prefix = ''<!-- agentflare-origin:''"

definition origin_words :: "string \<Rightarrow> string \<Rightarrow> int \<Rightarrow> string \<Rightarrow> string list" where
  "origin_words inst item sq branch =
     [''v=1'', ''instance='' @ inst, ''item='' @ item, ''seq='' @ show_int sq, ''branch='' @ branch]"

definition origin_tag :: "string \<Rightarrow> string \<Rightarrow> int \<Rightarrow> string \<Rightarrow> string" where
  "origin_tag inst item sq branch =
     origin_tag_prefix @ '' '' @ str_join '' '' (origin_words inst item sq branch) @ '' -->''"

record origin_fields =
  of_version :: "string option"
  of_instance :: "string option"
  of_item :: "string option"
  of_seq :: "string option"
  of_branch :: "string option"

definition set_origin_field :: "string \<Rightarrow> string \<Rightarrow> origin_fields \<Rightarrow> origin_fields" where
  "set_origin_field k v f =
     (if k = ''v'' then f\<lparr>of_version := Some v\<rparr>
      else if k = ''instance'' then f\<lparr>of_instance := Some v\<rparr>
      else if k = ''item'' then f\<lparr>of_item := Some v\<rparr>
      else if k = ''seq'' then f\<lparr>of_seq := Some v\<rparr>
      else if k = ''branch'' then f\<lparr>of_branch := Some v\<rparr>
      else f)"

fun read_tokens :: "string list \<Rightarrow> origin_fields \<Rightarrow> origin_fields option" where
  "read_tokens [] f = Some f"
| "read_tokens (w # ws) f =
     (case split_once CHR ''='' w of
        None \<Rightarrow> None
      | Some (k, v) \<Rightarrow> read_tokens ws (set_origin_field k v f))"

definition no_origin_fields :: origin_fields where
  "no_origin_fields =
     \<lparr>of_version = None, of_instance = None, of_item = None, of_seq = None, of_branch = None\<rparr>"

definition parse_origin_fields :: "string \<Rightarrow> pr_origin option" where
  "parse_origin_fields s =
     (case read_tokens (split_whitespace s) no_origin_fields of
        None \<Rightarrow> None
      | Some f \<Rightarrow>
          if of_version f \<noteq> Some ''1'' then None
          else (case (of_instance f, of_item f, Option.bind (of_seq f) parse_i64, of_branch f) of
                  (Some i, Some it, Some n, Some br) \<Rightarrow>
                    Some \<lparr>o_instance = i, o_item = it, o_seq = n, o_branch = br\<rparr>
                | _ \<Rightarrow> None))"

text \<open>The first well-formed stamp; the search ends at a stamp that is not closed.\<close>

function first_origin :: "string \<Rightarrow> pr_origin option" where
  "first_origin s =
     (case split_at_str origin_tag_prefix s of
        None \<Rightarrow> None
      | Some (a, after_prefix) \<Rightarrow>
          (case split_at_str ''-->'' after_prefix of
             None \<Rightarrow> None
           | Some (flds, after_tag) \<Rightarrow>
               (case parse_origin_fields flds of
                  Some o' \<Rightarrow> Some o'
                | None \<Rightarrow> first_origin after_tag)))"
  by pat_completeness auto
termination
  by (relation "measure size") (auto simp: origin_tag_prefix_def dest!: split_at_str_Some)

declare first_origin.simps [simp del]

definition origin_of :: "string option \<Rightarrow> pr_origin option" where
  "origin_of body = Option.bind body first_origin"

definition origin_allows :: "string option \<Rightarrow> string \<Rightarrow> bool" where
  "origin_allows body inst = (case origin_of body of None \<Rightarrow> True | Some o' \<Rightarrow> o_instance o' = inst)"

text \<open>No stamp of another item, and none left open.\<close>

function origins_agree :: "string \<Rightarrow> string \<Rightarrow> bool" where
  "origins_agree item s =
     (case split_at_str origin_tag_prefix s of
        None \<Rightarrow> True
      | Some (a, after_prefix) \<Rightarrow>
          (case split_at_str ''-->'' after_prefix of
             None \<Rightarrow> False
           | Some (flds, after_tag) \<Rightarrow>
               (case parse_origin_fields flds of
                  Some o' \<Rightarrow> o_item o' = item \<and> origins_agree item after_tag
                | None \<Rightarrow> origins_agree item after_tag)))"
  by pat_completeness auto
termination
  by (relation "measure (size \<circ> snd)") (auto simp: origin_tag_prefix_def dest!: split_at_str_Some)

declare origins_agree.simps [simp del]

definition origin_item_allows :: "string option \<Rightarrow> string \<Rightarrow> bool" where
  "origin_item_allows body item = (case body of None \<Rightarrow> True | Some s \<Rightarrow> origins_agree item s)"

section \<open>Item tags and the visible marker\<close>

definition item_id_tag_prefix :: string where
  "item_id_tag_prefix = ''<!-- agentflare-item-id: ''"

definition item_id_tag :: "string \<Rightarrow> string" where
  "item_id_tag iid = item_id_tag_prefix @ iid @ '' -->''"

function tags_agree :: "string \<Rightarrow> string \<Rightarrow> bool" where
  "tags_agree iid s =
     (case split_at_str item_id_tag_prefix s of
        None \<Rightarrow> True
      | Some (a, after_prefix) \<Rightarrow>
          (case split_at_str '' -->'' after_prefix of
             None \<Rightarrow> False
           | Some (tagged, after_tag) \<Rightarrow> tagged = iid \<and> tags_agree iid after_tag))"
  by pat_completeness auto
termination
  by (relation "measure (size \<circ> snd)") (auto simp: item_id_tag_prefix_def dest!: split_at_str_Some)

declare tags_agree.simps [simp del]

definition tag_allows :: "string option \<Rightarrow> string \<Rightarrow> bool" where
  "tag_allows body iid = (case body of None \<Rightarrow> True | Some s \<Rightarrow> tags_agree iid s)"

definition item_id_of :: "string option \<Rightarrow> string option" where
  "item_id_of body =
     Option.bind body (\<lambda>s. case split_at_str item_id_tag_prefix s of
         None \<Rightarrow> None
       | Some (a, rest) \<Rightarrow>
           (case split_at_str '' -->'' rest of
              None \<Rightarrow> None
            | Some (iid, rest') \<Rightarrow> if iid \<noteq> [] \<and> tag_allows body iid then Some iid else None))"

definition item_marker :: "int \<Rightarrow> string" where
  "item_marker sq = ''for item #'' @ show_int sq @ '' ''"

definition marks_item :: "string \<Rightarrow> string option \<Rightarrow> int \<Rightarrow> bool" where
  "marks_item self body sq \<longleftrightarrow>
     (case body of None \<Rightarrow> False | Some s \<Rightarrow> str_contains (item_marker sq) s) \<and> origin_allows body self"

definition marks_this_item :: "string \<Rightarrow> string option \<Rightarrow> int \<Rightarrow> string \<Rightarrow> bool" where
  "marks_this_item self body sq iid \<longleftrightarrow>
     marks_item self body sq \<and> tag_allows body iid \<and> origin_item_allows body iid"

definition opened_by_agentflare :: "string option \<Rightarrow> bool" where
  "opened_by_agentflare body \<longleftrightarrow>
     origin_of body \<noteq> None \<or>
     (case body of
        None \<Rightarrow> False
      | Some s \<Rightarrow> str_contains ''for item #'' s \<and> str_contains '' via agentflare.'' s)"

text \<open>\<open>body.contains(&old).then(|| body.replacen(&old, &new, 1))\<close>.\<close>

definition restamp_origin :: "string \<Rightarrow> string \<Rightarrow> string option" where
  "restamp_origin body inst =
     (case origin_of (Some body) of
        None \<Rightarrow> None
      | Some o' \<Rightarrow>
          (case split_at_str (origin_tag (o_instance o') (o_item o') (o_seq o') (o_branch o')) body of
             None \<Rightarrow> None
           | Some (a, z) \<Rightarrow> Some (a @ origin_tag inst (o_item o') (o_seq o') (o_branch o') @ z)))"

text \<open>The footer of a pull request this instance opens.\<close>

definition pr_footer :: "string \<Rightarrow> string \<Rightarrow> string \<Rightarrow> int \<Rightarrow> string \<Rightarrow> string \<Rightarrow> string" where
  "pr_footer self agent machine sq iid branch =
     ''---'' @ [CHR 0x0A] @ ''_Opened by `'' @ agent @ ''` on **'' @ machine @ ''** (`'' @ self @
     ''`) for item #'' @ show_int sq @ '' via agentflare._'' @ [CHR 0x0A] @
     item_id_tag iid @ [CHR 0x0A] @ origin_tag self iid sq branch"

section \<open>The owner of a pull request\<close>

datatype owner_source = ByTakeover | ByStamp | ByClaim

record pr_owner =
  po_instance :: string
  po_source :: owner_source

text \<open>\<open>max_by_key\<close> on the id: the last of the largest.\<close>

fun max_by_id :: "(nat \<times> 'a) list \<Rightarrow> (nat \<times> 'a) option" where
  "max_by_id [] = None"
| "max_by_id (x # xs) =
     (case max_by_id xs of
        None \<Rightarrow> Some x
      | Some y \<Rightarrow> if fst y < fst x then Some x else Some y)"

definition by_action :: "action \<Rightarrow> comments \<Rightarrow> markers" where
  "by_action a cs = filter (\<lambda>(i, m). m_action m = a) (parsed cs)"

definition resolve_owner :: "string option \<Rightarrow> comments \<Rightarrow> pr_owner option" where
  "resolve_owner body cs =
     (case max_by_id (by_action Takeover cs) of
        Some (i, m) \<Rightarrow> Some \<lparr>po_instance = m_owner m, po_source = ByTakeover\<rparr>
      | None \<Rightarrow>
          (case origin_of body of
             Some o' \<Rightarrow> Some \<lparr>po_instance = o_instance o', po_source = ByStamp\<rparr>
           | None \<Rightarrow>
               map_option (\<lambda>(i, m). \<lparr>po_instance = m_owner m, po_source = ByClaim\<rparr>)
                 (min_by_id (by_action Claim cs))))"

datatype adopt_refusal = AlreadyOwner | OwnerActive string int | OwnerUnknownActivity string

text \<open>Times in nanoseconds; \<open>updated\<close> is the parsed time stamp; whole seconds are counted.\<close>

definition adopt_check ::
  "pr_owner option \<Rightarrow> string \<Rightarrow> int option \<Rightarrow> int \<Rightarrow> int \<Rightarrow> bool \<Rightarrow> adopt_refusal + unit" where
  "adopt_check owner me updated now ttl force =
     (case owner of
        None \<Rightarrow> Inr ()
      | Some ow \<Rightarrow>
          if po_instance ow = me then Inl AlreadyOwner
          else if force then Inr ()
          else (case updated of
                  Some t \<Rightarrow>
                    (let age = (if now \<ge> t then (now - t) div 1000000000 else - ((t - now) div 1000000000))
                     in if ttl \<le> age then Inr () else Inl (OwnerActive (po_instance ow) t))
                | None \<Rightarrow> Inl (OwnerUnknownActivity (po_instance ow))))"

definition foreign_stamped :: "(nat \<times> string option) list \<Rightarrow> string \<Rightarrow> (nat \<times> string) list" where
  "foreign_stamped prs me =
     List.map_filter (\<lambda>(n, body). case origin_of body of
         None \<Rightarrow> None
       | Some o' \<Rightarrow> if o_instance o' \<noteq> me then Some (n, o_instance o') else None) prs"

definition takeover_comment :: "string \<Rightarrow> nat \<Rightarrow> int \<Rightarrow> string" where
  "takeover_comment me n now =
     ''Taken over by `'' @ me @ ''`.'' @ [CHR 0x0A, CHR 0x0A] @
     marker_render \<lparr>m_action = Takeover, m_owner = me, m_item = ''pr-'' @ show_nat n, m_ts = now, m_hash = []\<rparr>"

section \<open>The claim before a repair\<close>

definition self_repair_note :: "string \<Rightarrow> string \<Rightarrow> int \<Rightarrow> string" where
  "self_repair_note me item now =
     ''Claiming self-repair for `'' @ me @ ''`.'' @ [CHR 0x0A, CHR 0x0A] @
     marker_render \<lparr>m_action = Claim, m_owner = me, m_item = item, m_ts = now, m_hash = []\<rparr>"

definition claim_self_repair ::
  "'g github \<Rightarrow> string \<Rightarrow> nat \<Rightarrow> string \<Rightarrow> int \<Rightarrow> int \<Rightarrow> 'g \<Rightarrow> bool \<times> 'g" where
  "claim_self_repair G me n item now ttl g =
     (case gh_comments G n g of
        (Inl e, g) \<Rightarrow> (True, g)
      | (Inr before, g) \<Rightarrow>
          (case resolve_holder before now ttl of
             Some h \<Rightarrow> (holder_owner h = me, g)
           | None \<Rightarrow>
               (case gh_post G n (self_repair_note me item now) g of
                  (Inl e, g) \<Rightarrow> (True, g)
                | (Inr c, g) \<Rightarrow>
                    (case gh_comments G n g of
                       (Inl e, g) \<Rightarrow> (True, g)
                     | (Inr after, g) \<Rightarrow> (i_hold after me now ttl, g)))))"

end
