(* ===== verification/Pr_Identity_Props.thy ===== *)
theory Pr_Identity_Props
  imports Pr_Identity
begin

text \<open>
  Properties of the stamps, tags and claims of pull requests: a stamp that is written is the stamp
  that is read, a conflicting tag cannot be hidden, a takeover wins, and when a machine may repair.
\<close>

section \<open>Scanning\<close>

text \<open>A pattern whose last byte occurs nowhere before its end in the text is found where it stands.\<close>

lemma split_at_closing:
  assumes "e \<notin> set (s @ q)"
  shows "split_at_str (q @ [e]) (s @ (q @ [e]) @ t) = Some (s, t)"
  using assms
proof (induction s)
  case Nil
  obtain x p where "q @ [e] = x # p" by (cases q) auto
  then show ?case by (simp del: append_assoc)
next
  case (Cons c s)
  have "\<not> prefix (q @ [e]) ((c # s) @ (q @ [e]) @ t)"
  proof
    assume "prefix (q @ [e]) ((c # s) @ (q @ [e]) @ t)"
    then have "q @ [e] = take (Suc (length q)) (((c # s) @ q) @ [e] @ t)"
      by (metis append.assoc append_eq_conv_conj length_append_singleton prefixE)
    also have "\<dots> = take (Suc (length q)) ((c # s) @ q)" by simp
    finally have "e \<in> set ((c # s) @ q)" by (metis in_set_conv_decomp in_set_takeD)
    then show False using Cons.prems by simp
  qed
  with Cons show ?case by simp
qed

lemma split_ws_trailing: "split_ws cur (s @ '' '') = split_ws cur s"
proof (induction s arbitrary: cur)
  case Nil
  have "is_space CHR '' ''" by (simp add: is_space_def)
  then show ?case by simp
next
  case (Cons c s)
  then show ?case by simp
qed

lemma contains_longer: "\<not> str_contains p s \<Longrightarrow> \<not> str_contains (p @ q) s"
  unfolding str_contains_iff by (metis append.assoc)

section \<open>Stamps\<close>

lemma clean_ne: "clean v \<Longrightarrow> CHR ''<'' \<notin> set v \<and> CHR ''>'' \<notin> set v"
  by (auto simp: clean_def)

lemma origin_words_clean:
  assumes "clean inst" "clean item" "clean br" "w \<in> set (origin_words inst item sq br)"
  shows "w \<noteq> [] \<and> clean w"
proof -
  have keys: "clean ''v=1''" "clean ''instance=''" "clean ''item=''" "clean ''seq=''" "clean ''branch=''"
    by (simp_all add: clean_def is_space_def)
  show ?thesis using assms keys clean_show_int by (auto simp: origin_words_def simp del: append_Cons)
qed

lemma origin_body_clean:
  assumes "clean inst" "clean item" "clean br"
  shows "CHR ''<'' \<notin> set (str_join '' '' (origin_words inst item sq br))"
    "CHR ''>'' \<notin> set (str_join '' '' (origin_words inst item sq br))"
proof -
  have "set (str_join '' '' (origin_words inst item sq br)) \<subseteq> {CHR '' ''} \<union> \<Union> (set ` set (origin_words inst item sq br))"
    using set_str_join [of "'' ''"] by simp
  then show "CHR ''<'' \<notin> set (str_join '' '' (origin_words inst item sq br))"
    "CHR ''>'' \<notin> set (str_join '' '' (origin_words inst item sq br))"
    using origin_words_clean [OF assms] clean_ne by fastforce+
qed

lemma read_token: "CHR ''='' \<notin> set k \<Longrightarrow>
   read_tokens ((k @ CHR ''='' # v) # ws) f = read_tokens ws (set_origin_field k v f)"
proof -
  assume "CHR ''='' \<notin> set k"
  then have "split_once CHR ''='' (k @ CHR ''='' # v) = Some (k, v)" by (simp add: split_once_Some)
  then show ?thesis by simp
qed

lemma parse_origin_words:
  assumes "clean inst" "clean item" "clean br" "in_i64 sq"
  shows "parse_origin_fields ('' '' @ str_join '' '' (origin_words inst item sq br) @ '' '') =
    Some \<lparr>o_instance = inst, o_item = item, o_seq = sq, o_branch = br\<rparr>"
proof -
  have sp: "is_space CHR '' ''" by (simp add: is_space_def)
  have "\<forall>w\<in>set (origin_words inst item sq br). w \<noteq> [] \<and> (\<forall>c\<in>set w. \<not> is_space c)"
    using origin_words_clean [OF assms(1-3)] by (auto simp: clean_def)
  then have ws: "split_whitespace ('' '' @ str_join '' '' (origin_words inst item sq br) @ '' '') = origin_words inst item sq br"
    using split_ws_trailing [of "[]"] by (simp add: split_whitespace_def sp split_ws_join)
  have words: "origin_words inst item sq br =
     [''v'' @ CHR ''='' # ''1'', ''instance'' @ CHR ''='' # inst, ''item'' @ CHR ''='' # item,
      ''seq'' @ CHR ''='' # show_int sq, ''branch'' @ CHR ''='' # br]"
    by (simp add: origin_words_def)
  have keys: "CHR ''='' \<notin> set ''v''" "CHR ''='' \<notin> set ''instance''" "CHR ''='' \<notin> set ''item''"
    "CHR ''='' \<notin> set ''seq''" "CHR ''='' \<notin> set ''branch''" by simp_all
  have "read_tokens (origin_words inst item sq br) no_origin_fields =
     Some \<lparr>of_version = Some ''1'', of_instance = Some inst, of_item = Some item, of_seq = Some (show_int sq), of_branch = Some br\<rparr>"
    unfolding words by (simp only: read_token keys not_False_eq_True) (simp add: set_origin_field_def no_origin_fields_def)
  then show ?thesis unfolding parse_origin_fields_def ws by (simp add: parse_show_int [OF assms(4)])
qed

lemma split_origin_tag:
  assumes "clean inst" "clean item" "clean br" "\<not> str_contains origin_tag_prefix pre"
  shows "split_at_str origin_tag_prefix (pre @ origin_tag inst item sq br @ post) =
      Some (pre, ('' '' @ str_join '' '' (origin_words inst item sq br) @ '' '') @ (''--'' @ ''>'') @ post)"
    and "split_at_str ''-->'' (('' '' @ str_join '' '' (origin_words inst item sq br) @ '' '') @ (''--'' @ ''>'') @ post) =
      Some ('' '' @ str_join '' '' (origin_words inst item sq br) @ '' '', post)"
proof -
  let ?body = "str_join '' '' (origin_words inst item sq br)"
  have pfx: "origin_tag_prefix = CHR ''<'' # ''!-- agentflare-origin:''" by (simp add: origin_tag_prefix_def)
  show "split_at_str origin_tag_prefix (pre @ origin_tag inst item sq br @ post) =
      Some (pre, ('' '' @ ?body @ '' '') @ (''--'' @ ''>'') @ post)"
    using split_at_first [of "CHR ''<''" "''!-- agentflare-origin:''" pre "'' '' @ ?body @ '' -->'' @ post"] assms(4)
    by (simp add: pfx origin_tag_def)
  show "split_at_str ''-->'' (('' '' @ ?body @ '' '') @ (''--'' @ ''>'') @ post) = Some ('' '' @ ?body @ '' '', post)"
    using split_at_closing [of "CHR ''>''" "'' '' @ ?body @ '' ''" "''--''" post] origin_body_clean(2) [OF assms(1-3)] by simp
qed

lemma first_origin_tag:
  assumes "clean inst" "clean item" "clean br" "in_i64 sq" "\<not> str_contains origin_tag_prefix pre"
  shows "first_origin (pre @ origin_tag inst item sq br @ post) =
    Some \<lparr>o_instance = inst, o_item = item, o_seq = sq, o_branch = br\<rparr>"
  by (subst first_origin.simps)
    (simp only: split_origin_tag [OF assms(1-3,5)] option.case prod.case parse_origin_words [OF assms(1-4)])

lemma origins_agree_tag:
  assumes "clean inst" "clean item" "clean br" "in_i64 sq" "\<not> str_contains origin_tag_prefix pre"
  shows "origins_agree iid (pre @ origin_tag inst item sq br @ post) \<longleftrightarrow> item = iid \<and> origins_agree iid post"
  by (subst origins_agree.simps)
    (simp only: split_origin_tag [OF assms(1-3,5)] option.case prod.case parse_origin_words [OF assms(1-4)]
      pr_origin.select_convs)

text \<open>A text with one opening byte contains no other pattern that begins with it.\<close>

lemma contains_single:
  assumes "c \<notin> set f" "c \<notin> set q" "\<not> prefix p q"
  shows "\<not> str_contains (c # p) (f @ c # q)"
proof -
  have "c \<notin> set u \<Longrightarrow> \<not> str_contains (c # p) u" for u
    by (auto simp: str_contains_iff)
  then have q: "\<not> str_contains (c # p) (c # q)" using assms(2,3) by simp
  show ?thesis using assms(1) q by (induction f) auto
qed

lemma origin_tag_is_no_item_tag:
  assumes "CHR ''<'' \<notin> set f" "clean self" "clean iid" "clean br"
  shows "split_at_str item_id_tag_prefix (f @ origin_tag self iid sq br) = None"
proof -
  let ?q = "''!-- agentflare-origin:'' @ '' '' @ str_join '' '' (origin_words self iid sq br) @ '' -->''"
  have eq: "f @ origin_tag self iid sq br = f @ CHR ''<'' # ?q" by (simp add: origin_tag_def origin_tag_prefix_def)
  have pfx: "item_id_tag_prefix = CHR ''<'' # ''!-- agentflare-item-id: ''" by (simp add: item_id_tag_prefix_def)
  show ?thesis unfolding eq pfx split_at_str_None
    by (rule contains_single [OF assms(1)]) (use origin_body_clean(1) [OF assms(2-4)] in simp_all)
qed

text \<open>The tags of a footer after a text without an opening byte.\<close>

lemma tags_agree_footer:
  assumes "CHR ''<'' \<notin> set f" "clean iid" "clean self" "clean br"
  shows "tags_agree iid (f @ item_id_tag iid @ [CHR 0x0A] @ origin_tag self iid sq br)"
proof -
  let ?rest = "[CHR 0x0A] @ origin_tag self iid sq br"
  have pfx: "item_id_tag_prefix = CHR ''<'' # ''!-- agentflare-item-id: ''" by (simp add: item_id_tag_prefix_def)
  have "\<not> str_contains item_id_tag_prefix f" using assms(1) by (auto simp: pfx str_contains_iff)
  then have 1: "split_at_str item_id_tag_prefix (f @ item_id_tag iid @ ?rest) = Some (f, iid @ ('' --'' @ ''>'') @ ?rest)"
    using split_at_first [of "CHR ''<''" "''!-- agentflare-item-id: ''" f "iid @ '' -->'' @ ?rest"]
    by (simp add: pfx item_id_tag_def)
  have 2: "split_at_str '' -->'' (iid @ ('' --'' @ ''>'') @ ?rest) = Some (iid, ?rest)"
    using split_at_closing [of "CHR ''>''" iid "'' --''" ?rest] clean_ne [OF assms(2)] by simp
  have "split_at_str item_id_tag_prefix ?rest = None"
    by (rule origin_tag_is_no_item_tag) (use assms(2-4) in simp_all)
  then have "tags_agree iid ?rest" by (subst tags_agree.simps) simp
  then show ?thesis by (subst tags_agree.simps) (simp only: 1 2 option.case prod.case simp_thms)
qed

text \<open>
  C34: \<^bold>\<open>The pull request an instance opens is recognised as its item's own.\<close> The footer it writes
  marks the item for this instance, by the visible marker, the item tag and the stamp together, when the
  ids and the branch are well formed and no \<^verbatim>\<open><\<close> stands before the footer or in the names in it.
\<close>

theorem footer_marks_own_item:
  assumes "clean self" "clean iid" "clean br" "in_i64 sq"
    and "CHR ''<'' \<notin> set front" "CHR ''<'' \<notin> set agent" "CHR ''<'' \<notin> set machine"
  shows "marks_this_item self (Some (front @ pr_footer self agent machine sq iid br)) sq iid"
proof -
  let ?f = "front @ ''---'' @ [CHR 0x0A] @ ''_Opened by `'' @ agent @ ''` on **'' @ machine @ ''** (`'' @ self @
     ''`) for item #'' @ show_int sq @ '' via agentflare._'' @ [CHR 0x0A]"
  let ?body = "front @ pr_footer self agent machine sq iid br"
  let ?pre = "?f @ item_id_tag iid @ [CHR 0x0A]"
  have lt: "CHR ''<'' \<notin> set ?f" using assms(5-7) clean_ne [OF assms(1)] clean_ne [OF clean_show_int(1) [of sq]] by simp
  have body: "?body = ?f @ item_id_tag iid @ [CHR 0x0A] @ origin_tag self iid sq br" by (simp add: pr_footer_def)
  then have body': "?body = ?pre @ origin_tag self iid sq br @ []" by simp
  have pfx: "origin_tag_prefix = CHR ''<'' # ''!-- agentflare-origin:''" by (simp add: origin_tag_prefix_def)
  have "\<not> str_contains origin_tag_prefix (?f @ CHR ''<'' # (''!-- agentflare-item-id: '' @ iid @ '' -->'' @ [CHR 0x0A]))"
    unfolding pfx by (rule contains_single [OF lt]) (use clean_ne [OF assms(2)] in simp_all)
  then have pre: "\<not> str_contains origin_tag_prefix ?pre" by (simp add: item_id_tag_def item_id_tag_prefix_def)
  have "first_origin ?body = Some \<lparr>o_instance = self, o_item = iid, o_seq = sq, o_branch = br\<rparr>"
    unfolding body' by (rule first_origin_tag [OF assms(1-4) pre])
  moreover have "origins_agree iid []" by (simp add: origins_agree.simps [of iid "[]"] origin_tag_prefix_def)
  then have "origins_agree iid ?body" unfolding body' using origins_agree_tag [OF assms(1-4) pre] by blast
  moreover have "tags_agree iid ?body" unfolding body by (rule tags_agree_footer [OF lt assms(2,1,3)])
  moreover have "str_contains (item_marker sq) ?body"
    unfolding str_contains_iff
    by (intro exI [of _ "front @ ''---'' @ [CHR 0x0A] @ ''_Opened by `'' @ agent @ ''` on **'' @ machine @ ''** (`'' @ self @ ''`) ''"]
        exI [of _ "''via agentflare._'' @ [CHR 0x0A] @ item_id_tag iid @ [CHR 0x0A] @ origin_tag self iid sq br"])
      (simp add: pr_footer_def item_marker_def)
  ultimately show ?thesis
    by (simp add: marks_this_item_def marks_item_def tag_allows_def origin_item_allows_def origin_allows_def origin_of_def)
qed

lemma footer_marks_own_item_witness:
  "marks_this_item ''flared:a'' (Some (''Fixes it. '' @ pr_footer ''flared:a'' ''claude'' ''m'' 3 ''u'' ''b'')) 3 ''u''"
  by (rule footer_marks_own_item) (simp_all add: clean_def is_space_def in_i64_def i64_bot_def i64_top_def)

text \<open>
  \<^bold>\<open>Adopting moves the stamp.\<close> A stamp that is written into a body is the stamp that is read back,
  and re-stamping the body for another instance makes that instance the one the stamp names, with the
  item, the number and the branch unchanged.
\<close>

lemma restamp_moves_ownership:
  assumes "clean inst" "clean new" "clean item" "clean br" "in_i64 sq" "\<not> str_contains origin_tag_prefix pre"
  shows "\<exists>body'. restamp_origin (pre @ origin_tag inst item sq br @ post) new = Some body' \<and>
    origin_of (Some body') = Some \<lparr>o_instance = new, o_item = item, o_seq = sq, o_branch = br\<rparr>"
proof -
  let ?tail = "''!-- agentflare-origin:'' @ '' '' @ str_join '' '' (origin_words inst item sq br) @ '' -->''"
  have tag: "origin_tag inst item sq br = CHR ''<'' # ?tail" by (simp add: origin_tag_def origin_tag_prefix_def)
  have "\<not> str_contains (origin_tag inst item sq br) pre"
    unfolding origin_tag_def by (rule contains_longer [OF assms(6)])
  then have "split_at_str (origin_tag inst item sq br) (pre @ origin_tag inst item sq br @ post) = Some (pre, post)"
    unfolding tag by (rule split_at_first) (use origin_body_clean(1) [OF assms(1,3,4)] in simp)
  then have "restamp_origin (pre @ origin_tag inst item sq br @ post) new = Some (pre @ origin_tag new item sq br @ post)"
    using first_origin_tag [OF assms(1,3,4,5,6), of post] by (simp add: restamp_origin_def origin_of_def)
  then show ?thesis using first_origin_tag [OF assms(2,3,4,5,6), of post] by (simp add: origin_of_def)
qed

lemma restamp_moves_ownership_witness:
  "\<exists>body'. restamp_origin (''text '' @ origin_tag ''flared:a'' ''u'' 3 ''task/3-x'' @ []) ''flared:b'' = Some body' \<and>
    origin_of (Some body') = Some \<lparr>o_instance = ''flared:b'', o_item = ''u'', o_seq = 3, o_branch = ''task/3-x''\<rparr>"
proof (rule restamp_moves_ownership)
  show "clean ''flared:a''" "clean ''flared:b''" "clean ''u''" "clean ''task/3-x''"
    by (simp_all add: clean_def is_space_def)
  show "in_i64 3" by (simp add: in_i64_def i64_bot_def i64_top_def)
  show "\<not> str_contains origin_tag_prefix ''text ''" by (simp add: origin_tag_prefix_def)
qed

lemma origins_agree_first: "origins_agree item s \<Longrightarrow> first_origin s = Some o' \<Longrightarrow> o_item o' = item"
proof (induction s rule: first_origin.induct)
  case (1 s)
  show ?case
  proof (cases "split_at_str origin_tag_prefix s")
    case None
    then show ?thesis using "1.prems"(2) by (simp add: first_origin.simps [of s])
  next
    case (Some ab)
    show ?thesis
    proof (cases "split_at_str ''-->'' (snd ab)")
      case None
      then show ?thesis using "1.prems"(2) Some by (simp add: first_origin.simps [of s] split: prod.splits)
    next
      case (Some ft)
      show ?thesis
      proof (cases "parse_origin_fields (fst ft)")
        case None
        then show ?thesis
          using "1.prems" "1.IH" [of ab "fst ab" "snd ab" ft "fst ft" "snd ft"] \<open>split_at_str origin_tag_prefix s = Some ab\<close> Some
          by (simp add: first_origin.simps [of s] origins_agree.simps [of item s] case_prod_beta)
      next
        case (Some o1)
        then show ?thesis
          using "1.prems" \<open>split_at_str origin_tag_prefix s = Some ab\<close> \<open>split_at_str ''-->'' (snd ab) = Some ft\<close>
          by (simp add: first_origin.simps [of s] origins_agree.simps [of item s] case_prod_beta)
      qed
    qed
  qed
qed

text \<open>
  \<^bold>\<open>A stamped pull request that counts as an item's own is this instance's.\<close> If a body marks
  an item and carries a stamp, the stamp names this instance and this very item; a number shared with
  another workstation's item is not enough.
\<close>

lemma marked_stamp_is_ours:
  assumes "marks_this_item self (Some body) sq iid" "origin_of (Some body) = Some o'"
  shows "o_instance o' = self \<and> o_item o' = iid"
  using assms origins_agree_first [of iid body o']
  by (auto simp: marks_this_item_def marks_item_def origin_allows_def origin_item_allows_def origin_of_def)

lemma marked_stamp_is_ours_witness:
  "map_option o_instance (origin_of (Some (item_marker 3 @ origin_tag ''flared:a'' ''u'' 3 ''b'' @ []))) = Some ''flared:a''"
proof -
  let ?body = "item_marker 3 @ origin_tag ''flared:a'' ''u'' 3 ''b'' @ []"
  have c: "clean ''flared:a''" "clean ''u''" "clean ''b''" "in_i64 3"
    by (simp_all add: clean_def is_space_def in_i64_def i64_bot_def i64_top_def)
  have lt: "CHR ''<'' \<notin> set (item_marker 3)" using clean_ne [OF clean_show_int(1) [of 3]] by (simp add: item_marker_def)
  then have pre: "\<not> str_contains origin_tag_prefix (item_marker 3)" by (auto simp: origin_tag_prefix_def str_contains_iff)
  have o': "origin_of (Some ?body) = Some \<lparr>o_instance = ''flared:a'', o_item = ''u'', o_seq = 3, o_branch = ''b''\<rparr>"
    using first_origin_tag [OF c pre, of "[]"] by (simp add: origin_of_def)
  have "origins_agree ''u'' []" by (simp add: origins_agree.simps [of "''u''" "[]"] origin_tag_prefix_def)
  then have "origins_agree ''u'' ?body" using origins_agree_tag [OF c pre] by blast
  moreover have "tags_agree ''u'' ?body"
    by (subst tags_agree.simps) (simp only: append_Nil2 origin_tag_is_no_item_tag [OF lt c(1-3)] option.case)
  moreover have "str_contains (item_marker 3) ?body" by (auto simp: str_contains_iff)
  ultimately have "marks_this_item ''flared:a'' (Some ?body) 3 ''u''"
    using o' by (simp add: marks_this_item_def marks_item_def tag_allows_def origin_item_allows_def origin_allows_def)
  from marked_stamp_is_ours [OF this o'] o' show ?thesis by simp
qed

section \<open>Item tags\<close>

lemma split_at_str_min: "split_at_str p s = Some (a, b) \<Longrightarrow> s = x @ p @ y \<Longrightarrow> length a \<le> length x"
proof (induction s arbitrary: a b x)
  case Nil
  then show ?case by (simp split: if_splits)
next
  case (Cons c s)
  show ?case
  proof (cases "prefix p (c # s)")
    case True
    then show ?thesis using Cons.prems(1) by simp
  next
    case False
    then obtain x' where "x = c # x'" using Cons.prems(2) by (cases x) (auto simp: prefix_def)
    then show ?thesis using Cons False by (auto split: option.splits)
  qed
qed

text \<open>Occurrences of a pattern with a single opening byte do not overlap.\<close>

lemma occurrence_apart:
  assumes "a @ (c # p) @ r = x @ (c # p) @ z" "length a < length x" "c \<notin> set p"
  obtains x' where "x = a @ (c # p) @ x'" "r = x' @ (c # p) @ z"
proof -
  obtain u where u: "x = a @ u" "(c # p) @ r = u @ (c # p) @ z"
    using assms(1,2) by (auto simp: append_eq_append_conv2)
  have "u \<noteq> []" using u(1) assms(2) by auto
  have "\<not> length u < length (c # p)"
  proof
    assume short: "length u < length (c # p)"
    obtain v where "(c # p = u @ v \<and> v @ r = (c # p) @ z) \<or> ((c # p) @ v = u \<and> r = v @ (c # p) @ z)"
      using u(2) unfolding append_eq_append_conv2 by blast
    moreover have "(c # p) @ v \<noteq> u" using short by auto
    ultimately have v: "c # p = u @ v" "v @ r = (c # p) @ z" by auto
    have "v \<noteq> []" using v(1) short by auto
    then have "hd v = c" using v(2) by (metis append_Cons hd_append2 list.sel(1))
    moreover have "hd v \<in> set p" using v(1) \<open>v \<noteq> []\<close> \<open>u \<noteq> []\<close> by (cases u) auto
    ultimately show False using assms(3) by simp
  qed
  moreover obtain v where "(c # p = u @ v \<and> v @ r = (c # p) @ z) \<or> ((c # p) @ v = u \<and> r = v @ (c # p) @ z)"
    using u(2) unfolding append_eq_append_conv2 by blast
  ultimately obtain x' where "u = (c # p) @ x'" "r = x' @ (c # p) @ z"
    by (metis append_Nil append_Nil2 length_append less_add_same_cancel1 length_greater_0_conv)
  then show thesis using that u(1) by simp
qed

lemma occurrence_after:
  assumes "x @ (c # p) @ z = w @ s" "c \<notin> set w"
  obtains y where "x = w @ y" "s = y @ (c # p) @ z"
proof -
  obtain us where "(x = w @ us \<and> us @ (c # p) @ z = s) \<or> (x @ us = w \<and> (c # p) @ z = us @ s)"
    using assms(1) unfolding append_eq_append_conv2 by blast
  then show thesis
  proof
    assume "x @ us = w \<and> (c # p) @ z = us @ s"
    then have "us = []" using assms(2) by (cases us) auto
    then show thesis using that [of "[]"] \<open>x @ us = w \<and> (c # p) @ z = us @ s\<close> by simp
  qed (use that in blast)
qed

lemma tags_agree_conflict:
  assumes "CHR ''<'' \<notin> set iid" "\<not> str_contains '' -->'' t" "t \<noteq> iid"
  shows "\<not> tags_agree iid (x @ item_id_tag t @ y)"
proof (induction x rule: length_induct)
  case (1 x)
  let ?P = "CHR ''<'' # ''!-- agentflare-item-id: ''" and ?z = "t @ '' -->'' @ y"
  have pfx: "item_id_tag_prefix = ?P" by (simp add: item_id_tag_prefix_def)
  have body: "x @ item_id_tag t @ y = x @ ?P @ ?z" by (simp add: item_id_tag_def pfx)
  have "str_contains ?P (x @ ?P @ ?z)" unfolding str_contains_iff by blast
  then obtain a r where ar: "split_at_str ?P (x @ ?P @ ?z) = Some (a, r)"
    using split_at_str_None by (metis not_None_eq surj_pair)
  have eq: "a @ ?P @ r = x @ ?P @ ?z" using split_at_str_Some [OF ar] by simp
  have le: "length a \<le> length x" using split_at_str_min [OF ar, of x ?z] by simp
  show ?case
  proof (cases "length a = length x")
    case True
    then have "r = t @ (CHR '' '' # ''-->'') @ y" using eq by simp
    then have "split_at_str '' -->'' r = Some (t, y)" using split_at_first [OF assms(2), of y] by simp
    then show ?thesis unfolding body
      by (subst tags_agree.simps) (simp only: pfx ar option.case prod.case assms(3) simp_thms not_False_eq_True)
  next
    case False
    then obtain x' where x': "x = a @ ?P @ x'" "r = x' @ ?P @ ?z"
      using occurrence_apart [OF eq] le by auto
    show ?thesis
    proof (cases "split_at_str '' -->'' r")
      case None
      then show ?thesis unfolding body by (subst tags_agree.simps) (simp only: pfx ar option.case prod.case None simp_thms not_False_eq_True)
    next
      case (Some ts)
      obtain tg s where ts: "ts = (tg, s)" by fastforce
      show ?thesis
      proof (cases "tg = iid")
        case True
        have "x' @ ?P @ ?z = (iid @ '' -->'') @ s"
          using split_at_str_Some [of "'' -->''" r tg s] Some ts True x'(2) by simp
        then obtain y' where y': "x' = (iid @ '' -->'') @ y'" "s = y' @ ?P @ ?z"
          by (rule occurrence_after) (use assms(1) in simp)
        have "length y' < length x" using x'(1) y'(1) by simp
        then have "\<not> tags_agree iid (y' @ item_id_tag t @ y)" using 1 by blast
        then have "\<not> tags_agree iid s" using y'(2) by (simp add: item_id_tag_def pfx)
        then show ?thesis unfolding body
          by (subst tags_agree.simps) (simp only: pfx ar option.case prod.case Some ts simp_thms not_False_eq_True)
      next
        case False
        then show ?thesis unfolding body
          by (subst tags_agree.simps) (simp only: pfx ar option.case prod.case Some ts simp_thms not_False_eq_True)
      qed
    qed
  qed
qed

text \<open>
  \<^bold>\<open>A conflicting tag cannot be hidden.\<close> A body that carries the tag of another item anywhere,
  also beside matching tags and stamps, is never taken for this item's own.
\<close>

lemma conflicting_tag_rejects:
  assumes "CHR ''<'' \<notin> set iid" "\<not> str_contains '' -->'' t" "t \<noteq> iid"
  shows "\<not> marks_this_item self (Some (x @ item_id_tag t @ y)) sq iid"
  using tags_agree_conflict [OF assms] by (simp add: marks_this_item_def tag_allows_def)

lemma conflicting_tag_rejects_example:
  "\<not> marks_this_item ''flared:a'' (Some (''for item #3 '' @ item_id_tag ''other'' @ item_id_tag ''u'')) 3 ''u''"
  by (rule conflicting_tag_rejects) simp_all

section \<open>Takeover\<close>

lemma max_by_id_newest:
  "\<forall>x\<in>set xs. fst x < fst y \<Longrightarrow> max_by_id (xs @ [y]) = Some y"
  by (induction xs) auto

text \<open>
  \<^bold>\<open>A takeover decides.\<close> Once an instance has posted its takeover comment it owns the pull
  request, whatever stamp the body carries and whoever claimed or took it over before.
\<close>

lemma takeover_takes_over:
  assumes "good_owner me" "in_i64 now" "newer cs [(i, takeover_comment me n now)]"
  shows "resolve_owner body (cs @ [(i, takeover_comment me n now)]) = Some \<lparr>po_instance = me, po_source = ByTakeover\<rparr>"
proof -
  let ?m = "\<lparr>m_action = Takeover, m_owner = me, m_item = ''pr-'' @ show_nat n, m_ts = now, m_hash = []\<rparr>"
  have "clean ''pr-''" by (simp add: clean_def is_space_def)
  then have "clean (''pr-'' @ show_nat n)" using clean_show_int(1) [of "int n"] by (simp add: show_int_def clean_simps(2) del: append_Cons)
  then have "readable ?m" using assms(1,2) by (simp add: readable_def good_owner_def)
  then have "marker_parse (takeover_comment me n now) = Some (read_back ?m)"
    using parse_rendered [of ?m "''Taken over by `'' @ me @ ''`.'' @ [CHR 0x0A, CHR 0x0A]"]
    by (simp add: takeover_comment_def)
  then have p: "parsed (cs @ [(i, takeover_comment me n now)]) = parsed cs @ [(i, read_back ?m)]" by simp
  have "\<forall>c\<in>set (by_action Takeover cs). fst c < i"
  proof
    fix c assume "c \<in> set (by_action Takeover cs)"
    then have "(fst c, snd c) \<in> set (parsed cs)" by (auto simp: by_action_def)
    then obtain t where "(fst c, t) \<in> set cs" using parsed_id by blast
    then show "fst c < i" using assms(3) by (auto simp: newer_def)
  qed
  then have "max_by_id (by_action Takeover cs @ [(i, read_back ?m)]) = Some (i, read_back ?m)"
    by (intro max_by_id_newest) simp
  moreover have "by_action Takeover (cs @ [(i, takeover_comment me n now)]) = by_action Takeover cs @ [(i, read_back ?m)]"
    unfolding by_action_def p by (simp add: read_back_def)
  ultimately show ?thesis
    using assms(1) by (simp add: resolve_owner_def read_back_def marker_field_def good_owner_def)
qed

lemma takeover_takes_over_witness:
  "resolve_owner (Some (origin_tag ''flared:a'' ''u'' 3 ''b'')) ([(4, ''hello'')] @ [(9, takeover_comment ''flared:b'' 7 50)]) =
    Some \<lparr>po_instance = ''flared:b'', po_source = ByTakeover\<rparr>"
  by (rule takeover_takes_over)
    (simp_all add: good_owner_def clean_def is_space_def in_i64_def i64_bot_def i64_top_def newer_def)

section \<open>Claims before a repair\<close>

text \<open>
  Only a rival makes a machine defer, if GitHub shows it its own claim: without a holder, and with
  its claim the only one of a live owner, it repairs.
\<close>

lemma claim_self_repair_wins:
  assumes "gh_comments G n g = (Inr cs, g1)" "resolve_holder cs now ttl = None" "issue_done (parsed cs) = False"
    "gh_post G n (self_repair_note me item now) g1 = (Inr i, g2)"
    "gh_comments G n g2 = (Inr (cs @ [(i, self_repair_note me item now)]), g3)"
    "newer cs [(i, self_repair_note me item now)]" "good_owner me" "clean item" "in_i64 now" "0 \<le> ttl"
    "\<forall>(j, n)\<in>set (parsed cs). m_ts n \<le> now"
  shows "claim_self_repair G me n item now ttl g = (True, g3)"
proof -
  let ?m = "\<lparr>m_action = Claim, m_owner = me, m_item = item, m_ts = now, m_hash = []\<rparr>"
  have p: "marker_parse (self_repair_note me item now) = Some (read_back ?m)"
    using parse_rendered [of ?m "''Claiming self-repair for `'' @ me @ ''`.'' @ [CHR 0x0A, CHR 0x0A]"] assms(7-9)
    by (simp add: self_repair_note_def readable_def good_owner_def)
  have m: "m_action (read_back ?m) = Claim" "m_owner (read_back ?m) = me" "m_ts (read_back ?m) = now"
    using assms(7) by (simp_all add: read_back_def marker_field_def good_owner_def)
  have "i_hold (cs @ [(i, self_repair_note me item now)]) me now ttl"
    by (rule lowest_claim_wins [OF assms(6) p m(1,2) assms(11) _ fresh_claim_stands [OF assms(6) p m(1,3) assms(10,11)]])
      (use p assms(2,3) in \<open>auto simp: resolve_holder_None\<close>)
  then show ?thesis using assms(1,2,4,5) by (simp add: claim_self_repair_def)
qed

text \<open>
  \<^bold>\<open>A machine whose name has a space never repairs.\<close> Its claim comment cannot be read back, so
  a machine that finds no holder, posts its claim and reads it back defers, however often it tries.
\<close>

lemma spaced_machine_name_never_repairs:
  assumes "gh_comments G n g = (Inr cs, g1)" "resolve_holder cs now ttl = None"
    and "gh_post G n (self_repair_note me item now) g1 = (Inr i, g2)"
    and "gh_comments G n g2 = (Inr (cs @ [(i, self_repair_note me item now)]), g3)"
    and "me = a @ '' '' @ b" "clean a" "clean b" "b \<noteq> []" "CHR ''='' \<notin> set b" "clean item"
  shows "claim_self_repair G me n item now ttl g = (False, g3) \<and>
    resolve_holder (cs @ [(i, self_repair_note me item now)]) now ttl = None"
proof -
  let ?m = "\<lparr>m_action = Claim, m_owner = me, m_item = item, m_ts = now, m_hash = []\<rparr>"
  have "marker_parse (self_repair_note me item now) = None"
    using spaced_owner_unreadable [of ?m a b "''Claiming self-repair for `'' @ me @ ''`.'' @ [CHR 0x0A, CHR 0x0A]"] assms(5-10)
    by (simp add: self_repair_note_def)
  then have "parsed (cs @ [(i, self_repair_note me item now)]) = parsed cs" by simp
  then have none: "resolve_holder (cs @ [(i, self_repair_note me item now)]) now ttl = None"
    using assms(2) unfolding resolve_holder_def by simp
  then show ?thesis using assms(1-4) by (simp add: claim_self_repair_def i_hold_def)
qed

text \<open>A GitHub that appends comments to the issue it is asked about.\<close>

definition posting_github :: "comments github" where
  "posting_github =
     \<lparr>gh_list = (\<lambda>_ _ g. (Inr [], g)), gh_comments = (\<lambda>_ g. (Inr g, g)),
      gh_post = (\<lambda>_ body g. (Inr (length g), g @ [(length g, body)])),
      gh_edit = (\<lambda>_ _ g. (Inr (), g)), gh_close = (\<lambda>_ g. (Inr (), g)),
      gh_add_labels = (\<lambda>_ _ g. (Inr (), g)), gh_remove_label = (\<lambda>_ _ g. (Inr (), g))\<rparr>"

lemma spaced_machine_name_never_repairs_witness:
  "fst (claim_self_repair posting_github ''my laptop'' 9 ''u'' 100 1800 []) = False"
proof -
  have "claim_self_repair posting_github ''my laptop'' 9 ''u'' 100 1800 [] = (False, [(0, self_repair_note ''my laptop'' ''u'' 100)]) \<and>
      resolve_holder ([] @ [(0, self_repair_note ''my laptop'' ''u'' 100)]) 100 1800 = None"
    by (rule spaced_machine_name_never_repairs [where a = "''my''" and b = "''laptop''" and ?g1.0 = "[]" and
          ?g2.0 = "[(0, self_repair_note ''my laptop'' ''u'' 100)]"])
      (simp_all add: posting_github_def resolve_holder_def issue_done_def Let_def clean_def is_space_def)
  then show ?thesis by simp
qed

end
