(* ===== verification/Approval_Class.thy ===== *)
theory Approval_Class
  imports Str_Ops
begin

text \<open>
  The command classifier of the approval gate: \<^verbatim>\<open>crates/agentflare-approval/src/classifier.rs\<close>, with
  the class and tier types of \<^verbatim>\<open>types.rs\<close> and the tier matrix of \<^verbatim>\<open>policy.rs\<close>. A command line is
  cut at its top-level operators, the contents of command substitutions are added as further
  segments, every segment is classified by its leading command, and the highest class wins.
  Text is ASCII (the model's strings are bytes, and \<open>is_whitespace\<close> is the ASCII one).
\<close>

section \<open>Classes, tiers and the tier matrix\<close>

datatype command_class = Read | Write | Network | Install | Destructive

datatype autonomy_tier = ReadOnly | Supervised | Full

datatype tier_act = TAllow | TPrompt | TBlock

text \<open>The derived \<open>Ord\<close> of the enum: the order of its constructors.\<close>

fun class_rank :: "command_class \<Rightarrow> nat" where
  "class_rank Read = 0"
| "class_rank Write = 1"
| "class_rank Network = 2"
| "class_rank Install = 3"
| "class_rank Destructive = 4"

lemma class_rank_inj: "class_rank a = class_rank b \<Longrightarrow> a = b"
  by (cases a; cases b) simp_all

instantiation command_class :: linorder
begin

definition less_eq_command_class :: "command_class \<Rightarrow> command_class \<Rightarrow> bool" where
  "a \<le> b \<longleftrightarrow> class_rank a \<le> class_rank b"

definition less_command_class :: "command_class \<Rightarrow> command_class \<Rightarrow> bool" where
  "a < b \<longleftrightarrow> class_rank a < class_rank b"

instance
  by standard (auto simp: less_eq_command_class_def less_command_class_def dest: class_rank_inj)

end

lemma Read_least [simp]: "Read \<le> c"
  by (simp add: less_eq_command_class_def)

lemma le_Read [simp]: "c \<le> Read \<longleftrightarrow> c = Read"
  by (cases c) (simp_all add: less_eq_command_class_def)

fun class_as_str :: "command_class \<Rightarrow> string" where
  "class_as_str Read = ''read''"
| "class_as_str Write = ''write''"
| "class_as_str Network = ''network''"
| "class_as_str Install = ''install''"
| "class_as_str Destructive = ''destructive''"

definition class_from_str :: "string \<Rightarrow> command_class option" where
  "class_from_str s =
     (if s = ''read'' then Some Read
      else if s = ''write'' then Some Write
      else if s = ''network'' then Some Network
      else if s = ''install'' then Some Install
      else if s = ''destructive'' then Some Destructive
      else None)"

lemma class_str_roundtrip [simp]: "class_from_str (class_as_str c) = Some c"
  by (cases c) (simp_all add: class_from_str_def)

fun tier_action :: "autonomy_tier \<Rightarrow> command_class \<Rightarrow> tier_act" where
  "tier_action _ Read = TAllow"
| "tier_action ReadOnly _ = TBlock"
| "tier_action Supervised Write = TPrompt"
| "tier_action Full Write = TAllow"
| "tier_action _ _ = TPrompt"

lemma tier_action_mono_allow: "tier_action t d = TAllow \<Longrightarrow> c \<le> d \<Longrightarrow> tier_action t c = TAllow"
  by (cases t; cases c; cases d) (simp_all add: less_eq_command_class_def)

lemma read_only_tier_allows: "tier_action ReadOnly c = TAllow \<longleftrightarrow> c = Read"
  by (cases c) simp_all

lemma block_only_read_only: "tier_action t c = TBlock \<Longrightarrow> t = ReadOnly"
  by (cases t; cases c) simp_all

section \<open>Text helpers\<close>

text \<open>The two quote characters, as an explicit test.\<close>

definition is_quote :: "char \<Rightarrow> bool" where
  "is_quote c \<longleftrightarrow> c = CHR 39 \<or> c = CHR 34"

definition trim_quotes :: "string \<Rightarrow> string" where
  "trim_quotes s = rev (dropWhile is_quote (rev (dropWhile is_quote s)))"

definition is_alpha :: "char \<Rightarrow> bool" where
  "is_alpha c \<longleftrightarrow> (CHR ''a'' \<le> c \<and> c \<le> CHR ''z'') \<or> (CHR ''A'' \<le> c \<and> c \<le> CHR ''Z'')"

definition is_digit :: "char \<Rightarrow> bool" where
  "is_digit c \<longleftrightarrow> CHR ''0'' \<le> c \<and> c \<le> CHR ''9''"

section \<open>Cutting a command line into segments\<close>

text \<open>
  \<open>split_top_level\<close> scans with the pending quote and the current segment; an operator outside
  quotes ends the segment, and a doubled operator counts once.
\<close>

definition is_operator :: "char \<Rightarrow> bool" where
  "is_operator c \<longleftrightarrow> c = CHR '';'' \<or> c = CHR ''|'' \<or> c = CHR ''&''"

definition swallow :: "char \<Rightarrow> string \<Rightarrow> string" where
  "swallow c s = (case s of d # s' \<Rightarrow> if d = c then s' else s | [] \<Rightarrow> [])"

lemma swallow_le: "length (swallow c s) \<le> length s"
  by (cases s) (simp_all add: swallow_def)

lemma swallow_simps [simp]:
  "swallow c [] = []" "swallow c (d # s) = (if d = c then s else d # s)"
  by (simp_all add: swallow_def)

function split_scan :: "char option \<Rightarrow> string \<Rightarrow> string \<Rightarrow> string list" where
  "split_scan q cur [] = [cur]"
| "split_scan (Some q) cur (c # s) = split_scan (if c = q then None else Some q) (cur @ [c]) s"
| "split_scan None cur (c # s) =
     (if is_quote c then split_scan (Some c) (cur @ [c]) s
      else if is_operator c then cur # split_scan None [] (swallow c s)
      else split_scan None (cur @ [c]) s)"
  by pat_completeness auto
termination
  by (relation "measure (\<lambda>(q, cur, s). length s)") (auto simp: le_imp_less_Suc swallow_le)

definition keep_segments :: "string list \<Rightarrow> string list" where
  "keep_segments ws = filter (\<lambda>s. s \<noteq> []) (map trim ws)"

lemma keep_segments_simps [simp]:
  "keep_segments [] = []"
  "keep_segments (w # ws) = (if trim w = [] then keep_segments ws else trim w # keep_segments ws)"
  by (simp_all add: keep_segments_def)

definition split_top_level :: "string \<Rightarrow> string list" where
  "split_top_level command = keep_segments (split_scan None [] command)"

text \<open>\<open>extract_substitutions\<close>: the contents of \<open>$(...)\<close> up to the matching parenthesis, or of a pair of backticks.\<close>

fun close_paren :: "nat \<Rightarrow> string \<Rightarrow> string \<times> string" where
  "close_paren d [] = ([], [])"
| "close_paren d (c # s) =
     (let d' = (if c = CHR ''('' then d + 1 else if c = CHR '')'' then d - 1 else d)
      in if d' = 0 then ([], s)
         else (case close_paren d' s of (inner, rest) \<Rightarrow> (c # inner, rest)))"

lemma close_paren_shorter: "close_paren d s = (inner, rest) \<Longrightarrow> length rest \<le> length s"
  by (induction s arbitrary: d inner) (auto simp: Let_def split: if_splits prod.splits, (fastforce)+)

lemma split_once_shorter: "split_once d s = Some (a, b) \<Longrightarrow> length b < length s"
  by (auto simp: split_once_Some)

lemma length_tl_less: "n \<le> length (tl s) \<Longrightarrow> n \<le> length s"
  by simp

definition backtick :: char where
  "backtick = CHR 96"

function extract_substitutions :: "string \<Rightarrow> string list" where
  "extract_substitutions [] = []"
| "extract_substitutions (c # s) =
     (if c = CHR ''$'' \<and> s \<noteq> [] \<and> hd s = CHR ''('' then
        (case close_paren 1 (tl s) of (inner, rest) \<Rightarrow>
           split_top_level inner @ extract_substitutions rest)
      else if c = backtick then
        (case split_once backtick s of
           None \<Rightarrow> []
         | Some (inner, rest) \<Rightarrow> split_top_level inner @ extract_substitutions rest)
      else extract_substitutions s)"
  by pat_completeness auto
termination
  by (relation "measure length")
    (auto simp: less_Suc_eq_le length_tl_less dest!: split_once_shorter close_paren_shorter [OF sym])

declare extract_substitutions.simps(2) [simp del]

section \<open>Words\<close>

fun token_scan :: "char option \<Rightarrow> string \<Rightarrow> string \<Rightarrow> string list" where
  "token_scan q cur [] = (if cur = [] then [] else [cur])"
| "token_scan (Some q) cur (c # s) =
     (if c = q then token_scan None cur s else token_scan (Some q) (cur @ [c]) s)"
| "token_scan None cur (c # s) =
     (if is_quote c then token_scan (Some c) cur s
      else if is_space c then
        (if cur = [] then token_scan None [] s else cur # token_scan None [] s)
      else token_scan None (cur @ [c]) s)"

definition shell_tokens :: "string \<Rightarrow> string list" where
  "shell_tokens segment = token_scan None [] segment"

definition is_env_assignment :: "string \<Rightarrow> bool" where
  "is_env_assignment token =
     (case split_once CHR ''='' token of
        None \<Rightarrow> False
      | Some (name, _) \<Rightarrow>
          name \<noteq> [] \<and> (is_alpha (hd name) \<or> hd name = CHR ''_'') \<and>
          list_all (\<lambda>c. is_alpha c \<or> is_digit c \<or> c = CHR ''_'') name)"

text \<open>\<open>trim_end_matches\<close> removes the suffix as often as it occurs; \<open>rsplit\<close> yields the last path component.\<close>

function trim_end_all :: "string \<Rightarrow> string \<Rightarrow> string" where
  "trim_end_all p s =
     (if p \<noteq> [] \<and> suffix p s then trim_end_all p (take (length s - length p) s) else s)"
  by pat_completeness auto
termination
  by (relation "measure (\<lambda>(p, s). length s)") (auto simp: suffix_def)

declare trim_end_all.simps [simp del]

definition last_component :: "string \<Rightarrow> string" where
  "last_component s = rev (takeWhile (\<lambda>c. c \<noteq> CHR ''/'' \<and> c \<noteq> CHR 92) (rev s))"

definition basename :: "string \<Rightarrow> string option" where
  "basename token =
     (let trimmed = trim_quotes token
      in if trimmed = [] then None
         else Some (to_lowercase (trim_end_all ''.exe'' (last_component trimmed))))"

section \<open>Destructive patterns\<close>

definition rm_names :: "string list" where
  "rm_names = [''rm'', ''rmdir'', ''del'', ''erase'']"

definition is_flag :: "string \<Rightarrow> bool" where
  "is_flag t \<longleftrightarrow> prefix ''-'' t \<or> prefix ''/'' t"

definition destructive_substrings :: "string list" where
  "destructive_substrings =
     [''mkfs'', ''dd if='', ''shutdown'', ''reboot'', '' format '', ''diskpart'', ''chmod -r 777'',
      ''chmod 777 -r'', ''git push --force'', ''git push -f'', ''git reset --hard'',
      '':(){ :|:& };:'', '':(){:|:&};:'']"

definition is_destructive_segment :: "string \<Rightarrow> string list \<Rightarrow> bool" where
  "is_destructive_segment lower tokens \<longleftrightarrow>
     (list_ex (\<lambda>t. case basename t of None \<Rightarrow> False | Some b \<Rightarrow> b \<in> set rm_names) tokens \<and>
      list_ex (\<lambda>t. is_flag t \<and>
         (let tl = to_lowercase t in CHR ''r'' \<in> set tl \<or> tl = ''/s'')) tokens \<and>
      list_ex (\<lambda>t. is_flag t \<and>
         (let tl = to_lowercase t in CHR ''f'' \<in> set tl \<or> tl = ''/q'')) tokens) \<or>
     list_ex (\<lambda>p. str_contains p lower) destructive_substrings"

definition redirects_to_device :: "string \<Rightarrow> bool" where
  "redirects_to_device lower \<longleftrightarrow>
     str_contains ''> /dev/sd'' lower \<or> str_contains ''>/dev/sd'' lower \<or>
     str_contains ''> /dev/nvme'' lower \<or> str_contains ''>/dev/nvme'' lower \<or>
     str_contains ''of=/dev/sd'' lower \<or> str_contains ''of=/dev/nvme'' lower"

section \<open>Classifying one segment\<close>

definition read_only_commands :: "string list" where
  "read_only_commands =
     [''ls'', ''dir'', ''cat'', ''less'', ''more'', ''head'', ''tail'', ''wc'', ''grep'', ''egrep'',
      ''fgrep'', ''rg'', ''pwd'', ''echo'', ''printf'', ''whoami'', ''id'', ''date'', ''uname'',
      ''hostname'', ''env'', ''printenv'', ''which'', ''type'', ''file'', ''stat'', ''du'', ''df'',
      ''ps'', ''top'', ''sort'', ''uniq'', ''cut'', ''tree'', ''basename'', ''dirname'', ''true'',
      ''false'', ''sleep'', ''cd'', ''history'', ''man'', ''help'']"

definition git_read_only_subcommands :: "string list" where
  "git_read_only_subcommands =
     [''status'', ''log'', ''diff'', ''show'', ''branch'', ''remote'', ''rev-parse'', ''describe'',
      ''blame'', ''shortlog'', ''config'', ''fetch'']"

definition git_network_subcommands :: "string list" where
  "git_network_subcommands = [''clone'', ''pull'', ''push'']"

definition install_managers :: "(string \<times> string list) list" where
  "install_managers =
     [(''npm'', [''install'', ''i'', ''ci'', ''add'']), (''pnpm'', [''install'', ''i'', ''add'']),
      (''yarn'', [''install'', ''add'']), (''pip'', [''install'']), (''pip3'', [''install'']),
      (''apt'', [''install'']), (''apt-get'', [''install'']), (''yum'', [''install'']),
      (''dnf'', [''install'']), (''brew'', [''install'']), (''cargo'', [''install'']),
      (''gem'', [''install'']), (''choco'', [''install'']), (''winget'', [''install'']),
      (''go'', [''install''])]"

definition network_commands :: "string list" where
  "network_commands =
     [''curl'', ''wget'', ''ssh'', ''scp'', ''sftp'', ''ftp'', ''telnet'', ''nc'', ''ncat'', ''netcat'',
      ''rsync'', ''ping'', ''iwr'', ''invoke-webrequest'']"

definition classify_git :: "string list \<Rightarrow> command_class" where
  "classify_git rest =
     (case rest of
        [] \<Rightarrow> Write
      | sub # _ \<Rightarrow>
          if sub \<in> set git_network_subcommands then Network
          else if sub \<in> set git_read_only_subcommands then Read
          else Write)"

definition classify_by_command :: "string \<Rightarrow> string list \<Rightarrow> string \<Rightarrow> command_class" where
  "classify_by_command cmd rest full_segment =
     (if cmd = ''git'' then classify_git rest
      else if cmd = ''find'' then
        (let lower = to_lowercase full_segment
         in if str_contains ''-delete'' lower \<or> str_contains ''-exec'' lower then Write else Read)
      else
        (case map_of install_managers cmd of
           Some subs \<Rightarrow> if rest \<noteq> [] \<and> hd rest \<in> set subs then Install else Write
         | None \<Rightarrow>
             if cmd \<in> set network_commands then Network
             else if cmd \<in> set read_only_commands then Read
             else Write))"

text \<open>The words from the first that is no environment assignment, and what a leading \<open>sudo\<close> leaves.\<close>

definition command_words :: "string list \<Rightarrow> string list" where
  "command_words tokens = dropWhile is_env_assignment tokens"

definition is_sudo :: "string \<Rightarrow> bool" where
  "is_sudo t \<longleftrightarrow> basename t \<in> {Some ''sudo'', Some ''doas'', Some ''runas''}"

definition skip_sudo :: "string list \<Rightarrow> string list" where
  "skip_sudo ws =
     (case ws of
        w # ws' \<Rightarrow> if is_sudo w then dropWhile (\<lambda>t. prefix ''-'' t) ws' else ws
      | [] \<Rightarrow> [])"

definition classify_segment :: "string \<Rightarrow> command_class" where
  "classify_segment segment =
     (let lower = to_lowercase segment; tokens = shell_tokens segment
      in if is_destructive_segment lower tokens then Destructive
         else if redirects_to_device lower then Destructive
         else
           (let ws = command_words tokens
            in case skip_sudo ws of
                 [] \<Rightarrow> Write
               | w # rest \<Rightarrow>
                   (case basename w of
                      None \<Rightarrow> Write
                    | Some cmd \<Rightarrow>
                        let c = classify_by_command cmd rest segment
                        in if is_sudo (hd ws) then max c Write else c)))"

definition command_segments :: "string \<Rightarrow> string list" where
  "command_segments command = split_top_level command @ extract_substitutions command"

definition classify_command :: "string \<Rightarrow> command_class" where
  "classify_command command =
     (case map classify_segment (command_segments command) of
        [] \<Rightarrow> Write
      | c # cs \<Rightarrow> fold max cs c)"

section \<open>The key of an always-allow grant\<close>

definition allow_key :: "string \<Rightarrow> string" where
  "allow_key command =
     (let first_segment = (case split_top_level command of [] \<Rightarrow> command | s # _ \<Rightarrow> s)
      in case skip_sudo (command_words (shell_tokens first_segment)) of
           [] \<Rightarrow> ''unknown''
         | w # rest \<Rightarrow>
             (case basename w of
                None \<Rightarrow> ''unknown''
              | Some cmd \<Rightarrow>
                  if cmd = ''git'' then
                    (case rest of [] \<Rightarrow> cmd | sub # _ \<Rightarrow> ''git:'' @ sub)
                  else cmd))"

section \<open>Compound commands\<close>

text \<open>The quote that is open after a text: an operator is top-level where none is.\<close>

fun quote_after :: "char option \<Rightarrow> string \<Rightarrow> char option" where
  "quote_after q [] = q"
| "quote_after (Some q) (c # s) = quote_after (if c = q then None else Some q) s"
| "quote_after None (c # s) = quote_after (if is_quote c then Some c else None) s"

lemma operator_not_quote: "is_operator c \<Longrightarrow> \<not> is_quote c"
  by (auto simp: is_operator_def is_quote_def)

lemma keep_split_swallow:
  "is_operator c \<Longrightarrow>
     keep_segments (split_scan None [] (swallow c s)) = keep_segments (split_scan None [] s)"
proof (induction s rule: length_induct)
  case (1 s)
  show ?case
  proof (cases s)
    case (Cons d s')
    then show ?thesis using 1 by (auto simp: operator_not_quote)
  qed simp
qed

lemma keep_split_operator:
  "is_operator c \<Longrightarrow>
     keep_segments (split_scan None cur (c # s)) =
     keep_segments [cur] @ keep_segments (split_scan None [] s)"
  by (simp add: operator_not_quote keep_split_swallow)

lemma keep_split_append:
  "quote_after q a = None \<Longrightarrow> is_operator c \<Longrightarrow>
     keep_segments (split_scan q cur (a @ c # b)) =
     keep_segments (split_scan q cur a) @ keep_segments (split_scan None [] b)"
proof (induction q cur a rule: split_scan.induct)
  case (1 q cur)
  then show ?case using keep_split_operator by (cases q) simp_all
next
  case (2 q cur d s)
  then show ?case by simp
next
  case (3 cur d s)
  show ?case
  proof (cases "is_operator d")
    case False
    with 3 show ?thesis by (cases "is_quote d") simp_all
  next
    case op: True
    then have nq: "\<not> is_quote d" by (rule operator_not_quote)
    show ?thesis
    proof (cases "s \<noteq> [] \<and> hd s = d")
      case True
      then obtain s' where s: "s = d # s'" by (cases s) auto
      with 3 op nq show ?thesis by (simp add: s)
    next
      case False
      then have "swallow d s = s" by (cases s) auto
      moreover have "s \<noteq> [] \<Longrightarrow> swallow d (s @ c # b) = s @ c # b" using False by (cases s) auto
      ultimately show ?thesis using 3 op nq
        by (cases s) (auto simp: keep_split_swallow keep_split_operator [of c "[]"])
    qed
  qed
qed

lemma split_top_level_operator:
  "quote_after None a = None \<Longrightarrow> is_operator c \<Longrightarrow>
     split_top_level (a @ c # b) = split_top_level a @ split_top_level b"
  by (simp add: split_top_level_def keep_split_append)

lemma extract_plain: "CHR ''$'' \<notin> set a \<Longrightarrow> backtick \<notin> set a \<Longrightarrow>
   extract_substitutions (a @ s) = extract_substitutions s"
  by (induction a) (auto simp: extract_substitutions.simps(2))

lemma extract_operator: "is_operator c \<Longrightarrow> extract_substitutions (c # s) = extract_substitutions s"
  by (auto simp: extract_substitutions.simps(2) is_operator_def backtick_def)

lemma classify_command_Max:
  "classify_command cmd =
     (if command_segments cmd = [] then Write else Max (classify_segment ` set (command_segments cmd)))"
proof (cases "command_segments cmd")
  case Nil
  then show ?thesis by (simp add: classify_command_def)
next
  case (Cons s ss)
  have "fold max (map classify_segment ss) (classify_segment s) =
        Max (set (classify_segment s # map classify_segment ss))"
    by (simp only: Max.set_eq_fold)
  with Cons show ?thesis by (simp add: classify_command_def)
qed

lemma segment_le_command:
  "seg \<in> set (command_segments cmd) \<Longrightarrow> classify_segment seg \<le> classify_command cmd"
  by (auto simp: classify_command_Max)

text \<open>What the allowlist of read commands amounts to: the leading word is listed, or a reading form of git or find.\<close>

definition runs_listed :: "string \<Rightarrow> bool" where
  "runs_listed seg \<longleftrightarrow>
     (\<exists>w rest cmd. command_words (shell_tokens seg) = w # rest \<and> basename w = Some cmd \<and> \<not> is_sudo w \<and>
        (cmd \<in> set read_only_commands \<or>
         cmd = ''find'' \<and> \<not> str_contains ''-delete'' (to_lowercase seg) \<and>
           \<not> str_contains ''-exec'' (to_lowercase seg) \<or>
         cmd = ''git'' \<and> (\<exists>sub ws. rest = sub # ws \<and> sub \<in> set git_read_only_subcommands)))"

lemma classify_by_command_Read:
  "classify_by_command cmd rest seg = Read \<Longrightarrow>
     cmd \<in> set read_only_commands \<or>
     cmd = ''find'' \<and> \<not> str_contains ''-delete'' (to_lowercase seg) \<and>
       \<not> str_contains ''-exec'' (to_lowercase seg) \<or>
     cmd = ''git'' \<and> (\<exists>sub ws. rest = sub # ws \<and> sub \<in> set git_read_only_subcommands)"
  by (simp add: classify_by_command_def classify_git_def Let_def split: if_splits option.splits list.splits)

lemma max_Write_not_Read [simp]: "max c Write \<noteq> Read"
  by (cases c) (simp_all add: max_def less_eq_command_class_def)

lemma classify_segment_Read: "classify_segment seg = Read \<Longrightarrow> runs_listed seg"
proof -
  assume r: "classify_segment seg = Read"
  then obtain w rest cmd where
    w: "skip_sudo (command_words (shell_tokens seg)) = w # rest" "basename w = Some cmd"
    and c: "classify_by_command cmd rest seg = Read"
    and ns: "\<not> is_sudo (hd (command_words (shell_tokens seg)))"
    by (auto simp: classify_segment_def Let_def split: if_splits list.splits option.splits)
  from w ns have "command_words (shell_tokens seg) = w # rest"
    by (auto simp: skip_sudo_def split: list.splits if_splits)
  with w ns classify_by_command_Read [OF c] show ?thesis by (simp add: runs_listed_def)
qed

lemma read_command_segments:
  "classify_command cmd = Read \<Longrightarrow> seg \<in> set (command_segments cmd) \<Longrightarrow> runs_listed seg"
  using segment_le_command [of seg cmd] by (intro classify_segment_Read) simp

lemma allow_key_compound:
  "quote_after None a = None \<Longrightarrow> is_operator c \<Longrightarrow> split_top_level a \<noteq> [] \<Longrightarrow>
     allow_key (a @ c # b) = allow_key a"
  by (auto simp: allow_key_def split_top_level_operator neq_Nil_conv)

section \<open>Properties\<close>

text \<open>
  The class of a compound command is the highest of its parts: nothing that follows an
  operator outside quotes is hidden by what stands before it.
\<close>

lemma compound_takes_highest_class:
  assumes "quote_after None a = None" "is_operator c" "CHR ''$'' \<notin> set a" "backtick \<notin> set a"
    and "split_top_level a \<noteq> []" "split_top_level b \<noteq> []"
  shows "classify_command (a @ c # b) = max (classify_command a) (classify_command b)"
proof -
  have ea: "extract_substitutions a = []" using extract_plain [of a "[]"] assms by simp
  have segs: "command_segments (a @ c # b) = command_segments a @ command_segments b"
    using assms ea
    by (simp add: command_segments_def split_top_level_operator extract_plain extract_operator)
  have "command_segments a \<noteq> []" "command_segments b \<noteq> []"
    using assms by (simp_all add: command_segments_def)
  then show ?thesis by (simp add: classify_command_Max segs image_Un Max_Un)
qed

lemma compound_takes_highest_class_example:
  "classify_command (''echo hi '' @ CHR ''&'' # ''& rm -rf /'') =
     max (classify_command ''echo hi '') (classify_command ''& rm -rf /'') \<and>
   classify_command (''echo hi '' @ CHR ''&'' # ''& rm -rf /'') = Destructive"
proof -
  have "quote_after None ''echo hi '' = None" by code_simp
  moreover have "is_operator CHR ''&''" by code_simp
  moreover have "CHR ''$'' \<notin> set ''echo hi ''" "backtick \<notin> set ''echo hi ''" by code_simp+
  moreover have "split_top_level ''echo hi '' \<noteq> []" "split_top_level ''& rm -rf /'' \<noteq> []" by code_simp+
  moreover have "classify_command (''echo hi '' @ CHR ''&'' # ''& rm -rf /'') = Destructive" by code_simp
  ultimately show ?thesis using compound_takes_highest_class by blast
qed

text \<open>
  In the read-only tier every command that is let through consists of segments, the contents
  of its command substitutions included, whose leading word is on the list of reading commands.
\<close>

lemma read_only_tier_runs_listed:
  assumes "tier_action ReadOnly (classify_command cmd) = TAllow" "seg \<in> set (command_segments cmd)"
  shows "runs_listed seg"
  using assms by (simp add: read_only_tier_allows read_command_segments)

lemma read_only_tier_runs_listed_example:
  "tier_action ReadOnly (classify_command ''cat $(git diff) | wc'') = TAllow \<and> runs_listed ''git diff''"
proof -
  have "tier_action ReadOnly (classify_command ''cat $(git diff) | wc'') = TAllow" by code_simp
  moreover have "''git diff'' \<in> set (command_segments ''cat $(git diff) | wc'')" by code_simp
  ultimately show ?thesis using read_only_tier_runs_listed by blast
qed

text \<open>
  The limits of the list: redirection into a file and a newline between two commands leave the
  class at \<open>Read\<close>.
\<close>

lemma redirection_is_Read: "classify_command ''echo x > .bashrc'' = Read"
  by code_simp

lemma newline_is_Read: "classify_command (''ls'' @ CHR 10 # ''npm install x'') = Read"
  by code_simp

text \<open>
  The key of an always-allow grant is that of the first segment: a grant for a command covers
  every compound command that begins with it.
\<close>

lemma allow_key_ignores_tail:
  assumes "quote_after None a = None" "is_operator c" "split_top_level a \<noteq> []"
  shows "allow_key (a @ c # b) = allow_key a"
  using assms by (rule allow_key_compound)

lemma allow_key_ignores_tail_example:
  "allow_key (''npm ci'' @ CHR '';'' # ''rm -rf /'') = allow_key ''npm ci'' \<and>
   classify_command ''npm ci'' = Install \<and> classify_command (''npm ci'' @ CHR '';'' # ''rm -rf /'') = Destructive"
proof -
  have "quote_after None ''npm ci'' = None" "is_operator CHR '';''" "split_top_level ''npm ci'' \<noteq> []"
    by code_simp+
  moreover have "classify_command ''npm ci'' = Install" by code_simp
  moreover have "classify_command (''npm ci'' @ CHR '';'' # ''rm -rf /'') = Destructive" by code_simp
  ultimately show ?thesis using allow_key_ignores_tail by blast
qed

end
