(* ===== verification/Approval_Redact.thy ===== *)
theory Approval_Redact
  imports Approval_Class Json_Value
begin

text \<open>
  Redaction of what the approval gate stores or shows: \<^verbatim>\<open>crates/agentflare-approval/src/redact.rs\<close>.
  Home directories are replaced, words that look like secrets are masked, the text is capped, and
  structured arguments lose the text below sensitive keys. A character is a byte here (ASCII text);
  the ellipsis of a capped text is its UTF-8 encoding.
\<close>

section \<open>Home directories\<close>

definition starts_with_ci :: "string \<Rightarrow> string \<Rightarrow> bool" where
  "starts_with_ci needle s \<longleftrightarrow>
     length needle \<le> length s \<and> to_lowercase (take (length needle) s) = to_lowercase needle"

definition match_home_prefix :: "string \<Rightarrow> nat option" where
  "match_home_prefix s =
     (if starts_with_ci ''/Users/'' s then Some 7
      else if starts_with_ci ''/home/'' s then Some 6
      else if 9 \<le> length s \<and> is_alpha (s ! 0) \<and> s ! 1 = CHR '':'' \<and> s ! 2 = CHR 92 \<and>
        to_lowercase (take 6 (drop 3 s)) = ''users'' @ [CHR 92] then Some 9
      else None)"

definition is_sep :: "char \<Rightarrow> bool" where
  "is_sep c \<longleftrightarrow> c = CHR ''/'' \<or> c = CHR 92"

lemma match_home_prefix_pos: "match_home_prefix s = Some n \<Longrightarrow> 0 < n \<and> n \<le> length s"
  by (auto simp: match_home_prefix_def starts_with_ci_def split: if_splits)

function scrub_scan :: "string \<Rightarrow> string" where
  "scrub_scan [] = []"
| "scrub_scan (c # s) =
     (case match_home_prefix (c # s) of
        Some n \<Rightarrow> ''<HOME>'' @ scrub_scan (dropWhile (\<lambda>x. \<not> is_sep x) (drop n (c # s)))
      | None \<Rightarrow> c # scrub_scan s)"
  by pat_completeness auto
termination
proof (relation "measure length", simp_all, goal_cases)
  case (1 c s n)
  then have "0 < n" using match_home_prefix_pos by blast
  moreover have "length (dropWhile (\<lambda>x. \<not> is_sep x) (drop n (c # s))) \<le> length (drop n (c # s))"
    by (rule length_dropWhile_le)
  ultimately show ?case by simp
qed

declare scrub_scan.simps(2) [simp del]

definition scrub_paths :: "string \<Rightarrow> string" where
  "scrub_paths input =
     (if \<not> str_contains ''Users'' input \<and> \<not> str_contains ''home'' input then input
      else scrub_scan input)"

section \<open>Secrets\<close>

definition max_command_len :: nat where
  "max_command_len = 512"

definition secret_prefixes :: "string list" where
  "secret_prefixes =
     [''sk-'', ''ghp_'', ''gho_'', ''ghu_'', ''ghs_'', ''ghr_'', ''xox'', ''AKIA'', ''AIza'']"

definition sensitive_flag_names :: "string list" where
  "sensitive_flag_names =
     [''password'', ''passwd'', ''pwd'', ''token'', ''secret'', ''api_key'', ''apikey'', ''auth'',
      ''authorization'', ''access_key'', ''access_token'', ''private_key'', ''client_secret'']"

definition is_sensitive_name :: "string \<Rightarrow> bool" where
  "is_sensitive_name name \<longleftrightarrow> to_lowercase name \<in> set sensitive_flag_names"

definition is_wrapping :: "char \<Rightarrow> bool" where
  "is_wrapping c \<longleftrightarrow> is_quote c \<or> c = CHR '',''"

definition has_secret_prefix :: "string \<Rightarrow> bool" where
  "has_secret_prefix word =
     (let trimmed = rev (dropWhile is_wrapping (rev (dropWhile is_wrapping word)))
      in list_ex (\<lambda>p. prefix p trimmed) secret_prefixes \<and> 12 \<le> length trimmed)"

definition redacted_mark :: string where
  "redacted_mark = ''[REDACTED]''"

definition trim_dashes :: "string \<Rightarrow> string" where
  "trim_dashes s = dropWhile (\<lambda>c. c = CHR ''-'') s"

text \<open>What a word becomes when the previous word was no flag, and whether the next one is masked.\<close>

definition mask_plain :: "string \<Rightarrow> string \<times> bool" where
  "mask_plain word =
     (let bare_flag = trim_dashes word
      in if bare_flag \<noteq> [] \<and> is_sensitive_name bare_flag then (word, True)
         else if has_secret_prefix word then (redacted_mark, False)
         else (word, False))"

definition mask_word :: "string \<Rightarrow> string \<times> bool" where
  "mask_word word =
     (case split_once CHR ''='' word of
        Some (name, val) \<Rightarrow>
          if is_sensitive_name (trim_dashes name) \<or> (val \<noteq> [] \<and> has_secret_prefix val)
          then (name @ ''='' @ redacted_mark, False)
          else mask_plain word
      | None \<Rightarrow> mask_plain word)"

fun mask_words :: "bool \<Rightarrow> string list \<Rightarrow> string list" where
  "mask_words redact_next [] = []"
| "mask_words redact_next (w # ws) =
     (if redact_next then redacted_mark # mask_words False ws
      else (case mask_word w of (out, next) \<Rightarrow> out # mask_words next ws))"

definition mask_secrets :: "string \<Rightarrow> string" where
  "mask_secrets input = str_join '' '' (mask_words False (split_on CHR '' '' input))"

definition ellipsis :: string where
  "ellipsis = [CHR 0xE2, CHR 0x80, CHR 0xA6]"

definition cap_text :: "string \<Rightarrow> string" where
  "cap_text s = (if length s \<le> max_command_len then s else take (max_command_len - 1) s @ ellipsis)"

definition redact_command :: "string \<Rightarrow> string" where
  "redact_command command = cap_text (mask_secrets (scrub_paths command))"

section \<open>Structured arguments\<close>

definition sensitive_json_keys :: "string list" where
  "sensitive_json_keys =
     [''body'', ''content'', ''message'', ''messages'', ''text'', ''note'', ''password'', ''token'',
      ''api_key'', ''secret'', ''authorization'', ''auth'', ''email'', ''phone'', ''address'']"

definition is_sensitive_key :: "string \<Rightarrow> bool" where
  "is_sensitive_key k \<longleftrightarrow> to_lowercase k \<in> set sensitive_json_keys"

fun redact_value :: "json \<Rightarrow> json" where
  "redact_value (JStr s) = JStr (''<redacted: string ('' @ show_nat (length s) @ '' chars)>'')"
| "redact_value (JArr items) =
     JStr (''<redacted: array ('' @ show_nat (length items) @ '' items)>'')"
| "redact_value (JObj m) = JStr (''<redacted: object ('' @ show_nat (length m) @ '' keys)>'')"
| "redact_value v = v"

fun redact_json :: "json \<Rightarrow> json" where
  "redact_json (JObj m) =
     JObj (map (\<lambda>(k, v). (k, if is_sensitive_key k then redact_value v else redact_json v)) m)"
| "redact_json (JArr items) = JArr (map redact_json items)"
| "redact_json (JStr s) = JStr (scrub_paths s)"
| "redact_json v = v"

section \<open>No home directory survives\<close>

definition names_home :: "string \<Rightarrow> bool" where
  "names_home s \<longleftrightarrow> (\<exists>k. match_home_prefix (drop k s) \<noteq> None)"

abbreviation (input) "mark \<equiv> CHR ''<''"

lemma lower_mark: "mark \<in> set s \<Longrightarrow> mark \<in> set (to_lowercase s)"
proof -
  assume "mark \<in> set s"
  then have "lower_char mark \<in> set (to_lowercase s)" by (simp add: to_lowercase_def)
  moreover have "lower_char mark = mark" by code_simp
  ultimately show ?thesis by simp
qed

lemma no_mark_needles:
  "mark \<notin> set (to_lowercase ''/Users/'')" "mark \<notin> set (to_lowercase ''/home/'')"
  "mark \<notin> set (''users'' @ [CHR 92])"
  by code_simp+

lemma take9: "9 \<le> length s \<Longrightarrow> take 9 s = [s ! 0, s ! 1, s ! 2] @ take 6 (drop 3 s)"
  by (cases s; cases "tl s"; cases "tl (tl s)") (auto simp: take_Cons')

lemma starts_with_ci_needles:
  "starts_with_ci ''/Users/'' s \<longleftrightarrow> 7 \<le> length s \<and> to_lowercase (take 7 s) = to_lowercase ''/Users/''"
  "starts_with_ci ''/home/'' s \<longleftrightarrow> 6 \<le> length s \<and> to_lowercase (take 6 s) = to_lowercase ''/home/''"
  by (simp_all add: starts_with_ci_def eval_nat_numeral)

lemma lower_char_slash: "lower_char c = CHR ''/'' \<Longrightarrow> c = CHR ''/''"
proof (rule ccontr)
  assume l: "lower_char c = CHR ''/''" and n: "c \<noteq> CHR ''/''"
  then have c: "CHR ''A'' \<le> c" "c \<le> CHR ''Z''" "char_of (of_char c + (32 :: nat)) = CHR ''/''"
    by (auto simp: lower_char_def split: if_splits)
  then have b: "65 \<le> (of_char c :: nat)" "(of_char c :: nat) \<le> 90" by (simp_all add: less_eq_char_def)
  have "of_char (char_of (of_char c + (32 :: nat)) :: char) = (47 :: nat)" by (simp add: c(3))
  with b show False by simp
qed

lemma starts_with_ci_slash: "starts_with_ci (CHR ''/'' # p) t \<Longrightarrow> t \<noteq> [] \<and> t ! 0 = CHR ''/''"
proof (cases t)
  case (Cons c s)
  assume "starts_with_ci (CHR ''/'' # p) t"
  then have "lower_char c = lower_char CHR ''/''" by (simp add: starts_with_ci_def to_lowercase_def Cons)
  moreover have "lower_char CHR ''/'' = CHR ''/''" by code_simp
  ultimately show ?thesis by (simp add: Cons lower_char_slash)
qed (simp add: starts_with_ci_def)

lemma slash_not_alpha: "\<not> is_alpha CHR ''/''"
  by code_simp

lemma match_home_no_mark: "match_home_prefix s = Some n \<Longrightarrow> mark \<notin> set (take n s)"
proof -
  assume m: "match_home_prefix s = Some n"
  consider "starts_with_ci ''/Users/'' s" "n = 7" | "starts_with_ci ''/home/'' s" "n = 6"
    | "9 \<le> length s" "is_alpha (s ! 0)" "s ! 1 = CHR '':''" "s ! 2 = CHR 92"
      "to_lowercase (take 6 (drop 3 s)) = ''users'' @ [CHR 92]" "n = 9"
    using m by (auto simp: match_home_prefix_def split: if_splits)
  then show ?thesis
  proof cases
    case 1
    then have "to_lowercase (take n s) = to_lowercase ''/Users/''" by (simp add: starts_with_ci_needles)
    then show ?thesis using lower_mark no_mark_needles by metis
  next
    case 2
    then have "to_lowercase (take n s) = to_lowercase ''/home/''" by (simp add: starts_with_ci_needles)
    then show ?thesis using lower_mark no_mark_needles by metis
  next
    case 3
    then have "s ! 0 \<noteq> mark" by (auto simp: is_alpha_def less_eq_char_def)
    moreover have "mark \<notin> set (take 6 (drop 3 s))" using 3(5) lower_mark no_mark_needles(3) by metis
    ultimately show ?thesis using 3 by (simp add: take9)
  qed
qed

lemma match_home_take: "match_home_prefix s = Some n \<Longrightarrow> take n s = take n t \<Longrightarrow> match_home_prefix t = Some n"
proof -
  assume m: "match_home_prefix s = Some n" and t: "take n s = take n t"
  have l: "n \<le> length t" using match_home_prefix_pos [OF m] t
    by (metis length_take min.absorb2 min.cobounded1)
  consider "starts_with_ci ''/Users/'' s" "n = 7"
    | "starts_with_ci ''/home/'' s" "\<not> starts_with_ci ''/Users/'' s" "n = 6"
    | "9 \<le> length s" "is_alpha (s ! 0)" "s ! 1 = CHR '':''" "s ! 2 = CHR 92"
      "to_lowercase (take 6 (drop 3 s)) = ''users'' @ [CHR 92]" "n = 9"
    using m by (auto simp: match_home_prefix_def split: if_splits)
  then show ?thesis
  proof cases
    case 1
    then have "starts_with_ci ''/Users/'' t" using t l by (simp add: starts_with_ci_needles)
    with 1 show ?thesis by (simp add: match_home_prefix_def)
  next
    case 2
    then have h: "starts_with_ci ''/home/'' t" using t l by (simp add: starts_with_ci_needles)
    have "\<not> starts_with_ci ''/Users/'' t"
    proof
      assume "starts_with_ci ''/Users/'' t"
      then have "take 6 (to_lowercase (take 7 t)) = take 6 (to_lowercase ''/Users/'')"
        by (simp add: starts_with_ci_needles)
      moreover have "take 6 (to_lowercase (take 7 t)) = to_lowercase (take 6 t)"
        by (simp add: to_lowercase_def take_map)
      moreover have "to_lowercase (take 6 t) = to_lowercase ''/home/''" using h by (simp add: starts_with_ci_needles)
      moreover have "take 6 (to_lowercase ''/Users/'') \<noteq> to_lowercase ''/home/''" by code_simp
      ultimately show False by simp
    qed
    with h 2 show ?thesis by (simp add: match_home_prefix_def)
  next
    case 3
    have eq: "[s ! 0, s ! 1, s ! 2] @ take 6 (drop 3 s) = [t ! 0, t ! 1, t ! 2] @ take 6 (drop 3 t)"
      using t l 3 by (simp only: take9)
    then have "t ! 0 = s ! 0" "t ! 1 = s ! 1" "t ! 2 = s ! 2" "take 6 (drop 3 t) = take 6 (drop 3 s)"
      by simp_all
    moreover have "t ! 0 \<noteq> CHR ''/''" using 3 \<open>t ! 0 = s ! 0\<close> slash_not_alpha by auto
    then have "\<not> starts_with_ci ''/Users/'' t" "\<not> starts_with_ci ''/home/'' t"
      using starts_with_ci_slash by blast+
    ultimately show ?thesis using 3 l by (simp add: match_home_prefix_def)
  qed
qed

lemma match_home_mark:
  "match_home_prefix (x @ mark # y) = Some n \<Longrightarrow> match_home_prefix (x @ z) = Some n"
proof -
  assume m: "match_home_prefix (x @ mark # y) = Some n"
  have "n \<le> length x"
  proof (rule ccontr)
    assume "\<not> n \<le> length x"
    then obtain k where "n = length x + Suc k" by (metis less_imp_Suc_add not_le add_Suc_right)
    then have "mark \<in> set (take n (x @ mark # y))" by simp
    with match_home_no_mark [OF m] show False by simp
  qed
  then show ?thesis using m by (auto intro: match_home_take)
qed

lemma scrub_scan_agrees:
  "\<exists>x w. s = x @ w \<and> (scrub_scan s = x \<and> w = [] \<or> (\<exists>y. scrub_scan s = x @ mark # y))"
proof (induction s rule: scrub_scan.induct)
  case 1
  show ?case by simp
next
  case (2 c s)
  show ?case
  proof (cases "match_home_prefix (c # s)")
    case None
    with 2 obtain x w where s: "s = x @ w"
      and x: "scrub_scan s = x \<and> w = [] \<or> (\<exists>y. scrub_scan s = x @ mark # y)" by blast
    then have "c # s = (c # x) @ w" by simp
    moreover have "scrub_scan (c # s) = c # x \<and> w = [] \<or> (\<exists>y. scrub_scan (c # s) = (c # x) @ mark # y)"
      using x None by (auto simp: scrub_scan.simps(2))
    ultimately show ?thesis by blast
  next
    case (Some n)
    then have "scrub_scan (c # s) = [] @ mark # drop 1 (scrub_scan (c # s))"
      by (simp add: scrub_scan.simps(2))
    then show ?thesis by (metis append_Nil)
  qed
qed

lemma match_home_scrubbed_head:
  assumes "match_home_prefix (c # s) = None"
  shows "match_home_prefix (c # scrub_scan s) = None"
proof -
  obtain x w where s: "s = x @ w"
    and x: "scrub_scan s = x \<and> w = [] \<or> (\<exists>y. scrub_scan s = x @ mark # y)"
    using scrub_scan_agrees by blast
  from x show ?thesis
  proof
    assume "scrub_scan s = x \<and> w = []"
    with assms s show ?thesis by simp
  next
    assume "\<exists>y. scrub_scan s = x @ mark # y"
    then obtain y where "scrub_scan s = x @ mark # y" by blast
    with assms s match_home_mark [of "c # x" y _ w] show ?thesis
      by (cases "match_home_prefix (c # scrub_scan s)") auto
  qed
qed

lemma match_home_head:
  "match_home_prefix (c # s) = Some n \<Longrightarrow> c = CHR ''/'' \<or> is_alpha c \<and> s \<noteq> [] \<and> hd s = CHR '':''"
proof -
  assume m: "match_home_prefix (c # s) = Some n"
  consider "starts_with_ci ''/Users/'' (c # s)" | "starts_with_ci ''/home/'' (c # s)"
    | "9 \<le> length (c # s)" "is_alpha ((c # s) ! 0)" "(c # s) ! 1 = CHR '':''"
    using m by (auto simp: match_home_prefix_def split: if_splits)
  then show ?thesis
    by cases (use starts_with_ci_slash [of _ "c # s"] in \<open>cases s; auto\<close>)+
qed

lemma match_home_Nil [simp]: "match_home_prefix [] = None"
  by (simp add: match_home_prefix_def starts_with_ci_def)

text \<open>The replacement itself never starts a match.\<close>

lemma home_mark_no_match:
  "k < 6 \<Longrightarrow> match_home_prefix (drop k (''<HOME>'' @ t)) = None"
proof -
  assume "k < 6"
  then have "k \<in> {0, 1, 2, 3, 4, 5}" by auto
  then show ?thesis
    by (cases "match_home_prefix (drop k (''<HOME>'' @ t))")
      (auto dest!: match_home_head simp: is_alpha_def less_eq_char_def)
qed

lemma scrub_scan_clean: "match_home_prefix (drop k (scrub_scan s)) = None"
proof (induction s arbitrary: k rule: scrub_scan.induct)
  case 1
  show ?case by simp
next
  case (2 c s)
  show ?case
  proof (cases "match_home_prefix (c # s)")
    case None
    then show ?thesis
      using 2(1) [of "k - 1"] match_home_scrubbed_head [OF None]
      by (cases k) (simp_all add: scrub_scan.simps(2))
  next
    case (Some n)
    show ?thesis
    proof (cases "k < 6")
      case True
      with Some show ?thesis
        using home_mark_no_match [OF True, of "scrub_scan (dropWhile (\<lambda>x. \<not> is_sep x) (drop n (c # s)))"]
        by (simp add: scrub_scan.simps(2) drop_Cons')
    next
      case False
      then obtain j where k: "k = j + 6" by (metis le_add_diff_inverse2 not_less)
      have "drop k (''<HOME>'' @ t) = drop j t" for t by (simp add: k eval_nat_numeral)
      with Some 2(2) [OF Some, of j] show ?thesis
        by (simp only: scrub_scan.simps(2) option.simps)
    qed
  qed
qed


lemma scrub_scan_names_no_home: "\<not> names_home (scrub_scan s)"
  by (simp add: names_home_def scrub_scan_clean)

section \<open>No secret survives as a word of its own\<close>

lemma trimmed_prefix:
  "prefix p (rev (dropWhile P (rev (dropWhile P w)))) \<Longrightarrow> prefix p (dropWhile P w)"
  by (metis prefix_order.trans rev_rev_ident suffix_dropWhile suffix_to_prefix)

lemma secret_first_two:
  "has_secret_prefix w \<Longrightarrow>
     take 2 (to_lowercase (dropWhile is_wrapping w)) \<in> {''sk'', ''gh'', ''xo'', ''ak'', ''ai''}"
proof -
  assume "has_secret_prefix w"
  then obtain p where "p \<in> set secret_prefixes" "prefix p (dropWhile is_wrapping w)"
    by (auto simp: has_secret_prefix_def Let_def list_ex_iff dest: trimmed_prefix)
  then have "take 2 (to_lowercase (dropWhile is_wrapping w)) = take 2 (to_lowercase p)"
    and "p \<in> set secret_prefixes"
    by (auto simp: secret_prefixes_def prefix_def to_lowercase_def)
  moreover have "list_all (\<lambda>p. take 2 (to_lowercase p) \<in> {''sk'', ''gh'', ''xo'', ''ak'', ''ai''}) secret_prefixes"
    by code_simp
  ultimately show ?thesis by (auto simp: list_all_iff)
qed

lemma sensitive_flag_no_secret:
  assumes "is_sensitive_name (trim_dashes w)"
  shows "\<not> has_secret_prefix w"
proof
  assume sec: "has_secret_prefix w"
  have names: "list_all (\<lambda>p. p \<noteq> [] \<and> \<not> is_wrapping (hd p) \<and>
      take 2 p \<notin> {''sk'', ''gh'', ''xo'', ''ak'', ''ai''}) sensitive_flag_names"
    by code_simp
  show False
  proof (cases "w \<noteq> [] \<and> hd w = CHR ''-''")
    case True
    then obtain s where w: "w = CHR ''-'' # s" by (cases w) auto
    have "\<not> is_wrapping CHR ''-''" "lower_char CHR ''-'' = CHR ''-''" by code_simp+
    with secret_first_two [OF sec] show False by (auto simp: w to_lowercase_def take_Suc_Cons eval_nat_numeral)
  next
    case False
    then have "trim_dashes w = w" by (cases w) (simp_all add: trim_dashes_def)
    with assms names have n: "w \<noteq> []" "take 2 (to_lowercase w) \<notin> {''sk'', ''gh'', ''xo'', ''ak'', ''ai''}"
      "\<not> is_wrapping (hd (to_lowercase w))"
      by (auto simp: is_sensitive_name_def list_all_iff to_lowercase_def)
    have low: "is_wrapping c \<Longrightarrow> lower_char c = c" for c
      by (auto simp: is_wrapping_def is_quote_def lower_char_def less_eq_char_def)
    from n have "\<not> is_wrapping (hd w)" using low by (cases w) (auto simp: to_lowercase_def)
    then have "dropWhile is_wrapping w = w" using n(1) by (cases w) simp_all
    with secret_first_two [OF sec] n(2) show False by simp
  qed
qed

lemma mark_no_secret: "\<not> has_secret_prefix redacted_mark"
  by code_simp

lemma mask_plain_clean: "\<not> has_secret_prefix (fst (mask_plain w))"
  by (simp add: mask_plain_def Let_def sensitive_flag_no_secret mark_no_secret)

lemma mask_word_clean:
  "has_secret_prefix (fst (mask_word w)) \<Longrightarrow> \<exists>name. fst (mask_word w) = name @ ''='' @ redacted_mark"
  using mask_plain_clean [of w] by (auto simp: mask_word_def split: option.splits if_splits)

lemma mask_words_clean:
  "w \<in> set (mask_words b ws) \<Longrightarrow> has_secret_prefix w \<Longrightarrow> \<exists>name. w = name @ ''='' @ redacted_mark"
proof (induction ws arbitrary: b)
  case Nil
  then show ?case by simp
next
  case (Cons v vs)
  then show ?case
    using mask_word_clean [of v] mark_no_secret
    by (cases "mask_word v") (auto split: if_splits)
qed

lemma redact_command_bounded: "length (redact_command c) \<le> max_command_len + 2"
  by (simp add: redact_command_def cap_text_def max_command_len_def ellipsis_def)

section \<open>No text survives below a sensitive key\<close>

definition no_text :: "json \<Rightarrow> bool" where
  "no_text v \<longleftrightarrow> (case v of JStr s \<Rightarrow> prefix ''<redacted: '' s | JArr _ \<Rightarrow> False | JObj _ \<Rightarrow> False | _ \<Rightarrow> True)"

lemma redact_value_no_text: "no_text (redact_value v)"
  by (cases v) (simp_all add: no_text_def)

section \<open>Properties\<close>

text \<open>
  A scrubbed command names no home directory, in neither the Unix nor the Windows form and in
  any case, provided it contained \<open>Users\<close> or \<open>home\<close>, the words the code looks for first.
\<close>

lemma scrubbed_names_no_home:
  assumes "str_contains ''Users'' input \<or> str_contains ''home'' input"
  shows "\<not> names_home (scrub_paths input)"
  using assms by (auto simp: scrub_paths_def scrub_scan_names_no_home)

lemma scrubbed_names_no_home_example:
  "\<not> names_home (scrub_paths ''cp /home/ann/a /HOME/bob/b'') \<and>
   scrub_paths ''cp /home/ann/a /HOME/bob/b'' = ''cp <HOME>/a <HOME>/b''"
proof -
  have "str_contains ''home'' ''cp /home/ann/a /HOME/bob/b''" by code_simp
  moreover have "scrub_paths ''cp /home/ann/a /HOME/bob/b'' = ''cp <HOME>/a <HOME>/b''" by code_simp
  ultimately show ?thesis using scrubbed_names_no_home by blast
qed

text \<open>
  What the two limits of the scan are: a path in another case only is not looked for, and after a
  home directory everything up to the next separator is dropped, the rest of the command included.
\<close>

lemma upper_case_home_kept: "scrub_paths ''ls /HOME/ann'' = ''ls /HOME/ann'' \<and> names_home ''ls /HOME/ann''"
proof -
  have "match_home_prefix (drop 3 ''ls /HOME/ann'') = Some 6" by code_simp
  then have "names_home ''ls /HOME/ann''" unfolding names_home_def by (metis option.distinct(1))
  moreover have "scrub_paths ''ls /HOME/ann'' = ''ls /HOME/ann''" by code_simp
  ultimately show ?thesis by simp
qed

lemma tail_of_command_dropped:
  "redact_command ''cat /home/ann; git push --force'' = ''cat <HOME>'' \<and>
   classify_command ''cat /home/ann; git push --force'' = Destructive"
  by (intro conjI) code_simp+

end
