(* ===== verification/Approval_Store.thy ===== *)
theory Approval_Store
  imports Approval_Redact
begin

text \<open>
  The tables of the approval gate: \<^verbatim>\<open>crates/agentflare-store/src/approval.rs\<close> over
  \<^verbatim>\<open>store_pending_approvals\<close> and \<^verbatim>\<open>store_approval_allowlist\<close>. A table is an association list from
  its primary key, in insertion order. A statement that fails on a duplicate key returns \<open>None\<close>;
  that the database itself is out of order is a choice of the caller (see \<open>Approval_Gate\<close>).
\<close>

record approval_row =
  ap_class :: string
  ap_key :: string
  ap_summary :: string
  ap_redacted :: string
  ap_origin :: string
  ap_created_at :: time
  ap_expires_at :: "time option"
  ap_decided_at :: "time option"
  ap_decision :: "string option"
  ap_decided_via :: "string option"
  ap_executed_at :: "time option"
  ap_outcome :: "string option"
  ap_error :: "string option"

record approval_db =
  ap_rows :: "(string \<times> approval_row) list"
  ap_allowlist :: "(string \<times> time) list"

definition insert_pending ::
  "string \<Rightarrow> string \<Rightarrow> string \<Rightarrow> string \<Rightarrow> string \<Rightarrow> string \<Rightarrow> time \<Rightarrow> time option \<Rightarrow> approval_db \<Rightarrow> approval_db option"
where
  "insert_pending rid cls key summary redacted orig created expires db =
     (if map_of (ap_rows db) rid \<noteq> None then None
      else Some (db\<lparr>ap_rows := ap_rows db @
        [(rid, \<lparr>ap_class = cls, ap_key = key, ap_summary = summary, ap_redacted = redacted,
                ap_origin = orig, ap_created_at = created, ap_expires_at = expires,
                ap_decided_at = None, ap_decision = None, ap_decided_via = None,
                ap_executed_at = None, ap_outcome = None, ap_error = None\<rparr>)]\<rparr>))"

definition mark_decided :: "string \<Rightarrow> string \<Rightarrow> time \<Rightarrow> approval_row \<Rightarrow> approval_row" where
  "mark_decided dec via now r =
     r\<lparr>ap_decided_at := Some now, ap_decision := Some dec, ap_decided_via := Some via\<rparr>"

definition is_stale :: "time \<Rightarrow> approval_row \<Rightarrow> bool" where
  "is_stale now r \<longleftrightarrow>
     ap_decided_at r = None \<and> (case ap_expires_at r of None \<Rightarrow> False | Some e \<Rightarrow> e \<le> now)"

definition expire_row :: "time \<Rightarrow> approval_row \<Rightarrow> approval_row" where
  "expire_row now r = (if is_stale now r then mark_decided ''deny'' ''timeout'' now r else r)"

definition expire_stale :: "time \<Rightarrow> approval_db \<Rightarrow> approval_db \<times> nat" where
  "expire_stale now db =
     (db\<lparr>ap_rows := map (\<lambda>(k, r). (k, expire_row now r)) (ap_rows db)\<rparr>,
      length (filter (\<lambda>(k, r). is_stale now r) (ap_rows db)))"

definition list_pending_rows :: "time \<Rightarrow> approval_db \<Rightarrow> approval_db \<times> (string \<times> approval_row) list" where
  "list_pending_rows now db =
     (let db' = fst (expire_stale now db)
      in (db', sort_key (\<lambda>(k, r). ap_created_at r)
                 (filter (\<lambda>(k, r). ap_decided_at r = None) (ap_rows db'))))"

definition get_decision :: "string \<Rightarrow> approval_db \<Rightarrow> string option" where
  "get_decision rid db =
     (case map_of (ap_rows db) rid of
        None \<Rightarrow> None
      | Some r \<Rightarrow> if ap_decided_at r = None then None else ap_decision r)"

definition update_row :: "string \<Rightarrow> approval_row \<Rightarrow> approval_db \<Rightarrow> approval_db" where
  "update_row rid r db = db\<lparr>ap_rows := AList.update rid r (ap_rows db)\<rparr>"

definition decide_row ::
  "string \<Rightarrow> string \<Rightarrow> string \<Rightarrow> time \<Rightarrow> approval_db \<Rightarrow> approval_db \<times> approval_row option"
where
  "decide_row rid dec via now db =
     (let db' = fst (expire_stale now db)
      in case map_of (ap_rows db') rid of
           None \<Rightarrow> (db', None)
         | Some r \<Rightarrow>
             if ap_decided_at r \<noteq> None then (db', None)
             else (let r' = mark_decided dec via now r in (update_row rid r' db', Some r')))"

definition record_execution_row ::
  "string \<Rightarrow> string \<Rightarrow> string option \<Rightarrow> time \<Rightarrow> approval_db \<Rightarrow> approval_db \<times> bool"
where
  "record_execution_row rid outcome err now db =
     (case map_of (ap_rows db) rid of
        None \<Rightarrow> (db, False)
      | Some r \<Rightarrow>
          if ap_decided_at r \<noteq> None \<and> ap_executed_at r = None
          then (update_row rid
                  (r\<lparr>ap_executed_at := Some now, ap_outcome := Some outcome, ap_error := err\<rparr>) db, True)
          else (db, False))"

definition list_recent_decisions :: "nat \<Rightarrow> approval_db \<Rightarrow> (string \<times> approval_row) list" where
  "list_recent_decisions limit db =
     take (min (max limit 1) 500)
       (sort_key (\<lambda>(k, r). - the (ap_decided_at r))
         (filter (\<lambda>(k, r). ap_decided_at r \<noteq> None \<and> ap_decision r \<noteq> None) (ap_rows db)))"

definition allowlist_add :: "string \<Rightarrow> time \<Rightarrow> approval_db \<Rightarrow> approval_db" where
  "allowlist_add key now db =
     (if map_of (ap_allowlist db) key \<noteq> None then db
      else db\<lparr>ap_allowlist := ap_allowlist db @ [(key, now)]\<rparr>)"

definition allowlist_contains :: "string \<Rightarrow> approval_db \<Rightarrow> bool" where
  "allowlist_contains key db \<longleftrightarrow> map_of (ap_allowlist db) key \<noteq> None"

section \<open>What a lookup returns after an operation\<close>

definition approval_of :: "approval_db \<Rightarrow> string \<Rightarrow> approval_row option" where
  "approval_of db rid = map_of (ap_rows db) rid"

lemma approval_of_insert:
  "insert_pending rid cls key summary redacted orig created expires db = Some db' \<Longrightarrow>
     approval_of db rid = None \<and>
     approval_of db' = (approval_of db)(rid \<mapsto>
       \<lparr>ap_class = cls, ap_key = key, ap_summary = summary, ap_redacted = redacted,
        ap_origin = orig, ap_created_at = created, ap_expires_at = expires,
        ap_decided_at = None, ap_decision = None, ap_decided_via = None,
        ap_executed_at = None, ap_outcome = None, ap_error = None\<rparr>) \<and>
     ap_allowlist db' = ap_allowlist db"
  by (auto simp: insert_pending_def approval_of_def fun_eq_iff map_add_def split: if_splits option.splits)

lemma approval_of_expire [simp]:
  "approval_of (fst (expire_stale now db)) rid = map_option (expire_row now) (approval_of db rid)"
  by (simp add: approval_of_def expire_stale_def map_of_map)

lemma approval_of_update [simp]: "approval_of (update_row rid r db) = (approval_of db)(rid \<mapsto> r)"
  by (rule ext) (simp add: approval_of_def update_row_def update_conv')

lemma allowlist_untouched [simp]:
  "ap_allowlist (fst (expire_stale now db)) = ap_allowlist db"
  "ap_allowlist (update_row rid r db) = ap_allowlist db"
  by (simp_all add: expire_stale_def update_row_def)

lemma allowlist_add_rows [simp]:
  "ap_rows (allowlist_add key now db) = ap_rows db"
  "approval_of (allowlist_add key now db) = approval_of db"
  by (simp_all add: allowlist_add_def approval_of_def fun_eq_iff)

lemma allowlist_add_contains [simp]:
  "allowlist_contains k (allowlist_add key now db) \<longleftrightarrow> k = key \<or> allowlist_contains k db"
  by (auto simp: allowlist_contains_def allowlist_add_def map_add_def split: option.splits)

lemma allowlist_contains_cong: "ap_allowlist db = ap_allowlist db' \<Longrightarrow> allowlist_contains k db = allowlist_contains k db'"
  by (simp add: allowlist_contains_def)

text \<open>The outcome of a decision: either the row was open and is now decided as asked, or nothing but expiry happened.\<close>

lemma decide_row_won:
  "decide_row rid dec via now db = (db', Some r) \<Longrightarrow>
     \<exists>r0. approval_of db rid = Some r0 \<and> \<not> is_stale now r0 \<and> ap_decided_at r0 = None \<and>
          r = mark_decided dec via now r0 \<and>
          db' = update_row rid r (fst (expire_stale now db))"
  by (auto simp: decide_row_def Let_def approval_of_def [symmetric] expire_row_def mark_decided_def
      split: option.splits if_splits)

lemma decide_row_lost:
  "decide_row rid dec via now db = (db', None) \<Longrightarrow>
     db' = fst (expire_stale now db) \<and> (\<forall>r. approval_of db' rid = Some r \<longrightarrow> ap_decided_at r \<noteq> None)"
  by (auto simp: decide_row_def Let_def approval_of_def [symmetric] split: option.splits if_splits)

end
