(* ===== verification/Approval_Gate.thy ===== *)
theory Approval_Gate
  imports Approval_Store
begin

text \<open>
  The approval gate: \<^verbatim>\<open>crates/agentflare-approval/src/gate.rs\<close> with the enums of \<^verbatim>\<open>types.rs\<close>.
  Calls of \<open>intercept\<close>, decisions of the channel and the terminal, timeouts and the readers of the
  table interleave: every statement on the database, every access to the map of waiters and every
  message on a call's channel is an event of its own. A call is known by the request id it creates;
  ids are fresh (\<open>db_kit::ids::new_id\<close>). The branch of \<open>park\<close> for a dropped sender is left out: a
  sender leaves the map only to be sent to or by the call's own timeout.
\<close>

section \<open>The enums\<close>

datatype origin = Interactive | Background | Cron

datatype approval_decision = ApproveOnce | ApproveAlways | DenyRequest

datatype decided_via = Channel | Terminal | Timeout | Allowlist

datatype execution_outcome = ExecSuccess | ExecError

datatype gate_outcome = GAllow | GDeny string

fun origin_as_str :: "origin \<Rightarrow> string" where
  "origin_as_str Interactive = ''interactive''"
| "origin_as_str Background = ''background''"
| "origin_as_str Cron = ''cron''"

fun decision_as_str :: "approval_decision \<Rightarrow> string" where
  "decision_as_str ApproveOnce = ''approve_once''"
| "decision_as_str ApproveAlways = ''approve_always''"
| "decision_as_str DenyRequest = ''deny''"

definition decision_from_str :: "string \<Rightarrow> approval_decision option" where
  "decision_from_str s =
     (if s = ''approve_once'' then Some ApproveOnce
      else if s = ''approve_always'' then Some ApproveAlways
      else if s = ''deny'' then Some DenyRequest
      else None)"

fun is_approve :: "approval_decision \<Rightarrow> bool" where
  "is_approve DenyRequest = False"
| "is_approve _ = True"

fun via_as_str :: "decided_via \<Rightarrow> string" where
  "via_as_str Channel = ''channel''"
| "via_as_str Terminal = ''terminal''"
| "via_as_str Timeout = ''timeout''"
| "via_as_str Allowlist = ''allowlist''"

fun outcome_as_str :: "execution_outcome \<Rightarrow> string" where
  "outcome_as_str ExecSuccess = ''success''"
| "outcome_as_str ExecError = ''error''"

fun tier_debug :: "autonomy_tier \<Rightarrow> string" where
  "tier_debug ReadOnly = ''ReadOnly''"
| "tier_debug Supervised = ''Supervised''"
| "tier_debug Full = ''Full''"

lemma decision_str_roundtrip [simp]: "decision_from_str (decision_as_str d) = Some d"
  by (cases d) (simp_all add: decision_from_str_def)

lemma decision_from_str_Some: "decision_from_str s = Some d \<longleftrightarrow> s = decision_as_str d"
  by (cases d) (auto simp: decision_from_str_def split: if_splits)

section \<open>The state\<close>

text \<open>
  Where a call of \<open>intercept\<close> stands. \<open>Returned\<close> also says on what ground: at once by the tier,
  by the allowlist, or by the decision the call was parked for.
\<close>

datatype ground = ByTier | ByGrant | ByDecision

datatype call_phase =
    Registered
  | Parked
  | Granting
  | GrantInserted
  | Returned gate_outcome ground

record gate_call =
  cl_command :: string
  cl_class :: command_class
  cl_key :: string
  cl_origin :: origin
  cl_tier :: autonomy_tier
  cl_phase :: call_phase
  cl_chan :: "approval_decision option"

text \<open>What a call of \<open>decide\<close> that has won still has to do: store the grant, answer the waiter.\<close>

datatype decide_stage = ToGrant string | ToSend

record gate_state =
  g_db :: approval_db
  g_tier :: autonomy_tier
  g_ttl :: nat
  g_waiters :: "string set"
  g_calls :: "string \<Rightarrow> gate_call option"
  g_deciding :: "(string \<times> approval_decision \<times> decide_stage) list"

definition gate_new :: "approval_db \<Rightarrow> autonomy_tier \<Rightarrow> nat \<Rightarrow> gate_state" where
  "gate_new db tier ttl =
     \<lparr>g_db = db, g_tier = tier, g_ttl = ttl, g_waiters = {}, g_calls = Map.empty, g_deciding = []\<rparr>"

definition set_call :: "string \<Rightarrow> gate_call \<Rightarrow> gate_state \<Rightarrow> gate_state" where
  "set_call cid c s = s\<lparr>g_calls := (g_calls s)(cid \<mapsto> c)\<rparr>"

definition summarize :: "string \<Rightarrow> command_class \<Rightarrow> string" where
  "summarize command cls = ''['' @ class_as_str cls @ ''] '' @ redact_command command"

definition em_dash :: string where
  "em_dash = [CHR 0xE2, CHR 0x80, CHR 0x94]"

section \<open>intercept\<close>

definition block_reason :: "autonomy_tier \<Rightarrow> command_class \<Rightarrow> string" where
  "block_reason tier cls =
     ''command classified as '' @ class_as_str cls @ '' is blocked in '' @ tier_debug tier @ '' tier''"

text \<open>\<open>intercept\<close> up to its first wait; \<open>fault\<close> says that reading the allowlist fails.\<close>

definition intercept :: "string \<Rightarrow> string \<Rightarrow> origin \<Rightarrow> bool \<Rightarrow> gate_state \<Rightarrow> gate_state option" where
  "intercept cid command orig fault s =
     (if g_calls s cid \<noteq> None \<or> approval_of (g_db s) cid \<noteq> None then None
      else
        (let cls = classify_command command;
             key = allow_key command;
             c = \<lparr>cl_command = command, cl_class = cls, cl_key = key, cl_origin = orig,
                  cl_tier = g_tier s, cl_phase = Registered, cl_chan = None\<rparr>
         in case tier_action (g_tier s) cls of
              TBlock \<Rightarrow>
                Some (set_call cid (c\<lparr>cl_phase := Returned (GDeny (block_reason (g_tier s) cls)) ByTier\<rparr>) s)
            | TAllow \<Rightarrow> Some (set_call cid (c\<lparr>cl_phase := Returned GAllow ByTier\<rparr>) s)
            | TPrompt \<Rightarrow>
                if orig \<noteq> Interactive
                then Some (set_call cid (c\<lparr>cl_phase := Returned GAllow ByTier\<rparr>) s)
                else if \<not> fault \<and> allowlist_contains key (g_db s)
                then Some (set_call cid (c\<lparr>cl_phase := Granting\<rparr>) s)
                else Some (set_call cid c (s\<lparr>g_waiters := insert cid (g_waiters s)\<rparr>))))"

text \<open>\<open>allow_via_allowlist\<close>: the audit row, then its decision; an error of either does not stop the command.\<close>

definition grant_insert :: "string \<Rightarrow> time \<Rightarrow> bool \<Rightarrow> gate_state \<Rightarrow> gate_state option" where
  "grant_insert cid now fault s =
     (case g_calls s cid of
        Some c \<Rightarrow>
          if cl_phase c \<noteq> Granting then None
          else
            (case (if fault then None
                   else insert_pending cid (class_as_str (cl_class c)) (cl_key c)
                          (summarize (cl_command c) (cl_class c)) (redact_command (cl_command c))
                          (origin_as_str (cl_origin c)) now None (g_db s)) of
               None \<Rightarrow> Some (set_call cid (c\<lparr>cl_phase := Returned GAllow ByGrant\<rparr>) s)
             | Some db' \<Rightarrow> Some (set_call cid (c\<lparr>cl_phase := GrantInserted\<rparr>) (s\<lparr>g_db := db'\<rparr>)))
      | None \<Rightarrow> None)"

definition grant_decide :: "string \<Rightarrow> time \<Rightarrow> bool \<Rightarrow> gate_state \<Rightarrow> gate_state option" where
  "grant_decide cid now fault s =
     (case g_calls s cid of
        Some c \<Rightarrow>
          if cl_phase c \<noteq> GrantInserted then None
          else
            (let db' = (if fault then g_db s
                        else fst (decide_row cid (decision_as_str ApproveOnce) (via_as_str Allowlist) now (g_db s)))
             in Some (set_call cid (c\<lparr>cl_phase := Returned GAllow ByGrant\<rparr>) (s\<lparr>g_db := db'\<rparr>)))
      | None \<Rightarrow> None)"

section \<open>park\<close>

text \<open>The waiter was registered by \<open>intercept\<close>; \<open>err\<close> is the error of a failing database.\<close>

definition persist_reason :: "string \<Rightarrow> string" where
  "persist_reason err =
     ''approval gate could not persist the request '' @ em_dash @ '' denying for safety: '' @ err"

definition park_insert :: "string \<Rightarrow> time \<Rightarrow> string option \<Rightarrow> gate_state \<Rightarrow> gate_state option" where
  "park_insert cid now err s =
     (case g_calls s cid of
        Some c \<Rightarrow>
          if cl_phase c \<noteq> Registered then None
          else
            (case (if err \<noteq> None then None
                   else insert_pending cid (class_as_str (cl_class c)) (cl_key c)
                          (summarize (cl_command c) (cl_class c)) (redact_command (cl_command c))
                          (origin_as_str (cl_origin c)) now (Some (now + int (g_ttl s))) (g_db s)) of
               None \<Rightarrow>
                 Some (set_call cid
                   (c\<lparr>cl_phase := Returned (GDeny (persist_reason (case err of Some e \<Rightarrow> e | None \<Rightarrow> []))) ByDecision\<rparr>)
                   (s\<lparr>g_waiters := g_waiters s - {cid}\<rparr>))
             | Some db' \<Rightarrow> Some (set_call cid (c\<lparr>cl_phase := Parked\<rparr>) (s\<lparr>g_db := db'\<rparr>)))
      | None \<Rightarrow> None)"

text \<open>\<open>Ok(Ok(decision))\<close>: the channel delivered.\<close>

definition park_receive :: "string \<Rightarrow> gate_state \<Rightarrow> gate_state option" where
  "park_receive cid s =
     (case g_calls s cid of
        Some c \<Rightarrow>
          (case cl_chan c of
             Some d \<Rightarrow>
               if cl_phase c \<noteq> Parked then None
               else Some (set_call cid
                 (c\<lparr>cl_phase := Returned (if is_approve d then GAllow else GDeny ''user denied the request'') ByDecision\<rparr>) s)
           | None \<Rightarrow> None)
      | None \<Rightarrow> None)"

text \<open>
  \<open>Err(elapsed)\<close>: the waiter is removed, the row is denied unless it is decided already, and a
  decision that was faster is honoured. Once a row is decided it stays so (\<open>decision_is_final\<close>), so
  the second read is taken together with the first statement.
\<close>

definition timeout_reason :: "string \<Rightarrow> command_class \<Rightarrow> nat \<Rightarrow> string" where
  "timeout_reason command cls ttl =
     ''approval for '' @ [CHR 39] @ summarize command cls @ [CHR 39] @ '' timed out after '' @ show_nat ttl @ ''s''"

definition park_elapsed :: "string \<Rightarrow> time \<Rightarrow> bool \<Rightarrow> gate_state \<Rightarrow> gate_state option" where
  "park_elapsed cid now fault s =
     (case g_calls s cid of
        Some c \<Rightarrow>
          if cl_phase c \<noteq> Parked \<or> cl_chan c \<noteq> None then None
          else
            (let (db', persisted) =
               (if fault then (g_db s, None)
                else (case decide_row cid (decision_as_str DenyRequest) (via_as_str Timeout) now (g_db s) of
                        (db', Some _) \<Rightarrow> (db', Some DenyRequest)
                      | (db', None) \<Rightarrow>
                          (db', case get_decision cid db' of
                                  None \<Rightarrow> None
                                | Some txt \<Rightarrow> decision_from_str txt)));
                 verdict = (if (case persisted of Some d \<Rightarrow> is_approve d | None \<Rightarrow> False) then GAllow
                            else GDeny (timeout_reason (cl_command c) (cl_class c) (g_ttl s)))
             in Some (set_call cid (c\<lparr>cl_phase := Returned verdict ByDecision\<rparr>)
                  (s\<lparr>g_db := db', g_waiters := g_waiters s - {cid}\<rparr>)))
      | None \<Rightarrow> None)"

section \<open>decide\<close>

text \<open>
  The conditional update; only the call that wins goes on, with the key of the row to grant when the
  answer is for always. A database error makes \<open>decide\<close> return \<open>false\<close>, with nothing written: that the
  row cannot be read back after its update was committed, and the answer is then recorded but neither
  granted nor sent, is not modelled.
\<close>

definition decide_commit ::
  "string \<Rightarrow> approval_decision \<Rightarrow> decided_via \<Rightarrow> time \<Rightarrow> bool \<Rightarrow> gate_state \<Rightarrow> gate_state option"
where
  "decide_commit rid d via now fault s =
     (if fault then Some s
      else
        (case decide_row rid (decision_as_str d) (via_as_str via) now (g_db s) of
           (db', None) \<Rightarrow> Some (s\<lparr>g_db := db'\<rparr>)
         | (db', Some r) \<Rightarrow>
             Some (s\<lparr>g_db := db',
                     g_deciding := (rid, d, if d = ApproveAlways then ToGrant (ap_key r) else ToSend)
                                   # g_deciding s\<rparr>)))"

definition decide_grant :: "string \<Rightarrow> approval_decision \<Rightarrow> string \<Rightarrow> time \<Rightarrow> bool \<Rightarrow> gate_state \<Rightarrow> gate_state option" where
  "decide_grant rid d key now fault s =
     (if (rid, d, ToGrant key) \<notin> set (g_deciding s) then None
      else Some (s\<lparr>g_db := (if fault then g_db s else allowlist_add key now (g_db s)),
                   g_deciding := (rid, d, ToSend) # remove1 (rid, d, ToGrant key) (g_deciding s)\<rparr>))"

definition decide_send :: "string \<Rightarrow> approval_decision \<Rightarrow> gate_state \<Rightarrow> gate_state option" where
  "decide_send rid d s =
     (if (rid, d, ToSend) \<notin> set (g_deciding s) then None
      else
        (let s' = s\<lparr>g_deciding := remove1 (rid, d, ToSend) (g_deciding s)\<rparr>
         in if rid \<in> g_waiters s
            then Some (s'\<lparr>g_waiters := g_waiters s - {rid},
                         g_calls := (g_calls s)(rid := map_option (\<lambda>c. c\<lparr>cl_chan := Some d\<rparr>) (g_calls s rid))\<rparr>)
            else Some s'))"

section \<open>The audit trail and the list of open requests\<close>

definition record_execution :: "string \<Rightarrow> execution_outcome \<Rightarrow> string option \<Rightarrow> time \<Rightarrow> bool \<Rightarrow> gate_state \<Rightarrow> gate_state option" where
  "record_execution rid outcome err now fault s =
     (if fault then Some s
      else Some (s\<lparr>g_db := fst (record_execution_row rid (outcome_as_str outcome) err now (g_db s))\<rparr>))"

record pending_approval =
  pa_request_id :: string
  pa_class :: command_class
  pa_summary :: string
  pa_redacted :: string
  pa_origin :: origin
  pa_created_at :: time
  pa_expires_at :: "time option"

definition decode_pending :: "string \<times> approval_row \<Rightarrow> pending_approval option" where
  "decode_pending kr =
     (case kr of (k, r) \<Rightarrow>
        (case class_from_str (ap_class r) of
           None \<Rightarrow> None
         | Some cls \<Rightarrow>
             Some \<lparr>pa_request_id = k, pa_class = cls, pa_summary = ap_summary r,
                   pa_redacted = ap_redacted r,
                   pa_origin = (if ap_origin r = ''interactive'' then Interactive
                                else if ap_origin r = ''background'' then Background else Cron),
                   pa_created_at = ap_created_at r, pa_expires_at = ap_expires_at r\<rparr>))"

definition list_pending :: "time \<Rightarrow> gate_state \<Rightarrow> gate_state \<times> pending_approval list" where
  "list_pending now s =
     (case list_pending_rows now (g_db s) of
        (db', rows) \<Rightarrow> (s\<lparr>g_db := db'\<rparr>, List.map_filter decode_pending rows))"

section \<open>Events\<close>

datatype gate_event =
    EvIntercept string string origin bool
  | EvGrantInsert string time bool
  | EvGrantDecide string time bool
  | EvParkInsert string time "string option"
  | EvReceive string
  | EvElapsed string time bool
  | EvCommit string approval_decision decided_via time bool
  | EvGrant string approval_decision string time bool
  | EvSend string approval_decision
  | EvRecord string execution_outcome "string option" time bool
  | EvListPending time
  | EvSetTier autonomy_tier

fun gate_step :: "gate_event \<Rightarrow> gate_state \<Rightarrow> gate_state option" where
  "gate_step (EvIntercept cid command orig fault) s = intercept cid command orig fault s"
| "gate_step (EvGrantInsert cid now fault) s = grant_insert cid now fault s"
| "gate_step (EvGrantDecide cid now fault) s = grant_decide cid now fault s"
| "gate_step (EvParkInsert cid now err) s = park_insert cid now err s"
| "gate_step (EvReceive cid) s = park_receive cid s"
| "gate_step (EvElapsed cid now fault) s = park_elapsed cid now fault s"
| "gate_step (EvCommit rid d via now fault) s = decide_commit rid d via now fault s"
| "gate_step (EvGrant rid d key now fault) s = decide_grant rid d key now fault s"
| "gate_step (EvSend rid d) s = decide_send rid d s"
| "gate_step (EvRecord rid outcome err now fault) s = record_execution rid outcome err now fault s"
| "gate_step (EvListPending now) s = Some (fst (list_pending now s))"
| "gate_step (EvSetTier tier) s = Some (s\<lparr>g_tier := tier\<rparr>)"

fun gate_run :: "gate_event list \<Rightarrow> gate_state \<Rightarrow> gate_state option" where
  "gate_run [] s = Some s"
| "gate_run (e # es) s = (case gate_step e s of None \<Rightarrow> None | Some s' \<Rightarrow> gate_run es s')"

end
