(* ===== verification/Approval_Audit.thy ===== *)
theory Approval_Audit
  imports Approval_Gate_Inv
begin

text \<open>
  The properties of the approval gate, over every sequence of its events (\<open>gate_run\<close>), with the
  database failing at any of them.
\<close>

text \<open>
  C35: A decision is final: once a request is decided, no later event changes its decision, its time
  or the surface that answered, whoever answers again, whatever times out and whenever rows expire.
\<close>

theorem decision_is_final:
  assumes "gate_run es s = Some s'" "approval_of (g_db s) rid = Some r" "ap_decided_at r \<noteq> None"
  shows "\<exists>r'. approval_of (g_db s') rid = Some r' \<and> ap_decided_at r' = ap_decided_at r \<and>
           ap_decision r' = ap_decision r \<and> ap_decided_via r' = ap_decided_via r"
  using db_extendsD [OF gate_run_extends [OF assms(1)] assms(2)] assms(3) by (auto simp: row_keeps_def)

text \<open>A request answered by the channel, then by the terminal, then timing out.\<close>

definition demo_start :: gate_state where
  "demo_start = gate_new \<lparr>ap_rows = [], ap_allowlist = []\<rparr> Supervised 600"

definition demo_parked :: "gate_event list" where
  "demo_parked = [EvIntercept ''a'' ''npm ci'' Interactive False, EvParkInsert ''a'' 100 None]"

definition demo_approved :: "gate_event list" where
  "demo_approved = demo_parked @ [EvCommit ''a'' ApproveAlways Channel 110 False]"

definition demo_later :: "gate_event list" where
  "demo_later =
     [EvCommit ''a'' DenyRequest Terminal 120 False, EvElapsed ''a'' 700 False,
      EvGrant ''a'' ApproveAlways ''npm'' 710 False,
      EvIntercept ''b'' ''npm ci; rm -rf /'' Interactive False, EvGrantInsert ''b'' 720 False,
      EvGrantDecide ''b'' 720 False]"

definition decision_at :: "gate_state option \<Rightarrow> string \<Rightarrow> string option" where
  "decision_at so rid =
     (case so of None \<Rightarrow> None
      | Some s \<Rightarrow> (case approval_of (g_db s) rid of None \<Rightarrow> None | Some r \<Rightarrow> ap_decision r))"

definition phase_at :: "gate_state option \<Rightarrow> string \<Rightarrow> call_phase option" where
  "phase_at so cid =
     (case so of None \<Rightarrow> None | Some s \<Rightarrow> map_option cl_phase (g_calls s cid))"

lemma gate_run_append: "gate_run (xs @ ys) s = (case gate_run xs s of None \<Rightarrow> None | Some s' \<Rightarrow> gate_run ys s')"
  by (induction xs arbitrary: s) (auto split: option.split)

lemma demo_gate_run:
  "decision_at (gate_run demo_approved demo_start) ''a'' = Some ''approve_always''"
  "phase_at (gate_run (demo_approved @ demo_later) demo_start) ''a'' = Some (Returned GAllow ByDecision)"
  "phase_at (gate_run (demo_approved @ demo_later) demo_start) ''b'' = Some (Returned GAllow ByGrant)"
  by code_simp+

text \<open>Evaluated runs are turned into the states the properties speak of.\<close>

lemma decision_atE:
  assumes "decision_at so rid = Some d"
  obtains s r where "so = Some s" "approval_of (g_db s) rid = Some r" "ap_decision r = Some d"
  using assms by (auto simp: decision_at_def split: option.splits)

lemma phase_atE:
  assumes "phase_at so cid = Some ph"
  obtains s c where "so = Some s" "g_calls s cid = Some c" "cl_phase c = ph"
  using assms by (auto simp: phase_at_def split: option.splits)

lemma typed_empty: "db_typed \<lparr>ap_rows = [], ap_allowlist = []\<rparr>"
  by (simp add: db_typed_def)

lemma demo_db: "g_db demo_start = \<lparr>ap_rows = [], ap_allowlist = []\<rparr>" "gate_inv demo_start"
  by (simp_all add: demo_start_def gate_inv_new) (simp add: gate_new_def)

lemma decided_if_decision:
  assumes "gate_run es demo_start = Some s" "approval_of (g_db s) rid = Some r" "ap_decision r = Some d"
  shows "ap_decided_at r \<noteq> None"
  using db_typed_row [OF gate_run_typed [OF assms(1)] assms(2)] assms(3) typed_empty
  by (auto simp: demo_db row_typed_def split: if_splits)

theorem decision_is_final_witness:
  "decision_at (gate_run (demo_approved @ demo_later) demo_start) ''a'' = Some ''approve_always''"
proof -
  obtain s r where s: "gate_run demo_approved demo_start = Some s" "approval_of (g_db s) ''a'' = Some r"
    "ap_decision r = Some ''approve_always''" using demo_gate_run(1) by (rule decision_atE)
  obtain s' where s': "gate_run (demo_approved @ demo_later) demo_start = Some s'"
    using demo_gate_run(2) by (auto elim: phase_atE)
  then have "gate_run demo_later s = Some s'" using s(1) by (simp add: gate_run_append)
  then obtain r' where "approval_of (g_db s') ''a'' = Some r'" "ap_decision r' = ap_decision r"
    using decision_is_final [OF _ s(2)] decided_if_decision [OF s] by blast
  with s s' show ?thesis by (simp add: decision_at_def)
qed

text \<open>
  C36: No call is let through without a ground: the tier allowed its class when it asked (or would
  have prompted, and the call was not interactive), the allowlist holds the key of its command, or its
  own request stands approved in the table.
\<close>

theorem let_through_only_justified:
  assumes "gate_run es (gate_new db tier ttl) = Some s"
    and "g_calls s cid = Some c" "cl_phase c = Returned GAllow g"
  shows "justified (g_db s) cid c g"
proof -
  have "gate_inv s" using assms(1) gate_inv_new by (rule gate_run_inv)
  then have "call_ok (g_db s) cid c" using assms(2) by (rule gate_inv_call)
  then show ?thesis using assms(3) by (simp add: call_ok_def)
qed

theorem let_through_only_justified_witness:
  "\<exists>s c. gate_run (demo_approved @ demo_later) demo_start = Some s \<and> g_calls s ''a'' = Some c \<and>
     cl_phase c = Returned GAllow ByDecision \<and> justified (g_db s) ''a'' c ByDecision"
proof -
  obtain s c where s: "gate_run (demo_approved @ demo_later) demo_start = Some s"
    "g_calls s ''a'' = Some c" "cl_phase c = Returned GAllow ByDecision"
    using demo_gate_run(2) by (rule phase_atE)
  moreover have "justified (g_db s) ''a'' c ByDecision"
    using s unfolding demo_start_def by (rule let_through_only_justified)
  ultimately show ?thesis by blast
qed

text \<open>
  Every entry of the allowlist that was not there at the start goes back to a request with that
  key that was answered with \<open>approve_always\<close>.
\<close>

lemma grant_goes_back_to_answer:
  assumes "gate_run es (gate_new db tier ttl) = Some s"
    and "allowlist_contains k (g_db s)" "\<not> allowlist_contains k db"
  shows "granted_by (g_db s) k"
  using gate_run_allowlist [OF assms(1) gate_inv_new assms(2)] assms(3) by (simp add: gate_new_def)

definition allowed_at :: "gate_state option \<Rightarrow> string \<Rightarrow> bool" where
  "allowed_at so k = (case so of None \<Rightarrow> False | Some s \<Rightarrow> allowlist_contains k (g_db s))"

lemma demo_allowed: "allowed_at (gate_run (demo_approved @ demo_later) demo_start) ''npm''"
  by code_simp

lemma grant_goes_back_to_answer_example:
  "\<exists>s. gate_run (demo_approved @ demo_later) demo_start = Some s \<and> granted_by (g_db s) ''npm''"
proof -
  obtain s where s: "gate_run (demo_approved @ demo_later) demo_start = Some s"
    "allowlist_contains ''npm'' (g_db s)"
    using demo_allowed by (auto simp: allowed_at_def split: option.splits)
  moreover have "granted_by (g_db s) ''npm''"
    using s unfolding demo_start_def
    by (rule grant_goes_back_to_answer) (simp add: allowlist_contains_def)
  ultimately show ?thesis by blast
qed

text \<open>
  C37: Every row the gate has written decodes again, so the list of open requests shows each undecided
  row, with the class and the origin it was stored with: no request is lost to a text that no
  constructor has.
\<close>

theorem pending_rows_decode:
  assumes "gate_run es (gate_new db tier ttl) = Some s" "db_typed db"
  shows "map (\<lambda>p. (pa_request_id p, class_as_str (pa_class p), origin_as_str (pa_origin p)))
             (snd (list_pending now s)) =
         map (\<lambda>(k, r). (k, ap_class r, ap_origin r)) (snd (list_pending_rows now (g_db s)))"
  using gate_run_typed [OF assms(1)] assms(2) by (intro list_pending_decodes) (simp add: gate_new_def)

definition pending_at :: "gate_state option \<Rightarrow> time \<Rightarrow> (string \<times> string \<times> string) list" where
  "pending_at so now =
     (case so of None \<Rightarrow> []
      | Some s \<Rightarrow> map (\<lambda>(k, r). (k, ap_class r, ap_origin r)) (snd (list_pending_rows now (g_db s))))"

lemma demo_pending: "pending_at (gate_run demo_parked demo_start) 200 = [(''a'', ''install'', ''interactive'')]"
  by code_simp

theorem pending_rows_decode_witness:
  "\<exists>s. gate_run demo_parked demo_start = Some s \<and>
     map (\<lambda>p. (pa_request_id p, class_as_str (pa_class p), origin_as_str (pa_origin p)))
       (snd (list_pending 200 s)) = [(''a'', ''install'', ''interactive'')]"
proof -
  obtain s where s: "gate_run demo_parked demo_start = Some s"
    and p: "map (\<lambda>(k, r). (k, ap_class r, ap_origin r)) (snd (list_pending_rows 200 (g_db s))) =
      [(''a'', ''install'', ''interactive'')]"
    using demo_pending by (auto simp: pending_at_def split: option.splits)
  have "map (\<lambda>p. (pa_request_id p, class_as_str (pa_class p), origin_as_str (pa_origin p)))
       (snd (list_pending 200 s)) =
     map (\<lambda>(k, r). (k, ap_class r, ap_origin r)) (snd (list_pending_rows 200 (g_db s)))"
    using s unfolding demo_start_def by (rule pending_rows_decode) (rule typed_empty)
  with s p show ?thesis by auto
qed

text \<open>
  A parked call nobody has answered can always return, and its timeout fails closed: the call is
  denied, and so is its row.
\<close>

lemma timeout_fails_closed:
  assumes "g_calls s cid = Some c" "cl_phase c = Parked" "cl_chan c = None"
    and "approval_of (g_db s) cid = Some r" "ap_decided_at r = None"
  shows "\<exists>s'. gate_step (EvElapsed cid now False) s = Some s' \<and>
           map_option cl_phase (g_calls s' cid) =
             Some (Returned (GDeny (timeout_reason (cl_command c) (cl_class c) (g_ttl s))) ByDecision) \<and>
           decided_as (g_db s') cid DenyRequest \<and> cid \<notin> g_waiters s'"
proof -
  let ?db = "fst (expire_stale now (g_db s))"
  have row: "map_of (ap_rows ?db) cid = Some (expire_row now r)"
    using assms(4) approval_of_expire [of now "g_db s" cid] by (simp add: approval_of_def)
  have "\<exists>db' res. decide_row cid (decision_as_str DenyRequest) (via_as_str Timeout) now (g_db s) = (db', res) \<and>
      decided_as db' cid DenyRequest \<and> (res = None \<longrightarrow> get_decision cid db' = Some ''deny'')"
  proof (cases "is_stale now r")
    case True
    then have "expire_row now r = mark_decided ''deny'' ''timeout'' now r" by (simp add: expire_row_def)
    with row show ?thesis
      by (auto simp: decide_row_def Let_def mark_decided_def decided_as_def approval_of_def get_decision_def)
  next
    case False
    then have "expire_row now r = r" by (simp add: expire_row_def)
    with row assms(5) show ?thesis
      by (auto simp: decide_row_def Let_def mark_decided_def decided_as_def simp del: decision_as_str.simps)
  qed
  then obtain db' res where d: "decide_row cid ''deny'' ''timeout'' now (g_db s) = (db', res)"
    "decided_as db' cid DenyRequest" "res = None \<Longrightarrow> get_decision cid db' = Some ''deny''" by auto
  then show ?thesis
    using assms by (cases res) (auto simp: park_elapsed_def set_call_def decision_from_str_def)
qed

lemma timeout_fails_closed_example:
  "\<exists>s s'. gate_run demo_parked demo_start = Some s \<and> gate_step (EvElapsed ''a'' 701 False) s = Some s' \<and>
     decided_as (g_db s') ''a'' DenyRequest"
proof -
  have "(case gate_run demo_parked demo_start of None \<Rightarrow> False
     | Some s \<Rightarrow> (case g_calls s ''a'' of None \<Rightarrow> False
         | Some c \<Rightarrow> cl_phase c = Parked \<and> cl_chan c = None) \<and>
         (case approval_of (g_db s) ''a'' of None \<Rightarrow> False | Some r \<Rightarrow> ap_decided_at r = None))"
    by code_simp
  then obtain s c r where "gate_run demo_parked demo_start = Some s" "g_calls s ''a'' = Some c"
    "cl_phase c = Parked" "cl_chan c = None" "approval_of (g_db s) ''a'' = Some r" "ap_decided_at r = None"
    by (auto split: option.splits)
  then show ?thesis using timeout_fails_closed by blast
qed

end
