(* ===== verification/Git_World.thy ===== *)
theory Git_World
  imports Str_Ops
begin

text \<open>
  What the git policy reads of its surroundings: git itself, the environment, and the file system
  are parameters (a record \<open>git_world\<close>), with the helpers that ask them. Modelled:
  \<^verbatim>\<open>crates/flare-git-core/src/shell.rs\<close> (the runners), \<^verbatim>\<open>branch.rs\<close> (branch resolution and the
  protected-branch predicate) and \<open>in_scoped_project\<close> of \<^verbatim>\<open>crates/agentflare-shim/src/lib.rs\<close>.
  A path is the list of its components, the root the empty list; paths are compared exactly, as on
  Linux. Git answers the same throughout one invocation of the shim.
\<close>

section \<open>Git, the environment and the file system\<close>

type_synonym path = "string list"

text \<open>A run of git: it could not be spawned, or it exited (with success or not) with its two outputs.\<close>

datatype git_result = GitMissing string | GitExited bool string string

record git_world =
  gw_git :: "path \<Rightarrow> string list \<Rightarrow> git_result"
  gw_env :: "string \<Rightarrow> string option"
  gw_exists :: "path \<Rightarrow> bool"
  gw_read :: "path \<Rightarrow> string option"

definition run_in :: "git_world \<Rightarrow> path \<Rightarrow> string list \<Rightarrow> string + string" where
  "run_in w root args =
     (case gw_git w root args of
        GitMissing e \<Rightarrow> Inl (''git not available: '' @ e)
      | GitExited ok out err \<Rightarrow> if ok then Inr (trim out) else Inl (trim err))"

definition run_in_opt :: "git_world \<Rightarrow> path \<Rightarrow> string list \<Rightarrow> string option" where
  "run_in_opt w root args =
     (case run_in w root args of Inl _ \<Rightarrow> None | Inr s \<Rightarrow> if s = [] then None else Some s)"

definition run_in_ok :: "git_world \<Rightarrow> path \<Rightarrow> string list \<Rightarrow> bool" where
  "run_in_ok w root args = (case run_in w root args of Inl _ \<Rightarrow> False | Inr _ \<Rightarrow> True)"

datatype bounded_lines_error = LinesGit string | TooManyLines

text \<open>
  The non-empty lines up to the cap; one line more and the child is killed, whatever its exit code
  would have been.
\<close>

definition run_in_lines_bounded ::
  "git_world \<Rightarrow> path \<Rightarrow> string list \<Rightarrow> nat \<Rightarrow> bounded_lines_error + string list"
where
  "run_in_lines_bounded w root args cap =
     (case gw_git w root args of
        GitMissing e \<Rightarrow> Inl (LinesGit (''git not available: '' @ e))
      | GitExited ok out err \<Rightarrow>
          (let lines = filter (\<lambda>l. l \<noteq> []) (text_lines out)
           in if length lines > cap then Inl TooManyLines
              else if \<not> ok then Inl (LinesGit (trim err))
              else Inr lines))"

lemma run_in_lines_bounded_length:
  "run_in_lines_bounded w root args cap = Inr ls \<Longrightarrow> length ls \<le> cap \<and> [] \<notin> set ls"
  by (auto simp: run_in_lines_bounded_def Let_def split: git_result.splits if_splits)

text \<open>\<open>is_dirty_checked\<close> of \<^verbatim>\<open>doctor.rs\<close>: \<open>None\<close> when the status cannot be read.\<close>

definition is_dirty_checked :: "git_world \<Rightarrow> path \<Rightarrow> bool option" where
  "is_dirty_checked w root =
     (case run_in w root [''status'', ''--porcelain''] of Inl _ \<Rightarrow> None | Inr out \<Rightarrow> Some (out \<noteq> []))"

section \<open>Branches\<close>

definition current_branch :: "git_world \<Rightarrow> path \<Rightarrow> string option" where
  "current_branch w root = run_in_opt w root [''rev-parse'', ''--abbrev-ref'', ''HEAD'']"

definition resolve_default_branch_known :: "git_world \<Rightarrow> path \<Rightarrow> string option" where
  "resolve_default_branch_known w root =
     (case (case run_in_opt w root [''symbolic-ref'', ''--short'', ''refs/remotes/origin/HEAD''] of
              None \<Rightarrow> None | Some origin_head \<Rightarrow> strip_prefix ''origin/'' origin_head) of
        Some stripped \<Rightarrow> Some stripped
      | None \<Rightarrow>
          if run_in_ok w root [''rev-parse'', ''--verify'', ''main''] then Some ''main''
          else if run_in_ok w root [''rev-parse'', ''--verify'', ''master''] then Some ''master''
          else None)"

definition resolve_default_branch :: "git_world \<Rightarrow> path \<Rightarrow> string" where
  "resolve_default_branch w root =
     (case resolve_default_branch_known w root of
        Some b \<Rightarrow> b
      | None \<Rightarrow>
          (case run_in_opt w root [''symbolic-ref'', ''--short'', ''HEAD''] of
             Some b \<Rightarrow> b | None \<Rightarrow> ''master''))"

definition repo_toplevel :: "git_world \<Rightarrow> path \<Rightarrow> string option" where
  "repo_toplevel w start = run_in_opt w start [''rev-parse'', ''--show-toplevel'']"

definition matches_pattern :: "string \<Rightarrow> string \<Rightarrow> bool" where
  "matches_pattern branch pattern =
     (if pattern \<noteq> [] \<and> last pattern = CHR ''*'' then prefix (butlast pattern) branch
      else branch = pattern)"

definition is_protected_branch_among :: "string \<Rightarrow> string option \<Rightarrow> string list \<Rightarrow> bool" where
  "is_protected_branch_among branch dflt extra \<longleftrightarrow>
     (case dflt of
        Some d \<Rightarrow> branch = d
      | None \<Rightarrow> branch = ''main'' \<or> branch = ''master'') \<or>
     list_ex (matches_pattern branch) extra"

text \<open>A comma-separated variable: trimmed, without empty entries.\<close>

definition env_list :: "git_world \<Rightarrow> string \<Rightarrow> string list" where
  "env_list w name =
     (case gw_env w name of
        None \<Rightarrow> []
      | Some v \<Rightarrow> filter (\<lambda>s. s \<noteq> []) (map trim (split_on CHR '','' v)))"

definition extra_protected_branches_from_env :: "git_world \<Rightarrow> string list" where
  "extra_protected_branches_from_env w = env_list w ''AGENTFLARE_GIT_PROTECTED_BRANCHES''"

definition is_protected_branch :: "git_world \<Rightarrow> string \<Rightarrow> string option \<Rightarrow> bool" where
  "is_protected_branch w branch dflt =
     is_protected_branch_among branch dflt (extra_protected_branches_from_env w)"

lemma default_is_protected [simp]: "is_protected_branch w d (Some d)"
  by (simp add: is_protected_branch_def is_protected_branch_among_def)

definition is_linked_worktree :: "git_world \<Rightarrow> path \<Rightarrow> bool" where
  "is_linked_worktree w root =
     (case (run_in_opt w root [''rev-parse'', ''--git-dir''],
            run_in_opt w root [''rev-parse'', ''--git-common-dir'']) of
        (Some git_dir, Some common_dir) \<Rightarrow> git_dir \<noteq> common_dir
      | _ \<Rightarrow> False)"

definition staleness_reason :: "string \<Rightarrow> nat \<Rightarrow> string option" where
  "staleness_reason default_branch commits_behind =
     (if commits_behind > 0 then Some
        (''this branch is '' @ show_nat commits_behind @ '' commit(s) behind origin/'' @ default_branch @
         '' '' @ [CHR 0xE2, CHR 0x80, CHR 0x94] @
         '' consider merging/rebasing before continuing, so edits build on the latest code'')
      else None)"

section \<open>Tracked projects\<close>

text \<open>Upwards from the start to the marker, stopping at the home directory; \<open>rev\<close> makes the parent the tail.\<close>

fun scoped_walk :: "git_world \<Rightarrow> path \<Rightarrow> path option \<Rightarrow> bool" where
  "scoped_walk w [] home =
     (if home = Some [] then False else gw_exists w [''.agentflare''])"
| "scoped_walk w (c # up) home =
     (if home = Some (rev (c # up)) then False
      else if gw_exists w (rev (c # up) @ [''.agentflare'']) then True
      else scoped_walk w up home)"

definition in_scoped_project :: "git_world \<Rightarrow> path \<Rightarrow> path option \<Rightarrow> bool" where
  "in_scoped_project w start home = scoped_walk w (rev start) home"

text \<open>Tracked exactly when an ancestor has the marker and home is not reached before or with it.\<close>

lemma scoped_walk_iff:
  "scoped_walk w up home \<longleftrightarrow>
     (\<exists>xs ys. up = xs @ ys \<and> gw_exists w (rev ys @ [''.agentflare'']) \<and>
        (\<forall>zs. suffix zs up \<and> length ys \<le> length zs \<longrightarrow> home \<noteq> Some (rev zs)))"
proof (induction up)
  case Nil
  show ?case by auto
next
  case (Cons c up)
  show ?case (is "_ \<longleftrightarrow> ?R (c # up)")
  proof (cases "home = Some (rev (c # up))")
    case True
    then show ?thesis by (fastforce simp: suffix_def)
  next
    case nh: False
    show ?thesis
    proof (cases "gw_exists w (rev (c # up) @ [''.agentflare''])")
      case True
      have "?R (c # up)"
        using True nh
        by (intro exI [of _ "[]"] exI [of _ "c # up"])
          (auto simp: suffix_Cons dest: suffix_length_le)
      with True nh show ?thesis by simp
    next
      case False
      have "?R (c # up) \<longleftrightarrow> ?R up"
      proof
        assume "?R (c # up)"
        then obtain xs ys where e: "c # up = xs @ ys" "gw_exists w (rev ys @ [''.agentflare''])"
          "\<forall>zs. suffix zs (c # up) \<and> length ys \<le> length zs \<longrightarrow> home \<noteq> Some (rev zs)" by blast
        with False obtain xs' where "xs = c # xs'" by (cases xs) auto
        with e show "?R up" by (auto simp: suffix_Cons)
      next
        assume "?R up"
        then obtain xs ys where "up = xs @ ys" "gw_exists w (rev ys @ [''.agentflare''])"
          "\<forall>zs. suffix zs up \<and> length ys \<le> length zs \<longrightarrow> home \<noteq> Some (rev zs)" by blast
        then show "?R (c # up)" using nh
          by (intro exI [of _ "c # xs"] exI [of _ ys]) (auto simp: suffix_Cons)
      qed
      with False nh Cons show ?thesis by simp
    qed
  qed
qed

end
