(* ===== verification/Git_Policy.thy ===== *)
theory Git_Policy
  imports Git_World
begin

text \<open>
  The resolved policy of the git shim: \<^verbatim>\<open>crates/flare-git-core/src/policy_config.rs\<close> and
  \<^verbatim>\<open>config_loader.rs\<close>, with the baseline lists of \<^verbatim>\<open>classify.rs\<close>. The TOML parser and the
  decoding of its values are parameters; a configuration layer only ever adds to a list.
\<close>

section \<open>The baseline lists\<close>

definition trust_root_paths_baseline :: "string list" where
  "trust_root_paths_baseline =
     [''.githooks/'', ''.agentflare/'', ''Cargo.toml'', ''.github/workflows/'', ''.gitlab-ci.yml'', ''.circleci/'']"

definition allowed_mutating_subcommands_baseline :: "string list" where
  "allowed_mutating_subcommands_baseline =
     [''add'', ''commit'', ''merge'', ''rebase'', ''pull'', ''cherry-pick'', ''revert'', ''stash'', ''init'',
      ''restore'', ''reset'', ''clean'']"

definition denied_plumbing_subcommands_baseline :: "string list" where
  "denied_plumbing_subcommands_baseline =
     [''read-tree'', ''update-index'', ''apply'', ''hash-object'', ''mktree'', ''commit-tree'', ''update-ref'']"

definition extra_trust_root_paths_from_env :: "git_world \<Rightarrow> string list" where
  "extra_trust_root_paths_from_env w = env_list w ''AGENTFLARE_GIT_TRUST_ROOT_PATHS''"

section \<open>Loading the layers\<close>

record git_shim_config =
  gs_extra_trust_root_paths :: "string list"
  gs_extra_allowed :: "string list"
  gs_extra_denied :: "string list"

definition default_git_shim_config :: git_shim_config where
  "default_git_shim_config =
     \<lparr>gs_extra_trust_root_paths = [], gs_extra_allowed = [], gs_extra_denied = []\<rparr>"

text \<open>An error names the file.\<close>

type_synonym loader_error = "path \<times> string"

record 'v toml_api =
  tm_parse :: "string \<Rightarrow> string + 'v"
  tm_git_shim :: "'v \<Rightarrow> string + git_shim_config"

definition parse_if_exists :: "git_world \<Rightarrow> 'v toml_api \<Rightarrow> path \<Rightarrow> loader_error + (path \<times> 'v) option" where
  "parse_if_exists w tm file_path =
     (case gw_read w file_path of
        None \<Rightarrow> Inr None
      | Some contents \<Rightarrow>
          (case tm_parse tm contents of
             Inl e \<Rightarrow> Inl (file_path, e) | Inr v \<Rightarrow> Inr (Some (file_path, v))))"

definition config_path :: "path \<Rightarrow> path" where
  "config_path dir = dir @ [''.agentflare'', ''config.toml'']"

definition locate_and_parse ::
  "git_world \<Rightarrow> 'v toml_api \<Rightarrow> path \<Rightarrow> path option \<Rightarrow>
     loader_error + (path \<times> 'v) option \<times> (path \<times> 'v) option"
where
  "locate_and_parse w tm root home =
     (case parse_if_exists w tm (config_path root) of
        Inl e \<Rightarrow> Inl e
      | Inr project_local \<Rightarrow>
          (case (case home of None \<Rightarrow> Inr None | Some h \<Rightarrow> parse_if_exists w tm (config_path h)) of
             Inl e \<Rightarrow> Inl e
           | Inr user_home \<Rightarrow> Inr (project_local, user_home)))"

definition parse_git_shim :: "'v toml_api \<Rightarrow> (path \<times> 'v) option \<Rightarrow> loader_error + git_shim_config" where
  "parse_git_shim tm layer =
     (case layer of
        None \<Rightarrow> Inr default_git_shim_config
      | Some (file_path, v) \<Rightarrow>
          (case tm_git_shim tm v of Inl e \<Rightarrow> Inl (file_path, e) | Inr c \<Rightarrow> Inr c))"

section \<open>The resolved policy\<close>

record shim_policy =
  trust_root_paths :: "string list"
  allowed_mutating :: "string list"
  denied_plumbing :: "string list"

definition add_layer :: "string list \<Rightarrow> string list \<Rightarrow> string list" where
  "add_layer layer out = fold (\<lambda>x acc. if x \<in> set acc then acc else acc @ [x]) layer out"

definition unioned :: "string list \<Rightarrow> string list list \<Rightarrow> string list" where
  "unioned baseline layers = fold add_layer layers baseline"

definition baseline_policy :: "git_world \<Rightarrow> shim_policy" where
  "baseline_policy w =
     \<lparr>trust_root_paths = unioned trust_root_paths_baseline [extra_trust_root_paths_from_env w],
      allowed_mutating = allowed_mutating_subcommands_baseline,
      denied_plumbing = denied_plumbing_subcommands_baseline\<rparr>"

definition resolve_policy ::
  "git_world \<Rightarrow> 'v toml_api \<Rightarrow> path \<Rightarrow> path option \<Rightarrow> loader_error + shim_policy"
where
  "resolve_policy w tm root home =
     (case locate_and_parse w tm root home of
        Inl e \<Rightarrow> Inl e
      | Inr (local_layer, home_layer) \<Rightarrow>
          (case parse_git_shim tm local_layer of
             Inl e \<Rightarrow> Inl e
           | Inr p \<Rightarrow>
               (case parse_git_shim tm home_layer of
                  Inl e \<Rightarrow> Inl e
                | Inr u \<Rightarrow> Inr
                    \<lparr>trust_root_paths = unioned trust_root_paths_baseline
                       [gs_extra_trust_root_paths p, gs_extra_trust_root_paths u,
                        extra_trust_root_paths_from_env w],
                     allowed_mutating = unioned allowed_mutating_subcommands_baseline
                       [gs_extra_allowed p, gs_extra_allowed u],
                     denied_plumbing = unioned denied_plumbing_subcommands_baseline
                       [gs_extra_denied p, gs_extra_denied u]\<rparr>)))"

text \<open>A broken configuration falls back to the baseline (the caller prints a warning).\<close>

definition effective_policy :: "git_world \<Rightarrow> 'v toml_api \<Rightarrow> path \<Rightarrow> path option \<Rightarrow> shim_policy" where
  "effective_policy w tm root home =
     (case resolve_policy w tm root home of Inl _ \<Rightarrow> baseline_policy w | Inr p \<Rightarrow> p)"

section \<open>Layers only add\<close>

lemma set_add_layer [simp]: "set (add_layer layer out) = set out \<union> set layer"
proof -
  have "set (fold (\<lambda>x acc. if x \<in> set acc then acc else acc @ [x]) layer out) = set out \<union> set layer"
    by (induction layer arbitrary: out) auto
  then show ?thesis by (simp add: add_layer_def)
qed

lemma set_unioned [simp]: "set (unioned baseline layers) = set baseline \<union> (\<Union>l\<in>set layers. set l)"
proof -
  have "set (fold add_layer layers out) = set out \<union> (\<Union>l\<in>set layers. set l)" for out
    by (induction layers arbitrary: out) auto
  then show ?thesis by (simp add: unioned_def)
qed

lemma distinct_add_layer: "distinct out \<Longrightarrow> distinct (add_layer layer out)"
proof -
  have "distinct out \<Longrightarrow> distinct (fold (\<lambda>x acc. if x \<in> set acc then acc else acc @ [x]) layer out)"
    by (induction layer arbitrary: out) auto
  then show "distinct out \<Longrightarrow> distinct (add_layer layer out)" by (simp add: add_layer_def)
qed

lemma distinct_unioned: "distinct baseline \<Longrightarrow> distinct (unioned baseline layers)"
proof -
  have "distinct out \<Longrightarrow> distinct (fold add_layer layers out)" for out
    by (induction layers arbitrary: out) (auto simp: distinct_add_layer)
  then show "distinct baseline \<Longrightarrow> distinct (unioned baseline layers)" by (simp add: unioned_def)
qed

text \<open>No file and no variable gives the baseline.\<close>

lemma no_config_is_baseline:
  assumes "gw_read w (config_path root) = None" "\<And>h. home = Some h \<Longrightarrow> gw_read w (config_path h) = None"
    and "gw_env w ''AGENTFLARE_GIT_TRUST_ROOT_PATHS'' = None"
  shows "resolve_policy w tm root home = Inr (baseline_policy w)"
  using assms
  by (cases home)
    (simp_all add: resolve_policy_def locate_and_parse_def parse_if_exists_def parse_git_shim_def
      baseline_policy_def default_git_shim_config_def extra_trust_root_paths_from_env_def env_list_def
      unioned_def add_layer_def)

text \<open>Whatever the configuration says, the baseline lists stay in force.\<close>

lemma effective_policy_baseline:
  "set trust_root_paths_baseline \<subseteq> set (trust_root_paths (effective_policy w tm root home))"
  "set allowed_mutating_subcommands_baseline \<subseteq> set (allowed_mutating (effective_policy w tm root home))"
  "set denied_plumbing_subcommands_baseline \<subseteq> set (denied_plumbing (effective_policy w tm root home))"
  by (auto simp: effective_policy_def resolve_policy_def baseline_policy_def split: sum.splits prod.splits)

end
