(* ===== verification/Git_Classify.thy ===== *)
theory Git_Classify
  imports Git_Policy
begin

text \<open>
  The classification of a git command: \<^verbatim>\<open>crates/flare-git-core/src/classify.rs\<close>. The pure core
  \<open>classify_pure\<close> takes its facts as arguments; \<open>classify_with_home\<close> resolves them from a
  \<open>git_world\<close>. The text of a denial is a fixed template over the data kept in \<open>deny_reason\<close>.
\<close>

section \<open>Dispositions\<close>

datatype deny_reason =
    PlumbingBlocked string
  | DeletesDefaultBranch
  | DirtyDefaultCheckout string
  | TrustRootTouched "string list" string
  | TrustRootUnverified "string list" string
  | PushesDefaultBranch string
  | WorktreeTeardown
  | WorktreeManaged

datatype disposition =
    Passthrough
  | RedirectToWorktree string
  | SilentExempt
  | Deny deny_reason
  | ScopeCheckError string

datatype trust_root_touch = TClean | TTouched "string list" | TUnknown

section \<open>Shapes of arguments\<close>

definition branch_create_flags :: "string \<Rightarrow> (string list \<times> string list) option" where
  "branch_create_flags subcommand =
     (if subcommand = ''checkout'' then Some ([''-b'', ''-B''], [''--orphan''])
      else if subcommand = ''switch'' then
        Some ([''-c'', ''-C''], [''--create'', ''--force-create'', ''--orphan''])
      else None)"

definition is_branch_create :: "string \<Rightarrow> string list \<Rightarrow> bool" where
  "is_branch_create subcommand args =
     (case branch_create_flags subcommand of
        None \<Rightarrow> False
      | Some (short_flags, long_flags) \<Rightarrow>
          list_ex (\<lambda>a. list_ex (\<lambda>f. prefix f a) short_flags \<or>
                       list_ex (\<lambda>f. a = f \<or> prefix (f @ ''='') a) long_flags)
            (takeWhile (\<lambda>a. a \<noteq> ''--'') args))"

definition is_option :: "string \<Rightarrow> bool" where
  "is_option a \<longleftrightarrow> prefix ''-'' a"

definition first_positional :: "string list \<Rightarrow> string option" where
  "first_positional args = find (\<lambda>a. \<not> is_option a) args"

definition would_detach_head :: "git_world \<Rightarrow> path \<Rightarrow> string \<Rightarrow> string list \<Rightarrow> bool" where
  "would_detach_head w root subcommand args =
     (if subcommand = ''checkout'' then
        (if ''--'' \<in> set args then False
         else if ''--detach'' \<in> set args then True
         else if is_branch_create subcommand args then False
         else (case first_positional args of
                 None \<Rightarrow> False
               | Some target \<Rightarrow>
                   \<not> run_in_ok w root [''show-ref'', ''--verify'', ''--quiet'', ''refs/heads/'' @ target]))
      else if subcommand = ''switch'' then ''--detach'' \<in> set args \<or> ''-d'' \<in> set args
      else False)"

definition read_only_subcommands :: "string list" where
  "read_only_subcommands =
     [''status'', ''log'', ''diff'', ''show'', ''blame'', ''shortlog'', ''describe'', ''ls-files'', ''ls-tree'',
      ''cat-file'', ''grep'', ''reflog'', ''rev-parse'', ''rev-list'', ''symbolic-ref'', ''config'', ''remote'',
      ''tag'', ''fetch'', ''clone'', ''help'', ''version'']"

definition is_destructive :: "string \<Rightarrow> string list \<Rightarrow> bool" where
  "is_destructive subcommand args =
     (if subcommand = ''reset'' then ''--hard'' \<in> set args
      else if subcommand = ''clean'' then
        list_ex (\<lambda>a. a = ''--force'' \<or> is_option a \<and> \<not> prefix ''--'' a \<and> CHR ''f'' \<in> set a) args
      else if subcommand = ''checkout'' \<or> subcommand = ''switch'' then
        list_ex (\<lambda>a. a = ''-f'' \<or> a = ''--force'' \<or> a = ''-B'') args
      else False)"

section \<open>Soft resets onto a diverged target\<close>

definition parse_u32 :: "string \<Rightarrow> nat option" where
  "parse_u32 s = (case parse_u64 s of None \<Rightarrow> None | Some n \<Rightarrow> if n \<le> u32_max then Some n else None)"

text \<open>The sum of the two counts is a \<open>u32\<close>; an overflow panics in a debug build and wraps in a release build, which is the one modelled.\<close>

definition reset_soft_divergence :: "git_world \<Rightarrow> path \<Rightarrow> string \<Rightarrow> nat option" where
  "reset_soft_divergence w root target =
     (if run_in_ok w root [''merge-base'', ''--is-ancestor'', ''HEAD'', target] \<or>
         run_in_ok w root [''merge-base'', ''--is-ancestor'', target, ''HEAD''] then None
      else
        (case run_in w root [''rev-list'', ''--left-right'', ''--count'', ''HEAD...'' @ target] of
           Inl _ \<Rightarrow> None
         | Inr counts \<Rightarrow>
             (case split_whitespace counts of
                a # b # _ \<Rightarrow>
                  (case (parse_u32 a, parse_u32 b) of
                     (Some unique_to_head, Some unique_to_target) \<Rightarrow>
                       Some ((unique_to_head + unique_to_target) mod (u32_max + 1))
                   | _ \<Rightarrow> None)
              | _ \<Rightarrow> None)))"

definition reset_soft_divergence_warning ::
  "git_world \<Rightarrow> path \<Rightarrow> string \<Rightarrow> string list \<Rightarrow> (string \<times> nat) option"
where
  "reset_soft_divergence_warning w root subcommand args =
     (if subcommand \<noteq> ''reset'' \<or> \<not> (''--soft'' \<in> set args \<or> ''--mixed'' \<in> set args) then None
      else
        (case first_positional (takeWhile (\<lambda>a. a \<noteq> ''--'') args) of
           None \<Rightarrow> None
         | Some target \<Rightarrow>
             (case reset_soft_divergence w root target of
                None \<Rightarrow> None | Some commits \<Rightarrow> Some (target, commits))))"

section \<open>The pure core\<close>

definition deletes_or_renames :: "string list \<Rightarrow> bool" where
  "deletes_or_renames args \<longleftrightarrow>
     list_ex (\<lambda>a. a \<in> {''-D'', ''-d'', ''--delete'', ''-M'', ''-m'', ''--move''}) args"

definition classify_branch :: "git_world \<Rightarrow> string list \<Rightarrow> string \<Rightarrow> disposition" where
  "classify_branch w args default_branch =
     (if \<not> deletes_or_renames args then Passthrough
      else if list_ex (\<lambda>t. is_protected_branch w t (Some default_branch)) (filter (\<lambda>a. \<not> is_option a) args)
      then Deny DeletesDefaultBranch
      else Passthrough)"

definition classify_checkout :: "git_world \<Rightarrow> string list \<Rightarrow> string \<Rightarrow> bool \<Rightarrow> disposition" where
  "classify_checkout w args default_branch working_tree_clean =
     (case first_positional args of
        None \<Rightarrow> Passthrough
      | Some target \<Rightarrow>
          if is_protected_branch w target (Some default_branch) \<and> \<not> working_tree_clean
          then Deny (DirtyDefaultCheckout target)
          else Passthrough)"

definition classify_push :: "trust_root_touch \<Rightarrow> bool \<Rightarrow> string \<Rightarrow> shim_policy \<Rightarrow> disposition" where
  "classify_push touch push_targets_default_branch default_branch policy =
     (case touch of
        TTouched paths \<Rightarrow>
          if push_targets_default_branch then Deny (TrustRootTouched paths default_branch) else Passthrough
      | TUnknown \<Rightarrow>
          if push_targets_default_branch
          then Deny (TrustRootUnverified (trust_root_paths policy) default_branch) else Passthrough
      | TClean \<Rightarrow>
          if push_targets_default_branch then Deny (PushesDefaultBranch default_branch) else Passthrough)"

definition worktree_read_only :: "string list \<Rightarrow> bool" where
  "worktree_read_only args =
     (case args of
        [] \<Rightarrow> False
      | a # _ \<Rightarrow>
          if a = ''list'' then True
          else if a = ''prune'' then ''--dry-run'' \<in> set args
          else False)"

definition classify_worktree :: "string list \<Rightarrow> disposition" where
  "classify_worktree args =
     (if worktree_read_only args then Passthrough
      else if args \<noteq> [] \<and> (hd args = ''remove'' \<or> hd args = ''prune'') then Deny WorktreeTeardown
      else Deny WorktreeManaged)"

text \<open>The environment is read by the protected-branch predicate only.\<close>

definition classify_pure ::
  "git_world \<Rightarrow> string \<Rightarrow> string list \<Rightarrow> string \<Rightarrow> trust_root_touch \<Rightarrow> bool \<Rightarrow> bool \<Rightarrow> shim_policy \<Rightarrow> disposition"
where
  "classify_pure w subcommand args default_branch touch push_targets_default_branch working_tree_clean policy =
     (if subcommand \<in> set read_only_subcommands \<or> subcommand \<in> set (allowed_mutating policy) then Passthrough
      else if subcommand \<in> set (denied_plumbing policy) then Deny (PlumbingBlocked subcommand)
      else if subcommand = ''branch'' then classify_branch w args default_branch
      else if subcommand = ''checkout'' \<or> subcommand = ''switch''
      then classify_checkout w args default_branch working_tree_clean
      else if subcommand = ''push''
      then classify_push touch push_targets_default_branch default_branch policy
      else if subcommand = ''worktree'' then classify_worktree args
      else Passthrough)"

section \<open>Trust roots\<close>

definition trust_root_diff_max_paths :: nat where
  "trust_root_diff_max_paths = 50000"

text \<open>Sorted, without adjacent repetitions: \<open>sort\<close> then \<open>dedup\<close>.\<close>

definition sort_dedup :: "string list \<Rightarrow> string list" where
  "sort_dedup xs = remdups_adj (sort xs)"

lemma set_sort_dedup [simp]: "set (sort_dedup xs) = set xs"
  by (simp add: sort_dedup_def)

lemma sort_dedup_Nil [simp]: "sort_dedup xs = [] \<longleftrightarrow> xs = []"
  by (metis set_empty set_sort_dedup)

definition resolve_trust_root_touch ::
  "git_world \<Rightarrow> path \<Rightarrow> string \<Rightarrow> string \<Rightarrow> string list \<Rightarrow> trust_root_touch"
where
  "resolve_trust_root_touch w root branch target roots =
     (case run_in_lines_bounded w root [''diff'', ''--name-only'', target @ ''...'' @ branch]
             trust_root_diff_max_paths of
        Inr names \<Rightarrow>
          (let matched = sort_dedup (filter (\<lambda>f. list_ex (\<lambda>p. prefix p f) roots) names)
           in if matched = [] then TClean else TTouched matched)
      | Inl _ \<Rightarrow> TUnknown)"

section \<open>Commits that take unstaged content\<close>

definition value_taking_commit_flags :: "string list" where
  "value_taking_commit_flags =
     [''--message'', ''--file'', ''--reuse-message'', ''--reedit-message'', ''--fixup'', ''--squash'',
      ''--author'', ''--date'', ''--template'', ''--cleanup'', ''--trailer'']"

definition harmless_commit_flags :: "string list" where
  "harmless_commit_flags =
     [''--quiet'', ''--verbose'', ''--signoff'', ''--no-signoff'', ''--no-verify'', ''--amend'', ''--no-edit'',
      ''--edit'', ''--reset-author'', ''--only'', ''--allow-empty'', ''--allow-empty-message'',
      ''--no-post-rewrite'', ''--dry-run'', ''--short'', ''--branch'', ''--porcelain'', ''--long'', ''--null'',
      ''--status'', ''--no-status'', ''--gpg-sign'', ''--no-gpg-sign'', ''--untracked-files'']"

text \<open>A cluster of short options: \<open>None\<close> when one is unknown, else how many further arguments it takes.\<close>

fun short_cluster :: "string \<Rightarrow> nat option" where
  "short_cluster [] = Some 0"
| "short_cluster (c # s) =
     (if c \<in> set ''mFCct'' then Some (if s = [] then 1 else 0)
      else if c \<in> set ''Su'' then Some 0
      else if c \<in> set ''qvsnezo'' then short_cluster s
      else None)"

function commit_includes_unstaged :: "string list \<Rightarrow> bool" where
  "commit_includes_unstaged [] = False"
| "commit_includes_unstaged (a # rest) =
     (if a = ''--'' then rest \<noteq> []
      else if prefix ''-'' a \<and> \<not> prefix ''--'' a \<and> length a > 1 then
        (case short_cluster (tl a) of
           None \<Rightarrow> True
         | Some k \<Rightarrow> commit_includes_unstaged (drop k rest))
      else
        (let name = takeWhile (\<lambda>c. c \<noteq> CHR ''='') a
         in if name \<in> set value_taking_commit_flags
            then commit_includes_unstaged (if a = name then drop 1 rest else rest)
            else if name \<notin> set harmless_commit_flags then True
            else commit_includes_unstaged rest))"
  by pat_completeness auto
termination
  by (relation "measure length") auto

section \<open>What a push writes\<close>

record push_ref =
  pr_source :: string
  pr_destination :: string

definition strip_ref_prefix :: "string \<Rightarrow> string" where
  "strip_ref_prefix name = (case strip_prefix ''refs/heads/'' name of None \<Rightarrow> name | Some s \<Rightarrow> s)"

definition local_branches :: "git_world \<Rightarrow> path \<Rightarrow> string list option" where
  "local_branches w root =
     (case run_in w root [''for-each-ref'', ''--format=%(refname:short)'', ''refs/heads/''] of
        Inl _ \<Rightarrow> None
      | Inr out \<Rightarrow> Some (filter (\<lambda>s. s \<noteq> []) (text_lines out)))"

definition same_ref :: "string \<Rightarrow> push_ref" where
  "same_ref b = \<lparr>pr_source = b, pr_destination = b\<rparr>"

definition parse_refspec :: "string \<Rightarrow> push_ref" where
  "parse_refspec spec =
     (let spec = (case strip_prefix ''+'' spec of None \<Rightarrow> spec | Some s \<Rightarrow> s)
      in case split_once CHR '':'' spec of
           Some (src, dst) \<Rightarrow>
             if dst \<noteq> [] then
               (let dst = strip_ref_prefix dst
                in \<lparr>pr_source = (if src = [] then dst else strip_ref_prefix src), pr_destination = dst\<rparr>)
             else same_ref (strip_ref_prefix (takeWhile (\<lambda>c. c \<noteq> CHR '':'') spec))
         | None \<Rightarrow> same_ref (strip_ref_prefix (takeWhile (\<lambda>c. c \<noteq> CHR '':'') spec)))"

definition value_taking_push_flags :: "string list" where
  "value_taking_push_flags = [''-o'', ''--push-option'', ''--receive-pack'', ''--repo'', ''--exec'']"

fun non_flag_args :: "bool \<Rightarrow> string list \<Rightarrow> string list" where
  "non_flag_args skip_next [] = []"
| "non_flag_args skip_next (a # args) =
     (if skip_next then non_flag_args False args
      else if is_option a then non_flag_args (a \<in> set value_taking_push_flags) args
      else a # non_flag_args False args)"

definition pushed_refs :: "git_world \<Rightarrow> path \<Rightarrow> string list \<Rightarrow> push_ref list option" where
  "pushed_refs w root args =
     (if ''--mirror'' \<in> set args then None
      else if ''--all'' \<in> set args then map_option (map same_ref) (local_branches w root)
      else
        (let non_flags = non_flag_args False args
         in if ''--tags'' \<in> set args \<and> length non_flags \<le> 1 then Some []
            else if length non_flags \<le> 1 then
              (case current_branch w root of None \<Rightarrow> None | Some b \<Rightarrow> Some [same_ref b])
            else Some (map parse_refspec (tl non_flags))))"

text \<open>\<open>combined_trust_root_touch\<close>: touched wins over unknown wins over clean, and the paths unite.\<close>

definition combined_trust_root_touch ::
  "git_world \<Rightarrow> path \<Rightarrow> push_ref list \<Rightarrow> string \<Rightarrow> string list \<Rightarrow> trust_root_touch"
where
  "combined_trust_root_touch w root refs default_branch roots =
     (let touches = map (\<lambda>r. resolve_trust_root_touch w root (pr_source r) default_branch roots) refs;
          touched = concat (map (\<lambda>t. case t of TTouched ps \<Rightarrow> ps | _ \<Rightarrow> []) touches)
      in if touched \<noteq> [] then TTouched (sort_dedup touched)
         else if TUnknown \<in> set touches then TUnknown
         else TClean)"

section \<open>The resolving entry point\<close>

record git_event =
  ge_subcommand :: string
  ge_args :: "string list"
  ge_disposition :: disposition

definition push_facts :: "git_world \<Rightarrow> path \<Rightarrow> string list \<Rightarrow> string \<Rightarrow> shim_policy \<Rightarrow> trust_root_touch \<times> bool" where
  "push_facts w root args default_branch policy =
     (case pushed_refs w root args of
        Some refs \<Rightarrow>
          (let targets = list_ex (\<lambda>r. is_protected_branch w (pr_destination r) (Some default_branch)) refs
           in (if targets
               then combined_trust_root_touch w root refs default_branch (trust_root_paths policy)
               else TClean, targets))
      | None \<Rightarrow> (TUnknown, True))"

definition working_tree_clean :: "git_world \<Rightarrow> path \<Rightarrow> string \<Rightarrow> string list \<Rightarrow> string \<Rightarrow> bool" where
  "working_tree_clean w root subcommand args default_branch =
     (if (subcommand = ''checkout'' \<or> subcommand = ''switch'') \<and>
         (case first_positional args of
            None \<Rightarrow> False | Some target \<Rightarrow> is_protected_branch w target (Some default_branch))
      then is_dirty_checked w root = Some False
      else True)"

definition resolved_disposition ::
  "git_world \<Rightarrow> 'v toml_api \<Rightarrow> path \<Rightarrow> string \<Rightarrow> string list \<Rightarrow> path option \<Rightarrow> disposition"
where
  "resolved_disposition w tm root subcommand args home =
     (let policy = effective_policy w tm root home;
          default_branch = resolve_default_branch w root;
          (touch, targets) =
            (if subcommand = ''push'' then push_facts w root args default_branch policy else (TClean, False))
      in classify_pure w subcommand args default_branch touch targets
           (working_tree_clean w root subcommand args default_branch) policy)"

definition classify_with_home ::
  "git_world \<Rightarrow> 'v toml_api \<Rightarrow> path \<Rightarrow> string \<Rightarrow> string list \<Rightarrow> path option \<Rightarrow> git_event"
where
  "classify_with_home w tm root subcommand args home =
     (let d = resolved_disposition w tm root subcommand args home
      in \<lparr>ge_subcommand = subcommand, ge_args = args,
          ge_disposition =
            (if (case d of Deny _ \<Rightarrow> True | _ \<Rightarrow> False) \<and> \<not> in_scoped_project w root home
             then Passthrough else d)\<rparr>)"

section \<open>Which pushes are denied\<close>

definition is_deny :: "disposition \<Rightarrow> bool" where
  "is_deny d = (case d of Deny _ \<Rightarrow> True | _ \<Rightarrow> False)"

lemma is_deny_simps [simp]: "is_deny (Deny r)" "\<not> is_deny Passthrough"
  by (simp_all add: is_deny_def)

lemma classify_push_deny [simp]: "is_deny (classify_push touch targets d policy) \<longleftrightarrow> targets"
  by (simp add: classify_push_def split: trust_root_touch.split)

lemma push_not_read_only: "''push'' \<notin> set read_only_subcommands"
  by code_simp

lemma push_facts_targets:
  "snd (push_facts w root args d policy) \<longleftrightarrow>
     (case pushed_refs w root args of
        None \<Rightarrow> True
      | Some refs \<Rightarrow> \<exists>r\<in>set refs. is_protected_branch w (pr_destination r) (Some d))"
  by (simp add: push_facts_def Let_def list_ex_iff split: option.split)

lemma classify_with_home_deny:
  "is_deny (ge_disposition (classify_with_home w tm root sub args home)) \<longleftrightarrow>
     in_scoped_project w root home \<and> is_deny (resolved_disposition w tm root sub args home)"
  by (auto simp: classify_with_home_def Let_def is_deny_def split: disposition.splits)

lemma resolved_push_deny:
  "is_deny (resolved_disposition w tm root ''push'' args home) \<longleftrightarrow>
     ''push'' \<notin> set (allowed_mutating (effective_policy w tm root home)) \<and>
     (''push'' \<in> set (denied_plumbing (effective_policy w tm root home)) \<or>
      snd (push_facts w root args (resolve_default_branch w root) (effective_policy w tm root home)))"
  by (simp add: resolved_disposition_def Let_def classify_pure_def push_not_read_only case_prod_unfold)

text \<open>The spellings of a refspec that write to a branch.\<close>

lemma strip_ref_prefix_full [simp]: "strip_ref_prefix (''refs/heads/'' @ d) = d"
proof -
  have "strip_prefix ''refs/heads/'' (''refs/heads/'' @ d) = Some d" using strip_prefix_Some by blast
  then show ?thesis by (simp add: strip_ref_prefix_def)
qed

lemma strip_ref_prefix_other: "\<not> prefix ''refs/heads/'' d \<Longrightarrow> strip_ref_prefix d = d"
  by (simp add: strip_ref_prefix_def strip_prefix_def)

lemma strip_plus:
  "strip_prefix ''+'' (''+'' @ s) = Some s" "\<not> prefix ''+'' s \<Longrightarrow> strip_prefix ''+'' s = None"
  by (simp_all add: strip_prefix_def)

definition plain_branch :: "string \<Rightarrow> bool" where
  "plain_branch d \<longleftrightarrow> d \<noteq> [] \<and> CHR '':'' \<notin> set d \<and> \<not> prefix ''+'' d \<and> \<not> prefix ''refs/heads/'' d"

text \<open>\<open>body\<close> is a refspec without its force mark: a destination alone, or after a source and a colon.\<close>

inductive writes_to :: "string \<Rightarrow> string \<Rightarrow> bool" where
  bare: "d' \<in> {d, ''refs/heads/'' @ d} \<Longrightarrow> writes_to d d'"
| colon: "d' \<in> {d, ''refs/heads/'' @ d} \<Longrightarrow> CHR '':'' \<notin> set src \<Longrightarrow> \<not> prefix ''+'' src \<Longrightarrow>
            writes_to d (src @ CHR '':'' # d')"
| forced: "writes_to d spec \<Longrightarrow> \<not> prefix ''+'' spec \<Longrightarrow> writes_to d (CHR ''+'' # spec)"

definition refspec_body :: "string \<Rightarrow> push_ref" where
  "refspec_body spec =
     (case split_once CHR '':'' spec of
        Some (src, dst) \<Rightarrow>
          if dst \<noteq> [] then
            \<lparr>pr_source = (if src = [] then strip_ref_prefix dst else strip_ref_prefix src),
             pr_destination = strip_ref_prefix dst\<rparr>
          else same_ref (strip_ref_prefix (takeWhile (\<lambda>c. c \<noteq> CHR '':'') spec))
      | None \<Rightarrow> same_ref (strip_ref_prefix (takeWhile (\<lambda>c. c \<noteq> CHR '':'') spec)))"

lemma parse_refspec_body:
  "parse_refspec (CHR ''+'' # spec) = refspec_body spec"
  "\<not> prefix ''+'' spec \<Longrightarrow> parse_refspec spec = refspec_body spec"
  using strip_plus(1) [of spec]
  by (simp_all add: parse_refspec_def refspec_body_def strip_plus Let_def split: option.split)

lemma refspec_body_destination:
  assumes "plain_branch d" "d' \<in> {d, ''refs/heads/'' @ d}"
  shows "pr_destination (refspec_body d') = d"
    and "CHR '':'' \<notin> set src \<Longrightarrow> pr_destination (refspec_body (src @ CHR '':'' # d')) = d"
proof -
  have d': "d' \<noteq> []" "CHR '':'' \<notin> set d'" "strip_ref_prefix d' = d"
    using assms strip_ref_prefix_full [of d]
    by (auto simp: plain_branch_def strip_ref_prefix_other simp del: strip_ref_prefix_full)
  then have "split_once CHR '':'' d' = None" by (simp add: split_once_None)
  moreover have "takeWhile (\<lambda>c. c \<noteq> CHR '':'') d' = d'" using takeWhile_eq_all_conv d'(2) by blast
  ultimately show "pr_destination (refspec_body d') = d"
    using d' by (simp add: refspec_body_def same_ref_def del: takeWhile_eq_all_conv)
  assume "CHR '':'' \<notin> set src"
  then have "split_once CHR '':'' (src @ CHR '':'' # d') = Some (src, d')" by (simp add: split_once_Some)
  then show "pr_destination (refspec_body (src @ CHR '':'' # d')) = d" using d' by (simp add: refspec_body_def)
qed

lemma writes_to_destination: "writes_to d spec \<Longrightarrow> plain_branch d \<Longrightarrow> pr_destination (parse_refspec spec) = d"
proof (induction rule: writes_to.induct)
  case (bare d' d)
  then have "\<not> prefix ''+'' d'" by (auto simp: plain_branch_def)
  with bare show ?case by (simp add: parse_refspec_body refspec_body_destination)
next
  case (colon d' d src)
  then have "\<not> prefix ''+'' (src @ CHR '':'' # d')" by (cases src) auto
  with colon show ?case by (simp add: parse_refspec_body refspec_body_destination)
next
  case (forced d spec)
  then show ?case by (simp add: parse_refspec_body)
qed

end
