(* ===== verification/Git_Guard.thy ===== *)
theory Git_Guard
  imports Git_Classify
begin

text \<open>
  What the git policy guarantees: which pushes are denied, and that nothing is denied outside tracked
  projects. The witnesses use a small repository: default branch \<open>main\<close>, tracked at its root.
\<close>

section \<open>A repository for the witnesses\<close>

fun demo_git :: "string list \<Rightarrow> git_result" where
  "demo_git args =
     (if args = [''symbolic-ref'', ''--short'', ''refs/remotes/origin/HEAD''] then GitExited True ''origin/main'' []
      else if args = [''rev-parse'', ''--abbrev-ref'', ''HEAD''] then GitExited True ''main'' []
      else if args = [''rev-parse'', ''--git-dir''] then GitExited True ''.git'' []
      else if args = [''rev-parse'', ''--git-common-dir''] then GitExited True ''.git'' []
      else if args = [''rev-parse'', ''--show-toplevel''] then GitExited True ''/r'' []
      else if take 1 args = [''diff''] then GitExited True ''README'' []
      else GitExited False [] ''no'')"

definition demo_world :: git_world where
  "demo_world =
     \<lparr>gw_git = \<lambda>root args. demo_git args,
      gw_env = \<lambda>name. if name = ''AGENTFLARE_AGENT'' then Some ''a'' else None,
      gw_exists = \<lambda>p. p = [''r'', ''.agentflare''],
      gw_read = \<lambda>p. None\<rparr>"

definition demo_toml :: "unit toml_api" where
  "demo_toml = \<lparr>tm_parse = \<lambda>s. Inr (), tm_git_shim = \<lambda>v. Inr default_git_shim_config\<rparr>"

lemma demo_facts:
  "resolve_default_branch demo_world [''r''] = ''main''"
  "current_branch demo_world [''r''] = Some ''main''"
  "in_scoped_project demo_world [''r''] None"
  "''push'' \<notin> set (allowed_mutating (effective_policy demo_world demo_toml [''r''] None))"
  "extra_protected_branches_from_env demo_world = []"
  by code_simp+

section \<open>Properties\<close>

text \<open>
  A push is denied exactly in a tracked project whose configuration does not allow \<open>push\<close> as such,
  and there exactly when one of the refs it writes is protected, when the refs cannot be determined,
  or when the configuration forbids \<open>push\<close> as such.
\<close>

lemma push_denied_iff:
  "is_deny (ge_disposition (classify_with_home w tm root ''push'' args home)) \<longleftrightarrow>
     in_scoped_project w root home \<and>
     ''push'' \<notin> set (allowed_mutating (effective_policy w tm root home)) \<and>
     (''push'' \<in> set (denied_plumbing (effective_policy w tm root home)) \<or>
      (case pushed_refs w root args of
         None \<Rightarrow> True
       | Some refs \<Rightarrow>
           \<exists>r\<in>set refs. is_protected_branch w (pr_destination r) (Some (resolve_default_branch w root))))"
  by (simp add: classify_with_home_deny resolved_push_deny push_facts_targets)

text \<open>
  C38: In a tracked project whose configuration does not allow \<^verbatim>\<open>push\<close> as such, a push without \<^verbatim>\<open>--all\<close> is
  denied when one of its refspecs writes to the default branch in one of the spellings of \<open>writes_to\<close>: its
  name or \<^verbatim>\<open>refs/heads/\<close> and its name, alone, after a source and a colon, or after a colon as a deletion,
  each forced or not. Other spellings git accepts (\<^verbatim>\<open>heads/main\<close>, \<^verbatim>\<open>HEAD\<close>, a bare colon, patterns) are not
  recognised, see \<open>push_of_head_passes\<close>.
\<close>

theorem push_to_default_denied:
  assumes "in_scoped_project w root home"
    and "''push'' \<notin> set (allowed_mutating (effective_policy w tm root home))"
    and "plain_branch (resolve_default_branch w root)"
    and "writes_to (resolve_default_branch w root) spec" "spec \<in> set (tl (non_flag_args False args))"
    and "''--all'' \<notin> set args"
  shows "is_deny (ge_disposition (classify_with_home w tm root ''push'' args home))"
proof -
  have d: "pr_destination (parse_refspec spec) = resolve_default_branch w root"
    using assms(4,3) by (rule writes_to_destination)
  have "\<not> length (non_flag_args False args) \<le> 1"
    using assms(5) by (cases "non_flag_args False args"; cases "tl (non_flag_args False args)") auto
  then have "pushed_refs w root args = None \<or>
      pushed_refs w root args = Some (map parse_refspec (tl (non_flag_args False args)))"
    using assms(6) by (simp add: pushed_refs_def Let_def)
  then have "snd (push_facts w root args (resolve_default_branch w root) policy)" for policy
    unfolding push_facts_targets
  proof
    assume "pushed_refs w root args = Some (map parse_refspec (tl (non_flag_args False args)))"
    moreover have "is_protected_branch w (pr_destination (parse_refspec spec)) (Some (resolve_default_branch w root))"
      by (simp add: d)
    ultimately show "case pushed_refs w root args of None \<Rightarrow> True
      | Some refs \<Rightarrow> \<exists>r\<in>set refs. is_protected_branch w (pr_destination r) (Some (resolve_default_branch w root))"
      using assms(5) by auto
  qed simp
  with assms(1,2) show ?thesis by (simp add: classify_with_home_deny resolved_push_deny)
qed

theorem push_to_default_denied_witness:
  "is_deny (ge_disposition (classify_with_home demo_world demo_toml [''r''] ''push''
     [''-u'', ''origin'', ''+feature:refs/heads/main''] None))"
proof -
  have "CHR '':'' \<notin> set ''feature''" "\<not> prefix ''+'' ''feature''" by code_simp+
  then have "writes_to ''main'' (''feature'' @ CHR '':'' # (''refs/heads/'' @ ''main''))" by (intro colon) simp_all
  moreover have "\<not> prefix ''+'' (''feature'' @ CHR '':'' # (''refs/heads/'' @ ''main''))" by code_simp
  ultimately have "writes_to ''main'' (CHR ''+'' # ''feature'' @ CHR '':'' # (''refs/heads/'' @ ''main''))"
    by (rule forced)
  then have "writes_to ''main'' ''+feature:refs/heads/main''" by simp
  moreover have "plain_branch ''main''" by code_simp
  moreover have "''+feature:refs/heads/main'' \<in>
    set (tl (non_flag_args False [''-u'', ''origin'', ''+feature:refs/heads/main'']))" by code_simp
  moreover have "''--all'' \<notin> set [''-u'', ''origin'', ''+feature:refs/heads/main'']" by code_simp
  ultimately show ?thesis
    using demo_facts by (intro push_to_default_denied [where spec = "''+feature:refs/heads/main''"]) auto
qed

text \<open>
  Refspecs with which git writes the default branch (the checked-out branch, every branch that exists
  on both sides, and every local branch), and which the classifier does not resolve.
\<close>

definition unresolved_specs :: "string list" where
  "unresolved_specs = [''HEAD'', '':'', ''refs/heads/*:refs/heads/*'']"

text \<open>
  The push of the checked-out default branch is denied when it names no ref, and let through when
  it is spelled \<open>HEAD\<close>, \<open>:\<close> or \<open>refs/heads/*:refs/heads/*\<close>, by which git writes that branch too.
\<close>

lemma push_of_head_passes:
  assumes "in_scoped_project w root home"
    and "set (allowed_mutating (effective_policy w tm root home)) = set allowed_mutating_subcommands_baseline"
    and "set (denied_plumbing (effective_policy w tm root home)) = set denied_plumbing_subcommands_baseline"
    and "extra_protected_branches_from_env w = []"
    and "current_branch w root = Some (resolve_default_branch w root)"
    and "resolve_default_branch w root \<notin> {''HEAD'', [], ''*''}"
    and "spec \<in> set unresolved_specs"
  shows "is_deny (ge_disposition (classify_with_home w tm root ''push'' [''origin''] home)) \<and>
         ge_disposition (classify_with_home w tm root ''push'' [''origin'', spec] home) = Passthrough"
proof
  have base: "''push'' \<notin> set allowed_mutating_subcommands_baseline"
    "''push'' \<notin> set denied_plumbing_subcommands_baseline" by code_simp+
  have "pushed_refs w root [''origin''] = Some [same_ref (resolve_default_branch w root)]"
    using assms(5) by (simp add: pushed_refs_def is_option_def)
  then show "is_deny (ge_disposition (classify_with_home w tm root ''push'' [''origin''] home))"
    using assms base
    by (simp add: classify_with_home_deny resolved_push_deny push_facts_targets same_ref_def)
  have "list_all (\<lambda>s. \<not> is_option s \<and> s \<noteq> ''--mirror'' \<and> s \<noteq> ''--all'' \<and> s \<noteq> ''--tags'' \<and>
      pr_destination (parse_refspec s) \<in> {''HEAD'', [], ''*''}) unresolved_specs" by code_simp
  then have spec: "\<not> is_option spec" "spec \<noteq> ''--mirror''" "spec \<noteq> ''--all''" "spec \<noteq> ''--tags''"
    "pr_destination (parse_refspec spec) \<in> {''HEAD'', [], ''*''}"
    using assms(7) by (auto simp: list_all_iff)
  then have "pushed_refs w root [''origin'', spec] = Some [parse_refspec spec]"
    by (auto simp: pushed_refs_def Let_def is_option_def [of "''origin''"])
  moreover have "\<not> is_protected_branch w (pr_destination (parse_refspec spec)) (Some (resolve_default_branch w root))"
    using assms(4,6) spec(5) by (auto simp: is_protected_branch_def is_protected_branch_among_def)
  ultimately have "push_facts w root [''origin'', spec] (resolve_default_branch w root) policy = (TClean, False)"
    for policy by (simp add: push_facts_def Let_def)
  then show "ge_disposition (classify_with_home w tm root ''push'' [''origin'', spec] home) = Passthrough"
    using assms(2,3) base
    by (simp add: classify_with_home_def resolved_disposition_def Let_def classify_pure_def
        classify_push_def push_not_read_only)
qed

lemma push_of_head_passes_example:
  "is_deny (ge_disposition (classify_with_home demo_world demo_toml [''r''] ''push'' [''origin''] None)) \<and>
   ge_disposition (classify_with_home demo_world demo_toml [''r''] ''push'' [''origin'', ''HEAD''] None) = Passthrough"
proof -
  have "set (allowed_mutating (effective_policy demo_world demo_toml [''r''] None)) =
      set allowed_mutating_subcommands_baseline"
    "set (denied_plumbing (effective_policy demo_world demo_toml [''r''] None)) =
      set denied_plumbing_subcommands_baseline" by code_simp+
  then show ?thesis using demo_facts by (intro push_of_head_passes) (auto simp: unresolved_specs_def)
qed

text \<open>Outside a tracked project nothing is denied.\<close>

lemma untracked_never_denied:
  "\<not> in_scoped_project w root home \<Longrightarrow> \<not> is_deny (ge_disposition (classify_with_home w tm root sub args home))"
  by (simp add: classify_with_home_deny)

text \<open>A baseline plumbing command is denied in every tracked project that does not allow it explicitly.\<close>

lemma plumbing_denied:
  assumes "in_scoped_project w root home" "sub \<in> set denied_plumbing_subcommands_baseline"
    and "sub \<notin> set (allowed_mutating (effective_policy w tm root home))"
  shows "is_deny (ge_disposition (classify_with_home w tm root sub args home))"
proof -
  have "list_all (\<lambda>s. s \<notin> set read_only_subcommands) denied_plumbing_subcommands_baseline" by code_simp
  then have "sub \<notin> set read_only_subcommands" using assms(2) by (auto simp: list_all_iff)
  moreover have "sub \<in> set (denied_plumbing (effective_policy w tm root home))"
    using assms(2) effective_policy_baseline(3) by blast
  ultimately show ?thesis
    using assms by (simp add: classify_with_home_deny resolved_disposition_def Let_def classify_pure_def
        case_prod_unfold)
qed

text \<open>The checkout of the default branch with an unreadable or unclean working tree is denied.\<close>

lemma dirty_checkout_denied:
  assumes "in_scoped_project w root home" "sub \<in> {''checkout'', ''switch''}"
    and "sub \<notin> set (allowed_mutating (effective_policy w tm root home))"
    and "first_positional args = Some (resolve_default_branch w root)"
    and "is_dirty_checked w root \<noteq> Some False"
  shows "is_deny (ge_disposition (classify_with_home w tm root sub args home))"
proof -
  have "''checkout'' \<notin> set read_only_subcommands" "''switch'' \<notin> set read_only_subcommands" by code_simp+
  moreover have "sub \<noteq> ''push''" "sub \<noteq> ''branch''" using assms(2) by auto
  ultimately show ?thesis
    using assms
    by (auto simp: classify_with_home_deny resolved_disposition_def Let_def classify_pure_def
        classify_checkout_def working_tree_clean_def)
qed

end
