(* ===== verification/Git_Scope.thy ===== *)
theory Git_Scope
  imports Git_Guard
begin

text \<open>
  Claim-aware path scopes: \<^verbatim>\<open>crates/flare-git-core/src/scope.rs\<close> and the check the shim runs before a
  commit or push (\<open>run_scope_check\<close> and its helpers in \<^verbatim>\<open>src/cli/git.rs\<close>). The list of live claims
  and whether the ledger could be read are arguments.
\<close>

section \<open>Scopes\<close>

datatype scope_verdict =
    Clear
  | Related
  | Overlapping string string string
  | OutOfTree string

record claim_scope =
  cs_target :: string
  cs_owner :: string
  cs_scopes :: "string list"

definition is_wildcard :: "char \<Rightarrow> bool" where
  "is_wildcard c \<longleftrightarrow> c \<in> set ''*?[''"

definition literal_prefix :: "string \<Rightarrow> string" where
  "literal_prefix glob = takeWhile (\<lambda>c. \<not> is_wildcard c) glob"

definition globs_overlap :: "string \<Rightarrow> string \<Rightarrow> bool" where
  "globs_overlap a b \<longleftrightarrow>
     prefix (literal_prefix b) (literal_prefix a) \<or> prefix (literal_prefix a) (literal_prefix b)"

definition scope_is_wildcard_or_empty :: "string list \<Rightarrow> bool" where
  "scope_is_wildcard_or_empty scopes \<longleftrightarrow> scopes = [] \<or> list_all (\<lambda>s. s = ''**'') scopes"

definition path_matches_scope :: "string \<Rightarrow> string \<Rightarrow> bool" where
  "path_matches_scope file scope \<longleftrightarrow> scope = ''**'' \<or> prefix (literal_prefix scope) file"

text \<open>The first path of a claim that one of its scopes covers, with that scope.\<close>

fun claim_overlap :: "string list \<Rightarrow> string list \<Rightarrow> string option" where
  "claim_overlap [] scopes = None"
| "claim_overlap (p # ps) scopes =
     (case find (path_matches_scope p) scopes of
        Some scope \<Rightarrow> Some scope
      | None \<Rightarrow> claim_overlap ps scopes)"

fun classify_others :: "string list \<Rightarrow> claim_scope list \<Rightarrow> scope_verdict" where
  "classify_others paths [] = Related"
| "classify_others paths (c # cs) =
     (if scope_is_wildcard_or_empty (cs_scopes c) then classify_others paths cs
      else (case claim_overlap paths (cs_scopes c) of
              Some scope \<Rightarrow> Overlapping (cs_owner c) (cs_target c) scope
            | None \<Rightarrow> classify_others paths cs))"

definition classify_scopes ::
  "string list \<Rightarrow> string option \<Rightarrow> bool \<Rightarrow> claim_scope list \<Rightarrow> scope_verdict"
where
  "classify_scopes changed_paths own_target in_own_worktree others =
     (if changed_paths = [] then Clear
      else (case (own_target, in_own_worktree) of
              (Some target, False) \<Rightarrow> OutOfTree target
            | _ \<Rightarrow> classify_others changed_paths others))"

section \<open>The changed paths of a commit or push\<close>

definition max_changed_paths :: nat where
  "max_changed_paths = 50000"

datatype scope_failure = TooManyPaths nat | NoPushBase | NoRemoteBranch

text \<open>An unreadable diff yields no paths; only too many paths are an error.\<close>

definition diff_paths :: "git_world \<Rightarrow> path \<Rightarrow> string list \<Rightarrow> scope_failure + string list" where
  "diff_paths w root args =
     (case run_in_lines_bounded w root args max_changed_paths of
        Inr p \<Rightarrow> Inr p
      | Inl (LinesGit _) \<Rightarrow> Inr []
      | Inl TooManyLines \<Rightarrow> Inl (TooManyPaths max_changed_paths))"

definition push_diff_range :: "git_world \<Rightarrow> path \<Rightarrow> scope_failure + string" where
  "push_diff_range w root =
     (case run_in_opt w root [''rev-parse'', ''--verify'', CHR ''@'' # ''{upstream}''] of
        Some upstream \<Rightarrow> Inr (upstream @ ''..HEAD'')
      | None \<Rightarrow>
          (case (case current_branch w root of
                   None \<Rightarrow> None
                 | Some current \<Rightarrow>
                     run_in_opt w root [''rev-parse'', ''--verify'', ''refs/remotes/origin/'' @ current]) of
             Some base \<Rightarrow> Inr (base @ ''...HEAD'')
           | None \<Rightarrow>
               (case resolve_default_branch_known w root of
                  None \<Rightarrow> Inl NoPushBase
                | Some d \<Rightarrow>
                    (case run_in_opt w root [''rev-parse'', ''--verify'', ''refs/remotes/origin/'' @ d] of
                       None \<Rightarrow> Inl NoRemoteBranch
                     | Some base \<Rightarrow> Inr (base @ ''...HEAD'')))))"

definition changed_paths :: "git_world \<Rightarrow> path \<Rightarrow> string \<Rightarrow> bool \<Rightarrow> scope_failure + string list" where
  "changed_paths w root subcommand staged_only =
     (if subcommand = ''commit'' then
        (case diff_paths w root [''diff'', ''--cached'', ''--name-only''] of
           Inl e \<Rightarrow> Inl e
         | Inr staged \<Rightarrow>
             if staged_only then Inr staged
             else
               (case diff_paths w root [''diff'', ''--name-only''] of
                  Inl e \<Rightarrow> Inl e
                | Inr unstaged \<Rightarrow>
                    (let paths = sort_dedup (staged @ unstaged)
                     in if length paths > max_changed_paths then Inl (TooManyPaths max_changed_paths)
                        else Inr paths)))
      else if subcommand = ''push'' then
        (case push_diff_range w root of
           Inl e \<Rightarrow> Inl e
         | Inr rng \<Rightarrow> diff_paths w root [''diff'', ''--name-only'', rng])
      else Inr [])"

section \<open>The check\<close>

record live_scope_claim =
  lc_target :: string
  lc_owner :: string
  lc_scope :: "string list"

definition partition_claims_by_owner ::
  "live_scope_claim list \<Rightarrow> string \<Rightarrow> string option \<times> claim_scope list"
where
  "partition_claims_by_owner live owner =
     (map_option lc_target (find (\<lambda>c. lc_owner c = owner) live),
      map (\<lambda>c. \<lparr>cs_target = lc_target c, cs_owner = lc_owner c, cs_scopes = lc_scope c\<rparr>)
        (filter (\<lambda>c. lc_owner c \<noteq> owner) live))"

text \<open>A pass, a verdict against the change, or no verdict at all (which blocks too).\<close>

datatype scope_check_result =
    ScopePass
  | ScopeDeny scope_verdict
  | ScopeLedgerError string
  | ScopeError scope_failure

definition verdict_result :: "scope_verdict \<Rightarrow> scope_check_result" where
  "verdict_result v = (case v of Clear \<Rightarrow> ScopePass | Related \<Rightarrow> ScopePass | _ \<Rightarrow> ScopeDeny v)"

definition scope_check_claims ::
  "git_world \<Rightarrow> path \<Rightarrow> string \<Rightarrow> bool \<Rightarrow> string \<Rightarrow> live_scope_claim list \<Rightarrow> scope_check_result"
where
  "scope_check_claims w root subcommand staged_only owner live =
     (if live = [] then ScopePass
      else
        (let (own_target, others) = partition_claims_by_owner live owner;
             in_worktree = is_linked_worktree w root;
             out_of_tree = own_target \<noteq> None \<and> \<not> in_worktree;
             has_enforced_others = list_ex (\<lambda>c. \<not> scope_is_wildcard_or_empty (cs_scopes c)) others
         in case (if \<not> out_of_tree \<and> \<not> has_enforced_others then Inr []
                  else changed_paths w root subcommand staged_only) of
              Inl e \<Rightarrow> ScopeError e
            | Inr changed \<Rightarrow> verdict_result (classify_scopes changed own_target in_worktree others)))"

text \<open>The resolved inputs: agent or not, the repository, its key, and the live claims or the ledger's error.\<close>

definition run_scope_check ::
  "git_world \<Rightarrow> bool \<Rightarrow> path option \<Rightarrow> string option \<Rightarrow> string + live_scope_claim list \<Rightarrow> string \<Rightarrow>
     string \<Rightarrow> bool \<Rightarrow> scope_check_result"
where
  "run_scope_check w agent repo_root repo live owner subcommand staged_only =
     (if \<not> agent then ScopePass
      else (case repo_root of
              None \<Rightarrow> ScopePass
            | Some root \<Rightarrow>
                (case repo of
                   None \<Rightarrow> ScopePass
                 | Some _ \<Rightarrow>
                     (case live of
                        Inl e \<Rightarrow> ScopeLedgerError e
                      | Inr cs \<Rightarrow> scope_check_claims w root subcommand staged_only owner cs))))"

section \<open>When a change is held back\<close>

text \<open>A claim that says anything at all about paths, and one of its scopes that covers a changed path.\<close>

definition enforced :: "claim_scope \<Rightarrow> bool" where
  "enforced c \<longleftrightarrow> (\<exists>s\<in>set (cs_scopes c). s \<noteq> ''**'')"

definition covers :: "claim_scope \<Rightarrow> string \<Rightarrow> string list \<Rightarrow> bool" where
  "covers c scope paths \<longleftrightarrow> scope \<in> set (cs_scopes c) \<and> (\<exists>p\<in>set paths. path_matches_scope p scope)"

lemma enforced_iff: "enforced c \<longleftrightarrow> \<not> scope_is_wildcard_or_empty (cs_scopes c)"
  by (auto simp: enforced_def scope_is_wildcard_or_empty_def list_all_iff)

lemma claim_overlap_Some: "claim_overlap paths (cs_scopes c) = Some scope \<Longrightarrow> covers c scope paths"
  by (induction paths) (auto simp: covers_def split: option.splits dest: find_Some_iff_mem)

lemma claim_overlap_None: "claim_overlap paths (cs_scopes c) = None \<longleftrightarrow> (\<forall>scope. \<not> covers c scope paths)"
  by (induction paths) (auto simp: covers_def find_None_iff split: option.split dest: find_Some_iff_mem)

lemma classify_others_overlap:
  "classify_others paths cs = Overlapping ow tg scope \<Longrightarrow>
     \<exists>c\<in>set cs. enforced c \<and> covers c scope paths \<and> cs_owner c = ow \<and> cs_target c = tg"
  by (induction cs) (auto simp: enforced_iff split: if_splits option.splits dest: claim_overlap_Some)

lemma classify_others_cases:
  "classify_others paths cs = Related \<and> (\<forall>c\<in>set cs. enforced c \<longrightarrow> (\<forall>scope. \<not> covers c scope paths)) \<or>
   (\<exists>ow tg scope. classify_others paths cs = Overlapping ow tg scope)"
proof (induction cs)
  case (Cons c cs)
  show ?case
  proof (cases "claim_overlap paths (cs_scopes c)")
    case None
    then have "\<forall>scope. \<not> covers c scope paths" using claim_overlap_None by blast
    with None Cons show ?thesis by auto
  next
    case (Some scope)
    with Cons show ?thesis by (auto simp: enforced_iff)
  qed
qed simp

definition holds_back :: "scope_verdict \<Rightarrow> bool" where
  "holds_back v \<longleftrightarrow> v \<noteq> Clear \<and> v \<noteq> Related"

lemma classify_others_holds_back:
  "holds_back (classify_others paths cs) \<longleftrightarrow> (\<exists>c\<in>set cs. enforced c \<and> (\<exists>scope. covers c scope paths))"
  using classify_others_cases [of paths cs]
proof
  assume "\<exists>ow tg scope. classify_others paths cs = Overlapping ow tg scope"
  then show ?thesis using classify_others_overlap by (fastforce simp: holds_back_def)
qed (auto simp: holds_back_def)

lemma classify_scopes_holds_back:
  "holds_back (classify_scopes paths own in_tree others) \<longleftrightarrow>
     paths \<noteq> [] \<and> ((own \<noteq> None \<and> \<not> in_tree) \<or>
       (\<exists>c\<in>set others. enforced c \<and> (\<exists>scope. covers c scope paths)))"
proof (cases "paths = []")
  case True
  then show ?thesis by (simp add: classify_scopes_def holds_back_def)
next
  case False
  show ?thesis
  proof (cases "own \<noteq> None \<and> \<not> in_tree")
    case True
    with False show ?thesis by (auto simp: classify_scopes_def holds_back_def)
  next
    case ni: False
    then have "classify_scopes paths own in_tree others = classify_others paths others"
      using False by (auto simp: classify_scopes_def split: option.split)
    with False ni show ?thesis by (cases own) (simp_all add: classify_others_holds_back)
  qed
qed

section \<open>Skipping the diff\<close>

text \<open>The check without its shortcut: the changed paths are always computed.\<close>

definition scope_check_always ::
  "git_world \<Rightarrow> path \<Rightarrow> string \<Rightarrow> bool \<Rightarrow> string \<Rightarrow> live_scope_claim list \<Rightarrow> scope_check_result"
where
  "scope_check_always w root subcommand staged_only owner live =
     (let (own_target, others) = partition_claims_by_owner live owner
      in case changed_paths w root subcommand staged_only of
           Inl e \<Rightarrow> ScopeError e
         | Inr changed \<Rightarrow>
             verdict_result (classify_scopes changed own_target (is_linked_worktree w root) others))"

lemma verdict_result_pass: "\<not> holds_back v \<Longrightarrow> verdict_result v = ScopePass"
  by (auto simp: verdict_result_def holds_back_def)

lemma scope_check_skip:
  assumes "changed_paths w root subcommand staged_only = Inr changed"
  shows "scope_check_claims w root subcommand staged_only owner live =
         scope_check_always w root subcommand staged_only owner live"
proof (cases "live = []")
  case True
  then have "\<not> holds_back (classify_scopes changed None (is_linked_worktree w root) [])"
    by (simp add: classify_scopes_holds_back)
  with True assms show ?thesis
    by (simp add: scope_check_claims_def scope_check_always_def partition_claims_by_owner_def verdict_result_pass)
next
  case False
  obtain own others where p: "partition_claims_by_owner live owner = (own, others)" by fastforce
  let ?skip = "\<not> (own \<noteq> None \<and> \<not> is_linked_worktree w root) \<and>
    \<not> list_ex (\<lambda>c. \<not> scope_is_wildcard_or_empty (cs_scopes c)) others"
  show ?thesis
  proof (cases ?skip)
    case True
    then have "\<not> holds_back (classify_scopes paths own (is_linked_worktree w root) others)" for paths
      by (auto simp: classify_scopes_holds_back enforced_iff list_ex_iff)
    then have "verdict_result (classify_scopes paths own (is_linked_worktree w root) others) = ScopePass" for paths
      by (simp add: verdict_result_pass)
    with True False p assms show ?thesis
      by (auto simp: scope_check_claims_def scope_check_always_def)
  next
    case skip: False
    with False p assms show ?thesis
      by (auto simp: scope_check_claims_def scope_check_always_def)
  qed
qed

section \<open>Properties\<close>

text \<open>
  C39: A commit or push is held back exactly when it changes something and either the invoker holds a
  claim but is not in its worktree, or some other claim with a scope of its own covers a changed path.
\<close>

theorem scope_holds_back_iff:
  "holds_back (classify_scopes paths own in_tree others) \<longleftrightarrow>
     paths \<noteq> [] \<and> ((own \<noteq> None \<and> \<not> in_tree) \<or>
       (\<exists>c\<in>set others. enforced c \<and> (\<exists>scope. covers c scope paths)))"
  by (rule classify_scopes_holds_back)

text \<open>
  The shortcut of the check (no diff when no claim could hold anything back) gives the verdict
  that always computing the changed paths gives, whenever they can be computed.
\<close>

lemma scope_check_shortcut_exact:
  assumes "changed_paths w root subcommand staged_only = Inr changed"
  shows "scope_check_claims w root subcommand staged_only owner live =
         scope_check_always w root subcommand staged_only owner live"
  using assms by (rule scope_check_skip)

definition demo_claims :: "live_scope_claim list" where
  "demo_claims =
     [\<lparr>lc_target = ''item#1'', lc_owner = ''b:1'', lc_scope = [''src/**'']\<rparr>,
      \<lparr>lc_target = ''item#2'', lc_owner = ''c:1'', lc_scope = [''README'']\<rparr>]"

lemma scope_check_shortcut_exact_example:
  "scope_check_always demo_world [''r''] ''commit'' True ''a:1'' demo_claims =
     ScopeDeny (Overlapping ''c:1'' ''item#2'' ''README'') \<and>
   scope_check_claims demo_world [''r''] ''commit'' True ''a:1'' demo_claims =
     scope_check_always demo_world [''r''] ''commit'' True ''a:1'' demo_claims"
proof -
  have "gw_git demo_world [''r''] [''diff'', ''--cached'', ''--name-only''] = GitExited True ''README'' []"
    "filter (\<lambda>l. l \<noteq> []) (text_lines ''README'') = [''README'']" by code_simp+
  then have changed: "changed_paths demo_world [''r''] ''commit'' True = Inr [''README'']"
    by (simp add: changed_paths_def diff_paths_def run_in_lines_bounded_def max_changed_paths_def)
  then have "scope_check_claims demo_world [''r''] ''commit'' True ''a:1'' demo_claims =
      scope_check_always demo_world [''r''] ''commit'' True ''a:1'' demo_claims"
    by (rule scope_check_shortcut_exact)
  moreover have "(let (own, others) = partition_claims_by_owner demo_claims ''a:1''
      in verdict_result (classify_scopes [''README''] own (is_linked_worktree demo_world [''r'']) others)) =
      ScopeDeny (Overlapping ''c:1'' ''item#2'' ''README'')" by code_simp
  then have "scope_check_always demo_world [''r''] ''commit'' True ''a:1'' demo_claims =
      ScopeDeny (Overlapping ''c:1'' ''item#2'' ''README'')"
    by (simp add: scope_check_always_def changed case_prod_unfold Let_def)
  ultimately show ?thesis by simp
qed

end
