(* ===== verification/Git_Shim.thy ===== *)
theory Git_Shim
  imports Git_Scope
begin

text \<open>
  The \<open>git\<close> shim: \<open>main\<close> and its helpers of \<^verbatim>\<open>crates/flare-git-shim/src/main.rs\<close>, with the
  detection of an agent of \<^verbatim>\<open>classify.rs\<close>. One invocation either hands the command to the real git
  or exits; on the way it logs events. The child that checks scopes and the decoding of its answer
  are parameters, as is the walk over the ancestor processes.
\<close>

section \<open>Who is calling\<close>

definition env_is_set :: "git_world \<Rightarrow> string \<Rightarrow> bool" where
  "env_is_set w name = (case gw_env w name of None \<Rightarrow> False | Some v \<Rightarrow> v \<noteq> [])"

definition agent_invocation_detected :: "git_world \<Rightarrow> bool \<Rightarrow> bool \<Rightarrow> bool" where
  "agent_invocation_detected w debug_build process_is_agent =
     (if debug_build \<and> env_is_set w ''AGENTFLARE_GIT_ASSUME_HUMAN'' then False
      else process_is_agent \<or> env_is_set w ''AGENTFLARE_AGENT'' \<or> env_is_set w ''LEAN_CTX_AGENT'')"

definition bypass_active :: "git_world \<Rightarrow> nat \<Rightarrow> bool" where
  "bypass_active w now =
     (if env_is_set w ''AGENTFLARE_GIT_BYPASS'' then True
      else if (case gw_env w ''AGENTFLARE_GIT_BYPASS_AGENT'' of
                 None \<Rightarrow> False
               | Some target \<Rightarrow> target \<noteq> [] \<and> gw_env w ''AGENTFLARE_AGENT'' = Some target) then True
      else (case gw_env w ''AGENTFLARE_GIT_BYPASS_UNTIL'' of
              None \<Rightarrow> False
            | Some until \<Rightarrow>
                (case parse_u64 until of None \<Rightarrow> False | Some until_epoch \<Rightarrow> now < until_epoch)))"

definition snapshots_enabled :: "git_world \<Rightarrow> bool" where
  "snapshots_enabled w =
     (case gw_env w ''AGENTFLARE_GIT_SNAPSHOTS'' of
        None \<Rightarrow> True | Some v \<Rightarrow> v \<noteq> ''0'' \<and> to_lowercase v \<noteq> ''off'')"

section \<open>Global flags\<close>

definition escape_hatch_flags :: "string list" where
  "escape_hatch_flags = [''-C'', ''--git-dir'', ''--work-tree'']"

definition global_flags_with_value :: "string list" where
  "global_flags_with_value = [''-c'', ''-C'', ''--git-dir'', ''--work-tree'', ''--namespace'', ''--exec-path'']"

definition is_escape_flag :: "string \<Rightarrow> bool" where
  "is_escape_flag a \<longleftrightarrow>
     a \<in> set escape_hatch_flags \<or> list_ex (\<lambda>f. prefix (f @ ''='') a) escape_hatch_flags"

text \<open>The subcommand with what follows it, and whether an escape flag came before it.\<close>

function parse_global_flags :: "bool \<Rightarrow> string list \<Rightarrow> (string \<times> string list) option \<times> bool" where
  "parse_global_flags escape [] = (None, escape)"
| "parse_global_flags escape (a # rest) =
     (if \<not> is_option a then (Some (a, rest), escape)
      else parse_global_flags (escape \<or> is_escape_flag a)
             (if a \<in> set global_flags_with_value then drop 1 rest else rest))"
  by pat_completeness auto
termination
  by (relation "measure (\<lambda>(e, args). length args)") auto

definition read_only_escape_subcommands :: "string list" where
  "read_only_escape_subcommands =
     [''log'', ''status'', ''diff'', ''show'', ''blame'', ''shortlog'', ''describe'', ''ls-files'', ''ls-tree'',
      ''cat-file'', ''grep'', ''rev-parse'', ''rev-list'', ''merge-base'', ''for-each-ref'', ''name-rev'',
      ''show-ref'', ''diff-tree'', ''diff-index'', ''diff-files'', ''check-ignore'', ''count-objects'', ''var'']"

definition branch_listing_arg :: "bool \<Rightarrow> string \<Rightarrow> bool" where
  "branch_listing_arg with_list a \<longleftrightarrow>
     a \<in> {''--list'', ''--show-current'', ''--all'', ''--remotes'', ''--verbose'', ''--no-color''} \<or>
     (is_option a \<and> \<not> prefix ''--'' a \<and> length a > 1 \<and> list_all (\<lambda>c. c \<in> set ''arv'') (tl a)) \<or>
     (with_list \<and> \<not> is_option a)"

definition escape_hatch_read_only :: "string \<Rightarrow> string list \<Rightarrow> bool" where
  "escape_hatch_read_only subcommand rest =
     (if subcommand = ''grep'' then
        \<not> list_ex (\<lambda>a. prefix ''--open-files-in-pager'' a \<or>
                     is_option a \<and> \<not> prefix ''--'' a \<and> CHR ''O'' \<in> set a) rest
      else if subcommand \<in> set read_only_escape_subcommands then True
      else if subcommand = ''worktree'' then rest \<noteq> [] \<and> hd rest = ''list''
      else if subcommand = ''branch'' then
        list_all (branch_listing_arg (''--list'' \<in> set rest)) rest
      else if subcommand = ''remote'' then
        (case find (\<lambda>a. a \<noteq> ''-v'' \<and> a \<noteq> ''--verbose'') rest of
           None \<Rightarrow> True | Some a \<Rightarrow> a = ''show'' \<or> a = ''get-url'')
      else False)"

section \<open>The canonical checkout\<close>

datatype canonical_reason = CreatesBranch | DetachesHead

definition deny_canonical_detach_reason ::
  "git_world \<Rightarrow> bool \<Rightarrow> path \<Rightarrow> path option \<Rightarrow> string \<Rightarrow> string list \<Rightarrow> canonical_reason option"
where
  "deny_canonical_detach_reason w agent root home subcommand args =
     (if \<not> agent then None
      else if \<not> in_scoped_project w root home then None
      else if is_linked_worktree w root then None
      else if is_branch_create subcommand args then Some CreatesBranch
      else if \<not> would_detach_head w root subcommand args then None
      else Some DetachesHead)"

section \<open>The scope check of the child process\<close>

datatype scope_child = ChildMissing string | ChildExited bool "int option" string string

record scope_json =
  sj_deny :: bool
  sj_reason :: "string option"
  sj_error :: "string option"

datatype scope_outcome =
    ScPass
  | ScDeny string
  | ScCrash "int option" string
  | ScUnavailable string

definition interpret_scope_check :: "(string \<Rightarrow> string + scope_json) \<Rightarrow> bool \<Rightarrow> int option \<Rightarrow> string \<Rightarrow> string \<Rightarrow> scope_outcome" where
  "interpret_scope_check decode ok code out err =
     (if \<not> ok then ScCrash code (trim err)
      else
        (case decode (trim out) of
           Inl e \<Rightarrow> ScUnavailable e
         | Inr r \<Rightarrow>
             (case sj_error r of
                Some e \<Rightarrow> ScUnavailable e
              | None \<Rightarrow>
                  if sj_deny r
                  then ScDeny (case sj_reason r of Some t \<Rightarrow> t
                               | None \<Rightarrow> ''scope-check denied (no reason given)'')
                  else ScPass)))"

definition scope_check_args :: "string \<Rightarrow> string list \<Rightarrow> string list" where
  "scope_check_args subcommand args =
     [''git'', ''scope-check'', ''--subcommand'', subcommand] @
     (if subcommand = ''commit'' \<and> \<not> commit_includes_unstaged args then [''--staged-only''] else [])"

definition scope_check_outcome ::
  "(string list \<Rightarrow> scope_child) \<Rightarrow> (string \<Rightarrow> string + scope_json) \<Rightarrow> string \<Rightarrow> string list \<Rightarrow> scope_outcome"
where
  "scope_check_outcome child decode subcommand args =
     (case child (scope_check_args subcommand args) of
        ChildMissing e \<Rightarrow> ScUnavailable e
      | ChildExited ok code out err \<Rightarrow> interpret_scope_check decode ok code out err)"

section \<open>main\<close>

record 'v shim_input =
  si_world :: git_world
  si_toml :: "'v toml_api"
  si_child :: "string list \<Rightarrow> scope_child"
  si_decode :: "string \<Rightarrow> string + scope_json"
  si_tool :: string
  si_args :: "string list"
  si_cwd :: path
  si_home :: "path option"
  si_now :: nat
  si_debug_build :: bool
  si_process_is_agent :: bool

datatype shim_result = ExecReal | ExitCode nat

datatype shim_log =
    Logged string "string list" disposition
  | LoggedEscape "string list"
  | LoggedCanonical string "string list" canonical_reason
  | LoggedScopeDeny string "string list" string
  | LoggedScopeError string "string list" string
  | Snapshotted

definition path_of_string :: "string \<Rightarrow> path" where
  "path_of_string s = filter (\<lambda>c. c \<noteq> []) (split_on CHR ''/'' s)"

definition max_recursion_depth :: nat where
  "max_recursion_depth = 3"

text \<open>After a disposition that lets the command pass: the scope check, the snapshot, the real git.\<close>

definition shim_snapshot :: "'v shim_input \<Rightarrow> string \<Rightarrow> string list \<Rightarrow> shim_log list" where
  "shim_snapshot i subcommand rest =
     (if snapshots_enabled (si_world i) \<and> is_destructive subcommand rest then [Snapshotted] else [])"

definition shim_pass :: "'v shim_input \<Rightarrow> path \<Rightarrow> string \<Rightarrow> string list \<Rightarrow> shim_log list \<times> shim_result" where
  "shim_pass i root subcommand rest =
     (if (subcommand = ''commit'' \<or> subcommand = ''push'') \<and>
         in_scoped_project (si_world i) root (si_home i)
      then
        (case scope_check_outcome (si_child i) (si_decode i) subcommand rest of
           ScPass \<Rightarrow> (shim_snapshot i subcommand rest, ExecReal)
         | ScDeny reason \<Rightarrow> ([LoggedScopeDeny subcommand rest reason], ExitCode 1)
         | ScCrash code msg \<Rightarrow>
             (LoggedScopeError subcommand rest msg # shim_snapshot i subcommand rest, ExecReal)
         | ScUnavailable msg \<Rightarrow> ([LoggedScopeError subcommand rest msg], ExitCode 1))
      else (shim_snapshot i subcommand rest, ExecReal))"

definition shim_classified :: "'v shim_input \<Rightarrow> path \<Rightarrow> string \<Rightarrow> string list \<Rightarrow> shim_log list \<times> shim_result" where
  "shim_classified i root subcommand rest =
     (let w = si_world i;
          d = ge_disposition (classify_with_home w (si_toml i) root subcommand rest (si_home i));
          canonical_recovery = env_is_set w ''AGENTFLARE_GIT_ALLOW_CANONICAL_MUTATE'' \<and>
            \<not> is_linked_worktree w root \<and> (subcommand = ''checkout'' \<or> subcommand = ''switch'');
          (logs, res) =
            (case d of
               Deny r \<Rightarrow> if \<not> canonical_recovery then ([], ExitCode 1) else shim_pass i root subcommand rest
             | RedirectToWorktree p \<Rightarrow> ([], ExitCode 1)
             | ScopeCheckError m \<Rightarrow> ([], ExitCode 1)
             | _ \<Rightarrow> shim_pass i root subcommand rest)
      in (Logged subcommand rest d # logs, res))"

definition shim_main :: "'v shim_input \<Rightarrow> shim_log list \<times> shim_result" where
  "shim_main i =
     (let w = si_world i;
          args = si_args i;
          depth = (case gw_env w ''FLARE_GIT_SHIM_DEPTH'' of
                     None \<Rightarrow> 0 | Some s \<Rightarrow> (case parse_u32 s of None \<Rightarrow> 0 | Some n \<Rightarrow> n));
          agent = agent_invocation_detected w (si_debug_build i) (si_process_is_agent i);
          (sub, escape) = parse_global_flags False args
      in if depth \<ge> max_recursion_depth then ([], ExitCode 1)
         else if si_tool i \<noteq> ''git'' then ([], ExecReal)
         else if \<not> agent then ([], ExecReal)
         else if bypass_active w (si_now i) then ([Logged ''*'' args SilentExempt], ExecReal)
         else if escape then
           (if (case sub of None \<Rightarrow> False | Some (c, rest) \<Rightarrow> escape_hatch_read_only c rest) \<and>
               \<not> list_ex (\<lambda>a. a = ''--output'' \<or> prefix ''--output='' a) args
            then ([], ExecReal) else ([LoggedEscape args], ExitCode 1))
         else
           (case repo_toplevel w (si_cwd i) of
              None \<Rightarrow> ([], ExecReal)
            | Some toplevel \<Rightarrow>
                (case sub of
                   None \<Rightarrow> ([], ExecReal)
                 | Some (subcommand, rest) \<Rightarrow>
                     (let root = path_of_string toplevel
                      in case deny_canonical_detach_reason w agent root (si_home i) subcommand rest of
                           Some r \<Rightarrow> ([LoggedCanonical subcommand rest r], ExitCode 1)
                         | None \<Rightarrow> shim_classified i root subcommand rest))))"

end
