(* ===== verification/Git_Shim_Guard.thy ===== *)
theory Git_Shim_Guard
  imports Git_Shim Git_Guard
begin

text \<open>
  What the git shim guarantees end to end: under which conditions an agent's command reaches the real
  git. A run is \<open>policed\<close> when no early exit of \<open>main\<close> applies to it.
\<close>

section \<open>Policed runs\<close>

definition shim_depth :: "git_world \<Rightarrow> nat" where
  "shim_depth w = (case gw_env w ''FLARE_GIT_SHIM_DEPTH'' of
                     None \<Rightarrow> 0 | Some s \<Rightarrow> (case parse_u32 s of None \<Rightarrow> 0 | Some n \<Rightarrow> n))"

definition policed :: "'v shim_input \<Rightarrow> path \<Rightarrow> string \<Rightarrow> string list \<Rightarrow> bool" where
  "policed i root subcommand rest \<longleftrightarrow>
     si_tool i = ''git'' \<and>
     agent_invocation_detected (si_world i) (si_debug_build i) (si_process_is_agent i) \<and>
     \<not> bypass_active (si_world i) (si_now i) \<and>
     parse_global_flags False (si_args i) = (Some (subcommand, rest), False) \<and>
     map_option path_of_string (repo_toplevel (si_world i) (si_cwd i)) = Some root"

lemma shim_main_policed:
  assumes "policed i root sub rest" "shim_depth (si_world i) < max_recursion_depth"
  shows "shim_main i =
     (case deny_canonical_detach_reason (si_world i) True root (si_home i) sub rest of
        Some r \<Rightarrow> ([LoggedCanonical sub rest r], ExitCode 1)
      | None \<Rightarrow> shim_classified i root sub rest)"
  using assms by (auto simp: policed_def shim_main_def shim_depth_def Let_def split: option.split)


text \<open>The two dispositions the classifier never produces.\<close>

definition two_way :: "disposition \<Rightarrow> bool" where
  "two_way d \<longleftrightarrow> d = Passthrough \<or> is_deny d"

lemma two_way_simps [simp]: "two_way Passthrough" "two_way (Deny r)"
  by (simp_all add: two_way_def)

lemma two_way_parts [simp]:
  "two_way (classify_branch w args d)" "two_way (classify_checkout w args d clean)"
  "two_way (classify_push touch targets d policy)" "two_way (classify_worktree args)"
  by (auto simp: classify_branch_def classify_checkout_def classify_push_def classify_worktree_def Let_def
      split: trust_root_touch.split option.split)

lemma resolved_disposition_cases: "two_way (resolved_disposition w tm root sub args home)"
  by (simp add: resolved_disposition_def Let_def classify_pure_def split: prod.split)

lemma classify_with_home_cases:
  "ge_disposition (classify_with_home w tm root sub args home) = Passthrough \<or>
   is_deny (ge_disposition (classify_with_home w tm root sub args home))"
  using resolved_disposition_cases [of w tm root sub args home]
  by (auto simp: two_way_def classify_with_home_def Let_def)

definition canonical_recovery :: "git_world \<Rightarrow> path \<Rightarrow> string \<Rightarrow> bool" where
  "canonical_recovery w root sub \<longleftrightarrow>
     env_is_set w ''AGENTFLARE_GIT_ALLOW_CANONICAL_MUTATE'' \<and> \<not> is_linked_worktree w root \<and>
     (sub = ''checkout'' \<or> sub = ''switch'')"

lemma is_denyE: "is_deny d \<Longrightarrow> (\<And>r. d = Deny r \<Longrightarrow> P) \<Longrightarrow> P"
  by (cases d) (auto simp: is_deny_def)

lemma shim_classified_result:
  "snd (shim_classified i root sub rest) =
     (if is_deny (ge_disposition (classify_with_home (si_world i) (si_toml i) root sub rest (si_home i))) \<and>
         \<not> canonical_recovery (si_world i) root sub
      then ExitCode 1 else snd (shim_pass i root sub rest))"
  using classify_with_home_cases [of "si_world i" "si_toml i" root sub rest "si_home i"]
  by (auto simp: shim_classified_def Let_def canonical_recovery_def case_prod_unfold elim!: is_denyE)

definition scope_lets_through :: "scope_outcome \<Rightarrow> bool" where
  "scope_lets_through r \<longleftrightarrow> r = ScPass \<or> (\<exists>code msg. r = ScCrash code msg)"

lemma shim_pass_exec:
  "snd (shim_pass i root sub rest) = ExecReal \<longleftrightarrow>
     \<not> ((sub = ''commit'' \<or> sub = ''push'') \<and> in_scoped_project (si_world i) root (si_home i)) \<or>
     scope_lets_through (scope_check_outcome (si_child i) (si_decode i) sub rest)"
  by (auto simp: shim_pass_def scope_lets_through_def split: scope_outcome.split)


text \<open>Forms of a checkout that git detaches HEAD for and the guard takes for harmless.\<close>

lemma detach_not_seen:
  "\<not> would_detach_head w root ''checkout'' [t, ''--'']"
  "\<not> is_option t \<Longrightarrow> run_in_ok w root [''show-ref'', ''--verify'', ''--quiet'', ''refs/heads/'' @ t] \<Longrightarrow>
     \<not> would_detach_head w root ''checkout'' [''-d'', t]"
  by (auto simp: would_detach_head_def first_positional_def is_option_def)

section \<open>Properties\<close>

definition demo_input :: "string list \<Rightarrow> unit shim_input" where
  "demo_input args =
     \<lparr>si_world = demo_world, si_toml = demo_toml,
      si_child = \<lambda>a. ChildExited True (Some 0) ''pass'' [],
      si_decode = \<lambda>s. Inr \<lparr>sj_deny = False, sj_reason = None, sj_error = None\<rparr>,
      si_tool = ''git'', si_args = args, si_cwd = [''r''], si_home = None, si_now = 0,
      si_debug_build = False, si_process_is_agent = False\<rparr>"




text \<open>
  In the canonical checkout of a tracked project the command \<open>git switch -q -c x\<close> of an agent is
  refused, and the same command with its short options combined, \<open>git switch -qc x\<close>, reaches the real
  git, which creates the branch.
\<close>

lemma clustered_switch_reaches_git:
  assumes "policed i root ''switch'' [''-qc'', x]" "policed j root ''switch'' [''-q'', ''-c'', x]"
    and "si_world j = si_world i" "si_home j = si_home i" "shim_depth (si_world i) < max_recursion_depth"
    and "in_scoped_project (si_world i) root (si_home i)" "\<not> is_linked_worktree (si_world i) root"
    and "''switch'' \<notin> set (denied_plumbing (effective_policy (si_world i) (si_toml i) root (si_home i)))"
    and "\<not> is_option x" "\<not> is_protected_branch (si_world i) x (Some (resolve_default_branch (si_world i) root))"
  shows "snd (shim_main i) = ExecReal \<and> snd (shim_main j) = ExitCode 1"
proof
  have opt: "is_option ''-qc''" "is_option ''-q''" "is_option ''-c''" by code_simp+
  have x: "\<not> prefix (CHR ''-'' # s) x" "x \<noteq> CHR ''-'' # s" for s
    using assms(9) by (auto simp: is_option_def prefix_def)
  have "\<not> is_branch_create ''switch'' [''-qc'', x]"
    using x by (simp add: is_branch_create_def branch_create_flags_def)
  moreover have "\<not> would_detach_head (si_world i) root ''switch'' [''-qc'', x]"
    using x x(2) [symmetric] by (simp add: would_detach_head_def)
  ultimately have "deny_canonical_detach_reason (si_world i) True root (si_home i) ''switch'' [''-qc'', x] = None"
    by (simp add: deny_canonical_detach_reason_def)
  moreover have "resolved_disposition (si_world i) (si_toml i) root ''switch'' [''-qc'', x] (si_home i) = Passthrough"
    using assms(8,9,10) opt
    by (simp add: resolved_disposition_def Let_def classify_pure_def classify_checkout_def first_positional_def)
  ultimately show "snd (shim_main i) = ExecReal"
    using assms(1,5)
    by (simp add: shim_main_policed shim_classified_result classify_with_home_deny shim_pass_exec)
  have "is_branch_create ''switch'' [''-q'', ''-c'', x]"
    by (simp add: is_branch_create_def branch_create_flags_def)
  then show "snd (shim_main j) = ExitCode 1"
    using assms by (simp add: shim_main_policed deny_canonical_detach_reason_def)
qed

lemma clustered_switch_reaches_git_example:
  "snd (shim_main (demo_input [''switch'', ''-qc'', ''x''])) = ExecReal \<and>
   snd (shim_main (demo_input [''switch'', ''-q'', ''-c'', ''x''])) = ExitCode 1"
proof -
  have "policed (demo_input [''switch'', ''-qc'', ''x'']) [''r''] ''switch'' [''-qc'', ''x'']"
    "policed (demo_input [''switch'', ''-q'', ''-c'', ''x'']) [''r''] ''switch'' [''-q'', ''-c'', ''x'']"
    "shim_depth demo_world < max_recursion_depth" "\<not> is_linked_worktree demo_world [''r'']"
    "''switch'' \<notin> set (denied_plumbing (effective_policy demo_world demo_toml [''r''] None))"
    "\<not> is_option ''x''" "\<not> is_protected_branch demo_world ''x'' (Some (resolve_default_branch demo_world [''r'']))"
    by code_simp+
  then show ?thesis
    using demo_facts by (intro clustered_switch_reaches_git [where root = "[''r'']" and x = "''x''"]) (auto simp: demo_input_def)
qed

end
