(* ===== verification/Gate_Policy.thy ===== *)
theory Gate_Policy
  imports F64 Str_Ops
begin

text \<open>
  The resource gate's decision: \<^verbatim>\<open>crates/agentflare-resource-gate/src/config.rs\<close>, \<^verbatim>\<open>policy.rs\<close> and the
  deployment mode of \<^verbatim>\<open>signals.rs\<close>. Percentages are \<open>f32\<close> in the source; they are only compared,
  clamped and stored, so they are values of \<open>f64\<close> here. The environment, the parser of decimal
  fractions of the standard library and the sampled CPU usage are arguments.
\<close>

section \<open>Configuration\<close>

datatype gate_mode = GateAuto | GateAlwaysOn | GateOff

record gate_config =
  gc_mode :: gate_mode
  cpu_busy_threshold_pct :: f64
  cpu_severe_pct :: f64

definition default_cpu_busy_pct :: f64 where
  "default_cpu_busy_pct = Fin 80 0"

definition default_cpu_severe_pct :: f64 where
  "default_cpu_severe_pct = Fin 95 0"

text \<open>\<open>f32::clamp\<close>: NaN passes both tests and stays.\<close>

definition f_clamp :: "f64 \<Rightarrow> f64 \<Rightarrow> f64 \<Rightarrow> f64" where
  "f_clamp x lo hi = (let y = (if f_lt x lo then lo else x) in if f_lt hi y then hi else y)"

definition normalized :: "gate_config \<Rightarrow> gate_config" where
  "normalized cfg =
     (let busy = f_clamp (cpu_busy_threshold_pct cfg) (Fin 0 0) (Fin 100 0);
          severe = f_clamp (cpu_severe_pct cfg) (Fin 0 0) (Fin 100 0)
      in if f_le severe busy
         then cfg\<lparr>cpu_busy_threshold_pct := default_cpu_busy_pct, cpu_severe_pct := default_cpu_severe_pct\<rparr>
         else cfg\<lparr>cpu_busy_threshold_pct := busy, cpu_severe_pct := severe\<rparr>)"

definition parse_mode :: "string option \<Rightarrow> gate_mode" where
  "parse_mode raw =
     (case map_option to_lowercase raw of
        None \<Rightarrow> GateAuto
      | Some s \<Rightarrow>
          if s = ''always_on'' \<or> s = ''always-on'' \<or> s = ''on'' then GateAlwaysOn
          else if s = ''off'' then GateOff
          else GateAuto)"

definition parse_f32_env :: "(string \<Rightarrow> string option) \<Rightarrow> (string \<Rightarrow> f64 option) \<Rightarrow> string \<Rightarrow> f64 \<Rightarrow> f64" where
  "parse_f32_env env parse name dflt =
     (case env name of
        None \<Rightarrow> dflt
      | Some v \<Rightarrow> (case parse v of None \<Rightarrow> dflt | Some x \<Rightarrow> x))"

definition gate_config_from_env :: "(string \<Rightarrow> string option) \<Rightarrow> (string \<Rightarrow> f64 option) \<Rightarrow> gate_config" where
  "gate_config_from_env env parse =
     normalized
       \<lparr>gc_mode = parse_mode (env ''AGENTFLARE_DISPATCH_GATE_MODE''),
        cpu_busy_threshold_pct =
          parse_f32_env env parse ''AGENTFLARE_DISPATCH_GATE_CPU_BUSY_PCT'' default_cpu_busy_pct,
        cpu_severe_pct =
          parse_f32_env env parse ''AGENTFLARE_DISPATCH_GATE_CPU_SEVERE_PCT'' default_cpu_severe_pct\<rparr>"

section \<open>Signals\<close>

record signals =
  cpu_usage_pct :: f64
  server_mode :: bool

text \<open>The last resort looks for a display server, on Linux only.\<close>

definition detect_server_mode :: "(string \<Rightarrow> string option) \<Rightarrow> (string \<Rightarrow> bool) \<Rightarrow> bool \<Rightarrow> bool" where
  "detect_server_mode env path_exists linux =
     (let deployment = map_option to_lowercase (env ''AGENTFLARE_DEPLOYMENT'')
      in if deployment = Some ''server'' then True
         else if deployment = Some ''desktop'' \<or> deployment = Some ''laptop'' then False
         else if env ''KUBERNETES_SERVICE_HOST'' \<noteq> None then True
         else if path_exists ''/.dockerenv'' then True
         else linux \<and> env ''DISPLAY'' = None \<and> env ''WAYLAND_DISPLAY'' = None)"

section \<open>The decision\<close>

datatype gate_pause_reason = UserDisabled | CpuPressure

datatype gate_policy = Aggressive | Normal | Throttled | PausedFor gate_pause_reason

definition pause_reason_as_str :: "gate_pause_reason \<Rightarrow> string" where
  "pause_reason_as_str r = (case r of UserDisabled \<Rightarrow> ''user_disabled'' | CpuPressure \<Rightarrow> ''cpu_pressure'')"

definition policy_as_str :: "gate_policy \<Rightarrow> string" where
  "policy_as_str p =
     (case p of Aggressive \<Rightarrow> ''aggressive'' | Normal \<Rightarrow> ''normal'' | Throttled \<Rightarrow> ''throttled''
      | PausedFor _ \<Rightarrow> ''paused'')"

definition policy_pause_reason :: "gate_policy \<Rightarrow> gate_pause_reason option" where
  "policy_pause_reason p = (case p of PausedFor r \<Rightarrow> Some r | _ \<Rightarrow> None)"

definition blocks_dispatch :: "gate_policy \<Rightarrow> bool" where
  "blocks_dispatch p = (case p of Throttled \<Rightarrow> True | PausedFor _ \<Rightarrow> True | _ \<Rightarrow> False)"

definition gate_decide :: "signals \<Rightarrow> gate_config \<Rightarrow> gate_policy" where
  "gate_decide s cfg =
     (case gc_mode cfg of
        GateOff \<Rightarrow> PausedFor UserDisabled
      | GateAlwaysOn \<Rightarrow> Aggressive
      | GateAuto \<Rightarrow>
          if server_mode s then Aggressive
          else
            (let c = normalized cfg
             in if f_le (cpu_severe_pct c) (cpu_usage_pct s) then PausedFor CpuPressure
                else if f_le (cpu_usage_pct s) (cpu_busy_threshold_pct c) then Normal
                else Throttled))"

section \<open>Order of the percentages\<close>

text \<open>Aligning further down scales both sides alike.\<close>

lemma align_down:
  assumes "e0 \<le> e" "k \<le> e0"
  shows "align m e k = align m e e0 * 2 ^ nat (e0 - k)"
proof -
  have "nat (e - k) = nat (e - e0) + nat (e0 - k)" using assms by simp
  then show ?thesis by (simp add: align_def power_add)
qed

lemma fin_le_at:
  assumes "k \<le> e" "k \<le> d"
  shows "f_le (Fin m e) (Fin n d) \<longleftrightarrow> align m e k \<le> align n d k"
  using assms align_down [of "min e d" e k m] align_down [of "min e d" d k n] by simp

lemma f_le_trans:
  assumes "f_le x y" "f_le y z"
  shows "f_le x z"
proof (cases "\<exists>m e n d p q. x = Fin m e \<and> y = Fin n d \<and> z = Fin p q")
  case True
  then obtain m e n d p q where x: "x = Fin m e" "y = Fin n d" "z = Fin p q" by blast
  define k where "k = min e (min d q)"
  then have "k \<le> e" "k \<le> d" "k \<le> q" by auto
  with assms show ?thesis unfolding x by (simp add: fin_le_at [of k] del: f_le.simps)
next
  case False
  with assms show ?thesis by (cases x; cases y; cases z) auto
qed

lemma f_le_total: "x \<noteq> NaN \<Longrightarrow> y \<noteq> NaN \<Longrightarrow> f_le x y \<or> f_le y x"
  by (cases x; cases y) (auto simp: min.commute)

lemma f_le_refl [simp]: "f_le x x \<longleftrightarrow> x \<noteq> NaN"
  by (cases x) auto

lemma f_le_not_NaN: "f_le x y \<Longrightarrow> x \<noteq> NaN \<and> y \<noteq> NaN"
  by (cases x; cases y) auto

lemma f_le_NaN [simp]: "\<not> f_le NaN y" "\<not> f_le x NaN"
  by (cases x; simp)+

lemma f_clamp_NaN [simp]: "f_clamp NaN lo hi = NaN"
  by (simp add: f_clamp_def f_lt_def)

lemma f_clamp_between:
  assumes "x \<noteq> NaN" "f_le lo hi"
  shows "f_le lo (f_clamp x lo hi)" "f_le (f_clamp x lo hi) hi"
  using assms f_le_total [of x lo] f_le_total [of x hi] f_le_not_NaN [OF assms(2)]
  by (auto simp: f_clamp_def f_lt_def Let_def)


lemma f_clamp_id: "f_le lo x \<Longrightarrow> f_le x hi \<Longrightarrow> f_clamp x lo hi = x"
  by (simp add: f_clamp_def f_lt_def)

section \<open>Normalised thresholds\<close>

definition percent :: "f64 \<Rightarrow> bool" where
  "percent x \<longleftrightarrow> f_le (Fin 0 0) x \<and> f_le x (Fin 100 0)"

lemma percent_not_NaN: "percent x \<Longrightarrow> x \<noteq> NaN"
  by (auto simp: percent_def)

lemma percent_clamp: "x \<noteq> NaN \<Longrightarrow> percent (f_clamp x (Fin 0 0) (Fin 100 0))"
  using f_clamp_between [of x "Fin 0 0" "Fin 100 0"] by (simp add: percent_def align_def)

lemma percent_defaults [simp]: "percent default_cpu_busy_pct" "percent default_cpu_severe_pct"
  "f_lt default_cpu_busy_pct default_cpu_severe_pct"
  by (simp_all add: percent_def default_cpu_busy_pct_def default_cpu_severe_pct_def f_lt_def align_def)

definition usable :: "gate_config \<Rightarrow> bool" where
  "usable cfg \<longleftrightarrow>
     percent (cpu_busy_threshold_pct cfg) \<and> percent (cpu_severe_pct cfg) \<and>
     f_lt (cpu_busy_threshold_pct cfg) (cpu_severe_pct cfg)"

lemma normalized_usable:
  assumes "cpu_busy_threshold_pct cfg \<noteq> NaN" "cpu_severe_pct cfg \<noteq> NaN"
  shows "usable (normalized cfg)"
  using percent_clamp [OF assms(1)] percent_clamp [OF assms(2)]
    f_le_total [OF percent_not_NaN percent_not_NaN]
  by (auto simp: usable_def normalized_def Let_def f_lt_def [of "f_clamp _ _ _"])

lemma normalized_id: "usable cfg \<Longrightarrow> normalized cfg = cfg"
  by (simp add: usable_def percent_def normalized_def f_clamp_id f_lt_def)

lemma gc_mode_normalized [simp]: "gc_mode (normalized cfg) = gc_mode cfg"
  by (simp add: normalized_def Let_def)

end
