(* ===== verification/Gate_State.thy ===== *)
theory Gate_State
  imports Gate_Policy
begin

text \<open>
  The resource gate at run time: the process-wide state of
  \<^verbatim>\<open>crates/agentflare-resource-gate/src/gate.rs\<close> (the sampled policy, the forced resume, the sampler
  thread) and the sizing of the worker pool of \<^verbatim>\<open>pool_size.rs\<close> on Linux. A sampler tick and a
  change of the forced resume run under the writer lock and are one event each; the initialisation
  takes no lock, so its sample and its store are two events, with others in between.
\<close>

section \<open>The process-wide gate\<close>

definition sample_policy :: "bool \<Rightarrow> gate_config \<Rightarrow> signals \<Rightarrow> gate_policy" where
  "sample_policy resume cfg s =
     gate_decide s (if resume \<and> gc_mode cfg = GateOff then cfg\<lparr>gc_mode := GateAuto\<rparr> else cfg)"

text \<open>The configuration of the sampler is the one read by the initialisation that won.\<close>

record rgate =
  rg_policy :: "gate_policy option"
  rg_resume :: bool
  rg_cfg :: gate_config
  rg_starting :: "(gate_config \<times> gate_policy) list"

definition rgate_new :: rgate where
  "rgate_new =
     \<lparr>rg_policy = None, rg_resume = False,
      rg_cfg = \<lparr>gc_mode = GateAuto, cpu_busy_threshold_pct = default_cpu_busy_pct,
                cpu_severe_pct = default_cpu_severe_pct\<rparr>,
      rg_starting = []\<rparr>"

definition init_sample :: "gate_config \<Rightarrow> signals \<Rightarrow> rgate \<Rightarrow> rgate" where
  "init_sample cfg s g =
     (if rg_policy g \<noteq> None then g
      else g\<lparr>rg_starting := rg_starting g @ [(cfg, sample_policy (rg_resume g) cfg s)]\<rparr>)"

definition init_store :: "nat \<Rightarrow> rgate \<Rightarrow> rgate" where
  "init_store k g =
     (if k < length (rg_starting g) \<and> rg_policy g = None then
        g\<lparr>rg_policy := Some (snd (rg_starting g ! k)), rg_cfg := fst (rg_starting g ! k)\<rparr>
      else g)"

definition sampler_tick :: "signals \<Rightarrow> rgate \<Rightarrow> rgate" where
  "sampler_tick s g =
     (if rg_policy g = None then g
      else g\<lparr>rg_policy := Some (sample_policy (rg_resume g) (rg_cfg g) s)\<rparr>)"

definition set_force_resume :: "bool \<Rightarrow> gate_config \<Rightarrow> signals \<Rightarrow> rgate \<Rightarrow> rgate" where
  "set_force_resume active cfg s g =
     (let g' = g\<lparr>rg_resume := active\<rparr>
      in if rg_policy g = None then g' else g'\<lparr>rg_policy := Some (sample_policy active cfg s)\<rparr>)"

definition current_policy :: "rgate \<Rightarrow> gate_policy" where
  "current_policy g = (case rg_policy g of None \<Rightarrow> Normal | Some p \<Rightarrow> p)"

text \<open>The events; the configurations are those the environment gives at that moment.\<close>

datatype rg_event =
    InitSample gate_config signals
  | InitStore nat
  | SamplerTick signals
  | SetForceResume bool gate_config signals

definition rg_step :: "rg_event \<Rightarrow> rgate \<Rightarrow> rgate" where
  "rg_step e g =
     (case e of
        InitSample cfg s \<Rightarrow> init_sample cfg s g
      | InitStore k \<Rightarrow> init_store k g
      | SamplerTick s \<Rightarrow> sampler_tick s g
      | SetForceResume active cfg s \<Rightarrow> set_force_resume active cfg s g)"

definition rg_run :: "rg_event list \<Rightarrow> rgate \<Rightarrow> rgate" where
  "rg_run es g = fold rg_step es g"

section \<open>The size of the worker pool\<close>

definition per_worker_bytes :: nat where
  "per_worker_bytes = 512 * 1024 * 1024"

text \<open>\<open>0.7\<close> as a binary64 number.\<close>

definition memory_budget_fraction :: f64 where
  "memory_budget_fraction = Fin 6305039478318694 (- 53)"

definition max_cpu_workers :: nat where
  "max_cpu_workers = 6"

definition resolve_pool_size :: "nat \<Rightarrow> nat \<Rightarrow> nat" where
  "resolve_pool_size available_parallelism memory_budget_bytes =
     (let cpu_term = min (max (available_parallelism - 1) 1) max_cpu_workers;
          spendable = floor_u64 (f_mul (f_of_nat memory_budget_bytes) memory_budget_fraction);
          mem_term = max (spendable div per_worker_bytes) 1
      in min cpu_term mem_term)"

section \<open>Available memory\<close>

type_synonym proc_files = "string \<Rightarrow> string option"

definition parse_cgroup_bytes :: "string \<Rightarrow> nat option" where
  "parse_cgroup_bytes raw = (if trim raw = ''max'' then None else parse_u64 (trim raw))"

definition read_cgroup_bytes :: "proc_files \<Rightarrow> string \<Rightarrow> nat option" where
  "read_cgroup_bytes fs path = (case fs path of None \<Rightarrow> None | Some s \<Rightarrow> parse_cgroup_bytes s)"

definition or_zero :: "nat option \<Rightarrow> nat" where
  "or_zero x = (case x of None \<Rightarrow> 0 | Some n \<Rightarrow> n)"

definition parse_inactive_file :: "string \<Rightarrow> nat" where
  "parse_inactive_file stat =
     (case find (\<lambda>r. r \<noteq> None) (map (strip_prefix ''inactive_file '') (text_lines stat)) of
        Some (Some n) \<Rightarrow> or_zero (parse_u64 (trim n))
      | _ \<Rightarrow> 0)"

definition read_inactive_file :: "proc_files \<Rightarrow> string \<Rightarrow> nat" where
  "read_inactive_file fs path = (case fs path of None \<Rightarrow> 0 | Some s \<Rightarrow> parse_inactive_file s)"

definition cgroup_memory_available :: "proc_files \<Rightarrow> nat option" where
  "cgroup_memory_available fs =
     (case read_cgroup_bytes fs ''/sys/fs/cgroup/memory.max'' of
        Some mx \<Rightarrow>
          (let current = or_zero (read_cgroup_bytes fs ''/sys/fs/cgroup/memory.current'');
               reclaimable = read_inactive_file fs ''/sys/fs/cgroup/memory.stat''
           in Some (mx - (current - reclaimable)))
      | None \<Rightarrow>
          (case read_cgroup_bytes fs ''/sys/fs/cgroup/memory/memory.limit_in_bytes'' of
             None \<Rightarrow> None
           | Some lim \<Rightarrow>
               if lim < 2 ^ 60 then
                 (let usage = or_zero (read_cgroup_bytes fs ''/sys/fs/cgroup/memory/memory.usage_in_bytes'');
                      reclaimable = read_inactive_file fs ''/sys/fs/cgroup/memory/memory.stat''
                  in Some (lim - (usage - reclaimable)))
               else None))"

text \<open>The multiplication by 1024 wraps, as in a release build.\<close>

definition parse_mem_available :: "string \<Rightarrow> nat option" where
  "parse_mem_available meminfo =
     (case find (starts_with ''MemAvailable:'') (text_lines meminfo) of
        None \<Rightarrow> None
      | Some l \<Rightarrow>
          (case split_whitespace l of
             _ # kb # _ \<Rightarrow>
               (case parse_u64 kb of None \<Rightarrow> None | Some n \<Rightarrow> Some (n * 1024 mod (u64_max + 1)))
           | _ \<Rightarrow> None))"

definition memory_budget_bytes :: "proc_files \<Rightarrow> nat" where
  "memory_budget_bytes fs =
     (let free = or_zero (case fs ''/proc/meminfo'' of None \<Rightarrow> None | Some s \<Rightarrow> parse_mem_available s)
      in case cgroup_memory_available fs of None \<Rightarrow> free | Some cg \<Rightarrow> min free cg)"

section \<open>The tiers\<close>

definition tier_rank :: "gate_policy \<Rightarrow> nat" where
  "tier_rank p = (case p of Aggressive \<Rightarrow> 0 | Normal \<Rightarrow> 1 | Throttled \<Rightarrow> 2 | PausedFor _ \<Rightarrow> 3)"

lemma decide_usable:
  assumes "usable (normalized cfg)" "gc_mode cfg = GateAuto" "\<not> server_mode s"
  shows "gate_decide s cfg =
    (if f_le (cpu_severe_pct (normalized cfg)) (cpu_usage_pct s) then PausedFor CpuPressure
     else if f_le (cpu_usage_pct s) (cpu_busy_threshold_pct (normalized cfg)) then Normal
     else Throttled)"
  using assms by (simp add: gate_decide_def Let_def)

text \<open>Where the mode is automatic and the machine is no server, the sampled percentage decides.\<close>

definition cpu_tier :: "gate_config \<Rightarrow> f64 \<Rightarrow> gate_policy" where
  "cpu_tier cfg x = gate_decide \<lparr>cpu_usage_pct = x, server_mode = False\<rparr> cfg"

text \<open>
  Whatever numbers the two thresholds are, no tier is lost: an idle machine is \<open>Normal\<close>, a
  saturated one is paused, and a higher CPU usage never gives a more permissive tier.
\<close>

lemma cpu_tiers_ordered:
  assumes "gc_mode cfg = GateAuto" "cpu_busy_threshold_pct cfg \<noteq> NaN" "cpu_severe_pct cfg \<noteq> NaN"
    and "f_le x y"
  shows "cpu_tier cfg (Fin 0 0) = Normal \<and> cpu_tier cfg (Fin 100 0) = PausedFor CpuPressure \<and>
         tier_rank (cpu_tier cfg x) \<le> tier_rank (cpu_tier cfg y)"
proof -
  have u: "usable (normalized cfg)" using assms(2,3) by (rule normalized_usable)
  let ?b = "cpu_busy_threshold_pct (normalized cfg)" and ?s = "cpu_severe_pct (normalized cfg)"
  have p: "f_le (Fin 0 0) ?b" "f_le ?s (Fin 100 0)" "f_le ?b ?s" "\<not> f_le ?s ?b"
    using u by (auto simp: usable_def percent_def f_lt_def)
  have s0: "\<not> f_le ?s (Fin 0 0)" using p(1,4) f_le_trans by blast
  have t: "cpu_tier cfg z = (if f_le ?s z then PausedFor CpuPressure else if f_le z ?b then Normal else Throttled)"
    for z unfolding cpu_tier_def by (subst decide_usable) (simp_all add: u assms(1))
  have "f_le ?s x \<Longrightarrow> f_le ?s y" "f_le y ?b \<Longrightarrow> f_le x ?b" using assms(4) f_le_trans by blast+
  then have "tier_rank (cpu_tier cfg x) \<le> tier_rank (cpu_tier cfg y)" by (simp add: t tier_rank_def)
  with p(1,2) s0 show ?thesis by (simp add: t)
qed

lemma cpu_tiers_ordered_example:
  "tier_rank (cpu_tier \<lparr>gc_mode = GateAuto, cpu_busy_threshold_pct = Fin 95 0, cpu_severe_pct = Fin 60 0\<rparr> (Fin 10 0)) \<le>
   tier_rank (cpu_tier \<lparr>gc_mode = GateAuto, cpu_busy_threshold_pct = Fin 95 0, cpu_severe_pct = Fin 60 0\<rparr> (Fin 85 0))"
  using cpu_tiers_ordered [of "\<lparr>gc_mode = GateAuto, cpu_busy_threshold_pct = Fin 95 0, cpu_severe_pct = Fin 60 0\<rparr>"
      "Fin 10 0" "Fin 85 0"]
  by (simp add: align_def)

text \<open>
  A threshold that is not a number survives the normalisation, and then the gate blocks
  dispatch in the automatic mode whatever the CPU usage is.
\<close>

lemma nan_threshold_blocks:
  assumes "gc_mode cfg = GateAuto" "cpu_busy_threshold_pct cfg = NaN" "\<not> server_mode s"
  shows "blocks_dispatch (gate_decide s cfg)"
  using assms
  by (auto simp: gate_decide_def normalized_def Let_def blocks_dispatch_def)

lemma nan_threshold_blocks_example:
  "blocks_dispatch (gate_decide \<lparr>cpu_usage_pct = Fin 1 0, server_mode = False\<rparr>
     (gate_config_from_env
        (\<lambda>n. if n = ''AGENTFLARE_DISPATCH_GATE_CPU_BUSY_PCT'' then Some ''nan'' else None)
        (\<lambda>v. if v = ''nan'' then Some NaN else None)))"
  by (rule nan_threshold_blocks)
    (simp_all add: gate_config_from_env_def parse_mode_def parse_f32_env_def normalized_def Let_def)


section \<open>The forced resume\<close>

lemma sample_policy_resumed: "sample_policy True cfg s \<noteq> PausedFor UserDisabled"
  by (auto simp: sample_policy_def gate_decide_def Let_def split: gate_mode.split)

text \<open>An initialised gate whose resume is forced.\<close>

definition resumed :: "rgate \<Rightarrow> bool" where
  "resumed g \<longleftrightarrow> rg_resume g \<and> rg_policy g \<noteq> None \<and> rg_policy g \<noteq> Some (PausedFor UserDisabled)"

definition clears_resume :: "rg_event \<Rightarrow> bool" where
  "clears_resume e = (case e of SetForceResume active _ _ \<Rightarrow> \<not> active | _ \<Rightarrow> False)"

lemma rg_step_resumed: "resumed g \<Longrightarrow> \<not> clears_resume e \<Longrightarrow> resumed (rg_step e g)"
  using sample_policy_resumed
  by (auto simp: resumed_def clears_resume_def rg_step_def init_sample_def init_store_def sampler_tick_def
      set_force_resume_def Let_def split: rg_event.splits)

lemma rg_run_resumed: "resumed g \<Longrightarrow> list_all (\<lambda>e. \<not> clears_resume e) es \<Longrightarrow> resumed (rg_run es g)"
  unfolding rg_run_def by (induction es arbitrary: g) (simp_all add: rg_step_resumed)

text \<open>
  After a forced resume of an initialised gate, and until the resume is cleared, the gate is never
  paused because the user disabled it, whatever configuration a tick, an initialisation or another
  resume reads.
\<close>

lemma forced_resume_holds:
  assumes "rg_policy g \<noteq> None" "list_all (\<lambda>e. \<not> clears_resume e) es"
  shows "current_policy (rg_run es (rg_step (SetForceResume True cfg s) g)) \<noteq> PausedFor UserDisabled"
proof -
  have "resumed (rg_step (SetForceResume True cfg s) g)"
    using assms(1) sample_policy_resumed by (auto simp: resumed_def rg_step_def set_force_resume_def Let_def)
  then have "resumed (rg_run es (rg_step (SetForceResume True cfg s) g))"
    using assms(2) by (rule rg_run_resumed)
  then show ?thesis by (auto simp: resumed_def current_policy_def)
qed

definition off_config :: gate_config where
  "off_config = \<lparr>gc_mode = GateOff, cpu_busy_threshold_pct = default_cpu_busy_pct,
                 cpu_severe_pct = default_cpu_severe_pct\<rparr>"

definition idle :: signals where
  "idle = \<lparr>cpu_usage_pct = Fin 1 0, server_mode = False\<rparr>"

lemma forced_resume_holds_example:
  "current_policy (rg_run [SamplerTick idle, SamplerTick idle]
     (rg_step (SetForceResume True off_config idle)
       (rg_run [InitSample off_config idle, InitStore 0] rgate_new))) \<noteq> PausedFor UserDisabled"
  by (rule forced_resume_holds)
    (simp_all add: clears_resume_def rg_run_def rg_step_def init_sample_def init_store_def rgate_new_def)

text \<open>
  A resume forced while the gate is being initialised is lost: the sample taken before it is
  stored after it, and dispatch stays paused, with the resume reported as active, until the next tick.
\<close>

lemma resume_during_init_is_lost:
  assumes "gc_mode cfg = GateOff"
  shows "let g = rg_run [InitSample cfg s, SetForceResume True cfg' s', InitStore 0] rgate_new
         in rg_resume g \<and> current_policy g = PausedFor UserDisabled \<and>
            current_policy (rg_step (SamplerTick s) g) \<noteq> PausedFor UserDisabled"
  using assms sample_policy_resumed
  by (simp add: rg_run_def rg_step_def init_sample_def init_store_def set_force_resume_def sampler_tick_def
      rgate_new_def current_policy_def sample_policy_def [of False] gate_decide_def [of s cfg] Let_def)

lemma resume_during_init_is_lost_example:
  "current_policy (rg_run [InitSample off_config idle, SetForceResume True off_config idle, InitStore 0] rgate_new) =
     PausedFor UserDisabled"
  using resume_during_init_is_lost [of off_config idle off_config idle] by (simp add: off_config_def Let_def)

section \<open>Bounds of the pool\<close>

lemma rne_div_upper: "2 * (rne_div m k * 2 ^ k) \<le> 2 * m + 2 ^ k"
proof -
  define p t r where "p = (2::int) ^ k" and "t = m div 2 ^ k * 2 ^ k" and "r = m mod 2 ^ k"
  have d: "m = t + r" "0 \<le> r" "0 < p" using div_mult_mod_eq [of m "2 ^ k"] by (simp_all add: p_def t_def r_def)
  consider "rne_div m k * 2 ^ k = t" | "rne_div m k * 2 ^ k = t + p" "p \<le> 2 * r"
    unfolding rne_div_def Let_def p_def t_def r_def
    by (cases "2 * (m mod 2 ^ k) < 2 ^ k"; cases "2 * (m mod 2 ^ k) > 2 ^ k"; cases "even (m div 2 ^ k)")
      (simp_all add: distrib_right)
  then show ?thesis unfolding p_def [symmetric] using d by cases simp_all
qed

lemma budget_product:
  assumes "b < 2 ^ 33" "k \<le> 33" "q * 2 ^ (53 - k) \<le> m'" "2 * (m' * 2 ^ k) \<le> 2 * (int b * 6305039478318694) + 2 ^ k"
  shows "10 * q \<le> 7 * int b"
proof -
  have "q * 2 ^ 53 = q * 2 ^ (53 - k) * 2 ^ k" using assms(2) by (simp flip: power_add add: mult.assoc)
  also have "\<dots> \<le> m' * 2 ^ k" using assms(3) by (rule mult_right_mono) simp
  finally have "2 * (q * 2 ^ 53) \<le> 2 * (int b * 6305039478318694) + 2 ^ k" using assms(4) by linarith
  moreover have "(2::int) ^ k \<le> 2 ^ 33" using assms(2) by (intro power_increasing) simp_all
  ultimately have "20 * (q * 9007199254740992) \<le> 20 * (int b * 6305039478318694) + 10 * 8589934592" by simp
  then show ?thesis by linarith
qed

lemma div_pow_le: "m div 2 ^ k * 2 ^ k \<le> (m :: int)"
  by (simp flip: minus_mod_eq_div_mult)

lemma clamp_budget: "10 * i \<le> 7 * int b \<Longrightarrow> 10 * clamp_u64 i \<le> 7 * b"
  unfolding clamp_u64_def min_def by (auto split: if_splits)

lemma spendable_bound:
  assumes "b < 2 ^ 33"
  shows "10 * floor_u64 (f_mul (f_of_nat b) memory_budget_fraction) \<le> 7 * b"
proof -
  define m where "m = int b * 6305039478318694"
  define k where "k = max (int (bitlen (nat \<bar>m\<bar>)) - 53) (- 1074 - (- 53))"
  have m: "0 \<le> m" "nat m < 2 ^ 86" using assms by (simp_all add: m_def nat_mult_distrib)
  have "bitlen (nat m) \<le> 86" using m(2) by (rule bitlen_le)
  then have k: "k \<le> 33" using m(1) by (simp add: k_def)
  have f: "f_mul (f_of_nat b) memory_budget_fraction = round64 m (- 53)"
    using assms by (simp add: f_of_nat_exact memory_budget_fraction_def m_def)
  show ?thesis
  proof (cases "k \<le> 0")
    case True
    then have "round64 m (- 53) = Fin m (- 53)"
      unfolding round64_def Let_def k_def [symmetric] using \<open>bitlen (nat m) \<le> 86\<close> m(1) by simp
    moreover have "10 * (m div 2 ^ 53) \<le> 7 * int b"
      using div_mult_mod_eq [of m "2 ^ 53"] assms by (intro budget_product [of b 0 _ m]) (simp_all add: m_def)
    ultimately show ?thesis unfolding f by (simp add: floor_int_def clamp_budget)
  next
    case False
    define m' where "m' = rne_div m (nat k)"
    have u: "2 * (m' * 2 ^ nat k) \<le> 2 * m + 2 ^ nat k" unfolding m'_def by (rule rne_div_upper)
    have pos: "0 \<le> m'" using m(1) by (simp add: m'_def rne_div_def Let_def pos_imp_zdiv_nonneg_iff)
    have "m' \<le> m' * 2 ^ nat k" using pos by (simp add: mult_le_cancel_left1)
    moreover have "(2::int) ^ nat k \<le> 2 ^ 33" using k by (intro power_increasing) simp_all
    ultimately have "nat m' < 2 ^ 87" using u m pos by (simp add: nat_less_iff)
    then have "bitlen (nat m') \<le> 87" by (rule bitlen_le)
    then have "round64 m (- 53) = Fin m' (k - 53)"
      unfolding round64_def Let_def k_def [symmetric] m'_def [symmetric] using False k pos by simp
    moreover have "10 * floor_int m' (k - 53) \<le> 7 * int b"
    proof (rule budget_product)
      show "floor_int m' (k - 53) * 2 ^ (53 - nat k) \<le> m'"
        using k False by (simp add: floor_int_def nat_diff_distrib div_pow_le)
    qed (use assms k u in \<open>simp_all add: m_def\<close>)
    ultimately show ?thesis unfolding f by (simp add: clamp_budget)
  qed
qed

text \<open>
  The pool always has between one and six workers, and with more than one worker their
  footprints fit into seven tenths of the measured memory.
\<close>

lemma pool_size_bounds:
  "resolve_pool_size cpus b \<in> {1..6} \<and>
   (resolve_pool_size cpus b = 1 \<or> 10 * (resolve_pool_size cpus b * per_worker_bytes) \<le> 7 * b)"
proof
  let ?n = "resolve_pool_size cpus b"
  show range: "?n \<in> {1..6}" by (simp add: resolve_pool_size_def Let_def max_cpu_workers_def)
  show "?n = 1 \<or> 10 * (?n * per_worker_bytes) \<le> 7 * b"
  proof (cases "b < 2 ^ 33")
    case False
    moreover have "?n * per_worker_bytes \<le> 6 * per_worker_bytes" using range by simp
    ultimately show ?thesis by (simp add: per_worker_bytes_def)
  next
    case True
    let ?s = "floor_u64 (f_mul (f_of_nat b) memory_budget_fraction)"
    have "?n \<le> max (?s div per_worker_bytes) 1" by (simp add: resolve_pool_size_def Let_def)
    moreover have "?s div per_worker_bytes * per_worker_bytes \<le> ?s" by simp
    ultimately have "?n = 1 \<or> ?n * per_worker_bytes \<le> ?s"
      using range by (auto simp: max_def split: if_splits intro: order_trans [OF mult_le_mono1])
    then show ?thesis using spendable_bound [OF True] by linarith
  qed
qed

end
