(* ===== verification/Circuit.thy ===== *)
theory Circuit
  imports Prelude
begin

text \<open>
  The circuit breaker of the gateway's downstream backends:
  \<^verbatim>\<open>crates/gateway-registry/src/circuit.rs\<close>. Every operation runs under the breaker's mutex and is
  one step; instants and durations are numbers of the same unit. The failure counter is a \<open>u32\<close>
  that wraps, as in a release build.
\<close>

section \<open>The breaker\<close>

record circuit =
  consecutive_failures :: nat
  opened_until :: "nat option"
  failure_threshold :: nat
  recovery_timeout :: nat

definition circuit_new :: "nat \<Rightarrow> nat \<Rightarrow> circuit" where
  "circuit_new threshold timeout =
     \<lparr>consecutive_failures = 0, opened_until = None, failure_threshold = threshold,
      recovery_timeout = timeout\<rparr>"

text \<open>The error carries the number of failures and the time that remains.\<close>

definition circuit_check :: "nat \<Rightarrow> circuit \<Rightarrow> (nat \<times> nat) + unit" where
  "circuit_check now c =
     (case opened_until c of
        Some until \<Rightarrow> if now < until then Inl (consecutive_failures c, until - now) else Inr ()
      | None \<Rightarrow> Inr ())"

definition circuit_success :: "circuit \<Rightarrow> circuit" where
  "circuit_success c = c\<lparr>consecutive_failures := 0, opened_until := None\<rparr>"

definition circuit_failure :: "nat \<Rightarrow> circuit \<Rightarrow> circuit" where
  "circuit_failure now c =
     (let c' = c\<lparr>consecutive_failures := (consecutive_failures c + 1) mod (u32_max + 1)\<rparr>
      in if consecutive_failures c' \<ge> failure_threshold c
         then c'\<lparr>opened_until := Some (now + recovery_timeout c)\<rparr> else c')"

text \<open>The outcomes reported to the breaker, oldest first; a check leaves it unchanged.\<close>

datatype call_outcome = CallSucceeded | CallFailed nat

definition circuit_step :: "call_outcome \<Rightarrow> circuit \<Rightarrow> circuit" where
  "circuit_step e c = (case e of CallSucceeded \<Rightarrow> circuit_success c | CallFailed now \<Rightarrow> circuit_failure now c)"

definition circuit_after :: "nat \<Rightarrow> nat \<Rightarrow> call_outcome list \<Rightarrow> circuit" where
  "circuit_after threshold timeout es = fold circuit_step es (circuit_new threshold timeout)"

section \<open>What the breaker promises\<close>

text \<open>The times of the failures since the last success, latest first.\<close>

fun failure_time :: "call_outcome \<Rightarrow> nat" where
  "failure_time (CallFailed t) = t"
| "failure_time CallSucceeded = 0"

definition streak :: "call_outcome list \<Rightarrow> nat list" where
  "streak es = map failure_time (takeWhile (\<lambda>e. e \<noteq> CallSucceeded) (rev es))"

lemma streak_snoc [simp]:
  "streak [] = []" "streak (es @ [CallSucceeded]) = []" "streak (es @ [CallFailed t]) = t # streak es"
  by (simp_all add: streak_def)

lemma streak_length: "length (streak es) \<le> length es"
  using length_takeWhile_le [of "\<lambda>e. e \<noteq> CallSucceeded" "rev es"] by (simp add: streak_def)

lemma circuit_after_snoc [simp]:
  "circuit_after n d [] = circuit_new n d"
  "circuit_after n d (es @ [e]) = circuit_step e (circuit_after n d es)"
  by (simp_all add: circuit_after_def)

lemma circuit_after_state:
  assumes "length es \<le> u32_max"
  shows "circuit_after n d es =
    \<lparr>consecutive_failures = length (streak es),
     opened_until = (if streak es \<noteq> [] \<and> n \<le> length (streak es) then Some (hd (streak es) + d) else None),
     failure_threshold = n, recovery_timeout = d\<rparr>"
  using assms
proof (induction es rule: rev_induct)
  case Nil
  then show ?case by (simp add: circuit_new_def)
next
  case (snoc e es)
  then have "length (streak es) < u32_max" using streak_length [of es] by simp
  with snoc show ?case
    by (cases e) (auto simp: circuit_step_def circuit_success_def circuit_failure_def Let_def)
qed

text \<open>
  After any outcomes the breaker refuses a call exactly while at least the threshold of failures
  has been reported since the last success and the recovery time after the last of them has not passed.
\<close>

lemma circuit_refuses_iff:
  assumes "length es \<le> u32_max"
  shows "circuit_check now (circuit_after n d es) \<noteq> Inr () \<longleftrightarrow>
           streak es \<noteq> [] \<and> n \<le> length (streak es) \<and> now < hd (streak es) + d"
  by (simp add: circuit_after_state [OF assms] circuit_check_def)

lemma circuit_refuses_iff_example:
  "circuit_check 100 (circuit_after 3 60 [CallSucceeded, CallFailed 10, CallFailed 20, CallFailed 50]) \<noteq> Inr ()"
  by (subst circuit_refuses_iff) (simp_all add: streak_def u32_max_def)

text \<open>
  Once the recovery time has passed, any number of calls is let through until one of them is
  reported, not a single probe; the next failure then closes the breaker at once for the whole
  recovery time.
\<close>

lemma recovery_admits_every_call:
  assumes "length es < u32_max" "n \<le> length (streak es)" "streak es \<noteq> []"
    and "hd (streak es) + d \<le> now"
  shows "(\<forall>t\<ge>now. circuit_check t (circuit_after n d es) = Inr ()) \<and>
         circuit_check t' (circuit_after n d (es @ [CallFailed t''])) =
           (if t' < t'' + d then Inl (Suc (length (streak es)), t'' + d - t') else Inr ())"
proof
  have "length es \<le> u32_max" using assms(1) by simp
  then show "\<forall>t\<ge>now. circuit_check t (circuit_after n d es) = Inr ()"
    using assms(2-4) by (simp add: circuit_after_state circuit_check_def)
  have "length (es @ [CallFailed t'']) \<le> u32_max" using assms(1) by simp
  then show "circuit_check t' (circuit_after n d (es @ [CallFailed t''])) =
      (if t' < t'' + d then Inl (Suc (length (streak es)), t'' + d - t') else Inr ())"
    using assms(2) by (subst circuit_after_state) (simp_all add: circuit_check_def)
qed

lemma recovery_admits_every_call_example:
  "circuit_check 70 (circuit_after 3 60 [CallFailed 1, CallFailed 2, CallFailed 3]) = Inr () \<and>
   circuit_check 71 (circuit_after 3 60 ([CallFailed 1, CallFailed 2, CallFailed 3] @ [CallFailed 70])) = Inl (4, 59)"
  using recovery_admits_every_call [of "[CallFailed 1, CallFailed 2, CallFailed 3]" 3 60 63 71 70]
  by (simp add: streak_def u32_max_def)

end
