(* ===== verification/Item_Db.thy ===== *)
theory Item_Db
  imports Claim_Ledger Bridge_Marker F64 Json_Value
begin

text \<open>
  The tables of the backend database (\<^verbatim>\<open>crates/agentflare-backend/src/migrations\<close>) with the
  constraints SQLite enforces, and the reads and writes of \<^verbatim>\<open>state.rs\<close>, \<^verbatim>\<open>label.rs\<close> and of
  \<^verbatim>\<open>item/relations.rs\<close>. A table with a primary key is an association list from the key to the
  row; a join table is the list of its rows. An operation returns an error, and then nothing has
  been written, or its value and the tables after it. Fresh ids and the clock are arguments.
  Webhook deliveries (\<^verbatim>\<open>events.rs\<close>) are not part of the state.
\<close>

section \<open>Rows and tables\<close>

record item =
  it_project :: string
  it_state :: string
  it_name :: string
  it_description :: string
  it_priority :: string
  it_parent :: "string option"
  it_assignee :: "string option"
  it_sequence :: int
  it_sort_order :: f64
  it_started :: "time option"
  it_completed :: "time option"
  it_archived :: "time option"
  it_source :: "string option"
  it_external :: "string option"
  it_metadata :: string
  it_created :: time
  it_updated :: time
  it_deleted :: "time option"
  it_start_date :: "time option"
  it_due_date :: "time option"

record wstate =
  ws_project :: string
  ws_name :: string
  ws_group :: string
  ws_sequence :: f64
  ws_default :: bool
  ws_color :: string
  ws_created :: time
  ws_updated :: time
  ws_deleted :: "time option"

record wlabel =
  wl_project :: "string option"
  wl_workspace :: string
  wl_name :: string
  wl_color :: string
  wl_parent :: "string option"
  wl_sort_order :: f64
  wl_source :: "string option"
  wl_external :: "string option"
  wl_created :: time
  wl_updated :: time
  wl_deleted :: "time option"

record wproject =
  pj_workspace :: string
  pj_archived :: "time option"
  pj_deleted :: "time option"

text \<open>
  \<open>be_assign_log\<close>: item, outgoing owner, new owner, time. \<open>be_asks\<close> and \<open>be_vents\<close> serve the quota
  rules. \<open>be_dirs\<close>: project, its folder, time of the registration.
\<close>

record vent =
  vt_project :: string
  vt_severity :: string
  vt_actionable :: bool
  vt_item :: "string option"
  vt_updated :: time

record ask_event =
  ask_project :: string
  ask_goal :: "string option"
  ask_item :: string
  ask_agent :: "string option"
  ask_reason :: string
  ask_question :: "string option"
  ask_at :: time

record icomment =
  cm_item :: string
  cm_author :: string
  cm_body :: string
  cm_created :: time
  cm_updated :: time

record backend =
  be_items :: "(string \<times> item) list"
  be_states :: "(string \<times> wstate) list"
  be_labels :: "(string \<times> wlabel) list"
  be_projects :: "(string \<times> wproject) list"
  be_sequences :: "(string \<times> int) list"
  be_item_labels :: "(string \<times> string) list"
  be_item_assignees :: "(string \<times> string) list"
  be_relations :: "(string \<times> string \<times> string) list"
  be_claims :: claim_db
  be_assign_log :: "(string \<times> string option \<times> string \<times> time) list"
  be_vents :: "(string \<times> vent) list"
  be_comments :: "(string \<times> icomment) list"
  be_asks :: "ask_event list"
  be_dirs :: "(string \<times> string \<times> time) list"

datatype be_error =
    BNotFound string
  | BDuplicate string
  | BInvalidTransition string
  | BValidation string
  | BDatabase string

type_synonym 'a be_result = "be_error + 'a"

text \<open>
  What the operations use of their surroundings: the reader and the printer of JSON text
  (\<^verbatim>\<open>serde_json\<close>), the two environment variables with a claim's time to live, and SQLite's limit on
  bound variables.
\<close>

record be_env =
  en_parse :: "string \<Rightarrow> json option"
  en_print :: "json \<Rightarrow> string"
  en_ttl_var :: "string option"
  en_item_ttl_var :: "string option"
  en_variable_limit :: nat

text \<open>The \<open>?\<close> operator.\<close>

definition bind_ok :: "'e + 'a \<Rightarrow> ('a \<Rightarrow> 'e + 'b) \<Rightarrow> 'e + 'b" where
  "bind_ok r f = (case r of Inl e \<Rightarrow> Inl e | Inr a \<Rightarrow> f a)"

lemma bind_ok_simps [simp]: "bind_ok (Inl e) f = Inl e" "bind_ok (Inr a) f = f a"
  by (simp_all add: bind_ok_def)

lemma bind_ok_Inr: "bind_ok r f = Inr b \<longleftrightarrow> (\<exists>a. r = Inr a \<and> f a = Inr b)"
  by (cases r) auto

lemma bind_ok_InrE:
  assumes "bind_ok r f = Inr b"
  obtains a where "r = Inr a" "f a = Inr b"
  using assms by (auto simp: bind_ok_Inr)

text \<open>The rows of a table that are not deleted.\<close>

definition live_row :: "('r \<Rightarrow> time option) \<Rightarrow> (string \<times> 'r) list \<Rightarrow> string \<Rightarrow> 'r option" where
  "live_row del t k =
     (case map_of t k of
        None \<Rightarrow> None
      | Some r \<Rightarrow> if del r = None then Some r else None)"

lemma live_row_Some: "live_row del t k = Some r \<longleftrightarrow> map_of t k = Some r \<and> del r = None"
  by (auto simp: live_row_def split: option.splits)

text \<open>\<open>ORDER BY\<close> a column of floating point numbers.\<close>

fun insert_by :: "('r \<Rightarrow> f64) \<Rightarrow> 'r \<Rightarrow> 'r list \<Rightarrow> 'r list" where
  "insert_by f x [] = [x]"
| "insert_by f x (y # ys) = (if f_lt (f y) (f x) then y # insert_by f x ys else x # y # ys)"

definition order_by :: "('r \<Rightarrow> f64) \<Rightarrow> 'r list \<Rightarrow> 'r list" where
  "order_by f xs = foldr (insert_by f) xs []"

lemma set_insert_by [simp]: "set (insert_by f x xs) = insert x (set xs)"
  by (induction xs) auto

lemma set_order_by [simp]: "set (order_by f xs) = set xs"
  unfolding order_by_def by (induction xs) auto

section \<open>Projects and states\<close>

definition workspace_id_for_project :: "backend \<Rightarrow> string \<Rightarrow> string be_result" where
  "workspace_id_for_project b p =
     (case live_row pj_deleted (be_projects b) p of
        None \<Rightarrow> Inl (BNotFound p)
      | Some r \<Rightarrow> Inr (pj_workspace r))"

definition wstate_get :: "backend \<Rightarrow> string \<Rightarrow> wstate be_result" where
  "wstate_get b k =
     (case live_row ws_deleted (be_states b) k of
        None \<Rightarrow> Inl (BNotFound k)
      | Some r \<Rightarrow> Inr r)"

definition states_of_project :: "backend \<Rightarrow> string \<Rightarrow> (string \<times> wstate) list" where
  "states_of_project b p =
     order_by (\<lambda>(k, r). ws_sequence r)
       (filter (\<lambda>(k, r). ws_project r = p \<and> ws_deleted r = None) (be_states b))"

definition first_state_in_group :: "backend \<Rightarrow> string \<Rightarrow> string \<Rightarrow> (string \<times> wstate) be_result" where
  "first_state_in_group b p g =
     (case order_by (\<lambda>(k, r). ws_sequence r)
         (filter (\<lambda>(k, r). ws_project r = p \<and> ws_group r = g \<and> ws_deleted r = None) (be_states b)) of
        [] \<Rightarrow> Inl (BNotFound (''no '' @ [CHR 39] @ g @ [CHR 39] @ '' state for project '' @ p))
      | kr # _ \<Rightarrow> Inr kr)"

text \<open>A new row needs an unused id and an existing project (foreign key).\<close>

definition insert_wstate :: "backend \<Rightarrow> string \<Rightarrow> wstate \<Rightarrow> backend be_result" where
  "insert_wstate b k r =
     (if k \<in> fst ` set (be_states b) then Inl (BDuplicate k)
      else if ws_project r \<notin> fst ` set (be_projects b) then Inl (BDatabase ''FOREIGN KEY'')
      else Inr (b\<lparr>be_states := be_states b @ [(k, r)]\<rparr>))"

definition default_color :: string where
  "default_color = ''#60646C''"

definition wstate_create ::
  "backend \<Rightarrow> string \<Rightarrow> string \<Rightarrow> string \<Rightarrow> string \<Rightarrow> f64 \<Rightarrow> bool option \<Rightarrow> string option \<Rightarrow> time
     \<Rightarrow> ((string \<times> wstate) \<times> backend) be_result" where
  "wstate_create b new_id p name g sq is_default color ts =
     (let r = \<lparr>ws_project = p, ws_name = name, ws_group = g, ws_sequence = sq,
               ws_default = (is_default = Some True),
               ws_color = (case color of None \<Rightarrow> default_color | Some c \<Rightarrow> c),
               ws_created = ts, ws_updated = ts, ws_deleted = None\<rparr>
      in bind_ok (insert_wstate b new_id r) (\<lambda>b'.
           bind_ok (wstate_get b' new_id) (\<lambda>r'. Inr ((new_id, r'), b'))))"

definition default_states :: "(string \<times> string \<times> nat \<times> string) list" where
  "default_states =
     [(''Backlog'', ''backlog'', 15000, ''#60646C''),
      (''Todo'', ''unstarted'', 25000, ''#60646C''),
      (''In Progress'', ''started'', 35000, ''#F59E0B''),
      (''In Review'', ''in_review'', 40000, ''#818CF8''),
      (''Done'', ''completed'', 45000, ''#46A758''),
      (''Cancelled'', ''cancelled'', 55000, ''#9AA4BC''),
      (''Triage'', ''triage'', 65000, ''#4E5355'')]"

text \<open>\<open>ids\<close> are the ids drawn for the seven states, in order; the first state is the default.\<close>

definition seed_defaults :: "backend \<Rightarrow> string \<Rightarrow> string list \<Rightarrow> time \<Rightarrow> backend be_result" where
  "seed_defaults b p ids ts =
     foldl (\<lambda>acc (i, k, name, g, sq, col). bind_ok acc (\<lambda>b.
         insert_wstate b k
           \<lparr>ws_project = p, ws_name = name, ws_group = g, ws_sequence = f_of_nat sq,
            ws_default = (i = 0), ws_color = col, ws_created = ts, ws_updated = ts,
            ws_deleted = None\<rparr>))
       (Inr b) (zip [0 ..< length default_states] (zip ids default_states))"

definition needs_input_group :: string where
  "needs_input_group = ''needs_input''"

definition ensure_needs_input ::
  "backend \<Rightarrow> string \<Rightarrow> string \<Rightarrow> time \<Rightarrow> ((string \<times> wstate) \<times> backend) be_result" where
  "ensure_needs_input b new_id p ts =
     (let present = list_ex (\<lambda>(k, r). ws_project r = p \<and> ws_group r = needs_input_group
                                 \<and> ws_deleted r = None) (be_states b);
          r = \<lparr>ws_project = p, ws_name = ''Needs Input'', ws_group = needs_input_group,
               ws_sequence = f_of_nat 37000, ws_default = False, ws_color = ''#E5484D'',
               ws_created = ts, ws_updated = ts, ws_deleted = None\<rparr>
      in bind_ok (if present then Inr b else insert_wstate b new_id r) (\<lambda>b'.
           bind_ok (first_state_in_group b' p needs_input_group) (\<lambda>kr. Inr (kr, b'))))"

definition wstate_update ::
  "backend \<Rightarrow> string \<Rightarrow> string option \<Rightarrow> f64 option \<Rightarrow> string option \<Rightarrow> time
     \<Rightarrow> (wstate \<times> backend) be_result" where
  "wstate_update b k name sq color ts =
     bind_ok (wstate_get b k) (\<lambda>r.
       let r' = r\<lparr>ws_name := case_option (ws_name r) (\<lambda>x. x) name,
                  ws_sequence := case_option (ws_sequence r) (\<lambda>x. x) sq,
                  ws_color := case_option (ws_color r) (\<lambda>x. x) color,
                  ws_updated := ts\<rparr>
       in Inr (r', b\<lparr>be_states := AList.update k r' (be_states b)\<rparr>))"

definition wstate_delete :: "backend \<Rightarrow> string \<Rightarrow> time \<Rightarrow> backend be_result" where
  "wstate_delete b k ts =
     bind_ok (wstate_get b k) (\<lambda>r.
       if ws_default r
       then Inl (BInvalidTransition
         ''cannot delete the project's default state; items need a state to fall back to'')
       else Inr (b\<lparr>be_states :=
              AList.update k (r\<lparr>ws_deleted := Some ts, ws_updated := ts\<rparr>) (be_states b)\<rparr>))"

lemma first_state_in_group_Inr:
  assumes "first_state_in_group b p g = Inr (k, r)"
  shows "(k, r) \<in> set (be_states b)" "ws_project r = p" "ws_group r = g" "ws_deleted r = None"
proof -
  let ?xs = "filter (\<lambda>(k, r). ws_project r = p \<and> ws_group r = g \<and> ws_deleted r = None) (be_states b)"
  from assms obtain rest where "order_by (\<lambda>(k, r). ws_sequence r) ?xs = (k, r) # rest"
    by (auto simp: first_state_in_group_def split: list.splits)
  then have "(k, r) \<in> set (order_by (\<lambda>(k, r). ws_sequence r) ?xs)" by simp
  then have m: "(k, r) \<in> set ?xs" unfolding set_order_by .
  from m show "(k, r) \<in> set (be_states b)" by simp
  from m show "ws_project r = p" by simp
  from m show "ws_group r = g" by simp
  from m show "ws_deleted r = None" by simp
qed

end
