(* ===== verification/Item_Relations.thy ===== *)
theory Item_Relations
  imports Item_Db
begin

text \<open>
  Labels (\<^verbatim>\<open>crates/agentflare-backend/src/label.rs\<close>) and what hangs on an item: its labels,
  assignees, dependencies and symmetric relations (\<^verbatim>\<open>item/relations.rs\<close>). \<open>INSERT OR IGNORE\<close>
  skips a row that breaks a key or a \<open>CHECK\<close>; a foreign key is still enforced.
\<close>

section \<open>Reading an item\<close>

definition item_get :: "backend \<Rightarrow> string \<Rightarrow> item be_result" where
  "item_get b k =
     (case live_row it_deleted (be_items b) k of
        None \<Rightarrow> Inl (BNotFound k)
      | Some r \<Rightarrow> Inr r)"

definition known_item :: "backend \<Rightarrow> string \<Rightarrow> bool" where
  "known_item b k \<longleftrightarrow> k \<in> fst ` set (be_items b)"

lemma item_get_Inr: "item_get b k = Inr r \<longleftrightarrow> map_of (be_items b) k = Some r \<and> it_deleted r = None"
  by (cases "live_row it_deleted (be_items b) k") (auto simp: item_get_def live_row_Some live_row_def
      split: option.splits if_splits)

section \<open>Labels\<close>

definition wlabel_get :: "backend \<Rightarrow> string \<Rightarrow> wlabel be_result" where
  "wlabel_get b k =
     (case live_row wl_deleted (be_labels b) k of
        None \<Rightarrow> Inl (BNotFound k)
      | Some r \<Rightarrow> Inr r)"

definition label_by_name :: "backend \<Rightarrow> string \<Rightarrow> string \<Rightarrow> (string \<times> wlabel) be_result" where
  "label_by_name b p name =
     (case find (\<lambda>(k, r). wl_project r = Some p \<and> wl_name r = name \<and> wl_deleted r = None)
         (be_labels b) of
        None \<Rightarrow> Inl (BNotFound name)
      | Some kr \<Rightarrow> Inr kr)"

definition max_f64 :: "f64 list \<Rightarrow> f64 option" where
  "max_f64 xs =
     foldl (\<lambda>m x. case m of None \<Rightarrow> Some x | Some y \<Rightarrow> Some (if f_lt y x then x else y)) None xs"

definition label_next_sort_order :: "backend \<Rightarrow> string option \<Rightarrow> string \<Rightarrow> f64" where
  "label_next_sort_order b p w =
     (let in_scope = (\<lambda>r. wl_deleted r = None \<and>
            (case p of Some q \<Rightarrow> wl_project r = Some q
                     | None \<Rightarrow> wl_workspace r = w \<and> wl_project r = None));
          m = max_f64 (map (\<lambda>(k, r). wl_sort_order r) (filter (\<lambda>(k, r). in_scope r) (be_labels b)))
      in case m of None \<Rightarrow> f_of_nat 65535 | Some x \<Rightarrow> f_add x (f_of_nat 10000))"

text \<open>Two live labels of a project, or two of a workspace and no project, differ in name.\<close>

definition label_name_taken :: "backend \<Rightarrow> wlabel \<Rightarrow> bool" where
  "label_name_taken b r =
     list_ex (\<lambda>(k, l). wl_deleted l = None \<and> wl_name l = wl_name r \<and> wl_project l = wl_project r
                \<and> (wl_project r = None \<longrightarrow> wl_workspace l = wl_workspace r)) (be_labels b)"

definition label_fk_ok :: "backend \<Rightarrow> wlabel \<Rightarrow> bool" where
  "label_fk_ok b r \<longleftrightarrow>
     (case wl_project r of None \<Rightarrow> True | Some p \<Rightarrow> p \<in> fst ` set (be_projects b)) \<and>
     (case wl_parent r of None \<Rightarrow> True | Some l \<Rightarrow> l \<in> fst ` set (be_labels b))"

definition wlabel_create ::
  "backend \<Rightarrow> string \<Rightarrow> string option \<Rightarrow> string \<Rightarrow> string \<Rightarrow> string option \<Rightarrow> string option
     \<Rightarrow> f64 option \<Rightarrow> string option \<Rightarrow> string option \<Rightarrow> time \<Rightarrow> (wlabel \<times> backend) be_result" where
  "wlabel_create b new_id p w name color parent so src ext ts =
     (let r = \<lparr>wl_project = p, wl_workspace = w, wl_name = name,
               wl_color = (case color of None \<Rightarrow> default_color | Some c \<Rightarrow> c), wl_parent = parent,
               wl_sort_order = (case so of Some v \<Rightarrow> v | None \<Rightarrow> label_next_sort_order b p w),
               wl_source = src, wl_external = ext, wl_created = ts, wl_updated = ts,
               wl_deleted = None\<rparr>
      in if new_id \<in> fst ` set (be_labels b) \<or> label_name_taken b r then Inl (BDuplicate new_id)
         else if \<not> label_fk_ok b r then Inl (BDatabase ''FOREIGN KEY'')
         else Inr (r, b\<lparr>be_labels := be_labels b @ [(new_id, r)]\<rparr>))"

definition ensure_project_label ::
  "backend \<Rightarrow> string \<Rightarrow> string \<Rightarrow> string \<Rightarrow> time \<Rightarrow> ((string \<times> wlabel) \<times> backend) be_result" where
  "ensure_project_label b new_id p name ts =
     (case label_by_name b p name of
        Inr kr \<Rightarrow> Inr (kr, b)
      | Inl _ \<Rightarrow>
          bind_ok (workspace_id_for_project b p) (\<lambda>w.
            let r = \<lparr>wl_project = Some p, wl_workspace = w, wl_name = name,
                     wl_color = default_color, wl_parent = None,
                     wl_sort_order = label_next_sort_order b (Some p) w,
                     wl_source = None, wl_external = None, wl_created = ts, wl_updated = ts,
                     wl_deleted = None\<rparr>;
                b' = (if new_id \<in> fst ` set (be_labels b) \<or> label_name_taken b r then b
                      else b\<lparr>be_labels := be_labels b @ [(new_id, r)]\<rparr>)
            in bind_ok (label_by_name b' p name) (\<lambda>kr. Inr (kr, b'))))"

definition labels_of_project :: "backend \<Rightarrow> string \<Rightarrow> (string \<times> wlabel) list" where
  "labels_of_project b p =
     order_by (\<lambda>(k, r). wl_sort_order r)
       (filter (\<lambda>(k, r). wl_project r = Some p \<and> wl_deleted r = None) (be_labels b))"

definition wlabel_delete :: "backend \<Rightarrow> string \<Rightarrow> time \<Rightarrow> backend be_result" where
  "wlabel_delete b k ts =
     bind_ok (wlabel_get b k) (\<lambda>r.
       Inr (b\<lparr>be_labels := AList.update k (r\<lparr>wl_deleted := Some ts, wl_updated := ts\<rparr>) (be_labels b)\<rparr>))"

section \<open>Labels and assignees of an item\<close>

definition link_label :: "backend \<Rightarrow> string \<Rightarrow> string \<Rightarrow> backend" where
  "link_label b i l =
     (if (i, l) \<in> set (be_item_labels b) then b
      else b\<lparr>be_item_labels := be_item_labels b @ [(i, l)]\<rparr>)"

definition add_label :: "backend \<Rightarrow> string \<Rightarrow> string \<Rightarrow> backend be_result" where
  "add_label b i l =
     bind_ok (item_get b i) (\<lambda>it.
     bind_ok (wlabel_get b l) (\<lambda>lab.
     bind_ok (case wl_project lab of
                Some p \<Rightarrow> Inr (p = it_project it)
              | None \<Rightarrow> bind_ok (workspace_id_for_project b (it_project it))
                          (\<lambda>w. Inr (wl_workspace lab = w))) (\<lambda>in_scope.
       if \<not> in_scope
       then Inl (BValidation (''label '' @ l @ '' is not in item '' @ i
                  @ [CHR 39] @ ''s scope (project or workspace)''))
       else Inr (link_label b i l))))"

definition remove_label :: "backend \<Rightarrow> string \<Rightarrow> string \<Rightarrow> backend" where
  "remove_label b i l = b\<lparr>be_item_labels := filter (\<lambda>x. x \<noteq> (i, l)) (be_item_labels b)\<rparr>"

definition add_label_by_name :: "backend \<Rightarrow> string \<Rightarrow> string \<Rightarrow> backend be_result" where
  "add_label_by_name b i name =
     bind_ok (item_get b i) (\<lambda>it.
     bind_ok (label_by_name b (it_project it) name) (\<lambda>(l, _). add_label b i l))"

definition remove_label_by_name :: "backend \<Rightarrow> string \<Rightarrow> string \<Rightarrow> backend be_result" where
  "remove_label_by_name b i name =
     bind_ok (item_get b i) (\<lambda>it.
       case label_by_name b (it_project it) name of
         Inr (l, _) \<Rightarrow> Inr (remove_label b i l)
       | Inl (BNotFound _) \<Rightarrow> Inr b
       | Inl e \<Rightarrow> Inl e)"

definition list_labels :: "backend \<Rightarrow> string \<Rightarrow> string list" where
  "list_labels b i = map snd (filter (\<lambda>(j, l). j = i) (be_item_labels b))"

definition add_assignee :: "backend \<Rightarrow> string \<Rightarrow> string \<Rightarrow> backend be_result" where
  "add_assignee b i a =
     (if (i, a) \<in> set (be_item_assignees b) then Inr b
      else if \<not> known_item b i then Inl (BDatabase ''FOREIGN KEY'')
      else Inr (b\<lparr>be_item_assignees := be_item_assignees b @ [(i, a)]\<rparr>))"

definition remove_assignee :: "backend \<Rightarrow> string \<Rightarrow> string \<Rightarrow> backend" where
  "remove_assignee b i a = b\<lparr>be_item_assignees := filter (\<lambda>x. x \<noteq> (i, a)) (be_item_assignees b)\<rparr>"

definition list_assignees :: "backend \<Rightarrow> string \<Rightarrow> string list" where
  "list_assignees b i = map snd (filter (\<lambda>(j, a). j = i) (be_item_assignees b))"

section \<open>Dependencies\<close>

definition relation_types :: "string list" where
  "relation_types = [''blocks'', ''duplicate'', ''relates_to'']"

definition insert_relation :: "backend \<Rightarrow> string \<Rightarrow> string \<Rightarrow> string \<Rightarrow> backend be_result" where
  "insert_relation b x y ty =
     (if ty \<notin> set relation_types \<or> x = y \<or> (x, y, ty) \<in> set (be_relations b) then Inr b
      else if \<not> known_item b x \<or> \<not> known_item b y
      then Inl (BDatabase ''FOREIGN KEY'')
      else Inr (b\<lparr>be_relations := be_relations b @ [(x, y, ty)]\<rparr>))"

definition delete_relation :: "backend \<Rightarrow> string \<Rightarrow> string \<Rightarrow> string \<Rightarrow> backend" where
  "delete_relation b x y ty = b\<lparr>be_relations := filter (\<lambda>r. r \<noteq> (x, y, ty)) (be_relations b)\<rparr>"

definition add_dependency :: "backend \<Rightarrow> string \<Rightarrow> string \<Rightarrow> backend be_result" where
  "add_dependency b i d = insert_relation b i d ''blocks''"

definition remove_dependency :: "backend \<Rightarrow> string \<Rightarrow> string \<Rightarrow> backend" where
  "remove_dependency b i d = delete_relation b i d ''blocks''"

definition list_dependencies :: "backend \<Rightarrow> string \<Rightarrow> string list" where
  "list_dependencies b i =
     map (\<lambda>(x, y, ty). y) (filter (\<lambda>(x, y, ty). x = i \<and> ty = ''blocks'') (be_relations b))"

definition dependents_of :: "backend \<Rightarrow> string \<Rightarrow> string list" where
  "dependents_of b i =
     map (\<lambda>(x, y, ty). x)
       (filter (\<lambda>(x, y, ty). y = i \<and> ty = ''blocks'' \<and> live_row it_deleted (be_items b) x \<noteq> None)
         (be_relations b))"

fun chunks :: "nat \<Rightarrow> 'a list \<Rightarrow> 'a list list" where
  "chunks n [] = []"
| "chunks n (x # xs) = (x # take (n - 1) xs) # chunks n (drop (n - 1) xs)"

definition id_batches :: "nat \<Rightarrow> string list \<Rightarrow> nat \<Rightarrow> string list list" where
  "id_batches limit ids per_id = chunks (max 1 (limit div max 1 per_id)) ids"

text \<open>
  The inner joins: an edge to a deleted item drops out. The state is looked up by its id alone, a
  deleted state included.
\<close>

definition dependency_edges_for_items ::
  "be_env \<Rightarrow> backend \<Rightarrow> string list \<Rightarrow> (string \<times> string \<times> string) list" where
  "dependency_edges_for_items E b ids =
     concat (map (\<lambda>batch.
       List.map_filter (\<lambda>(x, y, ty).
         if x \<in> set batch \<and> ty = ''blocks''
         then (case live_row it_deleted (be_items b) y of
                 None \<Rightarrow> None
               | Some it \<Rightarrow> map_option (\<lambda>st. (x, y, ws_group st)) (map_of (be_states b) (it_state it)))
         else None) (be_relations b))
       (id_batches (en_variable_limit E) ids 1))"

definition all_dependencies_completed :: "be_env \<Rightarrow> backend \<Rightarrow> string \<Rightarrow> bool" where
  "all_dependencies_completed E b i =
     (let deps = list_dependencies b i in
      if deps = [] then False
      else let edges = dependency_edges_for_items E b [i]
           in length edges = length deps \<and> list_all (\<lambda>(_, _, g). g = ''completed'') edges)"

definition dependency_fanin_for_items ::
  "be_env \<Rightarrow> backend \<Rightarrow> string list \<Rightarrow> (string \<times> nat) list" where
  "dependency_fanin_for_items E b ids =
     foldl (\<lambda>acc batch.
       foldl (\<lambda>acc i.
         let n = length (filter (\<lambda>(x, y, ty). y = i \<and> ty = ''blocks''
                    \<and> live_row it_deleted (be_items b) x \<noteq> None) (be_relations b))
         in if n = 0 then acc else AList.update i n acc) acc batch)
       [] (id_batches (en_variable_limit E) ids 1)"

section \<open>Symmetric relations\<close>

definition canonicalize_pair :: "string \<Rightarrow> string \<Rightarrow> string \<times> string" where
  "canonicalize_pair x y = (if x \<le> y then (x, y) else (y, x))"

definition add_relation :: "backend \<Rightarrow> string \<Rightarrow> string \<Rightarrow> string \<Rightarrow> backend be_result" where
  "add_relation b x y ty =
     (if ty = ''blocks'' then add_dependency b x y
      else let (p, q) = canonicalize_pair x y in insert_relation b p q ty)"

definition remove_relation :: "backend \<Rightarrow> string \<Rightarrow> string \<Rightarrow> string \<Rightarrow> backend" where
  "remove_relation b x y ty =
     (if ty = ''blocks'' then remove_dependency b x y
      else let (p, q) = canonicalize_pair x y in delete_relation b p q ty)"

definition list_relations_by_type :: "backend \<Rightarrow> string \<Rightarrow> string \<Rightarrow> string list" where
  "list_relations_by_type b i ty =
     (if ty = ''blocks'' then list_dependencies b i
      else map (\<lambda>(x, y, t). if x = i then y else x)
             (filter (\<lambda>(x, y, t). (x = i \<or> y = i) \<and> t = ty) (be_relations b)))"

definition list_all_relations :: "backend \<Rightarrow> string \<Rightarrow> (string \<times> string) list" where
  "list_all_relations b i =
     concat (map (\<lambda>ty. map (\<lambda>j. (ty, j)) (list_relations_by_type b i ty)) relation_types)"

lemmas relation_ops =
  add_relation_def remove_relation_def add_dependency_def remove_dependency_def
  insert_relation_def delete_relation_def

text \<open>The rows of the relation table, as the keys and checks of the schema and the canonical order leave them.\<close>

fun relation_row_ok :: "backend \<Rightarrow> string \<times> string \<times> string \<Rightarrow> bool" where
  "relation_row_ok b (x, y, ty) \<longleftrightarrow>
     x \<noteq> y \<and> ty \<in> set relation_types \<and> (ty \<noteq> ''blocks'' \<longrightarrow> x \<le> y) \<and> known_item b x \<and> known_item b y"

definition relations_ok :: "backend \<Rightarrow> bool" where
  "relations_ok b \<longleftrightarrow> distinct (be_relations b) \<and> list_all (relation_row_ok b) (be_relations b)"

lemma relation_row_ok_cong:
  "be_items b' = be_items b \<Longrightarrow> relation_row_ok b' r = relation_row_ok b r"
  by (cases r) (simp add: known_item_def)

lemma relations_ok_row:
  assumes "relations_ok b" "(x, y, ty) \<in> set (be_relations b)"
  shows "x \<noteq> y" "ty \<noteq> ''blocks'' \<Longrightarrow> x \<le> y"
  using assms by (auto simp: relations_ok_def list_all_iff)

lemma relations_ok_insert:
  assumes "relations_ok b" "insert_relation b x y ty = Inr b'" "ty \<noteq> ''blocks'' \<longrightarrow> x \<le> y"
  shows "relations_ok b'"
proof (cases "b' = b")
  case False
  with assms(2) have b': "b' = b\<lparr>be_relations := be_relations b @ [(x, y, ty)]\<rparr>"
    and n: "(x, y, ty) \<notin> set (be_relations b)" and "relation_row_ok b (x, y, ty)"
    using assms(3) by (auto simp: insert_relation_def split: if_splits)
  moreover have "relation_row_ok b' = relation_row_ok b"
    by (rule ext, rule relation_row_ok_cong) (simp add: b')
  ultimately show ?thesis using assms(1) by (simp add: relations_ok_def)
qed (use assms in simp)

lemma relations_ok_add:
  assumes "relations_ok b" "add_relation b x y ty = Inr b'"
  shows "relations_ok b'"
  using assms
  by (auto simp: add_relation_def add_dependency_def canonicalize_pair_def Let_def
      elim!: relations_ok_insert split: if_splits)

lemma relations_ok_delete: "relations_ok b \<Longrightarrow> relations_ok (delete_relation b x y ty)"
proof -
  assume ok: "relations_ok b"
  have "relation_row_ok (delete_relation b x y ty) = relation_row_ok b"
    by (rule ext, rule relation_row_ok_cong) (simp add: delete_relation_def)
  with ok show ?thesis by (auto simp: relations_ok_def delete_relation_def list_all_iff)
qed

lemma relations_ok_remove: "relations_ok b \<Longrightarrow> relations_ok (remove_relation b x y ty)"
  by (auto simp: remove_relation_def remove_dependency_def Let_def split: prod.split
      intro: relations_ok_delete)

lemma canonicalize_pair_swap: "canonicalize_pair x y = canonicalize_pair y x"
  by (auto simp: canonicalize_pair_def)

lemma add_relation_swap: "ty \<noteq> ''blocks'' \<Longrightarrow> add_relation b x y ty = add_relation b y x ty"
  by (simp add: add_relation_def canonicalize_pair_swap)

lemma list_relations_mem:
  "ty \<noteq> ''blocks'' \<Longrightarrow> relations_ok b \<Longrightarrow>
     y \<in> set (list_relations_by_type b x ty)
       \<longleftrightarrow> (x, y, ty) \<in> set (be_relations b) \<or> (y, x, ty) \<in> set (be_relations b)"
  by (force simp: list_relations_by_type_def dest: relations_ok_row)

lemma list_relations_symmetric:
  "ty \<noteq> ''blocks'' \<Longrightarrow> relations_ok b \<Longrightarrow>
     y \<in> set (list_relations_by_type b x ty) \<longleftrightarrow> x \<in> set (list_relations_by_type b y ty)"
  by (auto simp: list_relations_mem)

lemma list_relations_distinct:
  assumes ok: "relations_ok b"
  shows "distinct (list_relations_by_type b i ty)"
proof (cases "ty = ''blocks''")
  case True
  have "inj_on (\<lambda>(x, y, ty). y) {r \<in> set (be_relations b). case r of (x, y, ty) \<Rightarrow> x = i \<and> ty = ''blocks''}"
    by (rule inj_onI) auto
  with True ok show ?thesis
    by (simp add: list_relations_by_type_def list_dependencies_def relations_ok_def distinct_map)
next
  case False
  have "r = r'"
    if a: "r \<in> set (be_relations b)" "r' \<in> set (be_relations b)"
      "case r of (x, y, t) \<Rightarrow> (x = i \<or> y = i) \<and> t = ty" "case r' of (x, y, t) \<Rightarrow> (x = i \<or> y = i) \<and> t = ty"
      "(case r of (x, y, t) \<Rightarrow> if x = i then y else x) = (case r' of (x, y, t) \<Rightarrow> if x = i then y else x)"
    for r r'
  proof -
    obtain x y x' y' where r: "r = (x, y, ty)" "r' = (x', y', ty)"
      using a(3,4) by (cases r; cases r') auto
    have "x \<noteq> y" "x \<le> y" "x' \<noteq> y'" "x' \<le> y'"
      using relations_ok_row [OF ok] a(1,2) False unfolding r by blast+
    with a(3-5) show ?thesis unfolding r by (auto split: if_splits)
  qed
  then have "inj_on (\<lambda>(x, y, t). if x = i then y else x)
      {r \<in> set (be_relations b). case r of (x, y, t) \<Rightarrow> (x = i \<or> y = i) \<and> t = ty}"
    by (intro inj_onI) blast
  with False ok show ?thesis
    by (simp add: list_relations_by_type_def relations_ok_def distinct_map)
qed

text \<open>A relation that was not there is added and removed again, from either side.\<close>

lemma relation_roundtrip:
  assumes "relations_ok b" "add_relation b x y ty = Inr b'" "ty \<noteq> ''blocks''"
    and "y \<notin> set (list_relations_by_type b x ty)"
  shows "remove_relation b' y x ty = b"
proof -
  have n: "canonicalize_pair x y = (p, q) \<Longrightarrow> (p, q, ty) \<notin> set (be_relations b)" for p q
    using assms(1,3,4) by (auto simp: list_relations_mem canonicalize_pair_def split: if_splits)
  have f: "filter (\<lambda>r. r \<noteq> z) xs = xs" if "z \<notin> set xs" for z :: "string \<times> string \<times> string" and xs
    using that by (induction xs) auto
  obtain p q where pq: "canonicalize_pair x y = (p, q)" by (cases "canonicalize_pair x y")
  then have yx: "canonicalize_pair y x = (p, q)" by (simp add: canonicalize_pair_swap)
  from assms(2,3) pq have "b' = b \<or> b' = b\<lparr>be_relations := be_relations b @ [(p, q, ty)]\<rparr>"
    by (auto simp: add_relation_def insert_relation_def split: if_splits)
  with n [OF pq] assms(3) yx show ?thesis
    by (auto simp: remove_relation_def delete_relation_def f)
qed

end
