(* ===== verification/Plan_Gate.thy ===== *)
theory Plan_Gate
  imports Item_Relations
begin

text \<open>
  The plan gate of an item, \<^verbatim>\<open>crates/agentflare-backend/src/item/plan_gate.rs\<close>: reading it out of
  the metadata text, writing single keys into that text, and the guard that keeps a recorded
  approval when a writer replaces the text by an older copy. An object keeps its keys in the order
  of insertion (\<^verbatim>\<open>preserve_order\<close>).
\<close>

section \<open>JSON values\<close>

definition json_key :: "string \<Rightarrow> json \<Rightarrow> json option" where
  "json_key k v = (case v of JObj ob \<Rightarrow> map_of ob k | _ \<Rightarrow> None)"

definition json_str :: "json \<Rightarrow> string option" where
  "json_str v = (case v of JStr s \<Rightarrow> Some s | _ \<Rightarrow> None)"

definition json_bool :: "json \<Rightarrow> bool option" where
  "json_bool v = (case v of JBool x \<Rightarrow> Some x | _ \<Rightarrow> None)"

text \<open>\<open>as_i64\<close> and \<open>as_u64\<close>: integers of that range; \<open>-0\<close> is a float.\<close>

definition json_i64 :: "json \<Rightarrow> int option" where
  "json_i64 v = (case v of JNum s \<Rightarrow> if s = ''-0'' then None else parse_i64 s | _ \<Rightarrow> None)"

definition json_u64 :: "json \<Rightarrow> nat option" where
  "json_u64 v = (case v of JNum s \<Rightarrow> parse_u64 s | _ \<Rightarrow> None)"

definition is_object :: "json \<Rightarrow> bool" where
  "is_object v = (case v of JObj _ \<Rightarrow> True | _ \<Rightarrow> False)"

text \<open>\<open>Map::remove\<close> moves the last entry into the gap.\<close>

definition swap_remove :: "string \<Rightarrow> (string \<times> json) list \<Rightarrow> (string \<times> json) list" where
  "swap_remove k ob =
     (if map_of ob k = None then ob
      else if fst (last ob) = k then butlast ob
      else map (\<lambda>e. if fst e = k then last ob else e) (butlast ob))"

text \<open>
  Values that the printer and the reader agree on: no object repeats a key, and every number
  text is read as that number.
\<close>

fun json_ok :: "be_env \<Rightarrow> json \<Rightarrow> bool" where
  "json_ok E (JNum s) = (en_parse E s = Some (JNum s))"
| "json_ok E (JArr vs) = list_all (json_ok E) vs"
| "json_ok E (JObj ob) = (distinct (map fst ob) \<and> list_all (\<lambda>(_, v). json_ok E v) ob)"
| "json_ok E _ = True"

text \<open>
  The documented behaviour of \<^verbatim>\<open>serde_json\<close>: what is printed is read back, and a decimal numeral is
  read as that number.
\<close>

definition json_reads_back :: "be_env \<Rightarrow> bool" where
  "json_reads_back E \<longleftrightarrow>
     (\<forall>v. json_ok E v \<longrightarrow> en_parse E (en_print E v) = Some v) \<and>
     (\<forall>n \<le> u64_max. en_parse E (show_nat n) = Some (JNum (show_nat n)))"

lemma json_reads_backD: "json_reads_back E \<Longrightarrow> json_ok E v \<Longrightarrow> en_parse E (en_print E v) = Some v"
  by (simp add: json_reads_back_def)

lemma json_ok_numeral: "json_reads_back E \<Longrightarrow> n \<le> u64_max \<Longrightarrow> json_ok E (JNum (show_nat n))"
  by (simp add: json_reads_back_def)

lemma json_ok_map_of: "json_ok E (JObj ob) \<Longrightarrow> map_of ob k = Some v \<Longrightarrow> json_ok E v"
  by (auto simp: list_all_iff dest!: map_of_SomeD)

lemma json_ok_key: "json_ok E v \<Longrightarrow> json_key k v = Some w \<Longrightarrow> json_ok E w"
  by (cases v) (auto simp: json_key_def intro: json_ok_map_of)

lemma set_update_subset: "set (AList.update k v xs) \<subseteq> insert (k, v) (set xs)"
  by (induction xs) auto

lemma json_ok_update:
  assumes "json_ok E (JObj ob)" "json_ok E v"
  shows "json_ok E (JObj (AList.update k v ob))"
  using assms set_update_subset [of k v ob] by (auto simp: distinct_update list_all_iff)

section \<open>Reading the gate\<close>

record plan_gate_meta =
  pg_required :: bool
  pg_approver :: "string option"
  pg_asset :: "string option"
  pg_status :: "string option"
  pg_approved_by :: "string option"
  pg_approved_at :: "int option"
  pg_rejection :: "string option"

definition no_plan_gate :: plan_gate_meta where
  "no_plan_gate = \<lparr>pg_required = False, pg_approver = None, pg_asset = None, pg_status = None,
     pg_approved_by = None, pg_approved_at = None, pg_rejection = None\<rparr>"

definition read_plan_gate :: "be_env \<Rightarrow> string \<Rightarrow> plan_gate_meta" where
  "read_plan_gate E meta =
     (case en_parse E meta of
        None \<Rightarrow> no_plan_gate
      | Some v \<Rightarrow>
          let str_field = (\<lambda>k. Option.bind (json_key k v) json_str) in
          \<lparr>pg_required = (Option.bind (json_key ''plan_required'' v) json_bool = Some True),
           pg_approver = str_field ''plan_approver'', pg_asset = str_field ''plan_asset_id'',
           pg_status = str_field ''plan_status'', pg_approved_by = str_field ''plan_approved_by'',
           pg_approved_at = Option.bind (json_key ''plan_approved_at'' v) json_i64,
           pg_rejection = str_field ''plan_rejection_reason''\<rparr>)"

datatype gate_status = GateOpen | GateBlocked string

definition plan_gate_status_of :: "plan_gate_meta \<Rightarrow> gate_status" where
  "plan_gate_status_of g =
     (if \<not> pg_required g then GateOpen
      else case pg_status g of
             None \<Rightarrow> GateBlocked ''none''
           | Some st \<Rightarrow> if st = ''approved'' then GateOpen else GateBlocked st)"

definition plan_gate_status :: "be_env \<Rightarrow> string \<Rightarrow> gate_status" where
  "plan_gate_status E meta = plan_gate_status_of (read_plan_gate E meta)"

definition default_policy :: "be_env \<Rightarrow> string \<Rightarrow> string \<Rightarrow> (bool \<times> string) option" where
  "default_policy E priority meta =
     (if priority = ''urgent'' \<or> priority = ''high'' then Some (True, ''human'')
      else let size = Option.bind (en_parse E meta) (\<lambda>v. Option.bind (json_key ''size'' v) json_str)
           in if size = Some ''L'' then Some (True, ''human'') else None)"

definition approved_by_identity :: "string option \<Rightarrow> bool \<Rightarrow> string" where
  "approved_by_identity agent channel_route =
     (case agent of
        Some s \<Rightarrow> if s \<noteq> [] then s else if channel_route then ''human'' else ''agent''
      | None \<Rightarrow> if channel_route then ''human'' else ''agent'')"

section \<open>Writing the metadata text\<close>

text \<open>The patch is a value; only an object has keys to write.\<close>

definition merge_metadata_patch :: "be_env \<Rightarrow> string \<Rightarrow> json \<Rightarrow> string" where
  "merge_metadata_patch E existing patch =
     (let base = (case en_parse E existing of Some (JObj ob) \<Rightarrow> ob | _ \<Rightarrow> []);
          written = (case patch of JObj p \<Rightarrow> foldl (\<lambda>ob (k, v). AList.update k v ob) base p | _ \<Rightarrow> base)
      in en_print E (JObj written))"

text \<open>A status that the incoming value sets on purpose: a rejection, or a resubmission of another plan.\<close>

definition explicit_transition :: "json \<Rightarrow> json \<Rightarrow> bool" where
  "explicit_transition new cur =
     (case Option.bind (json_key ''plan_status'' new) json_str of
        None \<Rightarrow> False
      | Some st \<Rightarrow>
          if st = ''rejected'' then True
          else if st = ''pending''
          then (case (Option.bind (json_key ''plan_asset_id'' new) json_str,
                      Option.bind (json_key ''plan_asset_id'' cur) json_str) of
                  (Some n, Some c) \<Rightarrow> n \<noteq> c
                | (Some _, None) \<Rightarrow> True
                | _ \<Rightarrow> False)
          else False)"

definition recorded_approval :: "json \<Rightarrow> bool" where
  "recorded_approval v \<longleftrightarrow>
     json_key ''plan_approved_at'' v \<noteq> None \<or> json_key ''plan_status'' v = Some (JStr ''approved'')"

definition keep_key :: "json \<Rightarrow> string \<Rightarrow> (string \<times> json) list \<Rightarrow> (string \<times> json) list" where
  "keep_key cur k ob = (case json_key k cur of None \<Rightarrow> ob | Some v \<Rightarrow> AList.update k v ob)"

definition preserve_plan_approval :: "be_env \<Rightarrow> string \<Rightarrow> string \<Rightarrow> string" where
  "preserve_plan_approval E incoming current =
     (case en_parse E incoming of
        None \<Rightarrow> incoming
      | Some new \<Rightarrow>
        (case en_parse E current of
           None \<Rightarrow> incoming
         | Some cur \<Rightarrow>
           if \<not> recorded_approval cur then incoming
           else (case new of
             JObj ob \<Rightarrow>
               let was_approved = (json_key ''plan_status'' cur = Some (JStr ''approved''));
                   new_status = Option.bind (json_key ''plan_status'' new) json_str;
                   ob1 = (if was_approved \<and> \<not> explicit_transition new cur
                          then keep_key cur ''plan_status'' ob else ob);
                   fresh_approval = (\<not> was_approved \<and> new_status = Some ''approved'');
                   ob2 = (if \<not> fresh_approval
                          then keep_key cur ''plan_approved_by'' (keep_key cur ''plan_approved_at'' ob1)
                          else ob1)
               in en_print E (JObj ob2)
           | _ \<Rightarrow> incoming)))"

lemma map_of_keep_key:
  "map_of (keep_key cur k ob) k' =
     (if k' = k \<and> json_key k cur \<noteq> None then json_key k cur else map_of ob k')"
  by (cases "json_key k cur"; cases "k' = k") (auto simp: keep_key_def)

lemma json_ok_keep_key:
  "json_ok E (JObj ob) \<Longrightarrow> json_ok E cur \<Longrightarrow> json_ok E (JObj (keep_key cur k ob))"
  by (auto simp: keep_key_def simp del: json_ok.simps split: option.split
      intro: json_ok_update json_ok_key)

text \<open>The guard writes three keys and no other.\<close>

lemma preserve_other_keys:
  assumes rb: "json_reads_back E" and new: "en_parse E incoming = Some (JObj ob)" "json_ok E (JObj ob)"
    and cur: "\<And>cur. en_parse E current = Some cur \<Longrightarrow> json_ok E cur"
  obtains ob' where "en_parse E (preserve_plan_approval E incoming current) = Some (JObj ob')"
    and "json_ok E (JObj ob')"
    and "\<And>k. k \<notin> {''plan_status'', ''plan_approved_at'', ''plan_approved_by''}
           \<Longrightarrow> map_of ob' k = map_of ob k"
    and "\<And>k. map_of ob' k = map_of ob k
           \<or> (\<exists>cur. en_parse E current = Some cur \<and> map_of ob' k = json_key k cur)"
proof (cases "preserve_plan_approval E incoming current = incoming")
  case True
  with new show ?thesis by (intro that [of ob]) simp_all
next
  case False
  with new(1) obtain cur where c: "en_parse E current = Some cur" "recorded_approval cur"
    by (auto simp: preserve_plan_approval_def split: option.splits if_splits)
  let ?wr = "\<lambda>ob'. json_ok E (JObj ob') \<and> (\<forall>k. k \<notin> {''plan_status'', ''plan_approved_at'', ''plan_approved_by''}
      \<longrightarrow> map_of ob' k = map_of ob k) \<and> (\<forall>k. map_of ob' k = map_of ob k \<or> map_of ob' k = json_key k cur)"
  have keep: "?wr (keep_key cur k ob')"
    if "?wr ob'" "k \<in> {''plan_status'', ''plan_approved_at'', ''plan_approved_by''}" for k ob'
    using that json_ok_keep_key [of E ob' cur k] cur [OF c(1)]
    by (auto simp: map_of_keep_key simp del: json_ok.simps)
  have w0: "?wr ob" using new(2) by (simp del: json_ok.simps)
  define wa where "wa \<longleftrightarrow> json_key ''plan_status'' cur = Some (JStr ''approved'')"
  define fr where "fr \<longleftrightarrow> \<not> wa \<and> Option.bind (json_key ''plan_status'' (JObj ob)) json_str = Some ''approved''"
  define ob1 where "ob1 = (if wa \<and> \<not> explicit_transition (JObj ob) cur then keep_key cur ''plan_status'' ob else ob)"
  define ob2 where "ob2 = (if \<not> fr then keep_key cur ''plan_approved_by'' (keep_key cur ''plan_approved_at'' ob1) else ob1)"
  have w1: "?wr ob1" unfolding ob1_def using keep [OF w0] w0 by (simp del: json_ok.simps)
  have "?wr (keep_key cur ''plan_approved_at'' ob1)" by (rule keep [OF w1]) simp
  then have "?wr (keep_key cur ''plan_approved_by'' (keep_key cur ''plan_approved_at'' ob1))"
    by (rule keep) simp
  with w1 have w2: "?wr ob2" unfolding ob2_def by (simp del: json_ok.simps)
  have "preserve_plan_approval E incoming current = en_print E (JObj ob2)"
    using new(1) c by (simp add: preserve_plan_approval_def Let_def ob2_def ob1_def fr_def wa_def)
  then have "en_parse E (preserve_plan_approval E incoming current) = Some (JObj ob2)"
    using w2 rb by (simp add: json_reads_backD del: json_ok.simps)
  with w2 c(1) show ?thesis by (intro that [of ob2]) auto
qed

text \<open>What a wholesale write leaves when an approved plan is stored and the write is no transition.\<close>

lemma preserve_keeps_approval:
  assumes rb: "json_reads_back E" and new: "en_parse E incoming = Some (JObj ob)" "json_ok E (JObj ob)"
    and cur: "en_parse E current = Some cur" "json_ok E cur"
    and app: "json_key ''plan_status'' cur = Some (JStr ''approved'')"
    and tr: "\<not> explicit_transition (JObj ob) cur"
  obtains ob' where "en_parse E (preserve_plan_approval E incoming current) = Some (JObj ob')"
    and "map_of ob' ''plan_status'' = Some (JStr ''approved'')"
    and "\<And>k. k \<in> {''plan_approved_at'', ''plan_approved_by''} \<Longrightarrow> json_key k cur \<noteq> None
           \<Longrightarrow> map_of ob' k = json_key k cur"
    and "\<And>k. k \<notin> {''plan_status'', ''plan_approved_at'', ''plan_approved_by''}
           \<Longrightarrow> map_of ob' k = map_of ob k"
proof -
  let ?ob' = "keep_key cur ''plan_approved_by'' (keep_key cur ''plan_approved_at''
      (keep_key cur ''plan_status'' ob))"
  have "preserve_plan_approval E incoming current = en_print E (JObj ?ob')"
    using new(1) cur(1) app tr by (simp add: preserve_plan_approval_def recorded_approval_def Let_def)
  moreover have "json_ok E (JObj ?ob')"
    by (intro json_ok_keep_key new(2) cur(2))
  ultimately have "en_parse E (preserve_plan_approval E incoming current) = Some (JObj ?ob')"
    using rb by (simp add: json_reads_backD del: json_ok.simps)
  then show ?thesis
    by (rule that) (auto simp: map_of_keep_key app)
qed

text \<open>
  The guard looks at one direction only: a copy taken while the plan was approved, written back
  after a rejection, counts as a fresh approval.
\<close>

lemma stale_approval_undoes_rejection:
  assumes "en_parse E incoming = Some (JObj ob)" "map_of ob ''plan_status'' = Some (JStr ''approved'')"
    and "en_parse E current = Some cur" "json_key ''plan_status'' cur = Some (JStr ''rejected'')"
    and "json_reads_back E" "json_ok E (JObj ob)"
  shows "plan_gate_status E (preserve_plan_approval E incoming current) = GateOpen"
proof -
  have g: "plan_gate_status E s = GateOpen" if "en_parse E s = Some (JObj ob)" for s
    using that assms(2) by (simp add: plan_gate_status_def plan_gate_status_of_def read_plan_gate_def
        Let_def json_key_def json_str_def)
  have "preserve_plan_approval E incoming current \<in> {incoming, en_print E (JObj ob)}"
    using assms by (simp add: preserve_plan_approval_def Let_def json_key_def json_str_def)
  with g [of incoming] g [of "en_print E (JObj ob)"] json_reads_backD [OF assms(5,6)] assms(1)
  show ?thesis by auto
qed

end
