(* ===== verification/Item_Crud.thy ===== *)
theory Item_Crud
  imports Plan_Gate
begin

text \<open>
  Creating, reading, changing and deleting work items: \<^verbatim>\<open>crates/agentflare-backend/src/item/crud.rs\<close>
  and the helpers of \<^verbatim>\<open>item/mod.rs\<close>. The rows of a statement are the update it performs; the
  metadata column is text, written through the guard of the plan gate.
\<close>

section \<open>Agent names\<close>

text \<open>\<^verbatim>\<open>agent_registry::canonicalize\<close> and \<^verbatim>\<open>item::agent_part\<close>.\<close>

definition agent_canonicalize :: "string \<Rightarrow> string" where
  "agent_canonicalize name =
     (let s = to_lowercase (trim name) in
      if s \<in> {''claude'', ''claude code'', ''claude-code-cli''} then ''claude-code''
      else if s \<in> {''agy'', ''antigravity-cli''} then ''antigravity''
      else name)"

definition agent_part :: "string \<Rightarrow> string" where
  "agent_part owner = agent_canonicalize (hd (split_on (CHR '':'') owner))"

section \<open>Creating\<close>

record new_item =
  ci_project :: string
  ci_state :: string
  ci_name :: string
  ci_description :: "string option"
  ci_priority :: "string option"
  ci_parent :: "string option"
  ci_assignee :: "string option"
  ci_sort_order :: "f64 option"
  ci_source :: "string option"
  ci_external :: "string option"
  ci_metadata :: "string option"
  ci_labels :: "string list"
  ci_assignees :: "string list"
  ci_dependencies :: "string list"
  ci_start_date :: "time option"
  ci_due_date :: "time option"

fun fold_ok :: "('s \<Rightarrow> 'a \<Rightarrow> 'e + 's) \<Rightarrow> 'a list \<Rightarrow> 's \<Rightarrow> 'e + 's" where
  "fold_ok f [] s = Inr s"
| "fold_ok f (x # xs) s = bind_ok (f s x) (fold_ok f xs)"

definition next_sequence_id :: "backend \<Rightarrow> string \<Rightarrow> (int \<times> backend) be_result" where
  "next_sequence_id b p =
     (if p \<notin> fst ` set (be_projects b) then Inl (BDatabase ''FOREIGN KEY'')
      else let n = (case map_of (be_sequences b) p of None \<Rightarrow> 1 | Some n \<Rightarrow> n + 1)
           in Inr (n, b\<lparr>be_sequences := AList.update p n (be_sequences b)\<rparr>))"

definition validate_date_range :: "time option \<Rightarrow> time option \<Rightarrow> unit be_result" where
  "validate_date_range start due =
     (case (start, due) of
        (Some s, Some d) \<Rightarrow>
          if d < s
          then Inl (BValidation (''due_date ('' @ show_int d @ '') cannot be before start_date (''
                     @ show_int s @ '')''))
          else Inr ()
      | _ \<Rightarrow> Inr ())"

text \<open>The keys the table enforces; a row may name itself as its parent.\<close>

definition insert_item :: "backend \<Rightarrow> string \<Rightarrow> item \<Rightarrow> backend be_result" where
  "insert_item b k r =
     (if known_item b k then Inl (BDuplicate k)
      else if it_project r \<notin> fst ` set (be_projects b) \<or> it_state r \<notin> fst ` set (be_states b)
            \<or> (case it_parent r of None \<Rightarrow> False | Some p \<Rightarrow> p \<noteq> k \<and> \<not> known_item b p)
      then Inl (BDatabase ''FOREIGN KEY'')
      else Inr (b\<lparr>be_items := be_items b @ [(k, r)]\<rparr>))"

definition item_create :: "backend \<Rightarrow> string \<Rightarrow> time \<Rightarrow> new_item \<Rightarrow> (item \<times> backend) be_result" where
  "item_create b new_id ts c =
     bind_ok (wstate_get b (ci_state c)) (\<lambda>st.
     if ws_project st \<noteq> ci_project c
     then Inl (BInvalidTransition (''state '' @ ci_state c
                @ '' belongs to a different project than project '' @ ci_project c))
     else bind_ok (validate_date_range (ci_start_date c) (ci_due_date c)) (\<lambda>_.
     bind_ok (next_sequence_id b (ci_project c)) (\<lambda>(sq, b1).
     bind_ok (insert_item b1 new_id
       \<lparr>it_project = ci_project c, it_state = ci_state c, it_name = ci_name c,
        it_description = case_option [] (\<lambda>x. x) (ci_description c),
        it_priority = case_option ''none'' (\<lambda>x. x) (ci_priority c),
        it_parent = ci_parent c, it_assignee = map_option agent_canonicalize (ci_assignee c),
        it_sequence = sq, it_sort_order = case_option (f_of_nat 65535) (\<lambda>x. x) (ci_sort_order c),
        it_started = None, it_completed = None, it_archived = None,
        it_source = ci_source c, it_external = ci_external c,
        it_metadata = case_option ''{}'' (\<lambda>x. x) (ci_metadata c),
        it_created = ts, it_updated = ts, it_deleted = None,
        it_start_date = ci_start_date c, it_due_date = ci_due_date c\<rparr>) (\<lambda>b2.
     bind_ok (fold_ok (\<lambda>b l. add_label b new_id l) (ci_labels c) b2) (\<lambda>b3.
     bind_ok (fold_ok (\<lambda>b a. add_assignee b new_id a) (ci_assignees c) b3) (\<lambda>b4.
     bind_ok (fold_ok (\<lambda>b d. add_dependency b new_id d) (ci_dependencies c) b4) (\<lambda>b5.
     bind_ok (item_get b5 new_id) (\<lambda>it. Inr (it, b5)))))))))"

section \<open>Reading\<close>

definition strip_hash :: "string \<Rightarrow> string" where
  "strip_hash s = (case strip_prefix ''#'' s of None \<Rightarrow> s | Some r \<Rightarrow> r)"

definition resolve_item_id :: "backend \<Rightarrow> string option \<Rightarrow> string \<Rightarrow> string be_result" where
  "resolve_item_id b p id_or_seq =
     (case parse_i64 (strip_hash id_or_seq) of
        None \<Rightarrow> Inr id_or_seq
      | Some sq \<Rightarrow>
          (case find (\<lambda>(k, r). it_sequence r = sq \<and> it_deleted r = None
                        \<and> (case p of None \<Rightarrow> True | Some q \<Rightarrow> it_project r = q)) (be_items b) of
             None \<Rightarrow> Inl (BNotFound (''sequence_id #'' @ show_int sq))
           | Some (k, _) \<Rightarrow> Inr k))"

definition items_of_project :: "backend \<Rightarrow> string \<Rightarrow> (string \<times> item) list" where
  "items_of_project b p =
     order_by (\<lambda>(k, r). it_sort_order r)
       (filter (\<lambda>(k, r). it_project r = p \<and> it_deleted r = None) (be_items b))"

definition items_page ::
  "backend \<Rightarrow> string \<Rightarrow> int \<Rightarrow> int \<Rightarrow> ((string \<times> item) list \<times> int) be_result" where
  "items_page b p limit offset =
     (if limit < 0 \<or> offset < 0 then Inl (BValidation ''limit and offset must be non-negative'')
      else let all = items_of_project b p
           in Inr (take (nat limit) (drop (nat offset) all), int (length all)))"

text \<open>The group of an item's state, looked up by the id alone as a join does.\<close>

definition state_group :: "backend \<Rightarrow> item \<Rightarrow> string option" where
  "state_group b it = map_option ws_group (map_of (be_states b) (it_state it))"

definition is_open_item :: "backend \<Rightarrow> item \<Rightarrow> bool" where
  "is_open_item b it =
     (case state_group b it of None \<Rightarrow> False | Some g \<Rightarrow> g \<noteq> ''completed'' \<and> g \<noteq> ''cancelled'')"

definition items_by_label :: "backend \<Rightarrow> string \<Rightarrow> string \<Rightarrow> (string \<times> item) list" where
  "items_by_label b p l =
     order_by (\<lambda>(k, r). it_sort_order r)
       (filter (\<lambda>(k, r). (k, l) \<in> set (be_item_labels b) \<and> it_project r = p \<and> it_deleted r = None
                  \<and> is_open_item b r) (be_items b))"

definition items_by_assignee :: "backend \<Rightarrow> string \<Rightarrow> string \<Rightarrow> (string \<times> item) list" where
  "items_by_assignee b p a =
     order_by (\<lambda>(k, r). it_sort_order r)
       (filter (\<lambda>(k, r). it_project r = p \<and> it_assignee r = Some a \<and> it_deleted r = None
                  \<and> is_open_item b r) (be_items b))"

section \<open>Changing\<close>

text \<open>\<open>ui_parent\<close> is three-valued: leave, detach, re-parent.\<close>

record update_item =
  ui_name :: "string option"
  ui_description :: "string option"
  ui_priority :: "string option"
  ui_state :: "string option"
  ui_assignee :: "string option"
  ui_sort_order :: "f64 option"
  ui_metadata :: "string option"
  ui_parent :: "string option option"
  ui_start_date :: "time option"
  ui_due_date :: "time option"

definition no_update :: update_item where
  "no_update = \<lparr>ui_name = None, ui_description = None, ui_priority = None, ui_state = None,
     ui_assignee = None, ui_sort_order = None, ui_metadata = None, ui_parent = None,
     ui_start_date = None, ui_due_date = None\<rparr>"

definition parent_of :: "backend \<Rightarrow> string \<Rightarrow> string option" where
  "parent_of b k = Option.bind (map_of (be_items b) k) it_parent"

definition dash_utf8 :: string where
  "dash_utf8 = [CHR 0xE2, CHR 0x80, CHR 0x94]"

text \<open>The walk up the ancestors, bounded so that a cycle already in the data is an error.\<close>

fun ancestor_walk :: "backend \<Rightarrow> string \<Rightarrow> string \<Rightarrow> nat \<Rightarrow> string option \<Rightarrow> unit be_result" where
  "ancestor_walk b k p 0 cursor =
     Inl (BValidation (''parent chain above '' @ p @ '' is deeper than 256 items or already cyclic''))"
| "ancestor_walk b k p (Suc n) None = Inr ()"
| "ancestor_walk b k p (Suc n) (Some cur) =
     (if cur = k
      then Inl (BValidation (''item '' @ p @ '' is a descendant of '' @ k @ '' '' @ dash_utf8
                  @ '' re-parenting would create a cycle''))
      else ancestor_walk b k p n (parent_of b cur))"

definition validate_parent :: "backend \<Rightarrow> string \<Rightarrow> string \<Rightarrow> unit be_result" where
  "validate_parent b k p =
     (if p = k then Inl (BValidation (''item '' @ k @ '' cannot be its own parent''))
      else bind_ok (item_get b p) (\<lambda>_. ancestor_walk b k p 256 (parent_of b p)))"

definition or_else :: "'a option \<Rightarrow> 'a option \<Rightarrow> 'a option" where
  "or_else x y = (case x of None \<Rightarrow> y | Some _ \<Rightarrow> x)"

definition check_update :: "backend \<Rightarrow> string \<Rightarrow> update_item \<Rightarrow> unit be_result" where
  "check_update b k u =
     bind_ok (case ui_parent u of Some (Some p) \<Rightarrow> validate_parent b k p | _ \<Rightarrow> Inr ()) (\<lambda>_.
       if ui_start_date u \<noteq> None \<or> ui_due_date u \<noteq> None
       then bind_ok (item_get b k) (\<lambda>cur.
              validate_date_range (or_else (ui_start_date u) (it_start_date cur))
                (or_else (ui_due_date u) (it_due_date cur)))
       else Inr ())"

definition set_col :: "'a option \<Rightarrow> 'a \<Rightarrow> 'a" where
  "set_col x old = (case x of None \<Rightarrow> old | Some v \<Rightarrow> v)"

definition updated_item :: "be_env \<Rightarrow> time \<Rightarrow> update_item \<Rightarrow> item \<Rightarrow> item" where
  "updated_item E ts u cur =
     cur\<lparr>it_name := set_col (ui_name u) (it_name cur),
         it_description := set_col (ui_description u) (it_description cur),
         it_priority := set_col (ui_priority u) (it_priority cur),
         it_state := set_col (ui_state u) (it_state cur),
         it_assignee := or_else (map_option agent_canonicalize (ui_assignee u)) (it_assignee cur),
         it_sort_order := set_col (ui_sort_order u) (it_sort_order cur),
         it_metadata := (case ui_metadata u of None \<Rightarrow> it_metadata cur
                         | Some m \<Rightarrow> preserve_plan_approval E m (it_metadata cur)),
         it_parent := set_col (ui_parent u) (it_parent cur),
         it_start_date := or_else (ui_start_date u) (it_start_date cur),
         it_due_date := or_else (ui_due_date u) (it_due_date cur),
         it_updated := ts\<rparr>"

text \<open>
  The statement and the entry in the assignment log. A state that does not exist breaks the foreign
  key; the parent exists, it was checked.
\<close>

definition write_update ::
  "be_env \<Rightarrow> backend \<Rightarrow> string \<Rightarrow> time \<Rightarrow> update_item \<Rightarrow> (item \<times> backend) be_result" where
  "write_update E b k ts u =
     bind_ok (item_get b k) (\<lambda>cur.
       let row = updated_item E ts u cur;
           b1 = b\<lparr>be_items := AList.update k row (be_items b)\<rparr>;
           b2 = (case map_option agent_canonicalize (ui_assignee u) of
                   None \<Rightarrow> b1
                 | Some new \<Rightarrow>
                     if it_assignee cur \<noteq> Some new
                     then b1\<lparr>be_assign_log := be_assign_log b1 @ [(k, it_assignee cur, new, ts)]\<rparr>
                     else b1)
       in if it_state row \<notin> fst ` set (be_states b) then Inl (BDatabase ''FOREIGN KEY'')
          else Inr (row, b2))"

definition item_update ::
  "be_env \<Rightarrow> backend \<Rightarrow> string \<Rightarrow> time \<Rightarrow> update_item \<Rightarrow> (item \<times> backend) be_result" where
  "item_update E b k ts u = bind_ok (check_update b k u) (\<lambda>_. write_update E b k ts u)"

definition put_item :: "backend \<Rightarrow> string \<Rightarrow> item \<Rightarrow> backend" where
  "put_item b k row = b\<lparr>be_items := AList.update k row (be_items b)\<rparr>"

definition item_update_state ::
  "backend \<Rightarrow> string \<Rightarrow> string \<Rightarrow> time \<Rightarrow> (item \<times> backend) be_result" where
  "item_update_state b k st ts =
     bind_ok (item_get b k) (\<lambda>it.
     bind_ok (wstate_get b st) (\<lambda>s.
       if ws_project s \<noteq> it_project it
       then Inl (BInvalidTransition (''state '' @ st @ '' belongs to a different project than item '' @ k))
       else
         let row = it\<lparr>it_state := st, it_updated := ts,
                      it_started := (if ws_group s = ''started'' then Some ts else it_started it),
                      it_completed := (if ws_group s = ''completed'' then Some ts else it_completed it)\<rparr>
         in Inr (row, put_item b k row)))"

definition item_delete :: "backend \<Rightarrow> string \<Rightarrow> time \<Rightarrow> backend be_result" where
  "item_delete b k ts =
     bind_ok (item_get b k) (\<lambda>it. Inr (put_item b k (it\<lparr>it_deleted := Some ts, it_updated := ts\<rparr>)))"

definition clear_item_start_date :: "backend \<Rightarrow> string \<Rightarrow> time \<Rightarrow> (item \<times> backend) be_result" where
  "clear_item_start_date b k ts =
     bind_ok (item_get b k) (\<lambda>it.
       let row = it\<lparr>it_start_date := None, it_updated := ts\<rparr> in Inr (row, put_item b k row))"

definition clear_item_due_date :: "backend \<Rightarrow> string \<Rightarrow> time \<Rightarrow> (item \<times> backend) be_result" where
  "clear_item_due_date b k ts =
     bind_ok (item_get b k) (\<lambda>it.
       let row = it\<lparr>it_due_date := None, it_updated := ts\<rparr> in Inr (row, put_item b k row))"

text \<open>\<^verbatim>\<open>merge_item_metadata\<close> of \<^verbatim>\<open>src/mcp_server.rs\<close>: read, edit one object, write, in one transaction.\<close>

definition meta_object :: "be_env \<Rightarrow> string \<Rightarrow> (string \<times> json) list" where
  "meta_object E meta = (case en_parse E meta of Some (JObj ob) \<Rightarrow> ob | _ \<Rightarrow> [])"

definition merge_item_metadata ::
  "be_env \<Rightarrow> backend \<Rightarrow> string \<Rightarrow> time \<Rightarrow> ((string \<times> json) list \<Rightarrow> (string \<times> json) list)
     \<Rightarrow> (item \<times> backend) be_result" where
  "merge_item_metadata E b k ts f =
     bind_ok (item_get b k) (\<lambda>cur.
       item_update E b k ts
         (no_update\<lparr>ui_metadata := Some (en_print E (JObj (f (meta_object E (it_metadata cur)))))\<rparr>))"

end
