(* ===== verification/Item_Claim.thy ===== *)
theory Item_Claim
  imports Item_Crud
begin

text \<open>
  Claiming, finishing and re-arming work items: \<^verbatim>\<open>crates/agentflare-backend/src/item/claim.rs\<close>.
  Each operation is one write transaction over the item tables and the claim ledger; an early
  return leaves the tables as they were. \<open>now\<close> is the time the caller passes, \<open>ts\<close> the clock the
  row updates read.
\<close>

section \<open>Outcomes\<close>

datatype claim_outcome =
    CoAcquired
  | CoHeld string int
  | CoBlockedByAssignee string
  | CoBlockedByPlan string
  | CoBlockedByState string

datatype pr_retention = PrKeep | PrClear

datatype redispatch_outcome = RdReady string | RdNoAssignee

definition needs_plan_label :: string where
  "needs_plan_label = ''needs-plan''"

definition ready_label :: string where
  "ready_label = ''ready-for-work''"

definition redispatch_cleared_labels :: "string list" where
  "redispatch_cleared_labels = [''dispatched'', ''needs-manual-dispatch'']"

definition pr_derived_metadata_keys :: "string list" where
  "pr_derived_metadata_keys = [''pr'', ''review_threads'', ''coderabbit_repair_announced_for'']"

definition without_metadata_keys :: "be_env \<Rightarrow> string \<Rightarrow> string list \<Rightarrow> string option" where
  "without_metadata_keys E meta keys =
     (case en_parse E meta of
        Some (JObj ob) \<Rightarrow>
          if list_ex (\<lambda>k. map_of ob k \<noteq> None) keys
          then Some (en_print E (JObj (foldl (\<lambda>ob k. swap_remove k ob) ob keys))) else None
      | _ \<Rightarrow> None)"

definition metadata_pr_number :: "be_env \<Rightarrow> string \<Rightarrow> nat option" where
  "metadata_pr_number E meta =
     Option.bind (en_parse E meta) (\<lambda>v.
     Option.bind (json_key ''pr'' v) (\<lambda>pr.
     Option.bind (json_key ''number'' pr) json_u64))"

text \<open>An operation of the claim ledger inside the transaction.\<close>

definition with_ledger :: "backend \<Rightarrow> claim_db \<times> (claim_error + 'a) \<Rightarrow> ('a \<times> backend) be_result" where
  "with_ledger b r =
     (case snd r of
        Inl _ \<Rightarrow> Inl (BDatabase ''item_claims'')
      | Inr a \<Rightarrow> Inr (a, b\<lparr>be_claims := fst r\<rparr>))"

definition item_owner_now :: "be_env \<Rightarrow> backend \<Rightarrow> string \<Rightarrow> time \<Rightarrow> string option" where
  "item_owner_now E b k now = current_owner (en_ttl_var E) (be_claims b) k now"

text \<open>The group as \<open>get\<close> and \<open>state::get\<close> see it: no deleted item, no deleted state.\<close>

definition live_group :: "backend \<Rightarrow> string \<Rightarrow> string option" where
  "live_group b k =
     (case item_get b k of
        Inl _ \<Rightarrow> None
      | Inr it \<Rightarrow> (case wstate_get b (it_state it) of Inl _ \<Rightarrow> None | Inr s \<Rightarrow> Some (ws_group s)))"

definition item_effective_ttl :: "be_env \<Rightarrow> backend \<Rightarrow> string \<Rightarrow> int \<Rightarrow> int" where
  "item_effective_ttl E b k requested = effective_ttl_secs (en_ttl_var E) (live_group b k) requested"

definition is_terminal_group :: "string \<Rightarrow> bool" where
  "is_terminal_group g \<longleftrightarrow> g = ''completed'' \<or> g = ''cancelled''"

definition in_finalizable_state :: "backend \<Rightarrow> item \<Rightarrow> bool be_result" where
  "in_finalizable_state b it =
     bind_ok (wstate_get b (it_state it)) (\<lambda>s. Inr (ws_group s \<in> {''started'', ''in_review''}))"

section \<open>Claiming\<close>

definition planning_refusal :: "be_env \<Rightarrow> backend \<Rightarrow> string \<Rightarrow> item \<Rightarrow> string option be_result" where
  "planning_refusal E b k it =
     (let gate = read_plan_gate E (it_metadata it);
          labelled = (case label_by_name b (it_project it) needs_plan_label of
              Inr (l, _) \<Rightarrow>
                Inr (if l \<in> set (list_labels b k) then None else Some ''no_needs_plan_label'')
            | Inl (BNotFound _) \<Rightarrow> Inr (Some ''no_needs_plan_label'')
            | Inl e \<Rightarrow> Inl e)
      in if \<not> pg_required gate then Inr (Some ''not_required'')
         else case pg_status gate of
                None \<Rightarrow> labelled
              | Some st \<Rightarrow> if st = ''rejected'' then labelled else Inr (Some st))"

definition gate_refusal ::
  "be_env \<Rightarrow> backend \<Rightarrow> string \<Rightarrow> item \<Rightarrow> bool \<Rightarrow> string option be_result" where
  "gate_refusal E b k it planning =
     (if planning then planning_refusal E b k it
      else case plan_gate_status E (it_metadata it) of
             GateOpen \<Rightarrow> Inr None
           | GateBlocked st \<Rightarrow> Inr (Some st))"

definition assigned_elsewhere ::
  "be_env \<Rightarrow> backend \<Rightarrow> string \<Rightarrow> item \<Rightarrow> string \<Rightarrow> time \<Rightarrow> string option" where
  "assigned_elsewhere E b k it owner now =
     (case it_assignee it of
        None \<Rightarrow> None
      | Some a \<Rightarrow>
          if agent_part a \<noteq> agent_part owner \<and> item_owner_now E b k now = None then Some a else None)"

definition claim_inner ::
  "be_env \<Rightarrow> backend \<Rightarrow> string \<Rightarrow> string \<Rightarrow> time \<Rightarrow> int \<Rightarrow> time \<Rightarrow> bool
     \<Rightarrow> (claim_outcome \<times> backend) be_result" where
  "claim_inner E b k owner now ttl ts planning =
     bind_ok (item_get b k) (\<lambda>it.
     bind_ok (wstate_get b (it_state it)) (\<lambda>s.
     if ws_group s = needs_input_group then Inr (CoBlockedByState (ws_group s), b)
     else bind_ok (gate_refusal E b k it planning) (\<lambda>refusal.
       case refusal of
         Some st \<Rightarrow> Inr (CoBlockedByPlan st, b)
       | None \<Rightarrow>
         (case (if is_terminal_group (ws_group s) then None
                else assigned_elsewhere E b k it owner now) of
            Some a \<Rightarrow> Inr (CoBlockedByAssignee a, b)
          | None \<Rightarrow>
            bind_ok (with_ledger b
                (item_acquire (be_claims b) k owner now (item_effective_ttl E b k ttl))) (\<lambda>(r, b1).
              case r of
                Held w age \<Rightarrow> Inr (CoHeld w age, b1)
              | Acquired \<Rightarrow>
                  bind_ok (first_state_in_group b1 (it_project it) ''started'') (\<lambda>(st, _).
                  bind_ok (item_update_state b1 k st ts) (\<lambda>(_, b2).
                  bind_ok (item_update E b2 k ts (no_update\<lparr>ui_assignee := Some owner\<rparr>)) (\<lambda>(_, b3).
                    Inr (CoAcquired, b3)))))))))"

definition item_claim ::
  "be_env \<Rightarrow> backend \<Rightarrow> string \<Rightarrow> string \<Rightarrow> time \<Rightarrow> int \<Rightarrow> time \<Rightarrow> (claim_outcome \<times> backend) be_result" where
  "item_claim E b k owner now ttl ts = claim_inner E b k owner now ttl ts False"

definition claim_for_planning ::
  "be_env \<Rightarrow> backend \<Rightarrow> string \<Rightarrow> string \<Rightarrow> time \<Rightarrow> int \<Rightarrow> time \<Rightarrow> (claim_outcome \<times> backend) be_result" where
  "claim_for_planning E b k owner now ttl ts = claim_inner E b k owner now ttl ts True"

definition release_claim ::
  "be_env \<Rightarrow> backend \<Rightarrow> string \<Rightarrow> string \<Rightarrow> time \<Rightarrow> (bool \<times> backend) be_result" where
  "release_claim E b k owner ts =
     bind_ok (with_ledger b (item_release (be_claims b) k owner)) (\<lambda>(released, b1).
       let reassigned = (case item_get b1 k of
               Inl _ \<Rightarrow> False
             | Inr it \<Rightarrow> (case it_assignee it of
                             None \<Rightarrow> False
                           | Some a \<Rightarrow> agent_part a \<noteq> agent_part owner))
       in if released \<and> \<not> reassigned
          then (case item_get b1 k of
                  Inl _ \<Rightarrow> Inr (released, b1)
                | Inr it \<Rightarrow> Inr (released, put_item b1 k (it\<lparr>it_assignee := None, it_updated := ts\<rparr>)))
          else Inr (released, b1))"

definition steal_abandoned_claim ::
  "be_env \<Rightarrow> backend \<Rightarrow> string \<Rightarrow> string \<Rightarrow> time \<Rightarrow> int \<Rightarrow> (acquire_result \<times> backend) be_result" where
  "steal_abandoned_claim E b k owner now ttl_secs =
     (let ttl = item_effective_ttl E b k ttl_secs in
      bind_ok (with_ledger b (acquire_if_stale_only (be_claims b) k owner now ttl)) (\<lambda>(r, b1).
        case r of
          Some outcome \<Rightarrow> Inr (outcome, b1)
        | None \<Rightarrow>
            (case (case item_get b1 k of Inl _ \<Rightarrow> None | Inr it \<Rightarrow> it_assignee it) of
               Some a \<Rightarrow>
                 if agent_part a \<noteq> agent_part owner then Inr (Held a 0, b1)
                 else with_ledger b1 (item_acquire (be_claims b1) k owner now ttl)
             | None \<Rightarrow> with_ledger b1 (item_acquire (be_claims b1) k owner now ttl))))"

section \<open>Finishing\<close>

definition complete_if ::
  "be_env \<Rightarrow> backend \<Rightarrow> string \<Rightarrow> string \<Rightarrow> nat option option \<Rightarrow> (string \<Rightarrow> bool) \<Rightarrow> time
     \<Rightarrow> (bool \<times> backend) be_result" where
  "complete_if E b k owner expected_pr allowed_from ts =
     bind_ok (with_ledger b (be_claims b, item_is_owner (be_claims b) k owner)) (\<lambda>(mine, _).
     if \<not> mine then Inr (False, b)
     else bind_ok (item_get b k) (\<lambda>it.
     bind_ok (wstate_get b (it_state it)) (\<lambda>s.
     if \<not> allowed_from (ws_group s) then Inr (False, b)
     else if (case expected_pr of None \<Rightarrow> False
                | Some pr \<Rightarrow> metadata_pr_number E (it_metadata it) \<noteq> pr)
     then Inr (False, b)
     else bind_ok (first_state_in_group b (it_project it) ''completed'') (\<lambda>(st, _).
          bind_ok (item_update_state b k st ts) (\<lambda>(_, b1). Inr (True, b1))))))"

definition mark_completed ::
  "be_env \<Rightarrow> backend \<Rightarrow> string \<Rightarrow> string \<Rightarrow> time \<Rightarrow> (bool \<times> backend) be_result" where
  "mark_completed E b k owner ts =
     complete_if E b k owner None (\<lambda>g. g = ''started'' \<or> g = ''in_review'') ts"

definition forced_allowed_from :: "string \<Rightarrow> bool" where
  "forced_allowed_from g \<longleftrightarrow> \<not> is_terminal_group g"

definition mark_completed_forced ::
  "be_env \<Rightarrow> backend \<Rightarrow> string \<Rightarrow> string \<Rightarrow> time \<Rightarrow> (bool \<times> backend) be_result" where
  "mark_completed_forced E b k owner ts = complete_if E b k owner None forced_allowed_from ts"

definition mark_completed_forced_if_pr ::
  "be_env \<Rightarrow> backend \<Rightarrow> string \<Rightarrow> string \<Rightarrow> nat option \<Rightarrow> time \<Rightarrow> (bool \<times> backend) be_result" where
  "mark_completed_forced_if_pr E b k owner pr ts =
     complete_if E b k owner (Some pr) forced_allowed_from ts"

definition mark_in_review ::
  "be_env \<Rightarrow> backend \<Rightarrow> string \<Rightarrow> string \<Rightarrow> string \<Rightarrow> time \<Rightarrow> (bool \<times> backend) be_result" where
  "mark_in_review E b k owner new_id ts =
     bind_ok (with_ledger b (be_claims b, item_is_owner (be_claims b) k owner)) (\<lambda>(mine, _).
     if \<not> mine then Inr (False, b)
     else bind_ok (item_get b k) (\<lambda>it.
     bind_ok (in_finalizable_state b it) (\<lambda>ok.
     if \<not> ok then Inr (False, b)
     else bind_ok (case first_state_in_group b (it_project it) ''in_review'' of
                     Inr (st, _) \<Rightarrow> Inr (st, b)
                   | Inl (BNotFound _) \<Rightarrow>
                       bind_ok (wstate_create b new_id (it_project it) ''In Review'' ''in_review''
                         (f_of_nat 40000) None (Some ''#818CF8'') ts) (\<lambda>((st, _), b'). Inr (st, b'))
                   | Inl e \<Rightarrow> Inl e) (\<lambda>(st, b1).
          bind_ok (item_update_state b1 k st ts) (\<lambda>(_, b2). Inr (True, b2))))))"

definition promote_in_review ::
  "be_env \<Rightarrow> backend \<Rightarrow> string \<Rightarrow> nat option option \<Rightarrow> time \<Rightarrow> (bool \<times> backend) be_result" where
  "promote_in_review E b k expected_pr ts =
     bind_ok (item_get b k) (\<lambda>it.
     bind_ok (wstate_get b (it_state it)) (\<lambda>s.
     if ws_group s \<noteq> ''in_review'' \<and> \<not> (expected_pr \<noteq> None \<and> ws_group s = ''started'')
     then Inr (False, b)
     else if (case expected_pr of None \<Rightarrow> False
                | Some pr \<Rightarrow> metadata_pr_number E (it_metadata it) \<noteq> pr)
     then Inr (False, b)
     else bind_ok (first_state_in_group b (it_project it) ''completed'') (\<lambda>(st, _).
          bind_ok (item_update_state b k st ts) (\<lambda>(_, b1).
            case item_owner_now E b1 k ts of
              None \<Rightarrow> Inr (True, b1)
            | Some w \<Rightarrow>
                bind_ok (with_ledger b1 (item_done (be_claims b1) k w ts)) (\<lambda>(_, b2). Inr (True, b2))))))"

definition promote_in_review_to_completed ::
  "be_env \<Rightarrow> backend \<Rightarrow> string \<Rightarrow> time \<Rightarrow> (bool \<times> backend) be_result" where
  "promote_in_review_to_completed E b k ts = promote_in_review E b k None ts"

definition promote_in_review_to_completed_if_pr ::
  "be_env \<Rightarrow> backend \<Rightarrow> string \<Rightarrow> nat option \<Rightarrow> time \<Rightarrow> (bool \<times> backend) be_result" where
  "promote_in_review_to_completed_if_pr E b k pr ts = promote_in_review E b k (Some pr) ts"

section \<open>Re-arming\<close>

text \<open>A pinned model belongs to the agent that leaves; the state of a pull request goes with it.\<close>

definition cleared_keys :: "bool \<Rightarrow> bool \<Rightarrow> string list" where
  "cleared_keys agent_changed keep_pr =
     (if agent_changed then [''model''] else []) @ (if \<not> keep_pr then pr_derived_metadata_keys else [])"

text \<open>
  \<open>b0\<close> are the tables at the first read, before the caller asks GitHub about the pull request;
  other writers may have changed them into \<open>b\<close> when the transaction opens.
\<close>

definition redispatch ::
  "be_env \<Rightarrow> backend \<Rightarrow> backend \<Rightarrow> string \<Rightarrow> string option \<Rightarrow> (nat \<Rightarrow> pr_retention) \<Rightarrow> string \<Rightarrow> time
     \<Rightarrow> (redispatch_outcome \<times> backend) be_result" where
  "redispatch E b0 b k assignee pr_retention new_id ts =
     bind_ok (item_get b0 k) (\<lambda>it0.
     let checked_pr = metadata_pr_number E (it_metadata it0);
         retention = map_option pr_retention checked_pr in
     bind_ok (item_get b k) (\<lambda>it.
     bind_ok (wstate_get b (it_state it)) (\<lambda>s.
     if is_terminal_group (ws_group s)
     then Inl (BValidation (''item '' @ k @ '' is '' @ ws_group s @ '', not redispatchable''))
     else case map_option agent_part (or_else assignee (it_assignee it)) of
       None \<Rightarrow> Inr (RdNoAssignee, b)
     | Some agent \<Rightarrow>
       bind_ok (ensure_project_label b new_id (it_project it) ready_label ts) (\<lambda>((ready, _), b1).
       let labels = labels_of_project b1 (it_project it);
           agent_changed = (map_option agent_part (it_assignee it) \<noteq> Some agent);
           keep_pr = (retention = Some PrKeep \<or> metadata_pr_number E (it_metadata it) \<noteq> checked_pr);
           metadata = without_metadata_keys E (it_metadata it) (cleared_keys agent_changed keep_pr) in
       bind_ok (first_state_in_group b1 (it_project it) ''backlog'') (\<lambda>(st, _).
       bind_ok (item_update_state b1 k st ts) (\<lambda>(_, b2).
       bind_ok (item_update E b2 k ts (no_update\<lparr>ui_assignee := Some agent, ui_metadata := metadata\<rparr>))
         (\<lambda>(_, b3).
       let b4 = foldl (\<lambda>b (l, r). if wl_name r \<in> set redispatch_cleared_labels
                                   then remove_label b k l else b) b3 labels in
       bind_ok (add_label b4 k ready) (\<lambda>b5. Inr (RdReady agent, b5)))))))))"

end
