(* ===== verification/Item_Parents.thy ===== *)
theory Item_Parents
  imports Item_Claim
begin

text \<open>
  The parent column of the item table stays a forest, whatever sequence of operations runs, and the
  walk up the ancestors (\<^verbatim>\<open>find_goal_ancestor\<close> of \<^verbatim>\<open>src/quota/goal.rs\<close> and every other one)
  therefore ends. The operations other than creating and re-parenting do not touch the column.
\<close>

section \<open>The parent column\<close>

definition parents :: "backend \<Rightarrow> (string \<times> string option) list" where
  "parents b = map (\<lambda>(k, r). (k, it_parent r)) (be_items b)"

definition parent_rel :: "(string \<times> string option) list \<Rightarrow> (string \<times> string) set" where
  "parent_rel ps = {(c, p). map_of ps c = Some (Some p)}"

definition forest_ok :: "(string \<times> string option) list \<Rightarrow> bool" where
  "forest_ok ps \<longleftrightarrow>
     distinct (map fst ps) \<and> acyclic (parent_rel ps) \<and> Range (parent_rel ps) \<subseteq> fst ` set ps"

text \<open>What the invariant reads of the tables.\<close>

definition item_core :: "backend \<Rightarrow> (string \<times> string option) list \<times> (string \<times> string \<times> string) list" where
  "item_core b = (parents b, be_relations b)"

definition backend_ok :: "backend \<Rightarrow> bool" where
  "backend_ok b \<longleftrightarrow> forest_ok (parents b) \<and> relations_ok b"

lemma map_of_parents: "map_of (parents b) k = map_option it_parent (map_of (be_items b) k)"
  by (simp add: parents_def map_of_map)

lemma parent_of_parents: "parent_of b k = Option.bind (map_of (parents b) k) (\<lambda>x. x)"
  by (cases "map_of (be_items b) k") (simp_all add: parent_of_def map_of_parents)

lemma parent_rel_iff: "(c, p) \<in> parent_rel (parents b) \<longleftrightarrow> parent_of b c = Some p"
  by (cases "map_of (be_items b) c") (simp_all add: parent_rel_def parent_of_def map_of_parents)

lemma map_fst_parents: "map fst (parents b) = map fst (be_items b)"
  by (simp add: parents_def split_def)

lemma known_item_parents: "known_item b k \<longleftrightarrow> k \<in> fst ` set (parents b)"
  by (simp only: known_item_def set_map [symmetric] map_fst_parents)

lemma relations_ok_core: "item_core b' = item_core b \<Longrightarrow> relations_ok b' = relations_ok b"
proof -
  assume c: "item_core b' = item_core b"
  then have p: "parents b' = parents b" "be_relations b' = be_relations b" by (simp_all add: item_core_def)
  have "relation_row_ok b' r = relation_row_ok b r" for r
    by (cases r) (simp add: known_item_parents p)
  then have "relation_row_ok b' = relation_row_ok b" by (rule ext)
  with p show ?thesis by (simp add: relations_ok_def)
qed

lemma backend_ok_core: "item_core b' = item_core b \<Longrightarrow> backend_ok b' = backend_ok b"
  using relations_ok_core [of b' b] by (auto simp: backend_ok_def item_core_def)

section \<open>Operations that leave the column alone\<close>

lemma map_update_same:
  "map_of xs k = Some old \<Longrightarrow> g new = g old \<Longrightarrow>
     map (\<lambda>(k, r). (k, g r)) (AList.update k new xs) = map (\<lambda>(k, r). (k, g r)) xs"
  by (induction xs) (auto split: if_splits)

lemma core_simps [simp]:
  "item_core (b\<lparr>be_claims := c\<rparr>) = item_core b" "item_core (b\<lparr>be_states := s\<rparr>) = item_core b"
  "item_core (b\<lparr>be_labels := l\<rparr>) = item_core b" "item_core (b\<lparr>be_projects := p\<rparr>) = item_core b"
  "item_core (b\<lparr>be_sequences := q\<rparr>) = item_core b" "item_core (b\<lparr>be_item_labels := il\<rparr>) = item_core b"
  "item_core (b\<lparr>be_item_assignees := ia\<rparr>) = item_core b" "item_core (b\<lparr>be_assign_log := lg\<rparr>) = item_core b"
  "item_core (b\<lparr>be_vents := v\<rparr>) = item_core b" "item_core (b\<lparr>be_comments := cs\<rparr>) = item_core b" "item_core (b\<lparr>be_asks := a\<rparr>) = item_core b"
  by (simp_all add: item_core_def parents_def)

lemma core_items:
  assumes "map_of (be_items b) k = Some old" "it_parent row = it_parent old"
  shows "item_core (b\<lparr>be_items := AList.update k row (be_items b)\<rparr>) = item_core b"
  using assms map_update_same [of "be_items b" k old it_parent row] by (simp add: item_core_def parents_def)

lemma core_put_item:
  "item_get b k = Inr old \<Longrightarrow> it_parent row = it_parent old \<Longrightarrow> item_core (put_item b k row) = item_core b"
  by (simp add: put_item_def item_get_Inr core_items)

lemma core_update_state: "item_update_state b k st ts = Inr (r, b') \<Longrightarrow> item_core b' = item_core b"
  by (auto simp: item_update_state_def bind_ok_Inr Let_def split: if_splits intro: core_put_item)

lemma core_delete: "item_delete b k ts = Inr b' \<Longrightarrow> item_core b' = item_core b"
  by (auto simp: item_delete_def bind_ok_Inr intro: core_put_item)

lemma core_clear_dates:
  "clear_item_start_date b k ts = Inr (r, b') \<Longrightarrow> item_core b' = item_core b"
  "clear_item_due_date b k ts = Inr (r, b') \<Longrightarrow> item_core b' = item_core b"
  by (auto simp: clear_item_start_date_def clear_item_due_date_def bind_ok_Inr Let_def
      intro: core_put_item)

lemma write_update_cases:
  assumes "write_update E b k ts u = Inr (r, b')"
  obtains cur lg where "item_get b k = Inr cur" "r = updated_item E ts u cur"
    "b' = b\<lparr>be_items := AList.update k r (be_items b), be_assign_log := lg\<rparr>"
    "it_state r \<in> fst ` set (be_states b)"
proof -
  from assms obtain cur where cur: "item_get b k = Inr cur"
    by (auto simp: write_update_def bind_ok_Inr)
  with assms have r: "r = updated_item E ts u cur" "it_state r \<in> fst ` set (be_states b)"
    by (auto simp: write_update_def Let_def split: if_splits)
  from assms cur r(1) have "\<exists>lg. b' = b\<lparr>be_items := AList.update k r (be_items b), be_assign_log := lg\<rparr>"
    by (auto simp: write_update_def Let_def split: if_splits option.splits
        intro: exI [of _ "be_assign_log b"])
  with cur r that show ?thesis by blast
qed

lemma core_update:
  assumes "item_update E b k ts u = Inr (r, b')" "ui_parent u = None"
  shows "item_core b' = item_core b"
proof -
  from assms(1) obtain cur lg where "item_get b k = Inr cur" "r = updated_item E ts u cur"
    and b': "b' = b\<lparr>be_items := AList.update k r (be_items b), be_assign_log := lg\<rparr>"
    by (auto simp: item_update_def bind_ok_Inr elim: write_update_cases)
  with assms(2) have "item_core (b\<lparr>be_items := AList.update k r (be_items b)\<rparr>) = item_core b"
    by (intro core_items) (auto simp: item_get_Inr updated_item_def set_col_def)
  then show ?thesis by (simp add: b')
qed

lemma with_ledger_Inr: "with_ledger b x = Inr (r, b') \<Longrightarrow> b' = b\<lparr>be_claims := fst x\<rparr>"
  by (auto simp: with_ledger_def split: sum.splits)

lemma core_with_ledger: "with_ledger b x = Inr (r, b') \<Longrightarrow> item_core b' = item_core b"
  by (auto dest: with_ledger_Inr)

lemma no_update_parent [simp]: "ui_parent no_update = None"
  by (simp add: no_update_def)

lemmas op_cases = if_split_asm option.split_asm sum.split_asm acquire_result.split_asm prod.split_asm
  be_error.split_asm

lemma core_claim: "claim_inner E b k owner now ttl ts pl = Inr (r, b') \<Longrightarrow> item_core b' = item_core b"
  unfolding claim_inner_def
  by (auto elim!: bind_ok_InrE split: op_cases dest!: core_with_ledger core_update_state core_update)

lemma core_release: "release_claim E b k owner ts = Inr (r, b') \<Longrightarrow> item_core b' = item_core b"
  unfolding release_claim_def Let_def
  by (auto elim!: bind_ok_InrE split: op_cases simp: core_put_item dest!: core_with_ledger)

lemma core_steal: "steal_abandoned_claim E b k owner now ttl = Inr (r, b') \<Longrightarrow> item_core b' = item_core b"
  unfolding steal_abandoned_claim_def Let_def
  by (auto elim!: bind_ok_InrE split: op_cases dest!: core_with_ledger)

lemma core_complete_if: "complete_if E b k owner pr al ts = Inr (r, b') \<Longrightarrow> item_core b' = item_core b"
  unfolding complete_if_def
  by (auto elim!: bind_ok_InrE split: op_cases dest!: core_update_state)

lemma core_wstate_create: "wstate_create b i p n g sq d c ts = Inr (r, b') \<Longrightarrow> item_core b' = item_core b"
  unfolding wstate_create_def insert_wstate_def Let_def
  by (auto elim!: bind_ok_InrE split: op_cases)

lemma core_mark_in_review: "mark_in_review E b k owner new_id ts = Inr (r, b') \<Longrightarrow> item_core b' = item_core b"
  unfolding mark_in_review_def
  by (auto elim!: bind_ok_InrE split: op_cases dest!: core_update_state core_wstate_create)

lemma core_promote: "promote_in_review E b k pr ts = Inr (r, b') \<Longrightarrow> item_core b' = item_core b"
  unfolding promote_in_review_def
  by (auto elim!: bind_ok_InrE split: op_cases dest!: core_with_ledger core_update_state)

lemma core_ensure_label: "ensure_project_label b i p n ts = Inr (r, b') \<Longrightarrow> item_core b' = item_core b"
  unfolding ensure_project_label_def Let_def
  by (auto elim!: bind_ok_InrE split: op_cases)

lemma core_add_label: "add_label b i l = Inr b' \<Longrightarrow> item_core b' = item_core b"
  unfolding add_label_def link_label_def
  by (auto elim!: bind_ok_InrE split: op_cases)

lemma core_remove_label [simp]: "item_core (remove_label b i l) = item_core b"
  by (simp add: remove_label_def)

lemma core_remove_labels [simp]:
  "item_core (foldl (\<lambda>b (l, r). if P r then remove_label b k l else b) b ls) = item_core b"
  by (induction ls arbitrary: b) auto

lemma core_redispatch: "redispatch E b0 b k a f new_id ts = Inr (r, b') \<Longrightarrow> item_core b' = item_core b"
  unfolding redispatch_def Let_def
  by (auto elim!: bind_ok_InrE split: op_cases
      dest!: core_add_label core_update core_update_state core_ensure_label)

section \<open>Re-parenting and creating\<close>

text \<open>The bounded walk succeeds only where the item is not above its own new parent.\<close>

lemma ancestor_walk_sound:
  assumes "ancestor_walk b k p n (Some c) = Inr ()"
  shows "(c, k) \<notin> (parent_rel (parents b))\<^sup>*"
  using assms
proof (induction n arbitrary: c)
  case 0
  then show ?case by simp
next
  case (Suc n)
  show ?case
  proof
    assume "(c, k) \<in> (parent_rel (parents b))\<^sup>*"
    moreover from Suc.prems have "c \<noteq> k" by (auto split: if_splits)
    ultimately obtain c' where c': "parent_of b c = Some c'" "(c', k) \<in> (parent_rel (parents b))\<^sup>*"
      by (metis converse_rtranclE parent_rel_iff)
    with Suc.prems \<open>c \<noteq> k\<close> have "ancestor_walk b k p n (Some c') = Inr ()" by simp
    with Suc.IH c'(2) show False by blast
  qed
qed

lemma validate_parent_sound:
  assumes "validate_parent b k p = Inr ()"
  shows "known_item b p" "(p, k) \<notin> (parent_rel (parents b))\<^sup>*"
proof -
  from assms obtain it where it: "item_get b p = Inr it" "p \<noteq> k"
      "ancestor_walk b k p 256 (parent_of b p) = Inr ()"
    by (auto simp: validate_parent_def split: if_splits elim!: bind_ok_InrE)
  then show "known_item b p"
    by (auto simp: known_item_def item_get_Inr dest: map_of_Some_in_keys)
  show "(p, k) \<notin> (parent_rel (parents b))\<^sup>*"
  proof
    assume "(p, k) \<in> (parent_rel (parents b))\<^sup>*"
    with it(2) obtain c where "parent_of b p = Some c" "(c, k) \<in> (parent_rel (parents b))\<^sup>*"
      by (metis converse_rtranclE parent_rel_iff)
    with it(3) ancestor_walk_sound [of b k p 256 c] show False by simp
  qed
qed

lemma acyclic_subset_insert:
  "acyclic r \<Longrightarrow> (p, k) \<notin> r\<^sup>* \<Longrightarrow> s \<subseteq> insert (k, p) r \<Longrightarrow> acyclic s"
  by (metis acyclic_insert acyclic_subset)

lemma parent_rel_update:
  "parent_rel (AList.update k q ps) \<subseteq> parent_rel ps \<union> {(k, p) | p. q = Some p}"
  by (auto simp: parent_rel_def update_conv split: if_splits)

lemma parent_rel_snoc:
  "k \<notin> fst ` set ps \<Longrightarrow> parent_rel (ps @ [(k, q)]) \<subseteq> parent_rel ps \<union> {(k, p) | p. q = Some p}"
  by (auto simp: parent_rel_def map_add_def split: option.splits if_splits)

lemma forest_okI:
  assumes ok: "forest_ok ps" and d: "distinct (map fst ps')" and keys: "fst ` set ps \<subseteq> fst ` set ps'"
    and sub: "parent_rel ps' \<subseteq> parent_rel ps \<union> {(k, p) | p. q = Some p}"
    and new: "\<And>p. q = Some p \<Longrightarrow> p \<in> fst ` set ps' \<and> (p, k) \<notin> (parent_rel ps)\<^sup>*"
  shows "forest_ok ps'"
proof -
  from ok have ac: "acyclic (parent_rel ps)" and rg: "Range (parent_rel ps) \<subseteq> fst ` set ps"
    unfolding forest_ok_def by simp_all
  have "acyclic (parent_rel ps')"
  proof (cases q)
    case None
    with sub have "parent_rel ps' \<subseteq> parent_rel ps" by simp
    with ac show ?thesis by (rule acyclic_subset)
  next
    case (Some p)
    with sub have "parent_rel ps' \<subseteq> insert (k, p) (parent_rel ps)" by auto
    then show ?thesis by (rule acyclic_subset_insert [OF ac conjunct2 [OF new [OF Some]]])
  qed
  moreover have "Range (parent_rel ps') \<subseteq> fst ` set ps'"
  proof
    fix p
    assume "p \<in> Range (parent_rel ps')"
    then obtain c where "(c, p) \<in> parent_rel ps'" by (rule RangeE)
    with sub have "(c, p) \<in> parent_rel ps \<or> q = Some p" by auto
    then show "p \<in> fst ` set ps'"
    proof
      assume "(c, p) \<in> parent_rel ps"
      then have "p \<in> Range (parent_rel ps)" by (rule RangeI)
      with rg keys show ?thesis by (meson subsetD)
    next
      assume "q = Some p"
      with new show ?thesis by simp
    qed
  qed
  ultimately show ?thesis using d by (simp add: forest_ok_def)
qed

lemma map_update_map:
  "map (\<lambda>(k, r). (k, g r)) (AList.update k v xs) = AList.update k (g v) (map (\<lambda>(k, r). (k, g r)) xs)"
  by (induction xs) auto

lemma backend_ok_update:
  assumes ok: "backend_ok b" and up: "item_update E b k ts u = Inr (r, b')"
  shows "backend_ok b'"
proof -
  from up have ch: "check_update b k u = Inr ()" and w: "write_update E b k ts u = Inr (r, b')"
    by (auto simp: item_update_def elim: bind_ok_InrE)
  from w obtain cur lg where cur: "item_get b k = Inr cur" "r = updated_item E ts u cur"
    and b': "b' = b\<lparr>be_items := AList.update k r (be_items b), be_assign_log := lg\<rparr>"
    by (rule write_update_cases)
  have ps: "parents b' = AList.update k (it_parent r) (parents b)"
    by (simp add: b' parents_def map_update_map)
  have k: "k \<in> fst ` set (parents b)"
    using cur(1) map_of_Some_in_keys [of "be_items b" k cur]
    by (simp only: known_item_parents [symmetric] known_item_def item_get_Inr)
  have keys: "fst ` set (parents b') = fst ` set (parents b)"
    using k by (simp add: ps dom_map_of_conv_image_fst [symmetric] update_conv' insert_absorb)
  have rel: "relations_ok b'"
  proof -
    have "relation_row_ok b' r = relation_row_ok b r" for r
      by (cases r) (simp add: known_item_parents keys)
    then have "relation_row_ok b' = relation_row_ok b" by (rule ext)
    with ok show ?thesis by (simp add: backend_ok_def relations_ok_def b')
  qed
  have "forest_ok (parents b')"
  proof (cases "\<exists>p. ui_parent u = Some (Some p)")
    case True
    then obtain p where p: "ui_parent u = Some (Some p)" ..
    with ch have "validate_parent b k p = Inr ()" by (auto simp: check_update_def elim: bind_ok_InrE)
    note vp = validate_parent_sound [OF this]
    have q: "it_parent r = Some p" by (simp add: cur(2) updated_item_def set_col_def p)
    show ?thesis
      using ok parent_rel_update [of k "Some p" "parents b"] vp keys
      by (intro forest_okI [of "parents b" "parents b'" k "Some p"])
        (auto simp: ps q backend_ok_def forest_ok_def distinct_update known_item_parents)
  next
    case False
    then have "it_parent r = None \<or> it_parent r = it_parent cur"
      by (auto simp: cur(2) updated_item_def set_col_def split: option.split)
    then have "parent_rel (parents b') \<subseteq> parent_rel (parents b)"
      using cur(1) by (auto simp: ps parent_rel_def update_conv map_of_parents item_get_Inr split: if_splits)
    with ok keys show ?thesis
      by (intro forest_okI [of "parents b" "parents b'" k None])
        (auto simp: ps backend_ok_def forest_ok_def distinct_update)
  qed
  with rel show ?thesis by (simp add: backend_ok_def)
qed

lemma fold_ok_inv:
  assumes "fold_ok f xs s = Inr s'" "P s" "\<And>s x s'. P s \<Longrightarrow> f s x = Inr s' \<Longrightarrow> P s'"
  shows "P s'"
  using assms(1,2) by (induction xs arbitrary: s) (auto elim!: bind_ok_InrE intro: assms(3))

lemma parents_insert_relation: "insert_relation b x y ty = Inr b' \<Longrightarrow> parents b' = parents b"
  by (auto simp: insert_relation_def parents_def split: if_splits)

lemma core_add_assignee: "add_assignee b i a = Inr b' \<Longrightarrow> item_core b' = item_core b"
  by (auto simp: add_assignee_def split: if_splits)

lemma backend_ok_insert_relation:
  "backend_ok b \<Longrightarrow> insert_relation b x y ty = Inr b' \<Longrightarrow> ty \<noteq> ''blocks'' \<longrightarrow> x \<le> y \<Longrightarrow> backend_ok b'"
  by (auto simp: backend_ok_def dest: parents_insert_relation relations_ok_insert)

lemma backend_ok_add_relation:
  "backend_ok b \<Longrightarrow> add_relation b x y ty = Inr b' \<Longrightarrow> backend_ok b'"
  by (auto simp: add_relation_def add_dependency_def canonicalize_pair_def Let_def
      elim!: backend_ok_insert_relation split: if_splits)

lemma backend_ok_remove_relation: "backend_ok b \<Longrightarrow> backend_ok (remove_relation b x y ty)"
  using relations_ok_remove [of b x y ty]
  by (auto simp: backend_ok_def remove_relation_def remove_dependency_def delete_relation_def
      parents_def Let_def split: if_splits prod.splits)

lemma backend_ok_insert_item:
  assumes ok: "backend_ok b" and ins: "insert_item b k r = Inr b'" and "it_parent r \<noteq> Some k"
  shows "backend_ok b'"
proof -
  from ins have b': "b' = b\<lparr>be_items := be_items b @ [(k, r)]\<rparr>" and n: "\<not> known_item b k"
    and p: "\<And>p. it_parent r = Some p \<Longrightarrow> p = k \<or> known_item b p"
    by (auto simp: insert_item_def split: if_splits option.splits)
  have ps: "parents b' = parents b @ [(k, it_parent r)]" by (simp add: b' parents_def)
  have kn: "k \<notin> fst ` set (parents b)" using n by (simp add: known_item_parents)
  have "relation_row_ok b' x" if "relation_row_ok b x" for x
    using that by (cases x) (simp add: known_item_parents ps)
  with ok have rel: "relations_ok b'"
    by (simp add: backend_ok_def relations_ok_def b') (metis list.pred_mono_strong)
  have nr: "(p, k) \<notin> (parent_rel (parents b))\<^sup>*" if "p \<noteq> k" for p
  proof
    assume "(p, k) \<in> (parent_rel (parents b))\<^sup>*"
    with that obtain y where "(y, k) \<in> parent_rel (parents b)" by (blast elim: rtranclE)
    with ok kn show False unfolding backend_ok_def forest_ok_def by blast
  qed
  have "distinct (map fst (parents b'))"
    using ok kn by (simp add: ps backend_ok_def forest_ok_def)
  moreover have "fst ` set (parents b) \<subseteq> fst ` set (parents b')" by (auto simp: ps)
  moreover have "parent_rel (parents b') \<subseteq> parent_rel (parents b) \<union> {(k, p) | p. it_parent r = Some p}"
    unfolding ps by (rule parent_rel_snoc [OF kn])
  moreover have "\<And>q. it_parent r = Some q
      \<Longrightarrow> q \<in> fst ` set (parents b') \<and> (q, k) \<notin> (parent_rel (parents b))\<^sup>*"
    using p nr assms(3) by (auto simp: ps known_item_parents)
  ultimately have "forest_ok (parents b')"
    using ok forest_okI [of "parents b" "parents b'" k "it_parent r"] by (simp add: backend_ok_def)
  with rel show ?thesis by (simp add: backend_ok_def)
qed

lemma backend_ok_create:
  assumes ok: "backend_ok b" and cr: "item_create b new_id ts c = Inr (r, b')"
    and fresh: "ci_parent c \<noteq> Some new_id"
  shows "backend_ok b'"
proof -
  from cr obtain sq b1 row b2 b3 b4 where b1: "next_sequence_id b (ci_project c) = Inr (sq, b1)"
    and b2: "insert_item b1 new_id row = Inr b2" "it_parent row = ci_parent c"
    and b3: "fold_ok (\<lambda>b l. add_label b new_id l) (ci_labels c) b2 = Inr b3"
    and b4: "fold_ok (\<lambda>b a. add_assignee b new_id a) (ci_assignees c) b3 = Inr b4"
    and b5: "fold_ok (\<lambda>b d. add_dependency b new_id d) (ci_dependencies c) b4 = Inr b'"
    unfolding item_create_def by (auto elim!: bind_ok_InrE split: if_split_asm)
  from b1 have "item_core b1 = item_core b" by (auto simp: next_sequence_id_def Let_def split: if_splits)
  with ok have "backend_ok b1" using backend_ok_core by blast
  with b2 fresh have "backend_ok b2" using backend_ok_insert_item by metis
  then have "backend_ok b3"
    by (rule fold_ok_inv [OF b3]) (metis backend_ok_core core_add_label)
  then have "backend_ok b4"
    by (rule fold_ok_inv [OF b4]) (metis backend_ok_core core_add_assignee)
  then show ?thesis
    by (rule fold_ok_inv [OF b5]) (auto simp: add_dependency_def elim: backend_ok_insert_relation)
qed

end
