(* ===== verification/Json_Sample.thy ===== *)
theory Json_Sample
  imports Plan_Gate
begin

text \<open>
  A concrete reader and printer of JSON text without white space, for integers, strings and the
  rest of the values: an instance of the reader and printer the item operations take as a
  parameter. It has the round trip those operations rely on.
\<close>

definition quote_char :: "char \<Rightarrow> string" where
  "quote_char c = (if c = CHR 34 \<or> c = CHR 92 then [CHR 92, c] else [c])"

definition sample_quote :: "string \<Rightarrow> string" where
  "sample_quote s = CHR 34 # concat (map quote_char s) @ [CHR 34]"

fun sample_print :: "json \<Rightarrow> string"
and sample_elems :: "json list \<Rightarrow> string"
and sample_entries :: "(string \<times> json) list \<Rightarrow> string" where
  "sample_print JNull = ''null''"
| "sample_print (JBool x) = (if x then ''true'' else ''false'')"
| "sample_print (JNum s) = s"
| "sample_print (JStr s) = sample_quote s"
| "sample_print (JArr vs) = CHR ''['' # sample_elems vs"
| "sample_print (JObj ob) = CHR ''{'' # sample_entries ob"
| "sample_elems [] = '']''"
| "sample_elems (v # vs) = sample_print v @ (if vs = [] then '']'' else CHR '','' # sample_elems vs)"
| "sample_entries [] = ''}''"
| "sample_entries ((k, v) # ob) =
     sample_quote k @ CHR '':'' # sample_print v @ (if ob = [] then ''}'' else CHR '','' # sample_entries ob)"

text \<open>The text of a string up to its closing quote.\<close>

fun sample_string :: "string \<Rightarrow> (string \<times> string) option" where
  "sample_string [] = None"
| "sample_string (c # s) =
     (if c = CHR 34 then Some ([], s)
      else if c = CHR 92
      then (case s of [] \<Rightarrow> None | d # r \<Rightarrow> map_option (\<lambda>(a, q). (d # a, q)) (sample_string r))
      else map_option (\<lambda>(a, q). (c # a, q)) (sample_string s))"

definition sample_digit :: "char \<Rightarrow> bool" where
  "sample_digit c \<longleftrightarrow> digit_val c \<noteq> None"

fun sample_value :: "nat \<Rightarrow> string \<Rightarrow> (json \<times> string) option"
and sample_array :: "nat \<Rightarrow> string \<Rightarrow> (json list \<times> string) option"
and sample_object :: "nat \<Rightarrow> string \<Rightarrow> ((string \<times> json) list \<times> string) option" where
  "sample_value 0 s = None"
| "sample_value (Suc n) [] = None"
| "sample_value (Suc n) (c # s) =
     (if c = CHR 34 then map_option (\<lambda>(a, q). (JStr a, q)) (sample_string s)
      else if c = CHR ''['' then map_option (\<lambda>(a, q). (JArr a, q)) (sample_array n s)
      else if c = CHR ''{'' then map_option (\<lambda>(a, q). (JObj a, q)) (sample_object n s)
      else if sample_digit c
      then Some (JNum (c # takeWhile sample_digit s), dropWhile sample_digit s)
      else if take 3 s = ''ull'' \<and> c = CHR ''n'' then Some (JNull, drop 3 s)
      else if take 3 s = ''rue'' \<and> c = CHR ''t'' then Some (JBool True, drop 3 s)
      else if take 4 s = ''alse'' \<and> c = CHR ''f'' then Some (JBool False, drop 4 s)
      else None)"
| "sample_array 0 s = None"
| "sample_array (Suc n) s =
     (if s \<noteq> [] \<and> hd s = CHR '']'' then Some ([], tl s)
      else (case sample_value n s of
              Some (v, c # r) \<Rightarrow>
                if c = CHR '']'' then Some ([v], r)
                else if c = CHR '','' then map_option (\<lambda>(a, q). (v # a, q)) (sample_array n r)
                else None
            | _ \<Rightarrow> None))"
| "sample_object 0 s = None"
| "sample_object (Suc n) s =
     (case s of
        [] \<Rightarrow> None
      | d # s' \<Rightarrow>
          if d = CHR ''}'' then Some ([], s')
          else if d \<noteq> CHR 34 then None
          else (case sample_string s' of
                  Some (k, e # s2) \<Rightarrow>
                    if e \<noteq> CHR '':'' then None
                    else (case sample_value n s2 of
                            Some (v, c # r) \<Rightarrow>
                              if c = CHR ''}'' then Some ([(k, v)], r)
                              else if c = CHR '',''
                              then map_option (\<lambda>(a, q). ((k, v) # a, q)) (sample_object n r)
                              else None
                          | _ \<Rightarrow> None)
                | _ \<Rightarrow> None))"

definition sample_parse :: "string \<Rightarrow> json option" where
  "sample_parse s = (case sample_value (length s) s of Some (v, []) \<Rightarrow> Some v | _ \<Rightarrow> None)"

definition sample_env :: be_env where
  "sample_env = \<lparr>en_parse = sample_parse, en_print = sample_print, en_ttl_var = None,
     en_item_ttl_var = None, en_variable_limit = 32766\<rparr>"

section \<open>The round trip\<close>

lemma sample_string_quote: "sample_string (concat (map quote_char s) @ CHR 34 # r) = Some (s, r)"
  by (induction s) (auto simp: quote_char_def)

lemma sample_digits_only:
  "sample_parse s = Some (JNum t) \<Longrightarrow> t \<noteq> [] \<and> list_all sample_digit t"
  by (cases s) (auto simp: sample_parse_def list_all_iff dest: set_takeWhileD
      split: if_splits option.splits list.splits prod.splits)

lemma sample_digit_plain:
  "sample_digit c \<Longrightarrow> c \<noteq> CHR 34 \<and> c \<noteq> CHR ''['' \<and> c \<noteq> CHR ''{'' \<and> c \<noteq> CHR '']'' \<and> c \<noteq> CHR ''}'' \<and> c \<noteq> CHR '',''"
  by (auto simp: sample_digit_def digit_val_def less_eq_char_def split: if_splits)

lemma takeWhile_digits:
  "list_all sample_digit t \<Longrightarrow> r = [] \<or> \<not> sample_digit (hd r) \<Longrightarrow>
     takeWhile sample_digit (t @ r) = t \<and> dropWhile sample_digit (t @ r) = r"
  by (cases r) (auto simp: list_all_iff takeWhile_append2 dropWhile_append2)

text \<open>Numbers of a value that the reader reads as themselves.\<close>

fun nums_ok :: "json \<Rightarrow> bool" where
  "nums_ok (JNum s) = (s \<noteq> [] \<and> list_all sample_digit s)"
| "nums_ok (JArr vs) = list_all nums_ok vs"
| "nums_ok (JObj ob) = list_all (\<lambda>(_, v). nums_ok v) ob"
| "nums_ok _ = True"

lemma json_ok_nums: "json_ok sample_env v \<Longrightarrow> nums_ok v"
proof (induction v)
  case (JNum s)
  then show ?case using sample_digits_only [of s s] by (simp add: sample_env_def)
next
  case (JArr vs)
  then show ?case by (auto simp: list_all_iff)
next
  case (JObj ob)
  then show ?case by (fastforce simp: list_all_iff)
qed auto

lemma sample_print_nonempty: "nums_ok v \<Longrightarrow> sample_print v \<noteq> [] \<and> hd (sample_print v) \<noteq> CHR '']''"
proof (cases v)
  case (JNum s)
  moreover assume "nums_ok v"
  ultimately show ?thesis by (cases s) (auto dest: sample_digit_plain)
qed (auto simp: sample_quote_def)

lemma letters: "\<not> sample_digit (CHR ''n'')" "\<not> sample_digit (CHR ''t'')" "\<not> sample_digit (CHR ''f'')"
  by (simp_all add: sample_digit_def digit_val_def less_eq_char_def)

lemma sample_roundtrip:
  "nums_ok v \<Longrightarrow> length (sample_print v) \<le> n \<Longrightarrow> r = [] \<or> \<not> sample_digit (hd r)
     \<Longrightarrow> sample_value n (sample_print v @ r) = Some (v, r)"
  "list_all nums_ok vs \<Longrightarrow> length (sample_elems vs) \<le> n
     \<Longrightarrow> sample_array n (sample_elems vs @ r) = Some (vs, r)"
  "list_all (\<lambda>(_, v). nums_ok v) ob \<Longrightarrow> length (sample_entries ob) \<le> n
     \<Longrightarrow> sample_object n (sample_entries ob @ r) = Some (ob, r)"
proof (induction v and vs and ob arbitrary: n r and n r and n r
    rule: sample_print_sample_elems_sample_entries.induct)
  case (3 s)
  then obtain c t where s: "s = c # t" "sample_digit c" "list_all sample_digit t" by (cases s) auto
  with 3 obtain m where "n = Suc m" by (cases n) auto
  with s 3 show ?case using takeWhile_digits [of t r] sample_digit_plain [OF s(2)] by simp
next
  case (8 v vs)
  then obtain m where n: "n = Suc m" by (cases n) (auto split: if_splits)
  from 8 have v: "nums_ok v" "sample_print v \<noteq> []" "hd (sample_print v) \<noteq> CHR '']''"
    using sample_print_nonempty [of v] by auto
  then have hd: "sample_print v @ x \<noteq> [] \<and> hd (sample_print v @ x) \<noteq> CHR '']''" for x
    by (cases "sample_print v") auto
  have plain: "\<not> sample_digit (CHR '']'')" "\<not> sample_digit (CHR '','')"
    using sample_digit_plain by blast+
  show ?case
  proof (cases "vs = []")
    case True
    with 8 v n have "sample_value m (sample_print v @ CHR '']'' # r) = Some (v, CHR '']'' # r)"
      using plain by (intro "8.IH"(1)) auto
    with True n hd [of "CHR '']'' # r"] show ?thesis by simp
  next
    case False
    with 8 v n have "sample_value m (sample_print v @ CHR '','' # sample_elems vs @ r)
        = Some (v, CHR '','' # sample_elems vs @ r)"
      using plain by (intro "8.IH"(1)) auto
    moreover from False 8 n v(2) have "sample_array m (sample_elems vs @ r) = Some (vs, r)"
      by (intro "8.IH"(2)) (auto simp: Suc_le_eq)
    ultimately show ?thesis using False n hd [of "CHR '','' # sample_elems vs @ r"] by simp
  qed
next
  case (10 k v ob)
  then obtain m where n: "n = Suc m" by (cases n) (auto simp: sample_quote_def)
  from 10 have v: "nums_ok v" by auto
  have plain: "\<not> sample_digit (CHR ''}'')" "\<not> sample_digit (CHR '','')"
    using sample_digit_plain by blast+
  show ?case
  proof (cases "ob = []")
    case True
    with 10 v n have "sample_value m (sample_print v @ CHR ''}'' # r) = Some (v, CHR ''}'' # r)"
      using plain by (intro "10.IH"(1)) auto
    with True n show ?thesis
      by (simp add: sample_quote_def sample_string_quote)
  next
    case False
    with 10 v n have "sample_value m (sample_print v @ CHR '','' # sample_entries ob @ r)
        = Some (v, CHR '','' # sample_entries ob @ r)"
      using plain by (intro "10.IH"(1)) auto
    moreover from False 10 n have "sample_object m (sample_entries ob @ r) = Some (ob, r)"
      by (intro "10.IH"(2)) (auto simp: sample_quote_def)
    ultimately show ?thesis using False n by (simp add: sample_quote_def sample_string_quote)
  qed
next
  case 1
  then obtain m where "n = Suc m" by (cases n) auto
  with letters show ?case by simp
next
  case (2 x)
  then obtain m where "n = Suc m" by (cases n) (auto split: if_splits)
  with letters show ?case by (cases x) simp_all
next
  case (4 s)
  then obtain m where "n = Suc m" by (cases n) (auto simp: sample_quote_def)
  then show ?case by (simp add: sample_quote_def sample_string_quote)
next
  case (5 vs)
  then obtain m where "n = Suc m" by (cases n) auto
  with 5 show ?case by simp
next
  case (6 ob)
  then obtain m where "n = Suc m" by (cases n) auto
  with 6 show ?case by simp
next
  case 7
  then obtain m where "n = Suc m" by (cases n) auto
  then show ?case by simp
next
  case 9
  then obtain m where "n = Suc m" by (cases n) auto
  then show ?case by simp
qed

lemma sample_env_reads_back: "json_reads_back sample_env"
proof -
  have print: "en_parse sample_env (en_print sample_env v) = Some v" if "json_ok sample_env v" for v
    using sample_roundtrip(1) [of v "length (sample_print v)" "[]"] json_ok_nums [OF that]
    by (simp add: sample_env_def sample_parse_def)
  have "en_parse sample_env (show_nat n) = Some (JNum (show_nat n))" for n
  proof -
    have "list_all sample_digit (show_nat n)"
      by (auto simp: list_all_iff sample_digit_def dest!: show_nat_chars simp: digit_val_char)
    moreover have "show_nat n \<noteq> []" using show_nat_hd [of n] by auto
    ultimately have "nums_ok (JNum (show_nat n))" by simp
    then show ?thesis
      using sample_roundtrip(1) [of "JNum (show_nat n)" "length (show_nat n)" "[]"]
      by (simp add: sample_env_def sample_parse_def)
  qed
  with print show ?thesis by (simp add: json_reads_back_def)
qed

end
