(* ===== verification/Item_Sample.thy ===== *)
theory Item_Sample
  imports Item_Claim Json_Sample
begin

text \<open>
  Small tables on which the properties of the backend are instantiated: a project with one state
  per group and the labels the supervisor uses, and rows in the states the properties speak of.
\<close>

definition sample_state :: "string \<Rightarrow> wstate" where
  "sample_state g = \<lparr>ws_project = ''p'', ws_name = g, ws_group = g, ws_sequence = f_of_nat 0,
     ws_default = False, ws_color = default_color, ws_created = 0, ws_updated = 0, ws_deleted = None\<rparr>"

definition sample_label :: "string \<Rightarrow> wlabel" where
  "sample_label name = \<lparr>wl_project = Some ''p'', wl_workspace = ''w'', wl_name = name,
     wl_color = default_color, wl_parent = None, wl_sort_order = f_of_nat 0, wl_source = None,
     wl_external = None, wl_created = 0, wl_updated = 0, wl_deleted = None\<rparr>"

definition sample_item :: "string \<Rightarrow> string \<Rightarrow> string option \<Rightarrow> string option \<Rightarrow> item" where
  "sample_item st meta parent assignee =
     \<lparr>it_project = ''p'', it_state = st, it_name = ''n'', it_description = [], it_priority = ''none'',
      it_parent = parent, it_assignee = assignee, it_sequence = 1, it_sort_order = f_of_nat 0,
      it_started = None, it_completed = None, it_archived = None, it_source = None,
      it_external = None, it_metadata = meta, it_created = 0, it_updated = 0, it_deleted = None,
      it_start_date = None, it_due_date = None\<rparr>"

definition sample_tables :: "(string \<times> item) list \<Rightarrow> claim_db \<Rightarrow> backend" where
  "sample_tables items claims =
     \<lparr>be_items = items,
      be_states = map (\<lambda>g. (g, sample_state g))
        [''backlog'', ''started'', ''in_review'', ''completed'', ''cancelled''],
      be_labels = map (\<lambda>l. (l, sample_label l)) [''ready-for-work'', ''dispatched'', ''needs-plan'', ''needs-manual-dispatch'', ''needs-human-gate''],
      be_projects = [(''p'', \<lparr>pj_workspace = ''w'', pj_archived = None, pj_deleted = None\<rparr>)], be_sequences = [],
      be_item_labels = [(''a'', ''dispatched''), (''a'', ''needs-plan'')], be_item_assignees = [],
      be_relations = [], be_claims = claims, be_assign_log = [], be_vents = [], be_comments = [],
      be_asks = [], be_dirs = [(''p'', ''/repo'', 0)]\<rparr>"

definition sample_meta :: "(string \<times> json) list \<Rightarrow> string" where
  "sample_meta ob = en_print sample_env (JObj ob)"

lemma sample_meta_reads [simp]:
  "json_ok sample_env (JObj ob) \<Longrightarrow> en_parse sample_env (sample_meta ob) = Some (JObj ob)"
  unfolding sample_meta_def by (rule json_reads_backD [OF sample_env_reads_back])

lemma sample_env_simps [simp]:
  "en_ttl_var sample_env = None" "en_item_ttl_var sample_env = None"
  "en_variable_limit sample_env = 32766"
  by (simp_all add: sample_env_def)

text \<open>A free item, an item whose plan is not written, and an item a codex agent works on or has done.\<close>

definition plain_tables :: backend where
  "plain_tables = sample_tables [(''a'', sample_item ''backlog'' (sample_meta []) None None)] []"

definition unplanned_tables :: backend where
  "unplanned_tables = sample_tables
     [(''a'', sample_item ''backlog'' (sample_meta [(''plan_required'', JBool True)]) None None)] []"

definition codex_claim :: claim_db where
  "codex_claim = [([''a''], \<lparr>row_owner = ''codex:1'', row_status = ''claimed'', row_created_at = 100,
      row_heartbeat_at = 100\<rparr>)]"

definition held_tables :: "string \<Rightarrow> backend" where
  "held_tables st = sample_tables [(''a'', sample_item st (sample_meta []) None (Some ''codex''))] codex_claim"

lemma sample_states_distinct [simp]: "distinct (map fst (be_states (sample_tables items claims)))"
  by (simp add: sample_tables_def)

text \<open>A result that is no error, from its two parts.\<close>

lemma result_Inr: "\<not> isl r \<Longrightarrow> fst (projr r) = x \<Longrightarrow> r = Inr (x, snd (projr r))"
  by (cases r) auto

text \<open>Agent names, and the definitions that evaluation on a concrete table unfolds.\<close>

named_theorems sample_eval "definitions that evaluate an operation on concrete tables"

lemma sample_agents [sample_eval]:
  "agent_canonicalize ''codex'' = ''codex''" "agent_canonicalize ''codex:1'' = ''codex:1''"
  "agent_canonicalize ''codex:2'' = ''codex:2''" "agent_part ''codex'' = ''codex''"
  "agent_part ''codex:1'' = ''codex''" "agent_part ''codex:2'' = ''codex''"
  by code_simp+

lemmas sample_eval_tables [sample_eval] =
  sample_tables_def sample_item_def sample_state_def sample_label_def plain_tables_def
  unplanned_tables_def held_tables_def codex_claim_def

lemmas sample_eval_reads [sample_eval] =
  item_get_def live_row_def wstate_get_def first_state_in_group_def order_by_def label_by_name_def
  list_labels_def wlabel_get_def state_group_def live_group_def labels_of_project_def put_item_def
  json_key_def json_bool_def json_str_def no_update_def or_else_def set_col_def Let_def

lemmas sample_eval_writes [sample_eval] =
  item_update_state_def item_update_def check_update_def write_update_def updated_item_def
  add_label_def link_label_def remove_label_def ensure_project_label_def

lemmas sample_eval_ledger [sample_eval] =
  with_ledger_def item_acquire_def acquire_def key_params_def item_ledger_def fresh_row_def
  overwritable_def item_release_def Claim_Ledger.release_def item_is_owner_def is_owner_def
  item_owner_now_def current_owner_def ledger_list_def to_claim_def item_effective_ttl_def
  effective_ttl_secs_def default_ttl_secs_def as_i64_def

lemmas sample_eval_claim [sample_eval] =
  item_claim_def claim_for_planning_def claim_inner_def gate_refusal_def planning_refusal_def
  plan_gate_status_def plan_gate_status_of_def read_plan_gate_def no_plan_gate_def
  needs_input_group_def is_terminal_group_def assigned_elsewhere_def release_claim_def
  needs_plan_label_def ready_label_def metadata_pr_number_def

end
