(* ===== verification/Item_Claim_Props.thy ===== *)
theory Item_Claim_Props
  imports Item_Parents Item_Sample
begin

text \<open>
  What the claim operations on items promise: a grant needs an open gate and leaves the item
  started, assigned and leased; a refusal writes nothing; authoring a plan does not open the gate;
  a finished item is not moved again by a late finalize; a released item is free for every agent.
\<close>

section \<open>Single steps\<close>

lemma item_get_put [simp]: "it_deleted row = None \<Longrightarrow> item_get (put_item b k row) k = Inr row"
  by (simp add: item_get_def live_row_def put_item_def)

lemma wstate_get_frame: "be_states b' = be_states b \<Longrightarrow> wstate_get b' st = wstate_get b st"
  by (simp add: wstate_get_def)

lemma update_state_result:
  assumes "item_update_state b k st ts = Inr (row, b')"
  obtains it s where "item_get b k = Inr it" "wstate_get b st = Inr s" "b' = put_item b k row"
    "it_deleted row = None" "it_state row = st" "it_metadata row = it_metadata it"
    "it_assignee row = it_assignee it" "it_project row = it_project it"
    "ws_group s = ''started'' \<Longrightarrow> it_started row = Some ts"
    "ws_group s = ''completed'' \<Longrightarrow> it_completed row = Some ts"
  using assms unfolding item_update_state_def Let_def
  by (auto elim!: bind_ok_InrE split: if_split_asm simp: item_get_Inr)

lemma assign_result:
  assumes "item_update E b k ts (no_update\<lparr>ui_assignee := Some w\<rparr>) = Inr (row, b')"
  obtains it where "item_get b k = Inr it" "item_get b' k = Inr row"
    "be_states b' = be_states b" "be_claims b' = be_claims b" "be_labels b' = be_labels b"
    "be_item_labels b' = be_item_labels b"
    "it_assignee row = Some (agent_canonicalize w)" "it_metadata row = it_metadata it"
    "it_state row = it_state it" "it_project row = it_project it" "it_started row = it_started it"
proof -
  from assms obtain it lg where it: "item_get b k = Inr it"
    and row: "row = updated_item E ts (no_update\<lparr>ui_assignee := Some w\<rparr>) it"
    and b': "b' = b\<lparr>be_items := AList.update k row (be_items b), be_assign_log := lg\<rparr>"
    by (auto simp: item_update_def elim!: bind_ok_InrE elim: write_update_cases)
  from it row have "it_deleted row = None" by (simp add: updated_item_def item_get_Inr)
  then have "item_get b' k = Inr row" by (simp add: b' item_get_def live_row_def)
  with it show ?thesis
    by (rule that) (simp_all add: b' row updated_item_def no_update_def or_else_def set_col_def)
qed

lemma first_state_in_group_get:
  assumes "distinct (map fst (be_states b))" "first_state_in_group b p g = Inr (k, r)"
  shows "wstate_get b k = Inr r" "ws_group r = g"
  using first_state_in_group_Inr [OF assms(2)] assms(1)
  by (simp_all add: wstate_get_def live_row_def)

lemma live_group_Inr:
  "item_get b k = Inr it \<Longrightarrow> wstate_get b (it_state it) = Inr s \<Longrightarrow> live_group b k = Some (ws_group s)"
  by (simp add: live_group_def)

lemma acquired_row:
  assumes "item_acquire db k w now ttl = (db', Inr Acquired)"
  shows "item_is_owner db' k w = Inr True"
  using assms
  by (auto simp: item_acquire_def item_is_owner_def is_owner_def acquire_cases item_ledger_def
      split: option.splits if_splits)

lemma held_changes_nothing:
  "snd (item_acquire db k w now ttl) = Inr (Held w' age) \<Longrightarrow> fst (item_acquire db k w now ttl) = db"
  by (auto simp: item_acquire_def acquire_cases item_ledger_def split: option.splits if_splits)

section \<open>Claiming\<close>

lemma claim_acquired_steps:
  assumes "claim_inner E b k w now ttl ts pl = Inr (CoAcquired, b')"
  obtains it s b1 st r1 b2 r2 b3 where
    "item_get b k = Inr it" "wstate_get b (it_state it) = Inr s" "ws_group s \<noteq> needs_input_group"
    "gate_refusal E b k it pl = Inr None"
    "b1 = b\<lparr>be_claims := fst (item_acquire (be_claims b) k w now (item_effective_ttl E b k ttl))\<rparr>"
    "snd (item_acquire (be_claims b) k w now (item_effective_ttl E b k ttl)) = Inr Acquired"
    "first_state_in_group b1 (it_project it) ''started'' = Inr (st, r1)"
    "item_update_state b1 k st ts = Inr (r2, b2)"
    "item_update E b2 k ts (no_update\<lparr>ui_assignee := Some w\<rparr>) = Inr (b3, b')"
  using assms unfolding claim_inner_def
  by (auto elim!: bind_ok_InrE split: op_cases simp: with_ledger_def)

text \<open>C6: A claim is granted only on an item whose plan gate is open and whose state is not parked
  for human input, and it leaves the item started now, assigned to the claimer, with the claimer
  the owner of its lease and the metadata as it was.\<close>

theorem claim_grants:
  assumes "distinct (map fst (be_states b))" and "item_claim E b k w now ttl ts = Inr (CoAcquired, b')"
  shows "\<exists>it row. item_get b k = Inr it \<and> plan_gate_status E (it_metadata it) = GateOpen
      \<and> live_group b k \<noteq> Some needs_input_group
      \<and> item_get b' k = Inr row \<and> live_group b' k = Some ''started'' \<and> it_started row = Some ts
      \<and> it_assignee row = Some (agent_canonicalize w) \<and> it_metadata row = it_metadata it
      \<and> item_is_owner (be_claims b') k w = Inr True"
proof -
  from assms(2) obtain it s b1 st r1 r2 b2 r3 where
    it: "item_get b k = Inr it" "wstate_get b (it_state it) = Inr s" "ws_group s \<noteq> needs_input_group"
    and gate: "gate_refusal E b k it False = Inr None"
    and b1: "b1 = b\<lparr>be_claims := fst (item_acquire (be_claims b) k w now (item_effective_ttl E b k ttl))\<rparr>"
    and acq: "snd (item_acquire (be_claims b) k w now (item_effective_ttl E b k ttl)) = Inr Acquired"
    and st: "first_state_in_group b1 (it_project it) ''started'' = Inr (st, r1)"
    and up: "item_update_state b1 k st ts = Inr (r2, b2)"
    and asg: "item_update E b2 k ts (no_update\<lparr>ui_assignee := Some w\<rparr>) = Inr (r3, b')"
    unfolding item_claim_def by (elim claim_acquired_steps)
  from assms(1) b1 have d: "distinct (map fst (be_states b1))" by simp
  note sg = first_state_in_group_get [OF d st]
  from up obtain it1 where u: "item_get b1 k = Inr it1" "b2 = put_item b1 k r2" "it_deleted r2 = None"
      "it_state r2 = st" "it_metadata r2 = it_metadata it1" "it_started r2 = Some ts"
    using sg by (elim update_state_result) auto
  from u(1) it(1) b1 have "it1 = it" by (simp add: item_get_def)
  from asg obtain it2 where a: "item_get b2 k = Inr it2" "item_get b' k = Inr r3"
      "be_states b' = be_states b2" "be_claims b' = be_claims b2"
      "it_assignee r3 = Some (agent_canonicalize w)" "it_metadata r3 = it_metadata it2"
      "it_state r3 = it_state it2" "it_started r3 = it_started it2"
    by (rule assign_result)
  from a(1) u(2,3) have "it2 = r2" by simp
  have states: "be_states b' = be_states b1" and claims: "be_claims b' = be_claims b1"
    using a(3,4) by (simp_all add: u(2) put_item_def)
  have "live_group b' k = Some ''started''"
    using a(2) a(7) sg u(4) \<open>it2 = r2\<close> wstate_get_frame [OF states]
    by (simp add: live_group_def)
  moreover have "item_is_owner (be_claims b') k w = Inr True"
    using acq acquired_row [of "be_claims b" k w now "item_effective_ttl E b k ttl"]
    by (simp add: claims b1 prod_eq_iff)
  moreover have "plan_gate_status E (it_metadata it) = GateOpen"
    using gate by (auto simp: gate_refusal_def split: gate_status.splits)
  ultimately show ?thesis
    using it live_group_Inr [OF it(1,2)] a u \<open>it1 = it\<close> \<open>it2 = r2\<close> by auto
qed

lemma plain_granted:
  "item_claim sample_env plain_tables ''a'' ''codex:1'' 100 600 100
     = Inr (CoAcquired, snd (projr (item_claim sample_env plain_tables ''a'' ''codex:1'' 100 600 100)))"
  by (rule result_Inr; simp add: sample_eval)

lemma claim_grants_witness:
  "live_group (snd (projr (item_claim sample_env plain_tables ''a'' ''codex:1'' 100 600 100))) ''a''
     = Some ''started''"
proof -
  have "distinct (map fst (be_states plain_tables))" by (simp add: plain_tables_def)
  from claim_grants [OF this plain_granted] show ?thesis by blast
qed

text \<open>C7: A claim that is refused, by the gate, the state, the assignee or a live lease, writes
  nothing.\<close>

theorem refused_claim_changes_nothing:
  assumes "claim_inner E b k w now ttl ts pl = Inr (co, b')" "co \<noteq> CoAcquired"
  shows "b' = b"
  using assms unfolding claim_inner_def
  by (auto elim!: bind_ok_InrE split: op_cases simp: with_ledger_def held_changes_nothing)

lemma refused_claim_changes_nothing_witness:
  "snd (projr (claim_inner sample_env (held_tables ''started'') ''a'' ''codex:2'' 100 600 100 False))
     = held_tables ''started''"
proof -
  let ?r = "claim_inner sample_env (held_tables ''started'') ''a'' ''codex:2'' 100 600 100 False"
  have "?r = Inr (CoHeld ''codex:1'' 0, snd (projr ?r))" by (rule result_Inr; simp add: sample_eval)
  from refused_claim_changes_nothing [OF this] show ?thesis by simp
qed

text \<open>Claiming an item to author its plan does not open the gate: right after it, a claim to
  implement the item is refused, whoever asks.\<close>

lemma planning_claim_keeps_gate:
  assumes "distinct (map fst (be_states b))"
    and "claim_for_planning E b k w now ttl ts = Inr (CoAcquired, b')"
  shows "\<exists>st. item_claim E b' k w' now' ttl' ts' = Inr (CoBlockedByPlan st, b')"
proof -
  from assms(2) obtain it s b1 st r1 r2 b2 r3 where
    it: "item_get b k = Inr it" "wstate_get b (it_state it) = Inr s" "ws_group s \<noteq> needs_input_group"
    and gate: "gate_refusal E b k it True = Inr None"
    and b1: "b1 = b\<lparr>be_claims := fst (item_acquire (be_claims b) k w now (item_effective_ttl E b k ttl))\<rparr>"
    and st: "first_state_in_group b1 (it_project it) ''started'' = Inr (st, r1)"
    and up: "item_update_state b1 k st ts = Inr (r2, b2)"
    and asg: "item_update E b2 k ts (no_update\<lparr>ui_assignee := Some w\<rparr>) = Inr (r3, b')"
    unfolding claim_for_planning_def by (elim claim_acquired_steps)
  from assms(1) b1 have d: "distinct (map fst (be_states b1))" by simp
  note sg = first_state_in_group_get [OF d st]
  from up obtain it1 where u: "item_get b1 k = Inr it1" "b2 = put_item b1 k r2" "it_deleted r2 = None"
      "it_state r2 = st" "it_metadata r2 = it_metadata it1"
    using sg by (elim update_state_result) auto
  from u(1) it(1) b1 have "it1 = it" by (simp add: item_get_def)
  from asg obtain it2 where a: "item_get b2 k = Inr it2" "item_get b' k = Inr r3"
      "be_states b' = be_states b2" "it_metadata r3 = it_metadata it2" "it_state r3 = it_state it2"
    by (rule assign_result)
  from a(1) u(2,3) have "it2 = r2" by simp
  have "be_states b' = be_states b1" using a(3) by (simp add: u(2) put_item_def)
  then have "wstate_get b' (it_state r3) = Inr r1"
    using sg(1) a(5) u(4) \<open>it2 = r2\<close> wstate_get_frame by metis
  moreover have "ws_group r1 \<noteq> needs_input_group" using sg(2) by (simp add: needs_input_group_def)
  moreover have "\<exists>st. plan_gate_status E (it_metadata r3) = GateBlocked st"
    using gate a(4) u(5) \<open>it1 = it\<close> \<open>it2 = r2\<close>
    by (auto simp: gate_refusal_def planning_refusal_def plan_gate_status_def plan_gate_status_of_def
        Let_def split: if_splits option.splits)
  ultimately show ?thesis
    using a(2) by (auto simp: item_claim_def claim_inner_def gate_refusal_def)
qed

lemma planning_claim_keeps_gate_example:
  "\<exists>b st. claim_for_planning sample_env unplanned_tables ''a'' ''codex:1'' 100 600 100 = Inr (CoAcquired, b)
     \<and> item_claim sample_env b ''a'' ''codex:1'' 101 600 101 = Inr (CoBlockedByPlan st, b)"
proof -
  let ?r = "claim_for_planning sample_env unplanned_tables ''a'' ''codex:1'' 100 600 100"
  have r: "?r = Inr (CoAcquired, snd (projr ?r))" by (rule result_Inr; simp add: sample_eval)
  have "distinct (map fst (be_states unplanned_tables))" by (simp add: unplanned_tables_def)
  from planning_claim_keeps_gate [OF this r] r show ?thesis by blast
qed

section \<open>Finishing\<close>

text \<open>The operations that move an item to review or to completed.\<close>

datatype finalize_op =
    MarkCompleted string
  | MarkForced string
  | MarkForcedIfPr string "nat option"
  | MarkInReview string string
  | Promote
  | PromoteIfPr "nat option"

fun finalize :: "be_env \<Rightarrow> backend \<Rightarrow> string \<Rightarrow> time \<Rightarrow> finalize_op \<Rightarrow> (bool \<times> backend) be_result" where
  "finalize E b k ts (MarkCompleted w) = mark_completed E b k w ts"
| "finalize E b k ts (MarkForced w) = mark_completed_forced E b k w ts"
| "finalize E b k ts (MarkForcedIfPr w pr) = mark_completed_forced_if_pr E b k w pr ts"
| "finalize E b k ts (MarkInReview w new_id) = mark_in_review E b k w new_id ts"
| "finalize E b k ts Promote = promote_in_review_to_completed E b k ts"
| "finalize E b k ts (PromoteIfPr pr) = promote_in_review_to_completed_if_pr E b k pr ts"

lemma live_group_Some:
  "live_group b k = Some g \<longleftrightarrow>
     (\<exists>it s. item_get b k = Inr it \<and> wstate_get b (it_state it) = Inr s \<and> ws_group s = g)"
  by (auto simp: live_group_def split: sum.splits)

lemma complete_if_terminal:
  assumes "complete_if E b k w pr al ts = Inr (moved, b')" "live_group b k = Some g" "\<not> al g"
  shows "\<not> moved \<and> b' = b"
  using assms unfolding complete_if_def live_group_Some
  by (auto elim!: bind_ok_InrE split: op_cases)

text \<open>C8: An item that is completed or cancelled stays as it is under every way of finishing an
  item, so a late finalize neither revives a cancelled item nor completes one twice.\<close>

theorem finished_item_stays:
  assumes g: "live_group b k = Some g" "is_terminal_group g"
    and op: "finalize E b k ts op = Inr (moved, b')"
  shows "\<not> moved \<and> b' = b"
proof (cases op)
  case (MarkCompleted w)
  with op have "complete_if E b k w None (\<lambda>g. g = ''started'' \<or> g = ''in_review'') ts = Inr (moved, b')"
    by (simp add: mark_completed_def)
  from complete_if_terminal [OF this g(1)] g(2) show ?thesis by (auto simp: is_terminal_group_def)
next
  case (MarkForced w)
  with op have "complete_if E b k w None forced_allowed_from ts = Inr (moved, b')"
    by (simp add: mark_completed_forced_def)
  from complete_if_terminal [OF this g(1)] g(2) show ?thesis by (simp add: forced_allowed_from_def)
next
  case (MarkForcedIfPr w pr)
  with op have "complete_if E b k w (Some pr) forced_allowed_from ts = Inr (moved, b')"
    by (simp add: mark_completed_forced_if_pr_def)
  from complete_if_terminal [OF this g(1)] g(2) show ?thesis by (simp add: forced_allowed_from_def)
next
  case (MarkInReview w i)
  with op g show ?thesis unfolding live_group_Some is_terminal_group_def
    by (auto simp: mark_in_review_def in_finalizable_state_def elim!: bind_ok_InrE split: if_split_asm)
next
  case Promote
  with op g show ?thesis unfolding live_group_Some is_terminal_group_def
    by (auto simp: promote_in_review_to_completed_def promote_in_review_def elim!: bind_ok_InrE
        split: if_split_asm)
next
  case (PromoteIfPr pr)
  with op g show ?thesis unfolding live_group_Some is_terminal_group_def
    by (auto simp: promote_in_review_to_completed_if_pr_def promote_in_review_def elim!: bind_ok_InrE
        split: if_split_asm)
qed

lemma finished_item_stays_witness:
  "snd (projr (finalize sample_env (held_tables ''cancelled'') ''a'' 200 (MarkForced ''codex:1'')))
     = held_tables ''cancelled''"
proof -
  let ?r = "finalize sample_env (held_tables ''cancelled'') ''a'' 200 (MarkForced ''codex:1'')"
  have "?r = Inr (False, snd (projr ?r))"
    by (rule result_Inr; simp add: sample_eval mark_completed_forced_def complete_if_def forced_allowed_from_def)
  moreover have "live_group (held_tables ''cancelled'') ''a'' = Some ''cancelled''" by (simp add: sample_eval)
  ultimately show ?thesis
    using finished_item_stays [of "held_tables ''cancelled''" "''a''" "''cancelled''" sample_env 200
        "MarkForced ''codex:1''" False] by (simp add: is_terminal_group_def)
qed

text \<open>A merge that was confirmed for one pull request does not complete an item that tracks
  another one by now.\<close>

lemma stale_merge_completes_nothing:
  assumes "item_get b k = Inr it" "metadata_pr_number E (it_metadata it) \<noteq> pr"
    and "op = PromoteIfPr pr \<or> op = MarkForcedIfPr w pr" "finalize E b k ts op = Inr (moved, b')"
  shows "\<not> moved \<and> b' = b"
  using assms
  by (auto simp: promote_in_review_to_completed_if_pr_def promote_in_review_def
      mark_completed_forced_if_pr_def complete_if_def elim!: bind_ok_InrE split: if_split_asm)

lemma stale_merge_completes_nothing_example:
  "snd (projr (finalize sample_env (held_tables ''in_review'') ''a'' 200 (PromoteIfPr (Some 7))))
     = held_tables ''in_review''"
proof -
  let ?it = "sample_item ''in_review'' (sample_meta []) None (Some ''codex'')"
  let ?r = "finalize sample_env (held_tables ''in_review'') ''a'' 200 (PromoteIfPr (Some 7))"
  have "?r = Inr (False, snd (projr ?r))"
    by (rule result_Inr; simp add: sample_eval promote_in_review_to_completed_if_pr_def promote_in_review_def)
  moreover have "item_get (held_tables ''in_review'') ''a'' = Inr ?it" by (simp add: sample_eval)
  moreover have "metadata_pr_number sample_env (it_metadata ?it) = None"
    by (simp add: sample_eval)
  ultimately show ?thesis
    using stale_merge_completes_nothing [of "held_tables ''in_review''" "''a''" ?it sample_env "Some 7"
        "PromoteIfPr (Some 7)" "''codex:1''" 200 False] by simp
qed

section \<open>Releasing\<close>

lemma release_then_acquire:
  assumes "item_release db k w = (db', Inr True)"
  shows "\<exists>db''. item_acquire db' k w' now ttl = (db'', Inr Acquired)" and "map_of db' [k] = None"
  using assms
  by (auto simp: item_release_def item_acquire_def Claim_Ledger.release_def acquire_cases item_ledger_def
      split: option.splits if_splits)

lemma release_row:
  assumes "release_claim E b k w ts = Inr (True, b')" "item_get b k = Inr it"
    and "\<And>a. it_assignee it = Some a \<Longrightarrow> agent_part a = agent_part w"
  obtains row where "item_get b' k = Inr row" "it_assignee row = None"
    and "item_release (be_claims b) k w = (be_claims b', Inr True)"
proof -
  from assms(1) obtain b1 where l: "with_ledger b (item_release (be_claims b) k w) = Inr (True, b1)"
    unfolding release_claim_def Let_def
    by (auto elim!: bind_ok_InrE split: op_cases)
  then have b1: "b1 = b\<lparr>be_claims := fst (item_release (be_claims b) k w)\<rparr>"
    and r: "snd (item_release (be_claims b) k w) = Inr True"
    by (auto simp: with_ledger_def split: sum.splits)
  have "item_get b1 k = Inr it" using assms(2) by (simp add: b1 item_get_def)
  with assms(1,3) l have b': "b' = put_item b1 k (it\<lparr>it_assignee := None, it_updated := ts\<rparr>)"
    by (auto simp: release_claim_def split: option.splits if_splits)
  have "it_deleted it = None" using assms(2) by (simp add: item_get_Inr)
  then have "item_get b' k = Inr (it\<lparr>it_assignee := None, it_updated := ts\<rparr>)" by (simp add: b')
  moreover have "it_assignee (it\<lparr>it_assignee := None, it_updated := ts\<rparr>) = None" by simp
  moreover have "item_release (be_claims b) k w = (be_claims b', Inr True)"
    using r by (simp add: b' b1 put_item_def prod_eq_iff)
  ultimately show ?thesis by (rule that)
qed

text \<open>An item that is released by its owner, and was not handed to another kind of agent in the
  meantime, is open to every agent: the next claim is refused by nothing but the plan gate or the
  state.\<close>

lemma released_item_is_free:
  assumes rel: "release_claim E b k w ts = Inr (True, b')" and it: "item_get b k = Inr it"
    and own: "\<And>a. it_assignee it = Some a \<Longrightarrow> agent_part a = agent_part w"
    and cl: "item_claim E b' k w' now ttl ts' = Inr (co, b'')"
  shows "co = CoAcquired \<or> (\<exists>st. co = CoBlockedByPlan st) \<or> (\<exists>g. co = CoBlockedByState g)"
proof -
  from rel it own obtain row where row: "item_get b' k = Inr row" "it_assignee row = None"
    and "item_release (be_claims b) k w = (be_claims b', Inr True)"
    by (rule release_row)
  then obtain db'' where acq: "\<And>ttl. item_acquire (be_claims b') k w' now ttl = (db'' ttl, Inr Acquired)"
    using release_then_acquire(1) by metis
  show ?thesis
    using cl row acq unfolding item_claim_def claim_inner_def
    by (auto elim!: bind_ok_InrE split: op_cases simp: with_ledger_def assigned_elsewhere_def)
qed

lemma released_item_is_free_example:
  "\<exists>b b'. release_claim sample_env (held_tables ''started'') ''a'' ''codex:1'' 150 = Inr (True, b)
     \<and> item_claim sample_env b ''a'' ''claude-code:2'' 160 600 160 = Inr (CoAcquired, b')"
proof -
  let ?b = "held_tables ''started''"
  let ?r = "release_claim sample_env ?b ''a'' ''codex:1'' 150"
  let ?b1 = "snd (projr ?r)"
  let ?c = "item_claim sample_env ?b1 ''a'' ''claude-code:2'' 160 600 160"
  let ?it = "sample_item ''started'' (sample_meta []) None (Some ''codex'')"
  have r: "?r = Inr (True, ?b1)" by (rule result_Inr; simp add: sample_eval)
  have c: "?c = Inr (fst (projr ?c), snd (projr ?c))" by (cases ?c) (simp_all add: sample_eval)
  have it: "item_get ?b ''a'' = Inr ?it" by (simp add: sample_eval)
  have own: "agent_part a = agent_part ''codex:1''" if "it_assignee ?it = Some a" for a
    using that by (auto simp: sample_item_def sample_agents)
  have "\<nexists>st. fst (projr ?c) = CoBlockedByPlan st" "\<nexists>g. fst (projr ?c) = CoBlockedByState g"
    by (simp_all add: sample_eval)
  then have "fst (projr ?c) = CoAcquired" using released_item_is_free [OF r it own c] by blast
  with r c show ?thesis by metis
qed

end
