(* ===== verification/Quota_Goal.thy ===== *)
theory Quota_Goal
  imports Item_Parents
begin

text \<open>
  Goals: the lifecycle of \<^verbatim>\<open>src/quota/lifecycle.rs\<close> and the goal state of \<^verbatim>\<open>src/quota/goal.rs\<close>,
  kept as one key of an item's metadata. The walk to the nearest goal has no bound of its own; it
  ends on every table the backend's operations can produce.
\<close>

section \<open>Lifecycle\<close>

datatype goal_lifecycle = GoalActive | GoalPaused | GoalGated | GoalDone

datatype lifecycle_event = LifePause | LifeResume | LifeGate | LifeClear | LifeComplete

fun lifecycle_apply :: "goal_lifecycle \<Rightarrow> lifecycle_event \<Rightarrow> goal_lifecycle option" where
  "lifecycle_apply GoalActive LifePause = Some GoalPaused"
| "lifecycle_apply GoalActive LifeGate = Some GoalGated"
| "lifecycle_apply GoalActive LifeComplete = Some GoalDone"
| "lifecycle_apply GoalPaused LifeResume = Some GoalActive"
| "lifecycle_apply GoalPaused LifeComplete = Some GoalDone"
| "lifecycle_apply GoalGated LifeClear = Some GoalActive"
| "lifecycle_apply _ _ = None"

fun lifecycle_name :: "goal_lifecycle \<Rightarrow> string" where
  "lifecycle_name GoalActive = ''active''"
| "lifecycle_name GoalPaused = ''paused''"
| "lifecycle_name GoalGated = ''gated''"
| "lifecycle_name GoalDone = ''done''"

definition lifecycle_of_name :: "string \<Rightarrow> goal_lifecycle option" where
  "lifecycle_of_name s =
     find (\<lambda>l. lifecycle_name l = s) [GoalActive, GoalPaused, GoalGated, GoalDone]"

lemma lifecycle_of_name_name [simp]: "lifecycle_of_name (lifecycle_name l) = Some l"
  by (cases l) (simp_all add: lifecycle_of_name_def)

section \<open>Goal metadata\<close>

record goal_meta =
  gm_objective :: string
  gm_allowed_paths :: "string list"
  gm_disallowed :: "string list"
  gm_quota_mode :: string
  gm_lifecycle :: goal_lifecycle
  gm_repairs :: nat

text \<open>
  What the derived reader accepts: an object, or an array of the fields in order; a field with a
  default may be missing. A variant is its name, or an object of the name and null.
\<close>

definition struct_field :: "nat \<Rightarrow> string \<Rightarrow> json \<Rightarrow> json option" where
  "struct_field i k v =
     (case v of
        JObj ob \<Rightarrow> map_of ob k
      | JArr vs \<Rightarrow> if i < length vs then Some (vs ! i) else None
      | _ \<Rightarrow> None)"

definition struct_shape :: "nat \<Rightarrow> json \<Rightarrow> bool" where
  "struct_shape n v = (case v of JObj _ \<Rightarrow> True | JArr vs \<Rightarrow> length vs \<le> n | _ \<Rightarrow> False)"

definition default_field :: "'a \<Rightarrow> (json \<Rightarrow> 'a option) \<Rightarrow> json option \<Rightarrow> 'a option" where
  "default_field d f v = (case v of None \<Rightarrow> Some d | Some w \<Rightarrow> f w)"

definition json_strings :: "json \<Rightarrow> string list option" where
  "json_strings v = (case v of JArr vs \<Rightarrow> those (map json_str vs) | _ \<Rightarrow> None)"

definition json_u32 :: "json \<Rightarrow> nat option" where
  "json_u32 v = (case json_u64 v of None \<Rightarrow> None | Some n \<Rightarrow> if n \<le> u32_max then Some n else None)"

definition lifecycle_of_json :: "json \<Rightarrow> goal_lifecycle option" where
  "lifecycle_of_json v =
     (case v of
        JStr s \<Rightarrow> lifecycle_of_name s
      | JObj [(s, JNull)] \<Rightarrow> lifecycle_of_name s
      | _ \<Rightarrow> None)"

definition scope_of_json :: "json \<Rightarrow> (string list \<times> string list) option" where
  "scope_of_json v =
     (if \<not> struct_shape 2 v then None
      else Option.bind (default_field [] json_strings (struct_field 0 ''allowed_paths'' v)) (\<lambda>a.
           Option.bind (default_field [] json_strings (struct_field 1 ''disallowed_actions'' v)) (\<lambda>d.
             Some (a, d))))"

definition goal_of_json :: "json \<Rightarrow> goal_meta option" where
  "goal_of_json v =
     (if \<not> struct_shape 5 v then None
      else Option.bind (Option.bind (struct_field 0 ''objective'' v) json_str) (\<lambda>ob.
           Option.bind (default_field ([], []) scope_of_json (struct_field 1 ''scope'' v)) (\<lambda>(a, d).
           Option.bind (default_field [] json_str (struct_field 2 ''quota_mode'' v)) (\<lambda>q.
           Option.bind (Option.bind (struct_field 3 ''lifecycle'' v) lifecycle_of_json) (\<lambda>l.
           Option.bind (default_field 0 json_u32 (struct_field 4 ''consecutive_self_repairs'' v)) (\<lambda>n.
             Some \<lparr>gm_objective = ob, gm_allowed_paths = a, gm_disallowed = d, gm_quota_mode = q,
                   gm_lifecycle = l, gm_repairs = n\<rparr>))))))"

definition goal_to_json :: "goal_meta \<Rightarrow> json" where
  "goal_to_json g =
     JObj [(''objective'', JStr (gm_objective g)),
           (''scope'', JObj [(''allowed_paths'', JArr (map JStr (gm_allowed_paths g))),
                             (''disallowed_actions'', JArr (map JStr (gm_disallowed g)))]),
           (''quota_mode'', JStr (gm_quota_mode g)),
           (''lifecycle'', JStr (lifecycle_name (gm_lifecycle g))),
           (''consecutive_self_repairs'', JNum (show_nat (gm_repairs g)))]"

lemma those_json_strings [simp]: "those (map json_str (map JStr xs)) = Some xs"
  by (induction xs) (simp_all add: json_str_def)

lemma json_strings_map [simp]: "json_strings (JArr (map JStr xs)) = Some xs"
  unfolding json_strings_def by (simp only: json.case those_json_strings)

lemma goal_json_roundtrip:
  assumes "gm_repairs g \<le> u32_max"
  shows "goal_of_json (goal_to_json g) = Some g"
proof -
  have "gm_repairs g \<le> u64_max" using assms by (simp add: u32_max_def u64_max_def)
  with assms have "json_u32 (JNum (show_nat (gm_repairs g))) = Some (gm_repairs g)"
    by (simp add: json_u32_def json_u64_def parse_show_nat)
  then show ?thesis
    by (simp add: goal_of_json_def goal_to_json_def struct_shape_def struct_field_def default_field_def
        scope_of_json_def lifecycle_of_json_def json_str_def del: json_strings_map)
      (simp add: json_strings_map [simplified])
qed

definition parse_goal_metadata :: "be_env \<Rightarrow> string \<Rightarrow> string + goal_meta option" where
  "parse_goal_metadata E meta =
     (case en_parse E meta of
        None \<Rightarrow> Inl ''item metadata is not valid json''
      | Some v \<Rightarrow>
          (case json_key ''goal'' v of
             None \<Rightarrow> Inr None
           | Some JNull \<Rightarrow> Inr None
           | Some g \<Rightarrow> (case goal_of_json g of
                          None \<Rightarrow> Inl ''malformed goal metadata''
                        | Some m \<Rightarrow> Inr (Some m))))"

definition save_goal_metadata ::
  "be_env \<Rightarrow> backend \<Rightarrow> string \<Rightarrow> time \<Rightarrow> goal_meta \<Rightarrow> (item \<times> backend) be_result" where
  "save_goal_metadata E b k ts g = merge_item_metadata E b k ts (AList.update ''goal'' (goal_to_json g))"

section \<open>The nearest goal\<close>

partial_function (option) find_goal_ancestor ::
  "be_env \<Rightarrow> backend \<Rightarrow> string \<Rightarrow> item \<Rightarrow> (string + ((string \<times> item) \<times> goal_meta) option) option" where
  "find_goal_ancestor E b k it =
     (case parse_goal_metadata E (it_metadata it) of
        Inl e \<Rightarrow> Some (Inl e)
      | Inr (Some g) \<Rightarrow> Some (Inr (Some ((k, it), g)))
      | Inr None \<Rightarrow>
          (case it_parent it of
             None \<Rightarrow> Some (Inr None)
           | Some p \<Rightarrow>
               (case item_get b p of
                  Inl _ \<Rightarrow> Some (Inl (''cannot load parent '' @ p))
                | Inr up \<Rightarrow> find_goal_ancestor E b p up)))"

lemma finite_parent_rel: "finite (parent_rel ps)"
proof (rule finite_subset)
  show "parent_rel ps \<subseteq> (\<lambda>(k, q). (k, the q)) ` set ps"
    by (auto simp: parent_rel_def image_iff dest!: map_of_SomeD) (metis case_prod_conv option.sel)
qed simp

lemma wf_parents: "backend_ok b \<Longrightarrow> wf ((parent_rel (parents b))\<inverse>)"
  by (rule finite_acyclic_wf_converse [OF finite_parent_rel]) (simp add: backend_ok_def forest_ok_def)

lemma goal_walk_from_stored:
  assumes ok: "backend_ok b"
  shows "item_get b k = Inr it \<Longrightarrow> \<exists>r. find_goal_ancestor E b k it = Some r"
  using wf_parents [OF ok]
proof (induction k arbitrary: it rule: wf_induct_rule)
  case (less k)
  have "\<exists>r. find_goal_ancestor E b p up = Some r" if "it_parent it = Some p" "item_get b p = Inr up" for p up
  proof -
    have "(k, p) \<in> parent_rel (parents b)"
      using less.prems that(1) by (simp add: parent_rel_iff parent_of_def item_get_Inr)
    with less.IH that(2) show ?thesis by simp
  qed
  then show ?case
    by (subst find_goal_ancestor.simps) (auto split: sum.split option.split)
qed

lemma goal_walk_ends_on_ok:
  assumes "backend_ok b"
  shows "\<exists>r. find_goal_ancestor E b k it = Some r"
  using goal_walk_from_stored [OF assms]
  by (subst find_goal_ancestor.simps) (auto split: sum.split option.split)

section \<open>Reachable tables\<close>

inductive be_step :: "be_env \<Rightarrow> backend \<Rightarrow> backend \<Rightarrow> bool" for E where
  create: "item_create b new_id ts c = Inr (r, b') \<Longrightarrow> ci_parent c \<noteq> Some new_id \<Longrightarrow> be_step E b b'"
| update: "item_update E b k ts u = Inr (r, b') \<Longrightarrow> be_step E b b'"
| move: "item_update_state b k st ts = Inr (r, b') \<Longrightarrow> be_step E b b'"
| delete: "item_delete b k ts = Inr b' \<Longrightarrow> be_step E b b'"
| clear_start: "clear_item_start_date b k ts = Inr (r, b') \<Longrightarrow> be_step E b b'"
| clear_due: "clear_item_due_date b k ts = Inr (r, b') \<Longrightarrow> be_step E b b'"
| claim: "claim_inner E b k w now ttl ts pl = Inr (co, b') \<Longrightarrow> be_step E b b'"
| release: "release_claim E b k w ts = Inr (x, b') \<Longrightarrow> be_step E b b'"
| steal: "steal_abandoned_claim E b k w now ttl = Inr (ar, b') \<Longrightarrow> be_step E b b'"
| complete: "complete_if E b k w pr al ts = Inr (x, b') \<Longrightarrow> be_step E b b'"
| review: "mark_in_review E b k w new_id ts = Inr (x, b') \<Longrightarrow> be_step E b b'"
| promote: "promote_in_review E b k pr ts = Inr (x, b') \<Longrightarrow> be_step E b b'"
| redispatch: "redispatch E b0 b k a f new_id ts = Inr (rd, b') \<Longrightarrow> be_step E b b'"
| relate: "add_relation b x y ty = Inr b' \<Longrightarrow> be_step E b b'"
| unrelate: "be_step E b (remove_relation b x y ty)"
| other_tables: "be_items b' = be_items b \<Longrightarrow> be_relations b' = be_relations b \<Longrightarrow> be_step E b b'"

inductive be_reach :: "be_env \<Rightarrow> backend \<Rightarrow> bool" for E where
  start: "be_items b = [] \<Longrightarrow> be_relations b = [] \<Longrightarrow> be_reach E b"
| step: "be_reach E b \<Longrightarrow> be_step E b b' \<Longrightarrow> be_reach E b'"

lemma backend_ok_step:
  assumes "be_step E b b'" "backend_ok b"
  shows "backend_ok b'"
  using assms
proof (induction rule: be_step.induct)
  case (other_tables b' b)
  then have "item_core b' = item_core b" by (simp add: item_core_def parents_def)
  with other_tables show ?case using backend_ok_core by blast
qed (metis backend_ok_core backend_ok_create backend_ok_update core_update_state core_delete
      core_clear_dates core_claim core_release core_steal core_complete_if core_mark_in_review
      core_promote core_redispatch backend_ok_add_relation backend_ok_remove_relation)+

lemma backend_ok_reach: "be_reach E b \<Longrightarrow> backend_ok b"
proof (induction rule: be_reach.induct)
  case (start b)
  then show ?case
    by (simp add: backend_ok_def forest_ok_def relations_ok_def parents_def parent_rel_def acyclic_def)
next
  case (step b b')
  then show ?case by (blast intro: backend_ok_step)
qed

end
