(* ===== verification/Item_Comments.thy ===== *)
theory Item_Comments
  imports Item_Relations
begin

text \<open>
  The comments on an item (\<^verbatim>\<open>crates/agentflare-backend/src/comment.rs\<close>). The table is in the order
  of insertion, which is the order of SQLite's row ids; the time of a comment has whole seconds,
  so the order of a thread is by time and then by insertion.
\<close>

definition comment_get :: "backend \<Rightarrow> string \<Rightarrow> icomment be_result" where
  "comment_get b c = (case map_of (be_comments b) c of None \<Rightarrow> Inl (BNotFound c) | Some r \<Rightarrow> Inr r)"

definition comment_create ::
  "backend \<Rightarrow> string \<Rightarrow> string \<Rightarrow> string \<Rightarrow> string \<Rightarrow> time \<Rightarrow> (icomment \<times> backend) be_result" where
  "comment_create b new_id k author body ts =
     (let r = \<lparr>cm_item = k, cm_author = author, cm_body = body, cm_created = ts, cm_updated = ts\<rparr>
      in if new_id \<in> fst ` set (be_comments b) then Inl (BDuplicate new_id)
         else if \<not> known_item b k then Inl (BDatabase ''FOREIGN KEY'')
         else Inr (r, b\<lparr>be_comments := be_comments b @ [(new_id, r)]\<rparr>))"

definition comment_update :: "backend \<Rightarrow> string \<Rightarrow> string \<Rightarrow> time \<Rightarrow> (icomment \<times> backend) be_result" where
  "comment_update b c body ts =
     bind_ok (comment_get b c) (\<lambda>r.
       let r' = r\<lparr>cm_body := body, cm_updated := ts\<rparr>
       in Inr (r', b\<lparr>be_comments := AList.update c r' (be_comments b)\<rparr>))"

definition comment_delete :: "backend \<Rightarrow> string \<Rightarrow> backend be_result" where
  "comment_delete b c =
     bind_ok (comment_get b c) (\<lambda>_. Inr (b\<lparr>be_comments := AList.delete c (be_comments b)\<rparr>))"

definition comments_of_item :: "backend \<Rightarrow> string \<Rightarrow> (string \<times> icomment) list" where
  "comments_of_item b k =
     sort_key (\<lambda>(c, r). cm_created r) (filter (\<lambda>(c, r). cm_item r = k) (be_comments b))"

definition comment_is_latest :: "backend \<Rightarrow> string \<Rightarrow> icomment \<Rightarrow> bool" where
  "comment_is_latest b c r =
     (let cs = comments_of_item b (cm_item r) in if cs = [] then True else fst (last cs) = c)"

lemma insort_key_snoc: "f y \<le> f x \<Longrightarrow> insort_key f y (zs @ [x]) = insort_key f y zs @ [x]"
  by (induction zs) auto

lemma sort_key_snoc: "(\<And>y. y \<in> set xs \<Longrightarrow> f y \<le> f x) \<Longrightarrow> sort_key f (xs @ [x]) = sort_key f xs @ [x]"
  by (induction xs) (simp_all add: insort_key_snoc)

text \<open>A comment that is written last, at a time no comment is later than, is the last of its thread.\<close>

lemma comments_of_item_create:
  assumes "comment_create b new_id k author body ts = Inr (r, b')"
    and "\<And>c x. (c, x) \<in> set (be_comments b) \<Longrightarrow> cm_item x = k \<Longrightarrow> cm_created x \<le> ts"
  shows "comments_of_item b' k = comments_of_item b k @ [(new_id, r)]"
proof -
  let ?f = "\<lambda>(c, r). cm_created r"
  let ?xs = "filter (\<lambda>(c, r). cm_item r = k) (be_comments b)"
  from assms(1) have r: "cm_item r = k" "cm_created r = ts"
    and b': "be_comments b' = be_comments b @ [(new_id, r)]"
    by (auto simp: comment_create_def Let_def split: if_splits)
  have "sort_key ?f (?xs @ [(new_id, r)]) = sort_key ?f ?xs @ [(new_id, r)]"
    using assms(2) r by (intro sort_key_snoc) auto
  with r show ?thesis by (simp add: comments_of_item_def b')
qed

lemma comment_create_is_latest:
  assumes "comment_create b new_id k author body ts = Inr (r, b')"
    and "\<And>c x. (c, x) \<in> set (be_comments b) \<Longrightarrow> cm_item x = k \<Longrightarrow> cm_created x \<le> ts"
  shows "comment_is_latest b' new_id r"
  using comments_of_item_create [OF assms] assms(1)
  by (auto simp: comment_is_latest_def comment_create_def Let_def split: if_splits)

end
