(* ===== verification/Failure_Ceiling.thy ===== *)
theory Failure_Ceiling
  imports Item_Comments Item_Crud
begin

text \<open>
  Counting failed dispatches from the comments of an item:
  \<^verbatim>\<open>crates/agentflare-bin-lib/src/dispatch_failure_ceiling.rs\<close>. The thread is the only record, so the
  counts are functions of the list of its comments. A cycle is the part of the thread from one
  dispatch marker to the next.
\<close>

section \<open>Markers\<close>

definition work_failure_marker :: string where
  "work_failure_marker = ''## agentflare work '' @ dash_utf8 @ '' failed''"

definition pr_creation_failed_marker :: string where
  "pr_creation_failed_marker = ''## agentflare work '' @ dash_utf8 @ '' PR creation failed''"

definition commit_failed_marker :: string where
  "commit_failed_marker = ''## agentflare work '' @ dash_utf8 @ '' commit failed''"

definition is_terminal_work_failure :: "string \<Rightarrow> bool" where
  "is_terminal_work_failure body =
     list_ex (\<lambda>m. starts_with m body) [work_failure_marker, pr_creation_failed_marker, commit_failed_marker]"

definition work_success_marker :: string where
  "work_success_marker = ''## agentflare work '' @ dash_utf8 @ '' complete''"

definition dispatch_marker :: string where
  "dispatch_marker = ''## supervisor '' @ dash_utf8 @ '' dispatched''"

definition dispatch_failure_cap_marker :: string where
  "dispatch_failure_cap_marker = ''## supervisor '' @ dash_utf8 @ '' identical failure cap reached''"

definition agent_failover_marker :: string where
  "agent_failover_marker = ''## agentflare work '' @ dash_utf8 @ '' moved to another agent''"

definition agent_unavailable_marker :: string where
  "agent_unavailable_marker = ''## agentflare work '' @ dash_utf8 @ '' agent unavailable''"

definition stopped_on_request_marker :: string where
  "stopped_on_request_marker = ''## agentflare work '' @ dash_utf8 @ '' stopped on request''"

definition worktree_collision_marker :: string where
  "worktree_collision_marker = ''is already used by worktree at''"

definition newline2 :: string where
  "newline2 = [CHR 10, CHR 10]"

definition dispatch_failure_cap :: nat where
  "dispatch_failure_cap = 3"

definition dispatch_failure_cap_any_reason :: nat where
  "dispatch_failure_cap_any_reason = 6"

section \<open>One comment\<close>

definition comment_failure_reason :: "string \<Rightarrow> string option" where
  "comment_failure_reason body =
     (case strip_prefix work_failure_marker body of
        None \<Rightarrow> None
      | Some rest \<Rightarrow> Some (case strip_prefix newline2 rest of None \<Rightarrow> [] | Some r \<Rightarrow> r))"

definition normalize_failure_reason :: "string \<Rightarrow> string" where
  "normalize_failure_reason reason = str_join '' '' (split_whitespace reason)"

definition is_worktree_branch_collision :: "string \<Rightarrow> bool" where
  "is_worktree_branch_collision body =
     (case comment_failure_reason body of None \<Rightarrow> False | Some r \<Rightarrow> str_contains worktree_collision_marker r)"

definition is_neutral_outcome :: "string \<Rightarrow> bool" where
  "is_neutral_outcome body \<longleftrightarrow>
     is_worktree_branch_collision body \<or>
     list_ex (\<lambda>m. starts_with m body)
       [agent_failover_marker, agent_unavailable_marker, stopped_on_request_marker]"

section \<open>Cycles\<close>

type_synonym thread = "icomment list"

definition thread_of :: "backend \<Rightarrow> string \<Rightarrow> thread" where
  "thread_of b k = map snd (comments_of_item b k)"

definition has_marker :: "string \<Rightarrow> icomment \<Rightarrow> bool" where
  "has_marker m c = starts_with m (cm_body c)"

text \<open>What comes before the first dispatch marker, and the cycles.\<close>

fun split_cycles :: "thread \<Rightarrow> thread \<times> thread list" where
  "split_cycles [] = ([], [])"
| "split_cycles (c # cs) =
     (case split_cycles cs of
        (pre, segs) \<Rightarrow> if has_marker dispatch_marker c then ([], (c # pre) # segs) else (c # pre, segs))"

definition cycles :: "thread \<Rightarrow> thread list" where
  "cycles cs = snd (split_cycles cs)"

definition segment_ended_neutral :: "thread \<Rightarrow> bool" where
  "segment_ended_neutral seg =
     (case find_last (\<lambda>c. comment_failure_reason (cm_body c) \<noteq> None \<or> is_neutral_outcome (cm_body c)) seg of
        None \<Rightarrow> False
      | Some c \<Rightarrow> is_neutral_outcome (cm_body c))"

definition segment_succeeded :: "thread \<Rightarrow> bool" where
  "segment_succeeded seg = list_ex (has_marker work_success_marker) seg"

definition segment_reported :: "thread \<Rightarrow> bool" where
  "segment_reported seg = list_ex (has_marker dispatch_failure_cap_marker) seg"

definition latest_failure_reason :: "thread \<Rightarrow> string option" where
  "latest_failure_reason cs =
     (case find_last (\<lambda>c. comment_failure_reason (cm_body c) \<noteq> None) cs of
        None \<Rightarrow> None
      | Some c \<Rightarrow> map_option normalize_failure_reason (comment_failure_reason (cm_body c)))"

definition stopped_on_request :: "thread \<Rightarrow> bool" where
  "stopped_on_request cs =
     (case find_last (\<lambda>c. list_ex (\<lambda>m. has_marker m c)
              [work_failure_marker, work_success_marker, dispatch_marker, agent_failover_marker,
               agent_unavailable_marker, stopped_on_request_marker]) cs of
        None \<Rightarrow> False
      | Some c \<Rightarrow> has_marker stopped_on_request_marker c)"

record dispatch_cycle =
  dc_reason :: string
  dc_reported :: bool

definition cycle_step :: "dispatch_cycle list \<Rightarrow> thread \<Rightarrow> dispatch_cycle list" where
  "cycle_step acc seg =
     (if segment_succeeded seg then []
      else if segment_ended_neutral seg then acc
      else case latest_failure_reason seg of
             None \<Rightarrow> []
           | Some r \<Rightarrow> acc @ [\<lparr>dc_reason = r, dc_reported = segment_reported seg\<rparr>])"

definition dispatch_cycle_failure_reasons :: "thread \<Rightarrow> dispatch_cycle list" where
  "dispatch_cycle_failure_reasons cs = foldl cycle_step [] (cycles cs)"

datatype coarse_outcome = CycleSuccess | CycleNotSuccess bool

definition coarse_of :: "thread \<Rightarrow> coarse_outcome option" where
  "coarse_of seg =
     (if segment_succeeded seg then Some CycleSuccess
      else if segment_ended_neutral seg then None
      else Some (CycleNotSuccess (segment_reported seg)))"

definition dispatch_cycle_coarse_outcomes :: "thread \<Rightarrow> coarse_outcome list" where
  "dispatch_cycle_coarse_outcomes cs = List.map_filter coarse_of (cycles cs)"

definition consecutive_failure_count_any_reason :: "thread \<Rightarrow> nat" where
  "consecutive_failure_count_any_reason cs =
     length (takeWhile (\<lambda>x. x = CycleNotSuccess False) (rev (dispatch_cycle_coarse_outcomes cs)))"

definition consecutive_identical_failure_count :: "thread \<Rightarrow> nat" where
  "consecutive_identical_failure_count cs =
     (case rev (dispatch_cycle_failure_reasons cs) of
        [] \<Rightarrow> 0
      | newest # older \<Rightarrow>
          if dc_reported newest then 1
          else 1 + length (takeWhile (\<lambda>c. \<not> (dc_reported c \<or> dc_reason c \<noteq> dc_reason newest)) older))"

section \<open>The thread grows\<close>

lemma has_marker_dispatch: "has_marker dispatch_marker c \<Longrightarrow>
   comment_failure_reason (cm_body c) = None \<and> \<not> is_neutral_outcome (cm_body c)
   \<and> \<not> has_marker work_success_marker c \<and> \<not> has_marker dispatch_failure_cap_marker c"
  by (auto simp: has_marker_def dispatch_marker_def work_success_marker_def dispatch_failure_cap_marker_def
      comment_failure_reason_def strip_prefix_def starts_with_def is_neutral_outcome_def is_worktree_branch_collision_def
      agent_failover_marker_def agent_unavailable_marker_def stopped_on_request_marker_def
      work_failure_marker_def prefix_def dash_utf8_def)

text \<open>A dispatch marker opens a cycle; any other comment extends the latest one.\<close>

lemma split_cycles_snoc:
  "split_cycles (cs @ [c]) =
     (case split_cycles cs of
        (pre, segs) \<Rightarrow>
          if has_marker dispatch_marker c then (pre, segs @ [[c]])
          else if segs = [] then (pre @ [c], [])
          else (pre, butlast segs @ [last segs @ [c]]))"
  by (induction cs) (auto split: prod.splits)

lemma cycles_dispatch: "has_marker dispatch_marker c \<Longrightarrow> cycles (cs @ [c]) = cycles cs @ [[c]]"
  by (simp add: cycles_def split_cycles_snoc split: prod.splits)

lemma cycles_outcome:
  "\<not> has_marker dispatch_marker c \<Longrightarrow> cycles cs \<noteq> []
     \<Longrightarrow> cycles (cs @ [c]) = butlast (cycles cs) @ [last (cycles cs) @ [c]]"
  by (cases "split_cycles cs") (simp add: cycles_def split_cycles_snoc)

lemma cycles_outcomes:
  assumes "\<And>c. c \<in> set os \<Longrightarrow> \<not> has_marker dispatch_marker c" "cycles cs = segs @ [seg]"
  shows "cycles (cs @ os) = segs @ [seg @ os]"
  using assms
proof (induction os rule: rev_induct)
  case (snoc c os)
  then have "cycles (cs @ os) = segs @ [seg @ os]" by simp
  with snoc.prems(1) show ?case using cycles_outcome [of c "cs @ os"] by simp
qed simp

lemma map_filter_append [simp]: "List.map_filter f (xs @ ys) = List.map_filter f xs @ List.map_filter f ys"
  by (induction xs) (simp_all add: map_filter_simps split: option.split)

lemma count_any_cycle:
  assumes "cycles cs' = cycles cs @ [seg]" "\<not> segment_succeeded seg" "\<not> segment_ended_neutral seg"
    "\<not> segment_reported seg"
  shows "consecutive_failure_count_any_reason cs' = consecutive_failure_count_any_reason cs + 1"
  using assms
  by (simp add: consecutive_failure_count_any_reason_def dispatch_cycle_coarse_outcomes_def coarse_of_def
      map_filter_simps)

section \<open>The two counts\<close>

text \<open>Cycles of the strict count are cycles of the loose one, with nothing between them.\<close>

lemma strict_cycles_are_loose:
  "\<exists>older. dispatch_cycle_coarse_outcomes cs = older @ map (\<lambda>c. CycleNotSuccess (dc_reported c))
     (dispatch_cycle_failure_reasons cs)"
proof -
  have "\<exists>older. List.map_filter coarse_of segs = older @ map (\<lambda>c. CycleNotSuccess (dc_reported c))
      (foldl cycle_step [] segs)" for segs
  proof (induction segs rule: rev_induct)
    case (snoc seg segs)
    then obtain older where "List.map_filter coarse_of segs
        = older @ map (\<lambda>c. CycleNotSuccess (dc_reported c)) (foldl cycle_step [] segs)" by blast
    then show ?case
      by (auto simp: map_filter_simps cycle_step_def [of _ seg] coarse_of_def [of seg] split: option.splits)
  qed (simp add: map_filter_simps)
  then show ?thesis by (simp add: dispatch_cycle_coarse_outcomes_def dispatch_cycle_failure_reasons_def)
qed

text \<open>The strict count never exceeds the loose one, except that it is 1 right after the cap was
  reported.\<close>

lemma identical_failures_counted_by_both:
  "consecutive_identical_failure_count cs \<le> max 1 (consecutive_failure_count_any_reason cs)"
proof -
  let ?m = "map (\<lambda>c. CycleNotSuccess (dc_reported c))"
  obtain older where c: "dispatch_cycle_coarse_outcomes cs = older @ ?m (dispatch_cycle_failure_reasons cs)"
    using strict_cycles_are_loose by blast
  show ?thesis
  proof (cases "rev (dispatch_cycle_failure_reasons cs)")
    case (Cons newest rest)
    have le: "length (takeWhile (\<lambda>c. \<not> (dc_reported c \<or> dc_reason c \<noteq> r)) xs)
        \<le> length (takeWhile (\<lambda>x. x = CycleNotSuccess False) (?m xs @ ys))" for r xs ys
      by (induction xs) auto
    then show ?thesis
      using Cons le [of "dc_reason newest" rest "rev older"]
      by (simp add: consecutive_identical_failure_count_def consecutive_failure_count_any_reason_def c
          rev_map)
  qed (simp add: consecutive_identical_failure_count_def)
qed

end
