(* ===== verification/Quota_Decide.thy ===== *)
theory Quota_Decide
  imports Quota_Goal Failure_Ceiling
begin

text \<open>
  The dispatch decision of \<^verbatim>\<open>src/quota/decide.rs\<close>: whether the supervisor runs an item, repairs
  its goal, asks a human, waits or stays quiet, and what the fold for the supervisor writes back.
  The agents are those of \<^verbatim>\<open>crates/agent-registry/src/registry.rs\<close>; the move to another agent is
  \<^verbatim>\<open>src/quota/failover.rs\<close>.
\<close>

section \<open>Agents\<close>

datatype agent_kind =
    ClaudeCode | Codex | Cursor | Windsurf | VscodeCopilot | Cline | Continue | Opencode | GeminiCli
  | GithubCopilotCli | Aider | Cody | Goose | Amp | Kiro | Antigravity | Grok | Kimi | Openclaw | Droid

fun agent_name :: "agent_kind \<Rightarrow> string" where
  "agent_name ClaudeCode = ''claude-code''" | "agent_name Codex = ''codex''"
| "agent_name Cursor = ''cursor''" | "agent_name Windsurf = ''windsurf''"
| "agent_name VscodeCopilot = ''vscode-copilot''" | "agent_name Cline = ''cline''"
| "agent_name Continue = ''continue''" | "agent_name Opencode = ''opencode''"
| "agent_name GeminiCli = ''gemini-cli''" | "agent_name GithubCopilotCli = ''github-copilot-cli''"
| "agent_name Aider = ''aider''" | "agent_name Cody = ''cody''" | "agent_name Goose = ''goose''"
| "agent_name Amp = ''amp''" | "agent_name Kiro = ''kiro''"
| "agent_name Antigravity = ''antigravity''" | "agent_name Grok = ''grok''"
| "agent_name Kimi = ''kimi''" | "agent_name Openclaw = ''openclaw''" | "agent_name Droid = ''droid''"

definition agent_registry :: "agent_kind list" where
  "agent_registry =
     [ClaudeCode, Codex, Cursor, Windsurf, Opencode, GeminiCli, GithubCopilotCli, Aider, Cody, Goose,
      Amp, Kiro, Antigravity, Grok, Kimi, Openclaw, Droid, VscodeCopilot, Cline, Continue]"

definition agent_by_name :: "string \<Rightarrow> agent_kind option" where
  "agent_by_name name = find (\<lambda>a. agent_name a = agent_canonicalize name) agent_registry"

fun headless_args :: "agent_kind \<Rightarrow> string list option" where
  "headless_args ClaudeCode = Some [''-p'']"
| "headless_args GeminiCli = Some [''-p'']"
| "headless_args Cursor = Some [''-p'']"
| "headless_args Antigravity = Some [''-p'']"
| "headless_args Codex = Some [''exec'']"
| "headless_args Opencode = Some [''run'']"
| "headless_args Cline = Some []"
| "headless_args _ = None"

fun autonomous_args :: "agent_kind \<Rightarrow> string list option" where
  "autonomous_args ClaudeCode = Some [''--dangerously-skip-permissions'']"
| "autonomous_args Antigravity = Some [''--dangerously-skip-permissions'']"
| "autonomous_args Codex =
     Some [''--sandbox'', ''workspace-write'', ''-c'', ''approval_policy='' @ [CHR 34] @ ''never'' @ [CHR 34]]"
| "autonomous_args GeminiCli = Some [''--yolo'']"
| "autonomous_args Opencode = Some [''--auto'']"
| "autonomous_args Cursor = Some [''--force'', ''--trust'', ''--approve-mcps'']"
| "autonomous_args Cline = Some [''--auto-approve'', ''true'']"
| "autonomous_args _ = None"

definition resolve_confirmed_agent :: "string \<Rightarrow> agent_kind option" where
  "resolve_confirmed_agent assignee =
     (case find (\<lambda>a. agent_name a = agent_part assignee) agent_registry of
        None \<Rightarrow> None
      | Some a \<Rightarrow> if autonomous_args a = None then None else Some a)"

section \<open>The decision\<close>

datatype action_kind = ActRun | ActAsk | ActWait | ActSelfRepair | ActStayQuiet

record decision =
  dn_should_run :: bool
  dn_action :: action_kind
  dn_reason :: string
  dn_question :: "string option"

definition self_repair_cap :: nat where
  "self_repair_cap = 3"

definition decide_run :: "string \<Rightarrow> decision" where
  "decide_run r = \<lparr>dn_should_run = True, dn_action = ActRun, dn_reason = r, dn_question = None\<rparr>"

definition decide_ask :: "string \<Rightarrow> string \<Rightarrow> decision" where
  "decide_ask r q = \<lparr>dn_should_run = False, dn_action = ActAsk, dn_reason = r, dn_question = Some q\<rparr>"

definition decide_self_repair :: "string \<Rightarrow> decision" where
  "decide_self_repair r = \<lparr>dn_should_run = True, dn_action = ActSelfRepair, dn_reason = r, dn_question = None\<rparr>"

definition decide_wait :: "string \<Rightarrow> decision" where
  "decide_wait r = \<lparr>dn_should_run = False, dn_action = ActWait, dn_reason = r, dn_question = None\<rparr>"

definition decide_stay_quiet :: "string \<Rightarrow> decision" where
  "decide_stay_quiet r =
     \<lparr>dn_should_run = False, dn_action = ActStayQuiet, dn_reason = r, dn_question = None\<rparr>"

definition fail_closed :: "string \<Rightarrow> decision" where
  "fail_closed r = decide_ask r
     ''This goal's saved state is invalid and needs a human to fix it before work can continue.''"

definition severity_rank :: "string \<Rightarrow> nat" where
  "severity_rank s = (if s = ''critical'' then 3 else if s = ''high'' then 2 else if s = ''medium'' then 1 else 0)"

definition backend_claim_ttl_secs :: "be_env \<Rightarrow> int" where
  "backend_claim_ttl_secs E =
     as_i64 (case Option.bind (en_item_ttl_var E) parse_u64 of None \<Rightarrow> 14400 | Some n \<Rightarrow> n)"

text \<open>The actionable vents of the goal's project that are linked to the goal or to the item.\<close>

definition linked_vents :: "backend \<Rightarrow> string \<Rightarrow> string \<Rightarrow> string \<Rightarrow> vent list" where
  "linked_vents b project goal k =
     filter (\<lambda>v. vt_item v = Some goal \<or> vt_item v = Some k)
       (map snd (filter (\<lambda>(_, v). vt_project v = project \<and> vt_actionable v) (be_vents b)))"

text \<open>Tiers 1 and 2, for an item under a goal.\<close>

definition goal_tiers :: "backend \<Rightarrow> string \<Rightarrow> string \<times> item \<Rightarrow> goal_meta \<Rightarrow> decision option" where
  "goal_tiers b k gi g =
     (let linked = linked_vents b (it_project (snd gi)) (fst gi) k in
      if linked \<noteq> [] then Some (
        if list_ex (\<lambda>v. severity_rank (vt_severity v) \<ge> severity_rank ''high'') linked
        then decide_ask ''a high-severity friction report is linked to this goal''
               (''An unresolved high-severity friction report is linked to this goal '' @ dash_utf8
                 @ '' please review before continuing.'')
        else if gm_repairs g \<ge> self_repair_cap
        then decide_ask (''self-repair cap ('' @ show_nat self_repair_cap
                          @ '') reached with friction still linked'')
               (''This goal has hit its self-repair limit while friction reports remain unresolved ''
                 @ dash_utf8 @ '' please review.'')
        else decide_self_repair ''low/medium-severity friction linked; repairing under cap'')
      else if gm_lifecycle g = GoalGated
      then Some (decide_ask ''goal lifecycle is gated pending a human answer''
                   ''This goal is waiting on a human answer before it can continue.'')
      else None)"

text \<open>Tier 3: a started sibling under the goal whose claim has gone stale.\<close>

definition stale_sibling :: "be_env \<Rightarrow> backend \<Rightarrow> time \<Rightarrow> string \<times> item \<Rightarrow> bool" where
  "stale_sibling E b now sib =
     (case wstate_get b (it_state (snd sib)) of
        Inl _ \<Rightarrow> False
      | Inr s \<Rightarrow>
          ws_group s = ''started'' \<and>
          item_owner_now E b (fst sib) now \<noteq> None \<and>
          \<not> has_active_claim_by_other (be_claims b) (fst sib) '''' now
              (item_effective_ttl E b (fst sib) (backend_claim_ttl_secs E)))"

definition sibling_tier :: "be_env \<Rightarrow> backend \<Rightarrow> time \<Rightarrow> string \<Rightarrow> string \<times> item \<Rightarrow> decision option" where
  "sibling_tier E b now k gi =
     map_option (\<lambda>sib. decide_wait (''sibling item '' @ fst sib @ '' is started with a stale claim''))
       (find (stale_sibling E b now)
         (filter (\<lambda>(j, s). it_parent s = Some (fst gi) \<and> j \<noteq> k)
           (items_of_project b (it_project (snd gi)))))"

text \<open>Tiers 4 to 6: a live claim on the item, an open dependency, an agent that cannot run alone.\<close>

definition item_tiers :: "be_env \<Rightarrow> backend \<Rightarrow> time \<Rightarrow> string \<Rightarrow> item \<Rightarrow> decision" where
  "item_tiers E b now k it =
     (let ttl = item_effective_ttl E b k (backend_claim_ttl_secs E) in
      case live_claim_on_item (be_claims b) k now ttl of
        Some l \<Rightarrow> decide_wait ([CHR 39] @ live_owner l @ [CHR 39]
                    @ '' already holds a live claim on this item (active '' @ show_int (live_age_secs l)
                    @ ''s ago)'')
      | None \<Rightarrow>
          if list_dependencies b k \<noteq> [] \<and> \<not> all_dependencies_completed E b k
          then decide_wait ''a blocking dependency is not completed yet''
          else if resolve_confirmed_agent (case it_assignee it of None \<Rightarrow> [] | Some a \<Rightarrow> a) = None
          then decide_stay_quiet
                 (case it_assignee it of
                    None \<Rightarrow> ''no assignee_agent set '' @ dash_utf8 @ '' cannot auto-dispatch''
                  | Some a \<Rightarrow> ''assignee '' @ [CHR 39] @ a @ [CHR 39]
                      @ '' is not a confirmed-autonomous agent'')
          else decide_run ''eligible and nothing blocking'')"

text \<open>\<open>None\<close> is a walk to the goal that does not come back.\<close>

definition decide :: "be_env \<Rightarrow> backend \<Rightarrow> time \<Rightarrow> string \<Rightarrow> item \<Rightarrow> decision option" where
  "decide E b now k it =
     (case find_goal_ancestor E b k it of
        None \<Rightarrow> None
      | Some (Inl e) \<Rightarrow> Some (fail_closed (''goal_state_invalid: '' @ e))
      | Some (Inr None) \<Rightarrow> Some (item_tiers E b now k it)
      | Some (Inr (Some (gi, g))) \<Rightarrow>
          (case goal_tiers b k gi g of
             Some d \<Rightarrow> Some d
           | None \<Rightarrow>
               (case sibling_tier E b now k gi of
                  Some d \<Rightarrow> Some d
                | None \<Rightarrow> Some (item_tiers E b now k it))))"

section \<open>Moving to another agent\<close>

text \<open>
  What failover reads outside the database: the environment variable and the configuration, the
  agents that are cooling down or over their usage, the agents looked for in vain a short while
  ago, and the candidates the router names for an item.
\<close>

record failover_env =
  fo_var :: "string option"
  fo_config_enabled :: bool
  fo_unavailable :: "string \<Rightarrow> (time \<times> string) option"
  fo_over_threshold :: "agent_kind \<Rightarrow> bool"
  fo_recent_miss :: "agent_kind \<Rightarrow> bool"
  fo_candidates :: "item \<Rightarrow> string list \<Rightarrow> agent_kind \<Rightarrow> agent_kind list"
  fo_author :: string
  fo_format_unix :: "time \<Rightarrow> string"

definition env_disabled :: "failover_env \<Rightarrow> bool" where
  "env_disabled F =
     (case fo_var F of
        None \<Rightarrow> False
      | Some v \<Rightarrow> to_lowercase (trim v) \<in> {''0'', ''false'', ''off'', ''no''})"

definition failover_enabled_for :: "be_env \<Rightarrow> failover_env \<Rightarrow> string \<Rightarrow> bool" where
  "failover_enabled_for E F meta \<longleftrightarrow>
     \<not> env_disabled F \<and> fo_config_enabled F \<and>
     Option.bind (en_parse E meta) (\<lambda>v. Option.bind (json_key ''failover'' v) json_bool) \<noteq> Some False"

definition item_allowed_agents :: "be_env \<Rightarrow> string \<Rightarrow> agent_kind list option" where
  "item_allowed_agents E meta =
     (case Option.bind (en_parse E meta) (json_key ''allowed_agents'') of
        Some (JArr vs) \<Rightarrow>
          Some (List.map_filter (\<lambda>v. Option.bind (json_str v) (\<lambda>s. agent_by_name (agent_part s))) vs)
      | _ \<Rightarrow> None)"

definition known_unavailable :: "failover_env \<Rightarrow> agent_kind \<Rightarrow> bool" where
  "known_unavailable F a \<longleftrightarrow> fo_unavailable F (agent_name a) \<noteq> None \<or> fo_over_threshold F a"

definition choose_alternative ::
  "agent_kind list \<Rightarrow> agent_kind list option \<Rightarrow> (agent_kind \<Rightarrow> bool) \<Rightarrow> agent_kind option" where
  "choose_alternative candidates allowed available =
     find (\<lambda>a. autonomous_args a \<noteq> None \<and> headless_args a \<noteq> None
             \<and> (case allowed of None \<Rightarrow> True | Some l \<Rightarrow> a \<in> set l) \<and> available a) candidates"

definition find_alternative ::
  "be_env \<Rightarrow> failover_env \<Rightarrow> item \<Rightarrow> string list \<Rightarrow> agent_kind \<Rightarrow> agent_kind option" where
  "find_alternative E F it labels exclude =
     (if \<not> failover_enabled_for E F (it_metadata it) then None
      else choose_alternative (fo_candidates F it labels exclude)
             (item_allowed_agents E (it_metadata it)) (\<lambda>a. \<not> known_unavailable F a))"

definition record_failover ::
  "be_env \<Rightarrow> failover_env \<Rightarrow> backend \<Rightarrow> string \<Rightarrow> agent_kind \<Rightarrow> agent_kind \<Rightarrow> string \<Rightarrow> string \<Rightarrow> time
     \<Rightarrow> backend be_result" where
  "record_failover E F b k src dst reason new_id ts =
     (let line = ''moved from '' @ agent_name src @ '' to '' @ agent_name dst @ '': '' @ reason in
      bind_ok (item_get b k) (\<lambda>it.
      let meta = (case en_parse E (it_metadata it) of None \<Rightarrow> JObj [] | Some v \<Rightarrow> v);
          dropped = Option.bind (json_key ''model'' meta) json_str;
          meta' = (case meta of JObj ob \<Rightarrow> JObj (swap_remove ''model'' ob) | v \<Rightarrow> v);
          repeated = (case find_last (\<lambda>(c, r). str_contains agent_failover_marker (cm_body r))
                          (comments_of_item b k) of
                        None \<Rightarrow> False
                      | Some (c, r) \<Rightarrow> str_contains line (cm_body r));
          body = agent_failover_marker @ newline2 @ line
                 @ (case dropped of
                      None \<Rightarrow> []
                    | Some m \<Rightarrow> newline2 @ ''Dropped the item's model pin `'' @ m @ ''` (it was for ''
                        @ agent_name src @ '').'')
      in bind_ok (item_update E b k ts
            (no_update\<lparr>ui_assignee := Some (agent_name dst),
               ui_metadata := (if dropped = None then None else Some (en_print E meta'))\<rparr>)) (\<lambda>(_, b1).
         if repeated then Inr b1
         else bind_ok (comment_create b1 new_id k (fo_author F) body ts) (\<lambda>(_, b2). Inr b2))))"

definition item_label_names :: "backend \<Rightarrow> string \<Rightarrow> string list" where
  "item_label_names b k =
     List.map_filter (\<lambda>l. case wlabel_get b l of Inl _ \<Rightarrow> None | Inr r \<Rightarrow> Some (wl_name r)) (list_labels b k)"

text \<open>The second component tells whether the search in vain is remembered for the agent.\<close>

definition failover_before_dispatch ::
  "be_env \<Rightarrow> failover_env \<Rightarrow> backend \<Rightarrow> string \<Rightarrow> item \<Rightarrow> string \<Rightarrow> time
     \<Rightarrow> agent_kind option \<times> bool \<times> backend" where
  "failover_before_dispatch E F b k it new_id ts =
     (case Option.bind (it_assignee it) resolve_confirmed_agent of
        None \<Rightarrow> (None, False, b)
      | Some agent \<Rightarrow>
        (case fo_unavailable F (agent_name agent) of
           None \<Rightarrow> (None, False, b)
         | Some (until, reason) \<Rightarrow>
           if fo_recent_miss F agent then (None, False, b)
           else
             (case find_alternative E F it (item_label_names b k) agent of
                None \<Rightarrow> (None, failover_enabled_for E F (it_metadata it)
                                \<and> item_allowed_agents E (it_metadata it) = None, b)
              | Some dst \<Rightarrow>
                  let why = agent_name agent @ '' is unavailable ('' @ reason @ '') until ''
                            @ fo_format_unix F until
                  in (case record_failover E F b k agent dst why new_id ts of
                        Inl _ \<Rightarrow> (None, False, b)
                      | Inr b' \<Rightarrow> (Some dst, False, b')))))"

section \<open>The fold for the supervisor\<close>

datatype effective_action = EaRun | EaSelfRepair | EaWait string | EaAsk string | EaStayQuiet

definition save_goal_quietly :: "be_env \<Rightarrow> backend \<Rightarrow> string \<Rightarrow> time \<Rightarrow> goal_meta \<Rightarrow> backend" where
  "save_goal_quietly E b k ts g = (case save_goal_metadata E b k ts g of Inl _ \<Rightarrow> b | Inr (_, b') \<Rightarrow> b')"

definition gate_goal :: "goal_meta \<Rightarrow> goal_meta" where
  "gate_goal g =
     g\<lparr>gm_repairs := 0,
       gm_lifecycle := (case lifecycle_apply (gm_lifecycle g) LifeGate of
                          None \<Rightarrow> gm_lifecycle g | Some l \<Rightarrow> l)\<rparr>"

definition goal_above :: "be_env \<Rightarrow> backend \<Rightarrow> string \<Rightarrow> item \<Rightarrow> ((string \<times> item) \<times> goal_meta) option" where
  "goal_above E b k it = (case find_goal_ancestor E b k it of Some (Inr g) \<Rightarrow> g | _ \<Rightarrow> None)"

definition decide_for_supervisor ::
  "be_env \<Rightarrow> failover_env \<Rightarrow> backend \<Rightarrow> time \<Rightarrow> string \<Rightarrow> item \<Rightarrow> string \<Rightarrow> time
     \<Rightarrow> (effective_action \<times> backend) option" where
  "decide_for_supervisor E F b now k it new_id ts =
     (case decide E b now k it of
        None \<Rightarrow> None
      | Some d \<Rightarrow>
        let goal = goal_above E b k it in
        Some (case dn_action d of
          ActRun \<Rightarrow>
            (case failover_before_dispatch E F b k it new_id ts of
               (Some dst, _, b') \<Rightarrow>
                 (EaWait (''assignee unavailable -- moved to '' @ agent_name dst
                            @ ''; dispatching on the next tick''), b')
             | (None, _, b') \<Rightarrow> (EaRun, b'))
        | ActSelfRepair \<Rightarrow>
            (EaSelfRepair,
             case goal of
               None \<Rightarrow> b
             | Some (gi, g) \<Rightarrow> save_goal_quietly E b (fst gi) ts (g\<lparr>gm_repairs := gm_repairs g + 1\<rparr>))
        | ActWait \<Rightarrow> (EaWait (dn_reason d), b)
        | ActAsk \<Rightarrow>
            let b1 = (case goal of
                        None \<Rightarrow> b
                      | Some (gi, g) \<Rightarrow> save_goal_quietly E b (fst gi) ts (gate_goal g));
                b2 = b1\<lparr>be_asks := be_asks b1 @
                       [\<lparr>ask_project = it_project it, ask_goal = map_option (\<lambda>(gi, _). fst gi) goal,
                         ask_item = k, ask_agent = it_assignee it, ask_reason = dn_reason d,
                         ask_question = dn_question d, ask_at = now\<rparr>]\<rparr>
            in (EaAsk (case dn_question d of None \<Rightarrow> dn_reason d | Some q \<Rightarrow> q), b2)
        | ActStayQuiet \<Rightarrow> (EaStayQuiet, b)))"

end
