(* ===== verification/Project_Dirs.thy ===== *)
theory Project_Dirs
  imports Plan_Gate
begin

text \<open>
  Projects and the folders they are registered at:
  \<^verbatim>\<open>crates/agentflare-backend/src/project.rs\<close>, \<^verbatim>\<open>project_dir.rs\<close>. The daemon walks the folders of
  the active projects; a folder belongs to one project.
\<close>

definition project_get :: "backend \<Rightarrow> string \<Rightarrow> wproject be_result" where
  "project_get b p =
     (case live_row pj_deleted (be_projects b) p of None \<Rightarrow> Inl (BNotFound p) | Some r \<Rightarrow> Inr r)"

definition dir_upsert :: "backend \<Rightarrow> string \<Rightarrow> string \<Rightarrow> time \<Rightarrow> backend be_result" where
  "dir_upsert b p folder now =
     (case find (\<lambda>(_, f, _). f = folder) (be_dirs b) of
        Some (q, _) \<Rightarrow>
          if q \<noteq> p
          then Inl (BDuplicate (''folder_path '' @ folder @ '' is already registered to project '' @ q
                     @ '', refusing to also register it to '' @ p))
          else Inr (b\<lparr>be_dirs := AList.update p (folder, now) (be_dirs b)\<rparr>)
      | None \<Rightarrow>
          if p \<notin> fst ` set (be_projects b) then Inl (BDatabase ''FOREIGN KEY'')
          else Inr (b\<lparr>be_dirs := AList.update p (folder, now) (be_dirs b)\<rparr>))"

definition dir_list :: "backend \<Rightarrow> (string \<times> string \<times> time) list" where
  "dir_list b =
     sort_key fst (filter (\<lambda>(p, _). case map_of (be_projects b) p of
                             None \<Rightarrow> False
                           | Some r \<Rightarrow> pj_deleted r = None \<and> pj_archived r = None) (be_dirs b))"

definition dir_list_all :: "backend \<Rightarrow> (string \<times> string \<times> time) list" where
  "dir_list_all b = sort_key fst (be_dirs b)"

definition dir_remove :: "backend \<Rightarrow> string \<Rightarrow> backend" where
  "dir_remove b p = b\<lparr>be_dirs := AList.delete p (be_dirs b)\<rparr>"

text \<open>The repositories the GitHub bridge polls are not in these tables.\<close>

definition project_delete :: "backend \<Rightarrow> string \<Rightarrow> time \<Rightarrow> backend be_result" where
  "project_delete b p ts =
     bind_ok (project_get b p) (\<lambda>r. Inr (dir_remove
       (b\<lparr>be_projects := AList.update p (r\<lparr>pj_deleted := Some ts\<rparr>) (be_projects b)\<rparr>) p))"

definition set_archived :: "backend \<Rightarrow> string \<Rightarrow> bool \<Rightarrow> time \<Rightarrow> backend be_result" where
  "set_archived b p archived ts =
     bind_ok (project_get b p) (\<lambda>r.
       let at = (if archived then Some (case pj_archived r of None \<Rightarrow> ts | Some t \<Rightarrow> t) else None)
       in Inr (b\<lparr>be_projects := AList.update p (r\<lparr>pj_archived := at\<rparr>) (be_projects b)\<rparr>))"

text \<open>Every project has one row, and no two projects share a folder.\<close>

definition dirs_ok :: "backend \<Rightarrow> bool" where
  "dirs_ok b \<longleftrightarrow> distinct (map fst (be_dirs b)) \<and> distinct (map (fst \<circ> snd) (be_dirs b))"

lemma update_snd_distinct:
  assumes "distinct (map fst xs)" "distinct (map (g \<circ> snd) xs)"
    and "\<And>k v. (k, v) \<in> set xs \<Longrightarrow> g v = g w \<Longrightarrow> k = p"
  shows "distinct (map (g \<circ> snd) (AList.update p w xs))"
  using assms
proof (induction xs)
  case (Cons e xs)
  obtain k v where e: "e = (k, v)" by (cases e)
  have ih: "distinct (map (g \<circ> snd) (AList.update p w xs))"
    using Cons.prems by (intro Cons.IH) auto
  show ?case
  proof (cases "k = p")
    case True
    have "g w \<notin> (g \<circ> snd) ` set xs"
    proof
      assume "g w \<in> (g \<circ> snd) ` set xs"
      then obtain k' v' where m: "(k', v') \<in> set xs" "g v' = g w" by auto
      then have "k' = p" using Cons.prems(3) [of k' v'] by simp
      with m(1) Cons.prems(1) True e show False by (metis distinct.simps(2) fst_conv image_eqI list.simps(9) set_map)
    qed
    with True e Cons.prems(2) show ?thesis by simp
  next
    case False
    have "g v \<noteq> g w" using Cons.prems(3) [of k v] False e by auto
    moreover have "g v \<notin> (g \<circ> snd) ` set xs" using Cons.prems(2) e by simp
    moreover have "(g \<circ> snd) ` set (AList.update p w xs) \<subseteq> insert (g w) ((g \<circ> snd) ` set xs)"
      using image_mono [OF set_update_subset [of p w xs], of "g \<circ> snd"] by simp
    ultimately have "g v \<notin> (g \<circ> snd) ` set (AList.update p w xs)" by (meson insertE subsetD)
    with False e ih show ?thesis by (simp add: comp_def)
  qed
qed simp

lemma dirs_ok_upsert:
  assumes "dirs_ok b" "dir_upsert b p folder now = Inr b'"
  shows "dirs_ok b'"
proof -
  have same: "k = p" if "(k, v) \<in> set (be_dirs b)" "fst v = folder" for k v
  proof -
    let ?P = "\<lambda>(_, f, _). f = folder"
    obtain f t where v: "v = (f, t)" by (cases v)
    with that have "find ?P (be_dirs b) \<noteq> None" by (auto simp: find_None_iff)
    then obtain q f' t' where f: "find ?P (be_dirs b) = Some (q, f', t')" by auto
    with assms(2) have "q = p" by (auto simp: dir_upsert_def split: if_splits)
    from f have m: "(q, f', t') \<in> set (be_dirs b)" "f' = folder"
      by (auto simp: find_Some_iff dest: nth_mem)
    have "inj_on (fst \<circ> snd) (set (be_dirs b))" using assms(1) by (simp add: dirs_ok_def distinct_map)
    from inj_onD [OF this _ m(1) that(1)] m(2) that(2) \<open>q = p\<close> show ?thesis by simp
  qed
  from assms have "b' = b\<lparr>be_dirs := AList.update p (folder, now) (be_dirs b)\<rparr>"
    by (auto simp: dir_upsert_def split: option.splits if_splits)
  with assms(1) show ?thesis
    using same by (auto simp: dirs_ok_def distinct_update comp_def
        intro!: update_snd_distinct [of "be_dirs b" fst, unfolded comp_def])
qed

text \<open>A folder the daemon walks belongs to a project that is neither deleted nor archived.\<close>

lemma dir_list_active:
  assumes "(p, folder, t) \<in> set (dir_list b)"
  shows "\<exists>r. project_get b p = Inr r \<and> pj_archived r = None"
  using assms by (auto simp: dir_list_def project_get_def live_row_def split: option.splits)

end
