(* ===== verification/Supervisor_Tick.thy ===== *)
theory Supervisor_Tick
  imports Quota_Decide Project_Dirs Job_Queue Gate_Policy
begin

text \<open>
  The discovery tick of \<^verbatim>\<open>src/supervisor.rs\<close>: over every registered project, the items labelled ready
  for work are dispatched, gated, skipped or left for a later tick. A job is a row of the queue of
  \<open>Job_Queue\<close>. The items of a tick are read once, at its start. Other processes work on the same
  tables: \<open>others\<close> is what they do at each \<open>moment\<close>, before an item's turn, between the look for a job
  in flight and the enqueueing, which are two calls of the queue, and between the enqueueing and the
  record on the item. Messages to a person are not modelled.
\<close>

section \<open>Labels and surroundings\<close>

definition dispatched_label :: string where
  "dispatched_label = ''dispatched''"

definition needs_manual_label :: string where
  "needs_manual_label = ''needs-manual-dispatch''"

definition paused_label :: string where
  "paused_label = ''paused''"

definition needs_human_gate_label :: string where
  "needs_human_gate_label = ''needs-human-gate''"

definition needs_decision_label :: string where
  "needs_decision_label = ''needs-decision''"

text \<open>
  \<open>se_cooling\<close> is the table of agents that are cooling down, \<open>se_policy\<close> what the resource gate says,
  \<open>se_dir_exists\<close> the file system; \<open>se_id\<close> draws ids, for a purpose and an item or project;
  \<open>se_pool_size\<close> is the size of the worker pool the resource gate computes.
\<close>

record sup_env =
  se_be :: be_env
  se_fo :: failover_env
  se_author :: string
  se_cooling :: "string \<Rightarrow> bool"
  se_policy :: gate_policy
  se_dir_exists :: "string \<Rightarrow> bool"
  se_now :: time
  se_ts :: time
  se_id :: "string \<Rightarrow> string \<Rightarrow> string"
  se_max_per_project :: "string option"
  se_max_concurrency :: "string option"
  se_pool_size :: nat

text \<open>\<open>sw_gated\<close> are the keys this process has already told a person about.\<close>

record sup_world =
  sw_db :: backend
  sw_queue :: job_queue
  sw_gated :: "string list"

text \<open>The moments of an item's turn at which other processes are given their say.\<close>

datatype moment = BeforeTurn string | BeforeEnqueue string | BeforeRecord string

type_synonym interference = "moment \<Rightarrow> sup_world \<Rightarrow> sup_world"

type_synonym label_map = "string \<Rightarrow> string option"

definition first_time_gated :: "sup_world \<Rightarrow> string \<Rightarrow> bool \<times> sup_world" where
  "first_time_gated w key =
     (if key \<in> set (sw_gated w) then (False, w) else (True, w\<lparr>sw_gated := key # sw_gated w\<rparr>))"

definition label_ids :: "backend \<Rightarrow> string \<Rightarrow> label_map" where
  "label_ids b p = map_of (rev (map (\<lambda>(k, r). (wl_name r, k)) (labels_of_project b p)))"

definition ensure_label ::
  "sup_env \<Rightarrow> backend \<Rightarrow> string \<Rightarrow> string \<Rightarrow> label_map \<Rightarrow> bool \<times> backend \<times> label_map" where
  "ensure_label S b p name m =
     (case project_get b p of
        Inl _ \<Rightarrow> (False, b, m)
      | Inr pr \<Rightarrow>
          (case wlabel_create b (se_id S name p) (Some p) (pj_workspace pr) name None None None None None
                  (se_ts S) of
             Inr (r, b') \<Rightarrow> (True, b', m(wl_name r \<mapsto> se_id S name p))
           | Inl (BDuplicate _) \<Rightarrow>
               (case label_by_name b p name of
                  Inr (l, r) \<Rightarrow> (True, b, m(wl_name r \<mapsto> l))
                | Inl _ \<Rightarrow> (False, b, m))
           | Inl _ \<Rightarrow> (False, b, m)))"

section \<open>Reading the ready items\<close>

record project_batch =
  pb_folder :: string
  pb_items :: "(string \<times> item) list"
  pb_labels :: label_map
  pb_ready :: string

definition ensure_if_missing ::
  "sup_env \<Rightarrow> string \<Rightarrow> string \<Rightarrow> backend \<times> label_map \<Rightarrow> backend \<times> label_map" where
  "ensure_if_missing S p name bm =
     (case bm of (b, m) \<Rightarrow> if m name = None then snd (ensure_label S b p name m) else (b, m))"

definition project_batch_of ::
  "sup_env \<Rightarrow> backend \<Rightarrow> string \<times> string \<times> time \<Rightarrow> project_batch option \<times> backend" where
  "project_batch_of S b d =
     (case d of (p, folder, _) \<Rightarrow>
        if \<not> se_dir_exists S folder then (None, b)
        else (case label_ids b p ready_label of
                None \<Rightarrow> (None, b)
              | Some ready \<Rightarrow>
                  (case ensure_if_missing S p needs_manual_label
                          (ensure_if_missing S p dispatched_label (b, label_ids b p)) of
                     (b', m) \<Rightarrow>
                       (Some \<lparr>pb_folder = folder, pb_items = items_by_label b' p ready, pb_labels = m,
                              pb_ready = ready\<rparr>, b'))))"

fun collect_batches ::
  "sup_env \<Rightarrow> (string \<times> string \<times> time) list \<Rightarrow> backend \<Rightarrow> project_batch list \<times> backend" where
  "collect_batches S [] b = ([], b)"
| "collect_batches S (d # ds) b =
     (case project_batch_of S b d of
        (x, b1) \<Rightarrow>
          (case collect_batches S ds b1 of
             (bs, b2) \<Rightarrow> (case x of None \<Rightarrow> bs | Some B \<Rightarrow> B # bs, b2)))"

section \<open>The queue\<close>

definition job_has_arg :: "string \<Rightarrow> nat option \<Rightarrow> agent_job \<Rightarrow> bool" where
  "job_has_arg v index job =
     (case index of
        Some i \<Rightarrow> i < length (aj_args job) \<and> aj_args job ! i = v
      | None \<Rightarrow> v \<in> set (aj_args job))"

definition row_is_active :: "job_row \<Rightarrow> bool" where
  "row_is_active r \<longleftrightarrow> jr_state r = ''queued'' \<or> jr_state r = ''running''"

text \<open>The payload of a row that \<open>enqueue\<close> wrote always parses.\<close>

definition count_active_with_arg :: "string \<Rightarrow> nat option \<Rightarrow> job_queue \<Rightarrow> nat" where
  "count_active_with_arg v index q =
     length (filter (\<lambda>r. row_is_active r \<and> (case jr_payload r of None \<Rightarrow> False
                                           | Some job \<Rightarrow> job_has_arg v index job)) (agent_jobs q))"

definition job_in_flight :: "job_queue \<Rightarrow> string \<Rightarrow> bool" where
  "job_in_flight q k \<longleftrightarrow> count_active_with_arg k None q > 0"

definition item_model_override :: "be_env \<Rightarrow> string \<Rightarrow> string option" where
  "item_model_override E meta =
     Option.bind (en_parse E meta) (\<lambda>v. Option.bind (json_key ''model'' v) json_str)"

definition work_job_timeout_secs :: nat where
  "work_job_timeout_secs = 21900"

definition work_job ::
  "be_env \<Rightarrow> string \<Rightarrow> item \<Rightarrow> agent_kind \<Rightarrow> string option \<Rightarrow> string option \<Rightarrow> agent_job" where
  "work_job E k it agent folder reason =
     (new_job ''agentflare-work'')
       \<lparr>aj_args := [k, agent_name agent]
          @ (case folder of None \<Rightarrow> []
             | Some f \<Rightarrow> f # (case item_model_override E (it_metadata it) of None \<Rightarrow> [] | Some m \<Rightarrow> [m])),
        aj_timeout_secs := work_job_timeout_secs, aj_in_process := True,
        aj_metadata := (case reason of None \<Rightarrow> Map.empty | Some r \<Rightarrow> [''dispatch_reason'' \<mapsto> r])\<rparr>"

definition enqueue_work_job ::
  "sup_env \<Rightarrow> job_queue \<Rightarrow> string \<Rightarrow> item \<Rightarrow> agent_kind \<Rightarrow> string option \<Rightarrow> string option
     \<Rightarrow> job_queue \<times> job_info option" where
  "enqueue_work_job S q k it agent folder reason =
     (case enqueue (se_id S ''job'' k) (work_job (se_be S) k it agent folder reason) (se_now S) q of
        (q', Inl _) \<Rightarrow> (q', None)
      | (q', Inr info) \<Rightarrow> (q', Some info))"

definition positive_var :: "string option \<Rightarrow> nat option" where
  "positive_var v = (case Option.bind v parse_u64 of None \<Rightarrow> None | Some n \<Rightarrow> if n > 0 then Some n else None)"

definition per_project_work_cap :: "sup_env \<Rightarrow> nat" where
  "per_project_work_cap S =
     (case positive_var (se_max_per_project S) of
        Some cap \<Rightarrow> cap
      | None \<Rightarrow>
          let workers = (case positive_var (se_max_concurrency S) of None \<Rightarrow> se_pool_size S | Some n \<Rightarrow> n)
          in max 1 (workers div 2))"

section \<open>What the supervisor writes on an item\<close>

text \<open>One transaction: the labels and the comment, or nothing.\<close>

definition record_supervisor_action ::
  "sup_env \<Rightarrow> backend \<Rightarrow> string \<Rightarrow> string option \<Rightarrow> string option \<Rightarrow> string \<Rightarrow> string \<Rightarrow> backend" where
  "record_supervisor_action S b k remove add body new_id =
     (let b1 = (case remove of None \<Rightarrow> b | Some l \<Rightarrow> remove_label b k l);
          r = bind_ok (case add of None \<Rightarrow> Inr b1 | Some l \<Rightarrow> add_label b1 k l) (\<lambda>b2.
                comment_create b2 new_id k (se_author S) body (se_ts S))
      in case r of Inl _ \<Rightarrow> b | Inr (_, b') \<Rightarrow> b')"

definition skip_reason :: "item \<Rightarrow> string" where
  "skip_reason it =
     (case it_assignee it of
        None \<Rightarrow> ''no assignee_agent set '' @ dash_utf8 @ '' cannot auto-dispatch''
      | Some a \<Rightarrow> ''assignee '' @ [CHR 39] @ a @ [CHR 39] @ '' is not a confirmed-autonomous agent'')"

definition skip_item :: "sup_env \<Rightarrow> sup_world \<Rightarrow> string \<Rightarrow> item \<Rightarrow> label_map \<Rightarrow> string \<Rightarrow> sup_world" where
  "skip_item S w k it m ready =
     snd (first_time_gated
       (w\<lparr>sw_db := record_supervisor_action S (sw_db w) k (Some ready) (m needs_manual_label)
            (''## supervisor '' @ dash_utf8 @ '' skipped'' @ newline2 @ skip_reason it
              @ ''. Run `agentflare work` manually.'') (se_id S ''skip'' k)\<rparr>) k)"

definition ask_a_person :: "sup_env \<Rightarrow> sup_world \<Rightarrow> string \<Rightarrow> string \<Rightarrow> label_map \<Rightarrow> string \<Rightarrow> sup_world" where
  "ask_a_person S w k question m ready =
     w\<lparr>sw_db := record_supervisor_action S (sw_db w) k (Some ready) (m needs_human_gate_label)
          (''## supervisor '' @ dash_utf8 @ '' gated'' @ newline2 @ question) (se_id S ''ask'' k)\<rparr>"

datatype dispatch_outcome = Dispatched | WaitingOnPlan | NotDispatched

definition plan_wait_note :: string where
  "plan_wait_note =
     ''## supervisor '' @ dash_utf8 @ '' waiting on plan'' @ newline2
       @ ''auto-gated: needs a plan '' @ dash_utf8 @ '' call item(action='' @ [CHR 34] @ ''submit_plan'' @ [CHR 34]
       @ '', plan_asset_id=...) before this item can be dispatched''"

definition wait_on_plan :: "sup_env \<Rightarrow> sup_world \<Rightarrow> string \<Rightarrow> string \<Rightarrow> sup_world" where
  "wait_on_plan S w k st =
     (if st \<noteq> ''none'' then w
      else case first_time_gated w (''plan:'' @ k) of
        (False, w1) \<Rightarrow> w1
      | (True, w1) \<Rightarrow>
          (case comment_create (sw_db w1) (se_id S ''plan'' k) k (se_author S) plan_wait_note (se_ts S) of
             Inl _ \<Rightarrow> w1
           | Inr (_, b') \<Rightarrow> w1\<lparr>sw_db := b'\<rparr>))"

text \<open>
  The look for a job in flight and the enqueueing are separate calls of the queue, and the record on the
  item is a transaction after both: what others do between them is \<open>others\<close>. The plan gate and the label
  are read from what the tick holds in memory.
\<close>

definition dispatch_item ::
  "sup_env \<Rightarrow> interference \<Rightarrow> sup_world \<Rightarrow> string \<Rightarrow> item \<Rightarrow> agent_kind \<Rightarrow> string \<Rightarrow> label_map \<Rightarrow> string
     \<Rightarrow> dispatch_outcome \<times> sup_world" where
  "dispatch_item S others w k it agent folder m ready =
     (if job_in_flight (sw_queue w) k then (NotDispatched, w)
      else case plan_gate_status (se_be S) (it_metadata it) of
        GateBlocked st \<Rightarrow> (WaitingOnPlan, wait_on_plan S w k st)
      | GateOpen \<Rightarrow>
          (case m dispatched_label of
             None \<Rightarrow> (NotDispatched, w)
           | Some l \<Rightarrow>
               let w1 = others (BeforeEnqueue k) w in
               (case enqueue_work_job S (sw_queue w1) k it agent (Some folder) None of
                  (q', None) \<Rightarrow> (NotDispatched, w1\<lparr>sw_queue := q'\<rparr>)
                | (q', Some info) \<Rightarrow>
                    let w2 = others (BeforeRecord k) (w1\<lparr>sw_queue := q'\<rparr>) in
                    (Dispatched,
                     w2\<lparr>sw_db := record_supervisor_action S (sw_db w2) k (Some ready) (Some l)
                         (dispatch_marker @ newline2 @ ''job: '' @ ji_id info) (se_id S ''dispatch'' k)\<rparr>))))"

section \<open>One item\<close>

record tick_result =
  tr_dispatched :: nat
  tr_skipped :: nat
  tr_waiting :: nat

definition in_needs_input :: "backend \<Rightarrow> item \<Rightarrow> bool" where
  "in_needs_input b it =
     (case wstate_get b (it_state it) of Inl _ \<Rightarrow> False | Inr s \<Rightarrow> ws_group s = needs_input_group)"

definition wears :: "backend \<Rightarrow> label_map \<Rightarrow> string \<Rightarrow> string \<Rightarrow> bool" where
  "wears b m k name = (case m name of None \<Rightarrow> False | Some l \<Rightarrow> l \<in> set (list_labels b k))"

definition held_item_gates :: "backend \<Rightarrow> label_map \<Rightarrow> string \<Rightarrow> string list" where
  "held_item_gates b m k = filter (wears b m k) [needs_human_gate_label, needs_manual_label]"

definition waited :: "tick_result \<Rightarrow> tick_result" where
  "waited t = t\<lparr>tr_waiting := tr_waiting t + 1\<rparr>"

definition skipped :: "tick_result \<Rightarrow> tick_result" where
  "skipped t = t\<lparr>tr_skipped := tr_skipped t + 1\<rparr>"

type_synonym tick_state = "tick_result \<times> nat \<times> sup_world"

text \<open>An item to run: the agent, the cooldown, the host, the share of the project, the dispatch.\<close>

definition try_dispatch ::
  "sup_env \<Rightarrow> interference \<Rightarrow> project_batch \<Rightarrow> bool \<Rightarrow> nat \<Rightarrow> string \<Rightarrow> item \<Rightarrow> tick_state
     \<Rightarrow> tick_state" where
  "try_dispatch S others B contended cap k it s =
     (case s of (t, n, w) \<Rightarrow>
        (case Option.bind (it_assignee it) resolve_confirmed_agent of
           None \<Rightarrow> (skipped t, n, skip_item S w k it (pb_labels B) (pb_ready B))
         | Some agent \<Rightarrow>
             if se_cooling S (agent_name agent) \<or> blocks_dispatch (se_policy S) \<or> (contended \<and> n \<ge> cap)
             then (waited t, n, w)
             else (case dispatch_item S others w k it agent (pb_folder B) (pb_labels B) (pb_ready B) of
                     (Dispatched, w') \<Rightarrow> (t\<lparr>tr_dispatched := tr_dispatched t + 1\<rparr>, n + 1, w')
                   | (WaitingOnPlan, w') \<Rightarrow> (waited t, n, w')
                   | (NotDispatched, w') \<Rightarrow> (t, n, w'))))"

definition tick_item ::
  "sup_env \<Rightarrow> interference \<Rightarrow> project_batch \<Rightarrow> bool \<Rightarrow> nat \<Rightarrow> string \<times> item \<Rightarrow> tick_state
     \<Rightarrow> tick_state option" where
  "tick_item S others B contended cap ki s =
     (case (ki, s) of ((k, it), (t, n, w)) \<Rightarrow>
        if in_needs_input (sw_db w) it \<or> wears (sw_db w) (pb_labels B) k paused_label
        then Some (waited t, n, w)
        else if wears (sw_db w) (pb_labels B) k needs_decision_label
        then Some (waited t, n, snd (first_time_gated w k))
        else map_option (\<lambda>(act, b').
          let w' = w\<lparr>sw_db := b'\<rparr> in
          case act of
            EaRun \<Rightarrow> try_dispatch S others B contended cap k it (t, n, w')
          | EaSelfRepair \<Rightarrow> try_dispatch S others B contended cap k it (t, n, w')
          | EaAsk q \<Rightarrow> (skipped t, n, ask_a_person S w' k q (pb_labels B) (pb_ready B))
          | EaWait _ \<Rightarrow> (waited t, n, w')
          | EaStayQuiet \<Rightarrow> (skipped t, n, skip_item S w' k it (pb_labels B) (pb_ready B)))
          (decide_for_supervisor (se_be S) (se_fo S) (sw_db w) (se_now S) k it (se_id S ''failover'' k)
             (se_ts S)))"

section \<open>The tick\<close>

fun tick_items ::
  "sup_env \<Rightarrow> interference \<Rightarrow> project_batch \<Rightarrow> bool \<Rightarrow> nat \<Rightarrow> (string \<times> item) list
     \<Rightarrow> tick_state \<Rightarrow> tick_state option" where
  "tick_items S others B contended cap [] s = Some s"
| "tick_items S others B contended cap (ki # kis) (t, n, w) =
     Option.bind (tick_item S others B contended cap ki (t, n, others (BeforeTurn (fst ki)) w))
       (tick_items S others B contended cap kis)"

fun tick_batches ::
  "sup_env \<Rightarrow> interference \<Rightarrow> bool \<Rightarrow> nat \<Rightarrow> project_batch list
     \<Rightarrow> tick_result \<times> sup_world \<Rightarrow> (tick_result \<times> sup_world) option" where
  "tick_batches S others contended cap [] s = Some s"
| "tick_batches S others contended cap (B # Bs) (t, w) =
     (let n = (if contended then count_active_with_arg (pb_folder B) (Some 2) (sw_queue w) else 0)
      in Option.bind (tick_items S others B contended cap (pb_items B) (t, n, w))
           (\<lambda>(t', _, w'). tick_batches S others contended cap Bs (t', w')))"

definition contended :: "project_batch list \<Rightarrow> bool" where
  "contended Bs \<longleftrightarrow> length (filter (\<lambda>B. pb_items B \<noteq> []) Bs) > 1"

definition run_discovery_tick ::
  "sup_env \<Rightarrow> interference \<Rightarrow> sup_world \<Rightarrow> (tick_result \<times> sup_world) option" where
  "run_discovery_tick S others w =
     (case collect_batches S (dir_list (sw_db w)) (sw_db w) of
        (Bs, b) \<Rightarrow>
          tick_batches S others (contended Bs) (per_project_work_cap S) Bs
            (\<lparr>tr_dispatched = 0, tr_skipped = 0, tr_waiting = 0\<rparr>, w\<lparr>sw_db := b\<rparr>))"

end
