(* ===== verification/Item_Rearm.thy ===== *)
theory Item_Rearm
  imports Item_Claim_Props
begin

text \<open>
  The metadata text under the operations: a recorded approval survives every write that is no
  transition of the plan, and re-arming an item neither opens nor closes its gate, does not touch
  the claim ledger, and leaves the labels the discovery looks for.
\<close>

section \<open>Approvals\<close>

text \<open>The string a key of a metadata value holds.\<close>

abbreviation text_at :: "string \<Rightarrow> json \<Rightarrow> string option" where
  "text_at key v \<equiv> Option.bind (json_key key v) json_str"

text \<open>C9: A stored approval survives every update that leaves the metadata alone or replaces it by an object
  whose \<open>plan_status\<close> is not \<^verbatim>\<open>rejected\<close> and which, where it is \<^verbatim>\<open>pending\<close>, names no plan or the stored
  one: the gate stays open, and who approved it and when stay recorded. Metadata that is no object, and
  a pending status with any other \<open>plan_asset_id\<close>, the empty string among them, replace the approval.\<close>

theorem approval_survives_update:
  assumes rb: "json_reads_back E"
    and it: "item_get b k = Inr it" "en_parse E (it_metadata it) = Some cur" "json_ok E cur"
    and app: "json_key ''plan_status'' cur = Some (JStr ''approved'')"
    and up: "item_update E b k ts u = Inr (row, b')"
    and meta: "\<And>m. ui_metadata u = Some m \<Longrightarrow>
        \<exists>ob. en_parse E m = Some (JObj ob) \<and> json_ok E (JObj ob)
          \<and> text_at ''plan_status'' (JObj ob) \<noteq> Some ''rejected''
          \<and> (text_at ''plan_status'' (JObj ob) = Some ''pending'' \<longrightarrow>
               text_at ''plan_asset_id'' (JObj ob) \<in> {None, text_at ''plan_asset_id'' cur})"
  shows "plan_gate_status E (it_metadata row) = GateOpen
      \<and> (\<forall>key \<in> {''plan_approved_at'', ''plan_approved_by''}. json_key key cur \<noteq> None
            \<longrightarrow> Option.bind (en_parse E (it_metadata row)) (json_key key) = json_key key cur)"
proof -
  have gate: "plan_gate_status E t = GateOpen"
    if "en_parse E t = Some v" "json_key ''plan_status'' v = Some (JStr ''approved'')" for t v
    using that by (simp add: plan_gate_status_def plan_gate_status_of_def read_plan_gate_def Let_def
        json_str_def)
  from up it(1) have row: "row = updated_item E ts u it"
    by (auto simp: item_update_def elim!: bind_ok_InrE write_update_cases)
  show ?thesis
  proof (cases "ui_metadata u")
    case None
    then have "it_metadata row = it_metadata it" by (simp add: row updated_item_def)
    with gate it(2) app show ?thesis by simp
  next
    case (Some m)
    from meta [OF this] obtain ob where ob: "en_parse E m = Some (JObj ob)" "json_ok E (JObj ob)"
      and plain: "text_at ''plan_status'' (JObj ob) \<noteq> Some ''rejected''"
        "text_at ''plan_status'' (JObj ob) = Some ''pending'' \<longrightarrow>
           text_at ''plan_asset_id'' (JObj ob) \<in> {None, text_at ''plan_asset_id'' cur}"
      by blast
    from plain have tr: "\<not> explicit_transition (JObj ob) cur"
      by (auto simp: explicit_transition_def split: option.splits)
    from preserve_keeps_approval [OF rb ob(1,2) it(2,3) app tr] obtain ob' where
      o: "en_parse E (preserve_plan_approval E m (it_metadata it)) = Some (JObj ob')"
        "map_of ob' ''plan_status'' = Some (JStr ''approved'')"
        "\<And>k. k \<in> {''plan_approved_at'', ''plan_approved_by''} \<Longrightarrow> json_key k cur \<noteq> None
            \<Longrightarrow> map_of ob' k = json_key k cur"
      by metis
    have "it_metadata row = preserve_plan_approval E m (it_metadata it)"
      by (simp add: row updated_item_def Some)
    with o gate [OF o(1)] show ?thesis by (auto simp: json_key_def)
  qed
qed

definition approved_meta :: string where
  "approved_meta = sample_meta [(''plan_required'', JBool True), (''plan_status'', JStr ''approved''),
     (''plan_approved_by'', JStr ''human'')]"

lemma approval_survives_update_witness:
  "plan_gate_status sample_env (it_metadata (fst (projr (item_update sample_env
      (sample_tables [(''a'', sample_item ''backlog'' approved_meta None None)] []) ''a'' 9
      (no_update\<lparr>ui_metadata := Some (sample_meta [(''plan_status'', JStr ''pending''), (''size'', JStr ''L'')])\<rparr>))))) = GateOpen"
proof -
  let ?b = "sample_tables [(''a'', sample_item ''backlog'' approved_meta None None)] []"
  let ?u = "no_update\<lparr>ui_metadata := Some (sample_meta [(''plan_status'', JStr ''pending''), (''size'', JStr ''L'')])\<rparr>"
  let ?r = "item_update sample_env ?b ''a'' 9 ?u"
  let ?it = "sample_item ''backlog'' approved_meta None None"
  have r: "?r = Inr (fst (projr ?r), snd (projr ?r))" by (cases ?r) (simp_all add: sample_eval)
  have it: "item_get ?b ''a'' = Inr ?it" by (simp add: sample_eval)
  let ?cur = "JObj [(''plan_required'', JBool True), (''plan_status'', JStr ''approved''),
     (''plan_approved_by'', JStr ''human'')]"
  have cur: "en_parse sample_env (it_metadata ?it) = Some ?cur"
    by (simp add: sample_item_def approved_meta_def)
  have new: "\<exists>ob. en_parse sample_env m = Some (JObj ob) \<and> json_ok sample_env (JObj ob)
      \<and> text_at ''plan_status'' (JObj ob) \<noteq> Some ''rejected''
      \<and> (text_at ''plan_status'' (JObj ob) = Some ''pending'' \<longrightarrow>
            text_at ''plan_asset_id'' (JObj ob) \<in> {None, text_at ''plan_asset_id'' ?cur})" if "ui_metadata ?u = Some m" for m
  proof -
    from that have m: "m = sample_meta [(''plan_status'', JStr ''pending''), (''size'', JStr ''L'')]" by simp
    show ?thesis unfolding m by (simp add: json_key_def json_str_def)
  qed
  show ?thesis
    using approval_survives_update [OF sample_env_reads_back it cur _ _ r new]
    by (simp add: json_key_def)
qed

section \<open>Re-arming\<close>

lemma swap_remove_snoc:
  "swap_remove k (xs @ [l]) =
     (if map_of (xs @ [l]) k = None then xs @ [l]
      else if fst l = k then xs else map (\<lambda>e. if fst e = k then l else e) xs)"
  by (simp only: swap_remove_def last_snoc butlast_snoc)

lemma map_of_swap_remove:
  assumes "distinct (map fst ob)"
  shows "map_of (swap_remove k ob) k' = (if k' = k then None else map_of ob k')"
proof (cases "map_of ob k")
  case None
  then show ?thesis by (auto simp: swap_remove_def)
next
  case (Some v)
  then have "ob \<noteq> []" by auto
  then obtain xs kx vx where ob: "ob = xs @ [(kx, vx)]"
    by (metis rev_exhaust surj_pair)
  with assms have d: "distinct (map fst xs)" "kx \<notin> fst ` set xs" by auto
  show ?thesis
  proof (cases "kx = k")
    case True
    with d have "map_of xs k = None" by (simp add: map_of_eq_None_iff)
    with True Some ob show ?thesis by (auto simp: swap_remove_snoc map_add_def split: option.splits)
  next
    case False
    have "map_of (map (\<lambda>e. if fst e = k then (kx, vx) else e) ys) k' =
        (if k' = k then None else if k' = kx \<and> k \<in> fst ` set ys then Some vx else map_of ys k')"
      if "distinct (map fst ys)" "kx \<notin> fst ` set ys" for ys
      using that False by (induction ys) (auto simp: rev_image_eqI)
    note m = this [OF d]
    have "k \<in> fst ` set xs"
      using Some ob False by (auto simp: map_add_def dest: map_of_Some_in_keys split: option.splits)
    with m Some ob d False show ?thesis
      by (auto simp: swap_remove_snoc map_add_def map_of_eq_None_iff [THEN iffD2] split: option.splits)
  qed
qed

lemma json_ok_swap_remove: "json_ok E (JObj ob) \<Longrightarrow> json_ok E (JObj (swap_remove k ob))"
proof -
  assume ok: "json_ok E (JObj ob)"
  have d: "distinct (map fst (map (\<lambda>e. if fst e = k then l else e) xs))"
    if "ob = xs @ [l]" "fst l \<noteq> k" for xs l
  proof -
    have "distinct (map fst xs)" "fst l \<notin> fst ` set xs" using ok that(1) by auto
    then show ?thesis by (induction xs) (auto simp: image_iff)
  qed
  have "set (swap_remove k ob) \<subseteq> set ob"
    by (cases ob rule: rev_cases) (auto simp: swap_remove_def split: if_splits)
  moreover have "distinct (map fst (swap_remove k ob))"
    using ok d by (cases ob rule: rev_cases) (auto simp: swap_remove_snoc swap_remove_def [of _ "[]"] simp del: map_map)
  ultimately show ?thesis using ok by (auto simp: list_all_iff)
qed

lemma json_ok_remove_keys:
  "json_ok E (JObj ob) \<Longrightarrow> json_ok E (JObj (foldl (\<lambda>ob k. swap_remove k ob) ob keys))"
  by (induction keys arbitrary: ob) (simp_all add: json_ok_swap_remove del: json_ok.simps)

lemma map_of_remove_keys:
  "json_ok E (JObj ob) \<Longrightarrow>
     map_of (foldl (\<lambda>ob k. swap_remove k ob) ob keys) k' = (if k' \<in> set keys then None else map_of ob k')"
proof (induction keys arbitrary: ob)
  case (Cons k keys)
  then have "json_ok E (JObj (swap_remove k ob))" by (intro json_ok_swap_remove)
  from Cons.IH [OF this] Cons.prems map_of_swap_remove [of ob k k'] show ?case by auto
qed simp

definition plan_keys :: "string list" where
  "plan_keys = [''plan_required'', ''plan_approver'', ''plan_asset_id'', ''plan_status'',
     ''plan_approved_by'', ''plan_approved_at'', ''plan_rejection_reason'']"

lemma read_plan_gate_cong:
  assumes "en_parse E t = Some v" "en_parse E t' = Some v'"
    and "\<And>key. key \<in> set plan_keys \<Longrightarrow> json_key key v' = json_key key v"
  shows "read_plan_gate E t' = read_plan_gate E t"
  using assms by (simp add: read_plan_gate_def Let_def plan_keys_def)

text \<open>Dropping keys that are no plan keys, through the guard, leaves the gate as it was.\<close>

lemma dropped_keys_keep_gate:
  assumes rb: "json_reads_back E" and ok: "\<And>v. en_parse E meta = Some v \<Longrightarrow> json_ok E v"
    and drop: "without_metadata_keys E meta keys = Some t" and "set keys \<inter> set plan_keys = {}"
  shows "read_plan_gate E (preserve_plan_approval E t meta) = read_plan_gate E meta"
proof -
  let ?drop = "\<lambda>ob. foldl (\<lambda>ob k. swap_remove k ob) ob keys"
  from drop obtain ob where ob: "en_parse E meta = Some (JObj ob)" "t = en_print E (JObj (?drop ob))"
    by (auto simp: without_metadata_keys_def split: option.splits json.splits if_splits)
  have okd: "json_ok E (JObj (?drop ob))" by (rule json_ok_remove_keys [OF ok [OF ob(1)]])
  have "en_parse E t = Some (JObj (?drop ob))" unfolding ob(2) by (rule json_reads_backD [OF rb okd])
  from preserve_other_keys [OF rb this okd ok] obtain ob' where
    o: "en_parse E (preserve_plan_approval E t meta) = Some (JObj ob')"
      "\<And>key. map_of ob' key = map_of (?drop ob) key
         \<or> (\<exists>cur. en_parse E meta = Some cur \<and> map_of ob' key = json_key key cur)"
    by metis
  have "json_key key (JObj ob') = json_key key (JObj ob)" if "key \<in> set plan_keys" for key
    using o(2) [of key] that assms(4) map_of_remove_keys [OF ok [OF ob(1)], of keys key]
    by (auto simp: json_key_def ob(1))
  with read_plan_gate_cong [OF ob(1) o(1)] show ?thesis by simp
qed

lemma remove_labels_effect:
  fixes P :: "wlabel \<Rightarrow> bool"
  defines "rm \<equiv> \<lambda>b k ls. foldl (\<lambda>b (l, r). if P r then remove_label b k l else b) b ls"
  shows "set (be_item_labels (rm b k ls))
      = {(i, l) \<in> set (be_item_labels b). \<not> (i = k \<and> (\<exists>r. (l, r) \<in> set ls \<and> P r))}"
    and "be_items (rm b k ls) = be_items b" "be_labels (rm b k ls) = be_labels b"
    "be_states (rm b k ls) = be_states b" "be_claims (rm b k ls) = be_claims b"
    "be_projects (rm b k ls) = be_projects b"
  unfolding rm_def by (induction ls arbitrary: b) (auto simp: remove_label_def split: if_splits)

lemma label_by_name_Inr:
  "label_by_name b p n = Inr (l, r) \<Longrightarrow> (l, r) \<in> set (be_labels b) \<and> wl_project r = Some p \<and> wl_name r = n
     \<and> wl_deleted r = None"
  by (auto simp: label_by_name_def split: option.splits dest: find_Some_iff_mem)

lemma ensure_label_result:
  "ensure_project_label b i p n ts = Inr ((l, r), b') \<Longrightarrow>
     label_by_name b' p n = Inr (l, r) \<and> be_items b' = be_items b \<and> be_states b' = be_states b
       \<and> be_claims b' = be_claims b"
  unfolding ensure_project_label_def Let_def
  by (auto elim!: bind_ok_InrE split: op_cases)

lemma redispatch_steps:
  assumes "redispatch E b0 b k a f i ts = Inr (RdReady agent, b')"
  obtains it s l r b1 st sr r2 b2 r3 b3 meta b4 ch kp where
    "item_get b k = Inr it" "wstate_get b (it_state it) = Inr s" "\<not> is_terminal_group (ws_group s)"
    "map_option agent_part (or_else a (it_assignee it)) = Some agent"
    "ensure_project_label b i (it_project it) ready_label ts = Inr ((l, r), b1)"
    "first_state_in_group b1 (it_project it) ''backlog'' = Inr (st, sr)"
    "item_update_state b1 k st ts = Inr (r2, b2)"
    "item_update E b2 k ts (no_update\<lparr>ui_assignee := Some agent, ui_metadata := meta\<rparr>) = Inr (r3, b3)"
    "meta = without_metadata_keys E (it_metadata it) (cleared_keys ch kp)"
    "b4 = foldl (\<lambda>b (l, r). if wl_name r \<in> set redispatch_cleared_labels then remove_label b k l else b)
            b3 (labels_of_project b1 (it_project it))"
    "add_label b4 k l = Inr b'"
  using assms unfolding redispatch_def Let_def
  by (auto elim!: bind_ok_InrE split: option.split_asm if_split_asm)

lemma put_item_frame [simp]:
  "be_claims (put_item b k r) = be_claims b" "be_states (put_item b k r) = be_states b"
  "be_labels (put_item b k r) = be_labels b" "be_item_labels (put_item b k r) = be_item_labels b"
  by (simp_all add: put_item_def)

lemma rearm_row:
  assumes "item_update E b k ts (no_update\<lparr>ui_assignee := Some w, ui_metadata := m\<rparr>) = Inr (row, b')"
    and "item_get b k = Inr it"
  obtains "item_get b' k = Inr row" "be_states b' = be_states b" "be_claims b' = be_claims b"
    "be_labels b' = be_labels b" "it_assignee row = Some (agent_canonicalize w)"
    "it_state row = it_state it"
    "it_metadata row = (case m of None \<Rightarrow> it_metadata it | Some t \<Rightarrow> preserve_plan_approval E t (it_metadata it))"
proof -
  from assms obtain lg where
    row: "row = updated_item E ts (no_update\<lparr>ui_assignee := Some w, ui_metadata := m\<rparr>) it"
    and b': "b' = b\<lparr>be_items := AList.update k row (be_items b), be_assign_log := lg\<rparr>"
    by (auto simp: item_update_def elim!: bind_ok_InrE elim: write_update_cases)
  from assms(2) row have "it_deleted row = None" by (simp add: updated_item_def item_get_Inr)
  then have "item_get b' k = Inr row" by (simp add: b' item_get_def live_row_def)
  then show ?thesis
    by (rule that) (simp_all add: b' row updated_item_def no_update_def or_else_def set_col_def)
qed

lemma cleared_keys_no_plan: "set (cleared_keys ch kp) \<inter> set plan_keys = {}"
  by (auto simp: cleared_keys_def pr_derived_metadata_keys_def plan_keys_def)

text \<open>C10: Re-arming an item that has an agent puts it back into the backlog under the canonical name
  of that agent, labels it ready for work and strips the labels of the failed dispatch; it leaves
  every lease in place and the plan gate as it was.\<close>

theorem redispatch_rearms:
  assumes rb: "json_reads_back E"
    and keys: "distinct (map fst (be_states b))"
    and ok: "\<And>it v. item_get b k = Inr it \<Longrightarrow> en_parse E (it_metadata it) = Some v \<Longrightarrow> json_ok E v"
    and rd: "redispatch E b0 b k a f i ts = Inr (RdReady agent, b')"
  shows "\<exists>it row l. item_get b k = Inr it \<and> item_get b' k = Inr row
      \<and> live_group b' k = Some ''backlog'' \<and> it_assignee row = Some (agent_canonicalize agent)
      \<and> read_plan_gate E (it_metadata row) = read_plan_gate E (it_metadata it)
      \<and> l \<in> set (list_labels b' k) \<and> (\<exists>r. (l, r) \<in> set (be_labels b') \<and> wl_name r = ready_label)
      \<and> (\<forall>j r. (j, r) \<in> set (labels_of_project b' (it_project it)) \<and> j \<noteq> l
            \<and> wl_name r \<in> set redispatch_cleared_labels \<longrightarrow> j \<notin> set (list_labels b' k))
      \<and> be_claims b' = be_claims b"
proof -
  from rd obtain it s l r b1 st sr r2 b2 r3 b3 meta b4 ch kp where
    it: "item_get b k = Inr it"
    and lab: "ensure_project_label b i (it_project it) ready_label ts = Inr ((l, r), b1)"
    and st: "first_state_in_group b1 (it_project it) ''backlog'' = Inr (st, sr)"
    and mv: "item_update_state b1 k st ts = Inr (r2, b2)"
    and up: "item_update E b2 k ts (no_update\<lparr>ui_assignee := Some agent, ui_metadata := meta\<rparr>) = Inr (r3, b3)"
    and meta: "meta = without_metadata_keys E (it_metadata it) (cleared_keys ch kp)"
    and b4: "b4 = foldl (\<lambda>b (l, r). if wl_name r \<in> set redispatch_cleared_labels then remove_label b k l else b)
            b3 (labels_of_project b1 (it_project it))"
    and add: "add_label b4 k l = Inr b'"
    by (rule redispatch_steps)
  note e = ensure_label_result [OF lab]
  note ln = label_by_name_Inr [OF conjunct1 [OF e]]
  have d: "distinct (map fst (be_states b1))" using keys e by simp
  note sg = first_state_in_group_get [OF d st]
  from mv obtain it1 where u: "item_get b1 k = Inr it1" "b2 = put_item b1 k r2" "it_deleted r2 = None"
      "it_state r2 = st" "it_metadata r2 = it_metadata it1"
    by (elim update_state_result) auto
  from u(1) it e have "it1 = it" by (simp add: item_get_def)
  have g2: "item_get b2 k = Inr r2" using u(2,3) by simp
  from rearm_row [OF up g2] have w: "item_get b3 k = Inr r3" "be_states b3 = be_states b2"
      "be_claims b3 = be_claims b2" "be_labels b3 = be_labels b2"
      "it_assignee r3 = Some (agent_canonicalize agent)" "it_state r3 = it_state r2"
      "it_metadata r3 = (case meta of None \<Rightarrow> it_metadata r2
         | Some t \<Rightarrow> preserve_plan_approval E t (it_metadata r2))"
    by auto
  note rl = remove_labels_effect [where k = k and P = "\<lambda>r. wl_name r \<in> set redispatch_cleared_labels"
      and b = b3 and ls = "labels_of_project b1 (it_project it)", folded b4]
  from add have b': "b' = link_label b4 k l"
    by (auto simp: add_label_def elim!: bind_ok_InrE split: if_splits)
  have same: "be_items b' = be_items b3" "be_labels b' = be_labels b1" "be_states b' = be_states b1"
      "be_claims b' = be_claims b"
    using rl w e u(2) by (simp_all add: b' link_label_def)
  have il: "set (be_item_labels b') = insert (k, l) (set (be_item_labels b4))"
    by (auto simp: b' link_label_def)
  have row: "item_get b' k = Inr r3" using w(1) same(1) by (simp add: item_get_def)
  have "live_group b' k = Some ''backlog''"
    using row sg w(6) u(4) wstate_get_frame [OF same(3)] by (simp add: live_group_def)
  moreover have "read_plan_gate E (it_metadata r3) = read_plan_gate E (it_metadata it)"
  proof (cases meta)
    case None
    with w(7) u(5) \<open>it1 = it\<close> show ?thesis by simp
  next
    case (Some t)
    with meta have "without_metadata_keys E (it_metadata it) (cleared_keys ch kp) = Some t" by simp
    from dropped_keys_keep_gate [OF rb ok [OF it] this cleared_keys_no_plan] w(7) u(5) \<open>it1 = it\<close> Some
    show ?thesis by simp
  qed
  moreover have "l \<in> set (list_labels b' k)" using il by (force simp: list_labels_def)
  moreover have "\<exists>r. (l, r) \<in> set (be_labels b') \<and> wl_name r = ready_label" using ln same(2) by auto
  moreover have "j \<notin> set (list_labels b' k)"
    if "(j, r) \<in> set (labels_of_project b' (it_project it))" "j \<noteq> l"
      "wl_name r \<in> set redispatch_cleared_labels" for j r
  proof -
    have "(j, r) \<in> set (labels_of_project b1 (it_project it))"
      using that(1) same(2) by (simp add: labels_of_project_def)
    with that(3) have "(k, j) \<notin> set (be_item_labels b4)" using rl(1) by auto
    with il that(2) have "(k, j) \<notin> set (be_item_labels b')" by auto
    then show ?thesis by (auto simp: list_labels_def)
  qed
  ultimately show ?thesis using it row w(5) same(4) by blast
qed

definition failed_tables :: backend where
  "failed_tables = sample_tables
     [(''a'', sample_item ''in_review'' (sample_meta [(''model'', JStr ''m'')]) None (Some ''codex:1''))]
     codex_claim"

lemma redispatch_rearms_witness:
  "\<exists>agent b. redispatch sample_env failed_tables failed_tables ''a'' None (\<lambda>_. PrKeep) ''i'' 9
      = Inr (RdReady agent, b) \<and> live_group b ''a'' = Some ''backlog'' \<and> be_claims b = codex_claim"
proof -
  let ?r = "redispatch sample_env failed_tables failed_tables ''a'' None (\<lambda>_. PrKeep) ''i'' 9"
  have r: "?r = Inr (RdReady ''codex'', snd (projr ?r))"
    by (rule result_Inr; simp add: sample_eval failed_tables_def redispatch_def cleared_keys_def
        without_metadata_keys_def pr_derived_metadata_keys_def redispatch_cleared_labels_def)
  have d: "distinct (map fst (be_states failed_tables))" by (simp add: failed_tables_def)
  have ok: "json_ok sample_env v"
    if "item_get failed_tables ''a'' = Inr it" "en_parse sample_env (it_metadata it) = Some v" for it v
    using that by (auto simp: sample_eval failed_tables_def)
  from redispatch_rearms [OF sample_env_reads_back d _ r] ok have
    "live_group (snd (projr ?r)) ''a'' = Some ''backlog'' \<and> be_claims (snd (projr ?r)) = be_claims failed_tables"
    by blast
  with r show ?thesis by (auto simp: failed_tables_def sample_tables_def)
qed

end
