(* ===== verification/Quota_Props.thy ===== *)
theory Quota_Props
  imports Quota_Decide Item_Rearm
begin

text \<open>
  What the dispatch decision promises: the dependency check agrees with its specification, an item
  that is to run can be claimed, the walk to the goal ends on every table the operations produce,
  and the counter of self-repairs is written back and bounded.
\<close>

section \<open>Dependencies\<close>

lemma id_batches_single [simp]: "id_batches n [i] (Suc 0) = [[i]]"
  by (simp add: id_batches_def)

lemma length_map_filter_le: "length (List.map_filter f xs) \<le> length xs"
  by (simp add: List.map_filter_def)

lemma map_filter_all_iff:
  "length (List.map_filter f xs) = length xs \<and> list_all P (List.map_filter f xs)
     \<longleftrightarrow> (\<forall>x \<in> set xs. \<exists>e. f x = Some e \<and> P e)"
proof (induction xs)
  case (Cons x xs)
  have "length (List.map_filter f xs) \<le> length xs" by (rule length_map_filter_le)
  with Cons show ?case by (cases "f x") (auto simp: map_filter_simps)
qed (simp add: map_filter_simps)

lemma map_filter_filter:
  "List.map_filter (\<lambda>x. if P x then f x else None) xs = List.map_filter f (filter P xs)"
  by (induction xs) (auto simp: List.map_filter_def)

text \<open>An item counts as unblocked exactly when it has dependencies and each of them is an item that
  is not deleted and whose state is in the completed group; a deleted blocker keeps it blocked.\<close>

lemma dependencies_completed_iff:
  "all_dependencies_completed E b k \<longleftrightarrow>
     list_dependencies b k \<noteq> [] \<and>
     (\<forall>d. d \<in> set (list_dependencies b k) \<longrightarrow>
        (\<exists>it. item_get b d = Inr it \<and> state_group b it = Some ''completed''))"
proof -
  let ?rows = "filter (\<lambda>(x, y, ty). x = k \<and> ty = ''blocks'') (be_relations b)"
  let ?f = "\<lambda>(x, y, ty). case live_row it_deleted (be_items b) y of None \<Rightarrow> None
      | Some it \<Rightarrow> map_option (\<lambda>st. (x, y, ws_group st)) (map_of (be_states b) (it_state it))"
  have e: "dependency_edges_for_items E b [k] = List.map_filter ?f ?rows"
    by (simp add: dependency_edges_for_items_def map_filter_filter [symmetric] split_def)
  have deps: "length (list_dependencies b k) = length ?rows" by (simp add: list_dependencies_def)
  have f: "?f r = Some e \<longleftrightarrow> (\<exists>it. item_get b (fst (snd r)) = Inr it
      \<and> (\<exists>st. map_of (be_states b) (it_state it) = Some st \<and> e = (fst r, fst (snd r), ws_group st)))"
    for r e
    by (cases r) (auto simp: item_get_def split: option.splits)
  have "length (List.map_filter ?f ?rows) = length ?rows
        \<and> list_all (\<lambda>(_, _, g). g = ''completed'') (List.map_filter ?f ?rows)
      \<longleftrightarrow> (\<forall>r \<in> set ?rows. \<exists>e. ?f r = Some e \<and> (case e of (_, _, g) \<Rightarrow> g = ''completed''))"
    by (rule map_filter_all_iff)
  also have "\<dots> \<longleftrightarrow> (\<forall>r \<in> set ?rows. \<exists>it. item_get b (fst (snd r)) = Inr it \<and> state_group b it = Some ''completed'')"
    by (rule ball_cong [OF refl]) (auto simp: f state_group_def)
  also have "\<dots> \<longleftrightarrow> (\<forall>d. d \<in> set (list_dependencies b k) \<longrightarrow>
        (\<exists>it. item_get b d = Inr it \<and> state_group b it = Some ''completed''))"
    by (force simp: list_dependencies_def)
  finally show ?thesis
    by (simp add: all_dependencies_completed_def Let_def e deps)
qed

text \<open>An item with one blocker that is completed, and the same table after the blocker is deleted.\<close>

definition blocked_tables :: "time option \<Rightarrow> backend" where
  "blocked_tables deleted = (sample_tables
     [(''a'', sample_item ''backlog'' (sample_meta []) None (Some ''codex'')),
      (''x'', (sample_item ''completed'' (sample_meta []) None None)\<lparr>it_deleted := deleted\<rparr>)] [])
     \<lparr>be_relations := [(''a'', ''x'', ''blocks'')]\<rparr>"

lemma dependencies_completed_iff_example:
  "all_dependencies_completed sample_env (blocked_tables None) ''a''
     \<and> \<not> all_dependencies_completed sample_env (blocked_tables (Some 5)) ''a''"
proof -
  have deps: "list_dependencies (blocked_tables deleted) ''a'' = [''x'']" for deleted
    by (simp add: blocked_tables_def list_dependencies_def)
  have "\<exists>it. item_get (blocked_tables None) ''x'' = Inr it
      \<and> state_group (blocked_tables None) it = Some ''completed''"
    "\<nexists>it. item_get (blocked_tables (Some 5)) ''x'' = Inr it"
    by (simp_all add: blocked_tables_def sample_eval)
  with deps show ?thesis
    unfolding dependencies_completed_iff by simp
qed

section \<open>Running\<close>

text \<open>The claim table: one row per item, claimed or done.\<close>

definition ledger_ok :: "claim_db \<Rightarrow> bool" where
  "ledger_ok db \<longleftrightarrow>
     distinct (map fst db) \<and> list_all (\<lambda>(_, r). row_status r = ''claimed'' \<or> row_status r = ''done'') db"

lemma set_update_subset_row: "set (AList.update k v xs) \<subseteq> insert (k, v) (set xs)"
  by (induction xs) auto

lemma update_all:
  "list_all (\<lambda>(_, r). P r) db \<Longrightarrow> P r \<Longrightarrow> list_all (\<lambda>(_, r). P r) (AList.update k r db)"
  using set_update_subset_row [of k r db] by (fastforce simp: list_all_iff)

lemma ledger_ok_exec: "ledger_ok db \<Longrightarrow> ledger_ok (ledger_exec L p t db)"
proof -
  assume ok: "ledger_ok db"
  let ?P = "\<lambda>r. row_status r = ''claimed'' \<or> row_status r = ''done''"
  have all: "list_all (\<lambda>(_, r). ?P r) db" and d: "distinct (map fst db)"
    using ok by (simp_all add: ledger_ok_def)
  have row: "?P r" if "map_of db k = Some r" for k r
    using all that by (fastforce simp: list_all_iff dest!: map_of_SomeD)
  have "list_all (\<lambda>(_, r). ?P r) (ledger_exec L p t db)"
  proof (cases p)
    case (OpAcquire k w n)
    then show ?thesis using all
      by (auto simp: acquire_def Let_def split: option.splits sum.splits intro!: update_all)
  next
    case (OpAcquireExisting k w n)
    then show ?thesis using all
      by (auto simp: acquire_existing_def Let_def split: option.splits sum.splits intro!: update_all)
  next
    case (OpHeartbeat k w)
    then show ?thesis using all row
      by (auto simp: heartbeat_def update_owned_def split: option.splits sum.splits
          intro!: update_all dest: row)
  next
    case (OpRelease k w)
    have "set (AList.delete k db) \<subseteq> set db" for k by (induction db) auto
    with OpRelease show ?thesis using all
      by (fastforce simp: release_def list_all_iff split: option.splits sum.splits)
  next
    case (OpDone k w)
    then show ?thesis using all row
      by (auto simp: claim_done_def update_owned_def split: option.splits sum.splits
          intro!: update_all)
  qed
  moreover have "distinct (map fst (ledger_exec L p t db))"
    using d by (cases p) (simp_all add: ledger_distinct)
  ultimately show ?thesis by (simp add: ledger_ok_def)
qed

lemma decide_run_steps:
  assumes "decide E b now k it = Some d" "dn_action d = ActRun"
  shows "live_claim_on_item (be_claims b) k now (item_effective_ttl E b k (backend_claim_ttl_secs E)) = None"
    and "list_dependencies b k \<noteq> [] \<Longrightarrow> all_dependencies_completed E b k"
    and "\<exists>a ag. it_assignee it = Some a \<and> resolve_confirmed_agent a = Some ag"
proof -
  have "d = item_tiers E b now k it"
    using assms by (auto simp: decide_def fail_closed_def decide_ask_def goal_tiers_def sibling_tier_def
        decide_wait_def decide_self_repair_def Let_def split: option.splits sum.splits if_splits)
  with assms(2) have t: "dn_action (item_tiers E b now k it) = ActRun" by simp
  have "resolve_confirmed_agent [] = None"
    by code_simp
  with t show "live_claim_on_item (be_claims b) k now (item_effective_ttl E b k (backend_claim_ttl_secs E)) = None"
    "list_dependencies b k \<noteq> [] \<Longrightarrow> all_dependencies_completed E b k"
    "\<exists>a ag. it_assignee it = Some a \<and> resolve_confirmed_agent a = Some ag"
    by (auto simp: item_tiers_def Let_def decide_wait_def decide_stay_quiet_def decide_run_def
        split: option.splits if_splits)
qed

text \<open>The states of the project have one to put a claimed item in.\<close>

definition has_started_state :: "backend \<Rightarrow> string \<Rightarrow> bool" where
  "has_started_state b p \<longleftrightarrow>
     list_ex (\<lambda>(st, r). ws_project r = p \<and> ws_group r = ''started'' \<and> ws_deleted r = None) (be_states b)"

lemma started_state_found:
  assumes "distinct (map fst (be_states b))" "has_started_state b p"
  obtains st r where "first_state_in_group b p ''started'' = Inr (st, r)" "wstate_get b st = Inr r"
    "ws_project r = p"
proof -
  define good where "good = (\<lambda>(k :: string, r :: wstate). ws_project r = p \<and> ws_group r = ''started'' \<and> ws_deleted r = None)"
  define rows where "rows = order_by (\<lambda>(k, r). ws_sequence r) (filter good (be_states b))"
  have rows: "set rows = {kr \<in> set (be_states b). good kr}" by (auto simp: rows_def)
  from assms(2) have "\<exists>kr \<in> set (be_states b). good kr"
    by (simp add: has_started_state_def list_ex_iff good_def)
  with rows obtain kr rest where o: "rows = kr # rest" by (cases rows) auto
  obtain st r where kr: "kr = (st, r)" by (cases kr)
  have f: "first_state_in_group b p ''started'' = Inr (st, r)"
    using o by (simp add: first_state_in_group_def rows_def good_def kr)
  have "good (st, r)" using rows o kr by auto
  then show thesis using that [OF f first_state_in_group_get(1) [OF assms(1) f]] by (simp add: good_def)
qed

text \<open>Once the checks before the lease have passed and the lease is granted, the claim goes through.\<close>

lemma claim_goes_through:
  assumes d: "distinct (map fst (be_states b))" and started: "has_started_state b (it_project it)"
    and it: "item_get b k = Inr it" "live_group b k = Some g" "g \<noteq> needs_input_group"
    and gate: "plan_gate_status E (it_metadata it) = GateOpen"
    and free: "assigned_elsewhere E b k it w now = None"
    and acq: "snd (item_acquire (be_claims b) k w now (item_effective_ttl E b k ttl)) = Inr Acquired"
  shows "\<exists>b'. item_claim E b k w now ttl ts = Inr (CoAcquired, b')"
proof -
  obtain s where s: "wstate_get b (it_state it) = Inr s" "ws_group s = g"
    using it(1,2) by (auto simp: live_group_def split: sum.splits)
  define b1 where "b1 = b\<lparr>be_claims := fst (item_acquire (be_claims b) k w now (item_effective_ttl E b k ttl))\<rparr>"
  have same: "be_states b1 = be_states b" "be_items b1 = be_items b" by (simp_all add: b1_def)
  have "distinct (map fst (be_states b1))" "has_started_state b1 (it_project it)"
    using d started by (simp_all add: has_started_state_def same)
  then obtain st r where st: "first_state_in_group b1 (it_project it) ''started'' = Inr (st, r)"
    "wstate_get b1 st = Inr r" "ws_project r = it_project it"
    by (rule started_state_found)
  have get: "item_get b1 k = Inr it" using it(1) by (simp add: item_get_def same)
  then obtain row where u: "item_update_state b1 k st ts = Inr (row, put_item b1 k row)"
    and row: "it_state row = st" "it_deleted row = None"
    using st(2,3) by (auto simp: item_update_state_def Let_def item_get_Inr)
  have "st \<in> fst ` set (be_states (put_item b1 k row))"
    using st(2) by (force simp: put_item_def wstate_get_def live_row_def split: option.splits dest!: map_of_SomeD)
  then obtain b3 where "item_update E (put_item b1 k row) k ts (no_update\<lparr>ui_assignee := Some w\<rparr>) = Inr b3"
    using row by (simp add: item_update_def check_update_def write_update_def no_update_def updated_item_def
        set_col_def Let_def)
  with it(1,3) s gate free acq st(1) u show ?thesis
    by (cases b3) (simp add: item_claim_def claim_inner_def gate_refusal_def with_ledger_def b1_def)
qed

text \<open>C5: An item the supervisor decides to run has every blocker completed, and once the other two
  checks of the tick hold, the plan gate is open and the item's state is not the one parked for human input, the
  agent it is dispatched to is granted the claim at that moment: no lease, no assignee and no state
  stands in the way. The project has a started state, and the claim table and the states are keyed.\<close>

theorem run_decision_is_claimable:
  assumes ledger: "ledger_ok (be_claims b)" and states: "distinct (map fst (be_states b))"
    and started: "has_started_state b (it_project it)"
    and it: "item_get b k = Inr it" and dec: "decide E b now k it = Some d" "dn_action d = ActRun"
    and gate: "plan_gate_status E (it_metadata it) = GateOpen"
    and parked: "live_group b k = Some g" "g \<noteq> needs_input_group"
    and w: "it_assignee it = Some a" "agent_part w = agent_part a"
  shows "(\<forall>x. x \<in> set (list_dependencies b k) \<longrightarrow>
            (\<exists>r. item_get b x = Inr r \<and> state_group b r = Some ''completed''))
      \<and> (\<exists>b'. item_claim E b k w now (backend_claim_ttl_secs E) ts = Inr (CoAcquired, b'))"
proof
  show "\<forall>x. x \<in> set (list_dependencies b k) \<longrightarrow>
            (\<exists>r. item_get b x = Inr r \<and> state_group b r = Some ''completed'')"
    using decide_run_steps(2) [OF dec] by (cases "list_dependencies b k = []")
      (simp_all add: dependencies_completed_iff)
  let ?ttl = "item_effective_ttl E b k (backend_claim_ttl_secs E)"
  have "find (\<lambda>c. claim_key c = [k]) (ledger_list (be_claims b) False now ?ttl) = None"
    using decide_run_steps(1) [OF dec] by (simp add: live_claim_on_item_def)
  then have "overwritable r w (now - ?ttl)" if "map_of (be_claims b) [k] = Some r" for r
    using that ledger find_ledger_list [of "be_claims b" "[k]" now ?ttl]
    by (auto simp: overwritable_def ledger_ok_def list_all_iff split: if_splits dest!: map_of_SomeD)
  then have acq: "snd (item_acquire (be_claims b) k w now ?ttl) = Inr Acquired"
    by (auto simp: item_acquire_def acquire_cases item_ledger_def split: option.splits)
  have "assigned_elsewhere E b k it w now = None" using w by (simp add: assigned_elsewhere_def)
  then show "\<exists>b'. item_claim E b k w now (backend_claim_ttl_secs E) ts = Inr (CoAcquired, b')"
    using claim_goes_through [OF states started it parked gate _ acq] by blast
qed

definition ready_tables :: backend where
  "ready_tables = sample_tables
     [(''a'', sample_item ''backlog'' (sample_meta []) None (Some ''codex''))] []"

lemma run_decision_is_claimable_witness:
  "\<exists>d b. decide sample_env ready_tables 100 ''a''
        (sample_item ''backlog'' (sample_meta []) None (Some ''codex'')) = Some d \<and> dn_action d = ActRun
     \<and> item_claim sample_env ready_tables ''a'' ''codex:1'' 100
          (backend_claim_ttl_secs sample_env) 100 = Inr (CoAcquired, b)"
proof -
  let ?it = "sample_item ''backlog'' (sample_meta []) None (Some ''codex'')"
  have l: "ledger_ok (be_claims ready_tables)" by (simp add: ready_tables_def sample_tables_def ledger_ok_def)
  have s: "distinct (map fst (be_states ready_tables))" "has_started_state ready_tables (it_project ?it)"
    by (simp_all add: ready_tables_def sample_eval has_started_state_def)
  have it: "item_get ready_tables ''a'' = Inr ?it" by (simp add: ready_tables_def sample_eval)
  have d: "decide sample_env ready_tables 100 ''a'' ?it = Some (decide_run ''eligible and nothing blocking'')"
    by (simp add: decide_def find_goal_ancestor.simps parse_goal_metadata_def item_tiers_def ready_tables_def
        live_claim_on_item_def list_dependencies_def resolve_confirmed_agent_def agent_registry_def sample_eval)
  have run: "dn_action (decide_run r) = ActRun" for r by (simp add: decide_run_def)
  have g: "plan_gate_status sample_env (it_metadata ?it) = GateOpen"
    "live_group ready_tables ''a'' = Some ''backlog''" "''backlog'' \<noteq> needs_input_group"
    by (simp_all add: sample_eval ready_tables_def needs_input_group_def)
  have a: "it_assignee ?it = Some ''codex''" "agent_part ''codex:1'' = agent_part ''codex''"
    by (simp_all add: sample_eval)
  from run_decision_is_claimable [OF l s it d run g a] d run show ?thesis by blast
qed

section \<open>Goals\<close>

text \<open>A table that an operation produced.\<close>

definition created_tables :: backend where
  "created_tables = snd (projr (item_create (sample_tables [] []) ''a'' 5
     \<lparr>ci_project = ''p'', ci_state = ''backlog'', ci_name = ''n'', ci_description = None,
      ci_priority = None, ci_parent = None, ci_assignee = None, ci_sort_order = None,
      ci_source = None, ci_external = None, ci_metadata = None, ci_labels = [],
      ci_assignees = [], ci_dependencies = [], ci_start_date = None, ci_due_date = None\<rparr>))"

lemma created_item: "known_item created_tables ''a''"
  by (simp add: created_tables_def sample_eval item_create_def validate_date_range_def next_sequence_id_def
      insert_item_def known_item_def)

lemma created_reachable: "be_reach sample_env created_tables"
proof (rule be_reach.step [OF be_reach.start])
  show "be_items (sample_tables [] []) = []" "be_relations (sample_tables [] []) = []"
    by (simp_all add: sample_tables_def)
  show "be_step sample_env (sample_tables [] []) created_tables"
    unfolding created_tables_def
    by (rule be_step.create, rule result_Inr [OF _ refl])
      (simp_all add: sample_eval item_create_def validate_date_range_def next_sequence_id_def
        insert_item_def known_item_def)
qed

text \<open>On every table that the operations of the backend can produce, in any order and starting
  from an empty item table, the walk from an item to its nearest goal ends, from a stored row and
  from any copy of one.\<close>

lemma goal_walk_ends:
  assumes "be_reach E b"
  shows "\<exists>r. find_goal_ancestor E b k it = Some r"
  by (rule goal_walk_ends_on_ok [OF backend_ok_reach [OF assms]])

lemma goal_walk_ends_example:
  "\<exists>r. find_goal_ancestor sample_env created_tables ''a''
     (sample_item ''backlog'' (sample_meta []) (Some ''a'') None) = Some r"
  by (rule goal_walk_ends [OF created_reachable])

text \<open>C14: Whatever operations run, no item is its own ancestor, every parent is a stored item, and the
  relation table keeps its keys, its checks and the canonical order of symmetric pairs.\<close>

theorem item_tables_stay_well_formed:
  assumes "be_reach E b"
  shows "acyclic (parent_rel (parents b)) \<and> (\<forall>k p. parent_of b k = Some p \<longrightarrow> known_item b p)
      \<and> relations_ok b"
proof -
  have ok: "acyclic (parent_rel (parents b))" "Range (parent_rel (parents b)) \<subseteq> fst ` set (parents b)"
    "relations_ok b"
    using backend_ok_reach [OF assms] by (simp_all add: backend_ok_def forest_ok_def)
  moreover have "known_item b p" if "parent_of b k = Some p" for k p
  proof -
    from that have "p \<in> Range (parent_rel (parents b))" by (auto simp: parent_rel_iff)
    with ok(2) show ?thesis unfolding known_item_parents by (rule subsetD)
  qed
  ultimately show ?thesis by blast
qed

lemma item_tables_stay_well_formed_witness:
  "acyclic (parent_rel (parents created_tables)) \<and> known_item created_tables ''a''"
  using item_tables_stay_well_formed [OF created_reachable] created_item by simp

text \<open>The row of a goal whose metadata the reader and the printer agree on.\<close>

definition goal_row_ok :: "be_env \<Rightarrow> backend \<Rightarrow> string \<Rightarrow> item \<Rightarrow> bool" where
  "goal_row_ok E b k it \<longleftrightarrow>
     item_get b k = Inr it \<and> it_state it \<in> fst ` set (be_states b) \<and>
     (\<exists>ob. en_parse E (it_metadata it) = Some (JObj ob) \<and> json_ok E (JObj ob))"

lemma json_ok_goal:
  assumes "json_reads_back E" "gm_repairs g \<le> u32_max"
  shows "json_ok E (goal_to_json g)"
proof -
  have "gm_repairs g \<le> u64_max" using assms(2) by (simp add: u32_max_def u64_max_def)
  with assms(1) show ?thesis
    by (simp add: goal_to_json_def list_all_iff json_ok_numeral [unfolded json_ok.simps])
qed

lemma parse_goal_of:
  assumes "en_parse E t = Some v" "json_key ''goal'' v = Some w" "w \<noteq> JNull" "goal_of_json w = Some g"
  shows "parse_goal_metadata E t = Inr (Some g)"
  using assms by (cases w) (simp_all add: parse_goal_metadata_def)

lemma goal_saved:
  assumes rb: "json_reads_back E" and row: "goal_row_ok E b k it" and n: "gm_repairs g \<le> u32_max"
  obtains r b' where "save_goal_metadata E b k ts g = Inr (r, b')" "goal_row_ok E b' k r"
    "parse_goal_metadata E (it_metadata r) = Inr (Some g)" "it_project r = it_project it"
    "be_vents b' = be_vents b"
proof -
  from row obtain ob where it: "item_get b k = Inr it" "it_state it \<in> fst ` set (be_states b)"
    and ob: "en_parse E (it_metadata it) = Some (JObj ob)" "json_ok E (JObj ob)"
    by (auto simp: goal_row_ok_def)
  let ?ob = "AList.update ''goal'' (goal_to_json g) ob"
  let ?u = "no_update\<lparr>ui_metadata := Some (en_print E (JObj ?ob))\<rparr>"
  let ?r = "updated_item E ts ?u it"
  let ?b = "b\<lparr>be_items := AList.update k ?r (be_items b)\<rparr>"
  have okob: "json_ok E (JObj ?ob)" by (rule json_ok_update [OF ob(2) json_ok_goal [OF rb n]])
  have rd: "en_parse E (en_print E (JObj ?ob)) = Some (JObj ?ob)" by (rule json_reads_backD [OF rb okob])
  have cur: "json_ok E cur" if "en_parse E (it_metadata it) = Some cur" for cur
    using ob that by (simp del: json_ok.simps)
  obtain ob' where
    o: "en_parse E (preserve_plan_approval E (en_print E (JObj ?ob)) (it_metadata it)) = Some (JObj ob')"
      "json_ok E (JObj ob')"
      and other: "\<And>key. key \<notin> {''plan_status'', ''plan_approved_at'', ''plan_approved_by''}
        \<Longrightarrow> map_of ob' key = map_of ?ob key"
    by (rule preserve_other_keys [OF rb rd okob cur]) (assumption, blast)
  have goal: "map_of ob' ''goal'' = Some (goal_to_json g)" by (subst other) simp_all
  have meta: "it_metadata ?r = preserve_plan_approval E (en_print E (JObj ?ob)) (it_metadata it)"
    by (simp add: updated_item_def no_update_def)
  have st: "it_state ?r = it_state it" "it_deleted ?r = None" "it_project ?r = it_project it"
    using it(1) by (simp_all add: updated_item_def no_update_def set_col_def item_get_Inr)
  have "save_goal_metadata E b k ts g = Inr (?r, ?b)"
    using it st ob(1) by (simp add: save_goal_metadata_def merge_item_metadata_def meta_object_def
        item_update_def check_update_def write_update_def Let_def no_update_def)
  moreover have "goal_row_ok E ?b k ?r"
    using st it(2) o meta by (simp add: goal_row_ok_def item_get_def live_row_def)
  moreover have "parse_goal_metadata E (it_metadata ?r) = Inr (Some g)"
    unfolding meta by (rule parse_goal_of [OF o(1) _ _ goal_json_roundtrip [OF n]])
      (simp_all add: json_key_def goal goal_to_json_def)
  ultimately show ?thesis using st(3) by (intro that [of ?r ?b]) simp_all
qed

lemma goal_above_Some:
  "goal_above E b k it = Some x \<longleftrightarrow> find_goal_ancestor E b k it = Some (Inr (Some x))"
  by (auto simp: goal_above_def split: option.splits sum.splits)

lemma self_repair_under_cap:
  assumes "decide E b now k it = Some d" "dn_action d = ActSelfRepair"
  shows "\<exists>gi g. goal_above E b k it = Some (gi, g) \<and> gm_repairs g < self_repair_cap"
  using assms
  by (auto simp: decide_def fail_closed_def decide_ask_def goal_tiers_def sibling_tier_def item_tiers_def
      decide_wait_def decide_run_def decide_stay_quiet_def goal_above_def Let_def
      split: option.splits sum.splits if_splits)

text \<open>The counter of a decision for self-repair is below the cap, and is written back one higher.\<close>

lemma self_repair_counted:
  assumes rb: "json_reads_back E"
    and sup: "decide_for_supervisor E F b now k it i ts = Some (EaSelfRepair, b')"
    and goal: "goal_above E b k it = Some ((gk, gi), g)" "goal_row_ok E b gk gi"
  shows "gm_repairs g < self_repair_cap \<and>
      (\<exists>row. item_get b' gk = Inr row \<and>
         parse_goal_metadata E (it_metadata row) = Inr (Some (g\<lparr>gm_repairs := gm_repairs g + 1\<rparr>)))"
proof -
  from sup obtain d where d: "decide E b now k it = Some d" "dn_action d = ActSelfRepair"
    and b': "b' = save_goal_quietly E b gk ts (g\<lparr>gm_repairs := gm_repairs g + 1\<rparr>)"
    by (auto simp: decide_for_supervisor_def Let_def goal(1) split: option.splits action_kind.splits
        prod.splits)
  from self_repair_under_cap [OF d] goal(1) have lt: "gm_repairs g < self_repair_cap" by simp
  then have "gm_repairs (g\<lparr>gm_repairs := gm_repairs g + 1\<rparr>) \<le> u32_max"
    by (simp add: self_repair_cap_def u32_max_def)
  from goal_saved [OF rb goal(2) this, of ts] obtain r b1 where
    s: "save_goal_metadata E b gk ts (g\<lparr>gm_repairs := gm_repairs g + 1\<rparr>) = Inr (r, b1)"
    "goal_row_ok E b1 gk r" "parse_goal_metadata E (it_metadata r) = Inr (Some (g\<lparr>gm_repairs := gm_repairs g + 1\<rparr>))"
    by blast
  then have "b' = b1" by (simp add: b' save_goal_quietly_def)
  with lt s(2,3) show ?thesis by (auto simp: goal_row_ok_def)
qed

definition repair_goal :: "nat \<Rightarrow> goal_meta" where
  "repair_goal n = \<lparr>gm_objective = ''o'', gm_allowed_paths = [], gm_disallowed = [], gm_quota_mode = [],
     gm_lifecycle = GoalActive, gm_repairs = n\<rparr>"

definition goal_item :: "nat \<Rightarrow> item" where
  "goal_item n = sample_item ''started'' (sample_meta [(''goal'', goal_to_json (repair_goal n))]) None None"

definition child_item :: item where
  "child_item = sample_item ''backlog'' (sample_meta []) (Some ''g'') (Some ''codex'')"

definition friction_tables :: "nat \<Rightarrow> backend" where
  "friction_tables n = (sample_tables [(''g'', goal_item n), (''a'', child_item), (''c'', child_item)] [])
     \<lparr>be_vents := [(''v'', \<lparr>vt_project = ''p'', vt_severity = ''low'', vt_actionable = True,
        vt_item = Some ''g'', vt_updated = 0\<rparr>)]\<rparr>"

lemma friction_goal:
  assumes "n \<le> u32_max"
  shows "parse_goal_metadata sample_env (it_metadata (goal_item n)) = Inr (Some (repair_goal n))"
    "goal_row_ok sample_env (friction_tables n) ''g'' (goal_item n)"
proof -
  have "json_ok sample_env (goal_to_json (repair_goal n))"
    by (rule json_ok_goal [OF sample_env_reads_back]) (simp add: repair_goal_def assms)
  then have ok: "json_ok sample_env (JObj [(''goal'', goal_to_json (repair_goal n))])" by simp
  note rd = sample_meta_reads [OF ok]
  have m: "it_metadata (goal_item n) = sample_meta [(''goal'', goal_to_json (repair_goal n))]"
    by (simp add: goal_item_def sample_item_def)
  have ne: "goal_to_json (repair_goal n) \<noteq> JNull" by (simp add: goal_to_json_def)
  show "parse_goal_metadata sample_env (it_metadata (goal_item n)) = Inr (Some (repair_goal n))"
    unfolding m by (rule parse_goal_of [OF rd _ ne goal_json_roundtrip])
      (simp_all add: json_key_def repair_goal_def assms)
  show "goal_row_ok sample_env (friction_tables n) ''g'' (goal_item n)"
    using rd ok by (simp add: goal_row_ok_def friction_tables_def goal_item_def sample_item_def sample_tables_def
        item_get_def live_row_def del: json_ok.simps)
qed

lemma friction_child: "parse_goal_metadata sample_env (it_metadata child_item) = Inr None"
  "it_parent child_item = Some ''g''"
  by (simp_all add: child_item_def sample_item_def parse_goal_metadata_def json_key_def)

lemma friction_walk:
  assumes "n \<le> u32_max"
  shows "find_goal_ancestor sample_env (friction_tables n) k child_item
     = Some (Inr (Some ((''g'', goal_item n), repair_goal n)))"
proof -
  have "item_get (friction_tables n) ''g'' = Inr (goal_item n)"
    using friction_goal(2) [OF assms] by (simp add: goal_row_ok_def)
  then show ?thesis using friction_goal(1) [OF assms] friction_child
    by (subst find_goal_ancestor.simps, simp, subst find_goal_ancestor.simps, simp)
qed

lemma friction_linked:
  "linked_vents (friction_tables n) (it_project (goal_item n)) ''g'' k \<noteq> []"
  "v \<in> snd ` set (be_vents (friction_tables n)) \<Longrightarrow> vt_severity v = ''low''"
  by (simp_all add: linked_vents_def friction_tables_def goal_item_def sample_item_def)

lemma self_repair_counted_example:
  "\<exists>F b row. decide_for_supervisor sample_env F (friction_tables 2) 100 ''a'' child_item ''i'' 100
        = Some (EaSelfRepair, b) \<and> item_get b ''g'' = Inr row
     \<and> parse_goal_metadata sample_env (it_metadata row) = Inr (Some ((repair_goal 2)\<lparr>gm_repairs := 3\<rparr>))"
proof -
  fix F :: failover_env
  have two: "2 \<le> u32_max" by (simp add: u32_max_def)
  let ?r = "decide_for_supervisor sample_env F (friction_tables 2) 100 ''a'' child_item ''i'' 100"
  have g: "goal_above sample_env (friction_tables 2) ''a'' child_item = Some ((''g'', goal_item 2), repair_goal 2)"
    by (simp add: goal_above_def friction_walk [OF two])
  have sev: "\<not> list_ex (\<lambda>v. severity_rank ''high'' \<le> severity_rank (vt_severity v))
      (linked_vents (friction_tables 2) (it_project (goal_item 2)) ''g'' ''a'')"
    by (simp add: linked_vents_def friction_tables_def goal_item_def sample_item_def severity_rank_def)
  have r: "?r = Some (EaSelfRepair, snd (the ?r))"
    using sev by (simp add: decide_for_supervisor_def decide_def friction_walk [OF two] goal_tiers_def Let_def g
        friction_linked(1) decide_self_repair_def repair_goal_def self_repair_cap_def)
  from self_repair_counted [OF sample_env_reads_back r g friction_goal(2) [OF two]] r
  show ?thesis by (auto simp: repair_goal_def)
qed



end
