(* ===== verification/Supervisor_Sample.thy ===== *)
theory Supervisor_Sample
  imports Supervisor_Tick Quota_Props
begin

text \<open>
  Two projects with ready items, two of them in the first, and the tick over them: one item of each
  project is dispatched, the second of the first waits for the share of its project.
\<close>

definition sample_sup :: sup_env where
  "sample_sup = \<lparr>se_be = sample_env,
     se_fo = \<lparr>fo_var = None, fo_config_enabled = True, fo_unavailable = (\<lambda>_. None),
       fo_over_threshold = (\<lambda>_. False), fo_recent_miss = (\<lambda>_. False), fo_candidates = (\<lambda>_ _ _. []),
       fo_author = ''supervisor'', fo_format_unix = (\<lambda>_. [])\<rparr>,
     se_author = ''supervisor'', se_cooling = (\<lambda>_. False), se_policy = Normal,
     se_dir_exists = (\<lambda>_. True), se_now = 100, se_ts = 100, se_id = (\<lambda>purpose key. purpose @ key),
     se_max_per_project = Some ''1'', se_max_concurrency = None, se_pool_size = 4\<rparr>"

definition codex_item :: item where
  "codex_item = sample_item ''backlog'' (sample_meta []) None (Some ''codex'')"

definition two_projects :: backend where
  "two_projects = (sample_tables
       [(''a'', codex_item), (''c'', codex_item), (''d'', codex_item\<lparr>it_project := ''q''\<rparr>)] [])
     \<lparr>be_projects := map (\<lambda>p. (p, \<lparr>pj_workspace = ''w'', pj_archived = None, pj_deleted = None\<rparr>))
        [''p'', ''q''],
      be_dirs := [(''p'', ''/repo'', 0), (''q'', ''/other'', 0)],
      be_labels := map (\<lambda>l. (l, sample_label l)) [''ready-for-work'', ''dispatched'', ''needs-manual-dispatch'']
        @ [(''ready-q'', (sample_label ''ready-for-work'')\<lparr>wl_project := Some ''q''\<rparr>)],
      be_item_labels := [(''a'', ''ready-for-work''), (''c'', ''ready-for-work''), (''d'', ''ready-q'')]\<rparr>"

definition two_world :: sup_world where
  "two_world = \<lparr>sw_db = two_projects, sw_queue = open_memory [], sw_gated = []\<rparr>"

lemma sample_codex [sample_eval]: "resolve_confirmed_agent ''codex'' = Some Codex"
    "agent_name Codex = ''codex''"
  by (simp_all add: resolve_confirmed_agent_def agent_registry_def sample_agents)

lemma sample_cap [sample_eval]: "parse_u64 ''1'' = Some 1"
proof -
  have "show_nat 1 = ''1''" by code_simp
  then show ?thesis using parse_show_nat [of 1] by (simp add: u64_max_def)
qed

lemma sample_order [sample_eval]: "f_lt (f_of_nat 0) (f_of_nat 0) = False"
  by (simp add: f_lt_def)

lemma walk_at_root:
  "parse_goal_metadata E (it_metadata it) = Inr None \<Longrightarrow> it_parent it = None
     \<Longrightarrow> find_goal_ancestor E b k it = Some (Inr None)"
  by (subst find_goal_ancestor.simps) simp

lemmas sample_eval_sup [sample_eval] =
  sample_sup_def codex_item_def two_projects_def two_world_def

lemmas sample_eval_batches [sample_eval] =
  dispatched_label_def needs_manual_label_def paused_label_def needs_decision_label_def
  project_batch_of_def label_ids_def ensure_if_missing_def ensure_label_def wlabel_create_def
  project_get_def label_next_sort_order_def label_name_taken_def label_fk_ok_def items_by_label_def
  is_open_item_def dir_list_def

lemmas sample_eval_decide [sample_eval] =
  decide_for_supervisor_def decide_def walk_at_root parse_goal_metadata_def item_tiers_def
  live_claim_on_item_def list_dependencies_def decide_run_def failover_before_dispatch_def
  goal_above_def backend_claim_ttl_secs_def

lemmas sample_eval_tick [sample_eval] =
  run_discovery_tick_def per_project_work_cap_def positive_var_def contended_def tick_item_def
  in_needs_input_def wears_def try_dispatch_def dispatch_item_def Let_def job_in_flight_def
  count_active_with_arg_def row_is_active_def job_has_arg_def enqueue_work_job_def enqueue_def
  wake_workers_def inserted_row_def work_job_def new_job_def open_memory_def row_of_def
  queued_info_def item_model_override_def record_supervisor_action_def comment_create_def
  waited_def skipped_def blocks_dispatch_def known_item_def

definition two_run :: "(tick_result \<times> sup_world) option" where
  "two_run = run_discovery_tick sample_sup (\<lambda>_ w. w) two_world"

lemma two_run_outcome:
  "map_option (\<lambda>(t, w). (t, map (\<lambda>r. (jr_id r, row_is_active r, map_option aj_args (jr_payload r)))
       (agent_jobs (sw_queue w)))) two_run
   = Some (\<lparr>tr_dispatched = 2, tr_skipped = 0, tr_waiting = 1\<rparr>,
       [(''joba'', True, Some [''a'', ''codex'', ''/repo'']), (''jobd'', True, Some [''d'', ''codex'', ''/other''])])"
  by (simp add: two_run_def sample_eval)

lemma two_projects_contended:
  "contended (fst (collect_batches sample_sup (dir_list (sw_db two_world)) (sw_db two_world)))"
  by (simp add: sample_eval)

end
