(* ===== verification/Supervisor_Props.thy ===== *)
theory Supervisor_Props
  imports Supervisor_Sample
begin

text \<open>
  What a discovery tick does to the queue and to the items: a job is enqueued only for an item that is
  cleared for it, no item gets a second live job, a project keeps to its share, and the tick ends.
\<close>

section \<open>The steps of a tick\<close>

lemma enqueue_work_job_queue:
  "enqueue_work_job S q k it agent folder reason = (q', Some info) \<Longrightarrow>
     agent_jobs q' = agent_jobs q @ [inserted_row (se_id S ''job'' k)
       (work_job (se_be S) k it agent folder reason) (se_now S)]"
  "enqueue_work_job S q k it agent folder reason = (q', None) \<Longrightarrow> q' = q"
  by (auto simp: enqueue_work_job_def enqueue_def wake_workers_def split: if_splits)

text \<open>What it takes to be cleared for a dispatch, and the row a dispatch adds.\<close>

definition cleared :: "sup_env \<Rightarrow> item \<Rightarrow> agent_kind \<Rightarrow> bool" where
  "cleared S it agent \<longleftrightarrow>
     plan_gate_status (se_be S) (it_metadata it) = GateOpen
     \<and> Option.bind (it_assignee it) resolve_confirmed_agent = Some agent
     \<and> \<not> se_cooling S (agent_name agent) \<and> \<not> blocks_dispatch (se_policy S)"

definition dispatch_row :: "sup_env \<Rightarrow> string \<Rightarrow> item \<Rightarrow> agent_kind \<Rightarrow> string \<Rightarrow> job_row" where
  "dispatch_row S k it agent folder =
     inserted_row (se_id S ''job'' k) (work_job (se_be S) k it agent (Some folder) None) (se_now S)"

text \<open>
  A dispatch enqueues: from \<open>w\<close>, where no job of the item is in flight, others bring the queue to that of
  their moment before the enqueueing, one row is appended to it, and others act again before the record.
\<close>

definition dispatches ::
  "sup_env \<Rightarrow> interference \<Rightarrow> project_batch \<Rightarrow> string \<Rightarrow> item \<Rightarrow> sup_world \<Rightarrow> sup_world \<Rightarrow> bool" where
  "dispatches S others B k it w w' \<longleftrightarrow> (\<exists>v u agent. sw_queue v = sw_queue w \<and> cleared S it agent
     \<and> \<not> job_in_flight (sw_queue w) k
     \<and> agent_jobs (sw_queue u)
         = agent_jobs (sw_queue (others (BeforeEnqueue k) v)) @ [dispatch_row S k it agent (pb_folder B)]
     \<and> sw_queue w' = sw_queue (others (BeforeRecord k) u))"

text \<open>A turn that enqueues nothing leaves the queue to others.\<close>

definition leaves_queue :: "interference \<Rightarrow> string \<Rightarrow> sup_world \<Rightarrow> sup_world \<Rightarrow> bool" where
  "leaves_queue others k w w' \<longleftrightarrow> sw_queue w' = sw_queue w
     \<or> \<not> job_in_flight (sw_queue w) k
       \<and> (\<exists>v. sw_queue v = sw_queue w \<and> sw_queue w' = sw_queue (others (BeforeEnqueue k) v))"

lemma dispatch_item_queue:
  assumes "dispatch_item S others w k it agent folder m ready = (x, w')"
  shows "(x = Dispatched \<and> \<not> job_in_flight (sw_queue w) k
        \<and> plan_gate_status (se_be S) (it_metadata it) = GateOpen
        \<and> (\<exists>u. agent_jobs (sw_queue u)
              = agent_jobs (sw_queue (others (BeforeEnqueue k) w)) @ [dispatch_row S k it agent folder]
            \<and> sw_queue w' = sw_queue (others (BeforeRecord k) u)))
      \<or> (x \<noteq> Dispatched \<and> leaves_queue others k w w')"
proof (cases "job_in_flight (sw_queue w) k \<or> plan_gate_status (se_be S) (it_metadata it) \<noteq> GateOpen
    \<or> m dispatched_label = None")
  case True
  with assms have "x \<noteq> Dispatched \<and> sw_queue w' = sw_queue w"
    by (auto simp: dispatch_item_def wait_on_plan_def first_time_gated_def
        split: gate_status.splits option.splits if_splits sum.splits prod.splits)
  then show ?thesis by (simp add: leaves_queue_def)
next
  case False
  let ?w1 = "others (BeforeEnqueue k) w"
  obtain q' r where e: "enqueue_work_job S (sw_queue ?w1) k it agent (Some folder) None = (q', r)" by fastforce
  show ?thesis
  proof (cases r)
    case None
    from enqueue_work_job_queue(2) [OF e [unfolded None]] assms False e None show ?thesis
      by (auto simp: dispatch_item_def Let_def leaves_queue_def)
  next
    case (Some info)
    from enqueue_work_job_queue(1) [OF e [unfolded Some]]
    have "agent_jobs (sw_queue (?w1\<lparr>sw_queue := q'\<rparr>)) = agent_jobs (sw_queue ?w1) @ [dispatch_row S k it agent folder]"
      by (simp add: dispatch_row_def)
    moreover from assms False e Some
    have "x = Dispatched" "sw_queue w' = sw_queue (others (BeforeRecord k) (?w1\<lparr>sw_queue := q'\<rparr>))"
      by (auto simp: dispatch_item_def Let_def)
    ultimately show ?thesis using False by blast
  qed
qed

lemma skip_item_queue [simp]: "sw_queue (skip_item S w k it m ready) = sw_queue w"
  by (simp add: skip_item_def first_time_gated_def)

lemma ask_a_person_queue [simp]: "sw_queue (ask_a_person S w k q m ready) = sw_queue w"
  by (simp add: ask_a_person_def)

lemma first_time_gated_queue [simp]: "sw_queue (snd (first_time_gated w key)) = sw_queue w"
  "sw_db (snd (first_time_gated w key)) = sw_db w"
  by (simp_all add: first_time_gated_def)

text \<open>What one turn does to the queue and to the number of jobs of the project.\<close>

lemma try_dispatch_queue:
  assumes "try_dispatch S others B cd cap k it (t, n, w) = (t', n', w')"
  shows "(leaves_queue others k w w' \<and> n' = n)
      \<or> (n' = n + 1 \<and> (cd \<longrightarrow> n < cap) \<and> dispatches S others B k it w w')"
proof (cases "Option.bind (it_assignee it) resolve_confirmed_agent")
  case None
  with assms have "w' = skip_item S w k it (pb_labels B) (pb_ready B)" "n' = n"
    by (simp_all add: try_dispatch_def)
  then show ?thesis by (simp add: leaves_queue_def)
next
  case (Some agent)
  let ?busy = "se_cooling S (agent_name agent) \<or> blocks_dispatch (se_policy S) \<or> (cd \<and> n \<ge> cap)"
  obtain x w1 where d: "dispatch_item S others w k it agent (pb_folder B) (pb_labels B) (pb_ready B) = (x, w1)"
    by fastforce
  show ?thesis
  proof (cases "?busy \<or> x \<noteq> Dispatched")
    case True
    with assms Some d have "n' = n" "w' = w \<or> x \<noteq> Dispatched \<and> w' = w1"
      by (auto simp: try_dispatch_def split: if_splits dispatch_outcome.splits)
    with dispatch_item_queue [OF d] show ?thesis by (auto simp: leaves_queue_def)
  next
    case False
    with assms Some d have "n' = n + 1" "w' = w1" by (auto simp: try_dispatch_def)
    moreover from False Some dispatch_item_queue [OF d] have "dispatches S others B k it w w1"
      unfolding dispatches_def cleared_def by blast
    ultimately show ?thesis using False by (auto simp: not_le)
  qed
qed

lemma tick_item_queue:
  assumes "tick_item S others B cd cap (k, it) (t, n, w) = Some (t', n', w')"
  shows "(leaves_queue others k w w' \<and> n' = n)
      \<or> (n' = n + 1 \<and> (cd \<longrightarrow> n < cap) \<and> dispatches S others B k it w w')"
proof (cases "in_needs_input (sw_db w) it \<or> wears (sw_db w) (pb_labels B) k paused_label
    \<or> wears (sw_db w) (pb_labels B) k needs_decision_label")
  case True
  with assms have "n' = n \<and> (w' = w \<or> w' = snd (first_time_gated w k))"
    by (simp add: tick_item_def split: if_splits)
  then show ?thesis by (elim conjE disjE) (simp_all add: leaves_queue_def)
next
  case False
  with assms obtain act b' where
    t: "(case act of EaRun \<Rightarrow> try_dispatch S others B cd cap k it (t, n, w\<lparr>sw_db := b'\<rparr>)
        | EaSelfRepair \<Rightarrow> try_dispatch S others B cd cap k it (t, n, w\<lparr>sw_db := b'\<rparr>)
        | EaAsk q \<Rightarrow> (skipped t, n, ask_a_person S (w\<lparr>sw_db := b'\<rparr>) k q (pb_labels B) (pb_ready B))
        | EaWait _ \<Rightarrow> (waited t, n, w\<lparr>sw_db := b'\<rparr>)
        | EaStayQuiet \<Rightarrow> (skipped t, n, skip_item S (w\<lparr>sw_db := b'\<rparr>) k it (pb_labels B) (pb_ready B)))
      = (t', n', w')"
    by (auto simp: tick_item_def Let_def)
  have same: "leaves_queue others k (w\<lparr>sw_db := b'\<rparr>) w' = leaves_queue others k w w'"
    "dispatches S others B k it (w\<lparr>sw_db := b'\<rparr>) w' = dispatches S others B k it w w'"
    by (simp_all add: leaves_queue_def dispatches_def)
  have tried: ?thesis if "try_dispatch S others B cd cap k it (t, n, w\<lparr>sw_db := b'\<rparr>) = (t', n', w')"
    using try_dispatch_queue [OF that] unfolding same .
  from t tried show ?thesis by (cases act) (auto simp: leaves_queue_def)
qed

text \<open>Induction over the turns of a batch, and over the batches.\<close>

lemma tick_items_induct:
  assumes "tick_items S others B cd cap kis (t, n, w) = Some (t', n', w')" "P n w"
    and "\<And>k n w. P n w \<Longrightarrow> P n (others (BeforeTurn k) w)"
    and "\<And>k it t n w t' n' w'. (k, it) \<in> set kis \<Longrightarrow> P n w \<Longrightarrow>
           tick_item S others B cd cap (k, it) (t, n, w) = Some (t', n', w') \<Longrightarrow> P n' w'"
  shows "P n' w'"
  using assms(1,2,4)
proof (induction kis arbitrary: t n w)
  case (Cons ki kis)
  obtain k it where ki: "ki = (k, it)" by (cases ki)
  from Cons.prems(1) ki obtain t1 n1 w1 where
    h: "tick_item S others B cd cap (k, it) (t, n, others (BeforeTurn k) w) = Some (t1, n1, w1)"
    and r: "tick_items S others B cd cap kis (t1, n1, w1) = Some (t', n', w')"
    by (auto simp: bind_eq_Some_conv)
  have p: "P n1 w1" by (rule Cons.prems(3) [OF _ assms(3) [OF Cons.prems(2)] h]) (simp add: ki)
  show ?case
  proof (rule Cons.IH [OF r p])
    fix k it t n w t' n' w'
    assume "(k, it) \<in> set kis" and q: "P n w" "tick_item S others B cd cap (k, it) (t, n, w) = Some (t', n', w')"
    then have "(k, it) \<in> set (ki # kis)" by simp
    from Cons.prems(3) [OF this q] show "P n' w'" .
  qed
qed simp

lemma tick_batches_induct:
  assumes "tick_batches S others cd cap Bs (t, w) = Some (t', w')" "P w"
    and "\<And>B t n w t' n' w'. B \<in> set Bs \<Longrightarrow> P w \<Longrightarrow>
           n = (if cd then count_active_with_arg (pb_folder B) (Some 2) (sw_queue w) else 0) \<Longrightarrow>
           tick_items S others B cd cap (pb_items B) (t, n, w) = Some (t', n', w') \<Longrightarrow> P w'"
  shows "P w'"
  using assms
proof (induction Bs arbitrary: t w)
  case (Cons B Bs)
  from Cons.prems(1) obtain t1 n1 w1 where
    h: "tick_items S others B cd cap (pb_items B)
          (t, if cd then count_active_with_arg (pb_folder B) (Some 2) (sw_queue w) else 0, w) = Some (t1, n1, w1)"
    and r: "tick_batches S others cd cap Bs (t1, w1) = Some (t', w')"
    by (simp add: bind_eq_Some_conv Let_def del: tick_items.simps) blast
  have p: "P w1" by (rule Cons.prems(3) [OF _ Cons.prems(2) refl h]) simp
  show ?case
  proof (rule Cons.IH [OF r p])
    fix B' t n w t' n' w'
    assume "B' \<in> set Bs" and q: "P w"
      "n = (if cd then count_active_with_arg (pb_folder B') (Some 2) (sw_queue w) else 0)"
      "tick_items S others B' cd cap (pb_items B') (t, n, w) = Some (t', n', w')"
    then have "B' \<in> set (B # Bs)" by simp
    from Cons.prems(3) [OF this q] show "P w'" .
  qed
qed simp

section \<open>Single flight\<close>

definition single_flight :: "job_queue \<Rightarrow> bool" where
  "single_flight q \<longleftrightarrow> (\<forall>k. count_active_with_arg k (Some 0) q \<le> 1)"

lemma length_filter_mono: "(\<And>x. P x \<Longrightarrow> Q x) \<Longrightarrow> length (filter P xs) \<le> length (filter Q xs)"
  by (induction xs) (simp_all add: le_SucI)

lemma count_Some_le: "count_active_with_arg v (Some i) q \<le> count_active_with_arg v None q"
  unfolding count_active_with_arg_def
proof (rule length_filter_mono)
  fix r
  assume "row_is_active r \<and> (case jr_payload r of None \<Rightarrow> False | Some job \<Rightarrow> job_has_arg v (Some i) job)"
  then show "row_is_active r \<and> (case jr_payload r of None \<Rightarrow> False | Some job \<Rightarrow> job_has_arg v None job)"
    by (auto simp: job_has_arg_def split: option.splits)
qed

lemma dispatch_row_args:
  "count_active_with_arg v (Some 0) (q\<lparr>agent_jobs := agent_jobs q @ [dispatch_row S k it agent f]\<rparr>)
     = count_active_with_arg v (Some 0) q + (if v = k then 1 else 0)"
  "count_active_with_arg v (Some 2) (q\<lparr>agent_jobs := agent_jobs q @ [dispatch_row S k it agent f]\<rparr>)
     = count_active_with_arg v (Some 2) q + (if v = f then 1 else 0)"
  by (auto simp: count_active_with_arg_def dispatch_row_def inserted_row_def row_is_active_def
      job_has_arg_def work_job_def)

lemma count_cong: "agent_jobs q = agent_jobs q' \<Longrightarrow> count_active_with_arg v i q = count_active_with_arg v i q'"
  by (simp add: count_active_with_arg_def)

lemma dispatch_counts:
  assumes "dispatches S others B k it w w'"
  obtains v u where "sw_queue v = sw_queue w" "count_active_with_arg k (Some 0) (sw_queue v) = 0"
    "\<And>l. count_active_with_arg l (Some 0) (sw_queue u)
       = count_active_with_arg l (Some 0) (sw_queue (others (BeforeEnqueue k) v)) + (if l = k then 1 else 0)"
    "\<And>f. count_active_with_arg f (Some 2) (sw_queue u)
       = count_active_with_arg f (Some 2) (sw_queue (others (BeforeEnqueue k) v)) + (if f = pb_folder B then 1 else 0)"
    "sw_queue w' = sw_queue (others (BeforeRecord k) u)"
proof -
  from assms obtain v u agent where v: "sw_queue v = sw_queue w" and f: "\<not> job_in_flight (sw_queue w) k"
    and a: "agent_jobs (sw_queue u)
      = agent_jobs (sw_queue (others (BeforeEnqueue k) v)) @ [dispatch_row S k it agent (pb_folder B)]"
    and w': "sw_queue w' = sw_queue (others (BeforeRecord k) u)"
    unfolding dispatches_def by blast
  let ?q = "sw_queue (others (BeforeEnqueue k) v)"
  from a have c: "count_active_with_arg l i (sw_queue u)
      = count_active_with_arg l i (?q\<lparr>agent_jobs := agent_jobs ?q @ [dispatch_row S k it agent (pb_folder B)]\<rparr>)" for l i
    by (intro count_cong) simp
  have "count_active_with_arg k (Some 0) (sw_queue v) = 0"
    using f v count_Some_le [of k 0 "sw_queue w"] by (simp add: job_in_flight_def)
  from that [OF v this _ _ w'] show thesis by (simp only: c dispatch_row_args)
qed

lemma leaves_queue_count:
  assumes "leaves_queue others k w w'"
  obtains "sw_queue w' = sw_queue w"
  | v where "sw_queue v = sw_queue w" "sw_queue w' = sw_queue (others (BeforeEnqueue k) v)"
  using assms unfolding leaves_queue_def by blast

text \<open>C3: Provided that no other process gives an item a job between the tick's look for one and its own
  enqueueing, which are two separate calls of the queue, and that others keep to at most one queued or
  running job per item at every moment they act, a tick that starts with at most one ends with at most one.\<close>

theorem tick_keeps_single_flight:
  assumes "run_discovery_tick S others w = Some (t, w')" "single_flight (sw_queue w)"
    and keeps: "\<And>m w. single_flight (sw_queue w) \<Longrightarrow> single_flight (sw_queue (others m w))"
    and gap: "\<And>k w. count_active_with_arg k (Some 0) (sw_queue w) = 0
      \<Longrightarrow> count_active_with_arg k (Some 0) (sw_queue (others (BeforeEnqueue k) w)) = 0"
  shows "single_flight (sw_queue w')"
proof -
  let ?P = "\<lambda>w. single_flight (sw_queue w)"
  have turn: "?P w2" if p: "?P w1" and s: "tick_item S others B cd cap (k, it) (t1, n1, w1) = Some (t2, n2, w2)"
    for B cd cap k it t1 n1 w1 t2 n2 w2
    using tick_item_queue [OF s]
  proof (elim disjE conjE)
    assume "leaves_queue others k w1 w2"
    then show ?thesis using p keeps by (elim leaves_queue_count) auto
  next
    assume "dispatches S others B k it w1 w2"
    then obtain v u where v: "sw_queue v = sw_queue w1" "count_active_with_arg k (Some 0) (sw_queue v) = 0"
      and u: "\<And>l. count_active_with_arg l (Some 0) (sw_queue u)
        = count_active_with_arg l (Some 0) (sw_queue (others (BeforeEnqueue k) v)) + (if l = k then 1 else 0)"
      and w2: "sw_queue w2 = sw_queue (others (BeforeRecord k) u)"
      by (elim dispatch_counts) blast
    from p v(1) keeps have "?P (others (BeforeEnqueue k) v)" by simp
    with gap [OF v(2)] u have "?P u" by (auto simp: single_flight_def)
    with keeps w2 show ?thesis by simp
  qed
  obtain Bs b where "collect_batches S (dir_list (sw_db w)) (sw_db w) = (Bs, b)" by fastforce
  with assms(1) have "tick_batches S others (contended Bs) (per_project_work_cap S) Bs
      (\<lparr>tr_dispatched = 0, tr_skipped = 0, tr_waiting = 0\<rparr>, w\<lparr>sw_db := b\<rparr>) = Some (t, w')"
    by (simp add: run_discovery_tick_def)
  then show ?thesis
  proof (rule tick_batches_induct)
    show "?P (w\<lparr>sw_db := b\<rparr>)" using assms(2) by simp
  next
    fix B t n w t' n' w'
    assume "?P w" "tick_items S others B (contended Bs) (per_project_work_cap S) (pb_items B) (t, n, w)
      = Some (t', n', w')"
    then show "?P w'"
      by (elim tick_items_induct [where P = "\<lambda>_ w. ?P w"]) (use keeps turn in blast)+
  qed
qed

lemma two_run_returns:
  obtains t w' x y where "run_discovery_tick sample_sup (\<lambda>_ w. w) two_world = Some (t, w')"
    "agent_jobs (sw_queue w') = [x, y]" "map_option aj_args (jr_payload x) = Some [''a'', ''codex'', ''/repo'']"
proof (cases "run_discovery_tick sample_sup (\<lambda>_ w. w) two_world")
  case None
  then show thesis using two_run_outcome by (simp add: two_run_def)
next
  case (Some tw)
  then show thesis using two_run_outcome that
    by (cases tw) (auto simp: two_run_def map_eq_Cons_conv)
qed

lemma tick_keeps_single_flight_witness:
  "\<exists>t w'. run_discovery_tick sample_sup (\<lambda>_ w. w) two_world = Some (t, w')
     \<and> length (agent_jobs (sw_queue w')) = 2 \<and> single_flight (sw_queue w')"
proof -
  obtain t w' x y where r: "run_discovery_tick sample_sup (\<lambda>_ w. w) two_world = Some (t, w')"
    and q: "agent_jobs (sw_queue w') = [x, y]" "map_option aj_args (jr_payload x) = Some [''a'', ''codex'', ''/repo'']"
    by (rule two_run_returns)
  have "single_flight (sw_queue two_world)"
    by (simp add: single_flight_def two_world_def open_memory_def count_active_with_arg_def)
  from tick_keeps_single_flight [OF r this] have "single_flight (sw_queue w')" by simp
  with r q show ?thesis by auto
qed

text \<open>
  The condition on the gap is needed: a job that another process enqueues for the item after the look
  and before the enqueueing leaves the item with two live jobs.
\<close>

lemma job_enqueued_in_the_gap:
  assumes "\<not> job_in_flight (sw_queue w) k" "plan_gate_status (se_be S) (it_metadata it) = GateOpen"
    "m dispatched_label = Some l"
    and "count_active_with_arg k (Some 0) (sw_queue (others (BeforeEnqueue k) w)) = 1"
    and "row_of (se_id S ''job'' k) (sw_queue (others (BeforeEnqueue k) w)) = None"
    and "\<And>w. sw_queue (others (BeforeRecord k) w) = sw_queue w"
  shows "\<exists>w'. dispatch_item S others w k it agent folder m ready = (Dispatched, w')
    \<and> count_active_with_arg k (Some 0) (sw_queue w') = 2"
proof -
  obtain q' info where e: "enqueue_work_job S (sw_queue (others (BeforeEnqueue k) w)) k it agent (Some folder) None
      = (q', Some info)"
    using assms(5) by (simp add: enqueue_work_job_def enqueue_def)
  let ?q = "sw_queue (others (BeforeEnqueue k) w)"
  have "count_active_with_arg k (Some 0) q'
      = count_active_with_arg k (Some 0) (?q\<lparr>agent_jobs := agent_jobs ?q @ [dispatch_row S k it agent folder]\<rparr>)"
    using enqueue_work_job_queue(1) [OF e] by (intro count_cong) (simp add: dispatch_row_def)
  also have "\<dots> = 2" using assms(4) by (simp only: dispatch_row_args) simp
  finally have "count_active_with_arg k (Some 0) q' = 2" .
  with assms e show ?thesis by (simp add: dispatch_item_def Let_def)
qed

text \<open>Two supervisors on the same queue: the second one dispatches the item in the first one's gap.\<close>

lemma two_supervisors_example:
  "map_option (\<lambda>(t, w'). count_active_with_arg ''d'' (Some 0) (sw_queue w'))
     (run_discovery_tick sample_sup
        (\<lambda>m w. if m = BeforeEnqueue ''d''
                then snd (dispatch_item (sample_sup\<lparr>se_id := \<lambda>purpose key. ''second'' @ purpose @ key\<rparr>) (\<lambda>_ w. w) w ''d''
                       (codex_item\<lparr>it_project := ''q''\<rparr>) Codex ''/other'' (label_ids (sw_db w) ''q'') ''ready-q'')
                else w) two_world) = Some 2"
  by (simp add: sample_eval)

section \<open>The share of a project\<close>

text \<open>C15: While several projects have ready items, a tick leaves a project no more live jobs than its
  cap, or than it had, whatever the items are; others may take jobs off the queue meanwhile.\<close>

theorem tick_respects_project_cap:
  assumes "run_discovery_tick S others w = Some (t, w')"
    and "contended (fst (collect_batches S (dir_list (sw_db w)) (sw_db w)))"
    and others: "\<And>m w f. count_active_with_arg f (Some 2) (sw_queue (others m w))
      \<le> count_active_with_arg f (Some 2) (sw_queue w)"
  shows "count_active_with_arg f (Some 2) (sw_queue w')
    \<le> max (per_project_work_cap S) (count_active_with_arg f (Some 2) (sw_queue w))"
proof -
  define live where "live v = count_active_with_arg f (Some 2) (sw_queue v)" for v :: sup_world
  define top where "top = max (per_project_work_cap S) (live w)"
  obtain Bs b where cb: "collect_batches S (dir_list (sw_db w)) (sw_db w) = (Bs, b)" by fastforce
  with assms(1,2) have "tick_batches S others True (per_project_work_cap S) Bs
      (\<lparr>tr_dispatched = 0, tr_skipped = 0, tr_waiting = 0\<rparr>, w\<lparr>sw_db := b\<rparr>) = Some (t, w')"
    by (simp add: run_discovery_tick_def)
  then have "live w' \<le> top"
  proof (rule tick_batches_induct)
    show "live (w\<lparr>sw_db := b\<rparr>) \<le> top" by (simp add: live_def top_def)
  next
    fix B :: project_batch and t n v t' n' v'
    let ?P = "\<lambda>n v. live v \<le> top \<and> (pb_folder B = f \<longrightarrow> live v \<le> n)"
    assume le: "live v \<le> top"
      and n: "n = (if True then count_active_with_arg (pb_folder B) (Some 2) (sw_queue v) else 0)"
      and run: "tick_items S others B True (per_project_work_cap S) (pb_items B) (t, n, v) = Some (t', n', v')"
    from le n have P: "?P n v" by (simp add: live_def)
    from run P have "?P n' v'"
    proof (rule tick_items_induct)
      have less: "live (others m w) \<le> live w" for m w
        using others [where m = m and w = w] by (simp add: live_def)
      show "?P n w \<Longrightarrow> ?P n (others (BeforeTurn k) w)" for k n w
        using less [of "BeforeTurn k" w] by auto
      have left: "?P n w'" if "?P n w" "leaves_queue others k w w'" for n w w' k
        using that(2)
      proof (cases rule: leaves_queue_count)
        case 1
        with that(1) show ?thesis by (simp add: live_def)
      next
        case (2 v)
        then have "live w' \<le> live w" using less [of "BeforeEnqueue k" v] by (simp add: live_def)
        with that(1) show ?thesis by auto
      qed
      fix k it t n w t' n' w'
      assume p: "?P n w" and r: "tick_item S others B True (per_project_work_cap S) (k, it) (t, n, w) = Some (t', n', w')"
      from tick_item_queue [OF r] show "?P n' w'"
      proof
        assume e: "n' = n + 1 \<and> (True \<longrightarrow> n < per_project_work_cap S) \<and> dispatches S others B k it w w'"
        then obtain v u where v: "sw_queue v = sw_queue w" and w': "sw_queue w' = sw_queue (others (BeforeRecord k) u)"
          and u: "live u = live (others (BeforeEnqueue k) v) + (if f = pb_folder B then 1 else 0)"
          unfolding live_def by (elim conjE dispatch_counts) blast
        have "live w' \<le> live u" using less [of "BeforeRecord k" u] w' by (simp add: live_def)
        also have "\<dots> \<le> live w + (if f = pb_folder B then 1 else 0)"
          using less [of "BeforeEnqueue k" v] v u by (simp add: live_def)
        finally have "live w' \<le> live w + (if f = pb_folder B then 1 else 0)" .
        with p e show ?thesis by (cases "f = pb_folder B") (auto simp: top_def)
      next
        assume "leaves_queue others k w w' \<and> n' = n"
        with left [OF p] show ?thesis by blast
      qed
    qed
    then show "live v' \<le> top" by blast
  qed
  then show ?thesis by (simp add: live_def top_def)
qed

lemma tick_respects_project_cap_witness:
  "\<exists>t w'. run_discovery_tick sample_sup (\<lambda>_ w. w) two_world = Some (t, w')
     \<and> agent_jobs (sw_queue w') \<noteq> [] \<and> count_active_with_arg ''/repo'' (Some 2) (sw_queue w') \<le> 1"
proof -
  obtain t w' x y where r: "run_discovery_tick sample_sup (\<lambda>_ w. w) two_world = Some (t, w')"
    and q: "agent_jobs (sw_queue w') = [x, y]" "map_option aj_args (jr_payload x) = Some [''a'', ''codex'', ''/repo'']"
    by (rule two_run_returns)
  have "per_project_work_cap sample_sup = 1"
    "count_active_with_arg ''/repo'' (Some 2) (sw_queue two_world) = 0"
    by (simp_all add: sample_eval)
  with tick_respects_project_cap [OF r two_projects_contended, of "''/repo''"]
  have "count_active_with_arg ''/repo'' (Some 2) (sw_queue w') \<le> 1" by simp
  with r q show ?thesis by auto
qed

section \<open>What a tick starts\<close>

text \<open>Reading the ready items adds labels, none of them the ready label, and changes nothing else.\<close>

definition only_labels_added :: "backend \<Rightarrow> backend \<Rightarrow> bool" where
  "only_labels_added b b' \<longleftrightarrow> (\<exists>ex. b' = b\<lparr>be_labels := be_labels b @ ex\<rparr>
     \<and> (\<forall>kr \<in> set ex. wl_name (snd kr) \<noteq> ready_label))"

lemma only_labels_refl [simp]: "only_labels_added b b"
  by (auto simp: only_labels_added_def intro: exI [of _ "[]"])

lemma only_labels_trans: "only_labels_added b b1 \<Longrightarrow> only_labels_added b1 b2 \<Longrightarrow> only_labels_added b b2"
proof -
  assume "only_labels_added b b1" "only_labels_added b1 b2"
  then obtain x y where xy: "\<forall>kr \<in> set x. wl_name (snd kr) \<noteq> ready_label"
    "\<forall>kr \<in> set y. wl_name (snd kr) \<noteq> ready_label"
    and b2: "b1 = b\<lparr>be_labels := be_labels b @ x\<rparr>" "b2 = b1\<lparr>be_labels := be_labels b1 @ y\<rparr>"
    unfolding only_labels_added_def by blast
  have "b2 = b\<lparr>be_labels := be_labels b @ (x @ y)\<rparr>" by (simp add: b2)
  moreover have "\<forall>kr \<in> set (x @ y). wl_name (snd kr) \<noteq> ready_label" using xy by auto
  ultimately show ?thesis unfolding only_labels_added_def by blast
qed

lemma ensure_label_adds:
  "ensure_label S b p name m = (ok, b', m') \<Longrightarrow> name \<noteq> ready_label \<Longrightarrow> only_labels_added b b'"
  by (auto simp: ensure_label_def wlabel_create_def Let_def only_labels_added_def
      split: sum.splits if_splits be_error.splits prod.splits intro: exI [of _ "[]"])

lemma ensure_if_missing_adds:
  "ensure_if_missing S p name (b, m) = (b', m') \<Longrightarrow> name \<noteq> ready_label \<Longrightarrow> only_labels_added b b'"
  using ensure_label_adds [of S b p name m]
  by (cases "ensure_label S b p name m") (auto simp: ensure_if_missing_def split: if_splits)

text \<open>A live, open item that wears the ready label of its project.\<close>

definition ready_item :: "backend \<Rightarrow> string \<Rightarrow> string \<Rightarrow> item \<Rightarrow> bool" where
  "ready_item b p k it \<longleftrightarrow>
     (k, it) \<in> set (be_items b) \<and> it_project it = p \<and> it_deleted it = None \<and> is_open_item b it
     \<and> (\<exists>l r. (k, l) \<in> set (be_item_labels b) \<and> (l, r) \<in> set (be_labels b) \<and> wl_name r = ready_label
          \<and> wl_project r = Some p \<and> wl_deleted r = None)"

lemma ready_item_added: "only_labels_added b b' \<Longrightarrow> ready_item b' p k it \<Longrightarrow> ready_item b p k it"
  unfolding only_labels_added_def ready_item_def
  by (elim exE conjE) (fastforce simp: is_open_item_def state_group_def)

lemma label_ids_Some:
  "label_ids b p name = Some l \<Longrightarrow>
     \<exists>r. (l, r) \<in> set (be_labels b) \<and> wl_name r = name \<and> wl_project r = Some p \<and> wl_deleted r = None"
  by (auto simp: label_ids_def labels_of_project_def dest!: map_of_SomeD)

lemma project_batch_adds:
  assumes "project_batch_of S b (p, folder, at) = (x, b')"
  shows "only_labels_added b b'"
    and "x = Some B \<Longrightarrow> (k, it) \<in> set (pb_items B) \<Longrightarrow>
      pb_folder B = folder \<and> se_dir_exists S folder \<and> ready_item b p k it"
proof -
  obtain b1 m1 where e1: "ensure_if_missing S p dispatched_label (b, label_ids b p) = (b1, m1)" by fastforce
  obtain b2 m2 where e2: "ensure_if_missing S p needs_manual_label (b1, m1) = (b2, m2)" by fastforce
  have "dispatched_label \<noteq> ready_label" "needs_manual_label \<noteq> ready_label"
    by (simp_all add: dispatched_label_def needs_manual_label_def ready_label_def)
  with ensure_if_missing_adds [OF e1] ensure_if_missing_adds [OF e2] have a: "only_labels_added b b2"
    by (blast intro: only_labels_trans)
  with assms e1 e2 show "only_labels_added b b'"
    by (auto simp: project_batch_of_def split: if_splits option.splits)
  assume "x = Some B" "(k, it) \<in> set (pb_items B)"
  with assms e1 e2 obtain l where f: "pb_folder B = folder" "se_dir_exists S folder"
    and l: "label_ids b p ready_label = Some l" and m: "(k, it) \<in> set (items_by_label b2 p l)"
    by (auto simp: project_batch_of_def split: if_splits option.splits)
  from m have "(k, it) \<in> set (be_items b2)" "it_project it = p" "it_deleted it = None" "is_open_item b2 it"
    "(k, l) \<in> set (be_item_labels b2)"
    by (auto simp: items_by_label_def)
  with a label_ids_Some [OF l] have "ready_item b p k it"
    by (auto simp: only_labels_added_def ready_item_def is_open_item_def state_group_def)
  with f show "pb_folder B = folder \<and> se_dir_exists S folder \<and> ready_item b p k it" by simp
qed

lemma collect_batches_ready:
  assumes "B \<in> set (fst (collect_batches S ds b))" "(k, it) \<in> set (pb_items B)"
  shows "\<exists>p at. (p, pb_folder B, at) \<in> set ds \<and> se_dir_exists S (pb_folder B) \<and> ready_item b p k it"
  using assms(1)
proof (induction ds arbitrary: b)
  case (Cons d ds)
  obtain p folder at where d: "d = (p, folder, at)" by (cases d)
  obtain x b1 where x: "project_batch_of S b (p, folder, at) = (x, b1)" by fastforce
  note adds = project_batch_adds [OF x]
  from Cons.prems d x have "x = Some B \<or> B \<in> set (fst (collect_batches S ds b1))"
    by (auto split: prod.splits option.splits)
  then show ?case
  proof
    assume "x = Some B"
    from adds(2) [OF this assms(2)] d show ?thesis by auto
  next
    assume "B \<in> set (fst (collect_batches S ds b1))"
    from Cons.IH [OF this] ready_item_added [OF adds(1)] show ?thesis by auto
  qed
qed simp

text \<open>C4: Every job a tick adds to the queue, when nothing else adds any, is that of a live, open item that
  wore the ready label when the tick began, in an existing folder of a project that is not archived,
  whose plan gate is open and whose assignee is a confirmed agent that is not cooling down, on a host
  that is not under pressure.\<close>

theorem tick_starts_only_cleared_items:
  assumes "run_discovery_tick S others w = Some (t, w')"
    and others: "\<And>m w. sw_queue (others m w) = sw_queue w"
    and r: "r \<in> set (agent_jobs (sw_queue w'))" "r \<notin> set (agent_jobs (sw_queue w))"
  shows "\<exists>p folder at k it agent. (p, folder, at) \<in> set (dir_list (sw_db w)) \<and> se_dir_exists S folder
    \<and> ready_item (sw_db w) p k it \<and> cleared S it agent \<and> r = dispatch_row S k it agent folder"
proof -
  obtain Bs b where cb: "collect_batches S (dir_list (sw_db w)) (sw_db w) = (Bs, b)" by fastforce
  define due where "due r \<longleftrightarrow> (\<exists>B k it agent. B \<in> set Bs \<and> (k, it) \<in> set (pb_items B) \<and> cleared S it agent
        \<and> r = dispatch_row S k it agent (pb_folder B))" for r
  define old where "old v \<longleftrightarrow> (\<forall>r \<in> set (agent_jobs (sw_queue v)). r \<in> set (agent_jobs (sw_queue w)) \<or> due r)"
    for v :: sup_world
  from assms(1) cb have "tick_batches S others (contended Bs) (per_project_work_cap S) Bs
      (\<lparr>tr_dispatched = 0, tr_skipped = 0, tr_waiting = 0\<rparr>, w\<lparr>sw_db := b\<rparr>) = Some (t, w')"
    by (simp add: run_discovery_tick_def)
  then have "old w'"
  proof (rule tick_batches_induct)
    show "old (w\<lparr>sw_db := b\<rparr>)" by (simp add: old_def)
  next
    fix B :: project_batch and t n v t' n' v'
    assume B: "B \<in> set Bs" and v: "old v"
      and run: "tick_items S others B (contended Bs) (per_project_work_cap S) (pb_items B) (t, n, v) = Some (t', n', v')"
    from run v show "old v'"
    proof (rule tick_items_induct [where P = "\<lambda>_. old"])
      show "old w \<Longrightarrow> old (others (BeforeTurn k) w)" for k w by (simp add: old_def others)
    next
      fix k it t n w1 t' n' w2
      assume k: "(k, it) \<in> set (pb_items B)" and o: "old w1"
        and s: "tick_item S others B (contended Bs) (per_project_work_cap S) (k, it) (t, n, w1) = Some (t', n', w2)"
      have new: "due (dispatch_row S k it agent (pb_folder B))" if "cleared S it agent" for agent
        using B k that by (auto simp: due_def)
      from tick_item_queue [OF s] o new show "old w2"
        by (auto simp: old_def leaves_queue_def dispatches_def others)
    qed
  qed
  with r have "due r" unfolding old_def by blast
  then obtain B k it agent where x: "B \<in> set Bs" "(k, it) \<in> set (pb_items B)" "cleared S it agent"
    "r = dispatch_row S k it agent (pb_folder B)"
    unfolding due_def by blast
  with collect_batches_ready [of B S "dir_list (sw_db w)" "sw_db w" k it] show ?thesis
    unfolding cb fst_conv by blast
qed

lemma tick_starts_only_cleared_items_witness:
  "\<exists>t w' r k it. run_discovery_tick sample_sup (\<lambda>_ w. w) two_world = Some (t, w')
     \<and> r \<in> set (agent_jobs (sw_queue w')) \<and> ready_item two_projects ''p'' k it"
proof -
  obtain t w' x y where r: "run_discovery_tick sample_sup (\<lambda>_ w. w) two_world = Some (t, w')"
    and q: "agent_jobs (sw_queue w') = [x, y]" "map_option aj_args (jr_payload x) = Some [''a'', ''codex'', ''/repo'']"
    by (rule two_run_returns)
  then have x: "x \<in> set (agent_jobs (sw_queue w'))" "x \<notin> set (agent_jobs (sw_queue two_world))"
    by (simp_all add: two_world_def open_memory_def)
  obtain p folder at k it agent where d: "(p, folder, at) \<in> set (dir_list (sw_db two_world))"
    "ready_item (sw_db two_world) p k it" "x = dispatch_row sample_sup k it agent folder"
    using tick_starts_only_cleared_items [OF r refl x] by blast
  have "folder = ''/repo''" using d(3) q(2)
    by (simp add: dispatch_row_def inserted_row_def work_job_def split: option.splits)
  with d(1) have "p = ''p''" by (auto simp: sample_eval)
  with d(2) have "ready_item two_projects ''p'' k it" by (simp add: two_world_def)
  with r x show ?thesis by blast
qed

section \<open>The tick ends\<close>

lemma core_comment: "comment_create b i k a body ts = Inr (r, b') \<Longrightarrow> item_core b' = item_core b"
  by (auto simp: comment_create_def Let_def elim!: bind_ok_InrE split: op_cases)

lemma core_supervisor_action [simp]:
  "item_core (record_supervisor_action S b k remove add body i) = item_core b"
proof -
  define b1 where "b1 = (case remove of None \<Rightarrow> b | Some l \<Rightarrow> remove_label b k l)"
  have b1: "item_core b1 = item_core b" by (simp add: b1_def split: option.split)
  have "item_core b2 = item_core b" if "(case add of None \<Rightarrow> Inr b1 | Some l \<Rightarrow> add_label b1 k l) = Inr b2" for b2
    using that b1 core_add_label by (auto split: option.splits)
  then have "item_core b' = item_core b" if "bind_ok (case add of None \<Rightarrow> Inr b1 | Some l \<Rightarrow> add_label b1 k l)
      (\<lambda>b2. comment_create b2 i k (se_author S) body (se_ts S)) = Inr (x, b')" for x b'
    using that core_comment by (elim bind_ok_InrE) metis
  then show ?thesis
    by (simp add: record_supervisor_action_def b1_def [symmetric] split: sum.split)
qed

lemma core_first_time_gated [simp]: "item_core (sw_db (snd (first_time_gated w key))) = item_core (sw_db w)"
  by (simp add: first_time_gated_queue)

lemma core_skip_ask [simp]: "item_core (sw_db (skip_item S w k it m ready)) = item_core (sw_db w)"
  "item_core (sw_db (ask_a_person S w k q m ready)) = item_core (sw_db w)"
  by (simp_all add: skip_item_def ask_a_person_def)

lemma core_wait_on_plan [simp]: "item_core (sw_db (wait_on_plan S w k st)) = item_core (sw_db w)"
  using core_comment
  by (auto simp: wait_on_plan_def first_time_gated_def split: sum.split)

text \<open>What the parts of a turn need of others: the tables stay well formed at every moment they act.\<close>

definition keeps_tables :: "interference \<Rightarrow> bool" where
  "keeps_tables others \<longleftrightarrow> (\<forall>m w. backend_ok (sw_db w) \<longrightarrow> backend_ok (sw_db (others m w)))"

lemma keeps_tablesD: "keeps_tables others \<Longrightarrow> backend_ok (sw_db w) \<Longrightarrow> backend_ok (sw_db (others m w))"
  by (simp add: keeps_tables_def)

lemma ok_dispatch_item:
  assumes "dispatch_item S others w k it agent folder m ready = (x, w')" "keeps_tables others" "backend_ok (sw_db w)"
  shows "backend_ok (sw_db w')"
proof (cases "job_in_flight (sw_queue w) k \<or> plan_gate_status (se_be S) (it_metadata it) \<noteq> GateOpen
    \<or> m dispatched_label = None")
  case True
  with assms(1) have "item_core (sw_db w') = item_core (sw_db w)"
    by (auto simp: dispatch_item_def split: if_splits gate_status.splits option.splits)
  with assms(3) show ?thesis using backend_ok_core by blast
next
  case False
  let ?w1 = "others (BeforeEnqueue k) w"
  have ok1: "backend_ok (sw_db ?w1)" using assms(2,3) by (rule keeps_tablesD)
  obtain q' r where e: "enqueue_work_job S (sw_queue ?w1) k it agent (Some folder) None = (q', r)" by fastforce
  show ?thesis
  proof (cases r)
    case None
    with assms(1) False e ok1 show ?thesis by (auto simp: dispatch_item_def Let_def)
  next
    case (Some info)
    let ?w2 = "others (BeforeRecord k) (?w1\<lparr>sw_queue := q'\<rparr>)"
    have ok2: "backend_ok (sw_db ?w2)" by (rule keeps_tablesD [OF assms(2)]) (simp add: ok1)
    from assms(1) False e Some have "item_core (sw_db w') = item_core (sw_db ?w2)"
      by (auto simp: dispatch_item_def Let_def)
    with ok2 show ?thesis using backend_ok_core by blast
  qed
qed

lemma ok_try_dispatch:
  assumes "try_dispatch S others B cd cap k it (t, n, w) = (t', n', w')" "keeps_tables others" "backend_ok (sw_db w)"
  shows "backend_ok (sw_db w')"
proof (cases "Option.bind (it_assignee it) resolve_confirmed_agent")
  case None
  with assms(1) have "item_core (sw_db w') = item_core (sw_db w)" by (auto simp: try_dispatch_def)
  with assms(3) show ?thesis using backend_ok_core by blast
next
  case (Some agent)
  obtain x w1 where d: "dispatch_item S others w k it agent (pb_folder B) (pb_labels B) (pb_ready B) = (x, w1)"
    by fastforce
  with assms(1) Some have "w' = w \<or> w' = w1"
    by (auto simp: try_dispatch_def split: if_splits dispatch_outcome.splits)
  with ok_dispatch_item [OF d assms(2,3)] assms(3) show ?thesis by blast
qed

lemma core_record_failover: "record_failover E F b k src dst why i ts = Inr b' \<Longrightarrow> item_core b' = item_core b"
  unfolding record_failover_def Let_def
  by (auto elim!: bind_ok_InrE split: op_cases dest!: core_comment core_update)

lemma core_failover: "failover_before_dispatch E F b k it i ts = (x, m, b') \<Longrightarrow> item_core b' = item_core b"
  unfolding failover_before_dispatch_def Let_def
  by (auto split: op_cases dest!: core_record_failover)

lemma core_save_goal [simp]: "item_core (save_goal_quietly E b k ts g) = item_core b"
  by (auto simp: save_goal_quietly_def save_goal_metadata_def merge_item_metadata_def bind_ok_Inr
      split: sum.split dest!: core_update)

lemma core_decide:
  assumes "decide_for_supervisor E F b now k it i ts = Some (ea, b')"
  shows "item_core b' = item_core b"
proof (rule prod_cases3)
  fix x m bf
  assume f: "failover_before_dispatch E F b k it i ts = (x, m, bf)"
  from core_failover [OF f] assms f show ?thesis
    by (auto simp: decide_for_supervisor_def Let_def split: option.splits action_kind.splits)
qed

lemma ok_tick_item:
  assumes "tick_item S others B cd cap (k, it) (t, n, w) = Some (t', n', w')" "keeps_tables others" "backend_ok (sw_db w)"
  shows "backend_ok (sw_db w')"
proof (cases "in_needs_input (sw_db w) it \<or> wears (sw_db w) (pb_labels B) k paused_label
    \<or> wears (sw_db w) (pb_labels B) k needs_decision_label")
  case True
  with assms(1) have "w' = w \<or> w' = snd (first_time_gated w k)"
    by (simp add: tick_item_def split: if_splits)
  with assms(3) show ?thesis by auto
next
  case False
  with assms(1) obtain act b' where
    d: "decide_for_supervisor (se_be S) (se_fo S) (sw_db w) (se_now S) k it (se_id S ''failover'' k) (se_ts S)
      = Some (act, b')"
    and w: "(case act of EaRun \<Rightarrow> try_dispatch S others B cd cap k it (t, n, w\<lparr>sw_db := b'\<rparr>)
        | EaSelfRepair \<Rightarrow> try_dispatch S others B cd cap k it (t, n, w\<lparr>sw_db := b'\<rparr>)
        | EaAsk q \<Rightarrow> (skipped t, n, ask_a_person S (w\<lparr>sw_db := b'\<rparr>) k q (pb_labels B) (pb_ready B))
        | EaWait _ \<Rightarrow> (waited t, n, w\<lparr>sw_db := b'\<rparr>)
        | EaStayQuiet \<Rightarrow> (skipped t, n, skip_item S (w\<lparr>sw_db := b'\<rparr>) k it (pb_labels B) (pb_ready B)))
      = (t', n', w')"
    by (auto simp: tick_item_def Let_def)
  from core_decide [OF d] assms(3) have ok: "backend_ok (sw_db (w\<lparr>sw_db := b'\<rparr>))"
    using backend_ok_core [of b' "sw_db w"] by simp
  have quiet: ?thesis if "item_core (sw_db w') = item_core b'"
    using backend_ok_core [OF that] ok by simp
  have tried: ?thesis if "try_dispatch S others B cd cap k it (t, n, w\<lparr>sw_db := b'\<rparr>) = (t', n', w')"
    by (rule ok_try_dispatch [OF that assms(2) ok])
  from w quiet tried show ?thesis by (cases act) auto
qed

lemma tick_item_returns:
  assumes "backend_ok (sw_db w)"
  shows "\<exists>s. tick_item S others B cd cap (k, it) (t, n, w) = Some s"
proof -
  obtain g where "find_goal_ancestor (se_be S) (sw_db w) k it = Some g"
    using goal_walk_ends_on_ok [OF assms] by blast
  then have "decide (se_be S) (sw_db w) (se_now S) k it \<noteq> None"
    by (simp add: decide_def split: sum.split option.split prod.split)
  then obtain d where "decide (se_be S) (sw_db w) (se_now S) k it = Some d" by blast
  then have "decide_for_supervisor (se_be S) (se_fo S) (sw_db w) (se_now S) k it i ts \<noteq> None" for i ts
    by (simp add: decide_for_supervisor_def Let_def)
  then obtain a b' where "decide_for_supervisor (se_be S) (se_fo S) (sw_db w) (se_now S) k it
      (se_id S ''failover'' k) (se_ts S) = Some (a, b')"
    by fastforce
  then have "tick_item S others B cd cap (k, it) (t, n, w) \<noteq> None"
    by (simp add: tick_item_def del: not_None_eq)
  then show ?thesis by blast
qed

lemma tick_items_return:
  assumes "backend_ok (sw_db w)" "keeps_tables others"
  shows "\<exists>t' n' w'. tick_items S others B cd cap kis (t, n, w) = Some (t', n', w') \<and> backend_ok (sw_db w')"
  using assms(1)
proof (induction kis arbitrary: t n w)
  case (Cons ki kis)
  obtain k it where ki: "ki = (k, it)" by (cases ki)
  have ok: "backend_ok (sw_db (others (BeforeTurn k) w))" by (rule keeps_tablesD [OF assms(2) Cons.prems])
  from tick_item_returns [OF ok] obtain t1 n1 w1 where
    h: "tick_item S others B cd cap (k, it) (t, n, others (BeforeTurn k) w) = Some (t1, n1, w1)"
    by (metis prod_cases3)
  have "backend_ok (sw_db w1)" by (rule ok_tick_item [OF h assms(2) ok])
  from Cons.IH [OF this, of t1 n1] h show ?case by (simp add: ki)
qed simp

lemma tick_batches_return:
  assumes "backend_ok (sw_db w)" "keeps_tables others"
  shows "\<exists>t' w'. tick_batches S others cd cap Bs (t, w) = Some (t', w') \<and> backend_ok (sw_db w')"
  using assms(1)
proof (induction Bs arbitrary: t w)
  case (Cons B Bs)
  obtain t1 n1 w1 where h: "tick_items S others B cd cap (pb_items B)
      (t, if cd then count_active_with_arg (pb_folder B) (Some 2) (sw_queue w) else 0, w) = Some (t1, n1, w1)"
    and ok: "backend_ok (sw_db w1)"
    using tick_items_return [where others = others, OF Cons.prems assms(2)] by blast
  from Cons.IH [OF ok, of t1] h show ?case by (simp add: Let_def del: tick_items.simps)
qed simp

lemma collect_batches_adds: "collect_batches S ds b = (Bs, b') \<Longrightarrow> only_labels_added b b'"
proof (induction ds arbitrary: b Bs)
  case (Cons d ds)
  obtain p folder at where d: "d = (p, folder, at)" by (cases d)
  obtain x b1 where x: "project_batch_of S b (p, folder, at) = (x, b1)" by fastforce
  obtain Bs' b2 where r: "collect_batches S ds b1 = (Bs', b2)" by fastforce
  from Cons.prems d x r have r: "collect_batches S ds b1 = (Bs', b')" by simp
  from project_batch_adds(1) [OF x] Cons.IH [OF r] show ?case by (rule only_labels_trans)
qed simp

text \<open>C13: A tick ends: on tables that are well formed, as every sequence of operations leaves them, and
  with others keeping them so meanwhile, the tick over all projects comes back, and leaves them well formed.\<close>

theorem discovery_tick_returns:
  assumes "be_reach (se_be S) (sw_db w)"
    and "\<And>m w. backend_ok (sw_db w) \<Longrightarrow> backend_ok (sw_db (others m w))"
  shows "\<exists>t w'. run_discovery_tick S others w = Some (t, w') \<and> backend_ok (sw_db w')"
proof -
  obtain Bs b where cb: "collect_batches S (dir_list (sw_db w)) (sw_db w) = (Bs, b)" by fastforce
  from collect_batches_adds [OF cb] have "item_core b = item_core (sw_db w)"
    by (auto simp: only_labels_added_def)
  then have "backend_ok b = backend_ok (sw_db w)" by (rule backend_ok_core)
  with backend_ok_reach [OF assms(1)] have "backend_ok (sw_db (w\<lparr>sw_db := b\<rparr>))" by simp
  from tick_batches_return [where others = others, OF this] assms(2) cb show ?thesis
    unfolding keeps_tables_def
    by (simp add: run_discovery_tick_def)
qed

lemma discovery_tick_returns_witness:
  "\<exists>t w'. run_discovery_tick sample_sup (\<lambda>_ w. w)
     (two_world\<lparr>sw_db := created_tables\<lparr>be_item_labels := [(''a'', ''ready-for-work'')]\<rparr>\<rparr>) = Some (t, w')
     \<and> backend_ok (sw_db w')"
proof -
  let ?w = "two_world\<lparr>sw_db := created_tables\<lparr>be_item_labels := [(''a'', ''ready-for-work'')]\<rparr>\<rparr>"
  have "be_step sample_env created_tables (sw_db ?w)" by (rule be_step.other_tables) simp_all
  with created_reachable have "be_reach (se_be sample_sup) (sw_db ?w)"
    by (simp add: sample_sup_def be_reach.step)
  from discovery_tick_returns [OF this, of "\<lambda>_ w. w"] show ?thesis by simp
qed

section \<open>Self-repair before the guards\<close>

lemma walk_ignores_claims:
  assumes "find_goal_ancestor E b k it = Some r"
  shows "find_goal_ancestor E (b\<lparr>be_claims := c, be_relations := l\<rparr>) k it = Some r"
proof (rule find_goal_ancestor.raw_induct [where P = "\<lambda>E b k it r.
    find_goal_ancestor E (b\<lparr>be_claims := c, be_relations := l\<rparr>) k it = Some r", OF _ assms])
  fix f E and b :: backend and k it r
  assume ih: "\<And>E (b::backend) k it r. f E b k it = Some r \<Longrightarrow>
      find_goal_ancestor E (b\<lparr>be_claims := c, be_relations := l\<rparr>) k it = Some r"
    and r: "(case parse_goal_metadata E (it_metadata it) of
        Inl e \<Rightarrow> Some (Inl e)
      | Inr None \<Rightarrow>
          (case it_parent it of
             None \<Rightarrow> Some (Inr None)
           | Some p \<Rightarrow>
               (case item_get b p of
                  Inl _ \<Rightarrow> Some (Inl (''cannot load parent '' @ p))
                | Inr up \<Rightarrow> f E b p up))
      | Inr (Some g) \<Rightarrow> Some (Inr (Some ((k, it), g)))) = Some r"
  have g: "item_get (b\<lparr>be_claims := c, be_relations := l\<rparr>) p = item_get b p" for p
    by (simp add: item_get_def)
  from r show "find_goal_ancestor E (b\<lparr>be_claims := c, be_relations := l\<rparr>) k it = Some r"
    by (subst find_goal_ancestor.simps) (auto simp: g split: sum.splits option.splits dest: ih)
qed

text \<open>A self-repair is decided before the guards of the item are read: whatever claim is live on the
  item and whatever blocks it, the decision is the same.\<close>

lemma self_repair_ignores_claims_and_blockers:
  assumes "decide E b now k it = Some d" "dn_action d = ActSelfRepair"
  shows "decide E (b\<lparr>be_claims := c, be_relations := l\<rparr>) now' k it = Some d"
proof -
  from assms obtain gi g where f: "find_goal_ancestor E b k it = Some (Inr (Some (gi, g)))"
    and t: "goal_tiers b k gi g = Some d"
    by (auto simp: decide_def fail_closed_def decide_ask_def sibling_tier_def item_tiers_def
        decide_wait_def decide_run_def decide_stay_quiet_def Let_def
        split: option.splits sum.splits if_splits)
  have "linked_vents (b\<lparr>be_claims := c, be_relations := l\<rparr>) p g k = linked_vents b p g k" for p g
    by (simp add: linked_vents_def)
  then have "goal_tiers (b\<lparr>be_claims := c, be_relations := l\<rparr>) k gi g = Some d"
    using t by (simp add: goal_tiers_def split: prod.splits)
  with walk_ignores_claims [OF f] show ?thesis by (simp add: decide_def)
qed

lemma self_repair_ignores_claims_and_blockers_example:
  "\<exists>d. decide sample_env ((friction_tables 2)\<lparr>be_claims := codex_claim,
       be_relations := [(''a'', ''c'', ''blocks'')]\<rparr>) 101 ''a'' child_item = Some d \<and> dn_action d = ActSelfRepair"
proof -
  have two: "2 \<le> u32_max" by (simp add: u32_max_def)
  have sev: "\<not> list_ex (\<lambda>v. severity_rank ''high'' \<le> severity_rank (vt_severity v))
      (linked_vents (friction_tables 2) (it_project (goal_item 2)) ''g'' ''a'')"
    by (simp add: linked_vents_def friction_tables_def goal_item_def sample_item_def severity_rank_def)
  obtain d where d: "decide sample_env (friction_tables 2) 100 ''a'' child_item = Some d"
    "dn_action d = ActSelfRepair"
    using sev by (simp add: decide_def friction_walk [OF two] goal_tiers_def Let_def friction_linked(1)
        decide_self_repair_def repair_goal_def self_repair_cap_def)
  from self_repair_ignores_claims_and_blockers [OF d] d(2) show ?thesis by blast
qed

text \<open>A decision for self-repair counts one towards the cap even when the turn starts nothing: while the
  assignee is cooling down no job is enqueued, and yet the goal has one more consecutive repair.\<close>

lemma self_repair_counts_without_a_job:
  assumes rb: "json_reads_back (se_be S)"
    and free: "\<not> in_needs_input (sw_db w) it" "\<not> wears (sw_db w) (pb_labels B) k paused_label"
      "\<not> wears (sw_db w) (pb_labels B) k needs_decision_label"
    and dec: "decide (se_be S) (sw_db w) (se_now S) k it = Some d" "dn_action d = ActSelfRepair"
    and goal: "goal_above (se_be S) (sw_db w) k it = Some ((gk, gi), g)" "goal_row_ok (se_be S) (sw_db w) gk gi"
    and agent: "Option.bind (it_assignee it) resolve_confirmed_agent = Some a" "se_cooling S (agent_name a)"
    and turn: "tick_item S others B cd cap (k, it) (t, n, w) = Some (t', n', w')"
  shows "sw_queue w' = sw_queue w \<and> t' = waited t \<and> gm_repairs g < self_repair_cap
    \<and> (\<exists>row. item_get (sw_db w') gk = Inr row \<and> parse_goal_metadata (se_be S) (it_metadata row)
         = Inr (Some (g\<lparr>gm_repairs := gm_repairs g + 1\<rparr>)))"
proof -
  from dec obtain b' where sup: "decide_for_supervisor (se_be S) (se_fo S) (sw_db w) (se_now S) k it
      (se_id S ''failover'' k) (se_ts S) = Some (EaSelfRepair, b')"
    by (simp add: decide_for_supervisor_def Let_def)
  with turn free agent have "t' = waited t" "w' = w\<lparr>sw_db := b'\<rparr>"
    by (simp_all add: tick_item_def try_dispatch_def Let_def)
  with self_repair_counted [OF rb sup goal] show ?thesis by simp
qed

lemma self_repair_counts_without_a_job_example:
  "\<exists>t' n' w' row. tick_item (sample_sup\<lparr>se_cooling := \<lambda>_. True\<rparr>) (\<lambda>_ w. w)
       \<lparr>pb_folder = ''/repo'', pb_items = [(''a'', child_item)], pb_labels = Map.empty, pb_ready = ''r''\<rparr>
       False 0 (''a'', child_item) (t, 0, two_world\<lparr>sw_db := friction_tables 2\<rparr>) = Some (t', n', w')
     \<and> agent_jobs (sw_queue w') = [] \<and> item_get (sw_db w') ''g'' = Inr row
     \<and> parse_goal_metadata sample_env (it_metadata row) = Inr (Some ((repair_goal 2)\<lparr>gm_repairs := 3\<rparr>))"
proof -
  let ?S = "sample_sup\<lparr>se_cooling := \<lambda>_. True\<rparr>"
  let ?B = "\<lparr>pb_folder = ''/repo'', pb_items = [(''a'', child_item)], pb_labels = Map.empty, pb_ready = ''r''\<rparr>"
  let ?w = "two_world\<lparr>sw_db := friction_tables 2\<rparr>"
  have two: "2 \<le> u32_max" by (simp add: u32_max_def)
  have S: "se_be ?S = sample_env" "se_cooling ?S a" for a by (simp_all add: sample_sup_def)
  have free: "\<not> in_needs_input (sw_db ?w) child_item" "\<not> wears (sw_db ?w) (pb_labels ?B) ''a'' name" for name
    by (simp_all add: in_needs_input_def wears_def friction_tables_def child_item_def sample_eval)
  have sev: "\<not> list_ex (\<lambda>v. severity_rank ''high'' \<le> severity_rank (vt_severity v))
      (linked_vents (friction_tables 2) (it_project (goal_item 2)) ''g'' ''a'')"
    by (simp add: linked_vents_def friction_tables_def goal_item_def sample_item_def severity_rank_def)
  obtain d where d: "decide (se_be ?S) (sw_db ?w) (se_now ?S) ''a'' child_item = Some d" "dn_action d = ActSelfRepair"
    using sev by (simp add: S decide_def friction_walk [OF two] goal_tiers_def Let_def friction_linked(1)
        decide_self_repair_def repair_goal_def self_repair_cap_def)
  have g: "goal_above (se_be ?S) (sw_db ?w) ''a'' child_item = Some ((''g'', goal_item 2), repair_goal 2)"
    "goal_row_ok (se_be ?S) (sw_db ?w) ''g'' (goal_item 2)"
    using friction_goal(2) [OF two] by (simp_all add: S goal_above_def friction_walk [OF two])
  have a: "Option.bind (it_assignee child_item) resolve_confirmed_agent = Some Codex"
    by (simp add: child_item_def sample_item_def sample_codex)
  have "decide_for_supervisor (se_be ?S) (se_fo ?S) (sw_db ?w) (se_now ?S) ''a'' child_item i ts \<noteq> None" for i ts
    using d by (simp add: decide_for_supervisor_def Let_def)
  then have "tick_item ?S (\<lambda>_ w. w) ?B False 0 (''a'', child_item) (t, 0, ?w) \<noteq> None"
    by (simp add: tick_item_def del: not_None_eq)
  then obtain t' n' w' where r: "tick_item ?S (\<lambda>_ w. w) ?B False 0 (''a'', child_item) (t, 0, ?w) = Some (t', n', w')"
    by (metis not_None_eq prod_cases3)
  have rb: "json_reads_back (se_be ?S)" by (simp add: S sample_env_reads_back)
  from self_repair_counts_without_a_job [OF rb free free(2) d g a S(2) r] r show ?thesis
    by (auto simp: S two_world_def open_memory_def repair_goal_def)
qed

end
