(* ===== verification/Dispatch_Recovery.thy ===== *)
theory Dispatch_Recovery
  imports Supervisor_Tick
begin

text \<open>
  What becomes of an item when its job has failed for good or its daemon died
  (\<^verbatim>\<open>src/dashboard/orphan_reconcile.rs\<close>), and of the items it blocked when it is completed
  (\<open>cascade_unblock_dependents\<close> of \<^verbatim>\<open>src/supervisor.rs\<close>). The project of the session an operation runs
  in is an argument, \<open>None\<close> where the folder resolves to no project. Finding dead processes and killing
  what is left of them is not modelled.
\<close>

section \<open>Comments of the session\<close>

definition resolve_in_session :: "backend \<Rightarrow> string option \<Rightarrow> string \<Rightarrow> string be_result" where
  "resolve_in_session b session x =
     (case session of
        None \<Rightarrow> Inl (BNotFound ''project'')
      | Some p \<Rightarrow>
          bind_ok (resolve_item_id b (Some p) x) (\<lambda>k.
            case item_get b k of
              Inr it \<Rightarrow> if it_project it = p then Inr k else Inl (BNotFound x)
            | Inl (BNotFound _) \<Rightarrow> Inl (BNotFound x)
            | Inl e \<Rightarrow> Inl e))"

definition comment_in_session ::
  "sup_env \<Rightarrow> string option \<Rightarrow> backend \<Rightarrow> string \<Rightarrow> string \<Rightarrow> string \<Rightarrow> backend" where
  "comment_in_session S session b k body new_id =
     (if trim k = [] \<or> trim body = [] then b
      else case bind_ok (resolve_in_session b session k) (\<lambda>i.
                  comment_create b new_id i (se_author S) body (se_ts S)) of
             Inl _ \<Rightarrow> b
           | Inr (_, b') \<Rightarrow> b')"

section \<open>A job that failed for good\<close>

definition label_named :: "backend \<Rightarrow> string \<Rightarrow> string \<Rightarrow> string option" where
  "label_named b p name = map_option fst (find (\<lambda>(l, r). wl_name r = name) (labels_of_project b p))"

definition item_has_label :: "backend \<Rightarrow> string \<Rightarrow> string \<Rightarrow> string \<Rightarrow> bool" where
  "item_has_label b p k name =
     (case label_named b p name of None \<Rightarrow> False | Some l \<Rightarrow> l \<in> set (list_labels b k))"

definition at_failure_cap :: "thread \<Rightarrow> bool" where
  "at_failure_cap cs \<longleftrightarrow> consecutive_identical_failure_count cs \<ge> dispatch_failure_cap
     \<or> consecutive_failure_count_any_reason cs \<ge> dispatch_failure_cap_any_reason"

definition drop_label :: "string option \<Rightarrow> string \<Rightarrow> backend \<Rightarrow> backend" where
  "drop_label l k b = (case l of None \<Rightarrow> b | Some l \<Rightarrow> remove_label b k l)"

definition attach_label :: "string option \<Rightarrow> string \<Rightarrow> backend \<Rightarrow> backend be_result" where
  "attach_label l k b = (case l of None \<Rightarrow> Inr b | Some l \<Rightarrow> add_label b k l)"

definition put_assignee_back ::
  "be_env \<Rightarrow> backend \<Rightarrow> string \<Rightarrow> item \<Rightarrow> string \<Rightarrow> time \<Rightarrow> backend be_result" where
  "put_assignee_back E b k it agent ts =
     bind_ok (item_update E b k ts
       (no_update\<lparr>ui_assignee := Some (case it_assignee it of Some a \<Rightarrow> a | None \<Rightarrow> agent)\<rparr>)) (\<lambda>(_, b'). Inr b')"

definition back_in_review ::
  "be_env \<Rightarrow> backend \<Rightarrow> string \<Rightarrow> string \<Rightarrow> item \<Rightarrow> string \<Rightarrow> time \<Rightarrow> backend be_result" where
  "back_in_review E b p k it g ts =
     (if g \<noteq> ''in_review'' \<and> metadata_pr_number E (it_metadata it) \<noteq> None
         \<and> \<not> item_has_label b p k needs_decision_label
      then case find (\<lambda>(st, r). ws_group r = ''in_review'') (states_of_project b p) of
             None \<Rightarrow> Inr b
           | Some (st, _) \<Rightarrow> bind_ok (item_update_state b k st ts) (\<lambda>(_, b'). Inr b')
      else Inr b)"

text \<open>One transaction: an error leaves the tables as they were. The answer tells whether a cap was reached.\<close>

definition restore_after_terminal_failure ::
  "be_env \<Rightarrow> string option \<Rightarrow> backend \<Rightarrow> string \<Rightarrow> string \<Rightarrow> time \<Rightarrow> (bool option \<times> backend) be_result" where
  "restore_after_terminal_failure E session b k agent ts =
     (case session of
        None \<Rightarrow> Inr (None, b)
      | Some p \<Rightarrow>
          bind_ok (item_get b k) (\<lambda>it.
          bind_ok (wstate_get b (it_state it)) (\<lambda>s.
          if is_terminal_group (ws_group s) then Inr (None, b)
          else let cs = thread_of b k; at_cap = at_failure_cap cs;
                   dispatched = label_named b p dispatched_label; ready = label_named b p ready_label in
          if stopped_on_request cs then Inr (None, drop_label dispatched k b)
          else bind_ok (back_in_review E b p k it (ws_group s) ts) (\<lambda>b1.
          if \<not> at_cap \<and> ready = None then Inr (None, drop_label dispatched k b1)
          else bind_ok (put_assignee_back E (drop_label dispatched k b1) k it agent ts) (\<lambda>b2.
               bind_ok (attach_label (if at_cap then label_named b p needs_manual_label else ready) k b2)
                 (\<lambda>b3. Inr (Some at_cap, b3)))))))"

definition terminal_failure_restore_attempts :: nat where
  "terminal_failure_restore_attempts = 3"

text \<open>\<open>busy\<close> tells of each attempt whether the database refuses it.\<close>

fun restore_attempts ::
  "nat \<Rightarrow> (nat \<Rightarrow> bool) \<Rightarrow> (bool option \<times> backend) be_result \<Rightarrow> (bool option \<times> backend) option" where
  "restore_attempts 0 busy r = None"
| "restore_attempts (Suc n) busy r =
     (if busy n then restore_attempts n busy r
      else case r of Inr x \<Rightarrow> Some x | Inl _ \<Rightarrow> restore_attempts n busy r)"

definition cap_stop_words :: string where
  "cap_stop_words = '' '' @ dash_utf8 @ '' auto-redispatch stopped. Review the failure comments, fix the underlying ''
     @ ''issue, then `item action=redispatch` to retry.''"

definition cap_comment :: "thread \<Rightarrow> string" where
  "cap_comment cs =
     dispatch_failure_cap_marker @ newline2
     @ (if consecutive_identical_failure_count cs \<ge> dispatch_failure_cap
        then show_nat dispatch_failure_cap @ '' consecutive identical failures detected'' @ cap_stop_words
        else show_nat (consecutive_failure_count_any_reason cs)
          @ '' consecutive dispatch cycles failed (mixed or unrecorded reasons) without a clean success''
          @ cap_stop_words)
     @ (case latest_failure_reason cs of
          None \<Rightarrow> []
        | Some r \<Rightarrow> newline2 @ ''Last failure: `'' @ r @ ''`'')"

text \<open>\<open>session\<close> resolves the folder of the job, or the daemon's own when the job names none.\<close>

definition handle_terminal_job_failure ::
  "sup_env \<Rightarrow> (string option \<Rightarrow> string option) \<Rightarrow> (nat \<Rightarrow> bool) \<Rightarrow> agent_job \<Rightarrow> sup_world \<Rightarrow> sup_world" where
  "handle_terminal_job_failure S session busy job w =
     (case (aj_in_process job, aj_args job) of
        (True, k # agent # rest) \<Rightarrow>
          let p = session (case rest of [] \<Rightarrow> None | f # _ \<Rightarrow> Some f) in
          (case restore_attempts terminal_failure_restore_attempts busy
                  (restore_after_terminal_failure (se_be S) p (sw_db w) k agent (se_ts S)) of
             Some (Some True, b) \<Rightarrow>
               snd (first_time_gated
                 (w\<lparr>sw_db := comment_in_session S p b k (cap_comment (thread_of b k)) (se_id S ''cap'' k)\<rparr>) k)
           | Some (_, b) \<Rightarrow> w\<lparr>sw_db := b\<rparr>
           | None \<Rightarrow> w)
      | _ \<Rightarrow> w)"

section \<open>A job whose daemon died\<close>

text \<open>
  Three accesses to the database: the count of the failures, the reading of the item, its state and the
  labels of the project, and the transaction. \<open>others\<close> is what other processes do before the second and
  before the third.
\<close>

datatype recovery_moment = BeforeReading | BeforeWriting

definition restart_transaction ::
  "sup_env \<Rightarrow> string option \<Rightarrow> string option \<Rightarrow> string \<Rightarrow> item \<Rightarrow> string \<Rightarrow> string \<Rightarrow> backend
     \<Rightarrow> backend be_result" where
  "restart_transaction S dispatched wanted k it agent job_id b =
     bind_ok (with_ledger b (item_release (be_claims b) k (agent @ '':'' @ job_id))) (\<lambda>(_, b1).
     bind_ok (put_assignee_back (se_be S) (drop_label dispatched k b1) k it agent (se_ts S)) (\<lambda>b2.
     attach_label wanted k b2))"

definition restore_ready_for_work ::
  "sup_env \<Rightarrow> (recovery_moment \<Rightarrow> backend \<Rightarrow> backend) \<Rightarrow> string option \<Rightarrow> string \<Rightarrow> string \<Rightarrow> string \<Rightarrow> sup_world
     \<Rightarrow> bool \<times> sup_world" where
  "restore_ready_for_work S others session k agent job_id w =
     (let at_cap = (consecutive_failure_count_any_reason (thread_of (sw_db w) k)
            \<ge> dispatch_failure_cap_any_reason);
          b = others BeforeReading (sw_db w);
          r = bind_ok (item_get b k) (\<lambda>it.
              bind_ok (wstate_get b (it_state it)) (\<lambda>s.
              case (is_terminal_group (ws_group s), session) of
                (False, Some p) \<Rightarrow>
                  let c = others BeforeWriting b in
                  (case restart_transaction S (label_named b p dispatched_label)
                          (label_named b p (if at_cap then needs_manual_label else ready_label)) k it agent job_id c of
                     Inl _ \<Rightarrow> Inr c
                   | Inr b' \<Rightarrow> Inr b')
              | _ \<Rightarrow> Inr b));
          w' = w\<lparr>sw_db := (case r of Inl _ \<Rightarrow> b | Inr b' \<Rightarrow> b')\<rparr>
      in (at_cap, if at_cap then snd (first_time_gated w' k) else w'))"

definition post_any_reason_cap_comment ::
  "sup_env \<Rightarrow> string option \<Rightarrow> string \<Rightarrow> sup_world \<Rightarrow> sup_world" where
  "post_any_reason_cap_comment S session k w =
     w\<lparr>sw_db := comment_in_session S session (sw_db w) k
       (dispatch_failure_cap_marker @ newline2 @ show_nat dispatch_failure_cap_any_reason
        @ '' consecutive dispatch cycles failed (mixed or unrecorded reasons, including ''
        @ ''orphaned/daemon-restart cycles) without a clean success'' @ cap_stop_words) (se_id S ''cap'' k)\<rparr>"

section \<open>The items a completed item blocked\<close>

definition unblock_dependent ::
  "be_env \<Rightarrow> string option \<Rightarrow> time \<Rightarrow> string \<Rightarrow> backend \<Rightarrow> backend" where
  "unblock_dependent E inherited ts d b =
     (if \<not> all_dependencies_completed E b d then b
      else case item_get b d of
        Inl _ \<Rightarrow> b
      | Inr it \<Rightarrow>
          let r = (case (it_assignee it, inherited) of
                     (Some _, _) \<Rightarrow> Inr b
                   | (None, None) \<Rightarrow> Inl (BValidation ''no assignee to inherit'')
                   | (None, Some a) \<Rightarrow> bind_ok (item_update E b d ts (no_update\<lparr>ui_assignee := Some a\<rparr>))
                       (\<lambda>(_, b'). Inr b'))
          in case r of
               Inl _ \<Rightarrow> b
             | Inr b1 \<Rightarrow> (case attach_label (label_named b1 (it_project it) ready_label) d b1 of
                            Inl _ \<Rightarrow> b1
                          | Inr b2 \<Rightarrow> b2))"

definition cascade_unblock_dependents :: "be_env \<Rightarrow> time \<Rightarrow> string \<Rightarrow> backend \<Rightarrow> backend" where
  "cascade_unblock_dependents E ts k b =
     (case item_get b k of
        Inl _ \<Rightarrow> b
      | Inr done_item \<Rightarrow>
          fold (unblock_dependent E (map_option agent_part (it_assignee done_item)) ts) (dependents_of b k) b)"

end
