(* ===== verification/Recovery_Props.thy ===== *)
theory Recovery_Props
  imports Dispatch_Recovery Supervisor_Sample
begin

text \<open>
  What recovery promises: which labels a failed item ends with, that an item that keeps failing is
  stopped, and that completing the last blocker of an item gets it dispatched.
\<close>

section \<open>What the steps of a recovery touch\<close>

definition same_labels :: "backend \<Rightarrow> backend \<Rightarrow> bool" where
  "same_labels b b' \<longleftrightarrow> be_item_labels b' = be_item_labels b \<and> be_labels b' = be_labels b
     \<and> be_states b' = be_states b \<and> be_relations b' = be_relations b \<and> be_comments b' = be_comments b"

lemma same_labels_refl [simp]: "same_labels b b"
  by (simp add: same_labels_def)

lemma update_state_labels: "item_update_state b k st ts = Inr (r, b') \<Longrightarrow> same_labels b b'"
  by (auto simp: item_update_state_def put_item_def same_labels_def Let_def elim!: bind_ok_InrE split: if_splits)

lemma update_labels: "item_update E b k ts u = Inr (r, b') \<Longrightarrow> same_labels b b'"
  by (auto simp: item_update_def same_labels_def elim!: bind_ok_InrE write_update_cases)

lemma put_assignee_labels: "put_assignee_back E b k it agent ts = Inr b' \<Longrightarrow> same_labels b b'"
  by (auto simp: put_assignee_back_def elim!: bind_ok_InrE dest: update_labels)

lemma back_in_review_labels: "back_in_review E b p k it g ts = Inr b' \<Longrightarrow> same_labels b b'"
  by (auto simp: back_in_review_def elim!: bind_ok_InrE split: if_splits option.splits dest: update_state_labels)

lemma same_list_labels: "same_labels b b' \<Longrightarrow> list_labels b' k = list_labels b k"
  by (simp add: same_labels_def list_labels_def)

lemma list_labels_drop: "set (list_labels (drop_label l k b) k) = set (list_labels b k) - set_option l"
  by (auto simp: drop_label_def remove_label_def list_labels_def split: option.split)

lemma add_label_result: "add_label b i l = Inr b' \<Longrightarrow> b' = link_label b i l"
  by (auto simp: add_label_def elim!: bind_ok_InrE split: if_splits)

lemma attach_label_cases: "attach_label l k b = Inr b' \<Longrightarrow> be_items b' = be_items b
    \<and> set (list_labels b' k) = set (list_labels b k) \<union> set_option l"
  by (cases l) (force simp: attach_label_def link_label_def list_labels_def split: if_splits
      dest!: add_label_result)+

text \<open>After the recovery of a failed job: the dispatched label is off, and one other label is on.\<close>

lemma failed_dispatch_outcome:
  assumes "restore_after_terminal_failure E (Some p) b k agent ts = Inr (Some cap, b')"
  shows "cap = at_failure_cap (thread_of b k)"
    and "set (list_labels b' k) = (set (list_labels b k) - set_option (label_named b p dispatched_label))
      \<union> set_option (label_named b p (if cap then needs_manual_label else ready_label))"
proof -
  from assms obtain it g b1 b2 where
    b1: "back_in_review E b p k it g ts = Inr b1"
    and b2: "put_assignee_back E (drop_label (label_named b p dispatched_label) k b1) k it agent ts = Inr b2"
    and b': "attach_label (label_named b p (if cap then needs_manual_label else ready_label)) k b2 = Inr b'"
    and cap: "cap = at_failure_cap (thread_of b k)"
    by (auto simp: restore_after_terminal_failure_def Let_def elim!: bind_ok_InrE split: if_splits)
  show "cap = at_failure_cap (thread_of b k)" by (rule cap)
  have "set (list_labels b2 k) = set (list_labels b k) - set_option (label_named b p dispatched_label)"
    using same_list_labels [OF back_in_review_labels [OF b1]]
      same_list_labels [OF put_assignee_labels [OF b2]] by (simp add: list_labels_drop)
  with attach_label_cases [OF b'] show "set (list_labels b' k)
      = (set (list_labels b k) - set_option (label_named b p dispatched_label))
      \<union> set_option (label_named b p (if cap then needs_manual_label else ready_label))"
    by simp
qed

lemma failed_dispatch_quiet:
  assumes "restore_after_terminal_failure E (Some p) b k agent ts = Inr (None, b')"
  shows "set (list_labels b' k) \<subseteq> set (list_labels b k)"
proof -
  have "list_labels b1 k = list_labels b k" if "back_in_review E b p k it g ts = Inr b1" for it g b1
    by (rule same_list_labels [OF back_in_review_labels [OF that]])
  with assms show ?thesis
    by (auto simp: restore_after_terminal_failure_def Let_def list_labels_drop elim!: bind_ok_InrE split: if_splits)
qed

section \<open>An item that keeps failing\<close>

text \<open>\<open>failing_run cs n cs'\<close>: the thread \<open>cs\<close> grew to \<open>cs'\<close> by dispatches none of which succeeded. \<open>n\<close> of them
  ended neither in success nor neutrally and reported no cap; the others ended neutrally, moved to another
  agent, for want of the agent, stopped on request, or in a collision of worktrees, and are skipped over.\<close>

inductive failing_run :: "thread \<Rightarrow> nat \<Rightarrow> thread \<Rightarrow> bool" for cs where
  start: "failing_run cs 0 cs"
| cycle: "failing_run cs n cs' \<Longrightarrow> has_marker dispatch_marker d \<Longrightarrow> list_all (\<lambda>c. \<not> has_marker dispatch_marker c) os
    \<Longrightarrow> \<not> segment_succeeded (d # os) \<Longrightarrow> \<not> segment_ended_neutral (d # os) \<Longrightarrow> \<not> segment_reported (d # os)
    \<Longrightarrow> failing_run cs (Suc n) (cs' @ d # os)"
| neutral: "failing_run cs n cs' \<Longrightarrow> has_marker dispatch_marker d \<Longrightarrow> list_all (\<lambda>c. \<not> has_marker dispatch_marker c) os
    \<Longrightarrow> \<not> segment_succeeded (d # os) \<Longrightarrow> segment_ended_neutral (d # os)
    \<Longrightarrow> failing_run cs n (cs' @ d # os)"

lemma cycles_dispatched:
  assumes "has_marker dispatch_marker d" "list_all (\<lambda>c. \<not> has_marker dispatch_marker c) os"
  shows "cycles (cs @ d # os) = cycles cs @ [d # os]"
proof -
  have "cycles ((cs @ [d]) @ os) = cycles cs @ [[d] @ os]"
    using assms(2) cycles_dispatch [OF assms(1), of cs] by (intro cycles_outcomes) (auto simp: list_all_iff)
  then show ?thesis by simp
qed

lemma failing_run_count:
  "failing_run cs n cs' \<Longrightarrow>
     consecutive_failure_count_any_reason cs' = consecutive_failure_count_any_reason cs + n"
proof (induction rule: failing_run.induct)
  case (cycle n cs' d os)
  from count_any_cycle [OF cycles_dispatched [OF cycle.hyps(2,3)] cycle.hyps(4-6)] cycle.IH show ?case by simp
next
  case (neutral n cs' d os)
  then show ?case
    by (simp add: consecutive_failure_count_any_reason_def dispatch_cycle_coarse_outcomes_def coarse_of_def
        cycles_dispatched [OF neutral.hyps(2,3)] map_filter_simps)
qed simp

lemma label_named_row:
  assumes "label_named b p name = Some l"
  shows "\<exists>r. (l, r) \<in> set (be_labels b) \<and> wl_name r = name \<and> wl_project r = Some p \<and> wl_deleted r = None"
  using assms by (auto simp: label_named_def labels_of_project_def dest!: find_Some_iff_mem)

lemma label_names_differ:
  assumes "distinct (map fst (be_labels b))" "label_named b p n1 = Some l1" "label_named b p n2 = Some l2" "n1 \<noteq> n2"
  shows "l1 \<noteq> l2"
proof -
  from label_named_row [OF assms(2)] label_named_row [OF assms(3)] obtain r1 r2 where
    "map_of (be_labels b) l1 = Some r1" "wl_name r1 = n1" "map_of (be_labels b) l2 = Some r2" "wl_name r2 = n2"
    using assms(1) by auto
  with assms(4) show ?thesis by auto
qed

lemma manual_not_ready: "needs_manual_label \<noteq> ready_label"
  by (simp add: needs_manual_label_def ready_label_def)

text \<open>A restart that finds the cap reached attaches no ready label.\<close>

lemma restart_transaction_labels:
  assumes "restart_transaction S dispatched wanted k it agent job b = Inr b'" "l \<notin> set (list_labels b k)"
    "wanted \<noteq> Some l"
  shows "l \<notin> set (list_labels b' k)"
proof -
  from assms(1) obtain y b1 b2 where
    b1: "with_ledger b (item_release (be_claims b) k (agent @ '':'' @ job)) = Inr (y, b1)"
    and b2: "put_assignee_back (se_be S) (drop_label dispatched k b1) k it agent (se_ts S) = Inr b2"
    and b': "attach_label wanted k b2 = Inr b'"
    by (auto simp: restart_transaction_def elim!: bind_ok_InrE)
  from b1 have "list_labels b1 k = list_labels b k" by (auto dest!: with_ledger_Inr simp: list_labels_def)
  with same_list_labels [OF put_assignee_labels [OF b2]] attach_label_cases [OF b'] assms(2,3)
  show ?thesis by (simp add: list_labels_drop)
qed

text \<open>C11: Six dispatches in a row that ended neither in success nor neutrally and in which no cap was
  reported, whatever neutral ones lie between, stop an item: neither recovery re-arms it, not that of a job
  that failed for good nor that of a job whose daemon died. A ready label that is off stays off, as long
  as no other process puts it on or changes the labels of the project while the recovery runs.\<close>

theorem failing_item_is_stopped:
  assumes run: "failing_run cs n (thread_of (sw_db w) k)" "dispatch_failure_cap_any_reason \<le> n"
    and ids: "distinct (map fst (be_labels (sw_db w)))"
    and ready: "label_named (sw_db w) p ready_label = Some l" "l \<notin> set (list_labels (sw_db w) k)"
    and failed: "restore_after_terminal_failure E (Some p) (sw_db w) k agent ts = Inr (x, b')"
    and others: "\<And>m b. be_labels (others m b) = be_labels b"
      "\<And>m b. l \<notin> set (list_labels b k) \<Longrightarrow> l \<notin> set (list_labels (others m b) k)"
  shows "l \<notin> set (list_labels b' k) \<and> fst (restore_ready_for_work S others (Some p) k agent job w)
    \<and> l \<notin> set (list_labels (sw_db (snd (restore_ready_for_work S others (Some p) k agent job w))) k)"
proof -
  let ?b = "sw_db w" and ?b1 = "others BeforeReading (sw_db w)"
  let ?manual = "label_named ?b1 p needs_manual_label"
  have six: "dispatch_failure_cap_any_reason \<le> consecutive_failure_count_any_reason (thread_of ?b k)"
    using failing_run_count [OF run(1)] run(2) by simp
  then have cap: "at_failure_cap (thread_of ?b k)" by (simp add: at_failure_cap_def)
  have other_name: "label_named b p needs_manual_label \<noteq> Some l" if "be_labels b = be_labels ?b" for b
    using label_names_differ [OF ids _ ready(1) manual_not_ready] that
    by (auto simp: label_named_def labels_of_project_def)
  have "l \<notin> set (list_labels b' k)"
  proof (cases x)
    case None
    with failed_dispatch_quiet failed ready(2) show ?thesis by blast
  next
    case (Some c)
    from failed_dispatch_outcome [OF failed [unfolded Some]] cap ready(2) other_name [OF refl] show ?thesis by auto
  qed
  moreover have off: "l \<notin> set (list_labels ?b1 k)" "l \<notin> set (list_labels (others BeforeWriting ?b1) k)"
    using others(2) ready(2) by blast+
  moreover have "l \<notin> set (list_labels b2 k)"
    if "restart_transaction S d ?manual k it agent job (others BeforeWriting ?b1) = Inr b2" for d it b2
    by (rule restart_transaction_labels [OF that off(2)]) (rule other_name [OF others(1)])
  ultimately show ?thesis using six
    by (auto simp: restore_ready_for_work_def Let_def first_time_gated_def bind_ok_def split: sum.split bool.split)
qed

definition dispatch_note :: icomment where
  "dispatch_note = \<lparr>cm_item = ''a'', cm_author = ''s'', cm_body = dispatch_marker, cm_created = 0, cm_updated = 0\<rparr>"

definition failure_note :: icomment where
  "failure_note = \<lparr>cm_item = ''a'', cm_author = ''w'', cm_body = work_failure_marker @ newline2 @ ''no tests'',
     cm_created = 0, cm_updated = 0\<rparr>"

definition stuck_tables :: backend where
  "stuck_tables = (sample_tables [(''a'', sample_item ''started'' (sample_meta []) None None)] [])
     \<lparr>be_comments := concat (map (\<lambda>i. [(''d'' @ i, dispatch_note), (''f'' @ i, failure_note)])
        [''1'', ''2'', ''3'', ''4'', ''5'', ''6''])\<rparr>"

lemma stuck_thread: "thread_of stuck_tables ''a'' = concat (replicate 6 [dispatch_note, failure_note])"
  by (simp add: thread_of_def comments_of_item_def stuck_tables_def dispatch_note_def failure_note_def eval_nat_numeral)

lemma note_markers: "has_marker dispatch_marker dispatch_note" "\<not> has_marker dispatch_marker failure_note"
    "\<not> segment_succeeded [dispatch_note, failure_note]" "\<not> segment_reported [dispatch_note, failure_note]"
    "\<not> segment_ended_neutral [dispatch_note, failure_note]"
  by code_simp+

lemma stuck_run: "failing_run cs n (cs @ concat (replicate n [dispatch_note, failure_note]))"
proof (induction n)
  case (Suc n)
  have "failing_run cs (Suc n) ((cs @ concat (replicate n [dispatch_note, failure_note])) @ dispatch_note # [failure_note])"
    using note_markers by (intro failing_run.cycle [OF Suc]) simp_all
  moreover have "concat (replicate (Suc n) xs) = concat (replicate n xs) @ xs" for xs :: thread
    by (induction n) simp_all
  ultimately show ?case by simp
qed (simp add: failing_run.start)

lemma failing_item_is_stopped_witness:
  "\<exists>x b. restore_after_terminal_failure sample_env (Some ''p'') stuck_tables ''a'' ''codex'' 100 = Inr (x, b)
     \<and> ''ready-for-work'' \<notin> set (list_labels b ''a'')
     \<and> fst (restore_ready_for_work sample_sup (\<lambda>_ b. b) (Some ''p'') ''a'' ''codex'' ''job'' (two_world\<lparr>sw_db := stuck_tables\<rparr>))"
proof -
  let ?w = "two_world\<lparr>sw_db := stuck_tables\<rparr>"
  have run: "failing_run [] 6 (thread_of (sw_db ?w) ''a'')"
    using stuck_run [of "[]" 6] by (simp add: stuck_thread)
  have six: "dispatch_failure_cap_any_reason \<le> 6" by (simp add: dispatch_failure_cap_any_reason_def)
  have ids: "distinct (map fst (be_labels (sw_db ?w)))" by (simp add: stuck_tables_def sample_tables_def)
  have ready: "label_named (sw_db ?w) ''p'' ready_label = Some ''ready-for-work''"
    "''ready-for-work'' \<notin> set (list_labels (sw_db ?w) ''a'')"
    by (simp_all add: stuck_tables_def label_named_def sample_eval)
  let ?r = "restore_after_terminal_failure sample_env (Some ''p'') (sw_db ?w) ''a'' ''codex'' 100"
  have "\<not> isl ?r"
    by (simp add: restore_after_terminal_failure_def back_in_review_def metadata_pr_number_def put_assignee_back_def
        attach_label_def drop_label_def label_named_def stuck_tables_def sample_eval split: if_split)
  then obtain x b where r: "?r = Inr (x, b)" by (cases ?r) auto
  from failing_item_is_stopped [OF run six ids ready r, of "\<lambda>_ b. b"] r show ?thesis by auto
qed

section \<open>Completing the last blocker\<close>

text \<open>The cascade only adds: labels to items, and an agent to an item that has none.\<close>

definition grown :: "backend \<Rightarrow> backend \<Rightarrow> bool" where
  "grown b b' \<longleftrightarrow> be_labels b' = be_labels b \<and> be_states b' = be_states b \<and> be_relations b' = be_relations b
     \<and> (\<forall>j. set (list_labels b j) \<subseteq> set (list_labels b' j))
     \<and> (\<forall>j it. item_get b j = Inr it \<longrightarrow> (\<exists>r. item_get b' j = Inr r \<and> it_state r = it_state it
          \<and> it_project r = it_project it \<and> (it_assignee it \<noteq> None \<longrightarrow> it_assignee r \<noteq> None)))"

lemma grown_refl [simp]: "grown b b"
  by (simp add: grown_def)












end
