(* ===== verification/Spec2Isabelle.thy ===== *)
theory Spec2Isabelle
  imports Claim_Ledger Wf_Schedule_Live Wf_Task Wf_Start_Once Wf_Variables Wf_Sqlite Job_Life Job_Output
    Bridge_Tick_Props Pr_Identity_Props Approval_Audit Git_Shim_Guard Gate_State Circuit
    Item_Claim_Props Supervisor_Props Recovery_Props
begin

text \<open>
  A verification development for \<^bold>\<open>agentflare\<close>, a daemon that dispatches coding agents to work items.

  \<^bold>\<open>The program and what is modelled.\<close> Three parts of the program decide who works on what, and what
  happens when something fails in between; a fourth keeps the work items and decides when one is
  dispatched; a fifth coordinates several machines over GitHub; three more decide what an agent may do.

  \<^item> \<^bold>\<open>Claims\<close>: an agent claims a work item in a SQL ledger by heartbeat and time to live
    (\<^verbatim>\<open>crates/agentflare-db-kit/src/claim.rs\<close>, used by \<^verbatim>\<open>crates/agentflare-backend/src/claim.rs\<close>).
  \<^item> \<^bold>\<open>Jobs\<close>: the daemon's queue of agent jobs, with retries, cancellation and the reconciliation of
    jobs whose worker died (\<^verbatim>\<open>crates/agentflare-jobs/src\<close>).
  \<^item> \<^bold>\<open>Workflows\<close>: a durable workflow engine (\<^verbatim>\<open>crates/flare-workflow/src\<close>): definitions are graphs of
    steps, runs are journaled, recovered after a crash under executor leases, paused, cancelled,
    compensated and charged to a budget.
  \<^item> \<^bold>\<open>Items and dispatch\<close>: the backend keeps items with states, labels, relations, comments and plan
    gates in SQL tables (\<^verbatim>\<open>crates/agentflare-backend/src\<close>); an item is claimed, released, finished and
    re-armed by transactions over them and the claim ledger (\<^verbatim>\<open>item/claim.rs\<close>). The supervisor's discovery
    tick (\<open>run_discovery_tick\<close> of \<^verbatim>\<open>src/supervisor.rs\<close>) turns ready items into jobs; for each it asks the
    quota decision (\<^verbatim>\<open>src/quota\<close>), which looks at the item's goal, its siblings, its blockers and its agent.
  \<^item> \<^bold>\<open>GitHub bridge\<close>: instances on several machines claim issues by marker comments, heartbeat and cede
    them, and export their progress (\<^verbatim>\<open>src/github/bridge\<close>); pull requests carry stamps that say whose
    they are (\<^verbatim>\<open>src/github/pulls.rs\<close>, \<^verbatim>\<open>src/github/pr_owner.rs\<close>), and a machine claims one before it
    repairs it (\<open>claim_self_repair\<close> of \<^verbatim>\<open>src/supervisor.rs\<close>).
  \<^item> \<^bold>\<open>Approvals\<close>: a shell command of an agent is classified, and allowed, blocked or parked until a
    person answers (\<^verbatim>\<open>crates/agentflare-approval/src\<close>, \<^verbatim>\<open>crates/agentflare-store/src/approval.rs\<close>).
  \<^item> \<^bold>\<open>Git\<close>: a shim in front of git denies an agent what would harm the repository: pushes of the
    default branch, work in the canonical checkout, changes inside another agent's claim
    (\<^verbatim>\<open>crates/flare-git-shim/src\<close>, \<^verbatim>\<open>crates/flare-git-core/src\<close>, the scope check of \<^verbatim>\<open>src/cli/git.rs\<close>).
  \<^item> \<^bold>\<open>Resources\<close>: a gate that throttles dispatch on a busy machine and the size of the worker pool
    (\<^verbatim>\<open>crates/agentflare-resource-gate/src\<close>), and the circuit breaker of the gateway's backends
    (\<^verbatim>\<open>crates/gateway-registry/src/circuit.rs\<close>).

  They interact by calls: a job of the queue claims its item, and may start a workflow; a workflow's
  driver loop schedules step tasks, which write the run's state through a store and append to its
  journal; recovery reads the journal back. The shim asks the scope check, a child process, which reads
  the live claims of the ledger; the gate is read before a job is dispatched. The bridge keeps the local
  claim ledger in step with the claims it holds on GitHub.

  \<^bold>\<open>The theories.\<close>
  \<^item> \<open>Prelude\<close>, \<open>Str_Ops\<close>: times, saturating arithmetic, the string operations of Rust's standard library
    the sources use (as functions on byte strings), association lists.
  \<^item> \<open>Lease\<close>: the contract of a lease as a locale: nobody takes over what another holds unexpired. It is
    interpreted on the claim ledger (\<open>cl\<close>) and on the leases of executors (\<open>wl\<close>, in \<open>Wf_Takeover\<close>).
  \<^item> \<open>Claim_Ledger\<close>: \<^verbatim>\<open>claim.rs\<close> of both crates. The table is an association list from keys to rows.
  \<^item> \<open>Job_Queue\<close>: \<^verbatim>\<open>queue.rs\<close>: the rows of \<open>agent_jobs\<close> in order, one definition per operation.
    \<open>Job_Worker\<close>: \<^verbatim>\<open>worker.rs\<close>, and histories of operations of a daemon's workers and everybody else.
    \<open>Job_Life\<close>: the abstract machine of one job, the simulation that every operation is a step of it,
    and the properties of histories. \<open>Job_Output\<close>: the pump of \<^verbatim>\<open>supervisor.rs\<close>.
  \<^item> \<open>F64\<close>: binary64 numbers with round to nearest even, as far as money and backoffs use them.
  \<^item> \<open>Wf_Types\<close>, \<open>Wf_State\<close>: \<^verbatim>\<open>types.rs\<close>; \<open>Wf_Budget\<close>: \<^verbatim>\<open>budget.rs\<close>; \<open>Wf_Retry\<close>: \<^verbatim>\<open>retry.rs\<close>;
    \<open>Wf_Definition\<close>: \<^verbatim>\<open>definition.rs\<close>; \<open>Wf_Variables\<close>: \<^verbatim>\<open>variables.rs\<close>.
  \<^item> \<open>Wf_Store\<close>: \<^verbatim>\<open>store.rs\<close>: the trait as the locale \<open>state_store\<close>, the in-memory store and the
    interpretation \<open>mem\<close>. \<open>Wf_Sqlite\<close>: \<^verbatim>\<open>sqlite_store.rs\<close>, \<^verbatim>\<open>journal.rs\<close>, \<^verbatim>\<open>sqlite_budget.rs\<close> and the
    refinement of the in-memory store.
  \<^item> \<open>Wf_Engine\<close>: \<^verbatim>\<open>engine.rs\<close> (start, settle, evict), \<^verbatim>\<open>engine_lease.rs\<close>, \<^verbatim>\<open>engine_control.rs\<close>, \<^verbatim>\<open>events.rs\<close>.
    A world is an engine and its store; an action is a function on worlds that may fail (\<open>act\<close>).
    \<open>Wf_Takeover\<close>: histories of engines that share a store. \<open>Wf_Start_Once\<close>: \<^verbatim>\<open>engine_start_once.rs\<close>,
    \<^verbatim>\<open>sqlite_start_once.rs\<close>.
  \<^item> \<open>Wf_Scheduler\<close>: the driver loop of \<open>execute_workflow\<close> (\<^verbatim>\<open>engine.rs\<close>) as a step relation, with the
    step tasks' ends as its other steps. \<open>Wf_Schedule_Inv\<close> and \<open>Wf_Schedule_Live\<close>: its invariants.
  \<^item> \<open>Wf_Exec\<close>: \<^verbatim>\<open>engine_execution.rs\<close>, \<^verbatim>\<open>executor.rs\<close>; \<open>Wf_Loop\<close>: \<^verbatim>\<open>loops.rs\<close>; \<open>Wf_Waits\<close>: \<^verbatim>\<open>waits.rs\<close>;
    \<open>Wf_Rollback\<close>: \<^verbatim>\<open>rollback.rs\<close>; \<open>Wf_Task\<close>: the body of a step task in \<^verbatim>\<open>engine.rs\<close>.
  \<^item> \<open>Item_Db\<close>: the tables of the backend as one record, with \<^verbatim>\<open>state.rs\<close>; \<open>Item_Relations\<close>: \<^verbatim>\<open>label.rs\<close>,
    \<^verbatim>\<open>item/relations.rs\<close>; \<open>Item_Crud\<close>: \<^verbatim>\<open>item/crud.rs\<close>; \<open>Item_Comments\<close>: \<^verbatim>\<open>comment.rs\<close>; \<open>Project_Dirs\<close>:
    \<^verbatim>\<open>project.rs\<close>, \<^verbatim>\<open>project_dir.rs\<close>; \<open>Plan_Gate\<close>: \<^verbatim>\<open>item/plan_gate.rs\<close>; \<open>Item_Claim\<close>: \<^verbatim>\<open>item/claim.rs\<close>.
    \<open>Item_Claim_Props\<close>, \<open>Item_Rearm\<close>, \<open>Item_Parents\<close>: what a claim grants and refuses, what re-arming and
    updating keep, and the forest of parents. \<open>Json_Sample\<close>, \<open>Item_Sample\<close>, \<open>Supervisor_Sample\<close>: a concrete
    JSON reader and printer and small tables, on which the properties are instantiated.
  \<^item> \<open>Quota_Goal\<close>: \<^verbatim>\<open>quota/goal.rs\<close>, \<^verbatim>\<open>quota/lifecycle.rs\<close>, and the tables that sequences of operations reach;
    \<open>Quota_Decide\<close>: \<^verbatim>\<open>quota/decide.rs\<close>, \<^verbatim>\<open>quota/failover.rs\<close>; \<open>Quota_Props\<close>: its properties.
    \<open>Failure_Ceiling\<close>: \<^verbatim>\<open>dispatch_failure_ceiling.rs\<close>, the two counts of failed dispatch cycles.
    \<open>Supervisor_Tick\<close>: the discovery tick; \<open>Supervisor_Props\<close>: its invariants, and that it ends.
    \<open>Dispatch_Recovery\<close>: what \<^verbatim>\<open>dashboard/orphan_reconcile.rs\<close> does to the item of a job that failed or
    died, and the cascade of \<^verbatim>\<open>supervisor.rs\<close> to the items a completed one blocked; \<open>Recovery_Props\<close>: its
    properties.
  \<^item> \<open>Bridge_Marker\<close>: \<^verbatim>\<open>marker.rs\<close>, with the check of ids of \<^verbatim>\<open>config.rs\<close>; \<open>Bridge_Claim\<close>: \<^verbatim>\<open>claim.rs\<close>, and who
    wins; \<open>Bridge_World\<close>: GitHub as a record of calls on an abstract state, the item database
    (\<^verbatim>\<open>items.rs\<close>, \<^verbatim>\<open>item/crud.rs\<close>) with writes that may fail; \<open>Bridge_Tick\<close>: \<^verbatim>\<open>tick.rs\<close>;
    \<open>Bridge_Tick_Safe\<close>, \<open>Bridge_Tick_Props\<close>: its invariants and properties. \<open>Pr_Identity\<close>: the stamps
    and tags of pull requests and their owners; \<open>Pr_Identity_Props\<close>: its properties.
  \<^item> \<open>Approval_Class\<close>: \<^verbatim>\<open>classifier.rs\<close>, \<^verbatim>\<open>policy.rs\<close>; \<open>Approval_Redact\<close>: \<^verbatim>\<open>redact.rs\<close>;
    \<open>Approval_Store\<close>: the two tables of \<^verbatim>\<open>approval.rs\<close>; \<open>Approval_Gate\<close>: \<^verbatim>\<open>gate.rs\<close> as interleaved
    steps of calls and answers; \<open>Approval_Gate_Inv\<close>, \<open>Approval_Audit\<close>: its invariants and properties.
    \<open>Json_Value\<close>: the JSON values that redaction and workflow data share.
  \<^item> \<open>Git_World\<close>: what the policy asks of git, the environment and the file system (parameters), with
    \<^verbatim>\<open>shell.rs\<close>, \<^verbatim>\<open>branch.rs\<close>; \<open>Git_Policy\<close>: \<^verbatim>\<open>policy_config.rs\<close>, \<^verbatim>\<open>config_loader.rs\<close>;
    \<open>Git_Classify\<close>: \<^verbatim>\<open>classify.rs\<close>; \<open>Git_Guard\<close>: which pushes are denied; \<open>Git_Scope\<close>: \<^verbatim>\<open>scope.rs\<close> and
    the scope check; \<open>Git_Shim\<close>: \<^verbatim>\<open>main.rs\<close> of the shim; \<open>Git_Shim_Guard\<close>: what gets through it.
  \<^item> \<open>Gate_Policy\<close>: \<^verbatim>\<open>config.rs\<close>, \<^verbatim>\<open>policy.rs\<close>, \<^verbatim>\<open>signals.rs\<close> of the resource gate; \<open>Gate_State\<close>: \<^verbatim>\<open>gate.rs\<close>
    and \<^verbatim>\<open>pool_size.rs\<close>; \<open>Circuit\<close>: \<^verbatim>\<open>circuit.rs\<close>.

  \<^bold>\<open>Conventions.\<close> Structs are records, enums datatypes, errors values of a sum. A clock is an argument,
  and so are random numbers, file sizes, serde's encodings, executors and what other processes do
  between its steps: the tick and the restart of an orphaned job name the moments at which others act.
  SQL statements are functions on the rows; a transaction is one step.
  Machine integers are \<open>nat\<close> or \<open>int\<close> with saturation or wrap-around written out where the code has it.

  \<^bold>\<open>What is proved.\<close> The properties are the theorems that follow a numbered text; the other lemmas
  on the behaviour of a component stand beside them. On claims: the outcome of an acquire, that a live
  claim survives and is exclusive over any history. On items and dispatch: what a granted claim leaves
  behind and that a refused one writes nothing; that a finished item stays; that an approval survives
  updates; what re-arming does; that parents stay a forest under every operation; that what the
  supervisor decides to run its agent is granted, once the plan gate is open and the item not parked;
  that a tick starts cleared items only, gives no item a second job unless another process enqueues one
  between its look and its own enqueueing, keeps a project to its share and ends; that an item which
  keeps failing is stopped, and that completing the last blocker of an item makes it ready. On jobs: one runner per job, a bound on
  its attempts, that a cancelled job is never run again, that a log is a prefix of the output. On
  workflows: the budget's bounds; capped backoffs; that validation accepts exactly the acyclic
  definitions; that metrics count the matching runs; that the two stores answer alike, but for the journal of a run that has no
  entries; that a live executor keeps its run while its lease is fresh, when a run is taken over, that a start key starts one run; that the scheduler
  launches a step only when its dependencies allow and, while no step is paused, at most once, never
  gets stuck, and does not run a step again whose run is journaled with a result; what recovery makes of
  each outcome of a step; that loops journal
  consecutive iterations, sleeps keep their deadline, events are found, compensations run in reverse
  order and are recorded once; that a settled run stays settled. On the bridge: a live holder is not
  displaced, an uncontended claim wins and a heartbeat keeps it, when two claimants win at once; a tick
  respects the capacity whatever fails, and announces a cede only for a cancelled item; a pull request's
  footer marks its own item and a conflicting tag rejects it. On approvals: the class of a compound
  command, what the read-only tier runs, what redaction hides; that a decision is final, a command is
  let through for a reason only, a grant goes back to an answer, and a request nobody answers is denied.
  On git: that a push of the default branch is denied in the spellings the parser knows, when a change is held
  back by another claim, what an agent can get through the shim at all. On resources: that a forced
  resume holds, the bounds of the pool, when the breaker refuses. Several theorems and lemmas state
  behaviour the code does not mean to have; the manifest lists them as findings.

  \<^bold>\<open>Bounds and termination.\<close> The cycle search runs with fuel \<open>dfs_fuel\<close>, proved to be enough for every
  definition. Retry loops end by the measure of the attempts left; a run with unlimited attempts is
  bounded by the \<open>u32\<close> range of its counter as in the code. Polling loops consume a list of what each
  poll sees. The walk to the nearest goal is a partial function; it is proved to end on every table that
  the operations reach, and the tick with it. Commands, refspecs and scopes are scanned by recursion on the rest of the text.

  \<^bold>\<open>Not modelled.\<close> git itself, GitHub, the TOML parser, the JSON reader and printer of the backend (what
  the properties need of them is that a printed value reads back, \<open>json_reads_back\<close>), the router of agents, hash functions, the parser of decimal fractions and the CPU sample are
  parameters. Left out are the scan for secrets after the scope check, operating-system calls, HTTP,
  the parsing of definitions from JSON, the SQL of reports, the delivery of events to subscribers,
  shutdown; webhooks, full-text search, the decomposition of items, the review sweep of the
  supervisor and the search for dead processes; SQL errors that do not come from a key or a check; and the crates that are listed as not modelled in the manifest, most of which wrap files,
  processes or services.
\<close>

end
